(* ===== verification/Bowline_Prelude.thy ===== *)
theory Bowline_Prelude
  imports Main "HOL-Library.Sublist"
begin

text \<open>
  Shared vocabulary of the development: the widths of the machine integers the
  Rust sources use (kept as naturals with their bounds written out), results as
  sums, transition systems with their reachable states, and the generic facts
  the components share.

  \<^item> A Rust \<open>u64\<close> or \<open>u32\<close> is a natural number; every operation that could
    overflow is written with its check (\<open>checked_add\<close>) or its saturation.
  \<^item> A Rust \<open>Result<T, E>\<close> is \<open>'e + 't\<close> with \<open>Inl\<close> for the error.
  \<^item> A method on \<open>&mut self\<close> that returns a result is a function from the state
    to the result paired with the state it leaves, on the error paths too.
\<close>

section \<open>Machine integers\<close>

type_synonym u64 = nat
type_synonym u32 = nat

definition u64_MAX :: u64 where
  "u64_MAX = 18446744073709551615"

definition u32_MAX :: u32 where
  "u32_MAX = 4294967295"

definition checked_add_u64 :: "u64 \<Rightarrow> u64 \<Rightarrow> u64 option" where
  "checked_add_u64 a b = (if a + b \<le> u64_MAX then Some (a + b) else None)"

definition checked_sub_u64 :: "u64 \<Rightarrow> u64 \<Rightarrow> u64 option" where
  "checked_sub_u64 a b = (if b \<le> a then Some (a - b) else None)"

definition checked_add_u32 :: "u32 \<Rightarrow> u32 \<Rightarrow> u32 option" where
  "checked_add_u32 a b = (if a + b \<le> u32_MAX then Some (a + b) else None)"

definition saturating_add_u64 :: "u64 \<Rightarrow> u64 \<Rightarrow> u64" where
  "saturating_add_u64 a b = min (a + b) u64_MAX"

section \<open>Option and result helpers\<close>

text \<open>\<open>Option::filter\<close> and \<open>Option::ok_or\<close>.\<close>

definition filter_option :: "('a \<Rightarrow> bool) \<Rightarrow> 'a option \<Rightarrow> 'a option" where
  "filter_option p x = (case x of Some a \<Rightarrow> if p a then Some a else None | None \<Rightarrow> None)"

definition ok_or :: "'a option \<Rightarrow> 'e \<Rightarrow> 'e + 'a" where
  "ok_or x e = (case x of Some a \<Rightarrow> Inr a | None \<Rightarrow> Inl e)"

fun is_ok :: "'e + 'a \<Rightarrow> bool" where
  "is_ok (Inl _) = False"
| "is_ok (Inr _) = True"

section \<open>Transition systems\<close>

text \<open>
  The reachable states of a system with given start states and steps. Every
  state machine of the development is one of these.
\<close>

inductive reach :: "('s \<Rightarrow> bool) \<Rightarrow> ('s \<Rightarrow> 's \<Rightarrow> bool) \<Rightarrow> 's \<Rightarrow> bool"
  for init :: "'s \<Rightarrow> bool" and step :: "'s \<Rightarrow> 's \<Rightarrow> bool" where
  reach_init: "init s \<Longrightarrow> reach init step s"
| reach_step: "reach init step s \<Longrightarrow> step s t \<Longrightarrow> reach init step t"

text \<open>
  What a component owes for an invariant: the start states have it and every
  step keeps it.
\<close>

locale inductive_invariant =
  fixes init :: "'s \<Rightarrow> bool"
    and step :: "'s \<Rightarrow> 's \<Rightarrow> bool"
    and inv :: "'s \<Rightarrow> bool"
  assumes init_inv: "init s \<Longrightarrow> inv s"
    and step_inv: "inv s \<Longrightarrow> step s t \<Longrightarrow> inv t"
begin

lemma reach_inv: "reach init step s \<Longrightarrow> inv s"
  by (induction rule: reach.induct) (auto intro: init_inv step_inv)

lemma rtranclp_inv: "step\<^sup>*\<^sup>* s t \<Longrightarrow> inv s \<Longrightarrow> inv t"
  by (induction rule: rtranclp.induct) (auto intro: step_inv)

end

text \<open>
  A counter that steps by one below a limit and then stops. The four schema
  counters of the recovery protocol are of this shape.
\<close>

locale bounded_counter =
  fixes next_of :: "u64 \<Rightarrow> u64 option"
    and limit :: u64
  assumes next_some: "next_of n = Some m \<longleftrightarrow> m = Suc n \<and> m \<le> limit"
begin

lemma next_less: "next_of n = Some m \<Longrightarrow> n < m"
  by (simp add: next_some)

lemma next_le_limit: "next_of n = Some m \<Longrightarrow> m \<le> limit"
  by (simp add: next_some)

lemma next_none_iff: "next_of n = None \<longleftrightarrow> limit \<le> n"
proof (cases "next_of n")
  case None
  then have "\<not> Suc n \<le> limit"
    using next_some[of n "Suc n"] by auto
  with None show ?thesis by simp
next
  case (Some m)
  then have "Suc n \<le> limit" by (simp add: next_some)
  with Some show ?thesis by simp
qed

end

section \<open>Generic lemmas\<close>

lemma map_sum_Inr: "map_sum f g x = Inr y \<longleftrightarrow> (\<exists>z. x = Inr z \<and> y = g z)"
  by (cases x) auto

lemma filter_option_Some [simp]:
  "filter_option p x = Some a \<longleftrightarrow> x = Some a \<and> p a"
  by (auto simp: filter_option_def split: option.splits)

lemma ok_or_simps [simp]:
  "ok_or (Some a) e = Inr a"
  "ok_or None e = Inl e"
  by (simp_all add: ok_or_def)

lemma ok_or_Inr_iff [simp]: "ok_or x e = Inr a \<longleftrightarrow> x = Some a"
  by (cases x) auto

lemma ok_or_Inl_iff [simp]: "ok_or x e = Inl e' \<longleftrightarrow> x = None \<and> e' = e"
  by (cases x) auto

lemma is_ok_iff: "is_ok r \<longleftrightarrow> (\<exists>a. r = Inr a)"
  by (cases r) auto

lemma checked_add_u64_Some [simp]:
  "checked_add_u64 a b = Some c \<longleftrightarrow> c = a + b \<and> a + b \<le> u64_MAX"
  by (auto simp: checked_add_u64_def)

lemma checked_add_u64_None [simp]:
  "checked_add_u64 a b = None \<longleftrightarrow> u64_MAX < a + b"
  by (auto simp: checked_add_u64_def)

lemma checked_sub_u64_Some [simp]:
  "checked_sub_u64 a b = Some c \<longleftrightarrow> b \<le> a \<and> c = a - b"
  by (auto simp: checked_sub_u64_def)

lemma checked_add_u32_Some [simp]:
  "checked_add_u32 a b = Some c \<longleftrightarrow> c = a + b \<and> a + b \<le> u32_MAX"
  by (auto simp: checked_add_u32_def)

lemma saturating_add_u64_le: "saturating_add_u64 a b \<le> u64_MAX"
  by (simp add: saturating_add_u64_def)

end
