(* ===== verification/Recovery_Types.thy ===== *)
theory Recovery_Types
  imports Bowline_Prelude
begin

text \<open>
  The vocabulary of watcher recovery, from
  \<^verbatim>\<open>crates/bowline-daemon/src/watcher_recovery/types.rs\<close>, \<^verbatim>\<open>types/*.rs\<close> and
  \<^verbatim>\<open>protocol.rs\<close>, and the native coverage evidence it carries, from
  \<^verbatim>\<open>crates/bowline-daemon/src/watcher_coverage/mod.rs\<close>.

  Newtypes over \<open>u64\<close> are type synonyms; their checked constructors are the
  \<open>_new\<close> functions. A timestamp (\<open>OffsetDateTime\<close> of the \<open>time\<close> crate) is only
  copied and compared, so it is an integer here. A \<open>Duration\<close> is its number of
  nanoseconds.
\<close>

section \<open>Schema bounds and identifiers\<close>

definition MAX_SCHEMA_INTEGER :: u64 where
  "MAX_SCHEMA_INTEGER = 9007199254740991"

definition MAX_RECOVERY_COUNT :: u64 where
  "MAX_RECOVERY_COUNT = 1000000"

definition MAX_DURATION_MS :: u64 where
  "MAX_DURATION_MS = 31536000000"

datatype RecoveryTypeError =
    ZeroIdentifier string
  | SchemaIntegerOutOfRange string u64
  | RecoveryCountOutOfRange u64
  | InvalidTimestamp
  | InvalidManifestKey
  | HeadVersionMustBePositive
  | InvalidBackoffPolicy

type_synonym IncidentId = u64
type_synonym AttemptId = u64
type_synonym RecoveryWorkerId = u64
type_synonym RecoveryProjectorId = u64

text \<open>The \<open>new\<close> of the \<open>prefixed_id!\<close> macro, at the name it is expanded with.\<close>

definition prefixed_id_new :: "string \<Rightarrow> u64 \<Rightarrow> RecoveryTypeError + u64" where
  "prefixed_id_new kind value =
     (if value = 0 then Inl (ZeroIdentifier kind) else Inr value)"

type_synonym ActivityWatermark = u64
type_synonym LossWatermark = u64
type_synonym RecoveryRevision = u64
type_synonym RecoveryScanRevision = u64
type_synonym RecoveryCount = u64

definition ActivityWatermark_new :: "u64 \<Rightarrow> RecoveryTypeError + ActivityWatermark" where
  "ActivityWatermark_new value =
     (if value > MAX_SCHEMA_INTEGER
      then Inl (SchemaIntegerOutOfRange ''activityWatermark'' value) else Inr value)"

definition ActivityWatermark_checked_next :: "ActivityWatermark \<Rightarrow> ActivityWatermark option" where
  "ActivityWatermark_checked_next w =
     filter_option (\<lambda>value. value < MAX_SCHEMA_INTEGER) (checked_add_u64 w 1)"

definition ActivityWatermark_terminal :: ActivityWatermark where
  "ActivityWatermark_terminal = MAX_SCHEMA_INTEGER"

definition LossWatermark_new :: "u64 \<Rightarrow> RecoveryTypeError + LossWatermark" where
  "LossWatermark_new value =
     (if value > MAX_SCHEMA_INTEGER
      then Inl (SchemaIntegerOutOfRange ''lossWatermark'' value) else Inr value)"

definition LossWatermark_checked_next :: "LossWatermark \<Rightarrow> LossWatermark option" where
  "LossWatermark_checked_next w =
     filter_option (\<lambda>value. value < MAX_SCHEMA_INTEGER) (checked_add_u64 w 1)"

definition LossWatermark_terminal :: LossWatermark where
  "LossWatermark_terminal = MAX_SCHEMA_INTEGER"

definition RecoveryRevision_new :: "u64 \<Rightarrow> RecoveryTypeError + RecoveryRevision" where
  "RecoveryRevision_new value =
     (if value > MAX_SCHEMA_INTEGER
      then Inl (SchemaIntegerOutOfRange ''snapshotRevision'' value) else Inr value)"

definition RecoveryRevision_checked_next :: "RecoveryRevision \<Rightarrow> RecoveryRevision option" where
  "RecoveryRevision_checked_next r =
     filter_option (\<lambda>value. value < MAX_SCHEMA_INTEGER) (checked_add_u64 r 1)"

definition RecoveryRevision_terminal :: RecoveryRevision where
  "RecoveryRevision_terminal = MAX_SCHEMA_INTEGER"

definition RecoveryScanRevision_new :: "u64 \<Rightarrow> RecoveryTypeError + RecoveryScanRevision" where
  "RecoveryScanRevision_new value =
     (if value > MAX_SCHEMA_INTEGER
      then Inl (SchemaIntegerOutOfRange ''authoritativeScanRevision'' value) else Inr value)"

definition RecoveryCount_new :: "u64 \<Rightarrow> RecoveryTypeError + RecoveryCount" where
  "RecoveryCount_new value =
     (if value > MAX_RECOVERY_COUNT then Inl (RecoveryCountOutOfRange value) else Inr value)"

definition RecoveryCount_checked_next :: "RecoveryCount \<Rightarrow> RecoveryCount option" where
  "RecoveryCount_checked_next c =
     filter_option (\<lambda>value. value \<le> MAX_RECOVERY_COUNT) (checked_add_u64 c 1)"

section \<open>Time\<close>

type_synonym RecoveryTimestamp = int

text \<open>\<open>Duration::MAX\<close> is \<open>u64::MAX\<close> seconds and 999999999 nanoseconds.\<close>

type_synonym Duration = nat

definition Duration_MAX :: Duration where
  "Duration_MAX = u64_MAX * 1000000000 + 999999999"

definition Duration_from_millis :: "u64 \<Rightarrow> Duration" where
  "Duration_from_millis ms = ms * 1000000"

definition Duration_as_millis :: "Duration \<Rightarrow> nat" where
  "Duration_as_millis d = d div 1000000"

definition Duration_saturating_mul :: "Duration \<Rightarrow> u32 \<Rightarrow> Duration" where
  "Duration_saturating_mul d k = min (d * k) Duration_MAX"

definition u64_try_from :: "nat \<Rightarrow> u64 option" where
  "u64_try_from n = (if n \<le> u64_MAX then Some n else None)"

type_synonym RecoveryInstant = u64

definition RecoveryInstant_checked_add :: "RecoveryInstant \<Rightarrow> Duration \<Rightarrow> RecoveryInstant option" where
  "RecoveryInstant_checked_add t duration =
     (case u64_try_from (Duration_as_millis duration) of
        None \<Rightarrow> None
      | Some millis \<Rightarrow> checked_add_u64 t millis)"

definition elapsed_since :: "RecoveryInstant \<Rightarrow> RecoveryInstant \<Rightarrow> Duration option" where
  "elapsed_since t earlier = map_option Duration_from_millis (checked_sub_u64 t earlier)"

record RecoveryMoment =
  observed_at :: RecoveryTimestamp
  monotonic :: RecoveryInstant

section \<open>Failure codes, causes, phases\<close>

datatype RecoveryFailureCode =
    DependencyUnavailable
  | DependencyBusy
  | Code_AuthenticationRequired
  | Code_AuthorizationLost
  | IntegrityMismatch
  | ObserverStartUnavailable
  | ObserverInitialValueTimeout
  | ObserverStreamUnavailable
  | ObserverUnknownSigner
  | ObserverIntegrity
  | ObserverFatalContract
  | RecoveryWorkerIdExhausted
  | RecoveryActivityWatermarkExhausted
  | RecoveryCauseCountExhausted
  | RecoveryAttemptIdExhausted
  | RecoveryAttemptCountExhausted
  | RecoveryClosureDurationOutOfRange
  | RecoveryRetryCountExhausted
  | RecoveryRetryDeadlineOverflow
  | RecoveryIncidentIdExhausted
  | Code_RecoveryRevisionExhausted
  | RecoveryScanCountExhausted

fun RecoveryFailureCode_as_str :: "RecoveryFailureCode \<Rightarrow> string" where
  "RecoveryFailureCode_as_str DependencyUnavailable = ''dependency_unavailable''"
| "RecoveryFailureCode_as_str DependencyBusy = ''dependency_busy''"
| "RecoveryFailureCode_as_str Code_AuthenticationRequired = ''authentication_required''"
| "RecoveryFailureCode_as_str Code_AuthorizationLost = ''authorization_lost''"
| "RecoveryFailureCode_as_str IntegrityMismatch = ''integrity_mismatch''"
| "RecoveryFailureCode_as_str ObserverStartUnavailable = ''observer_start_unavailable''"
| "RecoveryFailureCode_as_str ObserverInitialValueTimeout = ''observer_initial_value_timeout''"
| "RecoveryFailureCode_as_str ObserverStreamUnavailable = ''observer_stream_unavailable''"
| "RecoveryFailureCode_as_str ObserverUnknownSigner = ''observer_unknown_signer''"
| "RecoveryFailureCode_as_str ObserverIntegrity = ''observer_integrity''"
| "RecoveryFailureCode_as_str ObserverFatalContract = ''observer_fatal_contract''"
| "RecoveryFailureCode_as_str RecoveryWorkerIdExhausted = ''recovery_worker_id_exhausted''"
| "RecoveryFailureCode_as_str RecoveryActivityWatermarkExhausted =
     ''recovery_activity_watermark_exhausted''"
| "RecoveryFailureCode_as_str RecoveryCauseCountExhausted = ''recovery_cause_count_exhausted''"
| "RecoveryFailureCode_as_str RecoveryAttemptIdExhausted = ''recovery_attempt_id_exhausted''"
| "RecoveryFailureCode_as_str RecoveryAttemptCountExhausted = ''recovery_attempt_count_exhausted''"
| "RecoveryFailureCode_as_str RecoveryClosureDurationOutOfRange =
     ''recovery_closure_duration_out_of_range''"
| "RecoveryFailureCode_as_str RecoveryRetryCountExhausted = ''recovery_retry_count_exhausted''"
| "RecoveryFailureCode_as_str RecoveryRetryDeadlineOverflow = ''recovery_retry_deadline_overflow''"
| "RecoveryFailureCode_as_str RecoveryIncidentIdExhausted = ''recovery_incident_id_exhausted''"
| "RecoveryFailureCode_as_str Code_RecoveryRevisionExhausted = ''recovery_revision_exhausted''"
| "RecoveryFailureCode_as_str RecoveryScanCountExhausted = ''recovery_scan_count_exhausted''"

datatype RecoveryCause =
    StartupReconciliation
  | NativeCallbackLaneSaturated
  | NativeEventBatchSaturated
  | IngressDetailCollapsed
  | NativeRescanRequired
  | RecoverableAdapterLoss
  | WatcherDisconnected
  | RootReplaced

datatype RecoveryLifecycle = Lifecycle_Nominal | Lifecycle_Recovering | Lifecycle_Blocked

datatype RecoveryPhase =
    Rearming
  | AwaitingCoverage
  | Scanning
  | AwaitingSeal
  | Closing
  | BackingOff
  | Phase_Blocked

datatype DependencyFailureClass =
    Retryable
  | AuthenticationRequired
  | AuthorizationLost
  | Integrity
  | FatalContract

definition is_retryable :: "DependencyFailureClass \<Rightarrow> bool" where
  "is_retryable c \<longleftrightarrow> c = Retryable"

definition is_authority_restorable :: "DependencyFailureClass \<Rightarrow> bool" where
  "is_authority_restorable c \<longleftrightarrow> (case c of
      AuthenticationRequired \<Rightarrow> True
    | AuthorizationLost \<Rightarrow> True
    | _ \<Rightarrow> False)"

record DependencyFailure =
  df_class :: DependencyFailureClass
  df_code :: RecoveryFailureCode
  df_observed_at :: RecoveryTimestamp

definition DependencyFailure_new ::
  "DependencyFailureClass \<Rightarrow> RecoveryFailureCode \<Rightarrow> RecoveryTimestamp \<Rightarrow> DependencyFailure" where
  "DependencyFailure_new c code at = \<lparr>df_class = c, df_code = code, df_observed_at = at\<rparr>"

definition fatal_contract :: "RecoveryFailureCode \<Rightarrow> RecoveryTimestamp \<Rightarrow> DependencyFailure" where
  "fatal_contract code at = DependencyFailure_new FatalContract code at"

record AttemptToken =
  tok_incident_id :: IncidentId
  tok_attempt_id :: AttemptId
  tok_worker_id :: RecoveryWorkerId

text \<open>The ownership fences carry one identifier each.\<close>

record RecoveryWorkerOwnership =
  own_worker_id :: RecoveryWorkerId

record RecoveryProjectorOwnership =
  own_projector_id :: RecoveryProjectorId

record RecoveryProcessIdentity =
  rpi_boot_id :: u64
  rpi_session_id :: u64
  rpi_started_at :: RecoveryTimestamp

record RecoverySourceIdentity =
  rsi_process_identity :: RecoveryProcessIdentity
  rsi_workspace_id :: string

section \<open>Native coverage evidence\<close>

type_synonym WatcherStreamEpoch = u64
type_synonym WatcherBoundaryId = u64
type_synonym FseventsCursor = u64

datatype WatcherCoverageLoss =
    UserDropped
  | KernelDropped
  | EventIdsWrapped
  | RootChanged
  | StreamStopped
  | NonMonotonicCursor
  | QueueOverflow
  | BackendFailure

datatype DarwinCoverageStart =
    CursorReplay FseventsCursor FseventsCursor "WatcherCoverageLoss option"
  | FreshStream FseventsCursor WatcherCoverageLoss

record DarwinCoverageBoundary =
  dcb_boundary_id :: WatcherBoundaryId
  dcb_covered_epoch :: WatcherStreamEpoch
  dcb_live_epoch :: WatcherStreamEpoch
  dcb_start :: DarwinCoverageStart
  dcb_history_through :: FseventsCursor
  dcb_must_scan_subdirs :: bool
  dcb_sealed_through :: FseventsCursor
  dcb_flush_generation :: u64
  dcb_loss_generation :: u64
  dcb_callback_generation :: u64

record LinuxCoverageBoundary =
  lcb_boundary_id :: WatcherBoundaryId
  lcb_stream_epoch :: WatcherStreamEpoch
  lcb_watcher_ready :: WatcherBoundaryId
  lcb_callback_drain :: WatcherBoundaryId

datatype WatcherCoverageBoundary =
    Darwin DarwinCoverageBoundary
  | Linux LinuxCoverageBoundary

fun boundary_id :: "WatcherCoverageBoundary \<Rightarrow> WatcherBoundaryId" where
  "boundary_id (Darwin b) = dcb_boundary_id b"
| "boundary_id (Linux b) = lcb_boundary_id b"

fun live_stream_epoch :: "WatcherCoverageBoundary \<Rightarrow> WatcherStreamEpoch" where
  "live_stream_epoch (Darwin b) = dcb_live_epoch b"
| "live_stream_epoch (Linux b) = lcb_stream_epoch b"

record WatcherCoverageCloseToken =
  ct_boundary_id :: WatcherBoundaryId
  ct_generation :: u64

text \<open>
  The close guard pairs the token with the shared atomic generation. The
  generation is state of the coverage adapter, so it is an argument of
  \<open>guard_is_current\<close> and the guard is its token.
\<close>

definition guard_is_current :: "u64 \<Rightarrow> WatcherCoverageCloseToken \<Rightarrow> bool" where
  "guard_is_current authority_generation token \<longleftrightarrow> authority_generation = ct_generation token"

record WatcherCoverageHandoff =
  ho_boundary :: WatcherCoverageBoundary
  ho_close_token :: WatcherCoverageCloseToken

definition handoff_boundary_id :: "WatcherCoverageHandoff \<Rightarrow> WatcherBoundaryId" where
  "handoff_boundary_id h = boundary_id (ho_boundary h)"

definition handoff_live_stream_epoch :: "WatcherCoverageHandoff \<Rightarrow> WatcherStreamEpoch" where
  "handoff_live_stream_epoch h = live_stream_epoch (ho_boundary h)"

record AttemptCoverageBoundary =
  acb_activity_watermark :: ActivityWatermark
  acb_loss_watermark :: LossWatermark
  acb_handoff :: WatcherCoverageHandoff

definition acb_admitted ::
  "ActivityWatermark \<Rightarrow> LossWatermark \<Rightarrow> WatcherCoverageHandoff \<Rightarrow> AttemptCoverageBoundary" where
  "acb_admitted activity loss handoff =
     \<lparr>acb_activity_watermark = activity, acb_loss_watermark = loss, acb_handoff = handoff\<rparr>"

definition acb_proof :: "AttemptCoverageBoundary \<Rightarrow> WatcherCoverageBoundary" where
  "acb_proof b = ho_boundary (acb_handoff b)"

definition acb_is_current :: "u64 \<Rightarrow> AttemptCoverageBoundary \<Rightarrow> bool" where
  "acb_is_current authority_generation b =
     guard_is_current authority_generation (ho_close_token (acb_handoff b))"

text \<open>The hand-written \<open>PartialEq\<close>: the loss watermark takes no part in it.\<close>

definition acb_eq :: "AttemptCoverageBoundary \<Rightarrow> AttemptCoverageBoundary \<Rightarrow> bool" where
  "acb_eq a b \<longleftrightarrow>
     acb_activity_watermark a = acb_activity_watermark b
     \<and> acb_proof a = acb_proof b
     \<and> ho_close_token (acb_handoff a) = ho_close_token (acb_handoff b)"

fun acb_option_eq :: "AttemptCoverageBoundary option \<Rightarrow> AttemptCoverageBoundary option \<Rightarrow> bool" where
  "acb_option_eq None None = True"
| "acb_option_eq (Some a) (Some b) = acb_eq a b"
| "acb_option_eq _ _ = False"

section \<open>Protocol values\<close>

record BackoffPolicy =
  bp_initial :: Duration
  bp_maximum :: Duration

definition BackoffPolicy_new :: "Duration \<Rightarrow> Duration \<Rightarrow> RecoveryTypeError + BackoffPolicy" where
  "BackoffPolicy_new initial maximum =
     (if initial = 0 \<or> maximum < initial then Inl InvalidBackoffPolicy
      else Inr \<lparr>bp_initial = initial, bp_maximum = maximum\<rparr>)"

definition BackoffPolicy_standard :: BackoffPolicy where
  "BackoffPolicy_standard =
     \<lparr>bp_initial = Duration_from_millis 250, bp_maximum = Duration_from_millis 5000\<rparr>"

definition delay_for :: "BackoffPolicy \<Rightarrow> u32 \<Rightarrow> Duration" where
  "delay_for p consecutive_failures =
     (let exponent = min (consecutive_failures - 1) 31
      in min (Duration_saturating_mul (bp_initial p) (2 ^ exponent)) (bp_maximum p))"

datatype ActivityAdmission =
    Activity_Nominal
  | ObservedDuringIncident IncidentId
  | CoverageInvalidated IncidentId
  | BlockedIncidentAdvanced IncidentId

datatype LossAdmission =
    Opened IncidentId
  | Coalesced IncidentId
  | BlockedIncidentUpdated IncidentId

datatype FailureDisposition =
    RetryScheduled IncidentId RecoveryInstant Duration
  | Failure_Blocked IncidentId DependencyFailureClass

datatype AuthorityRestoration = Restored IncidentId

datatype RecoveryIdentifierKind = Kind_Incident | Kind_Attempt | Kind_Worker

datatype RecoveryTransitionError =
    IdentifierExhausted RecoveryIdentifierKind
  | ActivityWatermarkExhausted
  | RecoveryRevisionExhausted
  | RecoveryCountExhausted string
  | NoOpenIncident
  | LifecycleBlocked
  | AttemptAlreadyInFlight
  | NoAttemptInFlight
  | AttemptMismatch
  | WorkerUnavailable
  | WorkerMismatch
  | NativeBoundaryMismatch
  | NativeBoundaryNotMonotonic
  | NativeStreamEpochRegressed
  | ScanRevisionMismatch
  | RetainedFailureMismatch
  | OutOfOrder string RecoveryPhase
  | RetryableFailureRequired
  | TerminalFailureRequired
  | RetryNotDue
  | AuthorityNotRestorable
  | MonotonicTimeReversed
  | RetryDeadlineOverflow
  | ClosureDurationOutOfRange
  | RecoveryNotNominal
  | RecoveryFrontierChanged

section \<open>Closure evidence\<close>

record CloseOffer =
  co_attempt :: AttemptToken
  co_native_boundary :: AttemptCoverageBoundary
  co_scan_revision :: RecoveryScanRevision

definition from_attempt_evidence ::
  "AttemptToken \<Rightarrow> AttemptCoverageBoundary \<Rightarrow> RecoveryScanRevision \<Rightarrow> CloseOffer" where
  "from_attempt_evidence attempt boundary scan =
     \<lparr>co_attempt = attempt, co_native_boundary = boundary, co_scan_revision = scan\<rparr>"

record RecoveryClosureReceipt =
  rcr_incident_id :: IncidentId
  rcr_attempt_id :: AttemptId
  rcr_attempt_count :: RecoveryCount
  rcr_scan_count :: RecoveryCount
  rcr_activity_watermark :: ActivityWatermark
  rcr_authoritative_scan_revision :: RecoveryScanRevision
  rcr_native_boundary :: AttemptCoverageBoundary
  rcr_started_at :: RecoveryTimestamp
  rcr_completed_at :: RecoveryTimestamp
  rcr_duration_ms :: u64
  rcr_closing_recovery_revision :: RecoveryRevision

record RecoveryClosureReceiptInput =
  rin_incident_id :: IncidentId
  rin_attempt_id :: AttemptId
  rin_attempt_count :: RecoveryCount
  rin_scan_count :: RecoveryCount
  rin_activity_watermark :: ActivityWatermark
  rin_authoritative_scan_revision :: RecoveryScanRevision
  rin_native_boundary :: AttemptCoverageBoundary
  rin_started_at :: RecoveryTimestamp
  rin_completed_at :: RecoveryTimestamp
  rin_duration :: Duration
  rin_closing_recovery_revision :: RecoveryRevision

definition try_from_input ::
  "RecoveryClosureReceiptInput \<Rightarrow> RecoveryTransitionError + RecoveryClosureReceipt" where
  "try_from_input input =
     (case u64_try_from (Duration_as_millis (rin_duration input)) of
        None \<Rightarrow> Inl ClosureDurationOutOfRange
      | Some duration_ms \<Rightarrow>
          if duration_ms > MAX_DURATION_MS then Inl ClosureDurationOutOfRange
          else Inr \<lparr>
            rcr_incident_id = rin_incident_id input,
            rcr_attempt_id = rin_attempt_id input,
            rcr_attempt_count = rin_attempt_count input,
            rcr_scan_count = rin_scan_count input,
            rcr_activity_watermark = rin_activity_watermark input,
            rcr_authoritative_scan_revision = rin_authoritative_scan_revision input,
            rcr_native_boundary = rin_native_boundary input,
            rcr_started_at = rin_started_at input,
            rcr_completed_at = rin_completed_at input,
            rcr_duration_ms = duration_ms,
            rcr_closing_recovery_revision = rin_closing_recovery_revision input\<rparr>)"

datatype CloseDisposition =
    Closed RecoveryClosureReceipt
  | RetryRequired IncidentId

record RecoveryClosureIdentity =
  rci_incident_id :: IncidentId
  rci_attempt_id :: AttemptId
  rci_closing_recovery_revision :: RecoveryRevision

definition RecoveryClosureIdentity_from_receipt ::
  "RecoveryClosureReceipt \<Rightarrow> RecoveryClosureIdentity" where
  "RecoveryClosureIdentity_from_receipt r =
     \<lparr>rci_incident_id = rcr_incident_id r,
      rci_attempt_id = rcr_attempt_id r,
      rci_closing_recovery_revision = rcr_closing_recovery_revision r\<rparr>"

record RecoveryFrontier =
  rf_recovery_revision :: RecoveryRevision
  rf_activity_watermark :: ActivityWatermark
  rf_last_closure :: "RecoveryClosureIdentity option"

record RecoveryAttestation =
  ra_source_identity :: RecoverySourceIdentity
  ra_frontier :: RecoveryFrontier
  ra_last_closure :: "RecoveryClosureReceipt option"

section \<open>Counters and backoff\<close>

lemma MAX_le_u64 [simp]: "MAX_SCHEMA_INTEGER \<le> u64_MAX" "MAX_RECOVERY_COUNT \<le> u64_MAX"
  by (simp_all add: MAX_SCHEMA_INTEGER_def MAX_RECOVERY_COUNT_def u64_MAX_def)

interpretation activity_counter:
  bounded_counter ActivityWatermark_checked_next "MAX_SCHEMA_INTEGER - 1"
  by unfold_locales
    (auto simp: ActivityWatermark_checked_next_def MAX_SCHEMA_INTEGER_def u64_MAX_def)

interpretation loss_counter:
  bounded_counter LossWatermark_checked_next "MAX_SCHEMA_INTEGER - 1"
  by unfold_locales
    (auto simp: LossWatermark_checked_next_def MAX_SCHEMA_INTEGER_def u64_MAX_def)

interpretation revision_counter:
  bounded_counter RecoveryRevision_checked_next "MAX_SCHEMA_INTEGER - 1"
  by unfold_locales
    (auto simp: RecoveryRevision_checked_next_def MAX_SCHEMA_INTEGER_def u64_MAX_def)

interpretation count_counter:
  bounded_counter RecoveryCount_checked_next MAX_RECOVERY_COUNT
  by unfold_locales
    (auto simp: RecoveryCount_checked_next_def MAX_RECOVERY_COUNT_def u64_MAX_def)

lemma acb_eq_refl [simp]: "acb_eq b b"
  by (simp add: acb_eq_def)

lemma acb_option_eq_refl [simp]: "acb_option_eq b b"
  by (cases b) auto

lemma delay_for_le_maximum: "delay_for p n \<le> bp_maximum p"
  by (simp add: delay_for_def Let_def)

lemma delay_for_mono: "m \<le> n \<Longrightarrow> delay_for p m \<le> delay_for p n"
proof -
  assume "m \<le> n"
  then have "min (m - 1) 31 \<le> min (n - 1) (31::nat)" by linarith
  then have "(2::nat) ^ min (m - 1) 31 \<le> 2 ^ min (n - 1) 31"
    by (rule power_increasing) simp
  then have "bp_initial p * 2 ^ min (m - 1) 31 \<le> bp_initial p * 2 ^ min (n - 1) 31"
    by (rule mult_le_mono2)
  then show ?thesis
    unfolding delay_for_def Duration_saturating_mul_def Let_def by linarith
qed

lemma delay_for_ge_initial:
  assumes "bp_initial p \<le> bp_maximum p" and "bp_initial p \<le> Duration_MAX"
  shows "bp_initial p \<le> delay_for p n"
proof -
  have "bp_initial p * 1 \<le> bp_initial p * 2 ^ min (n - 1) 31"
    by (rule mult_le_mono2) simp
  with assms show ?thesis
    unfolding delay_for_def Duration_saturating_mul_def Let_def by simp
qed

end
