(* ===== verification/Recovery_Reducer.thy ===== *)
theory Recovery_Reducer
  imports Recovery_Types
begin

text \<open>
  The deterministic watcher-recovery reducer:
  \<^verbatim>\<open>crates/bowline-daemon/src/watcher_recovery/reducer.rs\<close> and its modules
  \<^verbatim>\<open>reducer/{ids,admissions,attempts,projection,invariants}.rs\<close>.

  Every method on \<open>&mut self\<close> is a function from the machine to a result and
  the machine it leaves; an error path that has already changed the machine
  (an exhausted counter blocks recovery before it reports the error) leaves
  the changed machine.
\<close>

section \<open>State\<close>

datatype IdAllocation = Available u64 | Terminal u64

type_synonym IdSequence = u64

definition allocate :: "IdSequence \<Rightarrow> IdAllocation \<times> IdSequence" where
  "allocate next = (if next = u64_MAX then (Terminal next, next) else (Available next, next + 1))"

record AttemptState =
  att_token :: AttemptToken
  att_started_at :: RecoveryTimestamp
  att_native_boundary :: "AttemptCoverageBoundary option"
  att_scan_started :: bool
  att_scan_revision :: "RecoveryScanRevision option"

definition AttemptState_new :: "AttemptToken \<Rightarrow> RecoveryTimestamp \<Rightarrow> AttemptState" where
  "AttemptState_new token started_at = \<lparr>
     att_token = token,
     att_started_at = started_at,
     att_native_boundary = None,
     att_scan_started = False,
     att_scan_revision = None\<rparr>"

type_synonym CauseCounters = "RecoveryCount list"

fun cause_index :: "RecoveryCause \<Rightarrow> nat" where
  "cause_index StartupReconciliation = 0"
| "cause_index NativeCallbackLaneSaturated = 1"
| "cause_index NativeEventBatchSaturated = 2"
| "cause_index IngressDetailCollapsed = 3"
| "cause_index NativeRescanRequired = 4"
| "cause_index RecoverableAdapterLoss = 5"
| "cause_index WatcherDisconnected = 6"
| "cause_index RootReplaced = 7"

definition with_primary :: "RecoveryCause \<Rightarrow> CauseCounters" where
  "with_primary cause = (replicate 8 0)[cause_index cause := 1]"

definition cause_get :: "CauseCounters \<Rightarrow> RecoveryCause \<Rightarrow> RecoveryCount" where
  "cause_get counts cause = counts ! cause_index cause"

definition cause_increment :: "CauseCounters \<Rightarrow> RecoveryCause \<Rightarrow> CauseCounters option" where
  "cause_increment counts cause =
     (case RecoveryCount_checked_next (counts ! cause_index cause) of
        None \<Rightarrow> None
      | Some count \<Rightarrow> Some (counts[cause_index cause := count]))"

record IncidentState =
  inc_id :: IncidentId
  inc_primary_cause :: RecoveryCause
  inc_cause_counts :: CauseCounters
  inc_phase :: RecoveryPhase
  inc_started_at :: RecoveryTimestamp
  inc_started_tick :: RecoveryInstant
  inc_attempt_count :: RecoveryCount
  inc_scan_count :: RecoveryCount
  inc_rescan_required :: bool
  inc_current_attempt :: "AttemptState option"
  inc_native_coverage :: "AttemptCoverageBoundary option"
  inc_retry_failures :: u32
  inc_retry_at :: "RecoveryInstant option"
  inc_failure :: "DependencyFailure option"

definition IncidentState_new :: "IncidentId \<Rightarrow> RecoveryCause \<Rightarrow> RecoveryMoment \<Rightarrow> IncidentState" where
  "IncidentState_new incident_id cause moment = \<lparr>
     inc_id = incident_id,
     inc_primary_cause = cause,
     inc_cause_counts = with_primary cause,
     inc_phase = Rearming,
     inc_started_at = observed_at moment,
     inc_started_tick = monotonic moment,
     inc_attempt_count = 0,
     inc_scan_count = 0,
     inc_rescan_required = True,
     inc_current_attempt = None,
     inc_native_coverage = None,
     inc_retry_failures = 0,
     inc_retry_at = None,
     inc_failure = None\<rparr>"

definition is_blocked :: "IncidentState \<Rightarrow> bool" where
  "is_blocked i \<longleftrightarrow> inc_phase i = Phase_Blocked"

definition record_cause ::
  "RecoveryCause \<Rightarrow> IncidentState \<Rightarrow> RecoveryTransitionError + IncidentState" where
  "record_cause cause i =
     (case cause_increment (inc_cause_counts i) cause of
        None \<Rightarrow> Inl (RecoveryCountExhausted ''cause'')
      | Some counts \<Rightarrow> Inr (i\<lparr>inc_cause_counts := counts\<rparr>))"

definition clear_attempt_evidence :: "IncidentState \<Rightarrow> IncidentState" where
  "clear_attempt_evidence i = i\<lparr>inc_current_attempt := None, inc_native_coverage := None\<rparr>"

definition block :: "DependencyFailure \<Rightarrow> IncidentState \<Rightarrow> IncidentState" where
  "block failure i =
     (clear_attempt_evidence (i\<lparr>inc_phase := Phase_Blocked\<rparr>))
       \<lparr>inc_retry_at := None, inc_rescan_required := True, inc_failure := Some failure\<rparr>"

definition rearm_after_worker_change :: "IncidentState \<Rightarrow> IncidentState" where
  "rearm_after_worker_change i =
     (if is_blocked i then i
      else (clear_attempt_evidence i)
        \<lparr>inc_phase := Rearming, inc_rescan_required := True,
         inc_retry_at := None, inc_failure := None\<rparr>)"

definition retry_attempt :: "IncidentState \<Rightarrow> IncidentState" where
  "retry_attempt i =
     (clear_attempt_evidence i)\<lparr>inc_phase := Rearming, inc_rescan_required := True\<rparr>"

record RecoveryStateMachine =
  sm_source_identity :: RecoverySourceIdentity
  sm_incident :: "IncidentState option"
  sm_activity_watermark :: ActivityWatermark
  sm_loss_watermark :: LossWatermark
  sm_next_incident_id :: IdSequence
  sm_next_attempt_id :: IdSequence
  sm_next_worker_id :: IdSequence
  sm_active_worker :: "RecoveryWorkerId option"
  sm_revision :: RecoveryRevision
  sm_last_transition_at :: RecoveryTimestamp
  sm_last_completed :: "RecoveryClosureReceipt option"
  sm_backoff_policy :: BackoffPolicy
  sm_last_native_boundary_id :: "WatcherBoundaryId option"
  sm_last_native_epoch :: "WatcherStreamEpoch option"

type_synonym 'a outcome = "(RecoveryTransitionError + 'a) \<times> RecoveryStateMachine"

definition nominal ::
  "RecoverySourceIdentity \<Rightarrow> RecoveryTimestamp \<Rightarrow> BackoffPolicy \<Rightarrow> RecoveryStateMachine" where
  "nominal source_identity initial_at backoff_policy = \<lparr>
     sm_source_identity = source_identity,
     sm_incident = None,
     sm_activity_watermark = 0,
     sm_loss_watermark = 0,
     sm_next_incident_id = 1,
     sm_next_attempt_id = 1,
     sm_next_worker_id = 1,
     sm_active_worker = None,
     sm_revision = 0,
     sm_last_transition_at = initial_at,
     sm_last_completed = None,
     sm_backoff_policy = backoff_policy,
     sm_last_native_boundary_id = None,
     sm_last_native_epoch = None\<rparr>"

definition startup_reconciliation ::
  "RecoverySourceIdentity \<Rightarrow> RecoveryMoment \<Rightarrow> BackoffPolicy \<Rightarrow> RecoveryStateMachine" where
  "startup_reconciliation source_identity moment backoff_policy = \<lparr>
     sm_source_identity = source_identity,
     sm_incident = Some (IncidentState_new 1 StartupReconciliation moment),
     sm_activity_watermark = 1,
     sm_loss_watermark = 1,
     sm_next_incident_id = 2,
     sm_next_attempt_id = 1,
     sm_next_worker_id = 1,
     sm_active_worker = None,
     sm_revision = 1,
     sm_last_transition_at = observed_at moment,
     sm_last_completed = None,
     sm_backoff_policy = backoff_policy,
     sm_last_native_boundary_id = None,
     sm_last_native_epoch = None\<rparr>"

section \<open>Shared steps\<close>

definition commit ::
  "RecoveryTimestamp \<Rightarrow> RecoveryRevision \<Rightarrow> RecoveryStateMachine \<Rightarrow> RecoveryStateMachine" where
  "commit at revision s = s\<lparr>sm_last_transition_at := at, sm_revision := revision\<rparr>"

definition terminal_block ::
  "RecoveryFailureCode \<Rightarrow> RecoveryMoment \<Rightarrow> RecoveryStateMachine \<Rightarrow> RecoveryStateMachine" where
  "terminal_block code moment s =
     (let failure = fatal_contract code (observed_at moment)
      in case sm_incident s of
           Some incident \<Rightarrow> s\<lparr>sm_incident := Some (block failure incident)\<rparr>
         | None \<Rightarrow>
             s\<lparr>sm_next_incident_id := u64_MAX,
               sm_incident := Some (block failure
                 (IncidentState_new u64_MAX RecoverableAdapterLoss moment))\<rparr>)"

definition next_revision_or_block ::
  "RecoveryMoment \<Rightarrow> RecoveryStateMachine \<Rightarrow> RecoveryRevision outcome" where
  "next_revision_or_block moment s =
     (case RecoveryRevision_checked_next (sm_revision s) of
        None \<Rightarrow>
          (Inl RecoveryRevisionExhausted,
           commit (observed_at moment) RecoveryRevision_terminal
             (terminal_block Code_RecoveryRevisionExhausted moment s))
      | Some revision \<Rightarrow> (Inr revision, s))"

definition block_for_exhaustion ::
  "RecoveryFailureCode \<Rightarrow> RecoveryTimestamp \<Rightarrow> RecoveryRevision \<Rightarrow> RecoveryStateMachine \<Rightarrow>
   RecoveryStateMachine" where
  "block_for_exhaustion code at revision s =
     commit at revision
       (case sm_incident s of
          Some incident \<Rightarrow> s\<lparr>sm_incident := Some (block (fatal_contract code at) incident)\<rparr>
        | None \<Rightarrow> s)"

text \<open>
  The borrow-checked pair \<open>active_incident\<close>/\<open>active_incident_mut\<close> and the pair
  \<open>matching_attempt\<close>/\<open>matching_attempt_mut\<close> have one body each.
\<close>

definition active_incident ::
  "RecoveryStateMachine \<Rightarrow> RecoveryTransitionError + IncidentState" where
  "active_incident s =
     (case sm_incident s of
        None \<Rightarrow> Inl NoOpenIncident
      | Some incident \<Rightarrow> if is_blocked incident then Inl LifecycleBlocked else Inr incident)"

definition matching_attempt ::
  "IncidentState \<Rightarrow> AttemptToken \<Rightarrow> RecoveryTransitionError + AttemptState" where
  "matching_attempt incident token =
     (case inc_current_attempt incident of
        None \<Rightarrow> Inl NoAttemptInFlight
      | Some attempt \<Rightarrow> if att_token attempt \<noteq> token then Inl AttemptMismatch else Inr attempt)"

definition require_worker ::
  "RecoveryWorkerOwnership \<Rightarrow> RecoveryStateMachine \<Rightarrow> RecoveryTransitionError + unit" where
  "require_worker ownership s =
     (case sm_active_worker s of
        Some worker_id \<Rightarrow>
          if worker_id = own_worker_id ownership then Inr () else Inl WorkerMismatch
      | None \<Rightarrow> Inl WorkerUnavailable)"

definition open_incident ::
  "RecoveryCause \<Rightarrow> RecoveryMoment \<Rightarrow> RecoveryRevision \<Rightarrow> RecoveryStateMachine \<Rightarrow>
   LossAdmission outcome" where
  "open_incident cause moment next_revision s =
     (case allocate (sm_next_incident_id s) of
        (Available value, next) \<Rightarrow>
          (let s = s\<lparr>sm_next_incident_id := next\<rparr>
           in case prefixed_id_new ''IncidentId'' value of
                Inl _ \<Rightarrow> (Inl (IdentifierExhausted Kind_Incident), s)
              | Inr incident_id \<Rightarrow>
                  (Inr (Opened incident_id),
                   commit (observed_at moment) next_revision
                     (s\<lparr>sm_incident := Some (IncidentState_new incident_id cause moment)\<rparr>)))
      | (Terminal value, next) \<Rightarrow>
          (let s = s\<lparr>sm_next_incident_id := next\<rparr>
           in case prefixed_id_new ''IncidentId'' value of
                Inl _ \<Rightarrow> (Inl (IdentifierExhausted Kind_Incident), s)
              | Inr incident_id \<Rightarrow>
                  (Inl (IdentifierExhausted Kind_Incident),
                   commit (observed_at moment) next_revision
                     (s\<lparr>sm_incident := Some (block
                          (fatal_contract RecoveryIncidentIdExhausted (observed_at moment))
                          (IncidentState_new incident_id cause moment))\<rparr>))))"

section \<open>Worker ownership\<close>

definition replace_worker ::
  "RecoveryMoment \<Rightarrow> RecoveryStateMachine \<Rightarrow> RecoveryWorkerOwnership outcome" where
  "replace_worker moment s =
     (case next_revision_or_block moment s of
        (Inl e, s) \<Rightarrow> (Inl e, s)
      | (Inr next_revision, s) \<Rightarrow>
          (case allocate (sm_next_worker_id s) of
             (Available value, next) \<Rightarrow>
               (let s = s\<lparr>sm_next_worker_id := next\<rparr>
                in case prefixed_id_new ''RecoveryWorkerId'' value of
                     Inl _ \<Rightarrow> (Inl (IdentifierExhausted Kind_Worker), s)
                   | Inr worker_id \<Rightarrow>
                       (let s = s\<lparr>sm_active_worker := Some worker_id\<rparr>;
                            s = (case sm_incident s of
                                   Some incident \<Rightarrow>
                                     s\<lparr>sm_incident := Some (rearm_after_worker_change incident)\<rparr>
                                 | None \<Rightarrow> s)
                        in (Inr \<lparr>own_worker_id = worker_id\<rparr>,
                            commit (observed_at moment) next_revision s)))
           | (Terminal _, next) \<Rightarrow>
               (Inl (IdentifierExhausted Kind_Worker),
                commit (observed_at moment) next_revision
                  (terminal_block RecoveryWorkerIdExhausted moment
                    (s\<lparr>sm_next_worker_id := next, sm_active_worker := None\<rparr>)))))"

fun admitted_incident_id :: "LossAdmission \<Rightarrow> IncidentId" where
  "admitted_incident_id (Opened incident_id) = incident_id"
| "admitted_incident_id (Coalesced incident_id) = incident_id"
| "admitted_incident_id (BlockedIncidentUpdated incident_id) = incident_id"

definition worker_exited ::
  "RecoveryWorkerOwnership \<Rightarrow> RecoveryMoment \<Rightarrow> RecoveryStateMachine \<Rightarrow> IncidentId outcome" where
  "worker_exited ownership moment s =
     (case require_worker ownership s of
        Inl e \<Rightarrow> (Inl e, s)
      | Inr _ \<Rightarrow>
          (case next_revision_or_block moment s of
             (Inl e, s) \<Rightarrow> (Inl e, s)
           | (Inr next_revision, s) \<Rightarrow>
               (let s = s\<lparr>sm_active_worker := None\<rparr>
                in case sm_incident s of
                     None \<Rightarrow>
                       (case open_incident WatcherDisconnected moment next_revision s of
                          (Inl e, s) \<Rightarrow> (Inl e, s)
                        | (Inr admission, s) \<Rightarrow> (Inr (admitted_incident_id admission), s))
                   | Some incident \<Rightarrow>
                       (Inr (inc_id incident),
                        commit (observed_at moment) next_revision
                          (s\<lparr>sm_incident := Some (rearm_after_worker_change incident)\<rparr>)))))"

section \<open>Attempts\<close>

definition start_attempt ::
  "RecoveryMoment \<Rightarrow> RecoveryStateMachine \<Rightarrow> AttemptToken outcome" where
  "start_attempt moment s =
     (case next_revision_or_block moment s of
        (Inl e, s) \<Rightarrow> (Inl e, s)
      | (Inr next_revision, s) \<Rightarrow>
     (case sm_active_worker s of
        None \<Rightarrow> (Inl WorkerUnavailable, s)
      | Some worker_id \<Rightarrow>
     (case sm_incident s of
        None \<Rightarrow> (Inl NoOpenIncident, s)
      | Some incident \<Rightarrow>
          if is_blocked incident then (Inl LifecycleBlocked, s)
          else if inc_current_attempt incident \<noteq> None then (Inl AttemptAlreadyInFlight, s)
          else if inc_phase incident \<noteq> Rearming then
            (Inl (OutOfOrder ''start attempt'' (inc_phase incident)), s)
          else
            (case allocate (sm_next_attempt_id s) of
               (Terminal _, next) \<Rightarrow>
                 (Inl (IdentifierExhausted Kind_Attempt),
                  block_for_exhaustion RecoveryAttemptIdExhausted (observed_at moment)
                    next_revision (s\<lparr>sm_next_attempt_id := next\<rparr>))
             | (Available value, next) \<Rightarrow>
                 (let s = s\<lparr>sm_next_attempt_id := next\<rparr>
                  in case prefixed_id_new ''AttemptId'' value of
                       Inl _ \<Rightarrow> (Inl (IdentifierExhausted Kind_Attempt), s)
                     | Inr attempt_id \<Rightarrow>
                         (case RecoveryCount_checked_next (inc_attempt_count incident) of
                            None \<Rightarrow>
                              (Inl (RecoveryCountExhausted ''attempt''),
                               commit (observed_at moment) next_revision
                                 (s\<lparr>sm_incident := Some (block
                                      (fatal_contract RecoveryAttemptCountExhausted
                                        (observed_at moment)) incident)\<rparr>))
                          | Some attempt_count \<Rightarrow>
                              (let token = \<lparr>tok_incident_id = inc_id incident,
                                            tok_attempt_id = attempt_id,
                                            tok_worker_id = worker_id\<rparr>
                               in (Inr token,
                                   commit (observed_at moment) next_revision
                                     (s\<lparr>sm_incident := Some (incident\<lparr>
                                          inc_attempt_count := attempt_count,
                                          inc_phase := AwaitingCoverage,
                                          inc_rescan_required := False,
                                          inc_current_attempt :=
                                            Some (AttemptState_new token (observed_at moment)),
                                          inc_native_coverage := None,
                                          inc_retry_at := None,
                                          inc_failure := None\<rparr>)\<rparr>)))))))))"

definition record_native_boundary ::
  "AttemptToken \<Rightarrow> WatcherCoverageHandoff \<Rightarrow> RecoveryMoment \<Rightarrow> RecoveryStateMachine \<Rightarrow>
   unit outcome" where
  "record_native_boundary token handoff moment s =
     (case next_revision_or_block moment s of
        (Inl e, s) \<Rightarrow> (Inl e, s)
      | (Inr next_revision, s) \<Rightarrow>
     (case active_incident s of
        Inl e \<Rightarrow> (Inl e, s)
      | Inr incident \<Rightarrow>
          if inc_phase incident \<noteq> AwaitingSeal then
            (Inl (OutOfOrder ''record native boundary'' (inc_phase incident)), s)
          else (case matching_attempt incident token of
             Inl e \<Rightarrow> (Inl e, s)
           | Inr attempt \<Rightarrow>
               if (case sm_last_native_boundary_id s of
                     Some previous \<Rightarrow> handoff_boundary_id handoff \<le> previous | None \<Rightarrow> False)
               then (Inl NativeBoundaryNotMonotonic, s)
               else if (case sm_last_native_epoch s of
                     Some previous \<Rightarrow> handoff_live_stream_epoch handoff < previous | None \<Rightarrow> False)
               then (Inl NativeStreamEpochRegressed, s)
               else
                 (let admitted_boundary =
                        acb_admitted (sm_activity_watermark s) (sm_loss_watermark s) handoff;
                      incident = incident\<lparr>
                        inc_current_attempt :=
                          Some (attempt\<lparr>att_native_boundary := Some admitted_boundary\<rparr>),
                        inc_native_coverage := Some admitted_boundary,
                        inc_phase := Closing\<rparr>
                  in (Inr (),
                      commit (observed_at moment) next_revision
                        (s\<lparr>sm_last_native_boundary_id := Some (handoff_boundary_id handoff),
                          sm_last_native_epoch := Some (handoff_live_stream_epoch handoff),
                          sm_incident := Some incident\<rparr>))))))"

definition begin_authoritative_scan ::
  "AttemptToken \<Rightarrow> RecoveryMoment \<Rightarrow> RecoveryRevision \<Rightarrow> RecoveryStateMachine \<Rightarrow> unit outcome" where
  "begin_authoritative_scan token moment next_revision s =
     (case active_incident s of
        Inl e \<Rightarrow> (Inl e, s)
      | Inr incident \<Rightarrow>
          if inc_phase incident \<noteq> AwaitingCoverage then
            (Inl (OutOfOrder ''start authoritative scan'' (inc_phase incident)), s)
          else (case matching_attempt incident token of
             Inl e \<Rightarrow> (Inl e, s)
           | Inr attempt \<Rightarrow>
               if att_scan_started attempt \<or> att_scan_revision attempt \<noteq> None then
                 (Inl (OutOfOrder ''start authoritative scan'' (inc_phase incident)), s)
               else (case RecoveryCount_checked_next (inc_scan_count incident) of
                  None \<Rightarrow>
                    (Inl (RecoveryCountExhausted ''scan''),
                     commit (observed_at moment) next_revision
                       (s\<lparr>sm_incident := Some (block
                            (fatal_contract RecoveryScanCountExhausted (observed_at moment))
                            incident)\<rparr>))
                | Some scan_count \<Rightarrow>
                    (Inr (),
                     commit (observed_at moment) next_revision
                       (s\<lparr>sm_incident := Some (incident\<lparr>
                            inc_scan_count := scan_count,
                            inc_current_attempt := Some (attempt\<lparr>att_scan_started := True\<rparr>),
                            inc_rescan_required := False,
                            inc_phase := Scanning\<rparr>)\<rparr>)))))"

definition complete_authoritative_scan ::
  "AttemptToken \<Rightarrow> RecoveryScanRevision \<Rightarrow> RecoveryMoment \<Rightarrow> RecoveryRevision \<Rightarrow>
   RecoveryStateMachine \<Rightarrow> unit outcome" where
  "complete_authoritative_scan token scan_revision moment next_revision s =
     (case active_incident s of
        Inl e \<Rightarrow> (Inl e, s)
      | Inr incident \<Rightarrow>
          if inc_phase incident \<noteq> Scanning then
            (Inl (OutOfOrder ''complete authoritative scan'' (inc_phase incident)), s)
          else (case matching_attempt incident token of
             Inl e \<Rightarrow> (Inl e, s)
           | Inr attempt \<Rightarrow>
               if \<not> att_scan_started attempt \<or> att_scan_revision attempt \<noteq> None then
                 (Inl (OutOfOrder ''complete authoritative scan'' (inc_phase incident)), s)
               else
                 (Inr (),
                  commit (observed_at moment) next_revision
                    (s\<lparr>sm_incident := Some (incident\<lparr>
                         inc_current_attempt :=
                           Some (attempt\<lparr>att_scan_revision := Some scan_revision\<rparr>),
                         inc_phase := AwaitingSeal\<rparr>)\<rparr>))))"

definition record_scan_started ::
  "AttemptToken \<Rightarrow> RecoveryMoment \<Rightarrow> RecoveryStateMachine \<Rightarrow> unit outcome" where
  "record_scan_started token moment s =
     (case next_revision_or_block moment s of
        (Inl e, s) \<Rightarrow> (Inl e, s)
      | (Inr next_revision, s) \<Rightarrow> begin_authoritative_scan token moment next_revision s)"

definition record_scan_completed ::
  "AttemptToken \<Rightarrow> RecoveryScanRevision \<Rightarrow> RecoveryMoment \<Rightarrow> RecoveryStateMachine \<Rightarrow>
   unit outcome" where
  "record_scan_completed token scan_revision moment s =
     (case next_revision_or_block moment s of
        (Inl e, s) \<Rightarrow> (Inl e, s)
      | (Inr next_revision, s) \<Rightarrow>
          complete_authoritative_scan token scan_revision moment next_revision s)"

section \<open>Closing\<close>

definition offer_close ::
  "CloseOffer \<Rightarrow> RecoveryMoment \<Rightarrow> RecoveryStateMachine \<Rightarrow> CloseDisposition outcome" where
  "offer_close offer moment s =
     (case next_revision_or_block moment s of
        (Inl e, s) \<Rightarrow> (Inl e, s)
      | (Inr next_revision, s) \<Rightarrow>
     (case active_incident s of
        Inl e \<Rightarrow> (Inl e, s)
      | Inr incident \<Rightarrow>
     (case matching_attempt incident (co_attempt offer) of
        Inl e \<Rightarrow> (Inl e, s)
      | Inr attempt \<Rightarrow>
          if inc_phase incident \<noteq> Closing then
            (Inl (OutOfOrder ''offer close'' (inc_phase incident)), s)
          else (case att_native_boundary attempt of
             None \<Rightarrow> (Inl NativeBoundaryMismatch, s)
           | Some boundary \<Rightarrow>
               if \<not> acb_eq boundary (co_native_boundary offer) then
                 (Inl NativeBoundaryMismatch, s)
               else (case att_scan_revision attempt of
                  None \<Rightarrow> (Inl ScanRevisionMismatch, s)
                | Some scan_revision \<Rightarrow>
                    if scan_revision \<noteq> co_scan_revision offer then (Inl ScanRevisionMismatch, s)
                    else if inc_rescan_required incident
                            \<or> sm_loss_watermark s \<noteq> acb_loss_watermark boundary then
                      (Inr (RetryRequired (inc_id incident)),
                       commit (observed_at moment) next_revision
                         (s\<lparr>sm_incident := Some (retry_attempt incident)\<rparr>))
                    else (case elapsed_since (monotonic moment) (inc_started_tick incident) of
                       None \<Rightarrow> (Inl MonotonicTimeReversed, s)
                     | Some duration \<Rightarrow>
                         (let receipt_input = \<lparr>
                            rin_incident_id = inc_id incident,
                            rin_attempt_id = tok_attempt_id (co_attempt offer),
                            rin_attempt_count = inc_attempt_count incident,
                            rin_scan_count = inc_scan_count incident,
                            rin_activity_watermark = acb_activity_watermark boundary,
                            rin_authoritative_scan_revision = scan_revision,
                            rin_native_boundary = boundary,
                            rin_started_at = inc_started_at incident,
                            rin_completed_at = observed_at moment,
                            rin_duration = duration,
                            rin_closing_recovery_revision = next_revision\<rparr>
                          in case try_from_input receipt_input of
                               Inl e \<Rightarrow>
                                 (Inl e,
                                  commit (observed_at moment) next_revision
                                    (s\<lparr>sm_incident := Some (block
                                         (fatal_contract RecoveryClosureDurationOutOfRange
                                           (observed_at moment)) incident)\<rparr>))
                             | Inr receipt \<Rightarrow>
                                 (Inr (Closed receipt),
                                  commit (observed_at moment) next_revision
                                    (s\<lparr>sm_incident := None,
                                      sm_last_completed := Some receipt\<rparr>)))))))))"

definition reject_native_close ::
  "AttemptToken \<Rightarrow> RecoveryMoment \<Rightarrow> RecoveryStateMachine \<Rightarrow> CloseDisposition outcome" where
  "reject_native_close token moment s =
     (case next_revision_or_block moment s of
        (Inl e, s) \<Rightarrow> (Inl e, s)
      | (Inr next_revision, s) \<Rightarrow>
     (case active_incident s of
        Inl e \<Rightarrow> (Inl e, s)
      | Inr incident \<Rightarrow>
          if inc_phase incident \<noteq> Closing then
            (Inl (OutOfOrder ''reject stale native boundary'' (inc_phase incident)), s)
          else (case matching_attempt incident token of
             Inl e \<Rightarrow> (Inl e, s)
           | Inr _ \<Rightarrow>
               (Inr (RetryRequired (inc_id incident)),
                commit (observed_at moment) next_revision
                  (s\<lparr>sm_incident := Some (retry_attempt incident)\<rparr>)))))"

section \<open>Failures, retry, restored authority\<close>

definition record_dependency_failure ::
  "AttemptToken \<Rightarrow> DependencyFailure \<Rightarrow> RecoveryMoment \<Rightarrow> RecoveryStateMachine \<Rightarrow>
   FailureDisposition outcome" where
  "record_dependency_failure token failure moment s =
     (case next_revision_or_block moment s of
        (Inl e, s) \<Rightarrow> (Inl e, s)
      | (Inr next_revision, s) \<Rightarrow>
     (case active_incident s of
        Inl e \<Rightarrow> (Inl e, s)
      | Inr incident \<Rightarrow>
     (case matching_attempt incident token of
        Inl e \<Rightarrow> (Inl e, s)
      | Inr _ \<Rightarrow>
          if is_retryable (df_class failure) then
            (case checked_add_u32 (inc_retry_failures incident) 1 of
               None \<Rightarrow>
                 (Inl (RecoveryCountExhausted ''retry''),
                  commit (observed_at moment) next_revision
                    (s\<lparr>sm_incident := Some (block
                         (fatal_contract RecoveryRetryCountExhausted (observed_at moment))
                         incident)\<rparr>))
             | Some consecutive \<Rightarrow>
                 (let delay = delay_for (sm_backoff_policy s) consecutive
                  in case RecoveryInstant_checked_add (monotonic moment) delay of
                       None \<Rightarrow>
                         (Inl RetryDeadlineOverflow,
                          commit (observed_at moment) next_revision
                            (s\<lparr>sm_incident := Some (block
                                 (fatal_contract RecoveryRetryDeadlineOverflow
                                   (observed_at moment)) incident)\<rparr>))
                     | Some retry_at \<Rightarrow>
                         (Inr (RetryScheduled (inc_id incident) retry_at delay),
                          commit (observed_at moment) next_revision
                            (s\<lparr>sm_incident := Some
                                 ((clear_attempt_evidence (incident\<lparr>
                                     inc_retry_failures := consecutive,
                                     inc_retry_at := Some retry_at\<rparr>))
                                   \<lparr>inc_phase := BackingOff,
                                    inc_rescan_required := True,
                                    inc_failure := Some failure\<rparr>)\<rparr>))))
          else
            (Inr (Failure_Blocked (inc_id incident) (df_class failure)),
             commit (observed_at moment) next_revision
               (s\<lparr>sm_incident := Some (block failure incident)\<rparr>)))))"

definition retry_if_due ::
  "RecoveryMoment \<Rightarrow> RecoveryStateMachine \<Rightarrow> IncidentId outcome" where
  "retry_if_due moment s =
     (case next_revision_or_block moment s of
        (Inl e, s) \<Rightarrow> (Inl e, s)
      | (Inr next_revision, s) \<Rightarrow>
     (case active_incident s of
        Inl e \<Rightarrow> (Inl e, s)
      | Inr incident \<Rightarrow>
          if inc_phase incident \<noteq> BackingOff then
            (Inl (OutOfOrder ''retry recovery'' (inc_phase incident)), s)
          else (case inc_retry_at incident of
             None \<Rightarrow> (Inl RetryNotDue, s)
           | Some retry_at \<Rightarrow>
               if monotonic moment < retry_at then (Inl RetryNotDue, s)
               else
                 (Inr (inc_id incident),
                  commit (observed_at moment) next_revision
                    (s\<lparr>sm_incident := Some (clear_attempt_evidence (incident\<lparr>
                         inc_retry_at := None,
                         inc_phase := Rearming,
                         inc_failure := None\<rparr>))\<rparr>)))))"

definition restore_authority ::
  "RecoveryMoment \<Rightarrow> RecoveryStateMachine \<Rightarrow> AuthorityRestoration outcome" where
  "restore_authority moment s =
     (case next_revision_or_block moment s of
        (Inl e, s) \<Rightarrow> (Inl e, s)
      | (Inr next_revision, s) \<Rightarrow>
     (case sm_incident s of
        None \<Rightarrow> (Inl NoOpenIncident, s)
      | Some incident \<Rightarrow>
     (case inc_failure incident of
        None \<Rightarrow> (Inl AuthorityNotRestorable, s)
      | Some failure \<Rightarrow>
          if \<not> is_authority_restorable (df_class failure) then (Inl AuthorityNotRestorable, s)
          else
            (Inr (Restored (inc_id incident)),
             commit (observed_at moment) next_revision
               (s\<lparr>sm_incident := Some (clear_attempt_evidence (incident\<lparr>
                    inc_failure := None,
                    inc_phase := Rearming,
                    inc_rescan_required := True,
                    inc_retry_failures := 0,
                    inc_retry_at := None\<rparr>))\<rparr>)))))"

definition restore_matching_authority ::
  "DependencyFailure \<Rightarrow> RecoveryMoment \<Rightarrow> RecoveryStateMachine \<Rightarrow> AuthorityRestoration outcome" where
  "restore_matching_authority expected_failure moment s =
     (case Option.bind (sm_incident s) inc_failure of
        None \<Rightarrow> (Inl AuthorityNotRestorable, s)
      | Some retained_failure \<Rightarrow>
          if retained_failure \<noteq> expected_failure then (Inl RetainedFailureMismatch, s)
          else restore_authority moment s)"

section \<open>Admissions\<close>

definition observe_activity ::
  "RecoveryMoment \<Rightarrow> RecoveryStateMachine \<Rightarrow> ActivityAdmission outcome" where
  "observe_activity moment s =
     (case ActivityWatermark_checked_next (sm_activity_watermark s) of
        None \<Rightarrow>
          (case next_revision_or_block moment s of
             (Inl e, s) \<Rightarrow> (Inl e, s)
           | (Inr next_revision, s) \<Rightarrow>
               (Inl ActivityWatermarkExhausted,
                commit (observed_at moment) next_revision
                  (terminal_block RecoveryActivityWatermarkExhausted moment
                    (s\<lparr>sm_activity_watermark := ActivityWatermark_terminal\<rparr>))))
      | Some next_watermark \<Rightarrow>
          (case next_revision_or_block moment
                  (s\<lparr>sm_activity_watermark := next_watermark\<rparr>) of
             (Inl e, s) \<Rightarrow> (Inl e, s)
           | (Inr next_revision, s) \<Rightarrow>
               (case sm_incident s of
                  None \<Rightarrow> (Inr Activity_Nominal, commit (observed_at moment) next_revision s)
                | Some incident \<Rightarrow>
                    (Inr (if is_blocked incident
                          then BlockedIncidentAdvanced (inc_id incident)
                          else ObservedDuringIncident (inc_id incident)),
                     commit (observed_at moment) next_revision s))))"

fun suppressed_admission :: "LossAdmission \<Rightarrow> ActivityAdmission" where
  "suppressed_admission (Opened incident_id) = CoverageInvalidated incident_id"
| "suppressed_admission (Coalesced incident_id) = CoverageInvalidated incident_id"
| "suppressed_admission (BlockedIncidentUpdated incident_id) = BlockedIncidentAdvanced incident_id"

definition observe_suppressed ::
  "RecoveryMoment \<Rightarrow> RecoveryStateMachine \<Rightarrow> ActivityAdmission outcome" where
  "observe_suppressed moment s =
     (case ActivityWatermark_checked_next (sm_activity_watermark s) of
        None \<Rightarrow>
          (case next_revision_or_block moment s of
             (Inl e, s) \<Rightarrow> (Inl e, s)
           | (Inr next_revision, s) \<Rightarrow>
               (Inl ActivityWatermarkExhausted,
                commit (observed_at moment) next_revision
                  (terminal_block RecoveryActivityWatermarkExhausted moment
                    (s\<lparr>sm_activity_watermark := ActivityWatermark_terminal\<rparr>))))
      | Some next_watermark \<Rightarrow>
     (case LossWatermark_checked_next (sm_loss_watermark s) of
        None \<Rightarrow>
          (case next_revision_or_block moment s of
             (Inl e, s) \<Rightarrow> (Inl e, s)
           | (Inr next_revision, s) \<Rightarrow>
               (Inl ActivityWatermarkExhausted,
                commit (observed_at moment) next_revision
                  (terminal_block RecoveryActivityWatermarkExhausted moment
                    (s\<lparr>sm_loss_watermark := LossWatermark_terminal\<rparr>))))
      | Some next_loss \<Rightarrow>
          (case next_revision_or_block moment
                  (s\<lparr>sm_activity_watermark := next_watermark, sm_loss_watermark := next_loss\<rparr>) of
             (Inl e, s) \<Rightarrow> (Inl e, s)
           | (Inr next_revision, s) \<Rightarrow>
               (case sm_incident s of
                  None \<Rightarrow>
                    (case open_incident NativeCallbackLaneSaturated moment next_revision s of
                       (Inl e, s) \<Rightarrow> (Inl e, s)
                     | (Inr admission, s) \<Rightarrow> (Inr (suppressed_admission admission), s))
                | Some incident \<Rightarrow>
                    (Inr (if is_blocked incident
                          then BlockedIncidentAdvanced (inc_id incident)
                          else CoverageInvalidated (inc_id incident)),
                     commit (observed_at moment) next_revision
                       (s\<lparr>sm_incident := Some (incident\<lparr>inc_rescan_required := True\<rparr>)\<rparr>))))))"

definition observe_loss ::
  "RecoveryCause \<Rightarrow> RecoveryMoment \<Rightarrow> RecoveryStateMachine \<Rightarrow> LossAdmission outcome" where
  "observe_loss cause moment s =
     (case ActivityWatermark_checked_next (sm_activity_watermark s) of
        None \<Rightarrow>
          (case next_revision_or_block moment s of
             (Inl e, s) \<Rightarrow> (Inl e, s)
           | (Inr next_revision, s) \<Rightarrow>
               (Inl ActivityWatermarkExhausted,
                commit (observed_at moment) next_revision
                  (terminal_block RecoveryActivityWatermarkExhausted moment
                    (s\<lparr>sm_activity_watermark := ActivityWatermark_terminal\<rparr>))))
      | Some next_watermark \<Rightarrow>
     (case LossWatermark_checked_next (sm_loss_watermark s) of
        None \<Rightarrow>
          (case next_revision_or_block moment s of
             (Inl e, s) \<Rightarrow> (Inl e, s)
           | (Inr next_revision, s) \<Rightarrow>
               (Inl ActivityWatermarkExhausted,
                commit (observed_at moment) next_revision
                  (terminal_block RecoveryActivityWatermarkExhausted moment
                    (s\<lparr>sm_loss_watermark := LossWatermark_terminal\<rparr>))))
      | Some next_loss \<Rightarrow>
          (case next_revision_or_block moment
                  (s\<lparr>sm_activity_watermark := next_watermark, sm_loss_watermark := next_loss\<rparr>) of
             (Inl e, s) \<Rightarrow> (Inl e, s)
           | (Inr next_revision, s) \<Rightarrow>
               (case sm_incident s of
                  None \<Rightarrow> open_incident cause moment next_revision s
                | Some incident \<Rightarrow>
                    (case record_cause cause incident of
                       Inl error \<Rightarrow>
                         (Inl error,
                          commit (observed_at moment) next_revision
                            (s\<lparr>sm_incident := Some (block
                                 (fatal_contract RecoveryCauseCountExhausted (observed_at moment))
                                 incident)\<rparr>))
                     | Inr incident' \<Rightarrow>
                         (Inr (if is_blocked incident
                               then BlockedIncidentUpdated (inc_id incident)
                               else Coalesced (inc_id incident)),
                          commit (observed_at moment) next_revision
                            (s\<lparr>sm_incident :=
                                 Some (incident'\<lparr>inc_rescan_required := True\<rparr>)\<rparr>)))))))"

end
