(* ===== verification/Recovery_Invariants.thy ===== *)
theory Recovery_Invariants
  imports Recovery_Reducer
begin

text \<open>
  The invariant of the recovery reducer
  (\<^verbatim>\<open>watcher_recovery/reducer/invariants.rs\<close>), a strengthening of it that every
  operation keeps, and the operations collected as the steps of one transition
  system.
\<close>

section \<open>The invariant of the source\<close>

definition lifecycle :: "RecoveryStateMachine \<Rightarrow> RecoveryLifecycle" where
  "lifecycle s =
     (case sm_incident s of
        None \<Rightarrow> Lifecycle_Nominal
      | Some incident \<Rightarrow>
          if is_blocked incident then Lifecycle_Blocked else Lifecycle_Recovering)"

definition no_attempt_evidence :: "IncidentState \<Rightarrow> bool" where
  "no_attempt_evidence i \<longleftrightarrow> inc_current_attempt i = None \<and> inc_native_coverage i = None"

definition no_failure_wait :: "IncidentState \<Rightarrow> bool" where
  "no_failure_wait i \<longleftrightarrow> inc_failure i = None \<and> inc_retry_at i = None"

definition phase_invariant :: "IncidentState \<Rightarrow> bool" where
  "phase_invariant i =
     (case inc_phase i of
        Rearming \<Rightarrow> no_attempt_evidence i \<and> no_failure_wait i
      | AwaitingCoverage \<Rightarrow>
          no_failure_wait i \<and> inc_native_coverage i = None
          \<and> (case inc_current_attempt i of None \<Rightarrow> False | Some a \<Rightarrow>
               att_native_boundary a = None \<and> \<not> att_scan_started a \<and> att_scan_revision a = None)
      | Scanning \<Rightarrow>
          no_failure_wait i
          \<and> (case inc_current_attempt i of None \<Rightarrow> False | Some a \<Rightarrow>
               att_native_boundary a = None \<and> att_scan_started a \<and> att_scan_revision a = None)
      | AwaitingSeal \<Rightarrow>
          no_failure_wait i
          \<and> (case inc_current_attempt i of None \<Rightarrow> False | Some a \<Rightarrow>
               att_native_boundary a = None \<and> att_scan_started a \<and> att_scan_revision a \<noteq> None)
      | Closing \<Rightarrow>
          no_failure_wait i
          \<and> (case inc_current_attempt i of None \<Rightarrow> False | Some a \<Rightarrow>
               att_native_boundary a \<noteq> None \<and> att_scan_started a \<and> att_scan_revision a \<noteq> None)
      | BackingOff \<Rightarrow>
          no_attempt_evidence i \<and> inc_retry_at i \<noteq> None
          \<and> (case inc_failure i of None \<Rightarrow> False | Some f \<Rightarrow> is_retryable (df_class f))
          \<and> inc_rescan_required i
      | Phase_Blocked \<Rightarrow>
          no_attempt_evidence i \<and> inc_retry_at i = None
          \<and> (case inc_failure i of None \<Rightarrow> False | Some f \<Rightarrow> \<not> is_retryable (df_class f))
          \<and> inc_rescan_required i)"

definition attempt_identity_holds :: "IncidentState \<Rightarrow> RecoveryStateMachine \<Rightarrow> bool" where
  "attempt_identity_holds i s =
     (case inc_current_attempt i of
        None \<Rightarrow> True
      | Some a \<Rightarrow>
          tok_incident_id (att_token a) = inc_id i
          \<and> Some (tok_worker_id (att_token a)) = sm_active_worker s
          \<and> acb_option_eq (att_native_boundary a) (inc_native_coverage i)
          \<and> (case att_native_boundary a of None \<Rightarrow> True
             | Some boundary \<Rightarrow> acb_activity_watermark boundary \<le> sm_activity_watermark s)
          \<and> (att_scan_revision a = None \<or> att_scan_started a))"

definition invariant_holds :: "RecoveryStateMachine \<Rightarrow> bool" where
  "invariant_holds s =
     (case sm_incident s of
        None \<Rightarrow> lifecycle s = Lifecycle_Nominal
      | Some i \<Rightarrow>
          lifecycle s = (if is_blocked i then Lifecycle_Blocked else Lifecycle_Recovering)
          \<and> 0 < cause_get (inc_cause_counts i) (inc_primary_cause i)
          \<and> attempt_identity_holds i s
          \<and> phase_invariant i)"

section \<open>Operations as steps\<close>

datatype recovery_op =
    ReplaceWorker RecoveryMoment
  | WorkerExited RecoveryWorkerOwnership RecoveryMoment
  | StartAttempt RecoveryMoment
  | RecordNativeBoundary AttemptToken WatcherCoverageHandoff RecoveryMoment
  | RecordScanStarted AttemptToken RecoveryMoment
  | RecordScanCompleted AttemptToken RecoveryScanRevision RecoveryMoment
  | OfferClose CloseOffer RecoveryMoment
  | RejectNativeClose AttemptToken RecoveryMoment
  | RecordDependencyFailure AttemptToken DependencyFailure RecoveryMoment
  | RetryIfDue RecoveryMoment
  | RestoreAuthority RecoveryMoment
  | RestoreMatchingAuthority DependencyFailure RecoveryMoment
  | ObserveActivity RecoveryMoment
  | ObserveSuppressed RecoveryMoment
  | ObserveLoss RecoveryCause RecoveryMoment

fun apply_op :: "recovery_op \<Rightarrow> RecoveryStateMachine \<Rightarrow> RecoveryStateMachine" where
  "apply_op (ReplaceWorker m) s = snd (replace_worker m s)"
| "apply_op (WorkerExited w m) s = snd (worker_exited w m s)"
| "apply_op (StartAttempt m) s = snd (start_attempt m s)"
| "apply_op (RecordNativeBoundary t h m) s = snd (record_native_boundary t h m s)"
| "apply_op (RecordScanStarted t m) s = snd (record_scan_started t m s)"
| "apply_op (RecordScanCompleted t r m) s = snd (record_scan_completed t r m s)"
| "apply_op (OfferClose offer m) s = snd (offer_close offer m s)"
| "apply_op (RejectNativeClose t m) s = snd (reject_native_close t m s)"
| "apply_op (RecordDependencyFailure t f m) s = snd (record_dependency_failure t f m s)"
| "apply_op (RetryIfDue m) s = snd (retry_if_due m s)"
| "apply_op (RestoreAuthority m) s = snd (restore_authority m s)"
| "apply_op (RestoreMatchingAuthority f m) s = snd (restore_matching_authority f m s)"
| "apply_op (ObserveActivity m) s = snd (observe_activity m s)"
| "apply_op (ObserveSuppressed m) s = snd (observe_suppressed m s)"
| "apply_op (ObserveLoss c m) s = snd (observe_loss c m s)"

primrec run :: "recovery_op list \<Rightarrow> RecoveryStateMachine \<Rightarrow> RecoveryStateMachine" where
  "run [] s = s"
| "run (op # ops) s = run ops (apply_op op s)"

inductive recovery_init :: "RecoveryStateMachine \<Rightarrow> bool" where
  init_nominal: "recovery_init (nominal source at policy)"
| init_startup: "recovery_init (startup_reconciliation source moment policy)"

inductive recovery_step :: "RecoveryStateMachine \<Rightarrow> RecoveryStateMachine \<Rightarrow> bool" where
  step_op: "recovery_step s (apply_op op s)"

section \<open>The inductive strengthening\<close>

text \<open>
  The source invariant says nothing of the lengths and bounds it relies on;
  these are the facts that make it inductive.
\<close>

definition counts_ok :: "IncidentState \<Rightarrow> bool" where
  "counts_ok i \<longleftrightarrow>
     length (inc_cause_counts i) = 8
     \<and> (\<forall>c \<in> set (inc_cause_counts i). c \<le> MAX_RECOVERY_COUNT)
     \<and> 0 < cause_get (inc_cause_counts i) (inc_primary_cause i)
     \<and> inc_attempt_count i \<le> MAX_RECOVERY_COUNT
     \<and> inc_scan_count i \<le> MAX_RECOVERY_COUNT"

definition attempt_ok ::
  "RecoveryWorkerId option \<Rightarrow> ActivityWatermark \<Rightarrow> IdSequence \<Rightarrow> IncidentState \<Rightarrow> bool" where
  "attempt_ok worker activity next_attempt i =
     (case inc_current_attempt i of
        None \<Rightarrow> True
      | Some a \<Rightarrow>
          tok_incident_id (att_token a) = inc_id i
          \<and> Some (tok_worker_id (att_token a)) = worker
          \<and> tok_attempt_id (att_token a) < next_attempt
          \<and> att_native_boundary a = inc_native_coverage i
          \<and> (\<forall>b. att_native_boundary a = Some b \<longrightarrow> acb_activity_watermark b \<le> activity)
          \<and> (att_scan_revision a = None \<or> att_scan_started a))"

definition ids_ok :: "RecoveryStateMachine \<Rightarrow> bool" where
  "ids_ok s \<longleftrightarrow>
     1 \<le> sm_next_incident_id s \<and> sm_next_incident_id s \<le> u64_MAX
     \<and> 1 \<le> sm_next_attempt_id s \<and> sm_next_attempt_id s \<le> u64_MAX
     \<and> 1 \<le> sm_next_worker_id s \<and> sm_next_worker_id s \<le> u64_MAX
     \<and> (\<forall>w. sm_active_worker s = Some w \<longrightarrow> w < sm_next_worker_id s)"

definition watermarks_ok :: "RecoveryStateMachine \<Rightarrow> bool" where
  "watermarks_ok s \<longleftrightarrow>
     sm_activity_watermark s \<le> MAX_SCHEMA_INTEGER
     \<and> sm_loss_watermark s \<le> MAX_SCHEMA_INTEGER
     \<and> sm_revision s \<le> MAX_SCHEMA_INTEGER"

definition incident_ok ::
  "RecoveryWorkerId option \<Rightarrow> ActivityWatermark \<Rightarrow> IdSequence \<Rightarrow> IncidentState option \<Rightarrow> bool" where
  "incident_ok worker activity next_attempt incident =
     (case incident of
        None \<Rightarrow> True
      | Some i \<Rightarrow> counts_ok i \<and> attempt_ok worker activity next_attempt i \<and> phase_invariant i)"

definition sm_ok :: "RecoveryStateMachine \<Rightarrow> bool" where
  "sm_ok s \<longleftrightarrow>
     ids_ok s \<and> watermarks_ok s
     \<and> incident_ok (sm_active_worker s) (sm_activity_watermark s) (sm_next_attempt_id s)
         (sm_incident s)"

lemma cause_index_less [simp]: "cause_index c < 8"
  by (cases c) auto

lemma cause_index_inj [simp]: "cause_index c = cause_index d \<longleftrightarrow> c = d"
  by (cases c; cases d) auto

lemma counts_ok_new [simp]: "counts_ok (IncidentState_new n c m)"
  by (auto simp: counts_ok_def IncidentState_new_def with_primary_def cause_get_def
      MAX_RECOVERY_COUNT_def dest!: set_update_subset_insert[THEN subsetD])

lemma counts_ok_record_cause:
  assumes "counts_ok i" and "record_cause c i = Inr j"
  shows "counts_ok j"
  using assms
  by (auto simp: counts_ok_def record_cause_def cause_increment_def cause_get_def nth_list_update
      count_counter.next_some split: option.splits dest!: set_update_subset_insert[THEN subsetD])

lemma incident_ok_new [simp]: "incident_ok w a n (Some (IncidentState_new k c m))"
  using counts_ok_new[of k c m]
  by (simp add: incident_ok_def IncidentState_new_def attempt_ok_def phase_invariant_def
      no_attempt_evidence_def no_failure_wait_def)

lemma incident_ok_block:
  assumes "incident_ok w a n (Some i)" and "\<not> is_retryable (df_class f)"
  shows "incident_ok w' a' n' (Some (block f i))"
  using assms
  by (simp add: incident_ok_def block_def clear_attempt_evidence_def attempt_ok_def counts_ok_def
      phase_invariant_def no_attempt_evidence_def)

lemma incident_ok_rearm:
  assumes "incident_ok w a n (Some i)"
  shows "incident_ok w' a' n' (Some (rearm_after_worker_change i))"
  using assms
  by (auto simp: incident_ok_def rearm_after_worker_change_def clear_attempt_evidence_def
      attempt_ok_def counts_ok_def phase_invariant_def no_attempt_evidence_def no_failure_wait_def
      is_blocked_def)

lemma incident_ok_retry:
  assumes "incident_ok w a n (Some i)" and "inc_phase i = Closing"
  shows "incident_ok w' a' n' (Some (retry_attempt i))"
  using assms
  by (auto simp: incident_ok_def retry_attempt_def clear_attempt_evidence_def
      attempt_ok_def counts_ok_def phase_invariant_def no_attempt_evidence_def no_failure_wait_def
      is_blocked_def)

lemma fatal_contract_not_retryable [simp]: "\<not> is_retryable (df_class (fatal_contract c t))"
  by (simp add: fatal_contract_def DependencyFailure_new_def is_retryable_def)

lemma incident_ok_None [simp]: "incident_ok w a n None"
  by (simp add: incident_ok_def)

lemma incident_ok_mono:
  assumes "incident_ok w a n x" and "a \<le> a'" and "n \<le> n'"
  shows "incident_ok w a' n' x"
  using assms by (force simp: incident_ok_def attempt_ok_def split: option.splits)

lemma allocate_cases:
  assumes "1 \<le> n" and "n \<le> u64_MAX"
  obtains (available) "allocate n = (Available n, n + 1)" "n < u64_MAX"
        | (terminal) "allocate n = (Terminal n, n)" "n = u64_MAX"
  using assms by (cases "n = u64_MAX") (auto simp: allocate_def)

lemma prefixed_id_new_pos [simp]: "1 \<le> n \<Longrightarrow> prefixed_id_new k n = Inr n"
  by (simp add: prefixed_id_new_def)

lemma sm_ok_commit:
  assumes "sm_ok s" and "r \<le> MAX_SCHEMA_INTEGER"
  shows "sm_ok (commit t r s)"
  using assms by (simp add: sm_ok_def commit_def ids_ok_def watermarks_ok_def)

lemma sm_ok_incident:
  assumes "sm_ok s"
    and "incident_ok (sm_active_worker s) (sm_activity_watermark s) (sm_next_attempt_id s) x"
  shows "sm_ok (s\<lparr>sm_incident := x\<rparr>)"
  using assms by (simp add: sm_ok_def ids_ok_def watermarks_ok_def)

lemma sm_ok_block:
  assumes "sm_ok s" and "sm_incident s = Some i" and "\<not> is_retryable (df_class f)"
  shows "sm_ok (s\<lparr>sm_incident := Some (block f i)\<rparr>)"
  using assms(1)
proof (rule sm_ok_incident)
  show "incident_ok (sm_active_worker s) (sm_activity_watermark s) (sm_next_attempt_id s)
      (Some (block f i))"
    using assms by (auto simp: sm_ok_def intro: incident_ok_block)
qed

text \<open>Blocking forgets the attempt, so it also repairs an incident of a retired worker.\<close>

lemma sm_ok_terminal_block:
  assumes "ids_ok s" and "watermarks_ok s" and "incident_ok w a n (sm_incident s)"
  shows "sm_ok (terminal_block c m s)"
proof (cases "sm_incident s")
  case None
  then show ?thesis using assms
    by (simp add: terminal_block_def Let_def sm_ok_def ids_ok_def watermarks_ok_def u64_MAX_def
        incident_ok_block[OF incident_ok_new])
next
  case (Some i)
  with assms show ?thesis
    by (simp add: terminal_block_def Let_def sm_ok_def ids_ok_def watermarks_ok_def
        incident_ok_block)
qed

lemma next_revision_bound:
  "RecoveryRevision_checked_next r = Some n \<Longrightarrow> n = Suc r \<and> n \<le> MAX_SCHEMA_INTEGER"
  by (auto simp: revision_counter.next_some)

lemma sm_ok_exhausted:
  assumes "sm_ok s"
  shows "sm_ok (commit t RecoveryRevision_terminal (terminal_block c m s))"
proof (rule sm_ok_commit)
  show "sm_ok (terminal_block c m s)"
    using assms by (auto simp: sm_ok_def[of s] intro: sm_ok_terminal_block)
qed (simp add: RecoveryRevision_terminal_def)

lemma next_revision_cases:
  obtains (exhausted) "RecoveryRevision_checked_next (sm_revision s) = None"
      "next_revision_or_block m s = (Inl RecoveryRevisionExhausted,
         commit (observed_at m) RecoveryRevision_terminal
           (terminal_block Code_RecoveryRevisionExhausted m s))"
    | (available) r where "RecoveryRevision_checked_next (sm_revision s) = Some r"
      "next_revision_or_block m s = (Inr r, s)" "r = Suc (sm_revision s)" "r \<le> MAX_SCHEMA_INTEGER"
  by (cases "RecoveryRevision_checked_next (sm_revision s)")
    (auto simp: next_revision_or_block_def dest: next_revision_bound)

lemma sm_ok_open_incident:
  assumes "sm_ok s" and "r \<le> MAX_SCHEMA_INTEGER"
  shows "sm_ok (snd (open_incident c m r s))"
proof -
  have ids: "1 \<le> sm_next_incident_id s" "sm_next_incident_id s \<le> u64_MAX"
    using assms(1) by (simp_all add: sm_ok_def ids_ok_def)
  then show ?thesis
  proof (cases rule: allocate_cases)
    case available
    then show ?thesis using ids assms
      by (simp add: open_incident_def Let_def commit_def sm_ok_def ids_ok_def watermarks_ok_def)
  next
    case terminal
    then show ?thesis using ids assms
      by (simp add: open_incident_def Let_def commit_def sm_ok_def ids_ok_def watermarks_ok_def
          incident_ok_block[OF incident_ok_new])
  qed
qed

section \<open>Every operation keeps the invariant\<close>

lemma sm_ok_replace_worker:
  assumes ok: "sm_ok s"
  shows "sm_ok (snd (replace_worker m s))"
proof (cases rule: next_revision_cases[of s m])
  case exhausted
  then show ?thesis using ok by (simp add: replace_worker_def sm_ok_exhausted)
next
  case (available r)
  have ids: "1 \<le> sm_next_worker_id s" "sm_next_worker_id s \<le> u64_MAX"
    using ok by (simp_all add: sm_ok_def ids_ok_def)
  from ids show ?thesis
  proof (cases rule: allocate_cases)
    case alloc: available
    with available ids ok show ?thesis
      by (auto simp: replace_worker_def Let_def sm_ok_def ids_ok_def watermarks_ok_def commit_def
          intro: incident_ok_rearm split: option.splits)
  next
    case terminal
    have "sm_ok (terminal_block c m (s\<lparr>sm_next_worker_id := u64_MAX, sm_active_worker := None\<rparr>))"
      for c
      using ok by (intro sm_ok_terminal_block[of _ "sm_active_worker s" "sm_activity_watermark s"
            "sm_next_attempt_id s"]) (simp_all add: sm_ok_def ids_ok_def watermarks_ok_def u64_MAX_def)
    with available terminal show ?thesis
      by (simp add: replace_worker_def sm_ok_commit)
  qed
qed

lemma sm_ok_worker_exited:
  assumes ok: "sm_ok s"
  shows "sm_ok (snd (worker_exited w m s))"
proof (cases rule: next_revision_cases[of s m])
  case exhausted
  then show ?thesis using ok by (simp add: worker_exited_def sm_ok_exhausted split: sum.splits)
next
  case (available r)
  have idle: "sm_ok (s\<lparr>sm_active_worker := None\<rparr>)" if "sm_incident s = None"
    using ok that by (simp add: sm_ok_def ids_ok_def watermarks_ok_def)
  from available ok show ?thesis
    using sm_ok_open_incident[OF idle, of r WatcherDisconnected m]
    by (auto simp: worker_exited_def Let_def sm_ok_def ids_ok_def watermarks_ok_def commit_def
        intro: incident_ok_rearm split: option.splits sum.splits prod.splits)
qed

lemma active_incident_Inr [simp]:
  "active_incident s = Inr i \<longleftrightarrow> sm_incident s = Some i \<and> \<not> is_blocked i"
  by (auto simp: active_incident_def split: option.splits)

lemma matching_attempt_Inr [simp]:
  "matching_attempt i t = Inr a \<longleftrightarrow> inc_current_attempt i = Some a \<and> att_token a = t"
  by (auto simp: matching_attempt_def split: option.splits)

lemma sm_ok_commit_incident:
  assumes "sm_ok s" and "r \<le> MAX_SCHEMA_INTEGER"
    and "incident_ok (sm_active_worker s) (sm_activity_watermark s) (sm_next_attempt_id s) x"
  shows "sm_ok (commit t r (s\<lparr>sm_incident := x\<rparr>))"
  using assms by (intro sm_ok_commit sm_ok_incident)

lemma sm_ok_incident_ok:
  assumes "sm_ok s" and "sm_incident s = Some i"
  shows "incident_ok (sm_active_worker s) (sm_activity_watermark s) (sm_next_attempt_id s) (Some i)"
  using assms by (simp add: sm_ok_def)

lemmas incident_ok_unfold =
  incident_ok_def counts_ok_def attempt_ok_def
  phase_invariant_def no_attempt_evidence_def no_failure_wait_def

lemma incident_ok_started:
  assumes "incident_ok w a n (Some i)" and "c \<le> MAX_RECOVERY_COUNT"
    and "tok_incident_id t = inc_id i" and "Some (tok_worker_id t) = w" and "tok_attempt_id t < n'"
  shows "incident_ok w a n' (Some (i\<lparr>inc_attempt_count := c, inc_phase := AwaitingCoverage,
    inc_rescan_required := False, inc_current_attempt := Some (AttemptState_new t x),
    inc_native_coverage := None, inc_retry_at := None, inc_failure := None\<rparr>))"
  using assms by (simp add: incident_ok_unfold AttemptState_new_def)

lemma incident_ok_scan_started:
  assumes "incident_ok w a n (Some i)" and "c \<le> MAX_RECOVERY_COUNT"
    and "inc_phase i = AwaitingCoverage" and "inc_current_attempt i = Some t"
  shows "incident_ok w a n (Some (i\<lparr>inc_scan_count := c,
    inc_current_attempt := Some (t\<lparr>att_scan_started := True\<rparr>),
    inc_rescan_required := False, inc_phase := Scanning\<rparr>))"
  using assms by (simp add: incident_ok_unfold)

lemma incident_ok_scan_completed:
  assumes "incident_ok w a n (Some i)"
    and "inc_phase i = Scanning" and "inc_current_attempt i = Some t"
  shows "incident_ok w a n (Some (i\<lparr>
    inc_current_attempt := Some (t\<lparr>att_scan_revision := Some v\<rparr>), inc_phase := AwaitingSeal\<rparr>))"
  using assms by (auto simp: incident_ok_unfold)

lemma incident_ok_sealed:
  assumes "incident_ok w a n (Some i)" and "acb_activity_watermark b \<le> a"
    and "inc_phase i = AwaitingSeal" and "inc_current_attempt i = Some t"
  shows "incident_ok w a n (Some (i\<lparr>
    inc_current_attempt := Some (t\<lparr>att_native_boundary := Some b\<rparr>),
    inc_native_coverage := Some b, inc_phase := Closing\<rparr>))"
  using assms by (simp add: incident_ok_unfold)

lemma sm_ok_start_attempt:
  assumes ok: "sm_ok s"
  shows "sm_ok (snd (start_attempt m s))"
proof (cases rule: next_revision_cases[of s m])
  case exhausted
  then show ?thesis using ok by (simp add: start_attempt_def sm_ok_exhausted)
next
  case (available r)
  have ids: "1 \<le> sm_next_attempt_id s" "sm_next_attempt_id s \<le> u64_MAX"
    using ok by (simp_all add: sm_ok_def ids_ok_def)
  have next_ok: "sm_ok (s\<lparr>sm_next_attempt_id := Suc (sm_next_attempt_id s)\<rparr>)"
    if "sm_next_attempt_id s < u64_MAX"
    using ok that by (auto simp: sm_ok_def ids_ok_def watermarks_ok_def elim: incident_ok_mono)
  note inc = sm_ok_incident_ok[OF ok]
  from ids show ?thesis
  proof (cases rule: allocate_cases)
    case alloc: available
    note step = sm_ok_commit_incident[OF next_ok[OF alloc(2)] available(4), simplified]
    from alloc(1) available(1,2) ids ok step show ?thesis
      by (auto simp: start_attempt_def Let_def count_counter.next_some
          split: option.split intro!: step intro: incident_ok_block[OF inc] incident_ok_started[OF inc])
  next
    case terminal
    with ok have "sm_ok (s\<lparr>sm_next_attempt_id := u64_MAX\<rparr>)"
      by (simp add: sm_ok_def ids_ok_def watermarks_ok_def)
    with available(2,4) ok terminal show ?thesis
      by (auto simp: start_attempt_def block_for_exhaustion_def
          intro!: sm_ok_commit sm_ok_block split: option.split)
  qed
qed

lemma sm_ok_record_native_boundary:
  assumes ok: "sm_ok s"
  shows "sm_ok (snd (record_native_boundary t h m s))"
proof (cases rule: next_revision_cases[of s m])
  case exhausted
  then show ?thesis using ok by (simp add: record_native_boundary_def sm_ok_exhausted)
next
  case (available r)
  have "sm_ok (s\<lparr>sm_last_native_boundary_id := x, sm_last_native_epoch := y\<rparr>)" for x y
    using ok by (simp add: sm_ok_def ids_ok_def watermarks_ok_def)
  note step = sm_ok_commit_incident[OF this available(4), simplified]
  from available(2) ok show ?thesis
    by (auto simp: record_native_boundary_def Let_def acb_admitted_def split: option.split sum.split
        intro!: step incident_ok_sealed[OF sm_ok_incident_ok[OF ok]])
qed

lemma sm_ok_record_scan_started:
  assumes ok: "sm_ok s"
  shows "sm_ok (snd (record_scan_started t m s))"
proof (cases rule: next_revision_cases[of s m])
  case exhausted
  then show ?thesis using ok by (simp add: record_scan_started_def sm_ok_exhausted)
next
  case (available r)
  note step = sm_ok_commit_incident[OF ok available(4)] and inc = sm_ok_incident_ok[OF ok]
  from available(2) ok show ?thesis
    by (auto simp: record_scan_started_def begin_authoritative_scan_def count_counter.next_some
        split: option.split sum.split
        intro!: step intro: incident_ok_block[OF inc] incident_ok_scan_started[OF inc])
qed

lemma sm_ok_record_scan_completed:
  assumes ok: "sm_ok s"
  shows "sm_ok (snd (record_scan_completed t v m s))"
proof (cases rule: next_revision_cases[of s m])
  case exhausted
  then show ?thesis using ok by (simp add: record_scan_completed_def sm_ok_exhausted)
next
  case (available r)
  note step = sm_ok_commit_incident[OF ok available(4)] and inc = sm_ok_incident_ok[OF ok]
  from available(2) ok show ?thesis
    by (auto simp: record_scan_completed_def complete_authoritative_scan_def
        split: option.split sum.split intro!: step intro: incident_ok_scan_completed[OF inc])
qed

lemma sm_ok_offer_close:
  assumes ok: "sm_ok s"
  shows "sm_ok (snd (offer_close offer m s))"
proof (cases rule: next_revision_cases[of s m])
  case exhausted
  then show ?thesis using ok by (simp add: offer_close_def sm_ok_exhausted)
next
  case (available r)
  have "sm_ok (s\<lparr>sm_incident := None, sm_last_completed := Some receipt\<rparr>)" for receipt
    using ok by (simp add: sm_ok_def ids_ok_def watermarks_ok_def)
  note closed = sm_ok_commit[OF this available(4)]
  note step = sm_ok_commit_incident[OF ok available(4)] and inc = sm_ok_incident_ok[OF ok]
  from available(2) ok show ?thesis
    by (auto simp: offer_close_def Let_def split: option.split sum.split
        intro!: closed step intro: incident_ok_block[OF inc] incident_ok_retry[OF inc])
qed

lemma sm_ok_reject_native_close:
  assumes ok: "sm_ok s"
  shows "sm_ok (snd (reject_native_close t m s))"
proof (cases rule: next_revision_cases[of s m])
  case exhausted
  then show ?thesis using ok by (simp add: reject_native_close_def sm_ok_exhausted)
next
  case (available r)
  note step = sm_ok_commit_incident[OF ok available(4)] and inc = sm_ok_incident_ok[OF ok]
  from available(2) ok show ?thesis
    by (auto simp: reject_native_close_def split: option.split sum.split
        intro!: step intro: incident_ok_retry[OF inc])
qed

lemma incident_ok_backing_off:
  assumes "incident_ok w a n (Some i)" and "is_retryable (df_class f)"
  shows "incident_ok w a n (Some ((clear_attempt_evidence (i\<lparr>inc_retry_failures := c,
    inc_retry_at := Some x\<rparr>))\<lparr>inc_phase := BackingOff, inc_rescan_required := True,
    inc_failure := Some f\<rparr>))"
  using assms by (simp add: incident_ok_unfold clear_attempt_evidence_def)

lemma sm_ok_record_dependency_failure:
  assumes ok: "sm_ok s"
  shows "sm_ok (snd (record_dependency_failure t f m s))"
proof (cases rule: next_revision_cases[of s m])
  case exhausted
  then show ?thesis using ok by (simp add: record_dependency_failure_def sm_ok_exhausted)
next
  case (available r)
  note step = sm_ok_commit_incident[OF ok available(4)] and inc = sm_ok_incident_ok[OF ok]
  from available(2) ok show ?thesis
    by (auto simp: record_dependency_failure_def Let_def split: option.split sum.split
        intro!: step intro: incident_ok_block[OF inc] incident_ok_backing_off[OF inc])
qed

lemma incident_ok_retried:
  assumes "incident_ok w a n (Some i)"
  shows "incident_ok w a n (Some (clear_attempt_evidence (i\<lparr>inc_retry_at := None,
    inc_phase := Rearming, inc_failure := None\<rparr>)))"
  using assms by (simp add: incident_ok_unfold clear_attempt_evidence_def)

lemma sm_ok_retry_if_due:
  assumes ok: "sm_ok s"
  shows "sm_ok (snd (retry_if_due m s))"
proof (cases rule: next_revision_cases[of s m])
  case exhausted
  then show ?thesis using ok by (simp add: retry_if_due_def sm_ok_exhausted)
next
  case (available r)
  note step = sm_ok_commit_incident[OF ok available(4)] and inc = sm_ok_incident_ok[OF ok]
  from available(2) ok show ?thesis
    by (auto simp: retry_if_due_def split: option.split sum.split
        intro!: step intro: incident_ok_retried[OF inc])
qed

lemma incident_ok_restored:
  assumes "incident_ok w a n (Some i)"
  shows "incident_ok w a n (Some (clear_attempt_evidence (i\<lparr>inc_failure := None,
    inc_phase := Rearming, inc_rescan_required := True, inc_retry_failures := 0,
    inc_retry_at := None\<rparr>)))"
  using assms by (simp add: incident_ok_unfold clear_attempt_evidence_def)

lemma sm_ok_restore_authority:
  assumes ok: "sm_ok s"
  shows "sm_ok (snd (restore_authority m s))"
proof (cases rule: next_revision_cases[of s m])
  case exhausted
  then show ?thesis using ok by (simp add: restore_authority_def sm_ok_exhausted)
next
  case (available r)
  note step = sm_ok_commit_incident[OF ok available(4)] and inc = sm_ok_incident_ok[OF ok]
  from available(2) ok show ?thesis
    by (auto simp: restore_authority_def split: option.split
        intro!: step intro: incident_ok_restored[OF inc])
qed

lemma sm_ok_restore_matching_authority:
  "sm_ok s \<Longrightarrow> sm_ok (snd (restore_matching_authority f m s))"
  by (simp add: restore_matching_authority_def sm_ok_restore_authority split: option.split)

lemma sm_ok_watermarks:
  assumes "sm_ok s" and "sm_activity_watermark s \<le> a" and "a \<le> MAX_SCHEMA_INTEGER"
    and "l \<le> MAX_SCHEMA_INTEGER"
  shows "sm_ok (s\<lparr>sm_activity_watermark := a\<rparr>)"
    and "sm_ok (s\<lparr>sm_loss_watermark := l\<rparr>)"
    and "sm_ok (s\<lparr>sm_activity_watermark := a, sm_loss_watermark := l\<rparr>)"
  using assms by (auto simp: sm_ok_def ids_ok_def watermarks_ok_def elim: incident_ok_mono)


lemma sm_ok_watermark_exhausted:
  assumes ok: "sm_ok s" and upd: "sm_ok (f s)"
  shows "sm_ok (snd (case next_revision_or_block m s of
      (Inl e, s) \<Rightarrow> (Inl e, s)
    | (Inr r, s) \<Rightarrow> (Inl e', commit t r (terminal_block c m (f s)))))"
proof (cases rule: next_revision_cases[of s m])
  case exhausted
  then show ?thesis using ok by (simp add: sm_ok_exhausted)
next
  case (available r)
  have "sm_ok (terminal_block c m (f s))"
    using upd by (auto simp: sm_ok_def[of "f s"] intro: sm_ok_terminal_block)
  with available show ?thesis by (simp add: sm_ok_commit)
qed

lemma sm_ok_watermark_terminals:
  assumes "sm_ok s"
  shows "sm_ok (s\<lparr>sm_activity_watermark := ActivityWatermark_terminal\<rparr>)"
    and "sm_ok (s\<lparr>sm_loss_watermark := LossWatermark_terminal\<rparr>)"
  using assms sm_ok_watermarks(1)[of s ActivityWatermark_terminal 0]
    sm_ok_watermarks(2)[of s "sm_activity_watermark s" LossWatermark_terminal]
  by (simp_all add: ActivityWatermark_terminal_def LossWatermark_terminal_def sm_ok_def
      watermarks_ok_def)

lemma sm_ok_observe_activity:
  assumes ok: "sm_ok s"
  shows "sm_ok (snd (observe_activity m s))"
proof (cases "ActivityWatermark_checked_next (sm_activity_watermark s)")
  case None
  then show ?thesis
    using ok by (simp add: observe_activity_def sm_ok_watermark_exhausted sm_ok_watermark_terminals)
next
  case (Some a)
  then have a: "sm_ok (s\<lparr>sm_activity_watermark := a\<rparr>)"
    using ok by (intro sm_ok_watermarks(1)[of _ _ 0]) (auto simp: activity_counter.next_some)
  show ?thesis
    using a Some
    by (cases rule: next_revision_cases[of "s\<lparr>sm_activity_watermark := a\<rparr>" m])
      (auto simp: observe_activity_def sm_ok_exhausted sm_ok_commit split: option.split)
qed

text \<open>Both admissions of lost coverage start by advancing the two watermarks.\<close>

lemma sm_ok_loss_watermarks:
  assumes "sm_ok s"
    and "ActivityWatermark_checked_next (sm_activity_watermark s) = Some a"
    and "LossWatermark_checked_next (sm_loss_watermark s) = Some l"
  shows "sm_ok (s\<lparr>sm_activity_watermark := a, sm_loss_watermark := l\<rparr>)"
  using assms
  by (intro sm_ok_watermarks(3)) (auto simp: activity_counter.next_some loss_counter.next_some)

lemma incident_ok_rescan:
  assumes "incident_ok w a n (Some i)"
  shows "incident_ok w a n (Some (i\<lparr>inc_rescan_required := True\<rparr>))"
proof -
  have "attempt_ok w a n (i\<lparr>inc_rescan_required := True\<rparr>) = attempt_ok w a n i"
    by (simp add: attempt_ok_def split: option.split)
  moreover have "phase_invariant i \<Longrightarrow> phase_invariant (i\<lparr>inc_rescan_required := True\<rparr>)"
    by (auto simp: phase_invariant_def no_attempt_evidence_def no_failure_wait_def
        split: RecoveryPhase.splits option.splits)
  ultimately show ?thesis
    using assms by (simp add: incident_ok_def counts_ok_def)
qed

lemma cause_counts_frame [simp]:
  "attempt_ok w a n (i\<lparr>inc_cause_counts := counts\<rparr>) = attempt_ok w a n i"
  "phase_invariant (i\<lparr>inc_cause_counts := counts\<rparr>) = phase_invariant i"
  by (simp_all add: attempt_ok_def phase_invariant_def no_attempt_evidence_def no_failure_wait_def
      split: option.split RecoveryPhase.split)

lemma incident_ok_record_cause:
  assumes "incident_ok w a n (Some i)" and "record_cause c i = Inr j"
  shows "incident_ok w a n (Some j)"
proof -
  have "counts_ok j"
    using assms by (auto simp: incident_ok_def intro: counts_ok_record_cause)
  with assms show ?thesis
    by (auto simp: incident_ok_def record_cause_def split: option.splits)
qed

lemma sm_ok_observe_suppressed:
  assumes ok: "sm_ok s"
  shows "sm_ok (snd (observe_suppressed m s))"
proof (cases "ActivityWatermark_checked_next (sm_activity_watermark s)")
  case None
  then show ?thesis
    using ok by (simp add: observe_suppressed_def sm_ok_watermark_exhausted sm_ok_watermark_terminals)
next
  case a: (Some a)
  show ?thesis
  proof (cases "LossWatermark_checked_next (sm_loss_watermark s)")
    case None
    with a ok show ?thesis
      by (simp add: observe_suppressed_def sm_ok_watermark_exhausted sm_ok_watermark_terminals)
  next
    case l: (Some l)
    let ?s = "s\<lparr>sm_activity_watermark := a, sm_loss_watermark := l\<rparr>"
    have upd: "sm_ok ?s" by (rule sm_ok_loss_watermarks[OF ok a l])
    show ?thesis
    proof (cases rule: next_revision_cases[of ?s m])
      case exhausted
      then show ?thesis using upd a l by (simp add: observe_suppressed_def sm_ok_exhausted)
    next
      case (available r)
      note step = sm_ok_commit_incident[OF upd available(4)]
      from sm_ok_incident_ok[OF upd] available(2) a l upd
        sm_ok_open_incident[OF upd available(4), of NativeCallbackLaneSaturated m]
      show ?thesis
        by (auto simp: observe_suppressed_def split: option.split prod.split sum.split
            intro!: step incident_ok_rescan)
    qed
  qed
qed

lemma sm_ok_observe_loss:
  assumes ok: "sm_ok s"
  shows "sm_ok (snd (observe_loss c m s))"
proof (cases "ActivityWatermark_checked_next (sm_activity_watermark s)")
  case None
  then show ?thesis
    using ok by (simp add: observe_loss_def sm_ok_watermark_exhausted sm_ok_watermark_terminals)
next
  case a: (Some a)
  show ?thesis
  proof (cases "LossWatermark_checked_next (sm_loss_watermark s)")
    case None
    with a ok show ?thesis
      by (simp add: observe_loss_def sm_ok_watermark_exhausted sm_ok_watermark_terminals)
  next
    case l: (Some l)
    let ?s = "s\<lparr>sm_activity_watermark := a, sm_loss_watermark := l\<rparr>"
    have upd: "sm_ok ?s" by (rule sm_ok_loss_watermarks[OF ok a l])
    show ?thesis
    proof (cases rule: next_revision_cases[of ?s m])
      case exhausted
      then show ?thesis using upd a l by (simp add: observe_loss_def sm_ok_exhausted)
    next
      case (available r)
      note step = sm_ok_commit_incident[OF upd available(4)] and inc = sm_ok_incident_ok[OF upd]
      from sm_ok_open_incident[OF upd available(4)] available(2) a l upd inc
      show ?thesis
        by (auto simp: observe_loss_def split: option.split sum.split
            intro!: step incident_ok_rescan intro: incident_ok_block incident_ok_record_cause)
    qed
  qed
qed

lemma sm_ok_apply_op: "sm_ok s \<Longrightarrow> sm_ok (apply_op op s)"
  by (cases op) (simp_all add: sm_ok_replace_worker sm_ok_worker_exited sm_ok_start_attempt
      sm_ok_record_native_boundary sm_ok_record_scan_started sm_ok_record_scan_completed
      sm_ok_offer_close sm_ok_reject_native_close sm_ok_record_dependency_failure
      sm_ok_retry_if_due sm_ok_restore_authority sm_ok_restore_matching_authority
      sm_ok_observe_activity sm_ok_observe_suppressed sm_ok_observe_loss)

lemma sm_ok_init: "recovery_init s \<Longrightarrow> sm_ok s"
  by (cases rule: recovery_init.cases)
    (auto simp: nominal_def startup_reconciliation_def sm_ok_def ids_ok_def watermarks_ok_def
      MAX_SCHEMA_INTEGER_def u64_MAX_def)

interpretation recovery: inductive_invariant recovery_init recovery_step sm_ok
  by unfold_locales (auto simp: sm_ok_init sm_ok_apply_op elim: recovery_step.cases)

lemma sm_ok_invariant_holds:
  assumes "sm_ok s"
  shows "invariant_holds s"
proof (cases "sm_incident s")
  case None
  then show ?thesis by (simp add: invariant_holds_def lifecycle_def)
next
  case (Some i)
  with assms have "attempt_identity_holds i s"
    by (auto simp: sm_ok_def incident_ok_def attempt_ok_def attempt_identity_holds_def
        split: option.splits)
  with assms Some show ?thesis
    by (simp add: invariant_holds_def lifecycle_def sm_ok_def incident_ok_def counts_ok_def)
qed

lemma reach_run:
  assumes "reach recovery_init recovery_step s"
  shows "reach recovery_init recovery_step (run ops s)"
  using assms
proof (induction ops arbitrary: s)
  case (Cons op ops)
  then show ?case by (auto intro: reach_step recovery_step.intros)
qed simp

end
