(* ===== verification/Recovery_Closure.thy ===== *)
theory Recovery_Closure
  imports Recovery_Invariants
begin

text \<open>
  Which states of the recovery reducer still owe an authoritative scan
  (\<open>uncovered\<close>), what an operation can and cannot move backwards (\<open>evolves\<close>),
  and what a granted close has checked (\<open>close_granted\<close>), with the facts about
  every operation that the properties of recovery rest on.
\<close>

section \<open>Notions\<close>

text \<open>The token of the attempt in flight (\<open>current_attempt_token\<close> of the source).\<close>

definition current_attempt_token :: "RecoveryStateMachine \<Rightarrow> AttemptToken option" where
  "current_attempt_token s =
     map_option att_token (Option.bind (sm_incident s) inc_current_attempt)"

text \<open>
  An incident is uncovered while a rescan is required of it or no scan has
  started in its current attempt.
\<close>

definition uncovered_incident :: "IncidentState \<Rightarrow> bool" where
  "uncovered_incident i \<longleftrightarrow>
     inc_rescan_required i
     \<or> (case inc_current_attempt i of None \<Rightarrow> True | Some a \<Rightarrow> \<not> att_scan_started a)"

definition uncovered :: "RecoveryStateMachine \<Rightarrow> bool" where
  "uncovered s =
     (case sm_incident s of None \<Rightarrow> False | Some i \<Rightarrow> uncovered_incident i)"

text \<open>Runs in which no scan begins, and the operations that report lost coverage.\<close>

fun scan_begins :: "recovery_op \<Rightarrow> RecoveryStateMachine \<Rightarrow> bool" where
  "scan_begins (RecordScanStarted t m) s = is_ok (fst (record_scan_started t m s))"
| "scan_begins _ s = False"

primrec scan_free :: "recovery_op list \<Rightarrow> RecoveryStateMachine \<Rightarrow> bool" where
  "scan_free [] s = True"
| "scan_free (op # ops) s \<longleftrightarrow> \<not> scan_begins op s \<and> scan_free ops (apply_op op s)"

fun loses_coverage :: "recovery_op \<Rightarrow> RecoveryStateMachine \<Rightarrow> bool" where
  "loses_coverage (ObserveLoss c m) s = True"
| "loses_coverage (ObserveSuppressed m) s = True"
| "loses_coverage (WorkerExited w m) s = is_ok (fst (worker_exited w m s))"
| "loses_coverage _ s = False"

text \<open>
  What no operation undoes: the revision, the watermarks and the identifier
  sequences never fall, a changed state has a new revision unless the revision
  is exhausted, and the token in flight is the old one or a fresh one.
\<close>

definition evolves :: "RecoveryStateMachine \<Rightarrow> RecoveryStateMachine \<Rightarrow> bool" where
  "evolves s t \<longleftrightarrow>
     (t = s \<or> sm_revision s < sm_revision t \<or> sm_revision s = RecoveryRevision_terminal)
     \<and> sm_revision s \<le> sm_revision t
     \<and> sm_activity_watermark s \<le> sm_activity_watermark t
     \<and> sm_loss_watermark s \<le> sm_loss_watermark t
     \<and> sm_next_incident_id s \<le> sm_next_incident_id t
     \<and> sm_next_attempt_id s \<le> sm_next_attempt_id t
     \<and> sm_next_worker_id s \<le> sm_next_worker_id t
     \<and> (\<forall>tok. current_attempt_token t = Some tok \<longrightarrow>
          current_attempt_token s = Some tok \<or> sm_next_attempt_id s \<le> tok_attempt_id tok)"

text \<open>The same before the revision is committed.\<close>

definition advances :: "RecoveryStateMachine \<Rightarrow> RecoveryStateMachine \<Rightarrow> bool" where
  "advances s t \<longleftrightarrow>
     sm_revision t = sm_revision s
     \<and> sm_activity_watermark s \<le> sm_activity_watermark t
     \<and> sm_loss_watermark s \<le> sm_loss_watermark t
     \<and> sm_next_incident_id s \<le> sm_next_incident_id t
     \<and> sm_next_attempt_id s \<le> sm_next_attempt_id t
     \<and> sm_next_worker_id s \<le> sm_next_worker_id t
     \<and> (\<forall>tok. current_attempt_token t = Some tok \<longrightarrow>
          current_attempt_token s = Some tok \<or> sm_next_attempt_id s \<le> tok_attempt_id tok)"

text \<open>What a granted close has seen, and what it leaves.\<close>

definition close_granted ::
  "CloseOffer \<Rightarrow> RecoveryMoment \<Rightarrow> RecoveryStateMachine \<Rightarrow> RecoveryClosureReceipt \<Rightarrow>
   IncidentState \<Rightarrow> AttemptState \<Rightarrow> AttemptCoverageBoundary \<Rightarrow> bool" where
  "close_granted offer m s receipt i a b \<longleftrightarrow>
     sm_incident s = Some i \<and> inc_phase i = Closing \<and> \<not> inc_rescan_required i
     \<and> inc_current_attempt i = Some a \<and> att_token a = co_attempt offer
     \<and> att_native_boundary a = Some b \<and> acb_eq b (co_native_boundary offer)
     \<and> att_scan_revision a = Some (co_scan_revision offer)
     \<and> acb_loss_watermark b = sm_loss_watermark s
     \<and> receipt = \<lparr>
          rcr_incident_id = inc_id i,
          rcr_attempt_id = tok_attempt_id (co_attempt offer),
          rcr_attempt_count = inc_attempt_count i,
          rcr_scan_count = inc_scan_count i,
          rcr_activity_watermark = acb_activity_watermark b,
          rcr_authoritative_scan_revision = co_scan_revision offer,
          rcr_native_boundary = b,
          rcr_started_at = inc_started_at i,
          rcr_completed_at = observed_at m,
          rcr_duration_ms = monotonic m - inc_started_tick i,
          rcr_closing_recovery_revision = sm_revision s + 1\<rparr>
     \<and> inc_started_tick i \<le> monotonic m
     \<and> monotonic m - inc_started_tick i \<le> MAX_DURATION_MS"

section \<open>Coverage\<close>

lemma uncovered_terminal_block [simp]: "uncovered (terminal_block c m s)"
  by (simp add: uncovered_def uncovered_incident_def terminal_block_def Let_def block_def split: option.split)

lemma uncovered_commit [simp]: "uncovered (commit t r s) = uncovered s"
  by (simp add: uncovered_def commit_def)

lemma uncovered_activity [simp]: "uncovered (s\<lparr>sm_activity_watermark := a\<rparr>) = uncovered s"
  by (simp add: uncovered_def)

lemma uncovered_Some: "sm_incident s = Some i \<Longrightarrow> uncovered s = uncovered_incident i"
  by (simp add: uncovered_def)

lemma uncovered_None: "sm_incident s = None \<Longrightarrow> \<not> uncovered s"
  by (simp add: uncovered_def)

lemma uncovered_incident_simps [simp]:
  "uncovered_incident (block f i)"
  "uncovered_incident (IncidentState_new n c m)"
  "uncovered_incident (retry_attempt i)"
  "uncovered_incident (clear_attempt_evidence i)"
  "uncovered_incident (i\<lparr>inc_rescan_required := True\<rparr>)"
  by (simp_all add: uncovered_incident_def block_def IncidentState_new_def retry_attempt_def
      clear_attempt_evidence_def)

lemma uncovered_incident_backing_off [simp]:
  "uncovered_incident ((clear_attempt_evidence i)\<lparr>inc_phase := p, inc_rescan_required := True,
     inc_failure := f\<rparr>)"
  by (simp add: uncovered_incident_def)

lemma uncovered_incident_started [simp]:
  "uncovered_incident (i\<lparr>inc_attempt_count := c, inc_phase := p, inc_rescan_required := b,
     inc_current_attempt := Some (AttemptState_new t x), inc_native_coverage := n,
     inc_retry_at := y, inc_failure := f\<rparr>)"
  by (simp add: uncovered_incident_def AttemptState_new_def)

lemma uncovered_incident_rearm:
  assumes "sm_ok s" and "sm_incident s = Some i"
  shows "uncovered_incident (rearm_after_worker_change i)"
  using assms
  by (auto simp: rearm_after_worker_change_def sm_ok_def incident_ok_def phase_invariant_def
      is_blocked_def uncovered_incident_def)

lemma sm_ok_ids: "sm_ok s \<Longrightarrow> ids_ok s"
  by (simp add: sm_ok_def)

lemma ids_ok_frame [simp]:
  "ids_ok (s\<lparr>sm_activity_watermark := a\<rparr>) = ids_ok s"
  "ids_ok (s\<lparr>sm_loss_watermark := l\<rparr>) = ids_ok s"
  "ids_ok (s\<lparr>sm_incident := x\<rparr>) = ids_ok s"
  "ids_ok s \<Longrightarrow> ids_ok (s\<lparr>sm_active_worker := None\<rparr>)"
  by (simp_all add: ids_ok_def)

lemma open_incident_eq:
  assumes "ids_ok s"
  shows "open_incident c m r s =
    (if sm_next_incident_id s = u64_MAX
     then (Inl (IdentifierExhausted Kind_Incident),
       commit (observed_at m) r (s\<lparr>sm_incident := Some (block
         (fatal_contract RecoveryIncidentIdExhausted (observed_at m))
         (IncidentState_new u64_MAX c m))\<rparr>))
     else (Inr (Opened (sm_next_incident_id s)),
       commit (observed_at m) r (s\<lparr>sm_next_incident_id := sm_next_incident_id s + 1,
         sm_incident := Some (IncidentState_new (sm_next_incident_id s) c m)\<rparr>)))"
  using assms
  by (auto simp: open_incident_def allocate_def Let_def prefixed_id_new_def ids_ok_def u64_MAX_def
      commit_def)

lemma uncovered_loss: "sm_ok s \<Longrightarrow> uncovered (snd (observe_loss c m s))"
  by (auto simp: observe_loss_def uncovered_Some next_revision_or_block_def open_incident_eq sm_ok_ids
      split: option.split sum.split)

lemma uncovered_suppressed: "sm_ok s \<Longrightarrow> uncovered (snd (observe_suppressed m s))"
  by (auto simp: observe_suppressed_def uncovered_Some next_revision_or_block_def open_incident_eq sm_ok_ids
      split: option.split)

lemma uncovered_worker_exited:
  assumes "sm_ok s" and "is_ok (fst (worker_exited w m s)) \<or> uncovered s"
  shows "uncovered (snd (worker_exited w m s))"
  using assms
  by (auto simp: worker_exited_def next_revision_or_block_def Let_def open_incident_eq sm_ok_ids
      uncovered_incident_rearm uncovered_Some split: option.split sum.splits)

lemma closing_rescan:
  assumes "uncovered_incident i" and "inc_phase i = Closing" and "sm_ok s" and "sm_incident s = Some i"
  shows "inc_rescan_required i"
  using assms
  by (auto simp: sm_ok_def incident_ok_def phase_invariant_def uncovered_incident_def
      split: option.splits)

lemma uncovered_replace_worker:
  assumes "sm_ok s" and "uncovered s"
  shows "uncovered (snd (replace_worker m s))"
  using assms
  by (auto simp: replace_worker_def next_revision_or_block_def Let_def allocate_def
      prefixed_id_new_def uncovered_incident_rearm uncovered_Some uncovered_None
      split: option.split)

lemma uncovered_start_attempt:
  assumes "uncovered s"
  shows "uncovered (snd (start_attempt m s))"
  using assms
  by (auto simp: start_attempt_def next_revision_or_block_def Let_def block_for_exhaustion_def uncovered_Some
      split: option.split sum.split IdAllocation.split prod.split)

lemma uncovered_step:
  assumes "sm_ok s" and "uncovered s" and "\<not> scan_begins op s"
  shows "uncovered (apply_op op s)"
proof (cases op)
  case (ReplaceWorker m)
  with assms show ?thesis by (simp add: uncovered_replace_worker)
next
  case (WorkerExited w m)
  with assms show ?thesis by (simp add: uncovered_worker_exited)
next
  case (StartAttempt m)
  with assms show ?thesis by (simp add: uncovered_start_attempt)
next
  case (RecordNativeBoundary t h m)
  with assms show ?thesis
    by (auto simp: record_native_boundary_def next_revision_or_block_def Let_def uncovered_Some
        uncovered_incident_def split: option.split sum.split)
next
  case (RecordScanStarted t m)
  with assms show ?thesis
    by (auto simp: record_scan_started_def begin_authoritative_scan_def next_revision_or_block_def
        active_incident_def matching_attempt_def uncovered_Some split: option.splits sum.splits if_splits)
next
  case (RecordScanCompleted t r m)
  with assms show ?thesis
    by (auto simp: record_scan_completed_def complete_authoritative_scan_def
        next_revision_or_block_def uncovered_Some uncovered_incident_def
        split: option.split sum.split)
next
  case (OfferClose offer m)
  with assms show ?thesis
    by (auto simp: offer_close_def next_revision_or_block_def Let_def uncovered_Some
        split: option.split sum.split dest: closing_rescan)
next
  case (RejectNativeClose t m)
  with assms show ?thesis
    by (auto simp: reject_native_close_def next_revision_or_block_def uncovered_Some
        split: option.split sum.split)
next
  case (RecordDependencyFailure t f m)
  with assms show ?thesis
    by (auto simp: record_dependency_failure_def next_revision_or_block_def Let_def uncovered_Some
        split: option.split sum.split)
next
  case (RetryIfDue m)
  with assms show ?thesis
    by (auto simp: retry_if_due_def next_revision_or_block_def uncovered_Some
        split: option.split sum.split)
next
  case (RestoreAuthority m)
  with assms show ?thesis
    by (auto simp: restore_authority_def next_revision_or_block_def uncovered_Some split: option.split)
next
  case (RestoreMatchingAuthority f m)
  with assms show ?thesis
    by (auto simp: restore_matching_authority_def restore_authority_def next_revision_or_block_def
        uncovered_Some split: option.split)
next
  case (ObserveActivity m)
  with assms show ?thesis
    by (auto simp: observe_activity_def next_revision_or_block_def split: option.split)
next
  case (ObserveSuppressed m)
  with assms show ?thesis by (simp add: uncovered_suppressed)
next
  case (ObserveLoss c m)
  with assms show ?thesis by (simp add: uncovered_loss)
qed


lemma uncovered_run:
  assumes "sm_ok s" and "uncovered s" and "scan_free ops s"
  shows "uncovered (run ops s)"
  using assms
  by (induction ops arbitrary: s) (auto simp: sm_ok_apply_op uncovered_step)

lemma uncovered_loses_coverage:
  assumes "sm_ok s" and "loses_coverage op s"
  shows "uncovered (apply_op op s)"
  using assms
  by (cases "(op, s)" rule: loses_coverage.cases)
    (auto simp: uncovered_loss uncovered_suppressed uncovered_worker_exited)

section \<open>Monotone state\<close>

lemma evolves_refl [simp]: "evolves s s"
  by (simp add: evolves_def)

lemma current_attempt_token_commit [simp]:
  "current_attempt_token (commit t r s) = current_attempt_token s"
  by (simp add: current_attempt_token_def commit_def)

lemma current_attempt_token_block [simp]:
  "current_attempt_token (s\<lparr>sm_incident := Some i\<rparr>) = map_option att_token (inc_current_attempt i)"
  "current_attempt_token (terminal_block c m s) = None"
  by (simp_all add: current_attempt_token_def terminal_block_def Let_def block_def
      clear_attempt_evidence_def split: option.split)

lemma evolves_commit:
  assumes "advances s t" and "RecoveryRevision_checked_next (sm_revision s) = Some r"
  shows "evolves s (commit x r t)"
  using assms by (auto simp: advances_def evolves_def revision_counter.next_some commit_def
      current_attempt_token_def)

lemma advances_terminal_block:
  assumes "advances s t" and "ids_ok t"
  shows "advances s (terminal_block c m t)"
proof -
  have "sm_next_incident_id t \<le> u64_MAX" using assms(2) by (simp add: ids_ok_def)
  then show ?thesis
    using assms(1)
    by (auto simp: advances_def) (auto simp: terminal_block_def Let_def split: option.split)
qed

lemma evolves_exhausted:
  assumes "advances s t" and "sm_ok s" and "ids_ok t"
  shows "evolves s (commit x RecoveryRevision_terminal (terminal_block c m t))"
proof -
  have "sm_revision s \<le> RecoveryRevision_terminal"
    using assms(2) by (simp add: sm_ok_def watermarks_ok_def RecoveryRevision_terminal_def)
  with advances_terminal_block[OF assms(1,3), of c m] show ?thesis
    by (auto simp: advances_def evolves_def commit_def current_attempt_token_def)
qed

lemma advances_simps [simp]:
  "advances s s"
  "advances s (s\<lparr>sm_activity_watermark := a\<rparr>) \<longleftrightarrow> sm_activity_watermark s \<le> a"
  "advances s (s\<lparr>sm_loss_watermark := l\<rparr>) \<longleftrightarrow> sm_loss_watermark s \<le> l"
  "advances s (s\<lparr>sm_activity_watermark := a, sm_loss_watermark := l\<rparr>) \<longleftrightarrow>
     sm_activity_watermark s \<le> a \<and> sm_loss_watermark s \<le> l"
  "advances s (s\<lparr>sm_incident := None, sm_last_completed := x\<rparr>)"
  "advances s (s\<lparr>sm_next_attempt_id := n\<rparr>) \<longleftrightarrow> sm_next_attempt_id s \<le> n"
  "advances s (s\<lparr>sm_active_worker := w\<rparr>)"
  "advances s (s\<lparr>sm_next_worker_id := n, sm_active_worker := w\<rparr>) \<longleftrightarrow> sm_next_worker_id s \<le> n"
  by (auto simp: advances_def current_attempt_token_def)

lemma advances_incident:
  assumes "advances s t"
    and "\<And>a. inc_current_attempt i = Some a \<Longrightarrow>
      current_attempt_token s = Some (att_token a) \<or> sm_next_attempt_id s \<le> tok_attempt_id (att_token a)"
  shows "advances s (t\<lparr>sm_incident := Some i\<rparr>)"
  using assms by (auto simp: advances_def)

lemma no_attempt_simps [simp]:
  "inc_current_attempt (block f i) = None"
  "inc_current_attempt (retry_attempt i) = None"
  "inc_current_attempt (clear_attempt_evidence i) = None"
  "inc_current_attempt (IncidentState_new n c m) = None"
  by (simp_all add: block_def retry_attempt_def clear_attempt_evidence_def IncidentState_new_def)

lemma current_token_Some:
  "sm_incident s = Some i \<Longrightarrow> current_attempt_token s = map_option att_token (inc_current_attempt i)"
  by (simp add: current_attempt_token_def)

lemma rearm_attempt:
  "inc_current_attempt (rearm_after_worker_change i) = Some a \<Longrightarrow> inc_current_attempt i = Some a"
  by (auto simp: rearm_after_worker_change_def split: if_splits)

lemma evolves_offer_close: "sm_ok s \<Longrightarrow> evolves s (snd (offer_close offer m s))"
  by (auto simp: offer_close_def next_revision_or_block_def Let_def sm_ok_ids evolves_exhausted
      split: option.split sum.split intro!: evolves_commit advances_incident)

lemma evolves_scan_started: "sm_ok s \<Longrightarrow> evolves s (snd (record_scan_started t m s))"
  by (auto simp: record_scan_started_def begin_authoritative_scan_def next_revision_or_block_def
      Let_def sm_ok_ids evolves_exhausted current_token_Some
      split: option.split sum.split intro!: evolves_commit advances_incident)

lemma evolves_scan_completed: "sm_ok s \<Longrightarrow> evolves s (snd (record_scan_completed t v m s))"
  by (auto simp: record_scan_completed_def complete_authoritative_scan_def next_revision_or_block_def
      Let_def sm_ok_ids evolves_exhausted current_token_Some
      split: option.split sum.split intro!: evolves_commit advances_incident)

lemma evolves_native_boundary: "sm_ok s \<Longrightarrow> evolves s (snd (record_native_boundary t h m s))"
  by (auto simp: record_native_boundary_def next_revision_or_block_def
      Let_def sm_ok_ids evolves_exhausted current_token_Some
      split: option.split sum.split intro!: evolves_commit advances_incident)
     (auto simp: advances_def current_attempt_token_def)

lemma evolves_reject_native_close: "sm_ok s \<Longrightarrow> evolves s (snd (reject_native_close t m s))"
  by (auto simp: reject_native_close_def next_revision_or_block_def
      Let_def sm_ok_ids evolves_exhausted
      split: option.split sum.split intro!: evolves_commit advances_incident)

lemma evolves_dependency_failure: "sm_ok s \<Longrightarrow> evolves s (snd (record_dependency_failure t f m s))"
  by (auto simp: record_dependency_failure_def next_revision_or_block_def
      Let_def sm_ok_ids evolves_exhausted
      split: option.split sum.split intro!: evolves_commit advances_incident)

lemma evolves_retry_if_due: "sm_ok s \<Longrightarrow> evolves s (snd (retry_if_due m s))"
  by (auto simp: retry_if_due_def next_revision_or_block_def
      Let_def sm_ok_ids evolves_exhausted
      split: option.split sum.split intro!: evolves_commit advances_incident)

lemma evolves_restore_authority: "sm_ok s \<Longrightarrow> evolves s (snd (restore_authority m s))"
  by (auto simp: restore_authority_def next_revision_or_block_def
      Let_def sm_ok_ids evolves_exhausted
      split: option.split sum.split intro!: evolves_commit advances_incident)

lemma evolves_restore_matching: "sm_ok s \<Longrightarrow> evolves s (snd (restore_matching_authority f m s))"
  by (auto simp: restore_matching_authority_def evolves_restore_authority split: option.split)

lemma watermark_steps:
  "sm_ok s \<Longrightarrow> sm_activity_watermark s \<le> ActivityWatermark_terminal"
  "sm_ok s \<Longrightarrow> sm_loss_watermark s \<le> LossWatermark_terminal"
  by (simp_all add: sm_ok_def watermarks_ok_def ActivityWatermark_terminal_def
      LossWatermark_terminal_def)

lemma evolves_observe_activity: "sm_ok s \<Longrightarrow> evolves s (snd (observe_activity m s))"
  by (auto simp: observe_activity_def next_revision_or_block_def sm_ok_ids watermark_steps
      activity_counter.next_some evolves_exhausted
      split: option.split intro!: evolves_commit advances_terminal_block)

lemma record_cause_attempt:
  "record_cause c i = Inr j \<Longrightarrow> inc_current_attempt j = inc_current_attempt i"
  by (auto simp: record_cause_def split: option.splits)

lemma advances_open:
  assumes "advances s t"
  shows "advances s (t\<lparr>sm_next_incident_id := sm_next_incident_id t + 1,
    sm_incident := Some (IncidentState_new n c m)\<rparr>)"
  using assms by (auto simp: advances_def)

lemma evolves_open_incident:
  assumes "advances s t" and "ids_ok t"
    and "RecoveryRevision_checked_next (sm_revision s) = Some r"
  shows "evolves s (snd (open_incident c m r t))"
  using assms
  by (auto simp: open_incident_eq
      intro!: evolves_commit advances_incident advances_open[simplified])

lemma evolves_observe_loss:
  assumes ok: "sm_ok s"
  shows "evolves s (snd (observe_loss c m s))"
  using ok
  by (auto simp: observe_loss_def next_revision_or_block_def sm_ok_ids watermark_steps
      activity_counter.next_some loss_counter.next_some evolves_exhausted current_token_Some
      record_cause_attempt split: option.split sum.split
      intro!: evolves_open_incident evolves_commit advances_terminal_block advances_incident)

lemma evolves_observe_suppressed:
  assumes ok: "sm_ok s"
  shows "evolves s (snd (observe_suppressed m s))"
proof -
  have open_case: "evolves s u"
    if "open_incident c m r t = (x, u)" "advances s t" "ids_ok t"
      "RecoveryRevision_checked_next (sm_revision s) = Some r" for c r t x u
    using evolves_open_incident[OF that(2-4), of c m] that(1) by simp
  from ok show ?thesis
    by (auto simp: observe_suppressed_def next_revision_or_block_def sm_ok_ids watermark_steps
        activity_counter.next_some loss_counter.next_some evolves_exhausted current_token_Some
        split: option.split sum.split prod.split
        intro!: evolves_commit advances_terminal_block advances_incident elim!: open_case)
qed

lemma evolves_worker_exited:
  assumes ok: "sm_ok s"
  shows "evolves s (snd (worker_exited w m s))"
proof -
  have open_case: "evolves s u"
    if "open_incident c m r t = (x, u)" "advances s t" "ids_ok t"
      "RecoveryRevision_checked_next (sm_revision s) = Some r" for c r t x u
    using evolves_open_incident[OF that(2-4), of c m] that(1) by simp
  from ok show ?thesis
    by (auto simp: worker_exited_def next_revision_or_block_def Let_def sm_ok_ids evolves_exhausted
        current_token_Some
        split: option.split sum.split prod.split
        intro!: evolves_commit advances_incident elim!: open_case dest!: rearm_attempt)
qed

lemma evolves_start_attempt:
  assumes ok: "sm_ok s"
  shows "evolves s (snd (start_attempt m s))"
proof -
  have "1 \<le> sm_next_attempt_id s" using ok by (simp add: sm_ok_def ids_ok_def)
  then show ?thesis using ok
    by (auto simp: start_attempt_def next_revision_or_block_def Let_def sm_ok_ids evolves_exhausted
        allocate_def block_for_exhaustion_def AttemptState_new_def
        split: option.split intro!: evolves_commit advances_incident)
qed

lemma evolves_replace_worker:
  assumes ok: "sm_ok s"
  shows "evolves s (snd (replace_worker m s))"
proof -
  have "1 \<le> sm_next_worker_id s" using ok by (simp add: sm_ok_def ids_ok_def)
  moreover have "ids_ok (s\<lparr>sm_next_worker_id := u64_MAX, sm_active_worker := None\<rparr>)"
    using ok by (simp add: sm_ok_def ids_ok_def u64_MAX_def)
  ultimately show ?thesis using ok
    by (auto simp: replace_worker_def next_revision_or_block_def Let_def sm_ok_ids evolves_exhausted
        allocate_def current_token_Some
        split: option.split intro!: evolves_commit advances_terminal_block advances_incident
        dest!: rearm_attempt)
qed

lemma evolves_apply_op: "sm_ok s \<Longrightarrow> evolves s (apply_op op s)"
  by (cases op) (simp_all add: evolves_replace_worker evolves_worker_exited evolves_start_attempt
      evolves_native_boundary evolves_scan_started evolves_scan_completed evolves_offer_close
      evolves_reject_native_close evolves_dependency_failure evolves_retry_if_due
      evolves_restore_authority evolves_restore_matching evolves_observe_activity
      evolves_observe_suppressed evolves_observe_loss)

lemma evolves_trans: "evolves s t \<Longrightarrow> evolves t u \<Longrightarrow> evolves s u"
  by (auto simp: evolves_def)

lemma evolves_run: "sm_ok s \<Longrightarrow> evolves s (run ops s)"
  by (induction ops arbitrary: s) (auto intro: evolves_trans evolves_apply_op sm_ok_apply_op)

section \<open>Closing\<close>

lemma elapsed_millis:
  "elapsed_since t t0 = Some d \<Longrightarrow> t0 \<le> t \<and> Duration_as_millis d = t - t0"
  by (auto simp: elapsed_since_def Duration_as_millis_def Duration_from_millis_def)

lemma offer_close_Closed:
  assumes "fst (offer_close offer m s) = Inr (Closed receipt)"
  obtains i a b where "close_granted offer m s receipt i a b"
    "snd (offer_close offer m s) = commit (observed_at m) (sm_revision s + 1)
       (s\<lparr>sm_incident := None, sm_last_completed := Some receipt\<rparr>)"
proof -
  obtain r where r: "RecoveryRevision_checked_next (sm_revision s) = Some r" "r = Suc (sm_revision s)"
    using assms by (cases rule: next_revision_cases[of s m]) (auto simp: offer_close_def)
  note closed = assms[unfolded offer_close_def next_revision_or_block_def r, simplified]
  obtain i where i: "active_incident s = Inr i"
    using closed by (cases "active_incident s") auto
  note closed = closed[unfolded i, simplified]
  obtain a where a: "matching_attempt i (co_attempt offer) = Inr a"
    using closed by (cases "matching_attempt i (co_attempt offer)") auto
  note closed = closed[unfolded a, simplified]
  obtain b where b: "inc_phase i = Closing" "att_native_boundary a = Some b"
      "acb_eq b (co_native_boundary offer)"
    using closed by (auto split: if_splits option.splits)
  note closed = closed[unfolded b, simplified]
  obtain v where v: "att_scan_revision a = Some v" "v = co_scan_revision offer"
      "\<not> inc_rescan_required i" "sm_loss_watermark s = acb_loss_watermark b"
    using closed b by (auto split: if_splits option.splits)
  obtain d where d: "elapsed_since (monotonic m) (inc_started_tick i) = Some d"
    using closed b v by (cases "elapsed_since (monotonic m) (inc_started_tick i)") auto
  have "close_granted offer m s receipt i a b"
    using closed r i a b v d elapsed_millis[OF d]
    by (auto simp: close_granted_def try_from_input_def Let_def u64_try_from_def
        split: if_splits)
  moreover have "snd (offer_close offer m s) = commit (observed_at m) (sm_revision s + 1)
       (s\<lparr>sm_incident := None, sm_last_completed := Some receipt\<rparr>)"
    using closed r i a b v d elapsed_millis[OF d]
    by (auto simp: offer_close_def next_revision_or_block_def Let_def active_incident_def
        matching_attempt_def split: sum.splits if_splits)
  ultimately show ?thesis by (rule that)
qed

lemma uncovered_not_closed:
  assumes "sm_ok s" and "uncovered s"
  shows "fst (offer_close offer m s) \<noteq> Inr (Closed receipt)"
proof
  assume "fst (offer_close offer m s) = Inr (Closed receipt)"
  then obtain i where "sm_incident s = Some i" "inc_phase i = Closing" "\<not> inc_rescan_required i"
    by (rule offer_close_Closed) (simp add: close_granted_def)
  with assms closing_rescan[of i s] show False by (simp add: uncovered_Some)
qed

lemma activity_run:
  assumes "sm_activity_watermark s + length ms < MAX_SCHEMA_INTEGER"
    and "sm_revision s + length ms < MAX_SCHEMA_INTEGER"
  shows "\<exists>at. run (map ObserveActivity ms) s =
    s\<lparr>sm_activity_watermark := sm_activity_watermark s + length ms,
      sm_revision := sm_revision s + length ms, sm_last_transition_at := at\<rparr>"
  using assms
proof (induction ms arbitrary: s)
  case Nil
  show ?case by (rule exI[of _ "sm_last_transition_at s"]) simp
next
  case (Cons m ms)
  have a: "ActivityWatermark_checked_next (sm_activity_watermark s) = Some (Suc (sm_activity_watermark s))"
    "RecoveryRevision_checked_next (sm_revision s) = Some (Suc (sm_revision s))"
    using Cons.prems by (simp_all add: activity_counter.next_some revision_counter.next_some)
  have "apply_op (ObserveActivity m) s =
     s\<lparr>sm_activity_watermark := Suc (sm_activity_watermark s), sm_revision := Suc (sm_revision s), sm_last_transition_at := observed_at m\<rparr>"
    using a by (simp add: observe_activity_def next_revision_or_block_def commit_def split: option.split)
  with Cons.IH[of "apply_op (ObserveActivity m) s"] Cons.prems show ?case by auto
qed


lemma close_granted_closes:
  assumes "close_granted offer m s receipt i a b" and "sm_revision s + 1 < MAX_SCHEMA_INTEGER"
    and "monotonic m \<le> u64_MAX"
  shows "offer_close offer m s = (Inr (Closed receipt), commit (observed_at m) (sm_revision s + 1)
       (s\<lparr>sm_incident := None, sm_last_completed := Some receipt\<rparr>))"
proof -
  have "RecoveryRevision_checked_next (sm_revision s) = Some (Suc (sm_revision s))"
    using assms(2) by (simp add: revision_counter.next_some)
  moreover have "elapsed_since (monotonic m) (inc_started_tick i) =
      Some (Duration_from_millis (monotonic m - inc_started_tick i))"
    using assms(1) by (simp add: elapsed_since_def checked_sub_u64_def close_granted_def)
  ultimately show ?thesis
    using assms
    by (simp add: close_granted_def offer_close_def next_revision_or_block_def active_incident_def
        matching_attempt_def is_blocked_def try_from_input_def u64_try_from_def Let_def
        Duration_as_millis_def Duration_from_millis_def)
qed

lemma token_ops_fenced:
  assumes "current_attempt_token s \<noteq> Some tok"
  shows "\<not> is_ok (fst (record_scan_started tok m s))"
    and "\<not> is_ok (fst (record_scan_completed tok v m s))"
    and "\<not> is_ok (fst (record_native_boundary tok h m s))"
    and "\<not> is_ok (fst (record_dependency_failure tok f m s))"
    and "\<not> is_ok (fst (reject_native_close tok m s))"
    and "co_attempt offer = tok \<Longrightarrow> \<not> is_ok (fst (offer_close offer m s))"
  using assms
  by (auto simp: record_scan_started_def begin_authoritative_scan_def record_scan_completed_def
      complete_authoritative_scan_def record_native_boundary_def record_dependency_failure_def
      reject_native_close_def offer_close_def next_revision_or_block_def current_token_Some
      split: option.split sum.split)

lemma token_ops_frame:
  assumes "current_attempt_token s \<noteq> Some tok"
    and "RecoveryRevision_checked_next (sm_revision s) = Some r"
  shows "snd (record_scan_started tok m s) = s"
    and "snd (record_scan_completed tok v m s) = s"
    and "snd (record_native_boundary tok h m s) = s"
    and "snd (record_dependency_failure tok f m s) = s"
    and "snd (reject_native_close tok m s) = s"
    and "co_attempt offer = tok \<Longrightarrow> snd (offer_close offer m s) = s"
  using assms
  by (auto simp: record_scan_started_def begin_authoritative_scan_def record_scan_completed_def
      complete_authoritative_scan_def record_native_boundary_def record_dependency_failure_def
      reject_native_close_def offer_close_def next_revision_or_block_def current_token_Some
      split: option.split sum.split)

end
