(* ===== verification/Recovery_Properties.thy ===== *)
theory Recovery_Properties
  imports Recovery_Closure
begin

text \<open>
  The properties of watcher recovery: when an incident may close, what stale
  workers and attempts can still do, what a client of the revision may rely on,
  that recovery gets to the close, and how failures block or are retried. Each
  is followed by a run of the machine on a concrete input.
\<close>

section \<open>Notions\<close>

text \<open>
  An attempt token is retired when it was issued and is not in flight; an operation
  is refused when it reports an error and leaves the machine as it was; an incident is
  fatal when it is blocked by a failure that restored authority does not lift.
\<close>

definition retired :: "AttemptToken \<Rightarrow> RecoveryStateMachine \<Rightarrow> bool" where
  "retired tok s \<longleftrightarrow>
     tok_attempt_id tok < sm_next_attempt_id s \<and> current_attempt_token s \<noteq> Some tok"

definition refused :: "'a outcome \<Rightarrow> RecoveryStateMachine \<Rightarrow> bool" where
  "refused r s \<longleftrightarrow>
     \<not> is_ok (fst r) \<and> (snd r = s \<or> RecoveryRevision_checked_next (sm_revision s) = None)"

definition fatal_incident :: "IncidentState \<Rightarrow> bool" where
  "fatal_incident i \<longleftrightarrow>
     is_blocked i
     \<and> (case inc_failure i of None \<Rightarrow> False | Some f \<Rightarrow> \<not> is_authority_restorable (df_class f))"

definition blocked_for_good :: "RecoveryStateMachine \<Rightarrow> bool" where
  "blocked_for_good s = (case sm_incident s of None \<Rightarrow> False | Some i \<Rightarrow> fatal_incident i)"

section \<open>Sample inputs\<close>

definition sample_source :: RecoverySourceIdentity where
  "sample_source = \<lparr>rsi_process_identity =
     \<lparr>rpi_boot_id = 7, rpi_session_id = 9, rpi_started_at = 0\<rparr>, rsi_workspace_id = ''ws_1''\<rparr>"

definition tick :: "nat \<Rightarrow> RecoveryMoment" where
  "tick n = \<lparr>observed_at = int n, monotonic = n\<rparr>"

definition sample_start :: RecoveryStateMachine where
  "sample_start = startup_reconciliation sample_source (tick 0) BackoffPolicy_standard"

definition sample_handoff :: WatcherCoverageHandoff where
  "sample_handoff = \<lparr>
     ho_boundary = Linux \<lparr>lcb_boundary_id = 4, lcb_stream_epoch = 2, lcb_watcher_ready = 3,
       lcb_callback_drain = 4\<rparr>,
     ho_close_token = \<lparr>ct_boundary_id = 4, ct_generation = 1\<rparr>\<rparr>"

definition sample_token :: AttemptToken where
  "sample_token = \<lparr>tok_incident_id = 1, tok_attempt_id = 1, tok_worker_id = 1\<rparr>"

text \<open>A startup incident taken to the point where it can close.\<close>

definition sample_ops :: "recovery_op list" where
  "sample_ops = [ReplaceWorker (tick 1), StartAttempt (tick 2),
     RecordScanStarted sample_token (tick 3), RecordScanCompleted sample_token 5 (tick 4),
     RecordNativeBoundary sample_token sample_handoff (tick 5)]"

definition sample_closing :: RecoveryStateMachine where
  "sample_closing = run sample_ops sample_start"

definition sample_rearming :: RecoveryStateMachine where
  "sample_rearming = run [ReplaceWorker (tick 1)] sample_start"

definition sample_offer :: CloseOffer where
  "sample_offer = from_attempt_evidence sample_token (acb_admitted 1 1 sample_handoff) 5"

definition sample_receipt :: RecoveryClosureReceipt where
  "sample_receipt = \<lparr>
     rcr_incident_id = 1, rcr_attempt_id = 1, rcr_attempt_count = 1, rcr_scan_count = 1,
     rcr_activity_watermark = 1, rcr_authoritative_scan_revision = 5,
     rcr_native_boundary = acb_admitted 1 1 sample_handoff,
     rcr_started_at = 0, rcr_completed_at = 8, rcr_duration_ms = 8,
     rcr_closing_recovery_revision = 7\<rparr>"

definition sample_integrity :: DependencyFailure where
  "sample_integrity = DependencyFailure_new Integrity IntegrityMismatch 9"

definition sample_busy :: DependencyFailure where
  "sample_busy = DependencyFailure_new Retryable DependencyBusy 9"

lemmas sample_defs = sample_source_def tick_def sample_start_def sample_handoff_def
  sample_token_def sample_ops_def sample_offer_def sample_receipt_def

lemmas machine_defs =
  replace_worker_def worker_exited_def require_worker_def start_attempt_def
  record_native_boundary_def record_scan_started_def begin_authoritative_scan_def
  record_scan_completed_def complete_authoritative_scan_def offer_close_def reject_native_close_def
  record_dependency_failure_def retry_if_due_def restore_authority_def
  restore_matching_authority_def observe_activity_def observe_suppressed_def observe_loss_def
  open_incident_def next_revision_or_block_def commit_def terminal_block_def block_def
  clear_attempt_evidence_def rearm_after_worker_change_def retry_attempt_def is_blocked_def
  active_incident_def matching_attempt_def allocate_def prefixed_id_new_def record_cause_def
  startup_reconciliation_def nominal_def IncidentState_new_def AttemptState_new_def with_primary_def
  handoff_boundary_id_def handoff_live_stream_epoch_def acb_admitted_def
  RecoveryRevision_checked_next_def ActivityWatermark_checked_next_def LossWatermark_checked_next_def
  RecoveryCount_checked_next_def checked_add_u64_def checked_add_u32_def filter_option_def u64_MAX_def u32_MAX_def
  MAX_SCHEMA_INTEGER_def MAX_RECOVERY_COUNT_def Let_def

lemmas close_defs =
  from_attempt_evidence_def acb_eq_def acb_proof_def elapsed_since_def checked_sub_u64_def
  try_from_input_def u64_try_from_def Duration_as_millis_def Duration_from_millis_def
  MAX_DURATION_MS_def

lemma sample_revision: "sm_revision sample_closing + 1 < MAX_SCHEMA_INTEGER"
  by (simp add: sample_closing_def sample_defs machine_defs)

lemma tick_monotonic [simp]: "monotonic (tick n) = n"
  by (simp add: tick_def)

lemma reach_sample_start: "reach recovery_init recovery_step sample_start"
  by (simp add: sample_start_def reach_init init_startup)

lemma reach_sample_closing: "reach recovery_init recovery_step sample_closing"
  by (simp add: sample_closing_def reach_run reach_sample_start)

section \<open>Invariants\<close>

text \<open>
  C28. The machine's own invariant (\<open>invariant_holds\<close>: the lifecycle matches the
  incident, the primary cause was counted, the attempt in flight belongs to the
  incident and to the active worker, and each phase carries exactly the evidence
  it should) holds in every state the operations can reach, whatever their
  arguments and on their error paths too.
\<close>

theorem reachable_invariant:
  "reach recovery_init recovery_step s \<Longrightarrow> invariant_holds s"
  by (rule sm_ok_invariant_holds) (rule recovery.reach_inv)

theorem reachable_invariant_witness:
  "invariant_holds sample_closing \<and> lifecycle sample_closing = Lifecycle_Recovering"
  using reachable_invariant[OF reach_sample_closing]
  by (simp add: lifecycle_def) (simp add: sample_closing_def sample_defs machine_defs)

text \<open>
  In every reachable state the published counters stay in their schema
  ranges: both watermarks and the revision at most 2^53 - 1, the counts of
  attempts, scans and causes at most a million.
\<close>

theorem reachable_bounds:
  assumes "reach recovery_init recovery_step s"
  shows "sm_activity_watermark s \<le> MAX_SCHEMA_INTEGER
    \<and> sm_loss_watermark s \<le> MAX_SCHEMA_INTEGER
    \<and> sm_revision s \<le> MAX_SCHEMA_INTEGER
    \<and> (\<forall>i. sm_incident s = Some i \<longrightarrow>
          inc_attempt_count i \<le> MAX_RECOVERY_COUNT \<and> inc_scan_count i \<le> MAX_RECOVERY_COUNT
          \<and> (\<forall>c. cause_get (inc_cause_counts i) c \<le> MAX_RECOVERY_COUNT))"
proof -
  have ok: "sm_ok s" using assms by (rule recovery.reach_inv)
  have "cause_get counts c \<le> b"
    if "length counts = 8" "\<forall>x \<in> set counts. x \<le> b" for counts b c
    using that by (simp add: cause_get_def)
  with ok show ?thesis
    by (auto simp: sm_ok_def watermarks_ok_def incident_ok_def counts_ok_def)
qed

theorem reachable_bounds_witness:
  "sm_revision sample_closing \<le> 9007199254740991
   \<and> sm_activity_watermark sample_closing \<le> 9007199254740991"
  using reachable_bounds[OF reach_sample_closing] by (simp add: MAX_SCHEMA_INTEGER_def)

section \<open>Closing an incident\<close>

text \<open>
  C27. Lost coverage is never closed over. Once a loss or a suppressed admission
  is observed, or the worker exits, the incident cannot close, by any sequence of
  operations with any arguments, until a scan begins after the loss: the incident
  stays open and no close offer is granted.
\<close>

theorem loss_needs_new_scan:
  assumes "reach recovery_init recovery_step s"
    and "loses_coverage op s"
    and "scan_free ops (apply_op op s)"
  shows "sm_incident (run ops (apply_op op s)) \<noteq> None
    \<and> fst (offer_close offer m (run ops (apply_op op s))) \<noteq> Inr (Closed receipt)"
proof -
  have ok: "sm_ok s" using assms(1) by (rule recovery.reach_inv)
  let ?t = "run ops (apply_op op s)"
  have "uncovered ?t"
    using uncovered_run[OF sm_ok_apply_op[OF ok] uncovered_loses_coverage[OF ok assms(2)] assms(3)] .
  moreover have "sm_ok ?t"
    using recovery.reach_inv[OF reach_run[OF assms(1), of "op # ops"]] by simp
  ultimately show ?thesis
    using uncovered_not_closed uncovered_None by blast
qed

theorem loss_needs_new_scan_witness:
  "loses_coverage (ObserveLoss NativeRescanRequired (tick 6)) sample_closing
   \<and> fst (offer_close sample_offer (tick 8)
       (run [ObserveActivity (tick 7)]
         (apply_op (ObserveLoss NativeRescanRequired (tick 6)) sample_closing)))
     \<noteq> Inr (Closed sample_receipt)"
  using loss_needs_new_scan[OF reach_sample_closing,
      of "ObserveLoss NativeRescanRequired (tick 6)" "[ObserveActivity (tick 7)]"]
  by simp

text \<open>
  A close is granted exactly when the attempt in flight has every piece of
  evidence: the phase is \<open>Closing\<close>, the offer names the current attempt, its native
  boundary and its completed scan, no rescan is required, no loss was admitted since
  the boundary was recorded, time has not gone backwards, and the incident is no
  older than the receipt can say. The receipt then records that evidence, and the
  machine is nominal at the next revision.
\<close>

theorem offer_close_exact:
  assumes "sm_revision s + 1 < MAX_SCHEMA_INTEGER" and "monotonic m \<le> u64_MAX"
  shows "offer_close offer m s = (Inr (Closed receipt), t) \<longleftrightarrow>
      (\<exists>i a b. close_granted offer m s receipt i a b)
      \<and> t = commit (observed_at m) (sm_revision s + 1)
            (s\<lparr>sm_incident := None, sm_last_completed := Some receipt\<rparr>)"
proof
  assume closed: "offer_close offer m s = (Inr (Closed receipt), t)"
  then have "fst (offer_close offer m s) = Inr (Closed receipt)" by simp
  then show "(\<exists>i a b. close_granted offer m s receipt i a b)
      \<and> t = commit (observed_at m) (sm_revision s + 1)
            (s\<lparr>sm_incident := None, sm_last_completed := Some receipt\<rparr>)"
    by (rule offer_close_Closed) (use closed in auto)
qed (auto dest: close_granted_closes[OF _ assms])

theorem offer_close_exact_witness:
  "\<exists>i a b. close_granted sample_offer (tick 8) sample_closing sample_receipt i a b"
proof -
  have "offer_close sample_offer (tick 8) sample_closing =
      (Inr (Closed sample_receipt), snd (offer_close sample_offer (tick 8) sample_closing))"
    by (simp add: sample_closing_def sample_defs machine_defs close_defs)
  moreover have "monotonic (tick 8) \<le> u64_MAX" by (simp add: tick_def u64_MAX_def)
  ultimately show ?thesis
    using offer_close_exact[OF sample_revision] by blast
qed

lemma start_attempt_ok:
  assumes "sm_incident s = Some i" and "inc_phase i = Rearming" and "inc_current_attempt i = None"
    and "sm_active_worker s = Some w" and "sm_revision s + 1 < MAX_SCHEMA_INTEGER"
    and "0 < sm_next_attempt_id s" and "sm_next_attempt_id s < u64_MAX"
    and "inc_attempt_count i < MAX_RECOVERY_COUNT"
  defines "tok \<equiv> \<lparr>tok_incident_id = inc_id i, tok_attempt_id = sm_next_attempt_id s,
    tok_worker_id = w\<rparr>"
  shows "start_attempt m s = (Inr tok, commit (observed_at m) (sm_revision s + 1)
    (s\<lparr>sm_next_attempt_id := sm_next_attempt_id s + 1, sm_incident := Some (i\<lparr>
       inc_attempt_count := inc_attempt_count i + 1,
       inc_phase := AwaitingCoverage, inc_rescan_required := False,
       inc_current_attempt := Some (AttemptState_new tok (observed_at m)),
       inc_native_coverage := None, inc_retry_at := None, inc_failure := None\<rparr>)\<rparr>))"
proof -
  have "RecoveryRevision_checked_next (sm_revision s) = Some (sm_revision s + 1)"
    "RecoveryCount_checked_next (inc_attempt_count i) = Some (inc_attempt_count i + 1)"
    using assms by (simp_all add: revision_counter.next_some count_counter.next_some)
  with assms show ?thesis
    by (simp add: start_attempt_def next_revision_or_block_def is_blocked_def allocate_def
        prefixed_id_new_def Let_def)
qed

lemma revision_headroom:
  "sm_revision s + 1 < MAX_SCHEMA_INTEGER \<Longrightarrow>
   RecoveryRevision_checked_next (sm_revision s) = Some (sm_revision s + 1)"
  by (simp add: revision_counter.next_some)

lemma count_headroom:
  "c < MAX_RECOVERY_COUNT \<Longrightarrow> RecoveryCount_checked_next c = Some (c + 1)"
  by (simp add: count_counter.next_some)

lemma record_scan_started_ok:
  assumes "sm_incident s = Some i" and "inc_phase i = AwaitingCoverage"
    and "inc_current_attempt i = Some a" and "att_token a = tok"
    and "\<not> att_scan_started a" and "att_scan_revision a = None"
    and "sm_revision s + 1 < MAX_SCHEMA_INTEGER" and "inc_scan_count i < MAX_RECOVERY_COUNT"
  shows "record_scan_started tok m s = (Inr (), commit (observed_at m) (sm_revision s + 1)
    (s\<lparr>sm_incident := Some (i\<lparr>inc_scan_count := inc_scan_count i + 1,
      inc_current_attempt := Some (a\<lparr>att_scan_started := True\<rparr>),
      inc_rescan_required := False, inc_phase := Scanning\<rparr>)\<rparr>))"
  using assms revision_headroom[of s] count_headroom[of "inc_scan_count i"]
  by (simp add: record_scan_started_def begin_authoritative_scan_def next_revision_or_block_def
      active_incident_def matching_attempt_def is_blocked_def)

lemma record_scan_completed_ok:
  assumes "sm_incident s = Some i" and "inc_phase i = Scanning"
    and "inc_current_attempt i = Some a" and "att_token a = tok"
    and "att_scan_started a" and "att_scan_revision a = None"
    and "sm_revision s + 1 < MAX_SCHEMA_INTEGER"
  shows "record_scan_completed tok v m s = (Inr (), commit (observed_at m) (sm_revision s + 1)
    (s\<lparr>sm_incident := Some (i\<lparr>
      inc_current_attempt := Some (a\<lparr>att_scan_revision := Some v\<rparr>),
      inc_phase := AwaitingSeal\<rparr>)\<rparr>))"
  using assms revision_headroom[of s]
  by (simp add: record_scan_completed_def complete_authoritative_scan_def next_revision_or_block_def
      active_incident_def matching_attempt_def is_blocked_def)

lemma record_native_boundary_ok:
  assumes "sm_incident s = Some i" and "inc_phase i = AwaitingSeal"
    and "inc_current_attempt i = Some a" and "att_token a = tok"
    and "sm_revision s + 1 < MAX_SCHEMA_INTEGER"
    and "\<forall>b. sm_last_native_boundary_id s = Some b \<longrightarrow> b < handoff_boundary_id h"
    and "\<forall>e. sm_last_native_epoch s = Some e \<longrightarrow> e \<le> handoff_live_stream_epoch h"
  defines "b \<equiv> acb_admitted (sm_activity_watermark s) (sm_loss_watermark s) h"
  shows "record_native_boundary tok h m s = (Inr (), commit (observed_at m) (sm_revision s + 1)
    (s\<lparr>sm_last_native_boundary_id := Some (handoff_boundary_id h),
      sm_last_native_epoch := Some (handoff_live_stream_epoch h),
      sm_incident := Some (i\<lparr>
      inc_current_attempt := Some (a\<lparr>att_native_boundary := Some b\<rparr>),
      inc_native_coverage := Some b, inc_phase := Closing\<rparr>)\<rparr>))"
  using assms(1-7) revision_headroom[of s]
  by (auto simp: record_native_boundary_def next_revision_or_block_def b_def Let_def
      active_incident_def matching_attempt_def is_blocked_def split: option.split)

text \<open>The state in which only the close is left.\<close>

lemma attempt_reaches_closing:
  assumes "sm_incident s = Some i" and "inc_phase i = Rearming" and "inc_current_attempt i = None"
    and "sm_active_worker s = Some w"
    and "sm_revision s + 4 < MAX_SCHEMA_INTEGER" and "0 < sm_next_attempt_id s"
    and "sm_next_attempt_id s < u64_MAX"
    and "inc_attempt_count i < MAX_RECOVERY_COUNT" and "inc_scan_count i < MAX_RECOVERY_COUNT"
    and "\<forall>b. sm_last_native_boundary_id s = Some b \<longrightarrow> b < handoff_boundary_id h"
    and "\<forall>e. sm_last_native_epoch s = Some e \<longrightarrow> e \<le> handoff_live_stream_epoch h"
  obtains tok s1 s2 s3 s4 i' a where
    "start_attempt m1 s = (Inr tok, s1)"
    "record_scan_started tok m2 s1 = (Inr (), s2)"
    "record_scan_completed tok v m3 s2 = (Inr (), s3)"
    "record_native_boundary tok h m4 s3 = (Inr (), s4)"
    "sm_incident s4 = Some i'" "inc_phase i' = Closing" "\<not> inc_rescan_required i'"
    "inc_started_tick i' = inc_started_tick i" "inc_current_attempt i' = Some a"
    "att_token a = tok" "att_scan_revision a = Some v"
    "att_native_boundary a = Some (acb_admitted (sm_activity_watermark s) (sm_loss_watermark s) h)"
    "sm_revision s4 = sm_revision s + 4" "sm_loss_watermark s4 = sm_loss_watermark s"
    "sm_activity_watermark s4 = sm_activity_watermark s"
proof -
  define tok where "tok = \<lparr>tok_incident_id = inc_id i, tok_attempt_id = sm_next_attempt_id s,
    tok_worker_id = w\<rparr>"
  define b where "b = acb_admitted (sm_activity_watermark s) (sm_loss_watermark s) h"
  define s1 where "s1 = snd (start_attempt m1 s)"
  define s2 where "s2 = snd (record_scan_started tok m2 s1)"
  define s3 where "s3 = snd (record_scan_completed tok v m3 s2)"
  define s4 where "s4 = snd (record_native_boundary tok h m4 s3)"
  have e1: "start_attempt m1 s = (Inr tok, s1)"
    and s1: "s1 = commit (observed_at m1) (sm_revision s + 1)
      (s\<lparr>sm_next_attempt_id := sm_next_attempt_id s + 1, sm_incident := Some (i\<lparr>
         inc_attempt_count := inc_attempt_count i + 1,
         inc_phase := AwaitingCoverage, inc_rescan_required := False,
         inc_current_attempt := Some (AttemptState_new tok (observed_at m1)),
         inc_native_coverage := None, inc_retry_at := None, inc_failure := None\<rparr>)\<rparr>)"
    unfolding s1_def
    using start_attempt_ok[OF assms(1-4) _ assms(6-8), of m1] assms(5)
    by (simp_all add: tok_def)
  have e2: "record_scan_started tok m2 s1 = (Inr (), s2)"
    and s2: "s2 = commit (observed_at m2) (sm_revision s + 2)
      (s1\<lparr>sm_incident := Some ((the (sm_incident s1))\<lparr>inc_scan_count := inc_scan_count i + 1,
         inc_current_attempt := Some ((AttemptState_new tok (observed_at m1))\<lparr>att_scan_started := True\<rparr>),
         inc_rescan_required := False, inc_phase := Scanning\<rparr>)\<rparr>)"
    using record_scan_started_ok[of s1 "the (sm_incident s1)" _ tok m2] assms(5,9)
    by (simp_all add: s2_def s1 commit_def AttemptState_new_def)
  have e3: "record_scan_completed tok v m3 s2 = (Inr (), s3)"
    and s3: "s3 = commit (observed_at m3) (sm_revision s + 3)
      (s2\<lparr>sm_incident := Some ((the (sm_incident s2))\<lparr>
         inc_current_attempt := Some ((AttemptState_new tok (observed_at m1))
           \<lparr>att_scan_started := True, att_scan_revision := Some v\<rparr>),
         inc_phase := AwaitingSeal\<rparr>)\<rparr>)"
    using record_scan_completed_ok[of s2 "the (sm_incident s2)" _ tok v m3] assms(5)
    by (simp_all add: s3_def s2 s1 commit_def AttemptState_new_def)
  have e4: "record_native_boundary tok h m4 s3 = (Inr (), s4)"
    and s4: "s4 = commit (observed_at m4) (sm_revision s + 4)
      (s3\<lparr>sm_last_native_boundary_id := Some (handoff_boundary_id h),
         sm_last_native_epoch := Some (handoff_live_stream_epoch h),
         sm_incident := Some ((the (sm_incident s3))\<lparr>
         inc_current_attempt := Some ((AttemptState_new tok (observed_at m1))
           \<lparr>att_scan_started := True, att_scan_revision := Some v, att_native_boundary := Some b\<rparr>),
         inc_native_coverage := Some b, inc_phase := Closing\<rparr>)\<rparr>)"
    using record_native_boundary_ok[of s3 "the (sm_incident s3)" _ tok h m4] assms(5,10,11)
    by (simp_all add: s4_def s3 s2 s1 commit_def AttemptState_new_def b_def)
  show ?thesis
    by (rule that[OF e1 e2 e3 e4, of "the (sm_incident s4)"
          "the (inc_current_attempt (the (sm_incident s4)))"])
      (simp_all add: s4 s3 s2 s1 commit_def AttemptState_new_def b_def)
qed


lemma new_incident_facts:
  "inc_phase (IncidentState_new n c m) = Rearming"
  "inc_attempt_count (IncidentState_new n c m) < MAX_RECOVERY_COUNT"
  "inc_scan_count (IncidentState_new n c m) < MAX_RECOVERY_COUNT"
  "inc_started_tick (IncidentState_new n c m) = monotonic m"
  by (simp_all add: IncidentState_new_def MAX_RECOVERY_COUNT_def)

lemma sample_rearming_facts:
  "sm_incident sample_rearming = Some (IncidentState_new 1 StartupReconciliation (tick 0))"
  "sm_active_worker sample_rearming = Some 1" "sm_revision sample_rearming = 2"
  "sm_activity_watermark sample_rearming = 1" "sm_loss_watermark sample_rearming = 1"
  "sm_next_attempt_id sample_rearming = 1"
  "sm_last_native_boundary_id sample_rearming = None" "sm_last_native_epoch sample_rearming = None"
  by (simp_all add: sample_rearming_def sample_defs machine_defs numeral_2_eq_2)


section \<open>Fencing\<close>

text \<open>
  A retired attempt stays retired. A token that was issued and is not in flight
  is never in flight again, and every operation that presents it, whatever happened
  in between, is refused and changes nothing, unless the revision is exhausted.
\<close>

theorem retired_token_is_fenced:
  assumes "reach recovery_init recovery_step s" and "retired tok s"
  shows "retired tok (run ops s)
    \<and> refused (record_scan_started tok m (run ops s)) (run ops s)
    \<and> refused (record_scan_completed tok v m (run ops s)) (run ops s)
    \<and> refused (record_native_boundary tok h m (run ops s)) (run ops s)
    \<and> refused (record_dependency_failure tok f m (run ops s)) (run ops s)
    \<and> refused (reject_native_close tok m (run ops s)) (run ops s)
    \<and> refused (offer_close (from_attempt_evidence tok b v) m (run ops s)) (run ops s)"
proof -
  have "evolves s (run ops s)" using assms(1) by (intro evolves_run recovery.reach_inv)
  with assms(2) have r: "retired tok (run ops s)"
    by (auto simp: evolves_def retired_def)
  then have t: "current_attempt_token (run ops s) \<noteq> Some tok" by (simp add: retired_def)
  have "co_attempt (from_attempt_evidence tok b v) = tok" by (simp add: from_attempt_evidence_def)
  with r token_ops_fenced[OF t] token_ops_frame[OF t] show ?thesis
    by (cases "RecoveryRevision_checked_next (sm_revision (run ops s))") (auto simp: refused_def)
qed

theorem retired_token_is_fenced_witness:
  "retired sample_token (run [ReplaceWorker (tick 9)] sample_closing)
   \<and> refused (record_dependency_failure sample_token
        (DependencyFailure_new Retryable DependencyBusy 0) (tick 11)
        (run [StartAttempt (tick 10)] (run [ReplaceWorker (tick 9)] sample_closing)))
      (run [StartAttempt (tick 10)] (run [ReplaceWorker (tick 9)] sample_closing))"
proof -
  have "retired sample_token (run [ReplaceWorker (tick 9)] sample_closing)"
    by (simp add: retired_def current_attempt_token_def sample_closing_def sample_defs machine_defs)
  with retired_token_is_fenced[OF reach_run[OF reach_sample_closing, of "[ReplaceWorker (tick 9)]"] this]
  show ?thesis by blast
qed

text \<open>
  When the worker is replaced or exits, its attempt is over: no attempt is in
  flight afterwards, an open incident that was not blocked is rearming with a rescan
  required, and the new owner is a worker that never owned recovery before.
\<close>

theorem worker_change_retires_attempt:
  assumes "reach recovery_init recovery_step s"
  shows "(replace_worker m s = (Inr w, t) \<longrightarrow>
      current_attempt_token t = None \<and> sm_active_worker t = Some (own_worker_id w)
      \<and> own_worker_id w = sm_next_worker_id s \<and> sm_active_worker s \<noteq> Some (own_worker_id w)
      \<and> (lifecycle t = Lifecycle_Recovering \<longrightarrow>
            map_option inc_phase (sm_incident t) = Some Rearming \<and> uncovered t))
    \<and> (worker_exited w' m s = (Inr n, t) \<longrightarrow>
      current_attempt_token t = None \<and> sm_active_worker t = None
      \<and> lifecycle t \<noteq> Lifecycle_Nominal
      \<and> (lifecycle t = Lifecycle_Recovering \<longrightarrow>
            map_option inc_phase (sm_incident t) = Some Rearming \<and> uncovered t))"
proof -
  have ok: "sm_ok s" using assms by (rule recovery.reach_inv)
  have rearm: "inc_current_attempt (rearm_after_worker_change i) = None"
    "is_blocked (rearm_after_worker_change i) \<or>
       inc_phase (rearm_after_worker_change i) = Rearming
       \<and> inc_rescan_required (rearm_after_worker_change i)"
    if "sm_incident s = Some i" for i
    using ok that
    by (auto simp: sm_ok_def incident_ok_def phase_invariant_def rearm_after_worker_change_def
        is_blocked_def no_attempt_evidence_def)
  have ids: "0 < sm_next_worker_id s" "\<And>v. sm_active_worker s = Some v \<Longrightarrow> v < sm_next_worker_id s"
    "ids_ok (s\<lparr>sm_active_worker := None\<rparr>)"
    using ok by (auto simp: sm_ok_def ids_ok_def)
  show ?thesis
    using rearm ids(1,3)
    by (auto simp: replace_worker_def worker_exited_def next_revision_or_block_def allocate_def
        prefixed_id_new_def Let_def current_attempt_token_def lifecycle_def uncovered_def
        uncovered_incident_def commit_def open_incident_eq new_incident_facts dest!: ids(2)
        split: option.splits sum.splits if_splits)
qed

theorem worker_change_retires_attempt_witness:
  "\<exists>w t. replace_worker (tick 9) sample_closing = (Inr w, t) \<and> current_attempt_token t = None
     \<and> own_worker_id w = 2"
proof -
  obtain w t where "replace_worker (tick 9) sample_closing = (Inr w, t)"
    by (simp add: sample_closing_def sample_defs machine_defs)
  with worker_change_retires_attempt[OF reach_sample_closing, of "tick 9" w t]
  have "current_attempt_token t = None" "own_worker_id w = sm_next_worker_id sample_closing"
    by simp_all
  moreover have "sm_next_worker_id sample_closing = 2"
    by (simp add: sample_closing_def sample_defs machine_defs)
  ultimately show ?thesis
    using \<open>replace_worker (tick 9) sample_closing = (Inr w, t)\<close> by auto
qed

section \<open>Revisions\<close>

text \<open>
  The revision is a faithful change signal. Along any run from a reachable state
  the revision and both watermarks never decrease, and two states of the run with the
  same revision are the same state, as long as the revision is not exhausted.
\<close>

theorem revision_identifies_state:
  assumes "reach recovery_init recovery_step s"
  shows "sm_revision s \<le> sm_revision (run ops s)
    \<and> sm_activity_watermark s \<le> sm_activity_watermark (run ops s)
    \<and> sm_loss_watermark s \<le> sm_loss_watermark (run ops s)
    \<and> (sm_revision (run ops s) = sm_revision s \<longrightarrow>
         run ops s = s \<or> sm_revision s = RecoveryRevision_terminal)"
proof -
  have "evolves s (run ops s)" using assms by (intro evolves_run recovery.reach_inv)
  then show ?thesis by (auto simp: evolves_def)
qed

theorem revision_identifies_state_witness:
  "sm_revision sample_start \<le> sm_revision (run sample_ops sample_start)
   \<and> run [RetryIfDue (tick 3)] sample_start = sample_start"
proof -
  have "sm_revision (run [RetryIfDue (tick 3)] sample_start) = sm_revision sample_start"
    "sm_revision sample_start \<noteq> RecoveryRevision_terminal"
    by (simp_all add: sample_defs machine_defs RecoveryRevision_terminal_def)
  with revision_identifies_state[OF reach_sample_start] show ?thesis by blast
qed

section \<open>Failures\<close>

lemma fatal_not_restorable [simp]: "\<not> is_authority_restorable (df_class (fatal_contract c t))"
  by (simp add: fatal_contract_def DependencyFailure_new_def is_authority_restorable_def)

lemma fatal_incident_block [simp]:
  "fatal_incident (block f i) \<longleftrightarrow> \<not> is_authority_restorable (df_class f)"
  by (simp add: fatal_incident_def block_def clear_attempt_evidence_def is_blocked_def)

lemma blocked_for_good_frame [simp]:
  "blocked_for_good (commit t r s) = blocked_for_good s"
  "blocked_for_good (terminal_block c m s)"
  "blocked_for_good (s\<lparr>sm_activity_watermark := a\<rparr>) = blocked_for_good s"
  by (simp_all add: blocked_for_good_def commit_def terminal_block_def Let_def split: option.split)

lemma blocked_for_good_Some: "sm_incident s = Some i \<Longrightarrow> blocked_for_good s = fatal_incident i"
  and blocked_for_good_None: "sm_incident s = None \<Longrightarrow> \<not> blocked_for_good s"
  by (simp_all add: blocked_for_good_def)

lemma fatal_incident_changes:
  assumes "fatal_incident i"
  shows "is_blocked i" and "rearm_after_worker_change i = i"
    and "fatal_incident (i\<lparr>inc_rescan_required := True\<rparr>)"
    and "fatal_incident (i\<lparr>inc_cause_counts := n, inc_rescan_required := True\<rparr>)"
  using assms by (simp_all add: fatal_incident_def rearm_after_worker_change_def is_blocked_def)

lemma blocked_for_good_step:
  assumes "blocked_for_good s"
  shows "blocked_for_good (apply_op op s)"
proof -
  obtain i where i: "sm_incident s = Some i" "fatal_incident i"
    using assms by (auto simp: blocked_for_good_def split: option.splits)
  note i' = i(1) fatal_incident_changes[OF i(2)]
  obtain f0 where f0: "inc_failure i = Some f0" "\<not> is_authority_restorable (df_class f0)"
    using i(2) by (auto simp: fatal_incident_def split: option.splits)
  have active: "active_incident s = Inl LifecycleBlocked"
    by (simp add: active_incident_def i')
  show ?thesis
  proof (cases op)
    case (ReplaceWorker m)
    with i i' show ?thesis
      by (auto simp: replace_worker_def next_revision_or_block_def Let_def blocked_for_good_Some
          split: IdAllocation.split prod.split option.split sum.split)
  next
    case (RestoreAuthority m)
    with i f0 show ?thesis
      by (auto simp: restore_authority_def next_revision_or_block_def blocked_for_good_Some
          split: option.split)
  next
    case (RestoreMatchingAuthority f m)
    with i f0 show ?thesis
      by (auto simp: restore_matching_authority_def restore_authority_def next_revision_or_block_def
          blocked_for_good_Some split: option.split)
  next
    case (ObserveLoss c m)
    with i i' show ?thesis
      by (auto simp: observe_loss_def next_revision_or_block_def blocked_for_good_Some
          record_cause_def split: option.split)
  qed (use i i' active in \<open>auto simp: worker_exited_def start_attempt_def record_native_boundary_def
      record_scan_started_def begin_authoritative_scan_def record_scan_completed_def
      complete_authoritative_scan_def offer_close_def reject_native_close_def
      record_dependency_failure_def retry_if_due_def observe_activity_def observe_suppressed_def
      next_revision_or_block_def Let_def blocked_for_good_Some split: option.split sum.split\<close>)
qed

text \<open>
  A fatal failure is final. Once recovery is blocked by a failure that restored
  authority cannot lift (an integrity or contract failure, an exhausted counter), no
  sequence of operations leaves the blocked lifecycle.
\<close>

theorem fatal_failure_is_final:
  assumes "blocked_for_good s"
  shows "lifecycle (run ops s) = Lifecycle_Blocked"
proof -
  have "blocked_for_good (run ops s)"
    using assms by (induction ops arbitrary: s) (simp_all add: blocked_for_good_step)
  then show ?thesis
    by (auto simp: blocked_for_good_def lifecycle_def fatal_incident_def split: option.splits)
qed

theorem fatal_failure_is_final_witness:
  "lifecycle (run [RestoreAuthority (tick 10), ReplaceWorker (tick 11), RetryIfDue (tick 12)]
     (run [RecordDependencyFailure sample_token sample_integrity (tick 9)] sample_closing))
   = Lifecycle_Blocked"
proof (rule fatal_failure_is_final)
  show "blocked_for_good (run [RecordDependencyFailure sample_token sample_integrity (tick 9)]
      sample_closing)"
    by (simp add: blocked_for_good_def fatal_incident_def sample_integrity_def
        DependencyFailure_new_def is_retryable_def is_authority_restorable_def sample_closing_def
        sample_defs machine_defs)
qed

lemma retry_scheduled:
  assumes "record_dependency_failure tok f m s = (Inr (RetryScheduled n deadline delay), t)"
  obtains i c r where "sm_incident s = Some i" "current_attempt_token s = Some tok"
    "is_retryable (df_class f)" "n = inc_id i" "delay = delay_for (sm_backoff_policy s) c"
    "deadline = monotonic m + Duration_as_millis delay"
    "t = commit (observed_at m) r (s\<lparr>sm_incident := Some ((clear_attempt_evidence (i\<lparr>
       inc_retry_failures := c, inc_retry_at := Some deadline\<rparr>))\<lparr>inc_phase := BackingOff,
       inc_rescan_required := True, inc_failure := Some f\<rparr>)\<rparr>)"
proof -
  obtain r where r: "RecoveryRevision_checked_next (sm_revision s) = Some r"
    using assms by (cases rule: next_revision_cases[of s m]) (auto simp: record_dependency_failure_def)
  note e = assms[unfolded record_dependency_failure_def next_revision_or_block_def r, simplified]
  obtain i where i: "active_incident s = Inr i"
    using e by (cases "active_incident s") auto
  note e = e[unfolded i, simplified]
  obtain a where a: "matching_attempt i tok = Inr a" using e by (cases "matching_attempt i tok") auto
  note e = e[unfolded a, simplified]
  have f: "is_retryable (df_class f)" using e by (auto split: if_splits)
  define c where "c = inc_retry_failures i + 1"
  have c: "c \<le> u32_MAX" using e f by (auto simp: c_def checked_add_u32_def split: if_splits)
  obtain d where d: "RecoveryInstant_checked_add (monotonic m) (delay_for (sm_backoff_policy s) c) = Some d"
    using e f c by (auto simp: c_def checked_add_u32_def Let_def split: option.splits)
  have "d = monotonic m + Duration_as_millis (delay_for (sm_backoff_policy s) c)"
    using d by (auto simp: RecoveryInstant_checked_add_def u64_try_from_def split: if_splits)
  with that[of i c r] e f c d i a show ?thesis
    by (auto simp: c_def checked_add_u32_def Let_def current_token_Some)
qed

text \<open>
  A retryable failure schedules exactly one wait. It ends the attempt, moves to
  \<open>BackingOff\<close> and sets the deadline to now plus the backoff delay, which is at
  least the policy's initial delay and at most its maximum; the next \<open>retry_if_due\<close>
  is refused before the deadline and rearms the same incident from the deadline on.
\<close>

theorem retryable_failure_backs_off:
  assumes "record_dependency_failure tok f m s = (Inr (RetryScheduled n deadline delay), t)"
    and "BackoffPolicy_new initial maximum = Inr (sm_backoff_policy s)" and "initial \<le> Duration_MAX"
    and "sm_revision t + 1 < MAX_SCHEMA_INTEGER"
  shows "current_attempt_token s = Some tok \<and> is_retryable (df_class f)
    \<and> current_attempt_token t = None \<and> uncovered t
    \<and> initial \<le> delay \<and> delay \<le> maximum
    \<and> deadline = monotonic m + Duration_as_millis delay
    \<and> (monotonic m' < deadline \<longrightarrow> retry_if_due m' t = (Inl RetryNotDue, t))
    \<and> (deadline \<le> monotonic m' \<longrightarrow>
         (\<exists>u. retry_if_due m' t = (Inr n, u) \<and> map_option inc_phase (sm_incident u) = Some Rearming))"
proof -
  have policy: "bp_initial (sm_backoff_policy s) = initial" "bp_maximum (sm_backoff_policy s) = maximum"
    "initial \<le> maximum"
    using assms(2) by (cases "sm_backoff_policy s"; auto simp: BackoffPolicy_new_def split: if_splits)+
  from assms(1) obtain i c r where
    i: "sm_incident s = Some i" "current_attempt_token s = Some tok" "is_retryable (df_class f)"
      "n = inc_id i" "delay = delay_for (sm_backoff_policy s) c"
      "deadline = monotonic m + Duration_as_millis delay"
    and t: "t = commit (observed_at m) r (s\<lparr>sm_incident := Some ((clear_attempt_evidence (i\<lparr>
       inc_retry_failures := c, inc_retry_at := Some deadline\<rparr>))\<lparr>inc_phase := BackingOff,
       inc_rescan_required := True, inc_failure := Some f\<rparr>)\<rparr>)"
    by (rule retry_scheduled)
  have bounds: "initial \<le> delay" "delay \<le> maximum"
    using delay_for_ge_initial[of "sm_backoff_policy s" c] delay_for_le_maximum[of "sm_backoff_policy s" c]
      policy assms(3) by (simp_all add: i(5))
  have "RecoveryRevision_checked_next (sm_revision t) = Some (sm_revision t + 1)"
    by (rule revision_headroom[OF assms(4)])
  with i bounds show ?thesis
    by (auto simp: t retry_if_due_def next_revision_or_block_def active_incident_def is_blocked_def
        commit_def clear_attempt_evidence_def current_attempt_token_def uncovered_def
        uncovered_incident_def)
qed

theorem retryable_failure_backs_off_witness:
  "\<exists>t u. record_dependency_failure sample_token sample_busy (tick 9) sample_closing =
       (Inr (RetryScheduled 1 259 (Duration_from_millis 250)), t)
     \<and> retry_if_due (tick 258) t = (Inl RetryNotDue, t)
     \<and> retry_if_due (tick 259) t = (Inr 1, u)"
proof -
  obtain t where t: "record_dependency_failure sample_token sample_busy (tick 9) sample_closing =
       (Inr (RetryScheduled 1 259 (Duration_from_millis 250)), t)" "sm_revision t = 7"
    by (simp add: sample_closing_def sample_defs machine_defs sample_busy_def is_retryable_def
        DependencyFailure_new_def RecoveryInstant_checked_add_def delay_for_def close_defs
        BackoffPolicy_standard_def Duration_saturating_mul_def Duration_MAX_def)
  have "BackoffPolicy_new (Duration_from_millis 250) (Duration_from_millis 5000) =
      Inr (sm_backoff_policy sample_closing)"
    by (simp add: sample_closing_def sample_defs machine_defs BackoffPolicy_new_def
        BackoffPolicy_standard_def Duration_from_millis_def)
  note backs_off = retryable_failure_backs_off[OF t(1) this]
  have "retry_if_due (tick 258) t = (Inl RetryNotDue, t)"
    "\<exists>u. retry_if_due (tick 259) t = (Inr 1, u)"
    using backs_off[of "tick 258"] backs_off[of "tick 259"]
    by (auto simp: t(2) MAX_SCHEMA_INTEGER_def Duration_from_millis_def Duration_MAX_def u64_MAX_def)
  with t(1) show ?thesis by blast
qed

end
