(* ===== verification/Recovery_Snapshot.thy ===== *)
theory Recovery_Snapshot
  imports Recovery_Properties
begin

text \<open>
  The immutable recovery snapshot (\<^verbatim>\<open>watcher_recovery/snapshot.rs\<close>) and the
  projection of the machine onto it (\<^verbatim>\<open>reducer/projection.rs\<close>). The serialised
  names are not modelled; the document kind and schema version are.
\<close>

section \<open>Snapshot values\<close>

definition DOCUMENT_KIND :: string where
  "DOCUMENT_KIND = ''watcher-recovery-snapshot''"

definition SCHEMA_VERSION :: nat where
  "SCHEMA_VERSION = 3"

record CurrentAttemptSnapshot =
  cas_attempt_id :: AttemptId
  cas_activity_watermark :: "ActivityWatermark option"
  cas_started_at :: RecoveryTimestamp
  cas_authoritative_scan_revision :: "RecoveryScanRevision option"

datatype NativeCoverageLossSnapshot =
    Snap_UserDropped
  | Snap_KernelDropped
  | Snap_EventIdsWrapped
  | Snap_RootChanged
  | Snap_StreamStopped
  | Snap_NonMonotonicCursor
  | Snap_QueueOverflow
  | Snap_BackendFailure

datatype DarwinCoverageStartSnapshot =
    Snap_CursorReplay u64 u64 "NativeCoverageLossSnapshot option"
  | Snap_FreshStream u64 NativeCoverageLossSnapshot

datatype NativeCoverageSnapshot =
    Snap_Darwin (snd_boundary_id: u64) (snd_activity_watermark: ActivityWatermark)
      (snd_covered_epoch: u64) (snd_live_epoch: u64) (snd_start: DarwinCoverageStartSnapshot)
      (snd_history_through: u64) (snd_history_done: bool) (snd_must_scan_subdirs: bool)
      (snd_sealed_through: u64) (snd_flush_generation: u64) (snd_loss_generation: u64)
      (snd_callback_generation: u64)
  | Snap_Linux (snl_boundary_id: u64) (snl_activity_watermark: ActivityWatermark)
      (snl_stream_epoch: u64) (snl_watcher_ready_control_id: u64)
      (snl_callback_drain_control_id: u64)

datatype NativeAdapter = Adapter_Darwin | Adapter_Linux

fun loss_snapshot_from_native :: "WatcherCoverageLoss \<Rightarrow> NativeCoverageLossSnapshot" where
  "loss_snapshot_from_native UserDropped = Snap_UserDropped"
| "loss_snapshot_from_native KernelDropped = Snap_KernelDropped"
| "loss_snapshot_from_native EventIdsWrapped = Snap_EventIdsWrapped"
| "loss_snapshot_from_native RootChanged = Snap_RootChanged"
| "loss_snapshot_from_native StreamStopped = Snap_StreamStopped"
| "loss_snapshot_from_native NonMonotonicCursor = Snap_NonMonotonicCursor"
| "loss_snapshot_from_native QueueOverflow = Snap_QueueOverflow"
| "loss_snapshot_from_native BackendFailure = Snap_BackendFailure"

fun start_snapshot_from_native :: "DarwinCoverageStart \<Rightarrow> DarwinCoverageStartSnapshot" where
  "start_snapshot_from_native (CursorReplay covered_last_safe replay_from recovery_cause) =
     Snap_CursorReplay covered_last_safe replay_from
       (map_option loss_snapshot_from_native recovery_cause)"
| "start_snapshot_from_native (FreshStream fresh_from discontinuity) =
     Snap_FreshStream fresh_from (loss_snapshot_from_native discontinuity)"

definition from_boundary :: "AttemptCoverageBoundary \<Rightarrow> NativeCoverageSnapshot" where
  "from_boundary boundary =
     (let activity_watermark = acb_activity_watermark boundary
      in case acb_proof boundary of
           Darwin proof \<Rightarrow>
             Snap_Darwin (dcb_boundary_id proof) activity_watermark (dcb_covered_epoch proof)
               (dcb_live_epoch proof) (start_snapshot_from_native (dcb_start proof))
               (dcb_history_through proof) True (dcb_must_scan_subdirs proof)
               (dcb_sealed_through proof) (dcb_flush_generation proof) (dcb_loss_generation proof)
               (dcb_callback_generation proof)
         | Linux proof \<Rightarrow>
             Snap_Linux (lcb_boundary_id proof) activity_watermark (lcb_stream_epoch proof)
               (lcb_watcher_ready proof) (lcb_callback_drain proof))"

fun snapshot_adapter :: "NativeCoverageSnapshot \<Rightarrow> NativeAdapter" where
  "snapshot_adapter (Snap_Darwin _ _ _ _ _ _ _ _ _ _ _ _) = Adapter_Darwin"
| "snapshot_adapter (Snap_Linux _ _ _ _ _) = Adapter_Linux"

fun snapshot_activity_watermark :: "NativeCoverageSnapshot \<Rightarrow> ActivityWatermark" where
  "snapshot_activity_watermark (Snap_Darwin _ watermark _ _ _ _ _ _ _ _ _ _) = watermark"
| "snapshot_activity_watermark (Snap_Linux _ watermark _ _ _) = watermark"

fun snapshot_boundary_id :: "NativeCoverageSnapshot \<Rightarrow> u64" where
  "snapshot_boundary_id (Snap_Darwin boundary _ _ _ _ _ _ _ _ _ _ _) = boundary"
| "snapshot_boundary_id (Snap_Linux boundary _ _ _ _) = boundary"

record RecoveryFailureSnapshot =
  rfs_class :: DependencyFailureClass
  rfs_code :: RecoveryFailureCode
  rfs_observed_at :: RecoveryTimestamp

definition from_failure :: "DependencyFailure \<Rightarrow> RecoveryFailureSnapshot" where
  "from_failure failure =
     \<lparr>rfs_class = df_class failure, rfs_code = df_code failure,
      rfs_observed_at = df_observed_at failure\<rparr>"

record RecoveryClosureSnapshot =
  rcs_incident_id :: IncidentId
  rcs_closing_attempt_id :: AttemptId
  rcs_attempt_count :: RecoveryCount
  rcs_scan_count :: RecoveryCount
  rcs_activity_watermark :: ActivityWatermark
  rcs_duration_ms :: u64
  rcs_closing_recovery_revision :: RecoveryRevision
  rcs_native_coverage :: NativeCoverageSnapshot
  rcs_authoritative_scan_revision :: RecoveryScanRevision

definition closure_from_receipt :: "RecoveryClosureReceipt \<Rightarrow> RecoveryClosureSnapshot" where
  "closure_from_receipt receipt = \<lparr>
     rcs_incident_id = rcr_incident_id receipt,
     rcs_closing_attempt_id = rcr_attempt_id receipt,
     rcs_attempt_count = rcr_attempt_count receipt,
     rcs_scan_count = rcr_scan_count receipt,
     rcs_activity_watermark = rcr_activity_watermark receipt,
     rcs_duration_ms = rcr_duration_ms receipt,
     rcs_closing_recovery_revision = rcr_closing_recovery_revision receipt,
     rcs_native_coverage = from_boundary (rcr_native_boundary receipt),
     rcs_authoritative_scan_revision = rcr_authoritative_scan_revision receipt\<rparr>"

text \<open>
  The snapshot and its input have the same fields but for the two constants
  \<open>from_input\<close> adds.
\<close>

record RecoverySnapshotInput =
  rsn_process_identity :: RecoveryProcessIdentity
  rsn_workspace_id :: string
  rsn_snapshot_revision :: RecoveryRevision
  rsn_activity_watermark :: ActivityWatermark
  rsn_lifecycle :: RecoveryLifecycle
  rsn_worker_id :: "RecoveryWorkerId option"
  rsn_incident_id :: "IncidentId option"
  rsn_primary_cause :: "RecoveryCause option"
  rsn_phase :: "RecoveryPhase option"
  rsn_started_at :: "RecoveryTimestamp option"
  rsn_last_transition_at :: RecoveryTimestamp
  rsn_attempt_count :: RecoveryCount
  rsn_scan_count :: RecoveryCount
  rsn_rescan_required :: bool
  rsn_current_attempt :: "CurrentAttemptSnapshot option"
  rsn_native_coverage :: "NativeCoverageSnapshot option"
  rsn_failure :: "RecoveryFailureSnapshot option"
  rsn_last_closure :: "RecoveryClosureSnapshot option"

record WatcherRecoverySnapshot = RecoverySnapshotInput +
  rsn_document_kind :: string
  rsn_schema_version :: nat

definition from_input :: "RecoverySnapshotInput \<Rightarrow> WatcherRecoverySnapshot" where
  "from_input input = RecoverySnapshotInput.extend input
     (WatcherRecoverySnapshot.fields DOCUMENT_KIND SCHEMA_VERSION)"

section \<open>Projections of the machine\<close>

definition attempt_snapshot :: "AttemptState \<Rightarrow> CurrentAttemptSnapshot" where
  "attempt_snapshot a = \<lparr>
     cas_attempt_id = tok_attempt_id (att_token a),
     cas_activity_watermark = map_option acb_activity_watermark (att_native_boundary a),
     cas_started_at = att_started_at a,
     cas_authoritative_scan_revision = att_scan_revision a\<rparr>"

definition snapshot :: "RecoveryStateMachine \<Rightarrow> WatcherRecoverySnapshot" where
  "snapshot s =
     (case sm_incident s of
        None \<Rightarrow> from_input \<lparr>
          rsn_process_identity = rsi_process_identity (sm_source_identity s),
          rsn_workspace_id = rsi_workspace_id (sm_source_identity s),
          rsn_snapshot_revision = sm_revision s,
          rsn_activity_watermark = sm_activity_watermark s,
          rsn_lifecycle = Lifecycle_Nominal,
          rsn_worker_id = sm_active_worker s,
          rsn_incident_id = None,
          rsn_primary_cause = None,
          rsn_phase = None,
          rsn_started_at = None,
          rsn_last_transition_at = sm_last_transition_at s,
          rsn_attempt_count = 0,
          rsn_scan_count = 0,
          rsn_rescan_required = False,
          rsn_current_attempt = None,
          rsn_native_coverage =
            map_option (\<lambda>receipt. from_boundary (rcr_native_boundary receipt)) (sm_last_completed s),
          rsn_failure = None,
          rsn_last_closure = map_option closure_from_receipt (sm_last_completed s)\<rparr>
      | Some incident \<Rightarrow> from_input \<lparr>
          rsn_process_identity = rsi_process_identity (sm_source_identity s),
          rsn_workspace_id = rsi_workspace_id (sm_source_identity s),
          rsn_snapshot_revision = sm_revision s,
          rsn_activity_watermark = sm_activity_watermark s,
          rsn_lifecycle =
            (if is_blocked incident then Lifecycle_Blocked else Lifecycle_Recovering),
          rsn_worker_id = sm_active_worker s,
          rsn_incident_id = Some (inc_id incident),
          rsn_primary_cause = Some (inc_primary_cause incident),
          rsn_phase = Some (inc_phase incident),
          rsn_started_at = Some (inc_started_at incident),
          rsn_last_transition_at = sm_last_transition_at s,
          rsn_attempt_count = inc_attempt_count incident,
          rsn_scan_count = inc_scan_count incident,
          rsn_rescan_required = inc_rescan_required incident,
          rsn_current_attempt = map_option attempt_snapshot (inc_current_attempt incident),
          rsn_native_coverage = map_option from_boundary (inc_native_coverage incident),
          rsn_failure = map_option from_failure (inc_failure incident),
          rsn_last_closure = map_option closure_from_receipt (sm_last_completed s)\<rparr>)"

definition current_worker_ownership :: "RecoveryStateMachine \<Rightarrow> RecoveryWorkerOwnership option" where
  "current_worker_ownership s = map_option (\<lambda>w. \<lparr>own_worker_id = w\<rparr>) (sm_active_worker s)"

definition current_native_boundary :: "RecoveryStateMachine \<Rightarrow> AttemptCoverageBoundary option" where
  "current_native_boundary s = Option.bind (sm_incident s) inc_native_coverage"

definition nominal_frontier :: "RecoveryStateMachine \<Rightarrow> RecoveryFrontier option" where
  "nominal_frontier s =
     (if sm_incident s \<noteq> None then None
      else Some \<lparr>
        rf_recovery_revision = sm_revision s,
        rf_activity_watermark = sm_activity_watermark s,
        rf_last_closure =
          map_option RecoveryClosureIdentity_from_receipt (sm_last_completed s)\<rparr>)"

lemma snapshot_fields:
  "rsn_snapshot_revision (snapshot s) = sm_revision s"
  "rsn_lifecycle (snapshot s) = lifecycle s"
  "rsn_phase (snapshot s) = map_option inc_phase (sm_incident s)"
  "rsn_document_kind (snapshot s) = DOCUMENT_KIND"
  "rsn_schema_version (snapshot s) = SCHEMA_VERSION"
  by (simp_all add: snapshot_def lifecycle_def from_input_def RecoverySnapshotInput.extend_def
      WatcherRecoverySnapshot.fields_def split: option.split)

end
