(* ===== verification/Recovery_Coordinator.thy ===== *)
theory Recovery_Coordinator
  imports Recovery_Snapshot
begin

text \<open>
  The process-local recovery authority
  (\<^verbatim>\<open>watcher_recovery/coordinator.rs\<close>): the reducer behind a mutex, the shared
  advisory revision with its two wake targets, and the subscriptions that read it.

  A coordinator method has two atomic parts: the critical section, and the
  publication of the new revision after the lock is released. The functions
  \<open>*_locked\<close> are the critical sections; they return the revision that is still to
  be published. The methods run both parts one after the other; the interleaved
  system at the end runs them as separate steps.

  A wake channel is \<open>bounded(1)\<close>: it holds one token or none (\<open>wt_pending\<close>). The
  mutex is poisoned only by a panic in a critical section; \<open>crd_poisoned\<close> is that
  flag, and no operation here sets it.
\<close>

section \<open>Signal\<close>

datatype RecoverySubscriptionRole = Role_Worker | Role_Projector

datatype SubscriptionFence =
    Fence_Worker RecoveryWorkerOwnership
  | Fence_Projector RecoveryProjectorOwnership

datatype RecoverySubscriptionError = WouldBlock | TimedOut | WakeDisconnected | Revoked

datatype WatcherRecoveryCoordinatorError =
    StateUnavailable
  | ProjectorIdentifierExhausted
  | RoleAlreadySubscribed RecoverySubscriptionRole
  | SubscriptionRevoked RecoverySubscriptionRole
  | Transition RecoveryTransitionError

record WakeTarget =
  wt_generation :: u64
  wt_claimed :: bool
  wt_pending :: bool

record RevisionSignal =
  sig_revision :: u64
  sig_worker :: "WakeTarget option"
  sig_projector :: "WakeTarget option"
  sig_next_projector_id :: u64

definition wake_target :: "u64 \<Rightarrow> WakeTarget" where
  "wake_target generation =
     \<lparr>wt_generation = generation, wt_claimed = False, wt_pending = False\<rparr>"

text \<open>
  \<open>try_send\<close> on a bounded channel of one: the token is there afterwards, whether
  it was sent now or the channel was full.
\<close>

definition wake :: "WakeTarget option \<Rightarrow> WakeTarget option" where
  "wake target = map_option (\<lambda>t. t\<lparr>wt_pending := True\<rparr>) target"

text \<open>
  Waking the previous target of a replaced role touches a channel only the
  revoked subscriber still holds, so it leaves no trace in the signal.
\<close>

definition install_worker :: "RecoveryWorkerOwnership \<Rightarrow> RevisionSignal \<Rightarrow> RevisionSignal" where
  "install_worker ownership sig =
     sig\<lparr>sig_worker := Some (wake_target (own_worker_id ownership))\<rparr>"

definition RevisionSignal_new ::
  "RecoveryRevision \<Rightarrow> RecoveryWorkerOwnership option \<Rightarrow> RevisionSignal" where
  "RevisionSignal_new revision worker =
     (let signal = \<lparr>sig_revision = revision, sig_worker = None, sig_projector = None,
                    sig_next_projector_id = 1\<rparr>
      in case worker of None \<Rightarrow> signal | Some w \<Rightarrow> install_worker w signal)"

definition publish :: "RecoveryRevision \<Rightarrow> RevisionSignal \<Rightarrow> RevisionSignal" where
  "publish revision sig =
     (let prior = sig_revision sig;
          sig = sig\<lparr>sig_revision := max prior revision\<rparr>
      in if prior \<ge> revision then sig
         else sig\<lparr>sig_worker := wake (sig_worker sig), sig_projector := wake (sig_projector sig)\<rparr>)"

definition revoke_worker :: "RecoveryWorkerOwnership \<Rightarrow> RevisionSignal \<Rightarrow> RevisionSignal" where
  "revoke_worker ownership sig =
     (case sig_worker sig of
        Some target \<Rightarrow>
          if wt_generation target = own_worker_id ownership then sig\<lparr>sig_worker := None\<rparr> else sig
      | None \<Rightarrow> sig)"

definition replace_projector ::
  "RevisionSignal \<Rightarrow> (WatcherRecoveryCoordinatorError + RecoveryProjectorOwnership) \<times> RevisionSignal"
  where
  "replace_projector sig =
     (case checked_add_u64 (sig_next_projector_id sig) 1 of
        None \<Rightarrow> (Inl ProjectorIdentifierExhausted, sig)
      | Some next_id \<Rightarrow>
          (let generation = sig_next_projector_id sig;
               sig = sig\<lparr>sig_next_projector_id := next_id\<rparr>
           in case prefixed_id_new ''RecoveryProjectorId'' generation of
                Inl _ \<Rightarrow> (Inl ProjectorIdentifierExhausted, sig)
              | Inr projector_id \<Rightarrow>
                  (Inr \<lparr>own_projector_id = projector_id\<rparr>,
                   sig\<lparr>sig_projector := Some (wake_target generation)\<rparr>)))"

definition claim ::
  "WakeTarget option \<Rightarrow> u64 \<Rightarrow> RecoverySubscriptionRole \<Rightarrow>
   WatcherRecoveryCoordinatorError + WakeTarget" where
  "claim target expected_generation role =
     (case target of
        None \<Rightarrow> Inl (SubscriptionRevoked role)
      | Some target \<Rightarrow>
          if wt_generation target \<noteq> expected_generation then Inl (SubscriptionRevoked role)
          else if wt_claimed target then Inl (RoleAlreadySubscribed role)
          else Inr (target\<lparr>wt_claimed := True, wt_pending := False\<rparr>))"

definition claim_worker ::
  "RecoveryWorkerOwnership \<Rightarrow> RevisionSignal \<Rightarrow>
   (WatcherRecoveryCoordinatorError + unit) \<times> RevisionSignal" where
  "claim_worker ownership sig =
     (case claim (sig_worker sig) (own_worker_id ownership) Role_Worker of
        Inl e \<Rightarrow> (Inl e, sig)
      | Inr target \<Rightarrow> (Inr (), sig\<lparr>sig_worker := Some target\<rparr>))"

definition claim_projector ::
  "RecoveryProjectorOwnership \<Rightarrow> RevisionSignal \<Rightarrow>
   (WatcherRecoveryCoordinatorError + unit) \<times> RevisionSignal" where
  "claim_projector ownership sig =
     (case claim (sig_projector sig) (own_projector_id ownership) Role_Projector of
        Inl e \<Rightarrow> (Inl e, sig)
      | Inr target \<Rightarrow> (Inr (), sig\<lparr>sig_projector := Some target\<rparr>))"

definition target_has_generation :: "WakeTarget option \<Rightarrow> u64 \<Rightarrow> bool" where
  "target_has_generation target generation =
     (case target of None \<Rightarrow> False | Some t \<Rightarrow> wt_generation t = generation)"

fun is_current :: "SubscriptionFence \<Rightarrow> RevisionSignal \<Rightarrow> bool" where
  "is_current (Fence_Worker ownership) sig =
     target_has_generation (sig_worker sig) (own_worker_id ownership)"
| "is_current (Fence_Projector ownership) sig =
     target_has_generation (sig_projector sig) (own_projector_id ownership)"

definition release_target :: "u64 \<Rightarrow> WakeTarget option \<Rightarrow> WakeTarget option" where
  "release_target generation target =
     (case target of
        None \<Rightarrow> None
      | Some t \<Rightarrow> Some (if wt_generation t = generation then t\<lparr>wt_claimed := False\<rparr> else t))"

fun release :: "SubscriptionFence \<Rightarrow> RevisionSignal \<Rightarrow> RevisionSignal" where
  "release (Fence_Worker ownership) sig =
     sig\<lparr>sig_worker := release_target (own_worker_id ownership) (sig_worker sig)\<rparr>"
| "release (Fence_Projector ownership) sig =
     sig\<lparr>sig_projector := release_target (own_projector_id ownership) (sig_projector sig)\<rparr>"

section \<open>Coordinator\<close>

record CoordinatorState =
  cs_model :: RecoveryStateMachine
  cs_snapshot :: WatcherRecoverySnapshot

record WatcherRecoveryCoordinator =
  crd_state :: CoordinatorState
  crd_poisoned :: bool
  crd_signal :: RevisionSignal

definition materialize_snapshot ::
  "CoordinatorState \<Rightarrow> WatcherRecoverySnapshot \<times> CoordinatorState" where
  "materialize_snapshot st =
     (let st = (if rsn_snapshot_revision (cs_snapshot st) \<noteq> sm_revision (cs_model st)
                then st\<lparr>cs_snapshot := snapshot (cs_model st)\<rparr> else st)
      in (cs_snapshot st, st))"

definition from_model :: "RecoveryStateMachine \<Rightarrow> WatcherRecoveryCoordinator" where
  "from_model model =
     (let snap = snapshot model
      in \<lparr>crd_state = \<lparr>cs_model = model, cs_snapshot = snap\<rparr>,
          crd_poisoned = False,
          crd_signal =
            RevisionSignal_new (rsn_snapshot_revision snap) (current_worker_ownership model)\<rparr>)"

definition coordinator_startup_reconciliation ::
  "RecoverySourceIdentity \<Rightarrow> RecoveryMoment \<Rightarrow> BackoffPolicy \<Rightarrow> WatcherRecoveryCoordinator" where
  "coordinator_startup_reconciliation source_identity moment backoff_policy =
     from_model (startup_reconciliation source_identity moment backoff_policy)"

type_synonym 'a answer = "WatcherRecoveryCoordinatorError + 'a"

definition coordinator_snapshot ::
  "WatcherRecoveryCoordinator \<Rightarrow> WatcherRecoverySnapshot answer \<times> WatcherRecoveryCoordinator" where
  "coordinator_snapshot c =
     (if crd_poisoned c then (Inl StateUnavailable, c)
      else (case materialize_snapshot (crd_state c) of
              (snap, st) \<Rightarrow> (Inr snap, c\<lparr>crd_state := st\<rparr>)))"

text \<open>The critical section shared by every transition of the model.\<close>

definition mutate_locked ::
  "(RecoveryStateMachine \<Rightarrow> 'a outcome) \<Rightarrow> WatcherRecoveryCoordinator \<Rightarrow>
   ('a answer \<times> RecoveryRevision option) \<times> WatcherRecoveryCoordinator" where
  "mutate_locked transition c =
     (if crd_poisoned c then ((Inl StateUnavailable, None), c)
      else
        (let prior_revision = sm_revision (cs_model (crd_state c));
             (result, model) = transition (cs_model (crd_state c));
             published =
               (if sm_revision model \<noteq> prior_revision then Some (sm_revision model) else None);
             c = c\<lparr>crd_state := (crd_state c)\<lparr>cs_model := model\<rparr>\<rparr>
         in ((map_sum Transition id result, published), c)))"

definition publish_pending ::
  "RecoveryRevision option \<Rightarrow> WatcherRecoveryCoordinator \<Rightarrow> WatcherRecoveryCoordinator" where
  "publish_pending published c =
     (case published of
        None \<Rightarrow> c
      | Some revision \<Rightarrow> c\<lparr>crd_signal := publish revision (crd_signal c)\<rparr>)"

definition mutate ::
  "(RecoveryStateMachine \<Rightarrow> 'a outcome) \<Rightarrow> WatcherRecoveryCoordinator \<Rightarrow>
   'a answer \<times> WatcherRecoveryCoordinator" where
  "mutate transition c =
     (case mutate_locked transition c of
        ((result, published), c) \<Rightarrow> (result, publish_pending published c))"

section \<open>Methods\<close>

text \<open>The model part of each worker-fenced method: \<open>require_worker\<close> first, then the transition.\<close>

definition with_worker ::
  "RecoveryWorkerOwnership \<Rightarrow> (RecoveryStateMachine \<Rightarrow> 'a outcome) \<Rightarrow>
   RecoveryStateMachine \<Rightarrow> 'a outcome" where
  "with_worker ownership transition s =
     (case require_worker ownership s of Inl e \<Rightarrow> (Inl e, s) | Inr _ \<Rightarrow> transition s)"

fun native_cause :: "WatcherCoverageLoss \<Rightarrow> RecoveryCause" where
  "native_cause UserDropped = NativeRescanRequired"
| "native_cause KernelDropped = NativeRescanRequired"
| "native_cause EventIdsWrapped = NativeRescanRequired"
| "native_cause NonMonotonicCursor = NativeRescanRequired"
| "native_cause QueueOverflow = NativeRescanRequired"
| "native_cause RootChanged = RootReplaced"
| "native_cause StreamStopped = WatcherDisconnected"
| "native_cause BackendFailure = RecoverableAdapterLoss"

text \<open>
  \<open>authority_generation\<close> is the coverage authority's generation when the close
  guard is read.
\<close>

definition offer_close_by ::
  "u64 \<Rightarrow> RecoveryWorkerOwnership \<Rightarrow> AttemptToken \<Rightarrow> RecoveryScanRevision \<Rightarrow> RecoveryMoment \<Rightarrow>
   RecoveryStateMachine \<Rightarrow> CloseDisposition outcome" where
  "offer_close_by authority_generation ownership token scan_revision moment =
     with_worker ownership (\<lambda>model.
       if current_attempt_token model \<noteq> Some token then (Inl AttemptMismatch, model)
       else (case current_native_boundary model of
          None \<Rightarrow> (Inl NativeBoundaryMismatch, model)
        | Some native_boundary \<Rightarrow>
            (let offer = from_attempt_evidence token native_boundary scan_revision
             in if \<not> acb_is_current authority_generation (co_native_boundary offer)
                then reject_native_close (co_attempt offer) moment model
                else offer_close offer moment model)))"

definition coordinator_observe_activity ::
  "RecoveryMoment \<Rightarrow> WatcherRecoveryCoordinator \<Rightarrow>
   ActivityAdmission answer \<times> WatcherRecoveryCoordinator" where
  "coordinator_observe_activity moment = mutate (observe_activity moment)"

definition coordinator_observe_suppressed ::
  "RecoveryMoment \<Rightarrow> WatcherRecoveryCoordinator \<Rightarrow>
   ActivityAdmission answer \<times> WatcherRecoveryCoordinator" where
  "coordinator_observe_suppressed moment = mutate (observe_suppressed moment)"

definition coordinator_observe_loss ::
  "RecoveryCause \<Rightarrow> RecoveryMoment \<Rightarrow> WatcherRecoveryCoordinator \<Rightarrow>
   LossAdmission answer \<times> WatcherRecoveryCoordinator" where
  "coordinator_observe_loss cause moment = mutate (observe_loss cause moment)"

definition observe_native_coverage ::
  "WatcherCoverageLoss \<Rightarrow> RecoveryMoment \<Rightarrow> WatcherRecoveryCoordinator \<Rightarrow>
   LossAdmission answer \<times> WatcherRecoveryCoordinator" where
  "observe_native_coverage loss moment = mutate (observe_loss (native_cause loss) moment)"

definition coordinator_start_attempt ::
  "RecoveryWorkerOwnership \<Rightarrow> RecoveryMoment \<Rightarrow> WatcherRecoveryCoordinator \<Rightarrow>
   AttemptToken answer \<times> WatcherRecoveryCoordinator" where
  "coordinator_start_attempt ownership moment =
     mutate (with_worker ownership (start_attempt moment))"

definition coordinator_record_native_boundary ::
  "RecoveryWorkerOwnership \<Rightarrow> AttemptToken \<Rightarrow> WatcherCoverageHandoff \<Rightarrow> RecoveryMoment \<Rightarrow>
   WatcherRecoveryCoordinator \<Rightarrow> unit answer \<times> WatcherRecoveryCoordinator" where
  "coordinator_record_native_boundary ownership token handoff moment =
     mutate (with_worker ownership (record_native_boundary token handoff moment))"

definition coordinator_record_scan_started ::
  "RecoveryWorkerOwnership \<Rightarrow> AttemptToken \<Rightarrow> RecoveryMoment \<Rightarrow>
   WatcherRecoveryCoordinator \<Rightarrow> unit answer \<times> WatcherRecoveryCoordinator" where
  "coordinator_record_scan_started ownership token moment =
     mutate (with_worker ownership (record_scan_started token moment))"

definition coordinator_record_scan_completed ::
  "RecoveryWorkerOwnership \<Rightarrow> AttemptToken \<Rightarrow> RecoveryScanRevision \<Rightarrow> RecoveryMoment \<Rightarrow>
   WatcherRecoveryCoordinator \<Rightarrow> unit answer \<times> WatcherRecoveryCoordinator" where
  "coordinator_record_scan_completed ownership token scan_revision moment =
     mutate (with_worker ownership (record_scan_completed token scan_revision moment))"

definition coordinator_offer_close ::
  "u64 \<Rightarrow> RecoveryWorkerOwnership \<Rightarrow> AttemptToken \<Rightarrow> RecoveryScanRevision \<Rightarrow> RecoveryMoment \<Rightarrow>
   WatcherRecoveryCoordinator \<Rightarrow> CloseDisposition answer \<times> WatcherRecoveryCoordinator" where
  "coordinator_offer_close authority_generation ownership token scan_revision moment =
     mutate (offer_close_by authority_generation ownership token scan_revision moment)"

definition coordinator_record_dependency_failure ::
  "RecoveryWorkerOwnership \<Rightarrow> AttemptToken \<Rightarrow> DependencyFailure \<Rightarrow> RecoveryMoment \<Rightarrow>
   WatcherRecoveryCoordinator \<Rightarrow> FailureDisposition answer \<times> WatcherRecoveryCoordinator" where
  "coordinator_record_dependency_failure ownership token failure moment =
     mutate (with_worker ownership (record_dependency_failure token failure moment))"

definition coordinator_restore_matching_authority ::
  "RecoveryWorkerOwnership \<Rightarrow> DependencyFailure \<Rightarrow> RecoveryMoment \<Rightarrow>
   WatcherRecoveryCoordinator \<Rightarrow> AuthorityRestoration answer \<times> WatcherRecoveryCoordinator" where
  "coordinator_restore_matching_authority ownership expected_failure moment =
     mutate (with_worker ownership (restore_matching_authority expected_failure moment))"

definition coordinator_retry_if_due ::
  "RecoveryWorkerOwnership \<Rightarrow> RecoveryMoment \<Rightarrow> WatcherRecoveryCoordinator \<Rightarrow>
   IncidentId answer \<times> WatcherRecoveryCoordinator" where
  "coordinator_retry_if_due ownership moment =
     mutate (with_worker ownership (retry_if_due moment))"

text \<open>The two methods that change the worker also change its wake target, still under the lock.\<close>

definition replace_worker_locked ::
  "RecoveryMoment \<Rightarrow> WatcherRecoveryCoordinator \<Rightarrow>
   (RecoveryWorkerOwnership answer \<times> RecoveryRevision option) \<times> WatcherRecoveryCoordinator" where
  "replace_worker_locked moment c =
     (if crd_poisoned c then ((Inl StateUnavailable, None), c)
      else
        (let prior_revision = sm_revision (cs_model (crd_state c));
             prior_worker = current_worker_ownership (cs_model (crd_state c));
             (result, model) = replace_worker moment (cs_model (crd_state c));
             sig = (case result of
                Inr ownership \<Rightarrow> install_worker ownership (crd_signal c)
              | Inl _ \<Rightarrow>
                  if current_worker_ownership model = None then
                    (case prior_worker of
                       Some prior_worker \<Rightarrow> revoke_worker prior_worker (crd_signal c)
                     | None \<Rightarrow> crd_signal c)
                  else crd_signal c);
             published =
               (if sm_revision model \<noteq> prior_revision then Some (sm_revision model) else None)
         in ((map_sum Transition id result, published),
             c\<lparr>crd_state := (crd_state c)\<lparr>cs_model := model\<rparr>, crd_signal := sig\<rparr>)))"

definition coordinator_replace_worker ::
  "RecoveryMoment \<Rightarrow> WatcherRecoveryCoordinator \<Rightarrow>
   RecoveryWorkerOwnership answer \<times> WatcherRecoveryCoordinator" where
  "coordinator_replace_worker moment c =
     (case replace_worker_locked moment c of
        ((result, published), c) \<Rightarrow> (result, publish_pending published c))"

definition worker_exited_locked ::
  "RecoveryWorkerOwnership \<Rightarrow> RecoveryMoment \<Rightarrow> WatcherRecoveryCoordinator \<Rightarrow>
   (IncidentId answer \<times> RecoveryRevision option) \<times> WatcherRecoveryCoordinator" where
  "worker_exited_locked ownership moment c =
     (if crd_poisoned c then ((Inl StateUnavailable, None), c)
      else
        (let prior_revision = sm_revision (cs_model (crd_state c));
             (result, model) = worker_exited ownership moment (cs_model (crd_state c));
             sig = (if is_ok result then revoke_worker ownership (crd_signal c) else crd_signal c);
             published =
               (if sm_revision model \<noteq> prior_revision then Some (sm_revision model) else None)
         in ((map_sum Transition id result, published),
             c\<lparr>crd_state := (crd_state c)\<lparr>cs_model := model\<rparr>, crd_signal := sig\<rparr>)))"

definition coordinator_worker_exited ::
  "RecoveryWorkerOwnership \<Rightarrow> RecoveryMoment \<Rightarrow> WatcherRecoveryCoordinator \<Rightarrow>
   IncidentId answer \<times> WatcherRecoveryCoordinator" where
  "coordinator_worker_exited ownership moment c =
     (case worker_exited_locked ownership moment c of
        ((result, published), c) \<Rightarrow> (result, publish_pending published c))"

section \<open>Frontiers\<close>

definition capture_nominal_frontier ::
  "WatcherRecoveryCoordinator \<Rightarrow> RecoveryFrontier answer" where
  "capture_nominal_frontier c =
     (if crd_poisoned c then Inl StateUnavailable
      else ok_or (nominal_frontier (cs_model (crd_state c))) (Transition RecoveryNotNominal))"

definition linearize_nominal ::
  "RecoveryFrontier \<Rightarrow> WatcherRecoveryCoordinator \<Rightarrow> RecoveryAttestation answer" where
  "linearize_nominal expected c =
     (if crd_poisoned c then Inl StateUnavailable
      else (let model = cs_model (crd_state c)
            in case nominal_frontier model of
                 None \<Rightarrow> Inl (Transition RecoveryNotNominal)
               | Some current \<Rightarrow>
                   if current \<noteq> expected then Inl (Transition RecoveryFrontierChanged)
                   else Inr \<lparr>ra_source_identity = sm_source_identity model, ra_frontier = current,
                             ra_last_closure = sm_last_completed model\<rparr>))"

section \<open>Subscriptions\<close>

record RecoverySubscription =
  sub_initial :: WatcherRecoverySnapshot
  sub_fence :: SubscriptionFence
  sub_last_seen :: RecoveryRevision

definition subscribe_worker ::
  "RecoveryWorkerOwnership \<Rightarrow> WatcherRecoveryCoordinator \<Rightarrow>
   RecoverySubscription answer \<times> WatcherRecoveryCoordinator" where
  "subscribe_worker ownership c =
     (if crd_poisoned c then (Inl StateUnavailable, c)
      else (case require_worker ownership (cs_model (crd_state c)) of
         Inl _ \<Rightarrow> (Inl (SubscriptionRevoked Role_Worker), c)
       | Inr _ \<Rightarrow>
           (case materialize_snapshot (crd_state c) of
              (initial, st) \<Rightarrow>
                (let c = c\<lparr>crd_state := st\<rparr>
                 in case claim_worker ownership (crd_signal c) of
                      (Inl e, sig) \<Rightarrow> (Inl e, c)
                    | (Inr _, sig) \<Rightarrow>
                        (Inr \<lparr>sub_initial = initial, sub_fence = Fence_Worker ownership,
                              sub_last_seen = 0\<rparr>,
                         c\<lparr>crd_signal := sig\<rparr>)))))"

definition subscribe_projector ::
  "RecoveryProjectorOwnership \<Rightarrow> WatcherRecoveryCoordinator \<Rightarrow>
   RecoverySubscription answer \<times> WatcherRecoveryCoordinator" where
  "subscribe_projector ownership c =
     (if crd_poisoned c then (Inl StateUnavailable, c)
      else
        (case materialize_snapshot (crd_state c) of
           (initial, st) \<Rightarrow>
             (let c = c\<lparr>crd_state := st\<rparr>
              in case claim_projector ownership (crd_signal c) of
                   (Inl e, sig) \<Rightarrow> (Inl e, c)
                 | (Inr _, sig) \<Rightarrow>
                     (Inr \<lparr>sub_initial = initial, sub_fence = Fence_Projector ownership,
                           sub_last_seen = 0\<rparr>,
                      c\<lparr>crd_signal := sig\<rparr>))))"

definition require_current ::
  "RevisionSignal \<Rightarrow> RecoverySubscription \<Rightarrow> RecoverySubscriptionError + unit" where
  "require_current sig sub = (if is_current (sub_fence sub) sig then Inr () else Inl Revoked)"

definition admit_revision ::
  "RevisionSignal \<Rightarrow> RecoveryRevision \<Rightarrow> RecoverySubscription \<Rightarrow>
   (RecoverySubscriptionError + RecoveryRevision) \<times> RecoverySubscription" where
  "admit_revision sig published sub =
     (case require_current sig sub of
        Inl e \<Rightarrow> (Inl e, sub)
      | Inr _ \<Rightarrow>
          if published \<le> sub_last_seen sub then (Inl WouldBlock, sub)
          else (Inr published, sub\<lparr>sub_last_seen := published\<rparr>))"

definition try_recv ::
  "RevisionSignal \<Rightarrow> RecoverySubscription \<Rightarrow>
   (RecoverySubscriptionError + RecoveryRevision) \<times> RecoverySubscription" where
  "try_recv sig sub = admit_revision sig (sig_revision sig) sub"

definition admit_after_timeout ::
  "RevisionSignal \<Rightarrow> RecoverySubscription \<Rightarrow>
   (RecoverySubscriptionError + RecoveryRevision) \<times> RecoverySubscription" where
  "admit_after_timeout sig sub =
     (case admit_revision sig (sig_revision sig) sub of
        (Inl WouldBlock, sub) \<Rightarrow> (Inl TimedOut, sub)
      | result \<Rightarrow> result)"

text \<open>
  One turn of the loop of \<open>recv\<close>, up to the point where it waits on the wake
  channel: \<open>None\<close> when it has to wait.
\<close>

definition recv_turn ::
  "RevisionSignal \<Rightarrow> RecoverySubscription \<Rightarrow>
   ((RecoverySubscriptionError + RecoveryRevision) \<times> RecoverySubscription) option" where
  "recv_turn sig sub =
     (case require_current sig sub of
        Inl e \<Rightarrow> Some (Inl e, sub)
      | Inr _ \<Rightarrow>
          (let published = sig_revision sig
           in if published > sub_last_seen sub then Some (admit_revision sig published sub)
              else None))"

definition drop_subscription :: "RecoverySubscription \<Rightarrow> RevisionSignal \<Rightarrow> RevisionSignal" where
  "drop_subscription sub sig = release (sub_fence sub) sig"

end
