(* ===== verification/Recovery_Identifiers.thy ===== *)
theory Recovery_Identifiers
  imports Recovery_Coordinator
begin

text \<open>
  Why the identifier sequences of the reducer cannot run out: every identifier
  handed out comes with a new revision, and the revisions end at 2^53 - 1, long
  before the 64-bit sequences do.
\<close>

definition id_growth :: "RecoveryStateMachine \<Rightarrow> RecoveryStateMachine \<Rightarrow> bool" where
  "id_growth s t \<longleftrightarrow>
     sm_next_worker_id t + sm_revision s \<le> sm_next_worker_id s + sm_revision t
     \<and> sm_next_attempt_id t + sm_revision s \<le> sm_next_attempt_id s + sm_revision t
     \<and> (blocked_for_good t
        \<or> sm_next_incident_id t + sm_revision s \<le> sm_next_incident_id s + sm_revision t)"

definition ids_fit :: "RecoveryStateMachine \<Rightarrow> bool" where
  "ids_fit s \<longleftrightarrow>
     sm_next_worker_id s \<le> sm_revision s + 1
     \<and> sm_next_attempt_id s \<le> sm_revision s + 1
     \<and> (blocked_for_good s \<or> sm_next_incident_id s \<le> sm_revision s + 1)"

lemma id_growth_refl [simp]: "id_growth s s"
  by (simp add: id_growth_def)

lemma commit_fields [simp]:
  "sm_revision (commit t r s) = r"
  "sm_next_worker_id (commit t r s) = sm_next_worker_id s"
  "sm_next_attempt_id (commit t r s) = sm_next_attempt_id s"
  "sm_next_incident_id (commit t r s) = sm_next_incident_id s"
  by (simp_all add: commit_def)

lemma terminal_block_fields [simp]:
  "sm_next_worker_id (terminal_block c m s) = sm_next_worker_id s"
  "sm_next_attempt_id (terminal_block c m s) = sm_next_attempt_id s"
  by (simp_all add: terminal_block_def Let_def split: option.split)

lemma id_growth_exhausted:
  assumes "sm_ok s" and "sm_next_worker_id t = sm_next_worker_id s"
    and "sm_next_attempt_id t = sm_next_attempt_id s"
  shows "id_growth s (commit x RecoveryRevision_terminal (terminal_block c m t))"
  using assms
  by (simp add: id_growth_def sm_ok_def watermarks_ok_def RecoveryRevision_terminal_def)

lemma id_growth_apply_op:
  assumes ok: "sm_ok s"
  shows "id_growth s (apply_op op s)"
proof -
  have ids: "ids_ok s" "0 < sm_next_worker_id s" "0 < sm_next_attempt_id s" "0 < sm_next_incident_id s"
    "sm_revision s \<le> RecoveryRevision_terminal"
    using ok by (simp_all add: sm_ok_def ids_ok_def watermarks_ok_def RecoveryRevision_terminal_def)
  note simps = id_growth_exhausted[OF ok] next_revision_or_block_def Let_def open_incident_eq
    prefixed_id_new_def revision_counter.next_some
  show ?thesis
  proof (cases op)
    case (ReplaceWorker m)
    with ids show ?thesis
      by (auto simp: replace_worker_def simps allocate_def id_growth_def[of s "commit _ _ _"] split: option.split)
  next
    case (WorkerExited w m)
    with ids show ?thesis
      by (auto simp: worker_exited_def simps id_growth_def[of s "commit _ _ _"] split: option.split sum.split)
  next
    case (StartAttempt m)
    with ids show ?thesis
      by (auto simp: start_attempt_def simps allocate_def block_for_exhaustion_def id_growth_def[of s "commit _ _ _"] split: option.split)
  next
    case (ObserveLoss c m)
    with ids show ?thesis
      by (auto simp: observe_loss_def simps id_growth_def[of s "commit _ _ _"] split: option.split sum.split)
  next
    case (ObserveSuppressed m)
    with ids show ?thesis
      by (auto simp: observe_suppressed_def simps id_growth_def[of s "commit _ _ _"] split: option.split sum.split)
  qed (use ids in \<open>auto simp: simps id_growth_def[of s "commit _ _ _"]
      record_native_boundary_def record_scan_started_def begin_authoritative_scan_def
      record_scan_completed_def complete_authoritative_scan_def offer_close_def
      reject_native_close_def record_dependency_failure_def retry_if_due_def
      restore_matching_authority_def restore_authority_def observe_activity_def
      split: option.split sum.split\<close>)
qed

lemma ids_fit_step:
  assumes "sm_ok s" and "ids_fit s"
  shows "ids_fit (apply_op op s)"
proof -
  have "blocked_for_good s \<Longrightarrow> blocked_for_good (apply_op op s)"
    by (rule blocked_for_good_step)
  with id_growth_apply_op[OF assms(1), of op] assms(2) show ?thesis
    by (auto simp: id_growth_def ids_fit_def)
qed

interpretation identifiers: inductive_invariant recovery_init recovery_step
  "\<lambda>s. sm_ok s \<and> ids_fit s"
proof
  fix s assume "recovery_init s"
  moreover from this have "ids_fit s"
    by (cases rule: recovery_init.cases)
      (auto simp: ids_fit_def nominal_def startup_reconciliation_def)
  ultimately show "sm_ok s \<and> ids_fit s" by (simp add: sm_ok_init)
next
  fix s t assume "sm_ok s \<and> ids_fit s" and "recovery_step s t"
  then show "sm_ok t \<and> ids_fit t"
    by (auto elim!: recovery_step.cases intro: sm_ok_apply_op ids_fit_step)
qed

lemma ids_available:
  assumes "reach recovery_init recovery_step s"
  shows "sm_next_worker_id s \<noteq> u64_MAX" "sm_next_attempt_id s \<noteq> u64_MAX"
    and "sm_incident s = None \<Longrightarrow> sm_next_incident_id s \<noteq> u64_MAX"
proof -
  have "sm_ok s" "ids_fit s" using identifiers.reach_inv[OF assms] by auto
  then show "sm_next_worker_id s \<noteq> u64_MAX" "sm_next_attempt_id s \<noteq> u64_MAX"
    "sm_incident s = None \<Longrightarrow> sm_next_incident_id s \<noteq> u64_MAX"
    by (auto simp: sm_ok_def watermarks_ok_def ids_fit_def MAX_SCHEMA_INTEGER_def u64_MAX_def
        dest: blocked_for_good_None)
qed

text \<open>
  Identifier exhaustion is unreachable. In every reachable state no operation
  reports an exhausted incident, attempt or worker identifier: the revision, which
  advances with every identifier, ends long before the 64-bit sequences do, and it
  blocks recovery first.
\<close>

theorem identifiers_never_run_out:
  assumes "reach recovery_init recovery_step s"
  shows "fst (replace_worker m s) \<noteq> Inl (IdentifierExhausted k)
    \<and> fst (worker_exited w m s) \<noteq> Inl (IdentifierExhausted k)
    \<and> fst (start_attempt m s) \<noteq> Inl (IdentifierExhausted k)
    \<and> fst (observe_suppressed m s) \<noteq> Inl (IdentifierExhausted k)
    \<and> fst (observe_loss c m s) \<noteq> Inl (IdentifierExhausted k)"
proof -
  note free = ids_available[OF assms]
  have "ids_ok s" using recovery.reach_inv[OF assms] by (simp add: sm_ok_def)
  then have ids: "ids_ok s" "0 < sm_next_worker_id s" "0 < sm_next_attempt_id s"
    by (simp_all add: ids_ok_def)
  note simps = next_revision_or_block_def open_incident_eq allocate_def prefixed_id_new_def Let_def
  have "fst (replace_worker m s) \<noteq> Inl (IdentifierExhausted k)"
    using free ids by (auto simp: replace_worker_def simps split: option.split)
  moreover have "fst (worker_exited w m s) \<noteq> Inl (IdentifierExhausted k)"
    using free ids
    by (auto simp: worker_exited_def require_worker_def simps split: option.split)
  moreover have "fst (start_attempt m s) \<noteq> Inl (IdentifierExhausted k)"
    using free ids by (auto simp: start_attempt_def simps split: option.split)
  moreover have "fst (observe_suppressed m s) \<noteq> Inl (IdentifierExhausted k)"
    using free ids by (auto simp: observe_suppressed_def simps split: option.split)
  moreover have "fst (observe_loss c m s) \<noteq> Inl (IdentifierExhausted k)"
    using free ids
    by (auto simp: observe_loss_def record_cause_def simps split: option.split)
  ultimately show ?thesis by blast
qed

theorem identifiers_never_run_out_witness:
  "fst (replace_worker (tick 6) sample_closing) \<noteq> Inl (IdentifierExhausted Kind_Worker)"
  using identifiers_never_run_out[OF reach_sample_closing] by blast

end
