(* ===== verification/Recovery_System.thy ===== *)
theory Recovery_System
  imports Recovery_Identifiers
begin

text \<open>
  The coordinator under concurrency. Callback threads, the worker and readers call
  the methods of \<^verbatim>\<open>coordinator.rs\<close> at the same time: critical sections are serialised
  by the mutex, but a revision is published after the lock is released, in three
  atomic actions (the \<open>fetch_max\<close>, then the two wakes), and a subscriber's \<open>recv\<close>
  reads the revision before it waits on its channel. The step relation interleaves
  all of these.
\<close>

section \<open>The interleaved system\<close>

datatype coordinator_call =
    Call_observe_activity RecoveryMoment
  | Call_observe_suppressed RecoveryMoment
  | Call_observe_loss RecoveryCause RecoveryMoment
  | Call_observe_native_coverage WatcherCoverageLoss RecoveryMoment
  | Call_replace_worker RecoveryMoment
  | Call_worker_exited RecoveryWorkerOwnership RecoveryMoment
  | Call_start_attempt RecoveryWorkerOwnership RecoveryMoment
  | Call_record_native_boundary RecoveryWorkerOwnership AttemptToken WatcherCoverageHandoff
      RecoveryMoment
  | Call_record_scan_started RecoveryWorkerOwnership AttemptToken RecoveryMoment
  | Call_record_scan_completed RecoveryWorkerOwnership AttemptToken RecoveryScanRevision
      RecoveryMoment
  | Call_offer_close u64 RecoveryWorkerOwnership AttemptToken RecoveryScanRevision RecoveryMoment
  | Call_record_dependency_failure RecoveryWorkerOwnership AttemptToken DependencyFailure
      RecoveryMoment
  | Call_restore_matching_authority RecoveryWorkerOwnership DependencyFailure RecoveryMoment
  | Call_retry_if_due RecoveryWorkerOwnership RecoveryMoment

definition section_effect ::
  "('a answer \<times> RecoveryRevision option) \<times> WatcherRecoveryCoordinator \<Rightarrow>
   RecoveryRevision option \<times> WatcherRecoveryCoordinator" where
  "section_effect r = (snd (fst r), snd r)"

fun critical :: "coordinator_call \<Rightarrow> WatcherRecoveryCoordinator \<Rightarrow>
    RecoveryRevision option \<times> WatcherRecoveryCoordinator" where
  "critical (Call_observe_activity m) c = section_effect (mutate_locked (observe_activity m) c)"
| "critical (Call_observe_suppressed m) c = section_effect (mutate_locked (observe_suppressed m) c)"
| "critical (Call_observe_loss cause m) c = section_effect (mutate_locked (observe_loss cause m) c)"
| "critical (Call_observe_native_coverage loss m) c =
     section_effect (mutate_locked (observe_loss (native_cause loss) m) c)"
| "critical (Call_replace_worker m) c = section_effect (replace_worker_locked m c)"
| "critical (Call_worker_exited w m) c = section_effect (worker_exited_locked w m c)"
| "critical (Call_start_attempt w m) c =
     section_effect (mutate_locked (with_worker w (start_attempt m)) c)"
| "critical (Call_record_native_boundary w t h m) c =
     section_effect (mutate_locked (with_worker w (record_native_boundary t h m)) c)"
| "critical (Call_record_scan_started w t m) c =
     section_effect (mutate_locked (with_worker w (record_scan_started t m)) c)"
| "critical (Call_record_scan_completed w t v m) c =
     section_effect (mutate_locked (with_worker w (record_scan_completed t v m)) c)"
| "critical (Call_offer_close g w t v m) c =
     section_effect (mutate_locked (offer_close_by g w t v m) c)"
| "critical (Call_record_dependency_failure w t f m) c =
     section_effect (mutate_locked (with_worker w (record_dependency_failure t f m)) c)"
| "critical (Call_restore_matching_authority w f m) c =
     section_effect (mutate_locked (with_worker w (restore_matching_authority f m)) c)"
| "critical (Call_retry_if_due w m) c =
     section_effect (mutate_locked (with_worker w (retry_if_due m)) c)"

text \<open>A thread that has left its critical section and is still publishing.\<close>

datatype publisher = Publishing RecoveryRevision | Waking RecoverySubscriptionRole

text \<open>A subscriber between calls of \<open>recv\<close> or in its loop, and a subscriber waiting on its channel.\<close>

record subscriber =
  sbr_subscription :: RecoverySubscription
  sbr_waiting :: bool

record recovery_system =
  sys_coordinator :: WatcherRecoveryCoordinator
  sys_publishers :: "publisher list"
  sys_subscribers :: "subscriber list"

definition sys_signal :: "recovery_system \<Rightarrow> RevisionSignal" where
  "sys_signal y = crd_signal (sys_coordinator y)"

definition sys_model :: "recovery_system \<Rightarrow> RecoveryStateMachine" where
  "sys_model y = cs_model (crd_state (sys_coordinator y))"

definition set_signal :: "RevisionSignal \<Rightarrow> recovery_system \<Rightarrow> recovery_system" where
  "set_signal sig y = y\<lparr>sys_coordinator := (sys_coordinator y)\<lparr>crd_signal := sig\<rparr>\<rparr>"

definition new_publisher :: "RecoveryRevision option \<Rightarrow> publisher list" where
  "new_publisher pub = (case pub of None \<Rightarrow> [] | Some r \<Rightarrow> [Publishing r])"

definition token_pending :: "RevisionSignal \<Rightarrow> bool" where
  "token_pending sig = (case sig_worker sig of None \<Rightarrow> False | Some t \<Rightarrow> wt_pending t)"

definition take_token :: "RevisionSignal \<Rightarrow> RevisionSignal" where
  "take_token sig = sig\<lparr>sig_worker := map_option (\<lambda>t. t\<lparr>wt_pending := False\<rparr>) (sig_worker sig)\<rparr>"

inductive system_init :: "recovery_system \<Rightarrow> bool" where
  "recovery_init s \<Longrightarrow>
   system_init \<lparr>sys_coordinator = from_model s, sys_publishers = [], sys_subscribers = []\<rparr>"

inductive system_step :: "recovery_system \<Rightarrow> recovery_system \<Rightarrow> bool" where
  sys_call: "critical call (sys_coordinator y) = (pub, c) \<Longrightarrow>
    system_step y (y\<lparr>sys_coordinator := c,
      sys_publishers := new_publisher pub @ sys_publishers y\<rparr>)"
| sys_read: "coordinator_snapshot (sys_coordinator y) = (r, c) \<Longrightarrow>
    system_step y (y\<lparr>sys_coordinator := c\<rparr>)"
| sys_publish_stale: "sys_publishers y = ps @ Publishing r # qs \<Longrightarrow> r \<le> sig_revision (sys_signal y) \<Longrightarrow>
    system_step y (y\<lparr>sys_publishers := ps @ qs\<rparr>)"
| sys_publish: "sys_publishers y = ps @ Publishing r # qs \<Longrightarrow> sig_revision (sys_signal y) < r \<Longrightarrow>
    system_step y (set_signal ((sys_signal y)\<lparr>sig_revision := r\<rparr>)
      (y\<lparr>sys_publishers := ps @ Waking Role_Worker # qs\<rparr>))"
| sys_wake_worker: "sys_publishers y = ps @ Waking Role_Worker # qs \<Longrightarrow>
    system_step y (set_signal ((sys_signal y)\<lparr>sig_worker := wake (sig_worker (sys_signal y))\<rparr>)
      (y\<lparr>sys_publishers := ps @ Waking Role_Projector # qs\<rparr>))"
| sys_wake_projector: "sys_publishers y = ps @ Waking Role_Projector # qs \<Longrightarrow>
    system_step y (set_signal
      ((sys_signal y)\<lparr>sig_projector := wake (sig_projector (sys_signal y))\<rparr>)
      (y\<lparr>sys_publishers := ps @ qs\<rparr>))"
| sys_replace_projector: "replace_projector (sys_signal y) = (r, sig) \<Longrightarrow>
    system_step y (set_signal sig y)"
| sys_subscribe: "subscribe_worker w (sys_coordinator y) = (Inr sub, c) \<Longrightarrow>
    system_step y (y\<lparr>sys_coordinator := c, sys_subscribers :=
      \<lparr>sbr_subscription = sub, sbr_waiting = False\<rparr> # sys_subscribers y\<rparr>)"
| sys_recv_return: "sys_subscribers y = ps @ b # qs \<Longrightarrow> \<not> sbr_waiting b \<Longrightarrow>
    recv_turn (sys_signal y) (sbr_subscription b) = Some (r, sub) \<Longrightarrow>
    system_step y (y\<lparr>sys_subscribers := ps @ b\<lparr>sbr_subscription := sub\<rparr> # qs\<rparr>)"
| sys_recv_wait: "sys_subscribers y = ps @ b # qs \<Longrightarrow> \<not> sbr_waiting b \<Longrightarrow>
    recv_turn (sys_signal y) (sbr_subscription b) = None \<Longrightarrow>
    system_step y (y\<lparr>sys_subscribers := ps @ b\<lparr>sbr_waiting := True\<rparr> # qs\<rparr>)"
| sys_recv_token: "sys_subscribers y = ps @ b # qs \<Longrightarrow> sbr_waiting b \<Longrightarrow>
    is_current (sub_fence (sbr_subscription b)) (sys_signal y) \<Longrightarrow> token_pending (sys_signal y) \<Longrightarrow>
    system_step y (set_signal (take_token (sys_signal y))
      (y\<lparr>sys_subscribers := ps @ b\<lparr>sbr_waiting := False\<rparr> # qs\<rparr>))"
| sys_recv_revoked: "sys_subscribers y = ps @ b # qs \<Longrightarrow> sbr_waiting b \<Longrightarrow>
    \<not> is_current (sub_fence (sbr_subscription b)) (sys_signal y) \<Longrightarrow>
    system_step y (y\<lparr>sys_subscribers := ps @ b\<lparr>sbr_waiting := False\<rparr> # qs\<rparr>)"
| sys_drop: "sys_subscribers y = ps @ b # qs \<Longrightarrow> \<not> sbr_waiting b \<Longrightarrow>
    system_step y (set_signal (drop_subscription (sbr_subscription b) (sys_signal y))
      (y\<lparr>sys_subscribers := ps @ qs\<rparr>))"

definition publication_ok :: "recovery_system \<Rightarrow> bool" where
  "publication_ok y \<longleftrightarrow>
     sig_revision (sys_signal y) \<le> sm_revision (sys_model y)
     \<and> (\<forall>r. Publishing r \<in> set (sys_publishers y) \<longrightarrow> r \<le> sm_revision (sys_model y))
     \<and> (sig_revision (sys_signal y) < sm_revision (sys_model y) \<longrightarrow>
          Publishing (sm_revision (sys_model y)) \<in> set (sys_publishers y))"

definition worker_target_ok :: "recovery_system \<Rightarrow> bool" where
  "worker_target_ok y \<longleftrightarrow>
     map_option wt_generation (sig_worker (sys_signal y)) = sm_active_worker (sys_model y)"

definition cache_ok :: "recovery_system \<Rightarrow> bool" where
  "cache_ok y \<longleftrightarrow>
     (\<exists>s. cs_snapshot (crd_state (sys_coordinator y)) = snapshot s
        \<and> reach recovery_init recovery_step s \<and> recovery_step\<^sup>*\<^sup>* s (sys_model y))"

definition current_subscriber :: "recovery_system \<Rightarrow> subscriber \<Rightarrow> bool" where
  "current_subscriber y b = is_current (sub_fence (sbr_subscription b)) (sys_signal y)"

definition subscribers_ok :: "recovery_system \<Rightarrow> bool" where
  "subscribers_ok y \<longleftrightarrow>
     distinct (map (\<lambda>b. sub_fence (sbr_subscription b)) (sys_subscribers y))
     \<and> (\<forall>b \<in> set (sys_subscribers y).
          (\<exists>w. sub_fence (sbr_subscription b) = Fence_Worker w
             \<and> own_worker_id w < sm_next_worker_id (sys_model y))
          \<and> (current_subscriber y b \<longrightarrow> (\<exists>t. sig_worker (sys_signal y) = Some t \<and> wt_claimed t)))"

definition wakes_ok :: "recovery_system \<Rightarrow> bool" where
  "wakes_ok y \<longleftrightarrow>
     (\<forall>b \<in> set (sys_subscribers y).
        sbr_waiting b \<longrightarrow> current_subscriber y b \<longrightarrow> \<not> token_pending (sys_signal y) \<longrightarrow>
        sig_revision (sys_signal y) \<le> sub_last_seen (sbr_subscription b)
        \<or> Waking Role_Worker \<in> set (sys_publishers y))"

definition system_ok :: "recovery_system \<Rightarrow> bool" where
  "system_ok y \<longleftrightarrow>
     reach recovery_init recovery_step (sys_model y)
     \<and> publication_ok y \<and> worker_target_ok y \<and> cache_ok y \<and> subscribers_ok y \<and> wakes_ok y"

text \<open>What a critical section may do to the coordinator, and a model step that keeps the worker.\<close>

definition quiet_step :: "RecoveryStateMachine \<Rightarrow> RecoveryStateMachine \<Rightarrow> bool" where
  "quiet_step s t \<longleftrightarrow> recovery_step\<^sup>=\<^sup>= s t \<and> sm_active_worker t = sm_active_worker s"

definition section_ok ::
  "WatcherRecoveryCoordinator \<Rightarrow> RecoveryRevision option \<Rightarrow> WatcherRecoveryCoordinator \<Rightarrow> bool" where
  "section_ok c pub c' \<longleftrightarrow>
     cs_snapshot (crd_state c') = cs_snapshot (crd_state c)
     \<and> recovery_step\<^sup>=\<^sup>= (cs_model (crd_state c)) (cs_model (crd_state c'))
     \<and> sig_revision (crd_signal c') = sig_revision (crd_signal c)
     \<and> pub = (if sm_revision (cs_model (crd_state c')) = sm_revision (cs_model (crd_state c))
              then None else Some (sm_revision (cs_model (crd_state c'))))"

section \<open>What a critical section does to the model\<close>

lemma recovery_stepI: "t = apply_op op s \<Longrightarrow> recovery_step s t"
  by (simp add: recovery_step.intros)

lemma op_steps:
  "recovery_step s (snd (replace_worker m s))"
  "recovery_step s (snd (worker_exited w m s))"
  "recovery_step s (snd (start_attempt m s))"
  "recovery_step s (snd (record_native_boundary t h m s))"
  "recovery_step s (snd (record_scan_started t m s))"
  "recovery_step s (snd (record_scan_completed t v m s))"
  "recovery_step s (snd (offer_close offer m s))"
  "recovery_step s (snd (reject_native_close t m s))"
  "recovery_step s (snd (record_dependency_failure t f m s))"
  "recovery_step s (snd (retry_if_due m s))"
  "recovery_step s (snd (restore_matching_authority f m s))"
  "recovery_step s (snd (observe_activity m s))"
  "recovery_step s (snd (observe_suppressed m s))"
  "recovery_step s (snd (observe_loss c m s))"
  by (rule recovery_stepI, rule apply_op.simps[symmetric])+

lemma active_worker_frame [simp]:
  "sm_active_worker (commit t r s) = sm_active_worker s"
  "sm_active_worker (terminal_block c m s) = sm_active_worker s"
  by (simp_all add: commit_def terminal_block_def Let_def split: option.split)

lemma open_incident_worker:
  "sm_active_worker (snd (open_incident c m r s)) = sm_active_worker s"
  by (auto simp: open_incident_def Let_def split: IdAllocation.split prod.split sum.split)

lemma next_revision_worker:
  "next_revision_or_block m s = (x, t) \<Longrightarrow> sm_active_worker t = sm_active_worker s"
  by (auto simp: next_revision_or_block_def split: option.splits)

lemma worker_frame:
  "sm_active_worker (snd (start_attempt m s)) = sm_active_worker s"
  "sm_active_worker (snd (record_native_boundary t h m s)) = sm_active_worker s"
  "sm_active_worker (snd (record_scan_started t m s)) = sm_active_worker s"
  "sm_active_worker (snd (record_scan_completed t v m s)) = sm_active_worker s"
  "sm_active_worker (snd (offer_close offer m s)) = sm_active_worker s"
  "sm_active_worker (snd (reject_native_close t m s)) = sm_active_worker s"
  "sm_active_worker (snd (record_dependency_failure t f m s)) = sm_active_worker s"
  "sm_active_worker (snd (retry_if_due m s)) = sm_active_worker s"
  "sm_active_worker (snd (restore_authority m s)) = sm_active_worker s"
  "sm_active_worker (snd (observe_activity m s)) = sm_active_worker s"
  by (simp_all add: start_attempt_def record_native_boundary_def record_scan_started_def
      begin_authoritative_scan_def record_scan_completed_def complete_authoritative_scan_def
      offer_close_def reject_native_close_def record_dependency_failure_def retry_if_due_def
      restore_authority_def observe_activity_def next_revision_or_block_def Let_def
      block_for_exhaustion_def split: option.split sum.split IdAllocation.split prod.split)

lemma worker_frame_loss:
  "sm_active_worker (snd (restore_matching_authority f m s)) = sm_active_worker s"
  "sm_active_worker (snd (observe_loss c m s)) = sm_active_worker s"
  by (simp_all add: restore_matching_authority_def worker_frame observe_loss_def
      next_revision_or_block_def open_incident_worker split: option.split sum.split)

lemma worker_frame_suppressed:
  "sm_active_worker (snd (observe_suppressed m s)) = sm_active_worker s"
proof -
  have "sm_active_worker t = sm_active_worker s'" if "open_incident c m r s' = (x, t)" for c r s' x t
    using open_incident_worker[of c m r s'] that by simp
  then show ?thesis
    by (auto simp: observe_suppressed_def next_revision_or_block_def split: option.split sum.split prod.split)
qed

lemma quiet_ops:
  "quiet_step s (snd (start_attempt m s))"
  "quiet_step s (snd (record_native_boundary t h m s))"
  "quiet_step s (snd (record_scan_started t m s))"
  "quiet_step s (snd (record_scan_completed t v m s))"
  "quiet_step s (snd (offer_close offer m s))"
  "quiet_step s (snd (reject_native_close t m s))"
  "quiet_step s (snd (record_dependency_failure t f m s))"
  "quiet_step s (snd (retry_if_due m s))"
  "quiet_step s (snd (restore_matching_authority f m s))"
  "quiet_step s (snd (observe_activity m s))"
  "quiet_step s (snd (observe_suppressed m s))"
  "quiet_step s (snd (observe_loss c m s))"
  by (simp_all add: quiet_step_def op_steps worker_frame worker_frame_loss worker_frame_suppressed)

lemma with_worker_quiet:
  "quiet_step s (snd (f s)) \<Longrightarrow> quiet_step s (snd (with_worker w f s))"
  by (simp add: with_worker_def quiet_step_def split: sum.split)

lemma offer_close_by_quiet: "quiet_step s (snd (offer_close_by g w t v m s))"
  using quiet_ops(5,6)
  by (auto simp: offer_close_by_def with_worker_def Let_def quiet_step_def
      split: sum.split option.split)

lemma mutate_section:
  assumes "quiet_step (cs_model (crd_state c)) (snd (f (cs_model (crd_state c))))"
    and "section_effect (mutate_locked f c) = (pub, c')"
  shows "section_ok c pub c'
    \<and> crd_signal c' = crd_signal c
    \<and> sm_active_worker (cs_model (crd_state c')) = sm_active_worker (cs_model (crd_state c))"
  using assms
  by (auto simp: section_ok_def section_effect_def mutate_locked_def Let_def quiet_step_def
      split: prod.splits if_splits)

lemma revoke_worker_revision [simp]: "sig_revision (revoke_worker w sig) = sig_revision sig"
  by (simp add: revoke_worker_def split: option.split)

lemma install_worker_revision [simp]: "sig_revision (install_worker w sig) = sig_revision sig"
  by (simp add: install_worker_def)

lemma replace_worker_locked_effect:
  assumes "section_effect (replace_worker_locked m c) = (pub, c')"
  shows "section_ok c pub c'"
  using assms op_steps(1)[of "cs_model (crd_state c)" m]
  by (auto simp: section_ok_def section_effect_def replace_worker_locked_def Let_def
      split: prod.splits if_splits sum.splits option.splits)

lemma worker_exited_locked_effect:
  assumes "section_effect (worker_exited_locked w m c) = (pub, c')"
  shows "section_ok c pub c'"
  using assms op_steps(2)[of "cs_model (crd_state c)" w m]
  by (auto simp: section_ok_def section_effect_def worker_exited_locked_def Let_def
      split: prod.splits if_splits sum.splits)

text \<open>Every section that is not one of the two worker changes leaves the worker and its target.\<close>

lemma critical_cases:
  assumes "critical call c = (pub, c')"
  obtains (replace) m where "call = Call_replace_worker m" "section_effect (replace_worker_locked m c) = (pub, c')"
    | (exited) w m where "call = Call_worker_exited w m" "section_effect (worker_exited_locked w m c) = (pub, c')"
    | (quiet) "section_ok c pub c'" "crd_signal c' = crd_signal c"
        "sm_active_worker (cs_model (crd_state c')) = sm_active_worker (cs_model (crd_state c))"
proof (cases "(\<exists>m. call = Call_replace_worker m) \<or> (\<exists>w m. call = Call_worker_exited w m)")
  case True
  then show ?thesis using assms replace exited by auto
next
  case False
  with assms have "section_ok c pub c' \<and> crd_signal c' = crd_signal c
    \<and> sm_active_worker (cs_model (crd_state c')) = sm_active_worker (cs_model (crd_state c))"
    by (cases call; simp only: critical.simps coordinator_call.simps)
      ((erule mutate_section[rotated];
        (rule quiet_ops offer_close_by_quiet | (rule with_worker_quiet, rule quiet_ops))) | blast)+
  then show ?thesis using quiet by blast
qed

lemma critical_ok: "critical call c = (pub, c') \<Longrightarrow> section_ok c pub c'"
  by (erule critical_cases)
    (auto intro: replace_worker_locked_effect worker_exited_locked_effect)

section \<open>The invariant of the system\<close>

lemma reach_step_refl:
  "reach recovery_init recovery_step s \<Longrightarrow> recovery_step\<^sup>=\<^sup>= s t \<Longrightarrow> reach recovery_init recovery_step t"
  by (auto intro: reach_step)

lemma step_revision:
  assumes "reach recovery_init recovery_step s" and "recovery_step\<^sup>=\<^sup>= s t"
  shows "evolves s t"
  using assms recovery.reach_inv[OF assms(1)]
  by (auto elim!: recovery_step.cases intro: evolves_apply_op)

lemma replace_worker_target:
  assumes "reach recovery_init recovery_step (cs_model (crd_state c))"
    and "section_effect (replace_worker_locked m c) = (pub, c')"
    and "map_option wt_generation (sig_worker (crd_signal c)) = sm_active_worker (cs_model (crd_state c))"
  shows "map_option wt_generation (sig_worker (crd_signal c')) = sm_active_worker (cs_model (crd_state c'))
    \<and> (crd_signal c' = crd_signal c
       \<or> sig_worker (crd_signal c') = Some (wake_target (sm_next_worker_id (cs_model (crd_state c)))))"
proof -
  let ?s = "cs_model (crd_state c)"
  have ids: "0 < sm_next_worker_id ?s" "sm_next_worker_id ?s \<noteq> u64_MAX"
    using recovery.reach_inv[OF assms(1)] ids_available(1)[OF assms(1)]
    by (simp_all add: sm_ok_def ids_ok_def)
  with assms(2,3) show ?thesis
    by (auto simp: section_effect_def replace_worker_locked_def replace_worker_def
        next_revision_or_block_def allocate_def prefixed_id_new_def Let_def install_worker_def
        wake_target_def current_worker_ownership_def
        split: if_splits option.splits)
qed

lemma worker_exited_target:
  assumes "reach recovery_init recovery_step (cs_model (crd_state c))"
    and "section_effect (worker_exited_locked w m c) = (pub, c')"
    and "map_option wt_generation (sig_worker (crd_signal c)) = sm_active_worker (cs_model (crd_state c))"
  shows "map_option wt_generation (sig_worker (crd_signal c')) = sm_active_worker (cs_model (crd_state c'))
    \<and> (crd_signal c' = crd_signal c \<or> sig_worker (crd_signal c') = None)"
proof -
  let ?s = "cs_model (crd_state c)"
  have "ids_ok (?s\<lparr>sm_active_worker := None\<rparr>)"
    using recovery.reach_inv[OF assms(1)] by (simp add: sm_ok_def)
  with ids_available(3)[OF assms(1)] assms(2,3) show ?thesis
    by (auto simp: section_effect_def worker_exited_locked_def worker_exited_def require_worker_def
        next_revision_or_block_def open_incident_eq Let_def revoke_worker_def
        split: if_splits option.splits)
qed

lemma set_signal_simps [simp]:
  "sys_signal (set_signal sig y) = sig"
  "sys_model (set_signal sig y) = sys_model y"
  "sys_publishers (set_signal sig y) = sys_publishers y"
  "sys_subscribers (set_signal sig y) = sys_subscribers y"
  "cs_snapshot (crd_state (sys_coordinator (set_signal sig y))) =
     cs_snapshot (crd_state (sys_coordinator y))"
  by (simp_all add: set_signal_def sys_signal_def sys_model_def)

lemma sys_frame_simps [simp]:
  "sys_signal (y\<lparr>sys_publishers := ps\<rparr>) = sys_signal y"
  "sys_signal (y\<lparr>sys_subscribers := bs\<rparr>) = sys_signal y"
  "sys_model (y\<lparr>sys_publishers := ps\<rparr>) = sys_model y"
  "sys_model (y\<lparr>sys_subscribers := bs\<rparr>) = sys_model y"
  by (simp_all add: sys_signal_def sys_model_def)

lemma current_subscriber_worker:
  "sub_fence (sbr_subscription b) = Fence_Worker w \<Longrightarrow>
   current_subscriber y b = target_has_generation (sig_worker (sys_signal y)) (own_worker_id w)"
  by (simp add: current_subscriber_def)

lemma subscribers_ok_worker:
  assumes "subscribers_ok y" and "b \<in> set (sys_subscribers y)"
  obtains w where "sub_fence (sbr_subscription b) = Fence_Worker w"
    "own_worker_id w < sm_next_worker_id (sys_model y)"
  using assms by (auto simp: subscribers_ok_def)

text \<open>A section that installs a fresh target or removes it leaves no subscriber current.\<close>

lemma fresh_target_not_current:
  assumes "subscribers_ok y" and "b \<in> set (sys_subscribers y)"
    and "sig_worker (sys_signal z) = None \<or>
      sig_worker (sys_signal z) = Some (wake_target (sm_next_worker_id (sys_model y)))"
  shows "\<not> current_subscriber z b"
proof -
  obtain w where "sub_fence (sbr_subscription b) = Fence_Worker w"
    "own_worker_id w < sm_next_worker_id (sys_model y)"
    using subscribers_ok_worker[OF assms(1,2)] .
  with assms(3) show ?thesis
    by (auto simp: current_subscriber_def target_has_generation_def wake_target_def)
qed

lemma system_ok_call:
  assumes ok: "system_ok y" and crit: "critical call (sys_coordinator y) = (pub, c)"
    and z: "z = y\<lparr>sys_coordinator := c, sys_publishers := new_publisher pub @ sys_publishers y\<rparr>"
  shows "system_ok z"
proof -
  let ?s = "sys_model y" and ?t = "sys_model z"
  have reach: "reach recovery_init recovery_step ?s"
    and tgt: "map_option wt_generation (sig_worker (sys_signal y)) = sm_active_worker ?s"
    using ok by (simp_all add: system_ok_def worker_target_ok_def)
  have sec: "section_ok (sys_coordinator y) pub c" using crit by (rule critical_ok)
  then have step: "recovery_step\<^sup>=\<^sup>= ?s ?t" and rev: "sig_revision (sys_signal z) = sig_revision (sys_signal y)"
    and pub: "pub = (if sm_revision ?t = sm_revision ?s then None else Some (sm_revision ?t))"
    and snap: "cs_snapshot (crd_state (sys_coordinator z)) = cs_snapshot (crd_state (sys_coordinator y))"
    by (simp_all add: z section_ok_def sys_model_def sys_signal_def)
  have evo: "evolves ?s ?t" using step_revision[OF reach step] .
  have r: "reach recovery_init recovery_step ?t" using reach_step_refl[OF reach step] .
  have target: "map_option wt_generation (sig_worker (sys_signal z)) = sm_active_worker ?t
      \<and> (sys_signal z = sys_signal y \<or> sig_worker (sys_signal z) = None
         \<or> sig_worker (sys_signal z) = Some (wake_target (sm_next_worker_id ?s)))"
    using crit
  proof (cases rule: critical_cases)
    case (replace m)
    from replace_worker_target[OF _ replace(2)] reach tgt show ?thesis
      by (auto simp: z sys_model_def sys_signal_def)
  next
    case (exited w m)
    from worker_exited_target[OF _ exited(2)] reach tgt show ?thesis
      by (auto simp: z sys_model_def sys_signal_def)
  next
    case quiet
    with tgt show ?thesis by (simp add: z sys_model_def sys_signal_def)
  qed
  have subs: "sys_subscribers z = sys_subscribers y" by (simp add: z)
  have pubs: "sys_publishers z = new_publisher pub @ sys_publishers y" by (simp add: z)
  have same: "sys_signal z = sys_signal y" if "b \<in> set (sys_subscribers y)" "current_subscriber z b" for b
    using target fresh_target_not_current[of y b z] that ok by (auto simp: system_ok_def)
  have "publication_ok z"
  proof (cases "sm_revision ?t = sm_revision ?s")
    case True
    then have "pub = None" using pub by simp
    with ok True show ?thesis
      unfolding system_ok_def publication_ok_def rev pubs True by (simp add: new_publisher_def)
  next
    case False
    then have p: "new_publisher pub = [Publishing (sm_revision ?t)]"
      using pub by (simp add: new_publisher_def)
    have "sm_revision ?s \<le> sm_revision ?t" using evo by (simp add: evolves_def)
    with ok show ?thesis
      unfolding system_ok_def publication_ok_def rev pubs p by (auto intro: order_trans)
  qed
  moreover have "worker_target_ok z" using target by (simp add: worker_target_ok_def)
  moreover have "cache_ok z"
    using ok step unfolding system_ok_def cache_ok_def snap
    by (auto intro: rtranclp.rtrancl_into_rtrancl)
  moreover have "subscribers_ok z"
    unfolding subscribers_ok_def subs
  proof (intro conjI ballI)
    have old: "subscribers_ok y" using ok by (simp add: system_ok_def)
    then show "distinct (map (\<lambda>b. sub_fence (sbr_subscription b)) (sys_subscribers y))"
      by (simp add: subscribers_ok_def)
    fix b assume b: "b \<in> set (sys_subscribers y)"
    obtain w where "sub_fence (sbr_subscription b) = Fence_Worker w"
      "own_worker_id w < sm_next_worker_id ?s"
      using subscribers_ok_worker[OF old b] .
    moreover have "sm_next_worker_id ?s \<le> sm_next_worker_id ?t" using evo by (simp add: evolves_def)
    ultimately show "\<exists>w. sub_fence (sbr_subscription b) = Fence_Worker w \<and> own_worker_id w < sm_next_worker_id ?t"
      by auto
    show "current_subscriber z b \<longrightarrow> (\<exists>t. sig_worker (sys_signal z) = Some t \<and> wt_claimed t)"
      using same[OF b] old b by (auto simp: subscribers_ok_def current_subscriber_def)
  qed
  moreover have "wakes_ok z"
    unfolding wakes_ok_def subs
  proof (intro ballI impI)
    fix b assume b: "b \<in> set (sys_subscribers y)" "sbr_waiting b" "current_subscriber z b"
      "\<not> token_pending (sys_signal z)"
    with same[OF b(1,3)] have "sig_revision (sys_signal y) \<le> sub_last_seen (sbr_subscription b)
        \<or> Waking Role_Worker \<in> set (sys_publishers y)"
      using ok by (auto simp: system_ok_def wakes_ok_def current_subscriber_def)
    then show "sig_revision (sys_signal z) \<le> sub_last_seen (sbr_subscription b)
        \<or> Waking Role_Worker \<in> set (sys_publishers z)"
      unfolding rev pubs by auto
  qed
  ultimately show ?thesis using r by (simp add: system_ok_def)
qed

lemma materialized:
  assumes "materialize_snapshot st = (snap, st')"
  shows "cs_model st' = cs_model st \<and> cs_snapshot st' = snap
    \<and> (snap = snapshot (cs_model st)
       \<or> snap = cs_snapshot st \<and> rsn_snapshot_revision snap = sm_revision (cs_model st))"
  using assms by (auto simp: materialize_snapshot_def Let_def split: if_splits)

lemma system_ok_snapshot:
  assumes ok: "system_ok y" and "materialize_snapshot (crd_state (sys_coordinator y)) = (snap, st)"
    and z: "z = y\<lparr>sys_coordinator := (sys_coordinator y)\<lparr>crd_state := st\<rparr>\<rparr>"
  shows "system_ok z"
proof -
  have m: "cs_model st = sys_model y" "cs_snapshot st = snapshot (sys_model y)
      \<or> cs_snapshot st = cs_snapshot (crd_state (sys_coordinator y))"
    using materialized[OF assms(2)] by (auto simp: sys_model_def)
  have f: "sys_model z = sys_model y" "sys_signal z = sys_signal y"
    "sys_publishers z = sys_publishers y" "sys_subscribers z = sys_subscribers y"
    "cs_snapshot (crd_state (sys_coordinator z)) = cs_snapshot st"
    using m by (simp_all add: z sys_model_def sys_signal_def)
  have "cache_ok z" using ok m unfolding system_ok_def cache_ok_def f by auto
  with ok show ?thesis
    unfolding system_ok_def publication_ok_def worker_target_ok_def subscribers_ok_def wakes_ok_def
      current_subscriber_def f by blast
qed

text \<open>Steps that leave the model alone: what is left to show of the signal, publishers and subscribers.\<close>

lemma system_okI:
  assumes "system_ok y" and "sys_model z = sys_model y"
    and "cs_snapshot (crd_state (sys_coordinator z)) = cs_snapshot (crd_state (sys_coordinator y))"
    and "map_option wt_generation (sig_worker (sys_signal z)) =
      map_option wt_generation (sig_worker (sys_signal y))"
    and "publication_ok z" and "subscribers_ok z" and "wakes_ok z"
  shows "system_ok z"
  using assms by (simp add: system_ok_def worker_target_ok_def cache_ok_def)

lemma current_same_target:
  assumes "subscribers_ok y" and "b \<in> set (sys_subscribers y)"
    and "sig_worker (sys_signal z) = sig_worker (sys_signal y)"
  shows "current_subscriber z b = current_subscriber y b"
proof -
  obtain w where "sub_fence (sbr_subscription b) = Fence_Worker w"
    using subscribers_ok_worker[OF assms(1,2)] .
  then show ?thesis using assms(3) by (simp add: current_subscriber_def)
qed

text \<open>Steps that change neither the worker target nor the subscribers.\<close>

lemma system_ok_frame:
  assumes ok: "system_ok y" and f: "sys_model z = sys_model y"
    "cs_snapshot (crd_state (sys_coordinator z)) = cs_snapshot (crd_state (sys_coordinator y))"
    "sys_subscribers z = sys_subscribers y"
    "sig_worker (sys_signal z) = sig_worker (sys_signal y)"
    "sig_revision (sys_signal z) = sig_revision (sys_signal y)"
    and "publication_ok z"
    and "Waking Role_Worker \<in> set (sys_publishers y) \<Longrightarrow> Waking Role_Worker \<in> set (sys_publishers z)"
  shows "system_ok z"
proof (rule system_okI[OF ok])
  have s: "subscribers_ok y" "wakes_ok y" using ok by (simp_all add: system_ok_def)
  note cur = current_same_target[OF s(1) _ f(4)]
  show "subscribers_ok z"
    using s(1) unfolding subscribers_ok_def f by (auto simp: cur)
  have "token_pending (sys_signal z) = token_pending (sys_signal y)"
    by (simp add: token_pending_def f)
  with s(2) cur assms(8) show "wakes_ok z"
    unfolding wakes_ok_def f by blast
qed (use assms in simp_all)

lemma replace_projector_frame:
  "replace_projector sig = (r, sig') \<Longrightarrow>
   sig_worker sig' = sig_worker sig \<and> sig_revision sig' = sig_revision sig"
  by (auto simp: replace_projector_def Let_def split: option.splits sum.splits)

lemma wake_fields [simp]:
  "map_option wt_generation (wake t) = map_option wt_generation t"
  "(wake t = None) = (t = None)"
  by (auto simp: wake_def option.map_comp comp_def)

lemma system_ok_publish:
  assumes ok: "system_ok y" and pubs: "sys_publishers y = ps @ Publishing r # qs"
    and z: "z = set_signal ((sys_signal y)\<lparr>sig_revision := r\<rparr>)
      (y\<lparr>sys_publishers := ps @ Waking Role_Worker # qs\<rparr>)" and new: "sig_revision (sys_signal y) < r"
  shows "system_ok z"
proof (rule system_okI[OF ok])
  have p: "publication_ok y" "subscribers_ok y" using ok by (simp_all add: system_ok_def)
  have r: "r \<le> sm_revision (sys_model y)" using p pubs by (simp add: publication_ok_def)
  show "publication_ok z"
    using p r pubs new by (auto simp: z publication_ok_def)
  show "subscribers_ok z" using p
    by (auto simp: z subscribers_ok_def current_subscriber_def)
  show "wakes_ok z" by (simp add: z wakes_ok_def)
qed (simp_all add: z)

lemma system_ok_wake_worker:
  assumes ok: "system_ok y" and pubs: "sys_publishers y = ps @ Waking Role_Worker # qs"
    and z: "z = set_signal ((sys_signal y)\<lparr>sig_worker := wake (sig_worker (sys_signal y))\<rparr>)
      (y\<lparr>sys_publishers := ps @ Waking Role_Projector # qs\<rparr>)"
  shows "system_ok z"
proof (rule system_okI[OF ok])
  have p: "publication_ok y" "subscribers_ok y" using ok by (simp_all add: system_ok_def)
  show "publication_ok z" using p pubs by (auto simp: z publication_ok_def)
  show "subscribers_ok z" using p
    by (auto simp: z subscribers_ok_def current_subscriber_def wake_def target_has_generation_def
        split: option.splits)
  show "wakes_ok z" 
    using p by (auto simp: z wakes_ok_def subscribers_ok_def current_subscriber_def token_pending_def
       wake_def target_has_generation_def split: option.splits)
qed (simp_all add: z)

text \<open>A step of one subscriber that keeps its fence.\<close>

lemma subscribers_ok_update:
  assumes s: "subscribers_ok y" and subs: "sys_subscribers y = ps @ b # qs"
    and z: "sys_subscribers z = ps @ b' # qs" "sys_model z = sys_model y"
    and tgt: "map_option (\<lambda>t. (wt_generation t, wt_claimed t)) (sig_worker (sys_signal z)) =
      map_option (\<lambda>t. (wt_generation t, wt_claimed t)) (sig_worker (sys_signal y))"
    and b': "sub_fence (sbr_subscription b') = sub_fence (sbr_subscription b)"
  shows "subscribers_ok z"
proof -
  have tgt': "target_has_generation (sig_worker (sys_signal z)) g =
        target_has_generation (sig_worker (sys_signal y)) g"
      "(\<exists>t. sig_worker (sys_signal z) = Some t \<and> wt_claimed t) =
       (\<exists>t. sig_worker (sys_signal y) = Some t \<and> wt_claimed t)" for g
    using tgt by (cases "sig_worker (sys_signal z)"; cases "sig_worker (sys_signal y)";
        auto simp: target_has_generation_def)+
  have cur: "is_current (sub_fence (sbr_subscription b2)) (sys_signal z) =
      is_current (sub_fence (sbr_subscription b2)) (sys_signal y)"
    if b2: "b2 \<in> set (sys_subscribers y)" for b2
  proof -
    obtain w where "sub_fence (sbr_subscription b2) = Fence_Worker w"
      using subscribers_ok_worker[OF s b2] .
    then show ?thesis by (simp add: tgt')
  qed
  show ?thesis
    unfolding subscribers_ok_def
  proof (intro conjI ballI)
    show "distinct (map (\<lambda>b. sub_fence (sbr_subscription b)) (sys_subscribers z))"
      using s by (simp add: subscribers_ok_def subs z b')
    fix b1 assume "b1 \<in> set (sys_subscribers z)"
    then obtain b2 where b2: "b2 \<in> set (sys_subscribers y)"
        "sub_fence (sbr_subscription b1) = sub_fence (sbr_subscription b2)"
      using b' by (auto simp: subs z)
    then show "\<exists>w. sub_fence (sbr_subscription b1) = Fence_Worker w
        \<and> own_worker_id w < sm_next_worker_id (sys_model z)"
      using subscribers_ok_worker[OF s b2(1)] z(2) by metis
    show "current_subscriber z b1 \<longrightarrow> (\<exists>t. sig_worker (sys_signal z) = Some t \<and> wt_claimed t)"
      using s b2 cur[OF b2(1)] by (simp add: subscribers_ok_def current_subscriber_def tgt'(2))
  qed
qed

lemma system_ok_subscriber:
  assumes ok: "system_ok y" and subs: "sys_subscribers y = ps @ b # qs"
    and z: "z = y\<lparr>sys_subscribers := ps @ b' # qs\<rparr>"
    and b': "sub_fence (sbr_subscription b') = sub_fence (sbr_subscription b)"
    and w: "sbr_waiting b' \<Longrightarrow> sig_revision (sys_signal y) \<le> sub_last_seen (sbr_subscription b')"
  shows "system_ok z"
proof (rule system_okI[OF ok])
  show "subscribers_ok z"
  proof (rule subscribers_ok_update[OF _ subs])
    show "subscribers_ok y" using ok by (simp add: system_ok_def)
    show "sys_subscribers z = ps @ b' # qs" by (simp add: z)
  qed (use b' in \<open>simp_all add: z\<close>)
  show "wakes_ok z"
    unfolding wakes_ok_def
  proof (intro ballI impI)
    fix x assume x: "x \<in> set (sys_subscribers z)" "sbr_waiting x" "current_subscriber z x"
      "\<not> token_pending (sys_signal z)"
    show "sig_revision (sys_signal z) \<le> sub_last_seen (sbr_subscription x)
        \<or> Waking Role_Worker \<in> set (sys_publishers z)"
    proof (cases "x = b'")
      case True
      then show ?thesis using w x by (simp add: z)
    next
      case False
      then have "x \<in> set (sys_subscribers y)" using x by (auto simp: z subs)
      with ok x show ?thesis
        by (auto simp: system_ok_def wakes_ok_def current_subscriber_def z)
    qed
  qed
  show "publication_ok z" using ok by (simp add: system_ok_def publication_ok_def z)
qed (simp_all add: z)

lemma recv_turn_return:
  "recv_turn sig sub = Some (r, sub') \<Longrightarrow> sub_fence sub' = sub_fence sub"
  by (auto simp: recv_turn_def admit_revision_def Let_def split: sum.splits if_splits)

lemma recv_turn_wait: "recv_turn sig sub = None \<Longrightarrow> sig_revision sig \<le> sub_last_seen sub"
  by (auto simp: recv_turn_def Let_def split: sum.splits if_splits)

lemma system_ok_token:
  assumes ok: "system_ok y" and subs: "sys_subscribers y = ps @ b # qs"
    and cur: "is_current (sub_fence (sbr_subscription b)) (sys_signal y)"
    and z: "z = set_signal (take_token (sys_signal y))
      (y\<lparr>sys_subscribers := ps @ b\<lparr>sbr_waiting := False\<rparr> # qs\<rparr>)"
  shows "system_ok z"
proof (rule system_okI[OF ok])
  have s: "subscribers_ok y" using ok by (simp add: system_ok_def)
  show "subscribers_ok z"
    by (rule subscribers_ok_update[OF s subs, where b' = "b\<lparr>sbr_waiting := False\<rparr>"])
      (simp_all add: z take_token_def option.map_comp comp_def)
  have others: "\<not> current_subscriber z b2" if b2: "b2 \<in> set ps \<union> set qs" for b2
  proof -
    have in_y: "b \<in> set (sys_subscribers y)" "b2 \<in> set (sys_subscribers y)" using subs b2 by auto
    obtain w w2 where "sub_fence (sbr_subscription b) = Fence_Worker w"
        "sub_fence (sbr_subscription b2) = Fence_Worker w2"
      using subscribers_ok_worker[OF s in_y(1)] subscribers_ok_worker[OF s in_y(2)] by metis
    moreover have "sub_fence (sbr_subscription b2) \<noteq> sub_fence (sbr_subscription b)"
      using s b2 image_eqI[of _ "\<lambda>b. sub_fence (sbr_subscription b)" b2]
      unfolding subscribers_ok_def subs by fastforce
    ultimately show ?thesis
      using cur by (auto simp: z current_subscriber_def target_has_generation_def take_token_def
          split: option.splits)
  qed
  show "wakes_ok z" using others by (auto simp: wakes_ok_def z)
  show "publication_ok z"
    using ok by (simp add: system_ok_def publication_ok_def z take_token_def)
qed (simp_all add: z take_token_def option.map_comp comp_def)

lemma release_target_generation [simp]:
  "map_option wt_generation (release_target g t) = map_option wt_generation t"
  "target_has_generation (release_target g t) h = target_has_generation t h"
  by (auto simp: release_target_def target_has_generation_def split: option.split)

lemma distinct_fence:
  assumes "subscribers_ok y" and "sys_subscribers y = ps @ b # qs" and "b2 \<in> set ps \<union> set qs"
  shows "sub_fence (sbr_subscription b2) \<noteq> sub_fence (sbr_subscription b)"
  using assms image_eqI[of _ "\<lambda>b. sub_fence (sbr_subscription b)" b2]
  unfolding subscribers_ok_def by fastforce

lemma system_ok_drop:
  assumes ok: "system_ok y" and subs: "sys_subscribers y = ps @ b # qs"
    and z: "z = set_signal (drop_subscription (sbr_subscription b) (sys_signal y))
      (y\<lparr>sys_subscribers := ps @ qs\<rparr>)"
  shows "system_ok z"
proof -
  have s: "subscribers_ok y" using ok by (simp add: system_ok_def)
  have inb: "b \<in> set (sys_subscribers y)" using subs by simp
  obtain w where w: "sub_fence (sbr_subscription b) = Fence_Worker w"
    using subscribers_ok_worker[OF s inb] .
  have sig: "sys_signal z = (sys_signal y)\<lparr>sig_worker :=
      release_target (own_worker_id w) (sig_worker (sys_signal y))\<rparr>"
    by (simp add: z drop_subscription_def w)
  have rest: "x \<in> set (sys_subscribers y)" if "x \<in> set (sys_subscribers z)" for x
    using that by (auto simp: z subs)
  have cur: "current_subscriber z x = current_subscriber y x"
    and claimed: "current_subscriber z x \<Longrightarrow> \<exists>t. sig_worker (sys_signal z) = Some t \<and> wt_claimed t"
    if x: "x \<in> set (sys_subscribers z)" for x
  proof -
    obtain v where v: "sub_fence (sbr_subscription x) = Fence_Worker v"
      using subscribers_ok_worker[OF s rest[OF x]] .
    then show c: "current_subscriber z x = current_subscriber y x"
      by (simp add: current_subscriber_def sig)
    have "v \<noteq> w" using distinct_fence[OF s subs, of x] x w v by (auto simp: z)
    moreover assume "current_subscriber z x"
    moreover from this have "\<exists>t. sig_worker (sys_signal y) = Some t \<and> wt_claimed t"
      using s rest[OF x] c by (auto simp: subscribers_ok_def)
    ultimately show "\<exists>t. sig_worker (sys_signal z) = Some t \<and> wt_claimed t"
      using v c by (auto simp: sig release_target_def current_subscriber_def target_has_generation_def)
  qed
  show ?thesis
  proof (rule system_okI[OF ok])
    show "subscribers_ok z"
      unfolding subscribers_ok_def
    proof (intro conjI ballI)
      show "distinct (map (\<lambda>b. sub_fence (sbr_subscription b)) (sys_subscribers z))"
        using s by (simp add: subscribers_ok_def subs z)
      fix x assume x: "x \<in> set (sys_subscribers z)"
      show "\<exists>w. sub_fence (sbr_subscription x) = Fence_Worker w
          \<and> own_worker_id w < sm_next_worker_id (sys_model z)"
        using subscribers_ok_worker[OF s rest[OF x]] by (simp add: z) blast
    qed (use claimed in blast)
    have "token_pending (sys_signal z) = token_pending (sys_signal y)"
      by (simp add: sig token_pending_def release_target_def split: option.split)
    moreover have "sig_revision (sys_signal z) = sig_revision (sys_signal y)"
      "sys_publishers z = sys_publishers y" by (simp_all only: sig) (simp_all add: z)
    ultimately show "wakes_ok z"
      using ok rest cur unfolding system_ok_def wakes_ok_def by simp
    show "publication_ok z" using ok by (simp add: system_ok_def publication_ok_def sig) (simp add: z)
  qed (simp_all add: sig, simp_all add: z)
qed

lemma system_ok_claim:
  assumes ok: "system_ok y" and w: "sm_active_worker (sys_model y) = Some (own_worker_id w)"
    and cl: "claim_worker w (sys_signal y) = (Inr (), sig)"
    and z: "z = set_signal sig (y\<lparr>sys_subscribers := b # sys_subscribers y\<rparr>)"
    and b: "sub_fence (sbr_subscription b) = Fence_Worker w" "\<not> sbr_waiting b"
  shows "system_ok z"
proof -
  have s: "subscribers_ok y" using ok by (simp add: system_ok_def)
  obtain t where t: "sig_worker (sys_signal y) = Some t" "wt_generation t = own_worker_id w"
      "\<not> wt_claimed t" "sig = (sys_signal y)\<lparr>sig_worker := Some (t\<lparr>wt_claimed := True, wt_pending := False\<rparr>)\<rparr>"
    using cl by (auto simp: claim_worker_def claim_def split: option.splits if_splits sum.splits)
  have new: "\<not> current_subscriber y x" if x: "x \<in> set (sys_subscribers y)" for x
    using s x t by (auto simp: subscribers_ok_def)
  have gone: "\<not> current_subscriber z x" "sub_fence (sbr_subscription x) \<noteq> Fence_Worker w"
    if x: "x \<in> set (sys_subscribers y)" for x
  proof -
    obtain v where v: "sub_fence (sbr_subscription x) = Fence_Worker v"
      using subscribers_ok_worker[OF s x] .
    with new[OF x] t show "\<not> current_subscriber z x" "sub_fence (sbr_subscription x) \<noteq> Fence_Worker w"
      by (auto simp: current_subscriber_def z target_has_generation_def)
  qed
  have "ids_ok (sys_model y)"
    using ok recovery.reach_inv by (auto simp: system_ok_def sm_ok_def)
  with w have id: "own_worker_id w < sm_next_worker_id (sys_model y)" by (simp add: ids_ok_def)
  show ?thesis
  proof (rule system_okI[OF ok])
    show "subscribers_ok z"
      unfolding subscribers_ok_def
    proof (intro conjI ballI)
      show "distinct (map (\<lambda>b. sub_fence (sbr_subscription b)) (sys_subscribers z))"
        using s gone(2) b by (auto simp: subscribers_ok_def z)
      fix x assume "x \<in> set (sys_subscribers z)"
      then show "\<exists>w. sub_fence (sbr_subscription x) = Fence_Worker w
          \<and> own_worker_id w < sm_next_worker_id (sys_model z)"
        using subscribers_ok_worker[OF s, of x] b id by (auto simp: z)
    qed (simp add: z t)
    show "wakes_ok z" using gone(1) b by (auto simp: wakes_ok_def z)
    show "publication_ok z" using ok by (simp add: system_ok_def publication_ok_def z t)
  qed (simp_all add: z t)
qed

lemma system_ok_step:
  assumes "system_ok y" and "system_step y z"
  shows "system_ok z"
  using assms(2)
proof (cases rule: system_step.cases)
  case (sys_call call pub c)
  from system_ok_call[OF assms(1) sys_call(2,1)] show ?thesis .
next
  case (sys_read r c)
  obtain snap st where m: "materialize_snapshot (crd_state (sys_coordinator y)) = (snap, st)"
    by fastforce
  show ?thesis
  proof (cases "crd_poisoned (sys_coordinator y)")
    case True
    with sys_read(2) have "c = sys_coordinator y" by (simp add: coordinator_snapshot_def)
    then show ?thesis using assms(1) sys_read(1) by simp
  next
    case False
    with sys_read(2) m have "c = (sys_coordinator y)\<lparr>crd_state := st\<rparr>"
      by (simp add: coordinator_snapshot_def)
    then show ?thesis by (intro system_ok_snapshot[OF assms(1) m]) (simp add: sys_read(1))
  qed
next
  case (sys_publish_stale ps r qs)
  have "publication_ok z"
    using assms(1) sys_publish_stale by (auto simp: system_ok_def publication_ok_def)
  then show ?thesis
    using sys_publish_stale by (intro system_ok_frame[OF assms(1)]) auto
next
  case (sys_publish ps r qs)
  from system_ok_publish[OF assms(1) sys_publish(2,1,3)] show ?thesis .
next
  case (sys_wake_worker ps qs)
  from system_ok_wake_worker[OF assms(1) sys_wake_worker(2,1)] show ?thesis .
next
  case (sys_wake_projector ps qs)
  have "publication_ok z"
    using assms(1) sys_wake_projector by (auto simp: system_ok_def publication_ok_def)
  then show ?thesis
    using sys_wake_projector by (intro system_ok_frame[OF assms(1)]) auto
next
  case (sys_replace_projector r sig)
  have "publication_ok z"
    using assms(1) sys_replace_projector replace_projector_frame[OF sys_replace_projector(2)]
    by (simp add: system_ok_def publication_ok_def)
  then show ?thesis
    using sys_replace_projector replace_projector_frame[OF sys_replace_projector(2)]
    by (intro system_ok_frame[OF assms(1)]) auto
next
  case (sys_subscribe w sub c)
  obtain snap st sig where m: "materialize_snapshot (crd_state (sys_coordinator y)) = (snap, st)"
      "sm_active_worker (sys_model y) = Some (own_worker_id w)"
      "claim_worker w (sys_signal y) = (Inr (), sig)" "sub_fence sub = Fence_Worker w"
      "c = (sys_coordinator y)\<lparr>crd_state := st, crd_signal := sig\<rparr>"
    using sys_subscribe(2)
    by (auto simp: subscribe_worker_def require_worker_def sys_model_def sys_signal_def Let_def
        split: if_splits option.splits sum.splits prod.splits)
  let ?y = "y\<lparr>sys_coordinator := (sys_coordinator y)\<lparr>crd_state := st\<rparr>\<rparr>"
  have "system_ok ?y" using system_ok_snapshot[OF assms(1) m(1)] by simp
  moreover have "sys_model ?y = sys_model y"
    using materialized[OF m(1)] by (simp add: sys_model_def)
  moreover have "sys_signal ?y = sys_signal y" by (simp add: sys_signal_def)
  ultimately show ?thesis
    using system_ok_claim[of ?y w sig z "\<lparr>sbr_subscription = sub, sbr_waiting = False\<rparr>"] m
    by (simp add: sys_subscribe(1) set_signal_def)
next
  case (sys_recv_return ps b qs r sub)
  then show ?thesis
    by (intro system_ok_subscriber[OF assms(1) sys_recv_return(2,1)])
      (simp_all add: recv_turn_return)
next
  case (sys_recv_wait ps b qs)
  then show ?thesis
    by (intro system_ok_subscriber[OF assms(1) sys_recv_wait(2,1)]) (simp_all add: recv_turn_wait)
next
  case (sys_recv_token ps b qs)
  from system_ok_token[OF assms(1) sys_recv_token(2,4,1)] show ?thesis .
next
  case (sys_recv_revoked ps b qs)
  then show ?thesis by (intro system_ok_subscriber[OF assms(1) sys_recv_revoked(2,1)]) simp_all
next
  case (sys_drop ps b qs)
  from system_ok_drop[OF assms(1) sys_drop(2,1)] show ?thesis .
qed

lemma system_ok_init:
  assumes "system_init y"
  shows "system_ok y"
  using assms
proof cases
  case (1 s)
  have "reach recovery_init recovery_step s" using 1 by (simp add: reach_init)
  then show ?thesis
    using 1
    by (auto simp: system_ok_def publication_ok_def worker_target_ok_def cache_ok_def
        subscribers_ok_def wakes_ok_def sys_model_def sys_signal_def from_model_def Let_def
        RevisionSignal_new_def install_worker_def wake_target_def current_worker_ownership_def
        snapshot_fields split: option.split)
qed

interpretation recovery_system: inductive_invariant system_init system_step system_ok
  by unfold_locales (auto intro: system_ok_init system_ok_step)

end
