(* ===== verification/Recovery_System_Properties.thy ===== *)
theory Recovery_System_Properties
  imports Recovery_System
begin

text \<open>
  What the coordinator promises its callers under every interleaving: the published
  revision, wake-ups, snapshots, exclusive subscriptions, and the frontier that the
  exact barrier relies on.
\<close>

section \<open>Sample inputs\<close>

definition sample_system :: recovery_system where
  "sample_system = \<lparr>sys_coordinator = from_model sample_start, sys_publishers = [],
     sys_subscribers = []\<rparr>"

definition sample_owner :: RecoveryWorkerOwnership where
  "sample_owner = \<lparr>own_worker_id = 1\<rparr>"

text \<open>The worker is installed, its revision published, and it subscribes.\<close>

definition sample_replaced :: recovery_system where
  "sample_replaced = \<lparr>
     sys_coordinator = snd (replace_worker_locked (tick 1) (from_model sample_start)),
     sys_publishers = [Publishing 2], sys_subscribers = []\<rparr>"

definition sample_published :: recovery_system where
  "sample_published = set_signal ((sys_signal sample_replaced)\<lparr>sig_revision := 2\<rparr>)
     (sample_replaced\<lparr>sys_publishers := [Waking Role_Worker]\<rparr>)"

definition sample_woken :: recovery_system where
  "sample_woken = set_signal ((sys_signal sample_published)
       \<lparr>sig_worker := wake (sig_worker (sys_signal sample_published))\<rparr>)
     (sample_published\<lparr>sys_publishers := [Waking Role_Projector]\<rparr>)"

definition sample_quiet :: recovery_system where
  "sample_quiet = set_signal ((sys_signal sample_woken)
       \<lparr>sig_projector := wake (sig_projector (sys_signal sample_woken))\<rparr>)
     (sample_woken\<lparr>sys_publishers := []\<rparr>)"

definition sample_subscription :: "nat \<Rightarrow> RecoverySubscription" where
  "sample_subscription seen = \<lparr>
     sub_initial = fst (materialize_snapshot (crd_state (sys_coordinator sample_quiet))),
     sub_fence = Fence_Worker sample_owner, sub_last_seen = seen\<rparr>"

definition sample_subscribed :: recovery_system where
  "sample_subscribed = sample_quiet\<lparr>
     sys_coordinator := snd (subscribe_worker sample_owner (sys_coordinator sample_quiet)),
     sys_subscribers := [\<lparr>sbr_subscription = sample_subscription 0, sbr_waiting = False\<rparr>]\<rparr>"

definition sample_waiting :: recovery_system where
  "sample_waiting = sample_subscribed\<lparr>
     sys_subscribers := [\<lparr>sbr_subscription = sample_subscription 2, sbr_waiting = True\<rparr>]\<rparr>"

text \<open>A coordinator that starts nominal.\<close>

definition sample_nominal :: recovery_system where
  "sample_nominal = \<lparr>sys_coordinator = from_model (nominal sample_source 0 BackoffPolicy_standard),
     sys_publishers = [], sys_subscribers = []\<rparr>"

definition sample_projected :: recovery_system where
  "sample_projected = set_signal (snd (replace_projector (sys_signal sample_nominal))) sample_nominal"

lemma reach_sample_nominal: "reach system_init system_step sample_nominal"
  unfolding sample_nominal_def
  by (rule reach_init, rule system_init.intros, rule init_nominal)

lemma reach_sample_system: "reach system_init system_step sample_system"
proof (rule reach_init)
  have "recovery_init sample_start" by (simp add: sample_start_def init_startup)
  then show "system_init sample_system"
    unfolding sample_system_def by (rule system_init.intros)
qed

lemma reach_sample_replaced: "reach system_init system_step sample_replaced"
proof (rule reach_step[OF reach_sample_system])
  have "critical (Call_replace_worker (tick 1)) (sys_coordinator sample_system) =
      (Some 2, snd (replace_worker_locked (tick 1) (from_model sample_start)))"
    by (simp add: sample_system_def section_effect_def replace_worker_locked_def from_model_def
        sample_defs machine_defs numeral_2_eq_2)
  from system_step.sys_call[OF this] show "system_step sample_system sample_replaced"
    by (simp add: sample_system_def sample_replaced_def new_publisher_def)
qed

lemmas signal_defs = sys_signal_def sys_model_def set_signal_def wake_def wake_target_def
  install_worker_def RevisionSignal_new_def current_worker_ownership_def

lemma sample_replaced_facts:
  "sig_worker (sys_signal sample_replaced) = Some (wake_target 1)"
  "sig_revision (sys_signal sample_replaced) = 1"
  "sig_projector (sys_signal sample_replaced) = None"
  "sm_active_worker (sys_model sample_replaced) = Some 1"
  "sm_revision (sys_model sample_replaced) = 2"
  "\<not> crd_poisoned (sys_coordinator sample_replaced)"
  by (simp_all add: sample_replaced_def replace_worker_locked_def from_model_def signal_defs
      sample_defs machine_defs snapshot_fields numeral_2_eq_2)

lemma reach_sample_quiet: "reach system_init system_step sample_quiet"
proof -
  have "reach system_init system_step sample_published"
    unfolding sample_published_def
    by (rule reach_step[OF reach_sample_replaced], rule sys_publish[of _ "[]" 2 "[]", simplified])
      (simp_all add: sample_replaced_facts, simp add: sample_replaced_def)
  then have "reach system_init system_step sample_woken"
    unfolding sample_woken_def
    by (rule reach_step, intro sys_wake_worker[of _ "[]" "[]", simplified])
      (simp add: sample_published_def)
  then show ?thesis
    unfolding sample_quiet_def
    by (rule reach_step, intro sys_wake_projector[of _ "[]" "[]", simplified])
      (simp add: sample_woken_def)
qed

lemma sample_quiet_facts:
  "sig_worker (sys_signal sample_quiet) = Some ((wake_target 1)\<lparr>wt_pending := True\<rparr>)"
  "sig_revision (sys_signal sample_quiet) = 2" "sys_publishers sample_quiet = []"
  "sm_active_worker (sys_model sample_quiet) = Some 1" "sys_subscribers sample_quiet = []"
  "sm_revision (sys_model sample_quiet) = 2"
  "\<not> crd_poisoned (sys_coordinator sample_quiet)"
  using sample_replaced_facts
  by (simp_all add: sample_quiet_def sample_woken_def sample_published_def wake_def)
    (simp_all add: set_signal_def sample_replaced_def)

lemma sample_subscribe:
  "fst (subscribe_worker sample_owner (sys_coordinator sample_quiet)) = Inr (sample_subscription 0)"
  "sys_model sample_subscribed = sys_model sample_quiet"
  "sys_signal sample_subscribed = (sys_signal sample_quiet)\<lparr>sig_worker :=
     Some (\<lparr>wt_generation = 1, wt_claimed = True, wt_pending = False\<rparr>)\<rparr>"
  using sample_quiet_facts
  by (simp_all add: subscribe_worker_def require_worker_def claim_worker_def claim_def Let_def
      sample_owner_def sample_subscribed_def sys_model_def sys_signal_def wake_target_def
      sample_subscription_def materialize_snapshot_def)

lemma sample_turns:
  "recv_turn (sys_signal sample_subscribed) (sample_subscription 0) =
     Some (Inr 2, sample_subscription 2)"
  "recv_turn (sys_signal sample_subscribed) (sample_subscription 2) = None"
  by (simp_all add: sample_subscribe(3) recv_turn_def require_current_def admit_revision_def
      sample_subscription_def target_has_generation_def sample_owner_def sample_quiet_facts)

lemma reach_sample_waiting: "reach system_init system_step sample_waiting"
proof -
  obtain c where c: "subscribe_worker sample_owner (sys_coordinator sample_quiet) =
      (Inr (sample_subscription 0), c)"
    using sample_subscribe(1) by (metis prod.collapse)
  have y: "reach system_init system_step sample_subscribed"
    using reach_step[OF reach_sample_quiet sys_subscribe[OF c]]
    by (simp add: sample_subscribed_def sample_quiet_facts c)
  let ?b = "\<lambda>n w. \<lparr>sbr_subscription = sample_subscription n, sbr_waiting = w\<rparr>"
  have "sys_subscribers sample_subscribed = [?b 0 False]" by (simp add: sample_subscribed_def)
  with sys_recv_return[of sample_subscribed "[]" "?b 0 False" "[]"] sample_turns(1)
  have "system_step sample_subscribed (sample_subscribed\<lparr>sys_subscribers := [?b 2 False]\<rparr>)"
    by simp
  with y have z: "reach system_init system_step (sample_subscribed\<lparr>sys_subscribers := [?b 2 False]\<rparr>)"
    by (rule reach_step)
  from sys_recv_wait[of "sample_subscribed\<lparr>sys_subscribers := [?b 2 False]\<rparr>" "[]" "?b 2 False" "[]"]
    sample_turns(2)
  have "system_step (sample_subscribed\<lparr>sys_subscribers := [?b 2 False]\<rparr>) sample_waiting"
    by (simp add: sample_waiting_def)
  with z show ?thesis by (rule reach_step)
qed

section \<open>Published revisions and wake-ups\<close>


text \<open>
  The published revision never runs ahead of the machine, and once no publisher
  is in flight it is the machine's revision: a delayed older publisher cannot move it
  back.
\<close>

theorem published_revision_catches_up:
  assumes "reach system_init system_step y"
  shows "sig_revision (sys_signal y) \<le> sm_revision (sys_model y)
    \<and> (sys_publishers y = [] \<longrightarrow> sig_revision (sys_signal y) = sm_revision (sys_model y))"
  using recovery_system.reach_inv[OF assms]
  by (auto simp: system_ok_def publication_ok_def)

theorem published_revision_catches_up_witness:
  "sig_revision (sys_signal sample_replaced) \<le> sm_revision (sys_model sample_replaced)
   \<and> sig_revision (sys_signal sample_system) = sm_revision (sys_model sample_system)"
  using published_revision_catches_up[OF reach_sample_replaced]
    published_revision_catches_up[OF reach_sample_system]
  by (simp add: sample_system_def)



section \<open>Subscriptions\<close>

text \<open>
  A worker subscription is current exactly while its worker is the active one, and
  there is at most one subscription per worker incarnation: while one is held, another
  subscriber of the same worker is refused.
\<close>

theorem subscription_is_exclusive:
  assumes "reach system_init system_step y" and "b \<in> set (sys_subscribers y)"
    and "sub_fence (sbr_subscription b) = Fence_Worker w"
    and "\<not> crd_poisoned (sys_coordinator y)"
  shows "(is_current (Fence_Worker w) (sys_signal y) \<longleftrightarrow>
           sm_active_worker (sys_model y) = Some (own_worker_id w))
    \<and> fst (subscribe_worker w (sys_coordinator y)) =
        Inl (if sm_active_worker (sys_model y) = Some (own_worker_id w)
             then RoleAlreadySubscribed Role_Worker else SubscriptionRevoked Role_Worker)"
proof -
  have ok: "system_ok y" using assms(1) by (rule recovery_system.reach_inv)
  have cur: "is_current (Fence_Worker w) (sys_signal y) \<longleftrightarrow>
      sm_active_worker (sys_model y) = Some (own_worker_id w)"
    using ok by (auto simp: system_ok_def worker_target_ok_def target_has_generation_def
        split: option.splits)
  show ?thesis
  proof (cases "sm_active_worker (sys_model y) = Some (own_worker_id w)")
    case True
    with cur have "current_subscriber y b" by (simp add: current_subscriber_def assms(3))
    then obtain t where "sig_worker (sys_signal y) = Some t" "wt_claimed t"
      using ok assms(2) by (auto simp: system_ok_def subscribers_ok_def)
    with True cur assms(4) show ?thesis
      by (auto simp: subscribe_worker_def require_worker_def sys_model_def sys_signal_def claim_worker_def
          claim_def target_has_generation_def split: prod.split)
  next
    case False
    with cur assms(4) show ?thesis
      by (auto simp: subscribe_worker_def require_worker_def sys_model_def split: option.splits)
  qed
qed

theorem subscription_is_exclusive_witness:
  "fst (subscribe_worker sample_owner (sys_coordinator sample_waiting)) =
     Inl (RoleAlreadySubscribed Role_Worker)"
proof -
  have "\<not> crd_poisoned (sys_coordinator sample_waiting)"
    using sample_quiet_facts
    by (simp add: sample_waiting_def sample_subscribed_def subscribe_worker_def Let_def
        split: sum.split prod.split)
  moreover have "sm_active_worker (sys_model sample_waiting) = Some (own_worker_id sample_owner)"
    by (simp add: sample_waiting_def sample_subscribe sample_quiet_facts sample_owner_def)
  ultimately show ?thesis
    using subscription_is_exclusive[OF reach_sample_waiting,
        of "\<lparr>sbr_subscription = sample_subscription 2, sbr_waiting = True\<rparr>" sample_owner]
    by (simp add: sample_subscription_def) (simp add: sample_waiting_def sample_subscription_def)
qed

section \<open>Snapshots and frontiers\<close>

lemma revision_below_terminal:
  assumes ok: "sm_ok s" and below: "sm_revision s < RecoveryRevision_terminal"
  shows "sm_revision (apply_op op s) < RecoveryRevision_terminal \<or> blocked_for_good (apply_op op s)"
proof -
  have ids: "ids_ok s" using ok by (simp add: sm_ok_def)
  note simps = next_revision_or_block_def Let_def open_incident_eq prefixed_id_new_def allocate_def
    revision_counter.next_some RecoveryRevision_terminal_def
  from ids below show ?thesis
  proof (cases op)
    case (StartAttempt m)
    with ids below show ?thesis
      by (auto simp: start_attempt_def simps block_for_exhaustion_def split: option.split)
  qed (auto simp: simps replace_worker_def worker_exited_def
      record_native_boundary_def record_scan_started_def begin_authoritative_scan_def
      record_scan_completed_def complete_authoritative_scan_def offer_close_def
      reject_native_close_def record_dependency_failure_def retry_if_due_def
      restore_matching_authority_def restore_authority_def observe_activity_def
      observe_suppressed_def observe_loss_def
      split: option.split sum.split)
qed

interpretation exhaustion: inductive_invariant recovery_init recovery_step
  "\<lambda>s. sm_ok s \<and> (sm_revision s < RecoveryRevision_terminal \<or> blocked_for_good s)"
proof
  fix s assume i: "recovery_init s"
  then have "sm_revision s < RecoveryRevision_terminal"
    by (cases rule: recovery_init.cases)
      (auto simp: nominal_def startup_reconciliation_def RecoveryRevision_terminal_def
        MAX_SCHEMA_INTEGER_def)
  with sm_ok_init[OF i] show "sm_ok s \<and> (sm_revision s < RecoveryRevision_terminal \<or> blocked_for_good s)"
    by simp
next
  fix s t assume "sm_ok s \<and> (sm_revision s < RecoveryRevision_terminal \<or> blocked_for_good s)"
    and "recovery_step s t"
  then show "sm_ok t \<and> (sm_revision t < RecoveryRevision_terminal \<or> blocked_for_good t)"
    using revision_below_terminal blocked_for_good_step sm_ok_apply_op
    by (auto elim!: recovery_step.cases)
qed

lemma nominal_not_terminal:
  assumes "reach recovery_init recovery_step s" and "sm_incident s = None"
  shows "sm_revision s \<noteq> RecoveryRevision_terminal"
  using exhaustion.reach_inv[OF assms(1)] blocked_for_good_None[OF assms(2)] by auto

lemma evolves_steps:
  assumes "recovery_step\<^sup>*\<^sup>* s t" and "reach recovery_init recovery_step s"
  shows "evolves s t"
  using assms
proof (induction rule: rtranclp_induct)
  case (step t u)
  then have "evolves t u"
    using recovery.rtranclp_inv[OF step.hyps(1) recovery.reach_inv] 
    by (auto elim!: recovery_step.cases intro: evolves_apply_op)
  with step show ?case by (blast intro: evolves_trans)
qed simp

text \<open>
  A reader gets the machine as it is. Unless the revision is exhausted, the
  snapshot returned is exactly the projection of the current machine, although the
  stored snapshot is rebuilt only when the revision has moved.
\<close>

theorem snapshot_is_current:
  assumes "reach system_init system_step y" and "\<not> crd_poisoned (sys_coordinator y)"
    and "sm_revision (sys_model y) \<noteq> RecoveryRevision_terminal"
  shows "fst (coordinator_snapshot (sys_coordinator y)) = Inr (snapshot (sys_model y))"
proof -
  have "cache_ok y" using recovery_system.reach_inv[OF assms(1)] by (simp add: system_ok_def)
  then obtain s where s: "cs_snapshot (crd_state (sys_coordinator y)) = snapshot s"
      "reach recovery_init recovery_step s" "recovery_step\<^sup>*\<^sup>* s (sys_model y)"
    by (auto simp: cache_ok_def)
  have "evolves s (sys_model y)" using evolves_steps[OF s(3,2)] .
  with assms(3) have "sys_model y = s \<or> sm_revision s \<noteq> sm_revision (sys_model y)"
    by (auto simp: evolves_def)
  with s(1) assms(2) show ?thesis
    by (auto simp: coordinator_snapshot_def materialize_snapshot_def Let_def sys_model_def
        snapshot_fields)
qed

theorem snapshot_is_current_witness:
  "fst (coordinator_snapshot (sys_coordinator sample_replaced)) =
     Inr (snapshot (sys_model sample_replaced))"
  by (rule snapshot_is_current[OF reach_sample_replaced])
    (simp_all add: sample_replaced_def sys_model_def replace_worker_locked_def from_model_def
      sample_defs machine_defs RecoveryRevision_terminal_def)

lemma system_step_model:
  assumes "system_ok y" and "system_step y z"
  shows "recovery_step\<^sup>=\<^sup>= (sys_model y) (sys_model z)"
  using assms(2)
proof (cases rule: system_step.cases)
  case (sys_call call pub c)
  then show ?thesis
    using critical_ok[OF sys_call(2)] by (simp add: section_ok_def sys_model_def)
next
  case (sys_read r c)
  then show ?thesis
    by (auto simp: coordinator_snapshot_def materialize_snapshot_def sys_model_def Let_def
        split: if_splits)
next
  case (sys_subscribe w sub c)
  then show ?thesis
    by (auto simp: subscribe_worker_def materialize_snapshot_def sys_model_def Let_def
        split: if_splits sum.splits prod.splits)
qed simp_all

lemma system_steps_model:
  assumes "system_step\<^sup>*\<^sup>* y z" and "reach system_init system_step y"
  shows "recovery_step\<^sup>*\<^sup>* (sys_model y) (sys_model z)"
  using assms
proof (induction rule: rtranclp_induct)
  case (step u z)
  have "system_ok u"
    using recovery_system.rtranclp_inv[OF step.hyps(1) recovery_system.reach_inv[OF step.prems]] .
  from system_step_model[OF this step.hyps(2)] step.IH[OF step.prems] show ?case
    by (auto intro: rtranclp.rtrancl_into_rtrancl)
qed simp

text \<open>
  The recovery side of the exact barrier is linearizable. If a frontier was captured
  and a later linearization of it succeeds, then nothing at all has happened to the
  recovery machine in between: no activity, no loss, no incident, and the attestation
  carries the same last closure.
\<close>

theorem linearized_frontier_is_unchanged:
  assumes "reach system_init system_step y" and "system_step\<^sup>*\<^sup>* y z"
    and "capture_nominal_frontier (sys_coordinator y) = Inr frontier"
    and "linearize_nominal frontier (sys_coordinator z) = Inr attestation"
  shows "sys_model z = sys_model y \<and> lifecycle (sys_model z) = Lifecycle_Nominal
    \<and> ra_frontier attestation = frontier
    \<and> ra_last_closure attestation = sm_last_completed (sys_model y)"
proof -
  have y: "nominal_frontier (sys_model y) = Some frontier"
    using assms(3) by (auto simp: capture_nominal_frontier_def sys_model_def split: if_splits)
  have z: "nominal_frontier (sys_model z) = Some frontier" "ra_frontier attestation = frontier"
      "ra_last_closure attestation = sm_last_completed (sys_model z)"
    using assms(4) by (auto simp: linearize_nominal_def sys_model_def Let_def
        split: if_splits option.splits)
  have ry: "reach recovery_init recovery_step (sys_model y)"
    using recovery_system.reach_inv[OF assms(1)] by (simp add: system_ok_def)
  have "evolves (sys_model y) (sys_model z)"
    using evolves_steps[OF system_steps_model[OF assms(2,1)] ry] .
  moreover have "sm_revision (sys_model z) = sm_revision (sys_model y)" "sm_incident (sys_model y) = None"
    using y z(1) by (auto simp: nominal_frontier_def split: if_splits)
  moreover have "sm_revision (sys_model y) \<noteq> RecoveryRevision_terminal"
    using nominal_not_terminal[OF ry] calculation by simp
  ultimately have "sys_model z = sys_model y" by (auto simp: evolves_def)
  with z \<open>sm_incident (sys_model y) = None\<close> show ?thesis by (simp add: lifecycle_def)
qed

theorem linearized_frontier_is_unchanged_witness:
  "\<exists>frontier attestation.
     capture_nominal_frontier (sys_coordinator sample_nominal) = Inr frontier
     \<and> linearize_nominal frontier (sys_coordinator sample_projected) = Inr attestation
     \<and> sys_model sample_projected = sys_model sample_nominal"
proof -
  have step: "system_step sample_nominal sample_projected"
    unfolding sample_projected_def by (rule sys_replace_projector[OF prod.collapse[symmetric]])
  obtain frontier where f: "capture_nominal_frontier (sys_coordinator sample_nominal) = Inr frontier"
    by (simp add: capture_nominal_frontier_def sample_nominal_def from_model_def nominal_def
        nominal_frontier_def Let_def)
  moreover from f obtain attestation where
    "linearize_nominal frontier (sys_coordinator sample_projected) = Inr attestation"
    by (simp add: capture_nominal_frontier_def linearize_nominal_def sample_projected_def
        sample_nominal_def from_model_def nominal_def nominal_frontier_def Let_def set_signal_def)
  ultimately show ?thesis
    using linearized_frontier_is_unchanged[OF reach_sample_nominal, of sample_projected] step by blast
qed

section \<open>Closing through the coordinator\<close>

text \<open>
  A close through the coordinator is granted only to the active worker, for the
  attempt in flight, and while the native boundary's guard is current: when the
  coverage authority has moved to another generation since the boundary was sealed,
  the close is refused and the incident is rearmed with a rescan owed.
\<close>

theorem stale_boundary_never_closes:
  assumes "coordinator_offer_close generation w tok v m c = (Inr disposition, c')"
  shows "sm_active_worker (cs_model (crd_state c)) = Some (own_worker_id w)
    \<and> current_attempt_token (cs_model (crd_state c)) = Some tok
    \<and> (\<exists>b. current_native_boundary (cs_model (crd_state c)) = Some b
         \<and> (\<not> acb_is_current generation b \<longrightarrow>
              (\<exists>n. disposition = RetryRequired n) \<and> uncovered (cs_model (crd_state c'))
              \<and> map_option inc_phase (sm_incident (cs_model (crd_state c'))) = Some Rearming))"
proof -
  let ?s = "cs_model (crd_state c)"
  have np: "\<not> crd_poisoned c" and r: "fst (offer_close_by generation w tok v m ?s) = Inr disposition"
    and c': "cs_model (crd_state c') = snd (offer_close_by generation w tok v m ?s)"
    using assms
    by (auto simp: coordinator_offer_close_def mutate_def mutate_locked_def publish_pending_def Let_def
        map_sum_def
        split: if_splits prod.splits option.splits sum.splits)
  have a: "sm_active_worker ?s = Some (own_worker_id w)" "current_attempt_token ?s = Some tok"
    using r by (auto simp: offer_close_by_def with_worker_def require_worker_def
        split: option.splits if_splits sum.splits)
  obtain b where b: "current_native_boundary ?s = Some b"
    using r a by (auto simp: offer_close_by_def with_worker_def require_worker_def
        split: option.splits if_splits)
  have "(\<exists>n. disposition = RetryRequired n) \<and> uncovered (cs_model (crd_state c'))
      \<and> map_option inc_phase (sm_incident (cs_model (crd_state c'))) = Some Rearming"
    if stale: "\<not> acb_is_current generation b"
  proof -
    have "offer_close_by generation w tok v m ?s = reject_native_close tok m ?s"
      using a b stale by (simp add: offer_close_by_def with_worker_def require_worker_def
          from_attempt_evidence_def)
    with r c' show ?thesis
      by (auto simp: reject_native_close_def next_revision_or_block_def uncovered_def commit_def
          retry_attempt_def uncovered_incident_def clear_attempt_evidence_def
          active_incident_def matching_attempt_def
          split: option.splits sum.splits if_splits)
  qed
  with a b show ?thesis by blast
qed

theorem stale_boundary_never_closes_witness:
  "\<exists>n c'. coordinator_offer_close 2 sample_owner sample_token 5 (tick 8) (from_model sample_closing) =
     (Inr (RetryRequired n), c')"
proof -
  obtain d c' where d: "coordinator_offer_close 2 sample_owner sample_token 5 (tick 8)
      (from_model sample_closing) = (Inr d, c')"
    by (simp add: coordinator_offer_close_def mutate_def mutate_locked_def from_model_def Let_def
        offer_close_by_def with_worker_def sample_closing_def sample_owner_def sample_defs
        machine_defs current_attempt_token_def current_native_boundary_def from_attempt_evidence_def
        acb_is_current_def guard_is_current_def)
  have "\<not> acb_is_current 2 b" if "current_native_boundary sample_closing = Some b" for b
    using that by (auto simp: current_native_boundary_def sample_closing_def sample_defs machine_defs
        acb_is_current_def guard_is_current_def)
  then have "\<exists>n. d = RetryRequired n"
    using stale_boundary_never_closes[OF d] by (auto simp: from_model_def Let_def)
  with d show ?thesis by blast
qed

end
