(* ===== verification/Recovery_Worker.thy ===== *)
theory Recovery_Worker
  imports Recovery_System_Properties
begin

text \<open>
  The recovery worker of \<^verbatim>\<open>runtime.rs\<close>: one attempt of \<open>recover_once\<close>, from preparing
  the incident to the close offer. The native coverage adapter, the engine that
  scans, the clock and the cancellation flag are dependencies outside this protocol:
  what they answer is a field of \<open>recovery_pass\<close>, and so are the calls other threads
  make on the coordinator between two calls of the worker.
\<close>

section \<open>Dependencies\<close>

datatype WatcherCoverageError =
    Coverage_Unavailable
  | Coverage_TimedOut
  | Coverage_Cancelled
  | Coverage_Loss WatcherCoverageLoss
  | Coverage_StaleBoundary
  | Coverage_IdentifierExhausted
  | Coverage_Shutdown

datatype CoverageScanFailure = CycleActive | RootUnavailable | Scan_Fatal

datatype CoverageScanError =
    ResourceExhausted
  | EngineStopped
  | Scan_TimedOut
  | Scan_Cancelled
  | Scan CoverageScanFailure

datatype RecoveryWorkDisposition =
    Work_Nominal
  | Work_Closed
  | Work_RetryRequired
  | Work_RetryDeferred
  | Work_Blocked
  | Work_Cancelled

text \<open>
  \<open>pass_moment k\<close> is the answer of the k-th reading of the clock in program order and
  \<open>pass_others k\<close> the calls of other threads before the k-th coordinator call.
  \<open>pass_walk_starts\<close> tells whether the engine thread ran the walk-start hook before
  the scan wait ended.
\<close>

record recovery_pass =
  pass_moment :: "nat \<Rightarrow> RecoveryMoment"
  pass_others :: "nat \<Rightarrow> coordinator_call list"
  pass_cancelled :: bool
  pass_deadline :: "nat \<Rightarrow> bool"
  pass_begin_recovery :: "WatcherCoverageError option"
  pass_request_scan :: "CoverageScanError option"
  pass_walk_starts :: bool
  pass_wait :: "CoverageScanError + u64"
  pass_seal :: "WatcherCoverageError + WatcherCoverageHandoff"
  pass_before_close :: "WatcherRecoveryCoordinatorError option"
  pass_generation :: u64

definition perform :: "coordinator_call \<Rightarrow> WatcherRecoveryCoordinator \<Rightarrow> WatcherRecoveryCoordinator" where
  "perform call c = (case critical call c of (published, c) \<Rightarrow> publish_pending published c)"

definition performs ::
  "coordinator_call list \<Rightarrow> WatcherRecoveryCoordinator \<Rightarrow> WatcherRecoveryCoordinator" where
  "performs calls c = fold perform calls c"

section \<open>Failures\<close>

fun coverage_failure :: "WatcherCoverageError \<Rightarrow> RecoveryMoment \<Rightarrow> DependencyFailure" where
  "coverage_failure error moment =
     DependencyFailure_new
       (case error of Coverage_IdentifierExhausted \<Rightarrow> FatalContract | _ \<Rightarrow> Retryable)
       DependencyUnavailable (observed_at moment)"

fun scan_failure :: "CoverageScanError \<Rightarrow> RecoveryMoment \<Rightarrow> DependencyFailure" where
  "scan_failure error moment =
     (case (case error of
              ResourceExhausted \<Rightarrow> (Retryable, DependencyBusy)
            | Scan CycleActive \<Rightarrow> (Retryable, DependencyBusy)
            | EngineStopped \<Rightarrow> (Retryable, DependencyUnavailable)
            | Scan_TimedOut \<Rightarrow> (Retryable, DependencyUnavailable)
            | Scan_Cancelled \<Rightarrow> (Retryable, DependencyUnavailable)
            | Scan RootUnavailable \<Rightarrow> (Retryable, DependencyUnavailable)
            | Scan Scan_Fatal \<Rightarrow> (FatalContract, DependencyUnavailable)) of
        (class, code) \<Rightarrow> DependencyFailure_new class code (observed_at moment))"

text \<open>The \<open>?\<close> operator on a coordinator call.\<close>

definition try_call ::
  "'a answer \<times> WatcherRecoveryCoordinator \<Rightarrow>
   ('a \<Rightarrow> WatcherRecoveryCoordinator \<Rightarrow> 'b answer \<times> WatcherRecoveryCoordinator) \<Rightarrow>
   'b answer \<times> WatcherRecoveryCoordinator" where
  "try_call r k = (case r of (Inl e, c) \<Rightarrow> (Inl e, c) | (Inr x, c) \<Rightarrow> k x c)"

definition record_failure ::
  "RecoveryWorkerOwnership \<Rightarrow> AttemptToken \<Rightarrow> DependencyFailure \<Rightarrow> RecoveryMoment \<Rightarrow>
   WatcherRecoveryCoordinator \<Rightarrow> RecoveryWorkDisposition answer \<times> WatcherRecoveryCoordinator" where
  "record_failure ownership token failure moment c =
     try_call (coordinator_record_dependency_failure ownership token failure moment c)
       (\<lambda>disposition c.
          case disposition of
            RetryScheduled _ _ _ \<Rightarrow> (Inr Work_RetryDeferred, c)
          | Failure_Blocked _ _ \<Rightarrow> (Inr Work_Blocked, c))"

definition recovery_deadline :: "bool \<Rightarrow> unit answer" where
  "recovery_deadline fits = (if fits then Inr () else Inl (Transition RetryDeadlineOverflow))"

section \<open>One attempt\<close>

definition worker_claim ::
  "RecoveryMoment \<Rightarrow> WatcherRecoveryCoordinator \<Rightarrow>
   RecoveryWorkerOwnership answer \<times> WatcherRecoveryCoordinator" where
  "worker_claim moment c = coordinator_replace_worker moment c"

definition prepare_recovery ::
  "recovery_pass \<Rightarrow> RecoveryWorkerOwnership \<Rightarrow> WatcherRecoveryCoordinator \<Rightarrow>
   RecoveryWorkDisposition option answer \<times> WatcherRecoveryCoordinator" where
  "prepare_recovery pass ownership c =
     try_call (coordinator_snapshot c) (\<lambda>snapshot c.
       case rsn_lifecycle snapshot of
         Lifecycle_Nominal \<Rightarrow> (Inr (Some Work_Nominal), c)
       | Lifecycle_Blocked \<Rightarrow> (Inr (Some Work_Blocked), c)
       | Lifecycle_Recovering \<Rightarrow>
           if rsn_phase snapshot \<noteq> Some BackingOff then (Inr None, c)
           else
             (case coordinator_retry_if_due ownership (pass_moment pass 0)
                     (performs (pass_others pass 0) c) of
                (Inr _, c) \<Rightarrow> (Inr None, c)
              | (Inl (Transition RetryNotDue), c) \<Rightarrow> (Inr (Some Work_RetryDeferred), c)
              | (Inl e, c) \<Rightarrow> (Inl e, c)))"

text \<open>The hook ignores what recording the start answers.\<close>

definition walk_start_hook ::
  "RecoveryWorkerOwnership \<Rightarrow> AttemptToken \<Rightarrow> RecoveryMoment \<Rightarrow>
   WatcherRecoveryCoordinator \<Rightarrow> WatcherRecoveryCoordinator" where
  "walk_start_hook ownership token moment c =
     snd (coordinator_record_scan_started ownership token moment c)"

text \<open>After the scan: seal the native boundary and offer the close.\<close>

definition seal_and_close ::
  "recovery_pass \<Rightarrow> RecoveryWorkerOwnership \<Rightarrow> AttemptToken \<Rightarrow> RecoveryScanRevision \<Rightarrow>
   WatcherRecoveryCoordinator \<Rightarrow> RecoveryWorkDisposition answer \<times> WatcherRecoveryCoordinator" where
  "seal_and_close pass ownership token scan_revision c =
     (let c = performs (pass_others pass 4) c
      in case pass_seal pass of
           Inl error \<Rightarrow>
             record_failure ownership token (coverage_failure error (pass_moment pass 5))
               (pass_moment pass 6) c
         | Inr handoff \<Rightarrow>
             try_call (coordinator_record_native_boundary ownership token handoff
                         (pass_moment pass 5) c) (\<lambda>_ c.
               let c = performs (pass_others pass 5) c
               in case pass_before_close pass of
                    Some error \<Rightarrow> (Inl error, c)
                  | None \<Rightarrow>
                      try_call (coordinator_offer_close (pass_generation pass) ownership token
                                  scan_revision (pass_moment pass 6) c) (\<lambda>disposition c.
                        case disposition of
                          Closed _ \<Rightarrow> (Inr Work_Closed, c)
                        | RetryRequired _ \<Rightarrow> (Inr Work_RetryRequired, c))))"

text \<open>The scan of an attempt: the engine thread runs the hook while the worker waits.\<close>

definition scan_and_close ::
  "recovery_pass \<Rightarrow> RecoveryWorkerOwnership \<Rightarrow> AttemptToken \<Rightarrow>
   WatcherRecoveryCoordinator \<Rightarrow> RecoveryWorkDisposition answer \<times> WatcherRecoveryCoordinator" where
  "scan_and_close pass ownership token c =
     (case pass_request_scan pass of
        Some Scan_Cancelled \<Rightarrow> (Inr Work_Cancelled, c)
      | Some error \<Rightarrow>
          record_failure ownership token (scan_failure error (pass_moment pass 2))
            (pass_moment pass 3) c
      | None \<Rightarrow>
          (let c = (if pass_walk_starts pass
                    then walk_start_hook ownership token (pass_moment pass 2) c else c);
               c = performs (pass_others pass 3) c
           in case recovery_deadline (pass_deadline pass 1) of
                Inl e \<Rightarrow> (Inl e, c)
              | Inr _ \<Rightarrow>
           (case pass_wait pass of
                Inl Scan_Cancelled \<Rightarrow> (Inr Work_Cancelled, c)
              | Inl error \<Rightarrow>
                  record_failure ownership token (scan_failure error (pass_moment pass 3))
                    (pass_moment pass 4) c
              | Inr revision \<Rightarrow>
                  (case RecoveryScanRevision_new revision of
                     Inl _ \<Rightarrow> (Inl (Transition ScanRevisionMismatch), c)
                   | Inr scan_revision \<Rightarrow>
                       try_call (coordinator_record_scan_completed ownership token scan_revision
                                   (pass_moment pass 4) c)
                         (\<lambda>_ c. seal_and_close pass ownership token scan_revision c)))))"

definition recover_once ::
  "recovery_pass \<Rightarrow> RecoveryWorkerOwnership \<Rightarrow> WatcherRecoveryCoordinator \<Rightarrow>
   RecoveryWorkDisposition answer \<times> WatcherRecoveryCoordinator" where
  "recover_once pass ownership c =
     try_call (prepare_recovery pass ownership c) (\<lambda>prepared c.
       case prepared of
         Some disposition \<Rightarrow> (Inr disposition, c)
       | None \<Rightarrow>
           if pass_cancelled pass then (Inr Work_Cancelled, c)
           else
             try_call (coordinator_start_attempt ownership (pass_moment pass 1)
                         (performs (pass_others pass 1) c)) (\<lambda>token c.
               let c = performs (pass_others pass 2) c
               in case recovery_deadline (pass_deadline pass 0) of
                 Inl e \<Rightarrow> (Inl e, c)
               | Inr _ \<Rightarrow>
                   (case pass_begin_recovery pass of
                      Some error \<Rightarrow>
                        record_failure ownership token (coverage_failure error (pass_moment pass 2))
                          (pass_moment pass 3) c
                    | None \<Rightarrow> scan_and_close pass ownership token c)))"

section \<open>Other threads\<close>

fun bystander :: "coordinator_call \<Rightarrow> bool" where
  "bystander (Call_observe_activity m) = True"
| "bystander (Call_observe_suppressed m) = True"
| "bystander (Call_observe_loss cause m) = True"
| "bystander (Call_observe_native_coverage loss m) = True"
| "bystander (Call_replace_worker m) = True"
| "bystander (Call_worker_exited w m) = True"
| "bystander _ = False"

fun reports_loss :: "coordinator_call \<Rightarrow> bool" where
  "reports_loss (Call_observe_suppressed m) = True"
| "reports_loss (Call_observe_loss cause m) = True"
| "reports_loss (Call_observe_native_coverage loss m) = True"
| "reports_loss _ = False"

abbreviation model_of :: "WatcherRecoveryCoordinator \<Rightarrow> RecoveryStateMachine" where
  "model_of c \<equiv> cs_model (crd_state c)"

lemma publish_pending_frame [simp]:
  "model_of (publish_pending p c) = model_of c"
  "crd_poisoned (publish_pending p c) = crd_poisoned c"
  by (simp_all add: publish_pending_def split: option.split)

lemma mutate_model:
  "\<not> crd_poisoned c \<Longrightarrow> model_of (snd (mutate f c)) = snd (f (model_of c))"
  "crd_poisoned (snd (mutate f c)) = crd_poisoned c"
  "\<not> crd_poisoned c \<Longrightarrow> fst (mutate f c) = map_sum Transition id (fst (f (model_of c)))"
  "crd_poisoned c \<Longrightarrow> mutate f c = (Inl StateUnavailable, c)"
  by (simp_all add: mutate_def mutate_locked_def Let_def publish_pending_def split: prod.split)

lemma mutate_locked_model:
  assumes "section_effect (mutate_locked f c) = (pub, c')"
  shows "model_of c' = (if crd_poisoned c then model_of c else snd (f (model_of c)))
    \<and> crd_poisoned c' = crd_poisoned c"
  using assms by (auto simp: section_effect_def mutate_locked_def Let_def split: prod.splits)

lemma worker_locked_model:
  "section_effect (replace_worker_locked m c) = (pub, c') \<Longrightarrow>
    model_of c' = (if crd_poisoned c then model_of c else snd (replace_worker m (model_of c)))
    \<and> crd_poisoned c' = crd_poisoned c"
  "section_effect (worker_exited_locked w m c) = (pub, c') \<Longrightarrow>
    model_of c' = (if crd_poisoned c then model_of c else snd (worker_exited w m (model_of c)))
    \<and> crd_poisoned c' = crd_poisoned c"
  by (auto simp: section_effect_def replace_worker_locked_def worker_exited_locked_def Let_def
      split: prod.splits)

text \<open>A bystander call is one reducer operation, and none that begins a scan.\<close>

lemma bystander_effect:
  assumes "bystander call" and "\<not> crd_poisoned c"
  shows "\<exists>op. model_of (perform call c) = apply_op op (model_of c)
    \<and> \<not> crd_poisoned (perform call c) \<and> \<not> scan_begins op (model_of c)
    \<and> (reports_loss call \<longrightarrow> loses_coverage op (model_of c))"
proof -
  obtain pub c' where e: "critical call c = (pub, c')" by (cases "critical call c")
  have p: "perform call c = publish_pending pub c'" by (simp add: perform_def e)
  show ?thesis
  proof (cases call)
    case (Call_observe_activity m)
    with e p assms mutate_locked_model[of "observe_activity m" c pub c'] show ?thesis
      by (intro exI[of _ "ObserveActivity m"]) simp
  next
    case (Call_observe_suppressed m)
    with e p assms mutate_locked_model[of "observe_suppressed m" c pub c'] show ?thesis
      by (intro exI[of _ "ObserveSuppressed m"]) simp
  next
    case (Call_observe_loss cause m)
    with e p assms mutate_locked_model[of "observe_loss cause m" c pub c'] show ?thesis
      by (intro exI[of _ "ObserveLoss cause m"]) simp
  next
    case (Call_observe_native_coverage loss m)
    with e p assms mutate_locked_model[of "observe_loss (native_cause loss) m" c pub c'] show ?thesis
      by (intro exI[of _ "ObserveLoss (native_cause loss) m"]) simp
  next
    case (Call_replace_worker m)
    with e p assms worker_locked_model(1)[of m c pub c'] show ?thesis
      by (intro exI[of _ "ReplaceWorker m"]) simp
  next
    case (Call_worker_exited w m)
    with e p assms worker_locked_model(2)[of w m c pub c'] show ?thesis
      by (intro exI[of _ "WorkerExited w m"]) simp
  qed (use assms in simp_all)
qed

section \<open>Uncovered stays uncovered\<close>

definition live :: "WatcherRecoveryCoordinator \<Rightarrow> bool" where
  "live c \<longleftrightarrow> \<not> crd_poisoned c \<and> sm_ok (model_of c)"

definition exposed :: "WatcherRecoveryCoordinator \<Rightarrow> bool" where
  "exposed c \<longleftrightarrow> live c \<and> uncovered (model_of c)"

lemma exposed_live: "exposed c \<Longrightarrow> live c"
  by (simp add: exposed_def)

lemma perform_live: "bystander call \<Longrightarrow> live c \<Longrightarrow> live (perform call c)"
  using bystander_effect[of call c] sm_ok_apply_op by (auto simp: live_def)

lemma perform_exposed:
  assumes "bystander call" and "live c" and "exposed c \<or> reports_loss call"
  shows "exposed (perform call c)"
  using bystander_effect[of call c] assms sm_ok_apply_op uncovered_step uncovered_loses_coverage
  by (auto simp: live_def exposed_def)

lemma performs_live: "list_all bystander calls \<Longrightarrow> live c \<Longrightarrow> live (performs calls c)"
  by (induction calls arbitrary: c) (simp_all add: performs_def perform_live)

lemma performs_exposed:
  assumes "list_all bystander calls" and "live c" and "exposed c \<or> list_ex reports_loss calls"
  shows "exposed (performs calls c)"
  using assms
proof (induction calls arbitrary: c)
  case (Cons call calls)
  from Cons.prems have "live (perform call c)" by (simp add: perform_live)
  moreover have "exposed (perform call c) \<or> list_ex reports_loss calls"
    using Cons.prems perform_exposed[of call c] by auto
  ultimately show ?case using Cons by (simp add: performs_def)
qed (simp add: performs_def)

lemma with_worker_op:
  "snd (f s) = apply_op op s \<Longrightarrow>
   snd (with_worker w f s) = s \<or> (\<exists>op. snd (with_worker w f s) = apply_op op s)"
  by (auto simp: with_worker_def split: sum.split)

lemma with_worker_quiet_op:
  "snd (f s) = apply_op op s \<Longrightarrow> \<not> scan_begins op s \<Longrightarrow>
   snd (with_worker w f s) = s
   \<or> (\<exists>op. snd (with_worker w f s) = apply_op op s \<and> \<not> scan_begins op s)"
  by (auto simp: with_worker_def split: sum.split)

lemma mutate_live:
  assumes "live c" and "\<And>s. snd (f s) = s \<or> (\<exists>op. snd (f s) = apply_op op s)"
  shows "live (snd (mutate f c))"
  using assms(1) assms(2)[of "model_of c"] sm_ok_apply_op by (auto simp: live_def mutate_model)

lemma mutate_exposed:
  assumes "exposed c"
    and "\<And>s. snd (f s) = s \<or> (\<exists>op. snd (f s) = apply_op op s \<and> \<not> scan_begins op s)"
  shows "exposed (snd (mutate f c))"
  using assms(1) assms(2)[of "model_of c"] sm_ok_apply_op uncovered_step
  by (auto simp: live_def exposed_def mutate_model)

lemma worker_calls_live:
  assumes "live c"
  shows "live (snd (coordinator_start_attempt w m c))"
    and "live (snd (coordinator_record_scan_started w t m c))"
    and "live (snd (coordinator_record_scan_completed w t v m c))"
    and "live (snd (coordinator_record_native_boundary w t h m c))"
    and "live (snd (coordinator_retry_if_due w m c))"
  unfolding coordinator_start_attempt_def coordinator_record_scan_started_def
    coordinator_record_scan_completed_def coordinator_record_native_boundary_def
    coordinator_retry_if_due_def
  by (rule mutate_live[OF assms], rule with_worker_op, rule apply_op.simps[symmetric])+

lemma worker_calls_exposed:
  assumes "exposed c"
  shows "exposed (snd (coordinator_record_scan_completed w t v m c))"
    and "exposed (snd (coordinator_record_native_boundary w t h m c))"
  unfolding coordinator_record_scan_completed_def coordinator_record_native_boundary_def
  by (rule mutate_exposed[OF assms], rule with_worker_quiet_op, rule apply_op.simps[symmetric], simp)+

lemma snapshot_live: "live c \<Longrightarrow> live (snd (coordinator_snapshot c))"
  by (simp add: coordinator_snapshot_def materialize_snapshot_def live_def Let_def)

lemma started_uncovered:
  assumes "start_attempt m s = (Inr tok, s')"
  shows "uncovered s'"
  using assms
  by (auto simp: start_attempt_def next_revision_or_block_def Let_def uncovered_Some commit_def
      uncovered_incident_def AttemptState_new_def
      split: sum.splits option.splits if_splits IdAllocation.splits prod.splits)

lemma mutate_Inr:
  assumes "mutate (with_worker w f) c = (Inr x, c')"
  shows "\<not> crd_poisoned c \<and> sm_active_worker (model_of c) = Some (own_worker_id w)
    \<and> f (model_of c) = (Inr x, model_of c')"
proof -
  have np: "\<not> crd_poisoned c" using assms mutate_model(4)[of c "with_worker w f"] by auto
  obtain r s where f: "with_worker w f (model_of c) = (r, s)" by fastforce
  have "r = Inr x" "s = model_of c'"
    using mutate_model(1,3)[OF np, of "with_worker w f"] assms f
    by (auto simp: map_sum_def split: sum.splits)
  with np f show ?thesis
    by (auto simp: with_worker_def require_worker_def split: sum.splits if_splits option.splits)
qed

lemma start_attempt_exposed:
  assumes "coordinator_start_attempt w m c = (Inr tok, c')" and "live c"
  shows "exposed c'"
  using started_uncovered worker_calls_live(1)[OF assms(2), of w m]
    assms(1) mutate_Inr[of w "start_attempt m" c tok c']
  by (auto simp: exposed_def coordinator_start_attempt_def)

lemma exposed_never_closes:
  assumes "coordinator_offer_close g w tok v m c = (Inr (Closed receipt), c')"
  shows "\<not> exposed c"
proof
  assume "exposed c"
  then have c: "\<not> crd_poisoned c" "sm_ok (model_of c)" "uncovered (model_of c)"
    by (simp_all add: exposed_def live_def)
  have "fst (offer_close_by g w tok v m (model_of c)) = Inr (Closed receipt)"
    using assms c mutate_model(3)[of c "offer_close_by g w tok v m"]
    by (simp add: coordinator_offer_close_def) (auto simp: map_sum_def split: sum.splits)
  then show False
    using uncovered_not_closed[OF c(2,3)]
    by (auto simp: offer_close_by_def with_worker_def Let_def reject_native_close_def
        next_revision_or_block_def
        split: sum.splits option.splits if_splits)
qed

section \<open>What an attempt needs to close\<close>

lemma try_call_Inr:
  assumes "try_call r k = (Inr x, c')"
  obtains y c where "r = (Inr y, c)" "k y c = (Inr x, c')"
  using assms by (auto simp: try_call_def split: prod.splits sum.splits)

lemma record_failure_not_closed: "fst (record_failure w tok f m c) \<noteq> Inr Work_Closed"
  by (auto simp: record_failure_def try_call_def split: prod.splits sum.splits FailureDisposition.splits)

lemma seal_and_close_covered:
  assumes "seal_and_close pass w tok v c = (Inr Work_Closed, c')" and "live c"
    and "\<And>k. list_all bystander (pass_others pass k)"
  shows "\<not> exposed c \<and> \<not> list_ex reports_loss (pass_others pass 4)
    \<and> \<not> list_ex reports_loss (pass_others pass 5)"
proof -
  let ?c = "performs (pass_others pass 4) c"
  obtain h where h: "pass_seal pass = Inr h"
    using assms(1) record_failure_not_closed by (auto simp: seal_and_close_def Let_def split: sum.splits)
      (metis fst_conv)
  define d where "d = snd (coordinator_record_native_boundary w tok h (pass_moment pass 5) ?c)"
  obtain receipt where "coordinator_offer_close (pass_generation pass) w tok v (pass_moment pass 6)
      (performs (pass_others pass 5) d) = (Inr (Closed receipt), c')"
    using assms(1) h by (auto simp: seal_and_close_def Let_def try_call_def d_def
        split: sum.splits prod.splits option.splits CloseDisposition.splits)
  then have "\<not> exposed (performs (pass_others pass 5) d)" by (rule exposed_never_closes)
  moreover have "live d" unfolding d_def
    by (intro worker_calls_live performs_live assms)
  ultimately have d: "\<not> exposed d" "\<not> list_ex reports_loss (pass_others pass 5)"
    using performs_exposed[OF assms(3)] by blast+
  then have "\<not> exposed ?c" using worker_calls_exposed(2)[of ?c] by (auto simp: d_def)
  with d show ?thesis using performs_exposed[OF assms(3) assms(2)] by blast
qed

lemma scan_and_close_covered:
  assumes "scan_and_close pass w tok c = (Inr Work_Closed, c')" and "exposed c"
    and "\<And>k. list_all bystander (pass_others pass k)"
  shows "pass_walk_starts pass \<and> (\<forall>k \<in> {3, 4, 5}. \<not> list_ex reports_loss (pass_others pass k))"
proof -
  define d where "d = (if pass_walk_starts pass
    then walk_start_hook w tok (pass_moment pass 2) c else c)"
  have d: "live d" and start: "\<not> pass_walk_starts pass \<Longrightarrow> exposed d"
    using assms(2) worker_calls_live(2) by (auto simp: d_def walk_start_hook_def exposed_live)
  have p: "live (performs (pass_others pass 3) d)" using assms(3) d by (rule performs_live)
  obtain v e where
    e: "coordinator_record_scan_completed w tok v (pass_moment pass 4)
          (performs (pass_others pass 3) d) = (Inr (), e)"
    and close: "seal_and_close pass w tok v e = (Inr Work_Closed, c')"
    using assms(1) record_failure_not_closed[of w tok]
    by (auto simp: scan_and_close_def Let_def d_def[symmetric] recovery_deadline_def
        elim!: try_call_Inr
        split: option.splits sum.splits if_splits CoverageScanError.splits) (metis fst_conv)+
  have "live e" using worker_calls_live(3)[OF p, of w tok v "pass_moment pass 4"] e by simp
  from seal_and_close_covered[OF close this assms(3)]
  have e': "\<not> exposed e" "\<not> list_ex reports_loss (pass_others pass 4)"
    "\<not> list_ex reports_loss (pass_others pass 5)" by blast+
  then have "\<not> exposed (performs (pass_others pass 3) d)"
    using worker_calls_exposed(1)[of "performs (pass_others pass 3) d" w tok v "pass_moment pass 4"] e
    by auto
  then have "\<not> exposed d" "\<not> list_ex reports_loss (pass_others pass 3)"
    using performs_exposed[OF assms(3) d] by blast+
  with start e' show ?thesis by auto
qed

lemma prepare_recovery_live:
  assumes "prepare_recovery pass w c = (Inr None, c')" and "live c"
    and "\<And>k. list_all bystander (pass_others pass k)"
  shows "live c'"
proof -
  have "live (snd (coordinator_snapshot c))" using assms(2) by (rule snapshot_live)
  then show ?thesis
    using assms(1) worker_calls_live(5)[OF performs_live[OF assms(3)]]
    by (auto simp: prepare_recovery_def try_call_def split: prod.splits sum.splits if_splits
        RecoveryLifecycle.splits WatcherRecoveryCoordinatorError.splits RecoveryTransitionError.splits)
      (metis snd_conv)+
qed

section \<open>Properties of a recovery pass\<close>

text \<open>A pass with every dependency answering, used by the witnesses.\<close>

definition sample_pass :: recovery_pass where
  "sample_pass = \<lparr>pass_moment = (\<lambda>k. tick (k + 2)), pass_others = (\<lambda>_. []),
     pass_cancelled = False, pass_deadline = (\<lambda>_. True), pass_begin_recovery = None,
     pass_request_scan = None, pass_walk_starts = True, pass_wait = Inr 5,
     pass_seal = Inr sample_handoff, pass_before_close = None, pass_generation = 1\<rparr>"

text \<open>
  A pass of the worker that ends in a close saw no loss from the moment its walk
  started: the engine did run the walk-start hook, and between the hook and the close
  offer no other thread reported lost or suppressed coverage, wherever in the pass
  the report was made and however the other threads' calls interleave with it.
\<close>

theorem closed_pass_saw_no_loss:
  assumes "reach recovery_init recovery_step (cs_model (crd_state c))"
    and "\<And>k. list_all bystander (pass_others pass k)"
    and "recover_once pass w c = (Inr Work_Closed, c')"
  shows "pass_walk_starts pass
    \<and> (\<forall>k \<in> {3, 4, 5}. \<not> list_ex reports_loss (pass_others pass k))"
proof -
  have "\<not> crd_poisoned c"
    using assms(3) by (auto simp: recover_once_def prepare_recovery_def coordinator_snapshot_def
        try_call_def)
  with assms(1) have "live c" by (simp add: live_def recovery.reach_inv)
  obtain d where d: "prepare_recovery pass w c = (Inr None, d)"
    using assms(3)
    by (auto simp: recover_once_def prepare_recovery_def try_call_def
        split: prod.splits sum.splits option.splits if_splits RecoveryLifecycle.splits
        WatcherRecoveryCoordinatorError.splits RecoveryTransitionError.splits)
  then have "live d" using prepare_recovery_live \<open>live c\<close> assms(2) by blast
  with assms(2) have p: "live (performs (pass_others pass 1) d)" by (rule performs_live)
  obtain tok e where
    e: "coordinator_start_attempt w (pass_moment pass 1) (performs (pass_others pass 1) d) = (Inr tok, e)"
    and "scan_and_close pass w tok (performs (pass_others pass 2) e) = (Inr Work_Closed, c')"
    using assms(3) d record_failure_not_closed[of w]
    by (auto simp: recover_once_def try_call_def[of "(Inr None, d)"] recovery_deadline_def Let_def
        elim!: try_call_Inr split: option.splits if_splits) (metis fst_conv)+
  moreover have "exposed (performs (pass_others pass 2) e)"
    using assms(2) start_attempt_exposed[OF e p] by (intro performs_exposed) (simp_all add: exposed_live)
  ultimately show ?thesis using assms(2) by (intro scan_and_close_covered)
qed

text \<open>
  A walk whose start was not recorded is not an attempt that failed: when the
  hook did not run before the scan completed, the pass returns the \<open>OutOfOrder\<close> error
  of \<open>record_scan_completed\<close>, no failure is recorded, and the attempt is still in
  flight, so that the worker's next \<open>start_attempt\<close> is refused.
\<close>

theorem unstarted_walk_leaves_attempt:
  assumes "current_attempt_token (cs_model (crd_state c)) = Some tok"
    and "map_option inc_phase (sm_incident (cs_model (crd_state c))) = Some AwaitingCoverage"
    and "sm_active_worker (cs_model (crd_state c)) = Some (own_worker_id w)"
    and "sm_revision (cs_model (crd_state c)) + 1 < MAX_SCHEMA_INTEGER"
    and "\<not> crd_poisoned c"
    and "pass_request_scan pass = None" and "\<not> pass_walk_starts pass" and "pass_others pass 3 = []"
    and "pass_deadline pass 1" and "pass_wait pass = Inr v" and "v \<le> MAX_SCHEMA_INTEGER"
  shows "\<exists>c'. scan_and_close pass w tok c =
      (Inl (Transition (OutOfOrder ''complete authoritative scan'' AwaitingCoverage)), c')
    \<and> cs_model (crd_state c') = cs_model (crd_state c)
    \<and> fst (coordinator_start_attempt w m c') = Inl (Transition AttemptAlreadyInFlight)"
proof -
  let ?s = "model_of c"
  obtain i a where i: "sm_incident ?s = Some i" "inc_phase i = AwaitingCoverage"
    "inc_current_attempt i = Some a" "att_token a = tok"
    using assms(1,2) by (auto simp: current_attempt_token_def)
  have r: "RecoveryRevision_checked_next (sm_revision ?s) = Some (sm_revision ?s + 1)"
    using assms(4) by (rule revision_headroom)
  define c' where "c' = snd (coordinator_record_scan_completed w tok v (pass_moment pass 4) c)"
  have op: "with_worker w (record_scan_completed tok v (pass_moment pass 4)) ?s =
      (Inl (OutOfOrder ''complete authoritative scan'' AwaitingCoverage), ?s)"
    using i r assms(3)
    by (simp add: with_worker_def require_worker_def record_scan_completed_def next_revision_or_block_def
        complete_authoritative_scan_def active_incident_def is_blocked_def)
  have m: "model_of c' = ?s" "crd_poisoned c' = crd_poisoned c"
    using assms(5) op by (simp_all add: c'_def coordinator_record_scan_completed_def mutate_model)
  have "coordinator_record_scan_completed w tok v (pass_moment pass 4) c =
      (Inl (Transition (OutOfOrder ''complete authoritative scan'' AwaitingCoverage)), c')"
    using mutate_model(3)[OF assms(5), of "with_worker w (record_scan_completed tok v (pass_moment pass 4))"] op
    by (intro prod_eqI) (simp_all add: c'_def coordinator_record_scan_completed_def)
  then have "scan_and_close pass w tok c =
      (Inl (Transition (OutOfOrder ''complete authoritative scan'' AwaitingCoverage)), c')"
    using assms(6-11)
    by (simp add: scan_and_close_def Let_def performs_def recovery_deadline_def
        RecoveryScanRevision_new_def try_call_def)
  moreover have "with_worker w (start_attempt m) ?s = (Inl AttemptAlreadyInFlight, ?s)"
    using i r assms(3)
    by (simp add: with_worker_def require_worker_def start_attempt_def next_revision_or_block_def
        is_blocked_def)
  then have "fst (coordinator_start_attempt w m c') = Inl (Transition AttemptAlreadyInFlight)"
    using m assms(5) by (simp add: coordinator_start_attempt_def mutate_model)
  ultimately show ?thesis using m by blast
qed

text \<open>
  A dependency that fails ends the attempt: when recording the failure is accepted,
  no attempt is in flight afterwards and the pass answers exactly how recovery goes on,
  \<open>RetryDeferred\<close> with a deadline set for a retryable failure, \<open>Blocked\<close> for the others.
\<close>

theorem failed_dependency_ends_attempt:
  assumes "record_failure w tok f m c = (Inr disposition, c')"
  shows "current_attempt_token (cs_model (crd_state c')) = None
    \<and> (disposition = Work_RetryDeferred \<longleftrightarrow> is_retryable (df_class f))
    \<and> (disposition = Work_Blocked \<longleftrightarrow> \<not> is_retryable (df_class f))
    \<and> map_option inc_phase (sm_incident (cs_model (crd_state c'))) =
        Some (if is_retryable (df_class f) then BackingOff else Phase_Blocked)"
proof -
  obtain x where r: "coordinator_record_dependency_failure w tok f m c = (Inr x, c')"
    and d: "disposition = (case x of RetryScheduled _ _ _ \<Rightarrow> Work_RetryDeferred
      | Failure_Blocked _ _ \<Rightarrow> Work_Blocked)"
    using assms by (auto simp: record_failure_def elim!: try_call_Inr split: FailureDisposition.splits)
  obtain s' where "record_dependency_failure tok f m (model_of c) = (Inr x, s')" and s': "model_of c' = s'"
    using mutate_Inr[OF r[unfolded coordinator_record_dependency_failure_def]] by blast
  then show ?thesis unfolding s'
    by (auto simp: d record_dependency_failure_def next_revision_or_block_def Let_def commit_def
        current_attempt_token_def active_incident_def matching_attempt_def block_def
        clear_attempt_evidence_def
        split: option.splits sum.splits if_splits)
qed

theorem failed_dependency_ends_attempt_witness:
  "\<exists>c'. record_failure sample_owner sample_token (coverage_failure Coverage_IdentifierExhausted (tick 8)) (tick 8)
      (from_model sample_closing) = (Inr Work_Blocked, c')
    \<and> current_attempt_token (cs_model (crd_state c')) = None"
proof -
  let ?r = "record_failure sample_owner sample_token (coverage_failure Coverage_IdentifierExhausted (tick 8)) (tick 8)
      (from_model sample_closing)"
  have "fst ?r = Inr Work_Blocked"
    by (simp add: record_failure_def coordinator_record_dependency_failure_def mutate_def
        mutate_locked_def from_model_def Let_def with_worker_def try_call_def sample_closing_def
        sample_owner_def sample_defs machine_defs DependencyFailure_new_def is_retryable_def)
  then have "?r = (Inr Work_Blocked, snd ?r)" by (metis prod.collapse)
  from failed_dependency_ends_attempt[OF this] this show ?thesis by metis
qed

theorem unstarted_walk_leaves_attempt_witness:
  "\<exists>c'. scan_and_close (sample_pass\<lparr>pass_walk_starts := False\<rparr>) sample_owner sample_token
      (from_model (run [StartAttempt (tick 2)] sample_rearming)) =
      (Inl (Transition (OutOfOrder ''complete authoritative scan'' AwaitingCoverage)), c')
    \<and> fst (coordinator_start_attempt sample_owner (tick 9) c') =
        Inl (Transition AttemptAlreadyInFlight)"
proof -
  let ?c = "from_model (run [StartAttempt (tick 2)] sample_rearming)"
  have "current_attempt_token (model_of ?c) = Some sample_token"
    "map_option inc_phase (sm_incident (model_of ?c)) = Some AwaitingCoverage"
    "sm_active_worker (model_of ?c) = Some (own_worker_id sample_owner)"
    "sm_revision (model_of ?c) + 1 < MAX_SCHEMA_INTEGER" "\<not> crd_poisoned ?c"
    by (simp_all add: from_model_def Let_def current_attempt_token_def sample_rearming_def
        sample_owner_def sample_defs machine_defs)
  from unstarted_walk_leaves_attempt[OF this, of "sample_pass\<lparr>pass_walk_starts := False\<rparr>" 5]
  show ?thesis by (fastforce simp: sample_pass_def MAX_SCHEMA_INTEGER_def)
qed

theorem closed_pass_saw_no_loss_witness:
  "\<exists>c'. recover_once sample_pass sample_owner (from_model sample_rearming) = (Inr Work_Closed, c')
    \<and> pass_walk_starts sample_pass"
proof -
  let ?r = "recover_once sample_pass sample_owner (from_model sample_rearming)"
  have "fst ?r = Inr Work_Closed"
    by (simp add: recover_once_def prepare_recovery_def scan_and_close_def seal_and_close_def
        try_call_def performs_def recovery_deadline_def walk_start_hook_def from_model_def
        coordinator_snapshot_def materialize_snapshot_def snapshot_def from_input_def lifecycle_def
        RecoverySnapshotInput.defs WatcherRecoverySnapshot.defs
        coordinator_start_attempt_def coordinator_record_scan_started_def
        coordinator_record_scan_completed_def coordinator_record_native_boundary_def
        coordinator_offer_close_def mutate_def mutate_locked_def publish_pending_def Let_def
        with_worker_def offer_close_by_def current_attempt_token_def current_native_boundary_def
        from_attempt_evidence_def acb_is_current_def guard_is_current_def RecoveryScanRevision_new_def
        elapsed_since_def checked_sub_u64_def try_from_input_def u64_try_from_def MAX_DURATION_MS_def
        Duration_as_millis_def Duration_from_millis_def u64_MAX_def
        sample_pass_def sample_rearming_def sample_owner_def sample_defs machine_defs)
  then have r: "?r = (Inr Work_Closed, snd ?r)" by (metis prod.collapse)
  have "reach recovery_init recovery_step (model_of (from_model sample_rearming))"
    using reach_run[OF reach_sample_start, of "[ReplaceWorker (tick 1)]"]
    by (simp add: from_model_def Let_def sample_rearming_def)
  moreover have "list_all bystander (pass_others sample_pass k)" for k
    by (simp add: sample_pass_def)
  ultimately have "pass_walk_starts sample_pass" using closed_pass_saw_no_loss r by blast
  with r show ?thesis by blast
qed

section \<open>A pass that nothing disturbs\<close>

text \<open>Only ordinary activity is observed by other threads.\<close>

fun is_activity :: "coordinator_call \<Rightarrow> bool" where
  "is_activity (Call_observe_activity m) = True"
| "is_activity _ = False"

definition same_but_activity :: "RecoveryStateMachine \<Rightarrow> nat \<Rightarrow> RecoveryStateMachine \<Rightarrow> bool" where
  "same_but_activity s n t \<longleftrightarrow>
     (\<exists>at. t = s\<lparr>sm_activity_watermark := sm_activity_watermark s + n,
        sm_revision := sm_revision s + n, sm_last_transition_at := at\<rparr>)"

definition headroom :: "nat \<Rightarrow> RecoveryStateMachine \<Rightarrow> bool" where
  "headroom n s \<longleftrightarrow> sm_revision s + n < MAX_SCHEMA_INTEGER \<and> sm_activity_watermark s + n < MAX_SCHEMA_INTEGER"

lemma activity_perform:
  assumes "is_activity call" and "\<not> crd_poisoned c" and "headroom (Suc n) (model_of c)"
  shows "same_but_activity (model_of c) 1 (model_of (perform call c))
    \<and> \<not> crd_poisoned (perform call c)"
proof -
  obtain m where call: "call = Call_observe_activity m" using assms(1) by (cases call) simp_all
  obtain pub c' where e: "critical call c = (pub, c')" by (cases "critical call c")
  have "model_of c' = snd (observe_activity m (model_of c))" "\<not> crd_poisoned c'"
    using e call mutate_locked_model[of "observe_activity m" c pub c'] assms(2) by simp_all
  with e activity_run[of "model_of c" "[m]"] assms(3) show ?thesis
    by (simp add: perform_def same_but_activity_def headroom_def)
qed

lemma same_but_activity_trans:
  "same_but_activity s m t \<Longrightarrow> same_but_activity t n u \<Longrightarrow> same_but_activity s (m + n) u"
  by (auto simp: same_but_activity_def add.assoc)

lemma headroom_same:
  "headroom (m + n) s \<Longrightarrow> same_but_activity s m t \<Longrightarrow> headroom n t"
  by (auto simp: same_but_activity_def headroom_def)

lemma activity_performs:
  assumes "list_all is_activity calls" and "\<not> crd_poisoned c"
    and "headroom (length calls + n) (model_of c)"
  shows "same_but_activity (model_of c) (length calls) (model_of (performs calls c))
    \<and> \<not> crd_poisoned (performs calls c) \<and> headroom n (model_of (performs calls c))"
  using assms
proof (induction calls arbitrary: c)
  case Nil
  then show ?case
    by (auto simp: performs_def same_but_activity_def intro: exI[of _ "sm_last_transition_at (model_of c)"])
next
  case (Cons call calls)
  have p: "same_but_activity (model_of c) 1 (model_of (perform call c))" "\<not> crd_poisoned (perform call c)"
    using activity_perform[of call c "length calls + n"] Cons.prems by simp_all
  have "headroom (length calls + n) (model_of (perform call c))"
    using headroom_same[OF _ p(1), of "length calls + n"] Cons.prems(3) by simp
  from Cons.IH[OF _ p(2) this] Cons.prems(1) p(1) show ?case
    by (auto simp: performs_def dest: same_but_activity_trans)
qed

text \<open>An attempt that has come as far as a phase, with room for n more revisions.\<close>

definition attempt_at ::
  "RecoveryPhase \<Rightarrow> RecoveryWorkerOwnership \<Rightarrow> AttemptToken \<Rightarrow> bool \<Rightarrow> RecoveryScanRevision option \<Rightarrow>
   AttemptCoverageBoundary option \<Rightarrow> WatcherCoverageHandoff \<Rightarrow> RecoveryInstant \<Rightarrow> nat \<Rightarrow>
   WatcherRecoveryCoordinator \<Rightarrow> bool" where
  "attempt_at phase w tok started v b h since n c \<longleftrightarrow>
     \<not> crd_poisoned c \<and> headroom n (model_of c)
     \<and> sm_active_worker (model_of c) = Some (own_worker_id w)
     \<and> (\<exists>i a. sm_incident (model_of c) = Some i \<and> inc_phase i = phase \<and> \<not> inc_rescan_required i
          \<and> inc_scan_count i < MAX_RECOVERY_COUNT + (if started then 1 else 0)
          \<and> inc_started_tick i = since \<and> inc_current_attempt i = Some a \<and> att_token a = tok
          \<and> att_scan_started a = started \<and> att_scan_revision a = v \<and> att_native_boundary a = b
          \<and> inc_native_coverage i = b)
     \<and> (b = None \<longrightarrow>
          (\<forall>x. sm_last_native_boundary_id (model_of c) = Some x \<longrightarrow> x < handoff_boundary_id h)
          \<and> (\<forall>e. sm_last_native_epoch (model_of c) = Some e \<longrightarrow> e \<le> handoff_live_stream_epoch h))
     \<and> (\<forall>x. b = Some x \<longrightarrow> acb_loss_watermark x = sm_loss_watermark (model_of c) \<and> acb_handoff x = h)"

lemma attempt_at_performs:
  assumes "attempt_at ph w tok st v b h since (length calls + n) c" and "list_all is_activity calls"
  shows "attempt_at ph w tok st v b h since n (performs calls c)"
proof -
  have "same_but_activity (model_of c) (length calls) (model_of (performs calls c))
    \<and> \<not> crd_poisoned (performs calls c) \<and> headroom n (model_of (performs calls c))"
    using assms by (intro activity_performs) (simp_all add: attempt_at_def)
  with assms(1) show ?thesis by (auto simp: attempt_at_def same_but_activity_def)
qed

lemma mutate_step:
  assumes "\<not> crd_poisoned c" and "sm_active_worker (model_of c) = Some (own_worker_id w)"
    and "f (model_of c) = (Inr x, t)"
  shows "fst (mutate (with_worker w f) c) = Inr x \<and> model_of (snd (mutate (with_worker w f) c)) = t
    \<and> \<not> crd_poisoned (snd (mutate (with_worker w f) c))"
  using assms by (simp add: mutate_model with_worker_def require_worker_def)

lemma attempt_starts:
  assumes "\<not> crd_poisoned c" and "headroom (Suc n) (model_of c)"
    and "sm_incident (model_of c) = Some i" and "inc_phase i = Rearming" and "inc_current_attempt i = None"
    and "sm_active_worker (model_of c) = Some (own_worker_id w)"
    and "0 < sm_next_attempt_id (model_of c)" and "sm_next_attempt_id (model_of c) < u64_MAX"
    and "inc_attempt_count i < MAX_RECOVERY_COUNT" and "inc_scan_count i < MAX_RECOVERY_COUNT"
    and "\<forall>x. sm_last_native_boundary_id (model_of c) = Some x \<longrightarrow> x < handoff_boundary_id h"
    and "\<forall>e. sm_last_native_epoch (model_of c) = Some e \<longrightarrow> e \<le> handoff_live_stream_epoch h"
  obtains tok c' where "coordinator_start_attempt w m c = (Inr tok, c')"
    "attempt_at AwaitingCoverage w tok False None None h (inc_started_tick i) n c'"
proof -
  have r: "sm_revision (model_of c) + 1 < MAX_SCHEMA_INTEGER" using assms(2) by (simp add: headroom_def)
  define c' where "c' = snd (coordinator_start_attempt w m c)"
  note s = mutate_step[where f = "start_attempt m", OF assms(1,6) start_attempt_ok[OF assms(3-6) r assms(7-9), of m]]
  then obtain tok where "coordinator_start_attempt w m c = (Inr tok, c')"
    by (metis c'_def coordinator_start_attempt_def prod.collapse)
  moreover from this have "attempt_at AwaitingCoverage w tok False None None h (inc_started_tick i) n c'"
    using s assms(2,6,10-12)
    by (auto simp: attempt_at_def headroom_def coordinator_start_attempt_def commit_def AttemptState_new_def)
  ultimately show ?thesis by (rule that)
qed

lemma attempt_scan_starts:
  assumes "attempt_at AwaitingCoverage w tok False None None h since (Suc n) c"
  shows "attempt_at Scanning w tok True None None h since n (walk_start_hook w tok m c)"
proof -
  obtain i a where i: "sm_incident (model_of c) = Some i" "inc_phase i = AwaitingCoverage"
    "inc_current_attempt i = Some a" "att_token a = tok" "\<not> att_scan_started a" "att_scan_revision a = None"
    "inc_scan_count i < MAX_RECOVERY_COUNT" "inc_started_tick i = since" "att_native_boundary a = None"
    and np: "\<not> crd_poisoned c" "sm_active_worker (model_of c) = Some (own_worker_id w)"
    and r: "sm_revision (model_of c) + 1 < MAX_SCHEMA_INTEGER"
    using assms by (auto simp: attempt_at_def headroom_def)
  show ?thesis
    using mutate_step[where f = "record_scan_started tok m", OF np record_scan_started_ok[OF i(1-6) r i(7), of m]] assms i
    by (auto simp: attempt_at_def walk_start_hook_def coordinator_record_scan_started_def headroom_def
        commit_def)
qed

lemma attempt_scan_completes:
  assumes "attempt_at Scanning w tok True None None h since (Suc n) c"
  obtains c' where "coordinator_record_scan_completed w tok v m c = (Inr (), c')"
    "attempt_at AwaitingSeal w tok True (Some v) None h since n c'"
proof -
  obtain i a where i: "sm_incident (model_of c) = Some i" "inc_phase i = Scanning"
    "inc_current_attempt i = Some a" "att_token a = tok" "att_scan_started a" "att_scan_revision a = None"
    and np: "\<not> crd_poisoned c" "sm_active_worker (model_of c) = Some (own_worker_id w)"
    and r: "sm_revision (model_of c) + 1 < MAX_SCHEMA_INTEGER"
    using assms by (auto simp: attempt_at_def headroom_def)
  note s = mutate_step[where f = "record_scan_completed tok v m", OF np record_scan_completed_ok[OF i r, of v m]]
  define c' where "c' = snd (coordinator_record_scan_completed w tok v m c)"
  have "coordinator_record_scan_completed w tok v m c = (Inr (), c')"
    using s by (simp add: c'_def coordinator_record_scan_completed_def prod_eq_iff)
  moreover have "attempt_at AwaitingSeal w tok True (Some v) None h since n c'"
    using s assms i by (auto simp: attempt_at_def c'_def coordinator_record_scan_completed_def
        headroom_def commit_def)
  ultimately show ?thesis by (rule that)
qed

lemma attempt_seals:
  assumes "attempt_at AwaitingSeal w tok True (Some v) None h since (Suc n) c"
  obtains c' b where "coordinator_record_native_boundary w tok h m c = (Inr (), c')"
    "attempt_at Closing w tok True (Some v) (Some b) h since n c'"
proof -
  obtain i a where i: "sm_incident (model_of c) = Some i" "inc_phase i = AwaitingSeal"
    "inc_current_attempt i = Some a" "att_token a = tok"
    and np: "\<not> crd_poisoned c" "sm_active_worker (model_of c) = Some (own_worker_id w)"
    and r: "sm_revision (model_of c) + 1 < MAX_SCHEMA_INTEGER"
    and native: "\<forall>x. sm_last_native_boundary_id (model_of c) = Some x \<longrightarrow> x < handoff_boundary_id h"
      "\<forall>e. sm_last_native_epoch (model_of c) = Some e \<longrightarrow> e \<le> handoff_live_stream_epoch h"
    using assms by (auto simp: attempt_at_def headroom_def)
  note s = mutate_step[where f = "record_native_boundary tok h m", OF np record_native_boundary_ok[OF i r native, of m]]
  define c' where "c' = snd (coordinator_record_native_boundary w tok h m c)"
  define b where "b = acb_admitted (sm_activity_watermark (model_of c)) (sm_loss_watermark (model_of c)) h"
  have "coordinator_record_native_boundary w tok h m c = (Inr (), c')"
    using s by (simp add: c'_def coordinator_record_native_boundary_def prod_eq_iff)
  moreover have "attempt_at Closing w tok True (Some v) (Some b) h since n c'"
    using s assms i by (auto simp: attempt_at_def c'_def coordinator_record_native_boundary_def
        headroom_def commit_def b_def acb_admitted_def)
  ultimately show ?thesis by (rule that)
qed

lemma attempt_closes:
  assumes "attempt_at Closing w tok True (Some v) (Some b) h since (Suc n) c"
    and "guard_is_current g (ho_close_token h)"
    and "since \<le> monotonic m" "monotonic m - since \<le> MAX_DURATION_MS" "monotonic m \<le> u64_MAX"
  obtains c' receipt where "coordinator_offer_close g w tok v m c = (Inr (Closed receipt), c')"
    "sm_incident (model_of c') = None"
proof -
  obtain i a where i: "sm_incident (model_of c) = Some i" "inc_phase i = Closing"
    "inc_current_attempt i = Some a" "att_token a = tok" "\<not> inc_rescan_required i"
    "inc_started_tick i = since" "att_native_boundary a = Some b" "att_scan_revision a = Some v"
    "inc_native_coverage i = Some b"
    and np: "\<not> crd_poisoned c" "sm_active_worker (model_of c) = Some (own_worker_id w)"
    and r: "sm_revision (model_of c) + 1 < MAX_SCHEMA_INTEGER"
    and b: "acb_loss_watermark b = sm_loss_watermark (model_of c)" "acb_handoff b = h"
    using assms(1) by (auto simp: attempt_at_def headroom_def)
  let ?o = "from_attempt_evidence tok b v"
  obtain receipt where "close_granted ?o m (model_of c) receipt i a b"
    using i b assms(3,4) by (simp add: close_granted_def from_attempt_evidence_def)
  from close_granted_closes[OF this r assms(5)]
  obtain t where t: "offer_close ?o m (model_of c) = (Inr (Closed receipt), t)" "sm_incident t = None"
    by (simp add: commit_def)
  have "offer_close_by g w tok v m (model_of c) = (Inr (Closed receipt), t)"
    using i np b assms(2) t
    by (simp add: offer_close_by_def with_worker_def require_worker_def current_attempt_token_def
        current_native_boundary_def acb_is_current_def Let_def from_attempt_evidence_def)
  with np(1) t(2) show ?thesis
    by (intro that[of receipt "snd (coordinator_offer_close g w tok v m c)"])
      (simp_all add: coordinator_offer_close_def mutate_model prod_eq_iff)
qed

text \<open>
  A pass that nothing disturbs closes the incident: when the incident is rearming
  under this worker, the dependencies answer, the native boundary is new and its
  authority current, the pass ends in a close and recovery is nominal, however much
  ordinary activity other threads admit during the pass.
\<close>

theorem undisturbed_pass_closes:
  assumes "reach recovery_init recovery_step (cs_model (crd_state c))" and "\<not> crd_poisoned c"
    and "cs_snapshot (crd_state c) = snapshot (cs_model (crd_state c))"
    and "sm_incident (cs_model (crd_state c)) = Some i" and "inc_phase i = Rearming"
    and "sm_active_worker (cs_model (crd_state c)) = Some (own_worker_id w)"
    and "headroom (length (concat (map (pass_others pass) [1, 2, 3, 4, 5])) + 5) (cs_model (crd_state c))"
    and "sm_next_attempt_id (cs_model (crd_state c)) < u64_MAX"
    and "inc_attempt_count i < MAX_RECOVERY_COUNT" and "inc_scan_count i < MAX_RECOVERY_COUNT"
    and "\<And>k. list_all is_activity (pass_others pass k)"
    and "\<not> pass_cancelled pass" and "\<And>k. pass_deadline pass k"
    and "pass_begin_recovery pass = None" and "pass_request_scan pass = None" and "pass_walk_starts pass"
    and "pass_wait pass = Inr v" and "v \<le> MAX_SCHEMA_INTEGER"
    and "pass_seal pass = Inr h" and "pass_before_close pass = None"
    and "guard_is_current (pass_generation pass) (ho_close_token h)"
    and "\<forall>b. sm_last_native_boundary_id (cs_model (crd_state c)) = Some b \<longrightarrow> b < handoff_boundary_id h"
    and "\<forall>e. sm_last_native_epoch (cs_model (crd_state c)) = Some e \<longrightarrow> e \<le> handoff_live_stream_epoch h"
    and "inc_started_tick i \<le> monotonic (pass_moment pass 6)"
    and "monotonic (pass_moment pass 6) - inc_started_tick i \<le> MAX_DURATION_MS"
    and "monotonic (pass_moment pass 6) \<le> u64_MAX"
  shows "\<exists>c'. recover_once pass w c = (Inr Work_Closed, c')
    \<and> lifecycle (cs_model (crd_state c')) = Lifecycle_Nominal"
proof -
  let ?n = "\<lambda>k. length (pass_others pass k)"
  have "sm_ok (model_of c)" using assms(1) by (rule recovery.reach_inv)
  then have none: "inc_current_attempt i = None" and pos: "0 < sm_next_attempt_id (model_of c)"
    using assms(4,5)
    by (simp_all add: sm_ok_def ids_ok_def incident_ok_def phase_invariant_def no_attempt_evidence_def)
  have nb: "\<not> is_blocked i" using assms(5) by (simp add: is_blocked_def)
  have prep: "prepare_recovery pass w c = (Inr None, c)"
    using assms(2-5) nb
    by (simp add: prepare_recovery_def try_call_def coordinator_snapshot_def materialize_snapshot_def
        snapshot_def from_input_def lifecycle_def RecoverySnapshotInput.defs WatcherRecoverySnapshot.defs Let_def)
  define c1 where "c1 = performs (pass_others pass 1) c"
  have "headroom (?n 1 + Suc (?n 2 + Suc (?n 3 + Suc (?n 4 + Suc (?n 5 + 1))))) (model_of c)"
    using assms(7) by (simp add: headroom_def)
  note c1 = activity_performs[OF assms(11) assms(2) this, folded c1_def, THEN conjunct1]
    activity_performs[OF assms(11) assms(2) this, folded c1_def, THEN conjunct2, THEN conjunct1]
    activity_performs[OF assms(11) assms(2) this, folded c1_def, THEN conjunct2, THEN conjunct2]
  have pre: "sm_incident (model_of c1) = Some i"
    "sm_active_worker (model_of c1) = Some (own_worker_id w)"
    "0 < sm_next_attempt_id (model_of c1)" "sm_next_attempt_id (model_of c1) < u64_MAX"
    "\<forall>b. sm_last_native_boundary_id (model_of c1) = Some b \<longrightarrow> b < handoff_boundary_id h"
    "\<forall>e. sm_last_native_epoch (model_of c1) = Some e \<longrightarrow> e \<le> handoff_live_stream_epoch h"
    using c1(1) assms(4,6,8,22,23) pos by (auto simp: same_but_activity_def)
  obtain tok c2 where start: "coordinator_start_attempt w (pass_moment pass 1) c1 = (Inr tok, c2)"
    and c2: "attempt_at AwaitingCoverage w tok False None None h (inc_started_tick i)
      (?n 2 + Suc (?n 3 + Suc (?n 4 + Suc (?n 5 + 1)))) c2"
    by (rule attempt_starts[OF c1(2,3) pre(1) assms(5) none pre(2-4) assms(9,10) pre(5,6)])
  define c3 where "c3 = walk_start_hook w tok (pass_moment pass 2) (performs (pass_others pass 2) c2)"
  have "attempt_at Scanning w tok True None None h (inc_started_tick i) (?n 3 + Suc (?n 4 + Suc (?n 5 + 1))) c3"
    unfolding c3_def by (intro attempt_scan_starts attempt_at_performs c2 assms(11))
  from attempt_scan_completes[OF attempt_at_performs[OF this assms(11)], of v "pass_moment pass 4"]
  obtain c4 where scan: "coordinator_record_scan_completed w tok v (pass_moment pass 4)
      (performs (pass_others pass 3) c3) = (Inr (), c4)"
    and "attempt_at AwaitingSeal w tok True (Some v) None h (inc_started_tick i) (?n 4 + Suc (?n 5 + 1)) c4" .
  from attempt_seals[OF attempt_at_performs[OF this(2) assms(11)], of "pass_moment pass 5"]
  obtain c5 b where seal: "coordinator_record_native_boundary w tok h (pass_moment pass 5)
      (performs (pass_others pass 4) c4) = (Inr (), c5)"
    and "attempt_at Closing w tok True (Some v) (Some b) h (inc_started_tick i) (?n 5 + 1) c5" .
  from attempt_closes[OF attempt_at_performs[OF this(2) assms(11), simplified] assms(21,24-26)]
  obtain c6 receipt where close: "coordinator_offer_close (pass_generation pass) w tok v
      (pass_moment pass 6) (performs (pass_others pass 5) c5) = (Inr (Closed receipt), c6)"
    and "sm_incident (model_of c6) = None" .
  have "seal_and_close pass w tok v c4 = (Inr Work_Closed, c6)"
    using seal close assms(19,20) by (simp add: seal_and_close_def try_call_def Let_def)
  then have "scan_and_close pass w tok (performs (pass_others pass 2) c2) = (Inr Work_Closed, c6)"
    using scan assms(13,15-18) c3_def
    by (simp add: scan_and_close_def try_call_def Let_def recovery_deadline_def RecoveryScanRevision_new_def)
  then have "recover_once pass w c = (Inr Work_Closed, c6)"
    using prep start assms(12-14) c1_def
    by (simp add: recover_once_def try_call_def Let_def recovery_deadline_def)
  with \<open>sm_incident (model_of c6) = None\<close> show ?thesis by (simp add: lifecycle_def)
qed

theorem undisturbed_pass_closes_witness:
  "\<exists>c'. recover_once (sample_pass\<lparr>pass_others := (\<lambda>_. [Call_observe_activity (tick 4)])\<rparr>) sample_owner
      (from_model sample_rearming) = (Inr Work_Closed, c')
    \<and> lifecycle (cs_model (crd_state c')) = Lifecycle_Nominal"
proof -
  have c: "model_of (from_model sample_rearming) = sample_rearming"
    "cs_snapshot (crd_state (from_model sample_rearming)) = snapshot sample_rearming"
    "\<not> crd_poisoned (from_model sample_rearming)"
    by (simp_all add: from_model_def Let_def)
  have "reach recovery_init recovery_step sample_rearming"
    unfolding sample_rearming_def by (rule reach_run) (rule reach_sample_start)
  then show ?thesis
    by (intro undisturbed_pass_closes[where i = "IncidentState_new 1 StartupReconciliation (tick 0)"
          and h = sample_handoff and v = 5])
      (simp_all add: c sample_rearming_facts new_incident_facts sample_pass_def sample_owner_def
        headroom_def MAX_SCHEMA_INTEGER_def MAX_DURATION_MS_def u64_MAX_def tick_monotonic
        guard_is_current_def sample_handoff_def)
qed

end
