(* ===== verification/Workspace_Paths.thy ===== *)
theory Workspace_Paths
  imports Bowline_Prelude "HOL-Library.List_Lexorder" "HOL-Library.Char_ord"
begin

text \<open>
  Workspace paths: \<open>normalize_workspace_path\<close> of \<^verbatim>\<open>workspace_graph.rs\<close>, the private
  state predicates of \<^verbatim>\<open>policy/state_paths.rs\<close>, and the one predicate that decides
  which paths may stand in a manifest, \<open>publishable_workspace_path\<close> of
  \<^verbatim>\<open>manifest_engine/manifest.rs\<close>. A Rust \<open>str\<close> is its UTF-8 bytes, so a path is a
  list of characters, its length the number of bytes, and its order the bytewise
  lexicographic one.
\<close>

section \<open>String operations of the standard library\<close>

abbreviation slash :: char where
  "slash \<equiv> CHR ''/''"

abbreviation backslash :: char where
  "backslash \<equiv> CHR 0x5C"

text \<open>\<open>split(c)\<close>: the empty string has one empty part.\<close>

fun split_on :: "char \<Rightarrow> string \<Rightarrow> string list" where
  "split_on c [] = [[]]"
| "split_on c (x # xs) =
     (if x = c then [] # split_on c xs
      else (case split_on c xs of [] \<Rightarrow> [[x]] | part # parts \<Rightarrow> (x # part) # parts))"

text \<open>\<open>contains("//")\<close> and \<open>replace("//", "/")\<close>, which takes matches from the left without overlap.\<close>

fun has_double_slash :: "string \<Rightarrow> bool" where
  "has_double_slash (x # y # s) \<longleftrightarrow> (x = slash \<and> y = slash) \<or> has_double_slash (y # s)"
| "has_double_slash _ = False"

fun replace_double_slash :: "string \<Rightarrow> string" where
  "replace_double_slash (x # y # s) =
     (if x = slash \<and> y = slash then slash # replace_double_slash s
      else x # replace_double_slash (y # s))"
| "replace_double_slash s = s"

fun trim_start_dot_slash :: "string \<Rightarrow> string" where
  "trim_start_dot_slash (x # y # s) =
     (if x = CHR ''.'' \<and> y = slash then trim_start_dot_slash s else x # y # s)"
| "trim_start_dot_slash s = s"

definition trim_start_slash :: "string \<Rightarrow> string" where
  "trim_start_slash s = dropWhile (\<lambda>c. c = slash) s"

definition trim_end_slash :: "string \<Rightarrow> string" where
  "trim_end_slash s = rev (dropWhile (\<lambda>c. c = slash) (rev s))"

definition strip_prefix :: "string \<Rightarrow> string \<Rightarrow> string option" where
  "strip_prefix p s = (if prefix p s then Some (drop (length p) s) else None)"

definition strip_suffix :: "string \<Rightarrow> string \<Rightarrow> string option" where
  "strip_suffix p s = (if suffix p s then Some (take (length s - length p) s) else None)"

section \<open>Normalization\<close>

text \<open>The two loops of \<open>normalize_workspace_path\<close>: each turn of either shortens the path.\<close>

lemma replace_double_slash_length: "length (replace_double_slash s) \<le> length s"
  by (induction s rule: replace_double_slash.induct) auto

lemma replace_double_slash_shorter:
  "has_double_slash s \<Longrightarrow> length (replace_double_slash s) < length s"
proof (induction s rule: replace_double_slash.induct)
  case (1 x y s)
  then show ?case using replace_double_slash_length[of s] by auto
qed simp_all

function collapse_slashes :: "string \<Rightarrow> string" where
  "collapse_slashes s =
     (if has_double_slash s then collapse_slashes (replace_double_slash s) else s)"
  by pat_completeness auto
termination
  by (relation "measure length") (auto simp: replace_double_slash_shorter)

declare collapse_slashes.simps [simp del]

definition trim_once :: "string \<Rightarrow> string" where
  "trim_once s = trim_end_slash (trim_start_slash (trim_start_dot_slash s))"

lemma trim_start_dot_slash_length: "length (trim_start_dot_slash s) \<le> length s"
  by (induction s rule: trim_start_dot_slash.induct) auto

lemma trim_once_length: "length (trim_once s) \<le> length s"
proof -
  have "length (trim_once s) \<le> length (trim_start_slash (trim_start_dot_slash s))"
    by (simp add: trim_once_def trim_end_slash_def) (metis length_dropWhile_le length_rev)
  also have "\<dots> \<le> length (trim_start_dot_slash s)"
    by (simp add: trim_start_slash_def length_dropWhile_le)
  also have "\<dots> \<le> length s" by (rule trim_start_dot_slash_length)
  finally show ?thesis .
qed

function trim_path :: "string \<Rightarrow> string" where
  "trim_path s =
     (let trimmed = trim_once s
      in if length trimmed = length s then s else trim_path trimmed)"
  by pat_completeness auto
termination
  using trim_once_length by (relation "measure length") (auto simp: le_neq_implies_less)

declare trim_path.simps [simp del]

definition normalize_workspace_path :: "string \<Rightarrow> string" where
  "normalize_workspace_path path =
     (let normalized = map (\<lambda>c. if c = backslash then slash else c) path;
          normalized = collapse_slashes normalized;
          normalized = trim_path normalized
      in if normalized = ''.'' then [] else normalized)"

section \<open>Private engine state\<close>

definition is_recovery_nonce_component :: "string \<Rightarrow> string \<Rightarrow> bool" where
  "is_recovery_nonce_component name pfx =
     (case Option.bind (strip_prefix pfx name) (strip_suffix ''.tmp'') of
        None \<Rightarrow> False
      | Some nonce \<Rightarrow>
          length nonce = 32 \<and> list_all (\<lambda>c. c \<in> set ''0123456789abcdef'') nonce)"

definition is_recovery_temp_component :: "string \<Rightarrow> bool" where
  "is_recovery_temp_component name = is_recovery_nonce_component name ''.bowline-recovery-''"

definition is_recovery_quarantine_component :: "string \<Rightarrow> bool" where
  "is_recovery_quarantine_component name =
     is_recovery_nonce_component name ''.bowline-recovery-quarantine-''"

definition is_private_workspace_state_path :: "string \<Rightarrow> bool" where
  "is_private_workspace_state_path path \<longleftrightarrow>
     path = ''.bowline''
     \<or> prefix ''.bowline/'' path
     \<or> list_ex (\<lambda>part.
          (prefix ''.bowline-materialize-'' part \<and> suffix ''.tmp'' part)
          \<or> is_recovery_temp_component part
          \<or> is_recovery_quarantine_component part) (split_on slash path)"

section \<open>Publishable paths\<close>

definition MAX_WORKSPACE_PATH_LEN :: u64 where
  "MAX_WORKSPACE_PATH_LEN = 4096"

definition MAX_WORKSPACE_PATH_DEPTH :: u64 where
  "MAX_WORKSPACE_PATH_DEPTH = 256"

datatype PathRejection =
    Path_Empty
  | Path_Absolute
  | Path_NotNormalized
  | Path_Traversal
  | Path_PrivateEngineState
  | Path_TooLong
  | Path_TooDeep

fun rejection_reason :: "PathRejection \<Rightarrow> string" where
  "rejection_reason Path_Empty = ''path is empty''"
| "rejection_reason Path_Absolute = ''path is absolute''"
| "rejection_reason Path_NotNormalized = ''path is not normalized-relative''"
| "rejection_reason Path_Traversal = ''path escapes the workspace''"
| "rejection_reason Path_PrivateEngineState = ''path is private engine state''"
| "rejection_reason Path_TooLong = ''path exceeds the maximum length''"
| "rejection_reason Path_TooDeep = ''path exceeds the maximum depth''"

definition publishable_workspace_path :: "string \<Rightarrow> u64 \<Rightarrow> bool \<Rightarrow> PathRejection + unit" where
  "publishable_workspace_path path max_path_len allow_workspace_state_paths =
     (if path = [] then Inl Path_Empty
      else if length path > max_path_len then Inl Path_TooLong
      else if prefix [slash] path then Inl Path_Absolute
      else if length (split_on slash path) > MAX_WORKSPACE_PATH_DEPTH then Inl Path_TooDeep
      else if list_ex (\<lambda>part. part = ''..'' \<or> part = ''.'') (split_on slash path)
        then Inl Path_Traversal
      else if normalize_workspace_path path \<noteq> path then Inl Path_NotNormalized
      else if \<not> allow_workspace_state_paths \<and> is_private_workspace_state_path path
        then Inl Path_PrivateEngineState
      else Inr ())"

section \<open>What normalization leaves\<close>

text \<open>A canonical path is one that normalization has nothing to do to.\<close>

definition canonical_path :: "string \<Rightarrow> bool" where
  "canonical_path s \<longleftrightarrow>
     backslash \<notin> set s \<and> \<not> has_double_slash s \<and> \<not> prefix [slash] s \<and> \<not> suffix [slash] s
     \<and> \<not> prefix ''./'' s \<and> s \<noteq> ''.''"

lemma collapse_no_double: "\<not> has_double_slash (collapse_slashes s)"
  by (induction s rule: collapse_slashes.induct) (subst collapse_slashes.simps, simp)

lemma collapse_id: "\<not> has_double_slash s \<Longrightarrow> collapse_slashes s = s"
  by (subst collapse_slashes.simps) simp

lemma replace_double_slash_set: "set (replace_double_slash s) \<subseteq> set s"
  by (induction s rule: replace_double_slash.induct) auto

lemma collapse_set: "set (collapse_slashes s) \<subseteq> set s"
proof (induction s rule: collapse_slashes.induct)
  case (1 s)
  then show ?case using replace_double_slash_set[of s]
    by (subst collapse_slashes.simps) auto
qed

text \<open>Trimming leaves an infix, so it brings back neither a double slash nor a new character.\<close>

lemma has_double_slash_Cons: "has_double_slash s \<Longrightarrow> has_double_slash (x # s)"
  by (cases s) auto

lemma has_double_slash_append1: "has_double_slash s \<Longrightarrow> has_double_slash (p @ s)"
  by (induction p) (auto intro: has_double_slash_Cons)

lemma has_double_slash_append2: "has_double_slash s \<Longrightarrow> has_double_slash (s @ q)"
  by (induction s rule: has_double_slash.induct) auto

lemma has_double_slash_sublist: "sublist s t \<Longrightarrow> has_double_slash s \<Longrightarrow> has_double_slash t"
  by (auto simp: sublist_def intro: has_double_slash_append1 has_double_slash_append2)

lemma trim_start_dot_slash_suffix: "suffix (trim_start_dot_slash s) s"
  by (induction s rule: trim_start_dot_slash.induct) (auto intro: suffix_ConsI)

lemma trim_once_sublist: "sublist (trim_once s) s"
proof -
  let ?t = "trim_start_slash (trim_start_dot_slash s)"
  have "prefix (trim_end_slash ?t) ?t"
    unfolding trim_end_slash_def by (metis rev_rev_ident suffix_dropWhile suffix_to_prefix)
  moreover have "suffix ?t (trim_start_dot_slash s)"
    by (simp add: trim_start_slash_def suffix_dropWhile)
  ultimately show ?thesis unfolding trim_once_def
    by (meson trim_start_dot_slash_suffix prefix_imp_sublist suffix_imp_sublist sublist_order.order.trans)
qed

lemma trim_path_sublist: "sublist (trim_path s) s"
proof (induction s rule: trim_path.induct)
  case (1 s)
  show ?case
    using 1[OF refl] trim_once_sublist[of s] by (subst trim_path.simps) (auto simp: Let_def)
qed

lemma sublist_same_length:
  assumes "sublist s t" and "length s = length t"
  shows "s = t"
proof -
  obtain ps qs where e: "t = ps @ s @ qs" using assms(1) by (auto simp: sublist_def)
  then have "length ps + length qs = 0" using assms(2) by simp
  with e show ?thesis by simp
qed

lemma trim_path_fixpoint: "trim_once (trim_path s) = trim_path s"
proof (induction s rule: trim_path.induct)
  case (1 s)
  have "trim_once s = s" if "length (trim_once s) = length s"
    using trim_once_sublist[of s] that by (rule sublist_same_length)
  then show ?case using 1[OF refl] by (subst (1 2) trim_path.simps) (auto simp: Let_def)
qed

lemma trim_once_id:
  "trim_once s = s \<longleftrightarrow> \<not> prefix ''./'' s \<and> \<not> prefix [slash] s \<and> \<not> suffix [slash] s"
proof
  assume fx: "trim_once s = s"
  have "length (trim_once s) \<le> length (trim_start_slash (trim_start_dot_slash s))"
    by (simp add: trim_once_def trim_end_slash_def) (metis length_dropWhile_le length_rev)
  moreover have "length (trim_start_slash (trim_start_dot_slash s)) \<le> length (trim_start_dot_slash s)"
    by (simp add: trim_start_slash_def length_dropWhile_le)
  ultimately have "length s \<le> length (trim_start_dot_slash s)" using fx by simp
  then have d: "trim_start_dot_slash s = s"
    using trim_start_dot_slash_suffix[of s] trim_start_dot_slash_length[of s]
    by (metis le_antisym sublist_same_length suffix_imp_sublist)
  have "\<not> prefix ''./'' s"
  proof
    assume "prefix ''./'' s"
    then obtain t where "s = CHR ''.'' # slash # t" by (auto simp: prefix_def)
    with d trim_start_dot_slash_length[of t] show False by simp
  qed
  moreover have "\<not> prefix [slash] s"
  proof
    assume "prefix [slash] s"
    then obtain t where "s = slash # t" by (auto simp: prefix_def)
    moreover have "length (trim_once s) \<le> length (trim_start_slash s)"
      using d by (simp add: trim_once_def trim_end_slash_def) (metis length_dropWhile_le length_rev)
    ultimately show False
      using fx length_dropWhile_le[of "\<lambda>c. c = slash" t] by (simp add: trim_start_slash_def)
  qed
  moreover have "\<not> suffix [slash] s"
  proof
    assume "suffix [slash] s"
    then obtain t where t: "s = t @ [slash]" by (auto simp: suffix_def)
    have "trim_start_slash s = s" using \<open>\<not> prefix [slash] s\<close> by (cases s) (auto simp: trim_start_slash_def)
    then have "trim_end_slash s = s" using fx d by (simp add: trim_once_def)
    then have "length (trim_end_slash s) = Suc (length t)" by (simp add: t)
    then show False
      using length_dropWhile_le[of "\<lambda>c. c = slash" "rev t"] by (simp add: t trim_end_slash_def)
  qed
  ultimately show "\<not> prefix ''./'' s \<and> \<not> prefix [slash] s \<and> \<not> suffix [slash] s" by simp
next
  assume a: "\<not> prefix ''./'' s \<and> \<not> prefix [slash] s \<and> \<not> suffix [slash] s"
  then have "trim_start_dot_slash s = s" by (cases s rule: trim_start_dot_slash.cases) auto
  moreover from a have "trim_start_slash s = s" by (cases s) (auto simp: trim_start_slash_def)
  moreover from a have "trim_end_slash s = s" by (cases s rule: rev_cases) (auto simp: trim_end_slash_def)
  ultimately show "trim_once s = s" by (simp add: trim_once_def)
qed

lemma trim_path_id: "trim_once s = s \<Longrightarrow> trim_path s = s"
  by (subst trim_path.simps) (simp add: Let_def)

lemma normalize_canonical: "canonical_path (normalize_workspace_path p)"
proof -
  let ?q = "map (\<lambda>c. if c = backslash then slash else c) p"
  let ?r = "trim_path (collapse_slashes ?q)"
  have "backslash \<notin> set ?q" by auto
  then have "backslash \<notin> set ?r"
    using collapse_set[of ?q] set_mono_sublist[OF trim_path_sublist[of "collapse_slashes ?q"]] by blast
  moreover have "\<not> has_double_slash ?r"
    using has_double_slash_sublist[OF trim_path_sublist] collapse_no_double by blast
  moreover have "\<not> prefix ''./'' ?r \<and> \<not> prefix [slash] ?r \<and> \<not> suffix [slash] ?r"
    using trim_path_fixpoint trim_once_id by blast
  ultimately show ?thesis by (auto simp: normalize_workspace_path_def Let_def canonical_path_def)
qed

lemma canonical_normalize: "canonical_path p \<Longrightarrow> normalize_workspace_path p = p"
proof -
  assume c: "canonical_path p"
  then have "map (\<lambda>c. if c = backslash then slash else c) p = p"
    by (intro map_idI) (auto simp: canonical_path_def)
  with c show ?thesis
    by (simp add: normalize_workspace_path_def canonical_path_def collapse_id trim_path_id trim_once_id)
qed

lemma normalize_fixpoint_iff: "normalize_workspace_path p = p \<longleftrightarrow> canonical_path p"
  using normalize_canonical canonical_normalize by metis

section \<open>Components\<close>

text \<open>Joining components with slashes undoes splitting, and splitting undoes joining.\<close>

fun join_path :: "string list \<Rightarrow> string" where
  "join_path [] = []"
| "join_path [c] = c"
| "join_path (c # d # cs) = c @ slash # join_path (d # cs)"

definition path_component :: "string \<Rightarrow> bool" where
  "path_component c \<longleftrightarrow> c \<noteq> [] \<and> slash \<notin> set c"

lemma split_on_not_Nil [simp]: "split_on c s \<noteq> []"
  by (induction s) (auto split: list.split)

lemma join_split: "join_path (split_on slash s) = s"
proof (induction s)
  case (Cons x s)
  obtain part parts where p: "split_on slash s = part # parts" by (cases "split_on slash s") auto
  with Cons show ?case by (cases parts) auto
qed simp

lemma split_no_slash: "part \<in> set (split_on c s) \<Longrightarrow> c \<notin> set part"
proof (induction s arbitrary: part)
  case (Cons x s)
  obtain p ps where "split_on c s = p # ps" by (cases "split_on c s") auto
  with Cons show ?case by (auto split: if_splits)
qed simp

lemma split_append:
  "c \<notin> set p \<Longrightarrow> split_on c (p @ c # s) = p # split_on c s"
  by (induction p) auto

lemma split_single: "c \<notin> set p \<Longrightarrow> split_on c p = [p]"
  by (induction p) auto

lemma split_join: "cs \<noteq> [] \<Longrightarrow> \<forall>c \<in> set cs. slash \<notin> set c \<Longrightarrow> split_on slash (join_path cs) = cs"
  by (induction cs rule: join_path.induct) (auto simp: split_single split_append)

lemma first_component_empty: "hd (split_on slash s) = [] \<longleftrightarrow> s = [] \<or> prefix [slash] s"
  by (cases s) (auto split: list.split)

lemma suffix_slash_Cons: "suffix [slash] (x # s) \<longleftrightarrow> (if s = [] then x = slash else suffix [slash] s)"
  by (auto simp: suffix_def Cons_eq_append_conv)

lemma has_double_slash_Cons_iff:
  "has_double_slash (x # s) \<longleftrightarrow> (x = slash \<and> prefix [slash] s) \<or> has_double_slash s"
  by (cases s) auto

lemma set_hd_tl: "xs \<noteq> [] \<Longrightarrow> x \<in> set xs \<longleftrightarrow> x = hd xs \<or> x \<in> set (tl xs)"
  by (cases xs) auto

lemma later_component_empty:
  "[] \<in> set (tl (split_on slash s)) \<longleftrightarrow> suffix [slash] s \<or> has_double_slash s"
proof (induction s)
  case (Cons x s)
  obtain p ps where p: "split_on slash s = p # ps" by (cases "split_on slash s") auto
  have h: "p = [] \<longleftrightarrow> s = [] \<or> prefix [slash] s"
    using first_component_empty[of s] p by simp
  from Cons p h show ?case
    by (auto simp: suffix_slash_Cons has_double_slash_Cons_iff)
qed simp

lemma empty_component_iff:
  "[] \<in> set (split_on slash s) \<longleftrightarrow>
   s = [] \<or> prefix [slash] s \<or> suffix [slash] s \<or> has_double_slash s"
  using set_hd_tl[OF split_on_not_Nil, of "[]" slash s] first_component_empty[of s] later_component_empty[of s]
  by auto

lemma prefix_dot_slash: "prefix ''./'' s \<Longrightarrow> ''.'' \<in> set (split_on slash s)"
  by (auto simp: prefix_def)

lemma canonical_components:
  assumes "s \<noteq> []" and "''.'' \<notin> set (split_on slash s)"
  shows "canonical_path s \<longleftrightarrow> backslash \<notin> set s \<and> [] \<notin> set (split_on slash s)"
  using assms prefix_dot_slash[of s]
  by (auto simp: canonical_path_def empty_component_iff)

lemma publishable_iff:
  "publishable_workspace_path path max_len allow = Inr () \<longleftrightarrow>
     path \<noteq> [] \<and> length path \<le> max_len
     \<and> length (split_on slash path) \<le> MAX_WORKSPACE_PATH_DEPTH
     \<and> list_all (\<lambda>part. part \<notin> {[], ''.'', ''..''}) (split_on slash path)
     \<and> backslash \<notin> set path
     \<and> \<not> (is_private_workspace_state_path path \<and> \<not> allow)"
proof (cases "path = [] \<or> ''.'' \<in> set (split_on slash path) \<or> ''..'' \<in> set (split_on slash path)")
  case True
  then show ?thesis by (auto simp: publishable_workspace_path_def list_ex_iff list_all_iff)
next
  case False
  moreover have "prefix [slash] path \<Longrightarrow> [] \<in> set (split_on slash path)"
    by (simp add: empty_component_iff)
  ultimately show ?thesis
    by (auto simp: publishable_workspace_path_def list_ex_iff list_all_iff normalize_fixpoint_iff canonical_components)
qed

section \<open>Properties\<close>

text \<open>
  Normalization is a canonical form: its result is a path without backslashes,
  doubled, leading or trailing slashes and without a leading current-directory part,
  normalizing again changes nothing, and a path that already has this form is kept,
  so that comparing a path with its normalization is a test for canonical paths.
\<close>

theorem normalize_is_canonical_form:
  "canonical_path (normalize_workspace_path p)
   \<and> normalize_workspace_path (normalize_workspace_path p) = normalize_workspace_path p
   \<and> (normalize_workspace_path p = p \<longleftrightarrow> canonical_path p)"
  using normalize_canonical normalize_fixpoint_iff by blast

text \<open>
  The publishing predicate is exactly the specification by components: a path may
  stand in a manifest if and only if it is not empty, within the length bound, has at
  most 256 components, every component is a real name (not empty, neither the current
  nor the parent directory), there is no backslash, and it is not private engine
  state unless such paths are allowed.
\<close>

theorem publishable_iff_components:
  "publishable_workspace_path path max_len allow = Inr () \<longleftrightarrow>
     path \<noteq> [] \<and> length path \<le> max_len
     \<and> length (split_on slash path) \<le> MAX_WORKSPACE_PATH_DEPTH
     \<and> list_all (\<lambda>part. part \<notin> {[], ''.'', ''..''}) (split_on slash path)
     \<and> backslash \<notin> set path
     \<and> \<not> (is_private_workspace_state_path path \<and> \<not> allow)"
  by (rule publishable_iff)

end
