(* ===== verification/Ordered_Maps.thy ===== *)
theory Ordered_Maps
  imports Main
begin

text \<open>
  Rust's \<open>BTreeMap\<close>: a map that is read in key order. It is kept as its entry list,
  strictly sorted by key, so that iterating is the list itself, a lookup is
  \<open>map_of\<close>, and two maps with the same entries are the same list.
\<close>

type_synonym ('k, 'v) btree_map = "('k \<times> 'v) list"

definition bt_ok :: "('k :: linorder, 'v) btree_map \<Rightarrow> bool" where
  "bt_ok m \<longleftrightarrow> sorted_wrt (<) (map fst m)"

fun bt_insert :: "'k :: linorder \<Rightarrow> 'v \<Rightarrow> ('k, 'v) btree_map \<Rightarrow> ('k, 'v) btree_map" where
  "bt_insert k v [] = [(k, v)]"
| "bt_insert k v ((k', v') # m) =
     (if k < k' then (k, v) # (k', v') # m
      else if k = k' then (k, v) # m
      else (k', v') # bt_insert k v m)"

fun bt_remove :: "'k :: linorder \<Rightarrow> ('k, 'v) btree_map \<Rightarrow> ('k, 'v) btree_map" where
  "bt_remove k [] = []"
| "bt_remove k ((k', v') # m) = (if k = k' then m else (k', v') # bt_remove k m)"

text \<open>\<open>entry(k).or_default()\<close> and \<open>collect()\<close>.\<close>

definition bt_or_insert :: "'k :: linorder \<Rightarrow> 'v \<Rightarrow> ('k, 'v) btree_map \<Rightarrow> ('k, 'v) btree_map" where
  "bt_or_insert k v m = (case map_of m k of None \<Rightarrow> bt_insert k v m | Some _ \<Rightarrow> m)"

definition bt_collect :: "('k :: linorder \<times> 'v) list \<Rightarrow> ('k, 'v) btree_map" where
  "bt_collect kvs = fold (\<lambda>(k, v). bt_insert k v) kvs []"

section \<open>The laws of an ordered map\<close>

text \<open>What a client of the maps relies on, and what follows for a map built by insertions.\<close>

locale ordered_map =
  fixes look :: "'m \<Rightarrow> 'k \<Rightarrow> 'v option"
    and put :: "'k \<Rightarrow> 'v \<Rightarrow> 'm \<Rightarrow> 'm"
    and del :: "'k \<Rightarrow> 'm \<Rightarrow> 'm"
    and ok :: "'m \<Rightarrow> bool"
  assumes put_ok: "ok m \<Longrightarrow> ok (put k v m)"
    and del_ok: "ok m \<Longrightarrow> ok (del k m)"
    and look_put: "ok m \<Longrightarrow> look (put k v m) = (look m)(k \<mapsto> v)"
    and look_del: "ok m \<Longrightarrow> look (del k m) = (look m)(k := None)"
    and look_ext: "ok m \<Longrightarrow> ok n \<Longrightarrow> look m = look n \<Longrightarrow> m = n"
begin

lemma fold_put:
  "ok m \<Longrightarrow> ok (fold (\<lambda>(k, v). put k v) kvs m)
    \<and> look (fold (\<lambda>(k, v). put k v) kvs m) = look m ++ map_of (rev kvs)"
proof (induction kvs arbitrary: m)
  case (Cons kv kvs)
  obtain k v where "kv = (k, v)" by force
  with Cons.IH[OF put_ok[OF Cons.prems, of k v]] Cons.prems show ?case
    by (simp add: look_put map_add_upd_left[symmetric] map_add_def fun_eq_iff split: option.split)
qed simp

lemma put_put: "ok m \<Longrightarrow> put k v (put k w m) = put k v m"
  by (rule look_ext) (simp_all add: put_ok look_put)

lemma put_commute: "ok m \<Longrightarrow> k \<noteq> k' \<Longrightarrow> put k v (put k' w m) = put k' w (put k v m)"
  by (rule look_ext) (simp_all add: put_ok look_put fun_upd_twist)

lemma del_put: "ok m \<Longrightarrow> look m k = None \<Longrightarrow> del k (put k v m) = m"
  by (rule look_ext) (simp_all add: put_ok del_ok look_put look_del fun_upd_idem)

end

section \<open>The laws hold\<close>

lemma bt_ok_simps [simp]:
  "bt_ok []"
  "bt_ok ((k, v) # m) \<longleftrightarrow> (\<forall>k' \<in> fst ` set m. k < k') \<and> bt_ok m"
  by (auto simp: bt_ok_def)

lemma bt_insert_keys: "fst ` set (bt_insert k v m) = insert k (fst ` set m)"
  by (induction k v m rule: bt_insert.induct) auto

lemma bt_remove_subset: "set (bt_remove k m) \<subseteq> set m"
  by (induction k m rule: bt_remove.induct) auto

lemma bt_insert_ok: "bt_ok m \<Longrightarrow> bt_ok (bt_insert k v m)"
proof (induction k v m rule: bt_insert.induct)
  case (2 k v k' v' m)
  then show ?case using bt_insert_keys[of k v m] by (auto dest: less_trans)
qed simp

lemma bt_remove_ok: "bt_ok m \<Longrightarrow> bt_ok (bt_remove k m)"
proof (induction k m rule: bt_remove.induct)
  case (2 k k' v' m)
  then show ?case using bt_remove_subset[of k m] by auto
qed simp

lemma bt_ok_distinct: "bt_ok m \<Longrightarrow> distinct (map fst m)"
  by (auto simp: bt_ok_def strict_sorted_iff)

lemma map_of_bt_insert: "bt_ok m \<Longrightarrow> map_of (bt_insert k v m) = (map_of m)(k \<mapsto> v)"
  by (induction k v m rule: bt_insert.induct) (auto simp: fun_eq_iff)

lemma map_of_bt_remove: "bt_ok m \<Longrightarrow> map_of (bt_remove k m) = (map_of m)(k := None)"
proof (induction k m rule: bt_remove.induct)
  case (2 k k' v' m)
  have "map_of m k' = None" using 2(2) by (force simp: map_of_eq_None_iff)
  with 2 show ?case by (auto simp: fun_eq_iff)
qed simp

lemma bt_entries:
  assumes "bt_ok m"
  shows "m = map (\<lambda>k. (k, the (map_of m k))) (map fst m)"
  using bt_ok_distinct[OF assms] by (auto simp: o_def intro: map_idI[symmetric])

lemma bt_ext:
  assumes "bt_ok m" and "bt_ok n" and "map_of m = map_of n"
  shows "m = n"
proof -
  have "set (map fst m) = set (map fst n)"
    using arg_cong[OF assms(3), of dom] by (simp add: dom_map_of_conv_image_fst)
  then have "map fst m = map fst n"
    using assms(1,2) by (metis bt_ok_def sorted_distinct_set_unique strict_sorted_iff)
  with bt_entries[OF assms(1)] bt_entries[OF assms(2)] assms(3) show ?thesis by simp
qed

interpretation btree: ordered_map map_of bt_insert bt_remove bt_ok
  by unfold_locales
    (simp_all add: bt_insert_ok bt_remove_ok map_of_bt_insert map_of_bt_remove bt_ext)

lemma bt_collect_ok: "bt_ok (bt_collect kvs)"
  by (simp add: bt_collect_def btree.fold_put)

lemma map_of_bt_collect: "map_of (bt_collect kvs) = map_of (rev kvs)"
  using btree.fold_put[of "[]" kvs] by (simp add: bt_collect_def)

lemma bt_or_insert_ok: "bt_ok m \<Longrightarrow> bt_ok (bt_or_insert k v m)"
  by (simp add: bt_or_insert_def bt_insert_ok split: option.split)

lemma map_of_bt_or_insert:
  "bt_ok m \<Longrightarrow> map_of (bt_or_insert k v m) = (map_of m)(k := Some (case map_of m k of None \<Rightarrow> v | Some w \<Rightarrow> w))"
  by (auto simp: bt_or_insert_def map_of_bt_insert fun_eq_iff split: option.split)

lemma map_of_rev_distinct: "distinct (map fst m) \<Longrightarrow> map_of (rev m) = map_of m"
  by (subst map_of_inject_set) (simp_all add: rev_map[symmetric])

lemma bt_collect_sorted: "bt_ok m \<Longrightarrow> bt_collect m = m"
  by (rule bt_ext) (simp_all add: bt_collect_ok map_of_bt_collect map_of_rev_distinct bt_ok_distinct)

lemma bt_set_iff: "bt_ok m \<Longrightarrow> (k, v) \<in> set m \<longleftrightarrow> map_of m k = Some v"
  by (auto simp: bt_ok_distinct)

lemma map_of_filter_fst: "map_of (filter (\<lambda>(k, _). P k) m) k = (if P k then map_of m k else None)"
  by (induction m) auto

lemma bt_ok_filter: "bt_ok m \<Longrightarrow> bt_ok (filter P m)"
  by (auto simp: bt_ok_def sorted_wrt_map intro: sorted_wrt_filter)

lemma map_of_keys: "map fst m = map fst m' \<Longrightarrow> map_of m k = None \<longleftrightarrow> map_of m' k = None"
  unfolding map_of_eq_None_iff by (metis list.set_map)

end
