(* ===== verification/Manifest_Types.thy ===== *)
theory Manifest_Types
  imports Workspace_Paths Ordered_Maps
begin

text \<open>
  The manifest vocabulary of \<^verbatim>\<open>manifest_engine/manifest.rs\<close> and the wire form of one
  directory, \<^verbatim>\<open>manifest/tree.rs\<close>: entries, limits, errors, directory nodes and the
  checks a decoded node has to pass. Physical keys, content identifiers and symlink
  targets are strings; the bytes that travel are opaque.
\<close>

section \<open>Entries, manifests, limits\<close>

type_synonym WorkspacePath = string
type_synonym ContentId = string
type_synonym BlobKey = string
type_synonym ManifestKey = string
type_synonym KeyEpoch = u32
type_synonym FileMode = u32

definition FileMode_symlink :: FileMode where
  "FileMode_symlink = 41471"

datatype EntryKind = Kind_File | Kind_Directory | Kind_Symlink

datatype ManifestEntry =
    File u64 FileMode ContentId BlobKey KeyEpoch
  | Directory FileMode
  | Symlink FileMode string

fun entry_kind :: "ManifestEntry \<Rightarrow> EntryKind" where
  "entry_kind (File _ _ _ _ _) = Kind_File"
| "entry_kind (Directory _) = Kind_Directory"
| "entry_kind (Symlink _ _) = Kind_Symlink"

record Manifest =
  mf_key_epoch :: KeyEpoch
  mf_entries :: "(WorkspacePath, ManifestEntry) btree_map"

record DecodeLimits =
  max_sealed_bytes :: u64
  max_decoded_bytes :: u64
  max_records :: u64
  max_node_entries :: u64
  max_path_len :: u64
  max_name_len :: u64
  max_depth :: u64
  max_aggregate_declared_bytes :: u64
  max_aggregate_decoded_bytes :: u64
  allow_workspace_state_paths :: bool

definition TREE_FORMAT_VERSION :: u32 where
  "TREE_FORMAT_VERSION = 1"

definition MAX_NAME_LEN :: u64 where
  "MAX_NAME_LEN = 255"

definition DecodeLimits_default :: DecodeLimits where
  "DecodeLimits_default = \<lparr>
     max_sealed_bytes = 64 * 1024 * 1024,
     max_decoded_bytes = 256 * 1024 * 1024,
     max_records = 2000000,
     max_node_entries = 1000000,
     max_path_len = MAX_WORKSPACE_PATH_LEN,
     max_name_len = MAX_NAME_LEN,
     max_depth = MAX_WORKSPACE_PATH_DEPTH,
     max_aggregate_declared_bytes = 8 * 1024 * 1024 * 1024 * 1024,
     max_aggregate_decoded_bytes = 2 * 1024 * 1024 * 1024,
     allow_workspace_state_paths = False\<rparr>"

definition project_view :: DecodeLimits where
  "project_view = DecodeLimits_default\<lparr>allow_workspace_state_paths := True\<rparr>"

datatype EnvelopeError = DecodedSizeExceeded | Envelope_Other

datatype ManifestError =
    Envelope EnvelopeError
  | Serialization string
  | BoundExceeded string
  | InvalidPath string
  | InvalidEntry string
  | KeyEpochMismatch
  | UnknownKeyEpoch KeyEpoch
  | UnsupportedFormatVersion u32
  | ContentIdMismatch
  | DecodedSizeMismatch u64 "u64 option"
  | NotSorted
  | DuplicatePath
  | Manifest_Internal string

definition validate_manifest_path :: "string \<Rightarrow> DecodeLimits \<Rightarrow> ManifestError + unit" where
  "validate_manifest_path path limits =
     (case publishable_workspace_path path (max_path_len limits) (allow_workspace_state_paths limits) of
        Inr _ \<Rightarrow> Inr ()
      | Inl Path_TooLong \<Rightarrow> Inl (BoundExceeded ''path-length'')
      | Inl Path_TooDeep \<Rightarrow> Inl (BoundExceeded ''path-depth'')
      | Inl rejection \<Rightarrow> Inl (InvalidPath (rejection_reason rejection)))"

section \<open>Directory nodes\<close>

datatype TreeEntryPayload =
    Tree_File u64 FileMode ContentId BlobKey KeyEpoch
  | Tree_Directory FileMode ManifestKey
  | Tree_Subtree ManifestKey
  | Tree_Symlink FileMode string

fun payload_child :: "TreeEntryPayload \<Rightarrow> ManifestKey option" where
  "payload_child (Tree_Directory _ child) = Some child"
| "payload_child (Tree_Subtree child) = Some child"
| "payload_child (Tree_File _ _ _ _ _) = None"
| "payload_child (Tree_Symlink _ _) = None"

record TreeEntry =
  te_name :: string
  te_payload :: TreeEntryPayload

record TreeNode =
  tn_format_version :: u32
  tn_key_epoch :: KeyEpoch
  tn_entries :: "TreeEntry list"

definition TreeNode_new :: "KeyEpoch \<Rightarrow> TreeEntry list \<Rightarrow> TreeNode" where
  "TreeNode_new key_epoch entries =
     \<lparr>tn_format_version = TREE_FORMAT_VERSION, tn_key_epoch = key_epoch, tn_entries = entries\<rparr>"

definition validate_name :: "string \<Rightarrow> DecodeLimits \<Rightarrow> ManifestError + unit" where
  "validate_name name limits =
     (if name = [] then Inl (InvalidEntry ''tree entry name is empty'')
      else if length name > max_name_len limits then Inl (BoundExceeded ''name-length'')
      else if slash \<in> set name then Inl (InvalidEntry ''tree entry name contains a separator'')
      else if name = ''.'' \<or> name = ''..'' then Inl (InvalidEntry ''tree entry name traverses'')
      else Inr ())"

fun validate_payload :: "TreeEntryPayload \<Rightarrow> DecodeLimits \<Rightarrow> ManifestError + unit" where
  "validate_payload (Tree_Symlink _ target) limits =
     (if target = [] then Inl (InvalidEntry ''symlink target is empty'')
      else if length target > max_path_len limits then Inl (BoundExceeded ''symlink-target-length'')
      else Inr ())"
| "validate_payload _ limits = Inr ()"

text \<open>The loop over the entries of a decoded node, with the name before.\<close>

fun check_entries :: "string option \<Rightarrow> TreeEntry list \<Rightarrow> DecodeLimits \<Rightarrow> ManifestError + unit" where
  "check_entries previous [] limits = Inr ()"
| "check_entries previous (entry # entries) limits =
     (case validate_name (te_name entry) limits of
        Inl e \<Rightarrow> Inl e
      | Inr _ \<Rightarrow>
     (case filter_option (\<lambda>prior. te_name entry \<le> prior) previous of
        Some prior \<Rightarrow> Inl (if prior = te_name entry then DuplicatePath else NotSorted)
      | None \<Rightarrow>
     (case validate_payload (te_payload entry) limits of
        Inl e \<Rightarrow> Inl e
      | Inr _ \<Rightarrow> check_entries (Some (te_name entry)) entries limits)))"

text \<open>\<open>from_bytes\<close> stands for the postcard decoder.\<close>

definition TreeNode_decode ::
  "('b \<Rightarrow> TreeNode option) \<Rightarrow> 'b \<Rightarrow> KeyEpoch \<Rightarrow> DecodeLimits \<Rightarrow> ManifestError + TreeNode" where
  "TreeNode_decode from_bytes plaintext expected_epoch limits =
     (case from_bytes plaintext of
        None \<Rightarrow> Inl (Serialization ''tree node decode failed'')
      | Some node \<Rightarrow>
          if tn_format_version node \<noteq> TREE_FORMAT_VERSION
            then Inl (UnsupportedFormatVersion (tn_format_version node))
          else if tn_key_epoch node \<noteq> expected_epoch then Inl KeyEpochMismatch
          else if length (tn_entries node) > max_node_entries limits
            then Inl (BoundExceeded ''node-entry-count'')
          else (case check_entries None (tn_entries node) limits of
             Inl e \<Rightarrow> Inl e
           | Inr _ \<Rightarrow> Inr node))"

section \<open>What the checks say\<close>

definition valid_name :: "DecodeLimits \<Rightarrow> string \<Rightarrow> bool" where
  "valid_name limits name \<longleftrightarrow>
     name \<notin> {[], ''.'', ''..''} \<and> slash \<notin> set name \<and> length name \<le> max_name_len limits"

definition valid_target :: "DecodeLimits \<Rightarrow> TreeEntryPayload \<Rightarrow> bool" where
  "valid_target limits payload \<longleftrightarrow>
     (case payload of Tree_Symlink _ target \<Rightarrow> target \<noteq> [] \<and> length target \<le> max_path_len limits
      | _ \<Rightarrow> True)"

lemma validate_name_iff: "validate_name name limits = Inr () \<longleftrightarrow> valid_name limits name"
  by (auto simp: validate_name_def valid_name_def)

lemma validate_payload_iff: "validate_payload payload limits = Inr () \<longleftrightarrow> valid_target limits payload"
  by (cases payload) (auto simp: valid_target_def)

lemma check_entries_iff:
  "check_entries previous entries limits = Inr () \<longleftrightarrow>
     list_all (\<lambda>e. valid_name limits (te_name e) \<and> valid_target limits (te_payload e)) entries
     \<and> sorted_wrt (<) (map te_name entries)
     \<and> (case previous of None \<Rightarrow> True | Some p \<Rightarrow> list_all (\<lambda>e. p < te_name e) entries)"
proof (induction previous entries limits rule: check_entries.induct)
  case (2 previous entry entries limits)
  show ?case
    using 2
    by (auto simp: validate_name_iff[symmetric] validate_payload_iff[symmetric] filter_option_def
        list_all_iff not_le split: option.splits sum.splits if_splits dest: less_trans)
qed (simp split: option.split)

lemma decode_iff:
  "TreeNode_decode from_bytes plaintext epoch limits = Inr node \<longleftrightarrow>
     from_bytes plaintext = Some node
     \<and> tn_format_version node = TREE_FORMAT_VERSION \<and> tn_key_epoch node = epoch
     \<and> length (tn_entries node) \<le> max_node_entries limits
     \<and> list_all (\<lambda>e. valid_name limits (te_name e) \<and> valid_target limits (te_payload e))
         (tn_entries node)
     \<and> sorted_wrt (<) (map te_name (tn_entries node))"
  using check_entries_iff[of None "tn_entries node" limits]
  by (auto simp: TreeNode_decode_def split: option.splits sum.splits if_splits)

text \<open>
  C39. A node is accepted exactly when it is well formed: the decoder reads it, its
  format version and key epoch are the expected ones, it has no more entries than
  allowed, every name is a single path component within its length bound, symlink
  targets are neither empty nor too long, and the names are strictly increasing, so
  that no name is doubled.
\<close>

theorem decode_accepts_exactly:
  "TreeNode_decode from_bytes plaintext epoch limits = Inr node \<longleftrightarrow>
     from_bytes plaintext = Some node
     \<and> tn_format_version node = TREE_FORMAT_VERSION \<and> tn_key_epoch node = epoch
     \<and> length (tn_entries node) \<le> max_node_entries limits
     \<and> list_all (\<lambda>e. valid_name limits (te_name e) \<and> valid_target limits (te_payload e))
         (tn_entries node)
     \<and> sorted_wrt (<) (map te_name (tn_entries node))"
  by (rule decode_iff)

end
