(* ===== verification/Directory_Tree.thy ===== *)
theory Directory_Tree
  imports Manifest_Types
begin

text \<open>
  The directory decomposition of a flat manifest and the subtree hashes,
  \<^verbatim>\<open>manifest/directory_tree.rs\<close>. BLAKE3 is a parameter, a function from the bytes that
  were fed to the hasher to the hex digest; the bytes themselves are written out, so
  that what is hashed can be reasoned about.
\<close>

section \<open>Decomposition\<close>

type_synonym DirPath = string
type_synonym SubtreeHash = string

definition dir_root :: DirPath where
  "dir_root = []"

definition dir_child :: "DirPath \<Rightarrow> string \<Rightarrow> DirPath" where
  "dir_child dir name = (if dir = [] then name else dir @ slash # name)"

datatype ChildSpec =
    Leaf ManifestEntry
  | Child_Directory FileMode
  | Child_Subtree

type_synonym dir_nodes = "(DirPath, (string, ChildSpec) btree_map) btree_map"

definition claim_child :: "dir_nodes \<Rightarrow> DirPath \<Rightarrow> string \<Rightarrow> ChildSpec \<Rightarrow> ManifestError + dir_nodes" where
  "claim_child nodes parent name incoming =
     (let nodes = bt_or_insert parent [] nodes;
          children = (case map_of nodes parent of Some children \<Rightarrow> children | None \<Rightarrow> []);
          inserted = bt_insert parent (bt_insert name incoming children) nodes
      in case (map_of children name, incoming) of
           (None, _) \<Rightarrow> Inr inserted
         | (Some Child_Subtree, Child_Directory _) \<Rightarrow> Inr inserted
         | (Some (Child_Directory _), Child_Subtree) \<Rightarrow> Inr nodes
         | (Some Child_Subtree, Child_Subtree) \<Rightarrow> Inr nodes
         | _ \<Rightarrow> Inl (InvalidEntry ''path component is claimed as both a file and a directory''))"

fun spec_of_entry :: "ManifestEntry \<Rightarrow> ChildSpec" where
  "spec_of_entry (Directory mode) = Child_Directory mode"
| "spec_of_entry entry = Leaf entry"

fun owns_subtree :: "ChildSpec \<Rightarrow> bool" where
  "owns_subtree (Child_Directory _) = True"
| "owns_subtree _ = False"

text \<open>The loop over the components of one path.\<close>

fun insert_components ::
  "dir_nodes \<Rightarrow> DirPath \<Rightarrow> string list \<Rightarrow> ManifestEntry \<Rightarrow> ManifestError + dir_nodes" where
  "insert_components nodes parent [] entry = Inr nodes"
| "insert_components nodes parent (component # rest) entry =
     (if component = [] then Inl (InvalidPath ''path has an empty component'')
      else if rest \<noteq> [] then
        (case claim_child nodes parent component Child_Subtree of
           Inl e \<Rightarrow> Inl e
         | Inr nodes \<Rightarrow>
             (let parent = dir_child parent component
              in insert_components (bt_or_insert parent [] nodes) parent rest entry))
      else
        (let spec = spec_of_entry entry
         in case claim_child nodes parent component spec of
              Inl e \<Rightarrow> Inl e
            | Inr nodes \<Rightarrow>
                Inr (if owns_subtree spec then bt_or_insert (dir_child parent component) [] nodes
                     else nodes)))"

definition insert_path :: "dir_nodes \<Rightarrow> WorkspacePath \<Rightarrow> ManifestEntry \<Rightarrow> ManifestError + dir_nodes" where
  "insert_path nodes path entry = insert_components nodes dir_root (split_on slash path) entry"

fun insert_paths ::
  "dir_nodes \<Rightarrow> (WorkspacePath \<times> ManifestEntry) list \<Rightarrow> ManifestError + dir_nodes" where
  "insert_paths nodes [] = Inr nodes"
| "insert_paths nodes ((path, entry) # entries) =
     (case insert_path nodes path entry of
        Inl e \<Rightarrow> Inl e
      | Inr nodes \<Rightarrow> insert_paths nodes entries)"

definition decompose :: "(WorkspacePath, ManifestEntry) btree_map \<Rightarrow> ManifestError + dir_nodes" where
  "decompose entries = insert_paths (bt_insert dir_root [] []) entries"

section \<open>Subtree hashes\<close>

text \<open>\<open>to_le_bytes\<close>: the low \<open>k\<close> bytes, least significant first.\<close>

fun le_bytes :: "nat \<Rightarrow> nat \<Rightarrow> string" where
  "le_bytes 0 n = []"
| "le_bytes (Suc k) n = char_of (n mod 256) # le_bytes k (n div 256)"

definition u64_bytes :: "u64 \<Rightarrow> string" where
  "u64_bytes n = le_bytes 8 n"

definition write_bytes :: "string \<Rightarrow> string" where
  "write_bytes bytes = u64_bytes (length bytes) @ bytes"

definition SUBTREE_DOMAIN :: string where
  "SUBTREE_DOMAIN = ''bowline/manifest-subtree/v1''"

definition child_hash :: "DirPath \<Rightarrow> string \<Rightarrow> (DirPath \<rightharpoonup> SubtreeHash) \<Rightarrow> ManifestError + SubtreeHash" where
  "child_hash dir name hashes =
     ok_or (hashes (dir_child dir name))
       (Manifest_Internal ''child subtree hash was not computed before its parent'')"

fun write_child ::
  "DirPath \<Rightarrow> string \<Rightarrow> ChildSpec \<Rightarrow> (DirPath \<rightharpoonup> SubtreeHash) \<Rightarrow> ManifestError + string" where
  "write_child dir name (Leaf (File sz mode content_id blob_key key_epoch)) hashes =
     Inr (CHR 0x00 # u64_bytes sz @ u64_bytes mode @ write_bytes content_id
          @ write_bytes blob_key @ u64_bytes key_epoch)"
| "write_child dir name (Leaf (Symlink mode target)) hashes =
     Inr (CHR 0x01 # u64_bytes mode @ write_bytes target)"
| "write_child dir name (Child_Directory mode) hashes =
     map_sum id (\<lambda>h. CHR 0x02 # u64_bytes mode @ write_bytes h) (child_hash dir name hashes)"
| "write_child dir name Child_Subtree hashes =
     map_sum id (\<lambda>h. CHR 0x03 # write_bytes h) (child_hash dir name hashes)"
| "write_child dir name (Leaf (Directory mode)) hashes =
     Inl (Manifest_Internal ''directory entry occupies a leaf slot'')"

fun write_children ::
  "DirPath \<Rightarrow> (string \<times> ChildSpec) list \<Rightarrow> (DirPath \<rightharpoonup> SubtreeHash) \<Rightarrow> ManifestError + string" where
  "write_children dir [] hashes = Inr []"
| "write_children dir ((name, spec) # children) hashes =
     (case write_child dir name spec hashes of
        Inl e \<Rightarrow> Inl e
      | Inr bytes \<Rightarrow>
          map_sum id (\<lambda>more. write_bytes name @ bytes @ more) (write_children dir children hashes))"

definition directory_bytes ::
  "DirPath \<Rightarrow> (string, ChildSpec) btree_map \<Rightarrow> KeyEpoch \<Rightarrow> (DirPath \<rightharpoonup> SubtreeHash) \<Rightarrow>
   ManifestError + string" where
  "directory_bytes dir children key_epoch hashes =
     map_sum id (\<lambda>more. write_bytes SUBTREE_DOMAIN @ u64_bytes TREE_FORMAT_VERSION
         @ u64_bytes key_epoch @ u64_bytes (length children) @ more)
       (write_children dir children hashes)"

definition hash_directory ::
  "(string \<Rightarrow> string) \<Rightarrow> DirPath \<Rightarrow> (string, ChildSpec) btree_map \<Rightarrow> KeyEpoch \<Rightarrow>
   (DirPath \<rightharpoonup> SubtreeHash) \<Rightarrow> ManifestError + SubtreeHash" where
  "hash_directory blake3 dir children key_epoch hashes =
     map_sum id (\<lambda>bytes. ''st_'' @ blake3 bytes) (directory_bytes dir children key_epoch hashes)"

text \<open>One pass over the directories from the last to the first.\<close>

fun hash_directories ::
  "(string \<Rightarrow> string) \<Rightarrow> KeyEpoch \<Rightarrow> dir_nodes \<Rightarrow> (DirPath, SubtreeHash) btree_map \<Rightarrow>
   ManifestError + (DirPath, SubtreeHash) btree_map" where
  "hash_directories blake3 key_epoch [] hashes = Inr hashes"
| "hash_directories blake3 key_epoch ((dir, children) # nodes) hashes =
     (case hash_directory blake3 dir children key_epoch (map_of hashes) of
        Inl e \<Rightarrow> Inl e
      | Inr hash \<Rightarrow> hash_directories blake3 key_epoch nodes (bt_insert dir hash hashes))"

definition subtree_hashes ::
  "(string \<Rightarrow> string) \<Rightarrow> dir_nodes \<Rightarrow> KeyEpoch \<Rightarrow> ManifestError + (DirPath, SubtreeHash) btree_map" where
  "subtree_hashes blake3 nodes key_epoch = hash_directories blake3 key_epoch (rev nodes) []"

section \<open>What is hashed determines the directory\<close>

lemma length_le_bytes [simp]: "length (le_bytes k n) = k"
  by (induction k arbitrary: n) auto

lemma length_u64_bytes [simp]: "length (u64_bytes n) = 8"
  by (simp add: u64_bytes_def)

lemma le_bytes_inject: "n < 256 ^ k \<Longrightarrow> m < 256 ^ k \<Longrightarrow> le_bytes k n = le_bytes k m \<Longrightarrow> n = m"
proof (induction k arbitrary: n m)
  case (Suc k)
  have "n mod 256 = m mod 256"
    using arg_cong[where f = "of_char :: char \<Rightarrow> nat", of "char_of (n mod 256)" "char_of (m mod 256)"] Suc.prems(3)
    by simp
  moreover have "n div 256 = m div 256"
    using Suc.prems by (intro Suc.IH) (simp_all add: less_mult_imp_div_less mult.commute)
  ultimately show ?case by (metis div_mult_mod_eq)
qed simp

definition fits :: "nat \<Rightarrow> bool" where
  "fits n \<longleftrightarrow> n \<le> u64_MAX"

lemma u64_bytes_inject:
  assumes "u64_bytes n @ x = u64_bytes m @ y" and "fits n" and "fits m"
  shows "n = m \<and> x = y"
proof -
  have "u64_bytes n = u64_bytes m" "x = y" using assms(1) by (simp_all add: append_eq_append_conv)
  with assms(2,3) show ?thesis
    using le_bytes_inject[of n 8 m] by (simp add: u64_bytes_def fits_def u64_MAX_def)
qed

lemma write_bytes_inject:
  assumes "write_bytes a @ x = write_bytes b @ y" and "fits (length a)" and "fits (length b)"
  shows "a = b \<and> x = y"
proof -
  have "length a = length b \<and> a @ x = b @ y"
    using u64_bytes_inject[of "length a" "a @ x" "length b" "b @ y"] assms by (simp add: write_bytes_def)
  then show ?thesis using append_eq_append_conv by blast
qed

lemma u64_bytes_eqD: "u64_bytes n = u64_bytes m \<Longrightarrow> fits n \<Longrightarrow> fits m \<Longrightarrow> n = m"
  using u64_bytes_inject[of n "[]" m "[]"] by simp

text \<open>The sizes that occur in a directory, all of them 64-bit in the program.\<close>

fun entry_fits :: "ManifestEntry \<Rightarrow> bool" where
  "entry_fits (File sz mode content_id blob_key key_epoch) \<longleftrightarrow>
     fits sz \<and> fits mode \<and> fits (length content_id) \<and> fits (length blob_key) \<and> fits key_epoch"
| "entry_fits (Directory mode) = fits mode"
| "entry_fits (Symlink mode target) \<longleftrightarrow> fits mode \<and> fits (length target)"

fun spec_fits :: "ChildSpec \<Rightarrow> bool" where
  "spec_fits (Leaf entry) = entry_fits entry"
| "spec_fits (Child_Directory mode) = fits mode"
| "spec_fits Child_Subtree = True"

definition children_fit ::
  "DirPath \<Rightarrow> (string, ChildSpec) btree_map \<Rightarrow> (DirPath \<rightharpoonup> SubtreeHash) \<Rightarrow> bool" where
  "children_fit dir children hashes \<longleftrightarrow> fits (length children)
     \<and> (\<forall>(name, spec) \<in> set children. fits (length name) \<and> spec_fits spec
          \<and> (\<forall>h. hashes (dir_child dir name) = Some h \<longrightarrow> fits (length h)))"

text \<open>The directory with the hashes of its subdirectories.\<close>

definition hashed_children ::
  "DirPath \<Rightarrow> (string, ChildSpec) btree_map \<Rightarrow> (DirPath \<rightharpoonup> SubtreeHash) \<Rightarrow>
   (string \<times> ChildSpec \<times> SubtreeHash option) list" where
  "hashed_children dir children hashes =
     map (\<lambda>(name, spec). (name, spec,
       case spec of Leaf _ \<Rightarrow> None | _ \<Rightarrow> hashes (dir_child dir name))) children"

lemma write_child_inject:
  assumes "write_child d n s h = Inr a" and "write_child d' n' s' h' = Inr b" and "a @ x = b @ y"
    and "spec_fits s" and "spec_fits s'"
    and "\<And>v. h (dir_child d n) = Some v \<Longrightarrow> fits (length v)"
    and "\<And>v. h' (dir_child d' n') = Some v \<Longrightarrow> fits (length v)"
  shows "s = s' \<and> x = y
    \<and> (case s of Leaf _ \<Rightarrow> True | _ \<Rightarrow> h (dir_child d n) = h' (dir_child d' n'))"
  using assms
  by (cases "(d, n, s, h)" rule: write_child.cases; cases "(d', n', s', h')" rule: write_child.cases)
    (auto simp: child_hash_def ok_or_def split: option.splits
      dest!: u64_bytes_inject write_bytes_inject u64_bytes_eqD)

lemma write_children_inject:
  assumes "write_children d cs h = Inr a" and "write_children d' cs' h' = Inr b" and "a = b"
    and "length cs = length cs'"
    and "\<forall>(name, spec) \<in> set cs. fits (length name) \<and> spec_fits spec
          \<and> (\<forall>v. h (dir_child d name) = Some v \<longrightarrow> fits (length v))"
    and "\<forall>(name, spec) \<in> set cs'. fits (length name) \<and> spec_fits spec
          \<and> (\<forall>v. h' (dir_child d' name) = Some v \<longrightarrow> fits (length v))"
  shows "hashed_children d cs h = hashed_children d' cs' h'"
  using assms
proof (induction cs arbitrary: cs' a b)
  case Nil
  then show ?case by (simp add: hashed_children_def)
next
  case (Cons c cs)
  obtain n s n' s' ds where c: "c = (n, s)" "cs' = (n', s') # ds"
    using Cons.prems(4) by (cases c; cases cs') auto
  obtain x y where x: "write_child d n s h = Inr x" "write_children d cs h = Inr y"
    "a = write_bytes n @ x @ y"
    using Cons.prems(1) c by (auto simp: map_sum_def split: sum.splits)
  obtain x' y' where x': "write_child d' n' s' h' = Inr x'" "write_children d' ds h' = Inr y'"
    "b = write_bytes n' @ x' @ y'"
    using Cons.prems(2) c by (auto simp: map_sum_def split: sum.splits)
  have n: "n = n'" "x @ y = x' @ y'"
    using write_bytes_inject[of n "x @ y" n' "x' @ y'"] Cons.prems(3,5,6) c x x' by auto
  have s: "s = s' \<and> y = y' \<and> (case s of Leaf _ \<Rightarrow> True | _ \<Rightarrow> h (dir_child d n) = h' (dir_child d' n'))"
    using Cons.prems(5,6) c by (intro write_child_inject[OF x(1) x'(1) n(2)]) auto
  then have "hashed_children d cs h = hashed_children d' ds h'"
    using Cons.prems(4-6) c x x' by (intro Cons.IH[of y ds y']) auto
  with s n(1) show ?case
    by (auto simp: hashed_children_def c split: ChildSpec.splits)
qed

lemma directory_bytes_inject:
  assumes "directory_bytes dir children epoch hashes = Inr bytes"
    and "directory_bytes dir' children' epoch' hashes' = Inr bytes"
    and "children_fit dir children hashes" and "children_fit dir' children' hashes'"
    and "fits epoch" and "fits epoch'"
  shows "epoch = epoch' \<and> children = children'
    \<and> hashed_children dir children hashes = hashed_children dir' children' hashes'"
proof -
  obtain a where a: "write_children dir children hashes = Inr a"
    and ba: "bytes = write_bytes SUBTREE_DOMAIN @ u64_bytes TREE_FORMAT_VERSION
         @ u64_bytes epoch @ u64_bytes (length children) @ a"
    using assms(1) by (auto simp: directory_bytes_def map_sum_def split: sum.splits)
  obtain b where b: "write_children dir' children' hashes' = Inr b"
    and bb: "bytes = write_bytes SUBTREE_DOMAIN @ u64_bytes TREE_FORMAT_VERSION
         @ u64_bytes epoch' @ u64_bytes (length children') @ b"
    using assms(2) by (auto simp: directory_bytes_def map_sum_def split: sum.splits)
  have "u64_bytes epoch @ u64_bytes (length children) @ a
      = u64_bytes epoch' @ u64_bytes (length children') @ b"
    using ba bb by simp
  then have e: "epoch = epoch'" "u64_bytes (length children) @ a = u64_bytes (length children') @ b"
    using u64_bytes_inject assms(5,6) by blast+
  then have l: "length children = length children'" "a = b"
    using u64_bytes_inject assms(3,4) unfolding children_fit_def by blast+
  have h: "hashed_children dir children hashes = hashed_children dir' children' hashes'"
    using assms(3,4) l by (intro write_children_inject[OF a b l(2,1)]) (auto simp: children_fit_def)
  moreover from h have "map (\<lambda>(n, s, _). (n, s)) (hashed_children dir children hashes)
      = map (\<lambda>(n, s, _). (n, s)) (hashed_children dir' children' hashes')" by simp
  then have "children = children'" by (simp add: hashed_children_def o_def case_prod_unfold)
  ultimately show ?thesis using e by simp
qed

text \<open>
  No content can forge a field boundary: when two directories feed the same bytes
  to the hasher, they were hashed under the same key epoch and have the same names,
  the same entries and the same subtree hashes below, provided every number and length
  fits its 64-bit field, as it does in the program.
\<close>

theorem hashed_bytes_determine_directory:
  assumes "directory_bytes dir children epoch hashes = Inr bytes"
    and "directory_bytes dir' children' epoch' hashes' = Inr bytes"
    and "children_fit dir children hashes" and "children_fit dir' children' hashes'"
    and "fits epoch" and "fits epoch'"
  shows "epoch = epoch' \<and> children = children'
    \<and> hashed_children dir children hashes = hashed_children dir' children' hashes'"
  using directory_bytes_inject[OF assms] .

theorem hashed_bytes_determine_directory_witness:
  "(3 :: nat) = 3 \<and> [(''a'', Child_Subtree)] = [(''a'', Child_Subtree)]
   \<and> hashed_children [] [(''a'', Child_Subtree)] (\<lambda>_. Some ''st_1'')
     = hashed_children ''b'' [(''a'', Child_Subtree)] (\<lambda>_. Some ''st_1'')"
  by (rule hashed_bytes_determine_directory[where bytes = "write_bytes SUBTREE_DOMAIN
        @ u64_bytes TREE_FORMAT_VERSION @ u64_bytes 3 @ u64_bytes 1
        @ write_bytes ''a'' @ CHR 0x03 # write_bytes ''st_1''"])
    (simp_all add: directory_bytes_def child_hash_def children_fit_def fits_def u64_MAX_def)

end
