(* ===== verification/Directory_Decomposition.thy ===== *)
theory Directory_Decomposition
  imports Directory_Tree
begin

text \<open>
  What \<open>decompose\<close> computes, stated over component lists: every directory that the
  manifest names or implies has a node, and the children of a node are exactly the
  entries one component below it, with a bare subtree where only descendants imply
  the name.
\<close>

section \<open>Paths as component lists\<close>

abbreviation valid_path :: "string list \<Rightarrow> bool" where
  "valid_path cs \<equiv> list_all path_component cs"

lemma valid_no_slash: "valid_path cs \<Longrightarrow> \<forall>c \<in> set cs. slash \<notin> set c"
  by (auto simp: list_all_iff path_component_def)

lemma join_path_Nil_iff: "valid_path cs \<Longrightarrow> join_path cs = [] \<longleftrightarrow> cs = []"
  by (cases cs rule: join_path.cases) (auto simp: path_component_def)

lemma join_path_inject: "valid_path cs \<Longrightarrow> valid_path ds \<Longrightarrow> join_path cs = join_path ds \<longleftrightarrow> cs = ds"
  using split_join[of cs] split_join[of ds] valid_no_slash join_path_Nil_iff by metis

lemma join_path_snoc: "cs \<noteq> [] \<Longrightarrow> join_path (cs @ [c]) = join_path cs @ slash # c"
  by (induction cs rule: join_path.induct) auto

lemma dir_child_join: "valid_path cs \<Longrightarrow> dir_child (join_path cs) c = join_path (cs @ [c])"
  by (cases "cs = []") (simp_all add: dir_child_def join_path_Nil_iff join_path_snoc)

lemma dir_child_Nil: "dir_child [] c = c"
  by (simp add: dir_child_def)

lemma split_valid: "[] \<notin> set (split_on slash p) \<Longrightarrow> valid_path (split_on slash p)"
  using split_no_slash[of _ slash p] by (auto simp: list_all_iff path_component_def)

section \<open>The directories and children of a manifest\<close>

text \<open>
  A manifest is a map on component lists, and \<open>S\<close> the nonempty paths that some entry
  lies strictly below.
\<close>

type_synonym flat = "string list \<rightharpoonup> ManifestEntry"

fun is_leaf :: "ManifestEntry \<Rightarrow> bool" where
  "is_leaf (Directory _) = False"
| "is_leaf _ = True"

definition child_at :: "flat \<Rightarrow> string list set \<Rightarrow> string list \<Rightarrow> ChildSpec option" where
  "child_at m S cs =
     (case m cs of Some e \<Rightarrow> Some (spec_of_entry e)
      | None \<Rightarrow> if cs \<in> S then Some Child_Subtree else None)"

definition is_dir :: "flat \<Rightarrow> string list set \<Rightarrow> string list \<Rightarrow> bool" where
  "is_dir m S cs \<longleftrightarrow> cs = [] \<or> cs \<in> S \<or> (\<exists>mode. m cs = Some (Directory mode))"

definition leaf_at :: "flat \<Rightarrow> string list \<Rightarrow> bool" where
  "leaf_at m cs \<longleftrightarrow> (\<exists>e. m cs = Some e \<and> is_leaf e)"

definition node_ok :: "flat \<Rightarrow> string list set \<Rightarrow> string list \<Rightarrow> (string, ChildSpec) btree_map \<Rightarrow> bool" where
  "node_ok m S cs children \<longleftrightarrow>
     bt_ok children \<and> (\<forall>n \<in> fst ` set children. path_component n)
     \<and> (\<forall>n. path_component n \<longrightarrow> map_of children n = child_at m S (cs @ [n]))"

definition nodes_model :: "dir_nodes \<Rightarrow> flat \<Rightarrow> string list set \<Rightarrow> bool" where
  "nodes_model nodes m S \<longleftrightarrow>
     bt_ok nodes
     \<and> (\<forall>d \<in> fst ` set nodes. \<exists>cs. valid_path cs \<and> d = join_path cs)
     \<and> (\<forall>cs. valid_path cs \<longrightarrow>
          (case map_of nodes (join_path cs) of
             None \<Rightarrow> \<not> is_dir m S cs
           | Some children \<Rightarrow> is_dir m S cs \<and> node_ok m S cs children))
     \<and> (\<forall>cs. leaf_at m cs \<longrightarrow> cs \<notin> S)"

lemma nodes_modelD:
  assumes "nodes_model nodes m S"
  shows "bt_ok nodes" and "leaf_at m cs \<Longrightarrow> cs \<notin> S"
    and "valid_path cs \<Longrightarrow> map_of nodes (join_path cs) = Some children \<Longrightarrow>
      is_dir m S cs \<and> node_ok m S cs children"
    and "valid_path cs \<Longrightarrow> is_dir m S cs \<Longrightarrow> \<exists>children. map_of nodes (join_path cs) = Some children"
proof -
  show "bt_ok nodes" "leaf_at m cs \<Longrightarrow> cs \<notin> S" using assms by (auto simp: nodes_model_def)
  show "is_dir m S cs \<and> node_ok m S cs children"
    if "valid_path cs" "map_of nodes (join_path cs) = Some children"
    using assms that unfolding nodes_model_def by (auto split: option.splits)
  show "\<exists>children. map_of nodes (join_path cs) = Some children" if "valid_path cs" "is_dir m S cs"
    using assms that unfolding nodes_model_def by (metis option.case(1) option.exhaust)
qed

text \<open>How the model changes when the children of one directory change and a new node may appear.\<close>

lemma nodes_model_update:
  assumes model: "nodes_model nodes m S" and valid: "valid_path cs" and dir: "is_dir m S cs"
    and ok: "node_ok m' S' cs children"
    and child: "path_component n"
    and same: "\<And>ds. ds \<noteq> cs @ [n] \<Longrightarrow> child_at m' S' ds = child_at m S ds"
    and dirs: "\<And>ds. ds \<noteq> cs @ [n] \<Longrightarrow> is_dir m' S' ds = is_dir m S ds"
    and leaves: "\<And>ds. leaf_at m' ds \<Longrightarrow> ds \<notin> S'"
    and empty: "\<And>k. child_at m' S' ((cs @ [n]) @ [k]) = None \<or> is_dir m S (cs @ [n])"
    and new: "nodes' = (if is_dir m' S' (cs @ [n])
      then bt_or_insert (join_path (cs @ [n])) [] (bt_insert (join_path cs) children nodes)
      else bt_insert (join_path cs) children nodes)"
    and keep: "is_dir m S (cs @ [n]) \<Longrightarrow> is_dir m' S' (cs @ [n])"
  shows "nodes_model nodes' m' S'"
proof -
  let ?k = "cs @ [n]"
  let ?nodes = "bt_insert (join_path cs) children nodes"
  note ok_nodes = nodes_modelD(1)[OF model]
  have vk: "valid_path ?k" using valid child by simp
  have ne: "join_path ?k \<noteq> join_path cs" using join_path_inject[OF vk valid] by simp
  have bt: "bt_ok nodes'"
    using ok_nodes by (simp add: new bt_insert_ok bt_or_insert_ok)
  have old_k: "map_of nodes (join_path ?k) = None \<longleftrightarrow> \<not> is_dir m S ?k"
    using nodes_modelD(3,4)[OF model vk] by fastforce
  have look: "map_of nodes' d = (if d = join_path cs then Some children
      else if d = join_path ?k \<and> is_dir m' S' ?k
        then Some (case map_of nodes d of None \<Rightarrow> [] | Some ch \<Rightarrow> ch)
      else map_of nodes d)" for d
    using ok_nodes ne by (simp add: new bt_insert_ok map_of_bt_insert map_of_bt_or_insert)
  have node: "node_ok m' S' ds ch" if "node_ok m S ds ch" "ds \<noteq> cs" for ds ch
    using that same[of "ds @ [_]"] by (auto simp: node_ok_def)
  have "case map_of nodes' (join_path ds) of None \<Rightarrow> \<not> is_dir m' S' ds
      | Some ch \<Rightarrow> is_dir m' S' ds \<and> node_ok m' S' ds ch" if v: "valid_path ds" for ds
  proof -
    consider "ds = cs" | "ds = ?k" | "ds \<noteq> cs" "ds \<noteq> ?k" by blast
    then show ?thesis
    proof cases
      case 1
      with ok dir dirs[of cs] show ?thesis by (simp add: look)
    next
      case 2
      have "node_ok m' S' ?k ch" if "map_of nodes (join_path ?k) = Some ch" for ch
        using nodes_modelD(3)[OF model vk that] node by simp
      moreover have "node_ok m' S' ?k []" if "map_of nodes (join_path ?k) = None"
        using that old_k empty by (auto simp: node_ok_def)
      ultimately show ?thesis
        using 2 ne keep old_k by (auto simp: look split: option.split)
    next
      case 3
      then have "join_path ds \<noteq> join_path cs" "join_path ds \<noteq> join_path ?k"
        using join_path_inject v valid vk by blast+
      with 3 nodes_modelD(3,4)[OF model v] dirs[of ds] node show ?thesis
        by (auto simp: look split: option.split)
    qed
  qed
  moreover have "\<exists>ds. valid_path ds \<and> d = join_path ds" if "d \<in> fst ` set nodes'" for d
  proof -
    have "d \<in> fst ` set nodes \<or> d = join_path cs \<or> d = join_path ?k"
      using that by (auto simp: new bt_or_insert_def bt_insert_keys split: if_splits option.splits)
    then show ?thesis using model valid vk unfolding nodes_model_def by blast
  qed
  ultimately show ?thesis using bt leaves by (simp add: nodes_model_def)
qed

text \<open>Claiming a name and making its node: as a bare subtree, and as an entry.\<close>

lemma claim_child_children:
  assumes "nodes_model nodes m S" and "valid_path cs" and "is_dir m S cs" and "path_component n"
  obtains children where "map_of nodes (join_path cs) = Some children" "node_ok m S cs children"
    "map_of children n = child_at m S (cs @ [n])"
    "bt_or_insert (join_path cs) [] nodes = nodes"
proof -
  obtain children where c: "map_of nodes (join_path cs) = Some children"
    using nodes_modelD(4)[OF assms(1-3)] by blast
  then have "node_ok m S cs children" using nodes_modelD(3)[OF assms(1,2)] by blast
  then show ?thesis using assms(4) c by (intro that[of children]) (auto simp: node_ok_def bt_or_insert_def)
qed

lemma bt_insert_same: "bt_ok m \<Longrightarrow> map_of m k = Some v \<Longrightarrow> bt_insert k v m = m"
  by (rule bt_ext) (auto simp: bt_insert_ok map_of_bt_insert)

lemma node_ok_insert:
  assumes "node_ok m S cs children" and "path_component n"
    and "child_at m' S' (cs @ [n]) = Some spec"
    and "\<And>ds. ds \<noteq> cs @ [n] \<Longrightarrow> child_at m' S' ds = child_at m S ds"
  shows "node_ok m' S' cs (bt_insert n spec children)"
  using assms by (auto simp: node_ok_def bt_insert_ok bt_insert_keys map_of_bt_insert)

definition closed_below :: "flat \<Rightarrow> string list set \<Rightarrow> bool" where
  "closed_below m S \<longleftrightarrow> (\<forall>cs n. cs \<noteq> [] \<longrightarrow> child_at m S (cs @ [n]) \<noteq> None \<longrightarrow> cs \<in> S)"

lemma claim_subtree:
  assumes model: "nodes_model nodes m S" and valid: "valid_path cs" and dir: "is_dir m S cs"
    and n: "path_component n" and closed: "closed_below m S"
  shows "if leaf_at m (cs @ [n])
    then claim_child nodes (join_path cs) n Child_Subtree =
      Inl (InvalidEntry ''path component is claimed as both a file and a directory'')
    else (\<exists>nodes'. claim_child nodes (join_path cs) n Child_Subtree = Inr nodes'
      \<and> nodes_model (bt_or_insert (join_path (cs @ [n])) [] nodes') m (insert (cs @ [n]) S))"
proof -
  obtain children where c: "map_of nodes (join_path cs) = Some children" "node_ok m S cs children"
    "map_of children n = child_at m S (cs @ [n])" "bt_or_insert (join_path cs) [] nodes = nodes"
    by (rule claim_child_children[OF model valid dir n])
  note ok = nodes_modelD(1)[OF model]
  let ?S = "insert (cs @ [n]) S"
  show ?thesis
  proof (cases "leaf_at m (cs @ [n])")
    case True
    then obtain e where "m (cs @ [n]) = Some e" "is_leaf e" by (auto simp: leaf_at_def)
    then have "child_at m S (cs @ [n]) = Some (Leaf e)" by (cases e) (simp_all add: child_at_def)
    with True c show ?thesis by (simp add: claim_child_def Let_def)
  next
    case False
    have spec: "child_at m S (cs @ [n]) \<in> {None, Some Child_Subtree} \<or>
        (\<exists>mode. child_at m S (cs @ [n]) = Some (Child_Directory mode))"
      using False by (auto simp: child_at_def leaf_at_def split: option.splits)
        (metis is_leaf.elims(3) spec_of_entry.simps(1))
    define children' where "children' = (case child_at m S (cs @ [n]) of
      None \<Rightarrow> bt_insert n Child_Subtree children | Some _ \<Rightarrow> children)"
    have claim: "claim_child nodes (join_path cs) n Child_Subtree = Inr (bt_insert (join_path cs) children' nodes)"
      using spec c ok bt_insert_same[OF ok c(1)] by (auto simp: claim_child_def Let_def children'_def)
    have same: "child_at m ?S ds = child_at m S ds" if "ds \<noteq> cs @ [n]" for ds
      using that by (simp add: child_at_def)
    have "node_ok m ?S cs children'"
    proof (cases "child_at m S (cs @ [n])")
      case None
      then show ?thesis
        using c(2) n same by (auto simp: children'_def child_at_def intro!: node_ok_insert split: option.splits)
    next
      case (Some spec')
      then have "child_at m ?S (cs @ [n]) = child_at m S (cs @ [n])"
        by (auto simp: child_at_def split: option.splits if_splits)
      with same have "child_at m ?S ds = child_at m S ds" for ds by (cases "ds = cs @ [n]") simp_all
      with c(2) Some show ?thesis by (simp add: children'_def node_ok_def)
    qed
    moreover have "is_dir m ?S (cs @ [n])" by (simp add: is_dir_def)
    ultimately have "nodes_model (bt_or_insert (join_path (cs @ [n])) []
        (bt_insert (join_path cs) children' nodes)) m ?S"
    proof (intro nodes_model_update[OF model valid dir _ n same])
      show "child_at m ?S ((cs @ [n]) @ [k]) = None \<or> is_dir m S (cs @ [n])" for k
        using closed[unfolded closed_below_def, rule_format, of "cs @ [n]" k] same[of "(cs @ [n]) @ [k]"]
        by (auto simp: is_dir_def)
    qed (use False nodes_modelD(2)[OF model] in \<open>auto simp: is_dir_def\<close>)
    with claim False show ?thesis by auto
  qed
qed

lemma claim_entry:
  assumes model: "nodes_model nodes m S" and valid: "valid_path cs" and dir: "is_dir m S cs"
    and n: "path_component n" and closed: "closed_below m S" and fresh: "m (cs @ [n]) = None"
  shows "if is_leaf e \<and> cs @ [n] \<in> S
    then claim_child nodes (join_path cs) n (spec_of_entry e) =
      Inl (InvalidEntry ''path component is claimed as both a file and a directory'')
    else (\<exists>nodes'. claim_child nodes (join_path cs) n (spec_of_entry e) = Inr nodes'
      \<and> nodes_model (if owns_subtree (spec_of_entry e)
          then bt_or_insert (join_path (cs @ [n])) [] nodes' else nodes') (m(cs @ [n] \<mapsto> e)) S)"
proof -
  obtain children where c: "map_of nodes (join_path cs) = Some children" "node_ok m S cs children"
    "map_of children n = child_at m S (cs @ [n])" "bt_or_insert (join_path cs) [] nodes = nodes"
    by (rule claim_child_children[OF model valid dir n])
  let ?m = "m(cs @ [n] \<mapsto> e)"
  have spec: "child_at m S (cs @ [n]) = (if cs @ [n] \<in> S then Some Child_Subtree else None)"
    using fresh by (simp add: child_at_def)
  show ?thesis
  proof (cases "is_leaf e \<and> cs @ [n] \<in> S")
    case True
    with c spec show ?thesis by (cases e) (simp_all add: claim_child_def Let_def)
  next
    case False
    have claim: "claim_child nodes (join_path cs) n (spec_of_entry e) =
        Inr (bt_insert (join_path cs) (bt_insert n (spec_of_entry e) children) nodes)"
      using c spec False by (cases e) (simp_all add: claim_child_def Let_def)
    have own: "owns_subtree (spec_of_entry e) \<longleftrightarrow> \<not> is_leaf e" by (cases e) simp_all
    have isd: "is_dir ?m S (cs @ [n]) \<longleftrightarrow> \<not> is_leaf e"
      using False by (cases e) (auto simp: is_dir_def)
    have same: "child_at ?m S ds = child_at m S ds" if "ds \<noteq> cs @ [n]" for ds
      using that by (simp add: child_at_def)
    have "node_ok ?m S cs (bt_insert n (spec_of_entry e) children)"
      using c(2) n same by (intro node_ok_insert) (simp_all add: child_at_def)
    then have "nodes_model (if owns_subtree (spec_of_entry e)
        then bt_or_insert (join_path (cs @ [n])) []
          (bt_insert (join_path cs) (bt_insert n (spec_of_entry e) children) nodes)
        else bt_insert (join_path cs) (bt_insert n (spec_of_entry e) children) nodes) ?m S"
    proof (intro nodes_model_update[OF model valid dir _ n same])
      show "child_at ?m S ((cs @ [n]) @ [k]) = None \<or> is_dir m S (cs @ [n])" for k
        using closed[unfolded closed_below_def, rule_format, of "cs @ [n]" k] same[of "(cs @ [n]) @ [k]"]
        by (auto simp: is_dir_def)
      show "is_dir ?m S (cs @ [n])" if "is_dir m S (cs @ [n])"
        using that fresh isd False by (auto simp: is_dir_def)
    qed (use False isd own nodes_modelD(2)[OF model] in
        \<open>auto simp: is_dir_def leaf_at_def split: if_splits\<close>)
    with claim False show ?thesis by auto
  qed
qed

text \<open>One whole path.\<close>

definition inner_prefixes :: "string list \<Rightarrow> string list \<Rightarrow> string list set" where
  "inner_prefixes parent rest = {parent @ q | q. strict_prefix q rest \<and> q \<noteq> []}"

definition insertable :: "flat \<Rightarrow> string list set \<Rightarrow> string list \<Rightarrow> string list \<Rightarrow> ManifestEntry \<Rightarrow> bool" where
  "insertable m S parent rest e \<longleftrightarrow>
     (\<forall>q \<in> inner_prefixes parent rest. \<not> leaf_at m q) \<and> \<not> (is_leaf e \<and> parent @ rest \<in> S)"

lemma inner_prefixes_Cons:
  "inner_prefixes parent (c # rest) =
     (if rest = [] then {} else insert (parent @ [c]) (inner_prefixes (parent @ [c]) rest))"
proof (cases rest)
  case (Cons d ds)
  have "{parent @ q | q. strict_prefix q (c # rest) \<and> q \<noteq> []} =
      {parent @ c # q | q. strict_prefix q rest}"
    by (auto simp: strict_prefix_def prefix_Cons)
  also have "\<dots> = insert (parent @ [c]) {parent @ c # q | q. strict_prefix q rest \<and> q \<noteq> []}"
    using Cons by (auto simp: strict_prefix_def)
  finally show ?thesis using Cons by (simp add: inner_prefixes_def)
qed (auto simp: inner_prefixes_def strict_prefix_def prefix_Cons)

lemma child_at_None: "child_at m S ds = None \<longleftrightarrow> m ds = None \<and> ds \<notin> S"
  by (simp add: child_at_def split: option.split)

lemma closed_below_extend:
  assumes "closed_below m S" and "cs = [] \<or> cs \<in> S" and "S \<subseteq> S'"
    and "\<And>ds. ds \<noteq> cs @ [n] \<Longrightarrow> child_at m' S' ds = child_at m S ds"
  shows "closed_below m' S'"
  unfolding closed_below_def
proof (intro allI impI)
  fix ds k
  assume ds: "ds \<noteq> []" and k: "child_at m' S' (ds @ [k]) \<noteq> None"
  show "ds \<in> S'"
  proof (cases "ds @ [k] = cs @ [n]")
    case True
    with ds assms(2,3) show ?thesis by auto
  next
    case False
    with k assms(4) have "child_at m S (ds @ [k]) \<noteq> None" by simp
    with assms(1,3) ds show ?thesis unfolding closed_below_def by blast
  qed
qed

lemma closed_below_insert:
  "closed_below m S \<Longrightarrow> cs = [] \<or> cs \<in> S \<Longrightarrow> closed_below m (insert (cs @ [n]) S)"
  by (erule closed_below_extend) (auto simp: child_at_def)

lemma closed_below_upd:
  "closed_below m S \<Longrightarrow> cs = [] \<or> cs \<in> S \<Longrightarrow> closed_below (m(cs @ [n] \<mapsto> e)) S"
  by (erule closed_below_extend) (auto simp: child_at_def)

lemma insert_components_model:
  assumes "nodes_model nodes m S" and "closed_below m S" and "parent = [] \<or> parent \<in> S"
    and "valid_path (parent @ rest)" and "rest \<noteq> []" and "m (parent @ rest) = None"
  shows "if insertable m S parent rest e
    then (\<exists>nodes'. insert_components nodes (join_path parent) rest e = Inr nodes'
      \<and> nodes_model nodes' (m(parent @ rest \<mapsto> e)) (S \<union> inner_prefixes parent rest)
      \<and> closed_below (m(parent @ rest \<mapsto> e)) (S \<union> inner_prefixes parent rest))
    else insert_components nodes (join_path parent) rest e =
      Inl (InvalidEntry ''path component is claimed as both a file and a directory'')"
  using assms
proof (induction rest arbitrary: nodes S parent)
  case (Cons c rest)
  have v: "valid_path parent" "path_component c" and dir: "is_dir m S parent"
    using Cons.prems by (auto simp: is_dir_def)
  then have c: "c \<noteq> []" by (simp add: path_component_def)
  show ?case
  proof (cases "rest = []")
    case True
    have "inner_prefixes parent (c # rest) = {}" using True by (simp add: inner_prefixes_Cons)
    with claim_entry[OF Cons.prems(1) v(1) dir v(2) Cons.prems(2), of e] Cons.prems(2,3,6) True c
      closed_below_upd[OF Cons.prems(2,3), of c e]
    show ?thesis
      by (auto simp: insertable_def Let_def dir_child_join[OF v(1)] dir_child_Nil fun_upd_def
          split: if_splits)
  next
    case False
    have inner: "inner_prefixes parent (c # rest) = insert (parent @ [c]) (inner_prefixes (parent @ [c]) rest)"
      using False by (simp add: inner_prefixes_Cons)
    have step: "insertable m S parent (c # rest) e \<longleftrightarrow>
        \<not> leaf_at m (parent @ [c]) \<and> insertable m (insert (parent @ [c]) S) (parent @ [c]) rest e"
      using False by (auto simp: insertable_def inner)
    note claim = claim_subtree[OF Cons.prems(1) v(1) dir v(2) Cons.prems(2)]
    show ?thesis
    proof (cases "leaf_at m (parent @ [c])")
      case True
      with claim False c step show ?thesis by simp
    next
      case leaf: False
      with claim obtain nodes' where
        n: "claim_child nodes (join_path parent) c Child_Subtree = Inr nodes'"
        and model: "nodes_model (bt_or_insert (join_path (parent @ [c])) [] nodes') m (insert (parent @ [c]) S)"
        by auto
      have ins: "insert_components nodes (join_path parent) (c # rest) e =
          insert_components (bt_or_insert (join_path (parent @ [c])) [] nodes') (join_path (parent @ [c])) rest e"
        using n False c by (simp add: Let_def dir_child_join[OF v(1)])
      have ih: "if insertable m (insert (parent @ [c]) S) (parent @ [c]) rest e
        then (\<exists>nodes''. insert_components (bt_or_insert (join_path (parent @ [c])) [] nodes')
            (join_path (parent @ [c])) rest e = Inr nodes''
          \<and> nodes_model nodes'' (m((parent @ [c]) @ rest \<mapsto> e))
              (insert (parent @ [c]) S \<union> inner_prefixes (parent @ [c]) rest)
          \<and> closed_below (m((parent @ [c]) @ rest \<mapsto> e))
              (insert (parent @ [c]) S \<union> inner_prefixes (parent @ [c]) rest))
        else insert_components (bt_or_insert (join_path (parent @ [c])) [] nodes')
            (join_path (parent @ [c])) rest e =
          Inl (InvalidEntry ''path component is claimed as both a file and a directory'')"
        using Cons.prems(4,6) False
        by (intro Cons.IH[OF model closed_below_insert[OF Cons.prems(2,3)]]) simp_all
      have eq: "insert (parent @ [c]) S \<union> inner_prefixes (parent @ [c]) rest =
          S \<union> inner_prefixes parent (c # rest)" "(parent @ [c]) @ rest = parent @ c # rest"
        by (simp_all add: inner)
      from step leaf have step': "insertable m S parent (c # rest) e \<longleftrightarrow>
          insertable m (insert (parent @ [c]) S) (parent @ [c]) rest e" by simp
      show ?thesis using ih unfolding ins step' eq .
    qed
  qed
qed simp

section \<open>Whole manifests\<close>

definition implied :: "flat \<Rightarrow> string list set" where
  "implied m = {cs. cs \<noteq> [] \<and> (\<exists>q \<in> dom m. strict_prefix cs q)}"

definition consistent :: "flat \<Rightarrow> bool" where
  "consistent m \<longleftrightarrow> (\<forall>cs. leaf_at m cs \<longrightarrow> cs \<notin> implied m)"

definition flat_of :: "(WorkspacePath, ManifestEntry) btree_map \<Rightarrow> flat" where
  "flat_of entries cs = (if valid_path cs \<and> cs \<noteq> [] then map_of entries (join_path cs) else None)"

text \<open>Every path of a manifest has only nonempty components.\<close>

definition proper_paths :: "(WorkspacePath \<times> ManifestEntry) list \<Rightarrow> bool" where
  "proper_paths entries \<longleftrightarrow> (\<forall>(path, entry) \<in> set entries. [] \<notin> set (split_on slash path))"

lemma implied_upd: "implied (m(q \<mapsto> e)) = implied m \<union> inner_prefixes [] q"
  by (auto simp: implied_def inner_prefixes_def)

lemma not_inner_prefix: "q \<notin> inner_prefixes [] q"
  by (simp add: inner_prefixes_def)

lemma leaf_at_upd: "leaf_at (m(q \<mapsto> e)) cs \<longleftrightarrow> (if cs = q then is_leaf e else leaf_at m cs)"
  by (simp add: leaf_at_def)

lemma consistent_upd:
  assumes "consistent m" and "m q = None"
  shows "consistent (m(q \<mapsto> e)) \<longleftrightarrow> insertable m (implied m) [] q e"
proof -
  have "\<not> leaf_at m q" using assms(2) by (simp add: leaf_at_def)
  with assms(1) not_inner_prefix[of q] show ?thesis
    by (auto simp: consistent_def insertable_def implied_upd leaf_at_upd)
qed

lemma consistent_mono: "m \<subseteq>\<^sub>m m' \<Longrightarrow> consistent m' \<Longrightarrow> consistent m"
  by (auto simp: consistent_def leaf_at_def implied_def map_le_def) (metis domI)

lemma implied_closed: "closed_below m (implied m)"
  unfolding closed_below_def
proof (intro allI impI)
  fix cs n
  assume "cs \<noteq> []" and "child_at m (implied m) (cs @ [n]) \<noteq> None"
  then have "cs @ [n] \<in> dom m \<or> (\<exists>q \<in> dom m. strict_prefix (cs @ [n]) q)"
    by (auto simp: child_at_None implied_def)
  moreover have "strict_prefix cs (cs @ [n])" by (simp add: strict_prefix_def)
  ultimately have "\<exists>q \<in> dom m. strict_prefix cs q" using prefix_order.less_trans by blast
  with \<open>cs \<noteq> []\<close> show "cs \<in> implied m" by (simp add: implied_def)
qed

fun add_entries :: "flat \<Rightarrow> (WorkspacePath \<times> ManifestEntry) list \<Rightarrow> flat" where
  "add_entries m [] = m"
| "add_entries m ((path, entry) # entries) = add_entries (m(split_on slash path \<mapsto> entry)) entries"

lemma split_inject: "split_on slash p = split_on slash q \<longleftrightarrow> p = q"
  by (metis join_split)

lemma add_entries_other:
  "p \<notin> fst ` set entries \<Longrightarrow> add_entries m entries (split_on slash p) = m (split_on slash p)"
  by (induction m entries rule: add_entries.induct) (auto simp: split_inject)

lemma add_entries_map_le:
  assumes "distinct (map fst entries)" and "\<forall>p \<in> fst ` set entries. m (split_on slash p) = None"
  shows "m \<subseteq>\<^sub>m add_entries m entries"
  using assms
proof (induction m entries rule: add_entries.induct)
  case (2 m path entry entries)
  have "m \<subseteq>\<^sub>m m(split_on slash path \<mapsto> entry)" using 2(3) by (auto simp: map_le_def)
  moreover have "m(split_on slash path \<mapsto> entry) \<subseteq>\<^sub>m add_entries (m(split_on slash path \<mapsto> entry)) entries"
    using 2 by (intro 2(1)) (auto simp: split_inject)
  ultimately show ?case using map_le_trans by simp
qed simp

lemma insert_paths_model:
  assumes "nodes_model nodes m (implied m)" and "consistent m" and "proper_paths entries"
    and "distinct (map fst entries)" and "\<forall>p \<in> fst ` set entries. m (split_on slash p) = None"
  shows "if consistent (add_entries m entries)
    then (\<exists>nodes'. insert_paths nodes entries = Inr nodes'
      \<and> nodes_model nodes' (add_entries m entries) (implied (add_entries m entries)))
    else insert_paths nodes entries =
      Inl (InvalidEntry ''path component is claimed as both a file and a directory'')"
  using assms
proof (induction entries arbitrary: nodes m)
  case (Cons pe entries)
  obtain p e where pe: "pe = (p, e)" by force
  let ?q = "split_on slash p" and ?m = "m(split_on slash p \<mapsto> e)"
  have v: "valid_path ?q" using Cons.prems(3) pe by (auto simp: proper_paths_def intro: split_valid)
  have fresh: "m ?q = None" using Cons.prems(5) pe by simp
  note step = insert_components_model[OF Cons.prems(1) implied_closed, of "[]" ?q e, simplified,
      OF v fresh, folded dir_root_def insert_path_def]
  show ?case
  proof (cases "insertable m (implied m) [] ?q e")
    case True
    with step obtain nodes' where n: "insert_path nodes p e = Inr nodes'"
      and model: "nodes_model nodes' ?m (implied ?m)"
      by (auto simp: implied_upd dir_root_def insert_path_def)
    have "consistent ?m" using True consistent_upd[OF Cons.prems(2) fresh] by blast
    moreover have "\<forall>p' \<in> fst ` set entries. ?m (split_on slash p') = None"
      using Cons.prems(4,5) pe by (auto simp: split_inject)
    moreover have "proper_paths entries" "distinct (map fst entries)"
      using Cons.prems(3,4) by (simp_all add: proper_paths_def)
    ultimately have "if consistent (add_entries ?m entries)
      then (\<exists>nodes''. insert_paths nodes' entries = Inr nodes''
        \<and> nodes_model nodes'' (add_entries ?m entries) (implied (add_entries ?m entries)))
      else insert_paths nodes' entries =
        Inl (InvalidEntry ''path component is claimed as both a file and a directory'')"
      by (intro Cons.IH[OF model])
    then show ?thesis by (simp only: pe n insert_paths.simps add_entries.simps sum.case)
  next
    case False
    then have "\<not> consistent ?m" using consistent_upd[OF Cons.prems(2) fresh] by blast
    moreover have "?m \<subseteq>\<^sub>m add_entries ?m entries"
      using Cons.prems(4,5) pe by (intro add_entries_map_le) (auto simp: split_inject)
    ultimately have "\<not> consistent (add_entries ?m entries)" using consistent_mono by blast
    with False step pe show ?thesis by (simp add: dir_root_def insert_path_def)
  qed
qed auto

lemma add_entries_flat_of:
  assumes "distinct (map fst entries)" and "proper_paths entries"
  shows "add_entries Map.empty entries = flat_of entries"
proof
  fix cs
  have gen: "add_entries m entries cs = (if cs \<in> split_on slash ` fst ` set entries
      then map_of entries (join_path cs) else m cs)" if "distinct (map fst entries)" for m entries
    using that
  proof (induction entries arbitrary: m)
    case (Cons pe entries)
    obtain p e where "pe = (p, e)" by force
    with Cons.IH[of "m(split_on slash p \<mapsto> e)"] Cons.prems show ?case
      by (auto simp: join_split split_inject fun_upd_def) (force)+
  qed simp
  have "cs \<in> split_on slash ` fst ` set entries \<longleftrightarrow> cs \<noteq> [] \<and> valid_path cs \<and> map_of entries (join_path cs) \<noteq> None"
  proof
    assume "cs \<in> split_on slash ` fst ` set entries"
    then show "cs \<noteq> [] \<and> valid_path cs \<and> map_of entries (join_path cs) \<noteq> None"
      using assms(2) by (auto simp: proper_paths_def join_split map_of_eq_None_iff intro!: split_valid) force
  next
    assume a: "cs \<noteq> [] \<and> valid_path cs \<and> map_of entries (join_path cs) \<noteq> None"
    then have "join_path cs \<in> fst ` set entries" by (metis map_of_eq_None_iff)
    with a split_join[of cs] valid_no_slash show "cs \<in> split_on slash ` fst ` set entries"
      by (metis image_eqI)
  qed
  with gen[OF assms(1), of Map.empty] show "add_entries Map.empty entries cs = flat_of entries cs"
    by (auto simp: flat_of_def)
qed

lemma empty_nodes_model: "nodes_model (bt_insert dir_root [] []) Map.empty (implied Map.empty)"
proof -
  have "node_ok Map.empty {} [] []" by (simp add: node_ok_def child_at_def)
  moreover have "\<exists>cs. valid_path cs \<and> [] = join_path cs" by (rule exI[of _ "[]"]) simp
  ultimately show ?thesis
    by (auto simp: nodes_model_def implied_def is_dir_def leaf_at_def dir_root_def join_path_Nil_iff)
qed

lemma decompose_model:
  assumes "bt_ok entries" and "proper_paths entries"
  shows "if consistent (flat_of entries)
    then (\<exists>nodes. decompose entries = Inr nodes
      \<and> nodes_model nodes (flat_of entries) (implied (flat_of entries)))
    else decompose entries =
      Inl (InvalidEntry ''path component is claimed as both a file and a directory'')"
proof -
  have "consistent Map.empty" by (simp add: consistent_def leaf_at_def)
  then show ?thesis
    using insert_paths_model[OF empty_nodes_model _ assms(2) bt_ok_distinct[OF assms(1)]]
    unfolding decompose_def add_entries_flat_of[OF bt_ok_distinct[OF assms(1)] assms(2)] by simp
qed

end
