(* ===== verification/Subtree_Hashes.thy ===== *)
theory Subtree_Hashes
  imports Directory_Decomposition
begin

text \<open>
  The subtree hashes of a decomposed manifest: the single pass from the last directory
  to the first finds every child hash it needs, and equal hashes mean equal subtrees
  when the digest has no collision.
\<close>

section \<open>The pass succeeds\<close>

lemma prefix_less: "strict_prefix (s :: string) t \<Longrightarrow> s < t"
proof (induction s arbitrary: t)
  case Nil
  then show ?case by (cases t) simp_all
next
  case (Cons c s)
  then obtain t' where "t = c # t'" "strict_prefix s t'"
    by (cases t) (auto simp: strict_prefix_def)
  with Cons.IH show ?case by (simp add: Cons_less_Cons)
qed

lemma dir_child_less: "name \<noteq> [] \<Longrightarrow> dir < dir_child dir name"
  by (intro prefix_less) (auto simp: dir_child_def strict_prefix_def)

text \<open>Which child hashes a directory needs.\<close>

definition needs_hash :: "ChildSpec \<Rightarrow> bool" where
  "needs_hash spec = (case spec of Leaf _ \<Rightarrow> False | _ \<Rightarrow> True)"

definition proper_spec :: "ChildSpec \<Rightarrow> bool" where
  "proper_spec spec \<longleftrightarrow> (\<forall>mode. spec \<noteq> Leaf (Directory mode))"

lemma write_child_ok:
  assumes "proper_spec spec" and "needs_hash spec \<Longrightarrow> hashes (dir_child dir name) \<noteq> None"
  shows "\<exists>bytes. write_child dir name spec hashes = Inr bytes"
  using assms
  by (cases "(dir, name, spec, hashes)" rule: write_child.cases)
    (auto simp: child_hash_def needs_hash_def proper_spec_def)

lemma write_children_ok:
  assumes "\<forall>(name, spec) \<in> set children. proper_spec spec
    \<and> (needs_hash spec \<longrightarrow> hashes (dir_child dir name) \<noteq> None)"
  shows "\<exists>bytes. write_children dir children hashes = Inr bytes"
  using assms
proof (induction children)
  case (Cons c children)
  obtain name spec where c: "c = (name, spec)" by force
  obtain bytes where "write_child dir name spec hashes = Inr bytes"
    using write_child_ok[of spec hashes dir name] Cons.prems c by auto
  with Cons c show ?case by auto
qed simp

lemma write_child_cong:
  "(needs_hash spec \<Longrightarrow> h (dir_child dir name) = h' (dir_child dir name)) \<Longrightarrow>
   write_child dir name spec h = write_child dir name spec h'"
  by (cases "(dir, name, spec, h)" rule: write_child.cases) (auto simp: child_hash_def needs_hash_def)

lemma write_children_cong:
  assumes "\<forall>(name, spec) \<in> set children. needs_hash spec \<longrightarrow> h (dir_child dir name) = h' (dir_child dir name)"
  shows "write_children dir children h = write_children dir children h'"
  using assms
proof (induction children)
  case (Cons c children)
  obtain name spec where "c = (name, spec)" by force
  with Cons write_child_cong[of spec h dir name h'] show ?case by (auto split: sum.split)
qed simp

lemma hash_directory_cong:
  assumes "\<forall>(name, spec) \<in> set children. needs_hash spec \<longrightarrow> h (dir_child dir name) = h' (dir_child dir name)"
  shows "hash_directory blake3 dir children epoch h = hash_directory blake3 dir children epoch h'"
  using write_children_cong[OF assms] by (simp add: hash_directory_def directory_bytes_def)

text \<open>Every directory that a child names has a node further on.\<close>

definition nodes_closed :: "dir_nodes \<Rightarrow> bool" where
  "nodes_closed nodes \<longleftrightarrow>
     (\<forall>(dir, children) \<in> set nodes. \<forall>(name, spec) \<in> set children.
        name \<noteq> [] \<and> proper_spec spec \<and> (needs_hash spec \<longrightarrow> dir_child dir name \<in> fst ` set nodes))"

definition hashes_agree ::
  "(string \<Rightarrow> string) \<Rightarrow> KeyEpoch \<Rightarrow> dir_nodes \<Rightarrow> (DirPath \<rightharpoonup> SubtreeHash) \<Rightarrow> bool" where
  "hashes_agree blake3 epoch nodes hashes \<longleftrightarrow>
     (\<forall>(dir, children) \<in> set nodes. \<exists>h. hashes dir = Some h
        \<and> hash_directory blake3 dir children epoch hashes = Inr h)"

lemma hash_directories_ok:
  assumes "sorted_wrt (>) (map fst nodes)" and "bt_ok hashes"
    and "\<forall>(dir, children) \<in> set nodes. \<forall>(name, spec) \<in> set children.
        name \<noteq> [] \<and> proper_spec spec
        \<and> (needs_hash spec \<longrightarrow> dir_child dir name \<in> fst ` set nodes \<union> dom (map_of hashes))"
    and "\<forall>dir \<in> dom (map_of hashes). \<forall>d \<in> fst ` set nodes. d < dir"
  shows "\<exists>hashes'. hash_directories blake3 epoch nodes hashes = Inr hashes' \<and> bt_ok hashes'
    \<and> map_of hashes \<subseteq>\<^sub>m map_of hashes' \<and> dom (map_of hashes') = dom (map_of hashes) \<union> fst ` set nodes
    \<and> hashes_agree blake3 epoch nodes (map_of hashes')"
  using assms
proof (induction nodes arbitrary: hashes)
  case Nil
  then show ?case by (auto simp: hashes_agree_def)
next
  case (Cons node nodes)
  obtain dir children where n: "node = (dir, children)" by force
  have greater: "\<forall>d \<in> fst ` set nodes. d < dir" using Cons.prems(1) n by auto
  have child: "map_of hashes (dir_child dir name) \<noteq> None"
    if "(name, spec) \<in> set children" "needs_hash spec" for name spec
  proof -
    have "name \<noteq> []" "dir_child dir name \<in> insert dir (fst ` set nodes) \<union> dom (map_of hashes)"
      using Cons.prems(3) n that by auto
    moreover have "dir < dir_child dir name" using \<open>name \<noteq> []\<close> by (rule dir_child_less)
    ultimately have "dir_child dir name \<in> dom (map_of hashes)" using greater by (metis UnE insertE less_asym order_less_irrefl)
    then show ?thesis by (simp add: domIff)
  qed
  then have "\<forall>(name, spec) \<in> set children. proper_spec spec
      \<and> (needs_hash spec \<longrightarrow> map_of hashes (dir_child dir name) \<noteq> None)"
    using Cons.prems(3) n by fastforce
  then obtain bytes where "write_children dir children (map_of hashes) = Inr bytes"
    using write_children_ok by blast
  then obtain h where h: "hash_directory blake3 dir children epoch (map_of hashes) = Inr h"
    by (simp add: hash_directory_def directory_bytes_def)
  let ?hashes = "bt_insert dir h hashes"
  have look: "map_of ?hashes = (map_of hashes)(dir \<mapsto> h)" using Cons.prems(2) by (rule map_of_bt_insert)
  have fresh: "dir \<notin> dom (map_of hashes)" using Cons.prems(4) n by auto
  obtain hashes' where ih: "hash_directories blake3 epoch nodes ?hashes = Inr hashes'" "bt_ok hashes'"
    "map_of ?hashes \<subseteq>\<^sub>m map_of hashes'" "dom (map_of hashes') = dom (map_of ?hashes) \<union> fst ` set nodes"
    "hashes_agree blake3 epoch nodes (map_of hashes')"
  proof -
    have "\<exists>hashes'. hash_directories blake3 epoch nodes ?hashes = Inr hashes' \<and> bt_ok hashes'
      \<and> map_of ?hashes \<subseteq>\<^sub>m map_of hashes' \<and> dom (map_of hashes') = dom (map_of ?hashes) \<union> fst ` set nodes
      \<and> hashes_agree blake3 epoch nodes (map_of hashes')"
    proof (rule Cons.IH)
      show "bt_ok ?hashes" using Cons.prems(2) by (rule bt_insert_ok)
      show "\<forall>(dir', children) \<in> set nodes. \<forall>(name, spec) \<in> set children.
        name \<noteq> [] \<and> proper_spec spec
        \<and> (needs_hash spec \<longrightarrow> dir_child dir' name \<in> fst ` set nodes \<union> dom (map_of ?hashes))"
        using Cons.prems(3) n look by fastforce
      show "\<forall>d' \<in> dom (map_of ?hashes). \<forall>d \<in> fst ` set nodes. d < d'"
        using Cons.prems(4) greater n look by auto
    qed (use Cons.prems(1) in simp)
    with that show ?thesis by blast
  qed
  have le: "map_of hashes \<subseteq>\<^sub>m map_of hashes'"
    using ih(3) fresh look by (auto simp: map_le_def domIff) (metis domI option.distinct(1))
  have "hash_directory blake3 dir children epoch (map_of hashes') = Inr h"
  proof -
    have "\<forall>(name, spec) \<in> set children. needs_hash spec \<longrightarrow>
        map_of hashes (dir_child dir name) = map_of hashes' (dir_child dir name)"
      using child le by (fastforce simp: map_le_def dom_def)
    from hash_directory_cong[OF this, of blake3 epoch] h show ?thesis by simp
  qed
  moreover have "map_of hashes' dir = Some h" using ih(3) look by (auto simp: map_le_def)
  ultimately have "hashes_agree blake3 epoch (node # nodes) (map_of hashes')"
    using ih(5) n by (simp add: hashes_agree_def)
  moreover have "dom (map_of hashes') = dom (map_of hashes) \<union> fst ` set (node # nodes)"
    using ih(4) look n by auto
  ultimately show ?case using ih(1,2) le h n by auto
qed

lemma subtree_hashes_ok:
  assumes "bt_ok nodes" and "nodes_closed nodes"
  shows "\<exists>hashes. subtree_hashes blake3 nodes epoch = Inr hashes \<and> bt_ok hashes
    \<and> dom (map_of hashes) = fst ` set nodes \<and> hashes_agree blake3 epoch nodes (map_of hashes)"
proof -
  have "sorted_wrt (>) (map fst (rev nodes))"
    using assms(1) by (simp add: bt_ok_def rev_map[symmetric] sorted_wrt_rev)
  from hash_directories_ok[OF this, of "[]" blake3 epoch] assms(2) show ?thesis
    by (auto simp: subtree_hashes_def nodes_closed_def hashes_agree_def)
qed

text \<open>A decomposed manifest is closed, so its hashes can be computed.\<close>

lemma child_at_proper:
  assumes "child_at m S cs = Some spec"
  shows "proper_spec spec" and "needs_hash spec \<Longrightarrow> is_dir m S cs"
proof -
  show "proper_spec spec"
    using assms by (auto simp: child_at_def proper_spec_def split: option.splits if_splits)
      (metis ChildSpec.distinct(1) ChildSpec.inject(1) ManifestEntry.distinct(1,5) spec_of_entry.elims)
  show "is_dir m S cs" if "needs_hash spec"
  proof (cases "m cs")
    case None
    with assms show ?thesis by (auto simp: child_at_def is_dir_def split: if_splits)
  next
    case (Some e)
    with assms that show ?thesis by (cases e) (auto simp: child_at_def is_dir_def needs_hash_def)
  qed
qed

lemma nodes_model_entry:
  assumes "nodes_model nodes m S" and "(dir, children) \<in> set nodes"
  obtains cs where "valid_path cs" "dir = join_path cs" "node_ok m S cs children" "is_dir m S cs"
    "map_of nodes (join_path cs) = Some children"
proof -
  obtain cs where cs: "valid_path cs" "dir = join_path cs"
    using assms unfolding nodes_model_def by force
  moreover have "map_of nodes dir = Some children"
    using assms(2) bt_set_iff nodes_modelD(1)[OF assms(1)] by metis
  ultimately show ?thesis using nodes_modelD(3)[OF assms(1)] that by metis
qed

lemma nodes_model_child:
  assumes "node_ok m S cs children" and "(name, spec) \<in> set children"
  shows "path_component name" and "child_at m S (cs @ [name]) = Some spec"
proof -
  show "path_component name" using assms by (force simp: node_ok_def)
  with assms show "child_at m S (cs @ [name]) = Some spec"
    by (metis bt_set_iff node_ok_def)
qed

lemma nodes_model_closed:
  assumes "nodes_model nodes m S"
  shows "nodes_closed nodes"
proof -
  have "name \<noteq> [] \<and> proper_spec spec \<and> (needs_hash spec \<longrightarrow> dir_child dir name \<in> fst ` set nodes)"
    if node: "(dir, children) \<in> set nodes" and child: "(name, spec) \<in> set children"
    for dir children name spec
  proof -
    obtain cs where cs: "valid_path cs" "dir = join_path cs" "node_ok m S cs children"
      using nodes_model_entry[OF assms node] by metis
    note at = nodes_model_child[OF cs(3) child]
    have "dir_child dir name \<in> fst ` set nodes" if "needs_hash spec"
    proof -
      have "is_dir m S (cs @ [name])" using child_at_proper(2)[OF at(2) that] .
      then obtain grand where "map_of nodes (join_path (cs @ [name])) = Some grand"
        using nodes_modelD(4)[OF assms, of "cs @ [name]"] cs(1) at(1) by auto
      then show ?thesis using cs dir_child_join by (metis map_of_SomeD fst_conv image_eqI)
    qed
    then show ?thesis using at child_at_proper(1)[OF at(2)] by (auto simp: path_component_def)
  qed
  then show ?thesis unfolding nodes_closed_def by blast
qed

section \<open>Equal hashes, equal subtrees\<close>

definition hashed_inputs :: "KeyEpoch \<Rightarrow> dir_nodes \<Rightarrow> (DirPath \<rightharpoonup> SubtreeHash) \<Rightarrow> string set" where
  "hashed_inputs epoch nodes hashes =
     {bytes. \<exists>(dir, children) \<in> set nodes. directory_bytes dir children epoch hashes = Inr bytes}"

definition tree_fits :: "dir_nodes \<Rightarrow> (DirPath \<rightharpoonup> SubtreeHash) \<Rightarrow> bool" where
  "tree_fits nodes hashes \<longleftrightarrow> (\<forall>(dir, children) \<in> set nodes. children_fit dir children hashes)"

lemma hashes_agreeD:
  assumes "hashes_agree blake3 epoch nodes h" and "(dir, children) \<in> set nodes"
  obtains b where "directory_bytes dir children epoch h = Inr b" "h dir = Some (''st_'' @ blake3 b)"
  using bspec[OF assms(1)[unfolded hashes_agree_def] assms(2)]
  by (cases "directory_bytes dir children epoch h") (auto simp: hash_directory_def)

lemma equal_hash_step:
  assumes ok: "bt_ok nodes" "bt_ok nodes'"
    and agree: "hashes_agree blake3 epoch nodes h" "hashes_agree blake3 epoch nodes' h'"
    and inj: "inj_on blake3 (hashed_inputs epoch nodes h \<union> hashed_inputs epoch nodes' h')"
    and fit: "tree_fits nodes h" "tree_fits nodes' h'" "fits epoch"
    and eq: "map_of nodes dir = Some children" "map_of nodes' dir' = Some children'"
      "h dir = h' dir'"
  shows "children = children' \<and> (\<forall>(name, spec) \<in> set children. needs_hash spec \<longrightarrow>
    h (dir_child dir name) = h' (dir_child dir' name))"
proof -
  have mem: "(dir, children) \<in> set nodes" "(dir', children') \<in> set nodes'"
    using eq by (simp_all add: map_of_SomeD)
  obtain b where b: "directory_bytes dir children epoch h = Inr b" "h dir = Some (''st_'' @ blake3 b)"
    using hashes_agreeD[OF agree(1) mem(1)] .
  obtain b' where b': "directory_bytes dir' children' epoch h' = Inr b'" "h' dir' = Some (''st_'' @ blake3 b')"
    using hashes_agreeD[OF agree(2) mem(2)] .
  have "blake3 b = blake3 b'" using b(2) b'(2) eq(3) by simp
  moreover have "b \<in> hashed_inputs epoch nodes h \<union> hashed_inputs epoch nodes' h'"
    "b' \<in> hashed_inputs epoch nodes h \<union> hashed_inputs epoch nodes' h'"
    using b(1) b'(1) mem by (auto simp: hashed_inputs_def)
  ultimately have "b = b'" using inj by (meson inj_onD)
  moreover have "children_fit dir children h" "children_fit dir' children' h'"
    using fit mem by (auto simp: tree_fits_def)
  ultimately have h: "children = children' \<and> hashed_children dir children h = hashed_children dir' children' h'"
    using directory_bytes_inject[OF b(1), of dir' children' epoch h'] b'(1) fit(3) by blast
  have "h (dir_child dir name) = h' (dir_child dir' name)"
    if "(name, spec) \<in> set children" "needs_hash spec" for name spec
  proof -
    have "hashed_children dir children h = hashed_children dir' children h'" using h by blast
    then have "\<forall>c \<in> set children.
        (case c of (name, spec) \<Rightarrow> (name, spec,
          case spec of Leaf _ \<Rightarrow> None | _ \<Rightarrow> h (dir_child dir name))) =
        (case c of (name, spec) \<Rightarrow> (name, spec,
          case spec of Leaf _ \<Rightarrow> None | _ \<Rightarrow> h' (dir_child dir' name)))"
      unfolding hashed_children_def map_eq_conv .
    from bspec[OF this that(1)] that(2) show ?thesis
      by (cases spec) (simp_all add: needs_hash_def)
  qed
  with h show ?thesis by blast
qed

lemma child_at_entry:
  assumes "child_at m S cs = child_at m' S' cs'"
  shows "m cs = m' cs'"
proof -
  have spec: "spec_of_entry e \<noteq> Child_Subtree" for e by (cases e) simp_all
  have "e = e'" if "spec_of_entry e = spec_of_entry e'" for e e'
    using that by (cases e; cases e') simp_all
  with assms spec show ?thesis
    by (auto simp: child_at_def split: option.splits if_splits) (metis spec)+
qed

lemma below_leaf_empty:
  assumes model: "nodes_model nodes m (implied m)" and rest: "rest \<noteq> []" "cs \<noteq> []"
    and child: "\<not> (\<exists>spec. child_at m (implied m) cs = Some spec \<and> needs_hash spec)"
  shows "m (cs @ rest) = None"
proof (rule ccontr)
  assume "m (cs @ rest) \<noteq> None"
  moreover have "strict_prefix cs (cs @ rest)" using rest(1) by (simp add: strict_prefix_def)
  ultimately have S: "cs \<in> implied m" using rest(2) by (auto simp: implied_def intro: domI)
  then have "\<not> leaf_at m cs" using nodes_modelD(2)[OF model] by blast
  then consider "m cs = None" | mode where "m cs = Some (Directory mode)"
    using is_leaf.elims(3) by (metis leaf_at_def not_None_eq)
  then show False
    by cases (use S child in \<open>auto simp: child_at_def needs_hash_def\<close>)
qed

text \<open>
  Two trees that agree step by step hold the same entries: if related directories have the
  same children, and their subdirectories are related again, nothing below them differs.
\<close>

lemma bisimilar_entries:
  assumes model: "nodes_model nodes m (implied m)" "nodes_model nodes' m' (implied m')"
    and step: "\<And>cs cs'. R cs cs' \<Longrightarrow> valid_path cs \<and> valid_path cs' \<and>
      (\<exists>children. map_of nodes (join_path cs) = Some children \<and> map_of nodes' (join_path cs') = Some children
        \<and> (\<forall>(name, spec) \<in> set children. needs_hash spec \<longrightarrow> R (cs @ [name]) (cs' @ [name])))"
    and "R cs cs'" and rel: "valid_path rel" "rel \<noteq> []"
  shows "m (cs @ rel) = m' (cs' @ rel)"
  using assms(4-6)
proof (induction rel arbitrary: cs cs')
  case (Cons n rest)
  obtain children where c: "map_of nodes (join_path cs) = Some children"
      "map_of nodes' (join_path cs') = Some children" "valid_path cs" "valid_path cs'"
    and down: "\<And>name spec. (name, spec) \<in> set children \<Longrightarrow> needs_hash spec \<Longrightarrow> R (cs @ [name]) (cs' @ [name])"
    using step[OF Cons.prems(1)] by blast
  have child: "child_at m (implied m) (cs @ [n]) = map_of children n"
      "child_at m' (implied m') (cs' @ [n]) = map_of children n"
    using nodes_modelD(3)[OF model(1) c(3,1)] nodes_modelD(3)[OF model(2) c(4,2)] Cons.prems(2)
    by (auto simp: node_ok_def)
  show ?case
  proof (cases "rest = []")
    case True
    with child_at_entry[OF trans[OF child(1) child(2)[symmetric]]] show ?thesis by simp
  next
    case False
    show ?thesis
    proof (cases "\<exists>spec. map_of children n = Some spec \<and> needs_hash spec")
      case True
      then have "R (cs @ [n]) (cs' @ [n])" using down map_of_SomeD by metis
      from Cons.IH[OF this] Cons.prems(2) False show ?thesis by simp
    next
      case no: False
      with below_leaf_empty[OF model(1), of rest "cs @ [n]"] below_leaf_empty[OF model(2), of rest "cs' @ [n]"]
        False child show ?thesis by auto
    qed
  qed
qed simp

lemma equal_hash_entries:
  assumes model: "nodes_model nodes m (implied m)" "nodes_model nodes' m' (implied m')"
    and agree: "hashes_agree blake3 epoch nodes h" "hashes_agree blake3 epoch nodes' h'"
    and inj: "inj_on blake3 (hashed_inputs epoch nodes h \<union> hashed_inputs epoch nodes' h')"
    and fit: "tree_fits nodes h" "tree_fits nodes' h'" "fits epoch"
    and dirs: "valid_path cs" "valid_path cs'" "is_dir m (implied m) cs" "is_dir m' (implied m') cs'"
      "h (join_path cs) = h' (join_path cs')"
    and rel: "valid_path rel" "rel \<noteq> []"
  shows "m (cs @ rel) = m' (cs' @ rel)"
proof -
  define R where "R cs cs' \<longleftrightarrow> valid_path cs \<and> valid_path cs' \<and> is_dir m (implied m) cs
    \<and> is_dir m' (implied m') cs' \<and> h (join_path cs) = h' (join_path cs')" for cs cs'
  have "valid_path cs \<and> valid_path cs' \<and>
      (\<exists>children. map_of nodes (join_path cs) = Some children \<and> map_of nodes' (join_path cs') = Some children
        \<and> (\<forall>(name, spec) \<in> set children. needs_hash spec \<longrightarrow> R (cs @ [name]) (cs' @ [name])))"
    if "R cs cs'" for cs cs'
  proof -
    from that have r: "valid_path cs" "valid_path cs'" "is_dir m (implied m) cs" "is_dir m' (implied m') cs'"
      "h (join_path cs) = h' (join_path cs')" unfolding R_def by auto
    obtain children children' where
      c: "map_of nodes (join_path cs) = Some children" "map_of nodes' (join_path cs') = Some children'"
      using nodes_modelD(4)[OF model(1) r(1,3)] nodes_modelD(4)[OF model(2) r(2,4)] by blast
    note step = equal_hash_step[OF nodes_modelD(1)[OF model(1)] nodes_modelD(1)[OF model(2)] agree inj fit c r(5)]
    have ok: "node_ok m (implied m) cs children" "node_ok m' (implied m') cs' children"
      using nodes_modelD(3)[OF model(1) r(1) c(1)] nodes_modelD(3)[OF model(2) r(2) c(2)] step by auto
    have "R (cs @ [name]) (cs' @ [name])" if "(name, spec) \<in> set children" "needs_hash spec" for name spec
      using step that child_at_proper(2)[OF nodes_model_child(2)[OF ok(1) that(1)] that(2)]
        child_at_proper(2)[OF nodes_model_child(2)[OF ok(2) that(1)] that(2)]
        nodes_model_child(1)[OF ok(1) that(1)] r(1,2)
      by (auto simp: R_def dir_child_join)
    with c step r(1,2) show ?thesis by blast
  qed
  from bisimilar_entries[of _ _ _ _ R, OF model this] dirs rel show ?thesis unfolding R_def by blast
qed

section \<open>The properties\<close>

text \<open>Decomposing a manifest succeeds exactly when no path is both a file or symlink and
  the parent of another path, and then the nodes are the manifest's directories: there is a
  node for the root, for every directory entry and for every path that an entry lies below,
  and for no other path; the children of a node are, in name order, exactly the names one
  component below it, each with its own entry, or with a bare subtree where only entries
  further down imply it. Otherwise the one error is the file-and-directory clash.\<close>

theorem decompose_exact:
  assumes "bt_ok entries" and "proper_paths entries"
  shows "if consistent (flat_of entries)
    then (\<exists>nodes. decompose entries = Inr nodes
      \<and> nodes_model nodes (flat_of entries) (implied (flat_of entries)))
    else decompose entries =
      Inl (InvalidEntry ''path component is claimed as both a file and a directory'')"
  using decompose_model[OF assms] .

theorem decompose_exact_witness:
  "\<exists>nodes. decompose [(''a'', Directory 493), (''a/x'', Symlink 511 ''y'')] = Inr nodes
     \<and> map fst nodes = [[], ''a'']"
proof -
  let ?es = "[(''a'', Directory 493), (''a/x'', Symlink 511 ''y'')]"
  have run: "decompose ?es = Inr [([], [(''a'', Child_Directory 493)]), (''a'', [(''x'', Leaf (Symlink 511 ''y''))])]"
    by code_simp
  have "bt_ok ?es" "proper_paths ?es" by code_simp+
  from decompose_exact[OF this] run show ?thesis by (auto split: if_splits)
qed

lemma decompose_nodes_model:
  assumes "bt_ok entries" and "proper_paths entries" and "decompose entries = Inr nodes"
  shows "nodes_model nodes (flat_of entries) (implied (flat_of entries))"
  using decompose_model[OF assms(1,2)] assms(3) by (auto split: if_splits)

lemma hashed_manifest:
  assumes "bt_ok entries" and "proper_paths entries" and "decompose entries = Inr nodes"
    and "subtree_hashes blake3 nodes epoch = Inr hashes"
  shows "hashes_agree blake3 epoch nodes (map_of hashes)"
    and "valid_path cs \<Longrightarrow> map_of hashes (join_path cs) = Some h \<Longrightarrow>
      is_dir (flat_of entries) (implied (flat_of entries)) cs"
proof -
  note model = decompose_nodes_model[OF assms(1-3)]
  from subtree_hashes_ok[OF nodes_modelD(1)[OF model] nodes_model_closed[OF model], of blake3 epoch] assms(4)
  have *: "dom (map_of hashes) = fst ` set nodes" "hashes_agree blake3 epoch nodes (map_of hashes)" by auto
  then show "hashes_agree blake3 epoch nodes (map_of hashes)" by blast
  assume v: "valid_path cs" and "map_of hashes (join_path cs) = Some h"
  with * obtain children where "(join_path cs, children) \<in> set nodes" by force
  then have "map_of nodes (join_path cs) = Some children"
    using bt_set_iff[OF nodes_modelD(1)[OF model]] by blast
  then show "is_dir (flat_of entries) (implied (flat_of entries)) cs"
    using nodes_modelD(3)[OF model v] by blast
qed

text \<open>Hashing a decomposed manifest never misses a child: the single pass from the last
  directory to the first finds the hash of every subdirectory already computed, so
  \<open>subtree_hashes\<close> returns a hash for every directory of the manifest and for no other path.\<close>

theorem subtree_hashes_total:
  assumes "bt_ok entries" and "proper_paths entries" and "decompose entries = Inr nodes"
  shows "\<exists>hashes. subtree_hashes blake3 nodes epoch = Inr hashes \<and> map fst hashes = map fst nodes"
proof -
  note model = decompose_nodes_model[OF assms]
  from subtree_hashes_ok[OF nodes_modelD(1)[OF model] nodes_model_closed[OF model], of blake3 epoch]
  obtain hashes where h: "subtree_hashes blake3 nodes epoch = Inr hashes" "bt_ok hashes"
    "dom (map_of hashes) = fst ` set nodes" by blast
  have "set (map fst hashes) = set (map fst nodes)" using h(3) by (simp add: dom_map_of_conv_image_fst)
  then have "map fst hashes = map fst nodes"
    using h(2) nodes_modelD(1)[OF model] by (intro strict_sorted_equal) (simp_all add: bt_ok_def)
  with h(1) show ?thesis by blast
qed

theorem subtree_hashes_total_witness:
  "\<exists>hashes. subtree_hashes (\<lambda>bytes. ''digest'') [([], [(''a'', Child_Subtree)]), (''a'', [(''x'', Leaf (Symlink 511 ''y''))])] 1
      = Inr hashes \<and> map fst hashes = [[], ''a'']"
proof -
  let ?es = "[(''a/x'', Symlink 511 ''y'')]"
  have run: "decompose ?es = Inr [([], [(''a'', Child_Subtree)]), (''a'', [(''x'', Leaf (Symlink 511 ''y''))])]"
    by code_simp
  have "bt_ok ?es" "proper_paths ?es" by code_simp+
  from subtree_hashes_total[OF this run, of "\<lambda>bytes. ''digest''" 1] show ?thesis by simp
qed

text \<open>Equal subtree hashes mean equal subtrees: when two directories, of the same or of
  two manifests, have the same hash under one key epoch and the digest has no collision among
  the byte strings hashed, the manifests hold the same entry, or none, at every path relative
  to the two directories. This is what lets an unchanged subtree be skipped or reused by its
  hash alone.\<close>

theorem equal_hash_equal_entries:
  assumes "bt_ok entries" "proper_paths entries" "decompose entries = Inr nodes"
      "subtree_hashes blake3 nodes epoch = Inr hashes"
    and "bt_ok entries'" "proper_paths entries'" "decompose entries' = Inr nodes'"
      "subtree_hashes blake3 nodes' epoch = Inr hashes'"
    and "inj_on blake3 (hashed_inputs epoch nodes (map_of hashes) \<union> hashed_inputs epoch nodes' (map_of hashes'))"
    and "tree_fits nodes (map_of hashes)" "tree_fits nodes' (map_of hashes')" "fits epoch"
    and "valid_path cs" "valid_path cs'" "valid_path rel" "rel \<noteq> []"
    and "map_of hashes (join_path cs) = Some h" "map_of hashes' (join_path cs') = Some h"
  shows "map_of entries (join_path (cs @ rel)) = map_of entries' (join_path (cs' @ rel))"
proof -
  note m = hashed_manifest[OF assms(1-4)] and m' = hashed_manifest[OF assms(5-8)]
  have "flat_of entries (cs @ rel) = flat_of entries' (cs' @ rel)"
    using equal_hash_entries[OF decompose_nodes_model[OF assms(1-3)] decompose_nodes_model[OF assms(5-7)]
        m(1) m'(1) assms(9-14) m(2)[OF assms(13,17)] m'(2)[OF assms(14,18)]] assms(15-18) by simp
  with assms(13-16) show ?thesis by (simp add: flat_of_def)
qed

theorem equal_hash_equal_entries_witness:
  "map_of [(''a/x'', Symlink 511 ''y''), (''b/x'', Symlink 511 ''y'')] (join_path ([''a''] @ [''x''])) =
   map_of [(''a/x'', Symlink 511 ''y''), (''b/x'', Symlink 511 ''y'')] (join_path ([''b''] @ [''x'']))"
proof -
  let ?es = "[(''a/x'', Symlink 511 ''y''), (''b/x'', Symlink 511 ''y'')]"
  let ?nodes = "[([], [(''a'', Child_Subtree), (''b'', Child_Subtree)]),
    (''a'', [(''x'', Leaf (Symlink 511 ''y''))]), (''b'', [(''x'', Leaf (Symlink 511 ''y''))])]"
  have run: "decompose ?es = Inr ?nodes" by code_simp
  have ok: "bt_ok ?es" "proper_paths ?es" by code_simp+
  obtain hashes where h: "subtree_hashes id ?nodes 1 = Inr hashes" "tree_fits ?nodes (map_of hashes)"
      "map_of hashes (join_path [''a'']) = map_of hashes (join_path [''b''])"
      "map_of hashes (join_path [''a'']) \<noteq> None"
  proof -
    let ?leaf = "''st_'' @ write_bytes SUBTREE_DOMAIN @ u64_bytes TREE_FORMAT_VERSION @ u64_bytes 1 @ u64_bytes 1
      @ write_bytes ''x'' @ CHR 0x01 # u64_bytes 511 @ write_bytes ''y''"
    let ?root = "''st_'' @ write_bytes SUBTREE_DOMAIN @ u64_bytes TREE_FORMAT_VERSION @ u64_bytes 1 @ u64_bytes 2
      @ write_bytes ''a'' @ CHR 0x03 # write_bytes ?leaf @ write_bytes ''b'' @ CHR 0x03 # write_bytes ?leaf"
    have "subtree_hashes id ?nodes 1 = Inr [([], ?root), (''a'', ?leaf), (''b'', ?leaf)]"
      by (simp add: subtree_hashes_def hash_directory_def directory_bytes_def child_hash_def dir_child_def
          numeral_2_eq_2)
    with that show ?thesis
      by (simp add: tree_fits_def children_fit_def fits_def u64_MAX_def write_bytes_def SUBTREE_DOMAIN_def
          dir_child_def)
  qed
  then obtain d where d: "map_of hashes (join_path [''a'']) = Some d" "map_of hashes (join_path [''b'']) = Some d"
    by auto
  show ?thesis
    by (rule equal_hash_equal_entries[OF ok run h(1) ok run h(1) _ h(2) h(2) _ _ _ _ _ d])
      (simp_all add: fits_def u64_MAX_def path_component_def)
qed

end
