(* ===== verification/Tree_Transport.thy ===== *)
theory Tree_Transport
  imports Directory_Tree
begin

text \<open>
  The object-store side of the manifest, \<^verbatim>\<open>tree_transport.rs\<close> with \<^verbatim>\<open>publish.rs\<close> and
  \<^verbatim>\<open>fetch.rs\<close>: a flat manifest is published as sealed directory nodes, and a root node
  is fetched back into a flat manifest. What lies below is a parameter: the postcard
  codec, the envelope and the digest are the fields of \<open>tree_io\<close>, the object store is
  a function from keys to bytes, the ledger a lookup.
\<close>

section \<open>Parameters\<close>

record ('b, 's) tree_io =
  to_allocvec :: "TreeNode \<Rightarrow> 'b option"
  from_bytes :: "'b \<Rightarrow> TreeNode option"
  plaintext_len :: "'b \<Rightarrow> u64"
  seal :: "KeyEpoch \<Rightarrow> 'b \<Rightarrow> EnvelopeError + 's"
  open_bounded :: "KeyEpoch \<Rightarrow> 's \<Rightarrow> u64 \<Rightarrow> EnvelopeError + 'b"
  sealed_len :: "'s \<Rightarrow> u64"
  digest :: "'s \<Rightarrow> string"
  node_content_id :: "'b \<Rightarrow> ContentId"

text \<open>The held key epochs in ascending order, and the one new objects are sealed under.\<close>

record WorkspaceCrypto =
  write_epoch :: KeyEpoch
  key_epochs :: "KeyEpoch list"

datatype TreeError =
    Tree_Manifest ManifestError
  | Tree_Store string
  | Tree_Transport string
  | NodeKeyMismatch

type_synonym 's objects = "ManifestKey \<Rightarrow> string + 's"
type_synonym ledger = "SubtreeHash \<Rightarrow> string + ManifestKey option"

definition bound :: "string \<Rightarrow> TreeError" where
  "bound b = Tree_Manifest (BoundExceeded b)"

definition physical_manifest_key :: "('b, 's) tree_io \<Rightarrow> 's \<Rightarrow> ManifestKey" where
  "physical_manifest_key io sealed = ''m_'' @ digest io sealed"

definition to_canonical_bytes :: "('b, 's) tree_io \<Rightarrow> TreeNode \<Rightarrow> ManifestError + 'b" where
  "to_canonical_bytes io node =
     ok_or (to_allocvec io node) (Serialization ''tree node serialization failed'')"

definition seal_tree_node :: "('b, 's) tree_io \<Rightarrow> WorkspaceCrypto \<Rightarrow> 'b \<Rightarrow> ManifestError + 's" where
  "seal_tree_node io crypto plaintext = map_sum Envelope id (seal io (write_epoch crypto) plaintext)"

text \<open>The loop over the held epochs, newest first.\<close>

fun open_epochs ::
  "('b, 's) tree_io \<Rightarrow> 's \<Rightarrow> DecodeLimits \<Rightarrow> EnvelopeError option \<Rightarrow> KeyEpoch list \<Rightarrow>
   (ManifestError + 'b \<times> KeyEpoch) option \<times> EnvelopeError option" where
  "open_epochs io sealed limits last_error [] = (None, last_error)"
| "open_epochs io sealed limits last_error (key_epoch # epochs) =
     (case open_bounded io key_epoch sealed (max_decoded_bytes limits) of
        Inr plaintext \<Rightarrow> (Some (Inr (plaintext, key_epoch)), last_error)
      | Inl DecodedSizeExceeded \<Rightarrow> (Some (Inl (BoundExceeded ''decoded-size'')), last_error)
      | Inl e \<Rightarrow> open_epochs io sealed limits (Some e) epochs)"

definition open_tree_node ::
  "('b, 's) tree_io \<Rightarrow> WorkspaceCrypto \<Rightarrow> 's \<Rightarrow> DecodeLimits \<Rightarrow> ManifestError + 'b \<times> KeyEpoch" where
  "open_tree_node io crypto sealed limits =
     (if sealed_len io sealed > max_sealed_bytes limits then Inl (BoundExceeded ''sealed-size'')
      else (case open_epochs io sealed limits None (rev (key_epochs crypto)) of
              (Some result, _) \<Rightarrow> result
            | (None, Some e) \<Rightarrow> Inl (Envelope e)
            | (None, None) \<Rightarrow> Inl (UnknownKeyEpoch (write_epoch crypto))))"

section \<open>Publishing\<close>

record 's manifest_upload =
  up_key :: ManifestKey
  up_content_id :: ContentId
  up_key_epoch :: KeyEpoch
  up_sealed :: 's

record 's pending =
  pending_uploads :: "'s manifest_upload list"
  pending_ledger :: "(SubtreeHash \<times> ManifestKey) list"

text \<open>What \<open>NodePublisher\<close> borrows.\<close>

record ('b, 's) node_publisher =
  np_io :: "('b, 's) tree_io"
  np_crypto :: WorkspaceCrypto
  np_key_epoch :: KeyEpoch
  np_tree :: dir_nodes
  np_hashes :: "(DirPath, SubtreeHash) btree_map"
  np_known :: ledger

fun leaf_payload :: "ManifestEntry \<Rightarrow> TreeError + TreeEntryPayload" where
  "leaf_payload (File sz mode content_id blob_key key_epoch) =
     Inr (Tree_File sz mode content_id blob_key key_epoch)"
| "leaf_payload (Symlink mode target) = Inr (Tree_Symlink mode target)"
| "leaf_payload (Directory _) =
     Inl (Tree_Manifest (Manifest_Internal ''directory entry occupies a leaf slot''))"

definition seal_node ::
  "('b, 's) node_publisher \<Rightarrow> TreeNode \<Rightarrow> 's pending \<Rightarrow> TreeError + ManifestKey \<times> 's pending" where
  "seal_node np node st =
     (case to_canonical_bytes (np_io np) node of
        Inl e \<Rightarrow> Inl (Tree_Manifest e)
      | Inr plaintext \<Rightarrow>
     (case seal_tree_node (np_io np) (np_crypto np) plaintext of
        Inl e \<Rightarrow> Inl (Tree_Manifest e)
      | Inr sealed \<Rightarrow>
          (let key = physical_manifest_key (np_io np) sealed
           in Inr (key, st\<lparr>pending_uploads := pending_uploads st @ [
                \<lparr>up_key = key, up_content_id = node_content_id (np_io np) plaintext,
                 up_key_epoch = np_key_epoch np, up_sealed = sealed\<rparr>]\<rparr>))))"

text \<open>The children of one directory; \<open>child\<close> publishes a directory one level down.\<close>

fun build_entries ::
  "(DirPath \<Rightarrow> 's pending \<Rightarrow> TreeError + ManifestKey \<times> 's pending) \<Rightarrow> DirPath \<Rightarrow>
   (string \<times> ChildSpec) list \<Rightarrow> 's pending \<Rightarrow> TreeError + TreeEntry list \<times> 's pending" where
  "build_entries child dir [] st = Inr ([], st)"
| "build_entries child dir ((name, spec) # children) st =
     (case (case spec of
              Leaf entry \<Rightarrow> map_sum id (\<lambda>payload. (payload, st)) (leaf_payload entry)
            | Child_Directory mode \<Rightarrow>
                map_sum id (\<lambda>(key, st). (Tree_Directory mode key, st)) (child (dir_child dir name) st)
            | Child_Subtree \<Rightarrow>
                map_sum id (\<lambda>(key, st). (Tree_Subtree key, st)) (child (dir_child dir name) st)) of
        Inl e \<Rightarrow> Inl e
      | Inr (payload, st) \<Rightarrow>
          map_sum id (\<lambda>(entries, st). (\<lparr>te_name = name, te_payload = payload\<rparr> # entries, st))
            (build_entries child dir children st))"

text \<open>
  The recursion is on the levels left: a directory at depth \<open>d\<close> is published with
  \<open>MAX_WORKSPACE_PATH_DEPTH + 1 - d\<close> levels, and no level is the depth that the guard
  refuses.
\<close>

primrec publish_dir ::
  "('b, 's) node_publisher \<Rightarrow> nat \<Rightarrow> DirPath \<Rightarrow> 's pending \<Rightarrow> TreeError + ManifestKey \<times> 's pending" where
  "publish_dir np 0 dir st = Inl (bound ''tree-depth'')"
| "publish_dir np (Suc levels) dir st =
     (case map_of (np_hashes np) dir of
        None \<Rightarrow> Inl (Tree_Manifest (Manifest_Internal ''directory has no subtree hash''))
      | Some hash \<Rightarrow>
     (case np_known np hash of
        Inl e \<Rightarrow> Inl (Tree_Store e)
      | Inr (Some key) \<Rightarrow> Inr (key, st)
      | Inr None \<Rightarrow>
     (case map_of (np_tree np) dir of
        None \<Rightarrow>
          Inl (Tree_Manifest (Manifest_Internal ''directory has no node in the decomposed tree''))
      | Some children \<Rightarrow>
     (case build_entries (publish_dir np levels) dir children st of
        Inl e \<Rightarrow> Inl e
      | Inr (entries, st) \<Rightarrow>
     (case seal_node np (TreeNode_new (np_key_epoch np) entries) st of
        Inl e \<Rightarrow> Inl e
      | Inr (key, st) \<Rightarrow>
          Inr (key, st\<lparr>pending_ledger := pending_ledger st @ [(hash, key)]\<rparr>))))))"

text \<open>
  \<open>put\<close> uploads a batch and answers with the object store afterwards; \<open>known\<close> and
  \<open>rec\<close> are the two methods of the ledger \<open>l\<close>. The rows are recorded only after the
  batch was uploaded. The result is the root key, the object store and the ledger.
\<close>

definition publish_tree ::
  "('b, 's) tree_io \<Rightarrow> (string \<Rightarrow> string) \<Rightarrow> WorkspaceCrypto \<Rightarrow> ('l \<Rightarrow> ledger) \<Rightarrow>
   (SubtreeHash \<Rightarrow> ManifestKey \<Rightarrow> 'l \<Rightarrow> 'l) \<Rightarrow> ('s manifest_upload list \<Rightarrow> string + 's objects) \<Rightarrow>
   Manifest \<Rightarrow> 'l \<Rightarrow> TreeError + ManifestKey \<times> 's objects \<times> 'l" where
  "publish_tree io blake3 crypto known rec put snapshot l =
     (case decompose (mf_entries snapshot) of
        Inl e \<Rightarrow> Inl (Tree_Manifest e)
      | Inr tree \<Rightarrow>
     (case subtree_hashes blake3 tree (mf_key_epoch snapshot) of
        Inl e \<Rightarrow> Inl (Tree_Manifest e)
      | Inr hashes \<Rightarrow>
     (case publish_dir \<lparr>np_io = io, np_crypto = crypto, np_key_epoch = mf_key_epoch snapshot,
             np_tree = tree, np_hashes = hashes, np_known = known l\<rparr>
             (Suc MAX_WORKSPACE_PATH_DEPTH) dir_root \<lparr>pending_uploads = [], pending_ledger = []\<rparr> of
        Inl e \<Rightarrow> Inl e
      | Inr (root, st) \<Rightarrow>
     (case put (pending_uploads st) of
        Inl e \<Rightarrow> Inl (Tree_Transport e)
      | Inr store \<Rightarrow> Inr (root, store, fold (\<lambda>(hash, key). rec hash key) (pending_ledger st) l)))))"

text \<open>The two ledgers: none at all, and the engine store's rows under the rows of this operation.\<close>

definition UnledgeredNodes_known :: "unit \<Rightarrow> ledger" where
  "UnledgeredNodes_known l hash = Inr None"

definition UnledgeredNodes_record :: "SubtreeHash \<Rightarrow> ManifestKey \<Rightarrow> unit \<Rightarrow> unit" where
  "UnledgeredNodes_record hash key l = ()"

record StoreNodeLedger =
  sl_tree_node :: "SubtreeHash \<Rightarrow> KeyEpoch \<Rightarrow> string + ManifestKey option"
  sl_key_epoch :: KeyEpoch
  sl_fresh :: "(SubtreeHash, ManifestKey) btree_map"

definition StoreNodeLedger_new ::
  "(SubtreeHash \<Rightarrow> KeyEpoch \<Rightarrow> string + ManifestKey option) \<Rightarrow> KeyEpoch \<Rightarrow> StoreNodeLedger" where
  "StoreNodeLedger_new store key_epoch =
     \<lparr>sl_tree_node = store, sl_key_epoch = key_epoch, sl_fresh = []\<rparr>"

definition into_recorded :: "StoreNodeLedger \<Rightarrow> (SubtreeHash, ManifestKey) btree_map" where
  "into_recorded l = sl_fresh l"

definition StoreNodeLedger_known :: "StoreNodeLedger \<Rightarrow> ledger" where
  "StoreNodeLedger_known l hash =
     (case map_of (sl_fresh l) hash of
        Some key \<Rightarrow> Inr (Some key)
      | None \<Rightarrow> sl_tree_node l hash (sl_key_epoch l))"

definition StoreNodeLedger_record :: "SubtreeHash \<Rightarrow> ManifestKey \<Rightarrow> StoreNodeLedger \<Rightarrow> StoreNodeLedger" where
  "StoreNodeLedger_record hash key l = l\<lparr>sl_fresh := bt_insert hash key (sl_fresh l)\<rparr>"

section \<open>Fetching\<close>

record prune_basis =
  pb_entries :: "(WorkspacePath, ManifestEntry) btree_map"
  pb_hashes :: "(DirPath, SubtreeHash) btree_map"
  pb_ledger :: ledger

record PathCollision =
  pc_folded :: string
  pc_paths :: "WorkspacePath list"

text \<open>What \<open>TreeWalk\<close> borrows, and what it accumulates.\<close>

record ('b, 's) walk_env =
  we_io :: "('b, 's) tree_io"
  we_crypto :: WorkspaceCrypto
  we_objects :: "'s objects"
  we_limits :: DecodeLimits
  we_fold :: "string \<Rightarrow> string"
  we_prune :: "prune_basis option"

record walk =
  wk_entries :: "(WorkspacePath, ManifestEntry) btree_map"
  wk_folded :: "(string, WorkspacePath list) btree_map"
  wk_node_keys :: "(DirPath, ManifestKey) btree_map"
  wk_records :: u64
  wk_aggregate :: u64
  wk_decoded :: u64

definition count_record :: "DecodeLimits \<Rightarrow> walk \<Rightarrow> TreeError + walk" where
  "count_record limits w =
     (let w = w\<lparr>wk_records := wk_records w + 1\<rparr>
      in if wk_records w > max_records limits then Inl (bound ''record-count'') else Inr w)"

definition validate :: "DecodeLimits \<Rightarrow> DirPath \<Rightarrow> TreeError + unit" where
  "validate limits dir = map_sum Tree_Manifest id (validate_manifest_path dir limits)"

fun declared_size :: "ManifestEntry \<Rightarrow> u64 option" where
  "declared_size (File sz _ _ _ _) = Some sz"
| "declared_size _ = None"

definition push_folded ::
  "string \<Rightarrow> WorkspacePath \<Rightarrow> (string, WorkspacePath list) btree_map \<Rightarrow>
   (string, WorkspacePath list) btree_map" where
  "push_folded folded path m =
     bt_insert folded ((case map_of m folded of None \<Rightarrow> [] | Some paths \<Rightarrow> paths) @ [path]) m"

definition emit_path ::
  "('b, 's) walk_env \<Rightarrow> WorkspacePath \<Rightarrow> ManifestEntry \<Rightarrow> walk \<Rightarrow> TreeError + walk" where
  "emit_path env path entry w =
     (case validate (we_limits env) path of
        Inl e \<Rightarrow> Inl e
      | Inr _ \<Rightarrow>
     (case (case declared_size entry of
              None \<Rightarrow> Some (wk_aggregate w)
            | Some sz \<Rightarrow>
                filter_option (\<lambda>total. total \<le> max_aggregate_declared_bytes (we_limits env))
                  (checked_add_u64 (wk_aggregate w) sz)) of
        None \<Rightarrow> Inl (bound ''aggregate-declared-size'')
      | Some aggregate \<Rightarrow>
          Inr (w\<lparr>wk_aggregate := aggregate,
                 wk_folded := push_folded (we_fold env path) path (wk_folded w),
                 wk_entries := bt_insert path entry (wk_entries w)\<rparr>)))"

definition open_node :: "('b, 's) walk_env \<Rightarrow> ManifestKey \<Rightarrow> walk \<Rightarrow> TreeError + TreeNode \<times> walk" where
  "open_node env key w =
     (case we_objects env key of
        Inl e \<Rightarrow> Inl (Tree_Transport e)
      | Inr sealed \<Rightarrow>
          if physical_manifest_key (we_io env) sealed \<noteq> key then Inl NodeKeyMismatch
          else (case open_tree_node (we_io env) (we_crypto env) sealed (we_limits env) of
             Inl e \<Rightarrow> Inl (Tree_Manifest e)
           | Inr (plaintext, key_epoch) \<Rightarrow>
               (let w = w\<lparr>wk_decoded :=
                      saturating_add_u64 (wk_decoded w) (plaintext_len (we_io env) plaintext)\<rparr>
                in if wk_decoded w > max_aggregate_decoded_bytes (we_limits env)
                   then Inl (bound ''tree-aggregate-decoded-bytes'')
                   else map_sum Tree_Manifest (\<lambda>node. (node, w))
                     (TreeNode_decode (from_bytes (we_io env)) plaintext key_epoch (we_limits env)))))"

definition descendants ::
  "(WorkspacePath, ManifestEntry) btree_map \<Rightarrow> DirPath \<Rightarrow> (WorkspacePath \<times> ManifestEntry) list" where
  "descendants entries dir =
     (let pfx = (if dir = [] then [] else dir @ [slash])
      in takeWhile (\<lambda>(path, _). prefix pfx path) (dropWhile (\<lambda>(path, _). path < pfx) entries))"

fun emit_local ::
  "('b, 's) walk_env \<Rightarrow> (WorkspacePath \<times> ManifestEntry) list \<Rightarrow> walk \<Rightarrow> TreeError + walk" where
  "emit_local env [] w = Inr w"
| "emit_local env ((path, entry) # local) w =
     (case count_record (we_limits env) w of
        Inl e \<Rightarrow> Inl e
      | Inr w \<Rightarrow>
     (case emit_path env path entry w of
        Inl e \<Rightarrow> Inl e
      | Inr w \<Rightarrow> emit_local env local w))"

text \<open>\<open>None\<close>: the subtree is not pruned.\<close>

definition prune_subtree ::
  "('b, 's) walk_env \<Rightarrow> DirPath \<Rightarrow> ManifestKey \<Rightarrow> walk \<Rightarrow> TreeError + walk option" where
  "prune_subtree env dir key w =
     (case we_prune env of
        None \<Rightarrow> Inr None
      | Some basis \<Rightarrow>
     (case map_of (pb_hashes basis) dir of
        None \<Rightarrow> Inr None
      | Some hash \<Rightarrow>
     (case pb_ledger basis hash of
        Inl e \<Rightarrow> Inl (Tree_Store e)
      | Inr known \<Rightarrow>
          if known \<noteq> Some key then Inr None
          else map_sum id Some (emit_local env (descendants (pb_entries basis) dir) w))))"

text \<open>One payload of a node, and all of them; \<open>down\<close> walks a child node one level down.\<close>

definition walk_payload ::
  "('b, 's) walk_env \<Rightarrow> (DirPath \<Rightarrow> ManifestKey \<Rightarrow> walk \<Rightarrow> TreeError + walk) \<Rightarrow> DirPath \<Rightarrow>
   TreeEntryPayload \<Rightarrow> walk \<Rightarrow> TreeError + walk" where
  "walk_payload env down child payload w =
     (case payload of
        Tree_File sz mode content_id blob_key key_epoch \<Rightarrow>
          emit_path env child (File sz mode content_id blob_key key_epoch) w
      | Tree_Symlink mode target \<Rightarrow> emit_path env child (Symlink mode target) w
      | Tree_Directory mode node \<Rightarrow>
          (case emit_path env child (Directory mode) w of
             Inl e \<Rightarrow> Inl e
           | Inr w \<Rightarrow> down child node w)
      | Tree_Subtree node \<Rightarrow>
          (case validate (we_limits env) child of
             Inl e \<Rightarrow> Inl e
           | Inr _ \<Rightarrow> down child node w))"

fun walk_entries ::
  "('b, 's) walk_env \<Rightarrow> (DirPath \<Rightarrow> ManifestKey \<Rightarrow> walk \<Rightarrow> TreeError + walk) \<Rightarrow> DirPath \<Rightarrow>
   TreeEntry list \<Rightarrow> walk \<Rightarrow> TreeError + walk" where
  "walk_entries env down dir [] w = Inr w"
| "walk_entries env down dir (entry # entries) w =
     (let child = dir_child dir (te_name entry)
      in case count_record (we_limits env) w of
           Inl e \<Rightarrow> Inl e
         | Inr w \<Rightarrow>
        (case walk_payload env down child (te_payload entry) w of
           Inl e \<Rightarrow> Inl e
         | Inr w \<Rightarrow> walk_entries env down dir entries w))"

primrec descend ::
  "('b, 's) walk_env \<Rightarrow> nat \<Rightarrow> DirPath \<Rightarrow> ManifestKey \<Rightarrow> walk \<Rightarrow> TreeError + walk" where
  "descend env 0 dir key w = Inl (bound ''tree-depth'')"
| "descend env (Suc levels) dir key w =
     (let w = w\<lparr>wk_node_keys := bt_insert dir key (wk_node_keys w)\<rparr>
      in case prune_subtree env dir key w of
           Inl e \<Rightarrow> Inl e
         | Inr (Some w) \<Rightarrow> Inr w
         | Inr None \<Rightarrow>
        (case open_node env key w of
           Inl e \<Rightarrow> Inl e
         | Inr (node, w) \<Rightarrow> walk_entries env (descend env levels) dir (tn_entries node) w))"

definition collisions :: "(string, WorkspacePath list) btree_map \<Rightarrow> PathCollision list" where
  "collisions folded =
     map (\<lambda>(key, paths). \<lparr>pc_folded = key, pc_paths = sort paths\<rparr>)
       (filter (\<lambda>(_, paths). length paths > 1) folded)"

record FetchedTree =
  ft_manifest :: Manifest
  ft_collisions :: "PathCollision list"
  ft_node_keys :: "(DirPath, ManifestKey) btree_map"

definition new_walk :: walk where
  "new_walk = \<lparr>wk_entries = [], wk_folded = [], wk_node_keys = [], wk_records = 0,
     wk_aggregate = 0, wk_decoded = 0\<rparr>"

definition fetch_tree :: "('b, 's) walk_env \<Rightarrow> ManifestKey \<Rightarrow> TreeError + FetchedTree" where
  "fetch_tree env root =
     map_sum id (\<lambda>w. \<lparr>
         ft_manifest = \<lparr>mf_key_epoch = write_epoch (we_crypto env), mf_entries = wk_entries w\<rparr>,
         ft_collisions = collisions (wk_folded w),
         ft_node_keys = wk_node_keys w\<rparr>)
       (descend env (Suc (max_depth (we_limits env))) dir_root root new_walk)"

end
