(* ===== verification/Tree_Storage.thy ===== *)
theory Tree_Storage
  imports Subtree_Hashes Tree_Transport
begin

text \<open>
  What publishing leaves in the object store: the relation \<open>stored\<close> says that a node key
  names a directory of a decomposed manifest together with everything below it, and
  publishing establishes it for the root. The node ledger is an interface, given by a
  lookup and a recording method.
\<close>

section \<open>What the codec promises\<close>

text \<open>
  A serialized node decodes to itself, and a sealed node opens under the epoch that sealed
  it, if the plaintext is within the bound, and under no other held epoch.
\<close>

definition codec_laws :: "('b, 's) tree_io \<Rightarrow> WorkspaceCrypto \<Rightarrow> bool" where
  "codec_laws io crypto \<longleftrightarrow>
     (\<forall>node p. to_allocvec io node = Some p \<longrightarrow> from_bytes io p = Some node)
     \<and> (\<forall>p s limit. seal io (write_epoch crypto) p = Inr s \<longrightarrow> plaintext_len io p \<le> limit \<longrightarrow>
          open_bounded io (write_epoch crypto) s limit = Inr p)
     \<and> (\<forall>p s limit epoch. seal io (write_epoch crypto) p = Inr s \<longrightarrow> epoch \<noteq> write_epoch crypto \<longrightarrow>
          open_bounded io epoch s limit = Inl Envelope_Other)
     \<and> write_epoch crypto \<in> set (key_epochs crypto)"

lemma codec_lawsD:
  assumes "codec_laws io crypto"
  shows "to_allocvec io node = Some p \<Longrightarrow> from_bytes io p = Some node"
    and "seal io (write_epoch crypto) p = Inr s \<Longrightarrow> plaintext_len io p \<le> limit \<Longrightarrow>
      open_bounded io (write_epoch crypto) s limit = Inr p"
    and "seal io (write_epoch crypto) p = Inr s \<Longrightarrow> epoch \<noteq> write_epoch crypto \<Longrightarrow>
      open_bounded io epoch s limit = Inl Envelope_Other"
    and "write_epoch crypto \<in> set (key_epochs crypto)"
  using assms unfolding codec_laws_def by blast+

text \<open>What an upload promises: the batch is there afterwards, and no object has gone or changed.\<close>

definition put_laws :: "'s objects \<Rightarrow> ('s manifest_upload list \<Rightarrow> string + 's objects) \<Rightarrow> bool" where
  "put_laws objs put \<longleftrightarrow>
     (\<forall>batch objs'. put batch = Inr objs' \<longrightarrow>
        (\<forall>u \<in> set batch. objs' (up_key u) = Inr (up_sealed u))
        \<and> (\<forall>key s. objs key = Inr s \<longrightarrow> objs' key = Inr s))"

section \<open>Directories in the object store\<close>

definition node_at :: "('b, 's) tree_io \<Rightarrow> WorkspaceCrypto \<Rightarrow> 's objects \<Rightarrow> ManifestKey \<Rightarrow> TreeNode \<Rightarrow> bool" where
  "node_at io crypto objs key node \<longleftrightarrow>
     (\<exists>p s. objs key = Inr s \<and> physical_manifest_key io s = key
        \<and> to_allocvec io node = Some p \<and> seal io (write_epoch crypto) p = Inr s)"

fun payload_of :: "ChildSpec \<Rightarrow> ManifestKey \<Rightarrow> TreeEntryPayload" where
  "payload_of (Leaf (File sz mode content_id blob_key key_epoch)) key =
     Tree_File sz mode content_id blob_key key_epoch"
| "payload_of (Leaf (Symlink mode target)) key = Tree_Symlink mode target"
| "payload_of (Leaf (Directory mode)) key = Tree_Directory mode key"
| "payload_of (Child_Directory mode) key = Tree_Directory mode key"
| "payload_of Child_Subtree key = Tree_Subtree key"

definition entries_with :: "(string \<Rightarrow> ManifestKey) \<Rightarrow> (string \<times> ChildSpec) list \<Rightarrow> TreeEntry list" where
  "entries_with keys children =
     map (\<lambda>(name, spec). \<lparr>te_name = name, te_payload = payload_of spec (keys name)\<rparr>) children"

inductive stored ::
  "('b, 's) tree_io \<Rightarrow> WorkspaceCrypto \<Rightarrow> KeyEpoch \<Rightarrow> 's objects \<Rightarrow> dir_nodes \<Rightarrow> DirPath \<Rightarrow> ManifestKey \<Rightarrow> bool"
  for io crypto epoch objs nodes where
  stored_node: "map_of nodes dir = Some children \<Longrightarrow>
    \<forall>(name, spec) \<in> set children. needs_hash spec \<longrightarrow>
      stored io crypto epoch objs nodes (dir_child dir name) (keys name) \<Longrightarrow>
    node_at io crypto objs key (TreeNode_new epoch (entries_with keys children)) \<Longrightarrow>
    stored io crypto epoch objs nodes dir key"

inductive_cases storedE: "stored io crypto epoch objs nodes dir key"

text \<open>Objects are never lost, so what is stored stays stored.\<close>

lemma stored_mono:
  assumes "stored io crypto epoch objs nodes dir key"
    and "\<And>k s. objs k = Inr s \<Longrightarrow> objs' k = Inr s"
  shows "stored io crypto epoch objs' nodes dir key"
  using assms(1)
proof induction
  case (stored_node dir children keys key)
  have "node_at io crypto objs' key (TreeNode_new epoch (entries_with keys children))"
    using stored_node(2) assms(2) unfolding node_at_def by blast
  moreover have "\<forall>(name, spec) \<in> set children. needs_hash spec \<longrightarrow>
      stored io crypto epoch objs' nodes (dir_child dir name) (keys name)"
    using stored_node(3) by fast
  ultimately show ?case using stored.stored_node[OF stored_node(1)] by blast
qed

text \<open>A key names one node only, and the children of a node can be read off it.\<close>

lemma node_at_unique:
  assumes "codec_laws io crypto" and "node_at io crypto objs key node" and "node_at io crypto objs key node'"
  shows "node = node'"
proof -
  obtain p s where a: "objs key = Inr s" "to_allocvec io node = Some p" "seal io (write_epoch crypto) p = Inr s"
    using assms(2) by (auto simp: node_at_def)
  obtain p' s' where b: "objs key = Inr s'" "to_allocvec io node' = Some p'" "seal io (write_epoch crypto) p' = Inr s'"
    using assms(3) by (auto simp: node_at_def)
  let ?limit = "max (plaintext_len io p) (plaintext_len io p')"
  have "open_bounded io (write_epoch crypto) s ?limit = Inr p"
    "open_bounded io (write_epoch crypto) s ?limit = Inr p'"
    using codec_lawsD(2)[OF assms(1) a(3), of ?limit] codec_lawsD(2)[OF assms(1) b(3), of ?limit] a(1) b(1)
    by auto
  then have "p = p'" by simp
  moreover have "from_bytes io p = Some node" "from_bytes io p' = Some node'"
    using codec_lawsD(1)[OF assms(1)] a(2) b(2) by auto
  ultimately show ?thesis by simp
qed

lemma payload_of_inject:
  assumes "payload_of spec key = payload_of spec' key'" and "proper_spec spec" and "proper_spec spec'"
  shows "spec = spec'" and "needs_hash spec \<Longrightarrow> key = key'"
  using assms
  by (cases "(spec, key)" rule: payload_of.cases; cases "(spec', key')" rule: payload_of.cases;
      simp add: proper_spec_def needs_hash_def)+

lemma entries_with_inject:
  assumes "entries_with keys children = entries_with keys' children'"
    and "\<forall>(name, spec) \<in> set children. proper_spec spec"
    and "\<forall>(name, spec) \<in> set children'. proper_spec spec"
  shows "children = children' \<and> (\<forall>(name, spec) \<in> set children. needs_hash spec \<longrightarrow> keys name = keys' name)"
  using assms
proof (induction children arbitrary: children')
  case Nil
  then show ?case by (simp add: entries_with_def)
next
  case (Cons c children)
  obtain name spec where c: "c = (name, spec)" by force
  obtain name' spec' rest where d: "children' = (name', spec') # rest"
    using Cons.prems(1) c by (cases children') (auto simp: entries_with_def)
  have "children = rest \<and> (\<forall>(name, spec) \<in> set children. needs_hash spec \<longrightarrow> keys name = keys' name)"
    using Cons.prems c d by (intro Cons.IH) (auto simp: entries_with_def)
  moreover have "name = name'" "payload_of spec (keys name) = payload_of spec' (keys' name)"
    using Cons.prems(1) c d by (auto simp: entries_with_def)
  ultimately show ?case using payload_of_inject[of spec "keys name" spec' "keys' name"] Cons.prems(2,3) c d
    by auto
qed

lemma closed_proper:
  "nodes_closed nodes \<Longrightarrow> map_of nodes dir = Some children \<Longrightarrow> \<forall>(name, spec) \<in> set children. proper_spec spec"
  unfolding nodes_closed_def using map_of_SomeD by fast

text \<open>Two directories stored under one key have the same children, under the same keys again.\<close>

lemma stored_same_key:
  assumes codec: "codec_laws io crypto"
    and closed: "nodes_closed nodes" "nodes_closed nodes'"
    and st: "stored io crypto epoch objs nodes dir key" "stored io crypto epoch objs nodes' dir' key"
  obtains children keys where "map_of nodes dir = Some children" "map_of nodes' dir' = Some children"
    "\<And>name spec. (name, spec) \<in> set children \<Longrightarrow> needs_hash spec \<Longrightarrow>
      stored io crypto epoch objs nodes (dir_child dir name) (keys name)
      \<and> stored io crypto epoch objs nodes' (dir_child dir' name) (keys name)"
proof -
  obtain children keys where a: "map_of nodes dir = Some children"
    "\<forall>(name, spec) \<in> set children. needs_hash spec \<longrightarrow> stored io crypto epoch objs nodes (dir_child dir name) (keys name)"
    "node_at io crypto objs key (TreeNode_new epoch (entries_with keys children))"
    by (rule storedE[OF st(1)])
  obtain children' keys' where b: "map_of nodes' dir' = Some children'"
    "\<forall>(name, spec) \<in> set children'. needs_hash spec \<longrightarrow> stored io crypto epoch objs nodes' (dir_child dir' name) (keys' name)"
    "node_at io crypto objs key (TreeNode_new epoch (entries_with keys' children'))"
    by (rule storedE[OF st(2)])
  have "entries_with keys children = entries_with keys' children'"
    using node_at_unique[OF codec a(3) b(3)] by (simp add: TreeNode_new_def)
  from entries_with_inject[OF this closed_proper[OF closed(1) a(1)] closed_proper[OF closed(2) b(1)]]
  have same: "children = children'" "\<forall>(name, spec) \<in> set children. needs_hash spec \<longrightarrow> keys name = keys' name"
    by auto
  have "stored io crypto epoch objs nodes (dir_child dir name) (keys name)
      \<and> stored io crypto epoch objs nodes' (dir_child dir' name) (keys name)"
    if "(name, spec) \<in> set children" "needs_hash spec" for name spec
    using that a(2) b(2) same by fastforce
  with that a(1) b(1) same(1) show ?thesis by blast
qed

section \<open>Publishing\<close>

definition extends :: "'s pending \<Rightarrow> 's pending \<Rightarrow> bool" where
  "extends st st' \<longleftrightarrow> set (pending_uploads st) \<subseteq> set (pending_uploads st')
     \<and> set (pending_ledger st) \<subseteq> set (pending_ledger st')"

lemma extends_refl [simp]: "extends st st"
  by (simp add: extends_def)

lemma extends_trans: "extends a b \<Longrightarrow> extends b c \<Longrightarrow> extends a c"
  by (auto simp: extends_def)

definition held :: "'s objects \<Rightarrow> 's pending \<Rightarrow> bool" where
  "held objs st \<longleftrightarrow> (\<forall>u \<in> set (pending_uploads st). objs (up_key u) = Inr (up_sealed u))"

lemma held_extends: "held objs st' \<Longrightarrow> extends st st' \<Longrightarrow> held objs st"
  by (auto simp: held_def extends_def)

lemma seal_node_ok:
  assumes "seal_node np node st = Inr (key, st')"
  shows "extends st st' \<and> pending_ledger st' = pending_ledger st"
    and "held objs st' \<Longrightarrow> node_at (np_io np) (np_crypto np) objs key node"
  using assms
  by (auto simp: seal_node_def to_canonical_bytes_def ok_or_def seal_tree_node_def map_sum_def Let_def
      extends_def held_def node_at_def split: option.splits sum.splits)

text \<open>The entries of a directory, and the calls its subdirectories were published by.\<close>

lemma build_entries_ConsE:
  assumes "build_entries child dir ((name, spec) # children) st = Inr (entries, st')"
  obtains key st1 es where "entries = \<lparr>te_name = name, te_payload = payload_of spec key\<rparr> # es"
    "build_entries child dir children st1 = Inr (es, st')"
    "if needs_hash spec then child (dir_child dir name) st = Inr (key, st1) else st1 = st"
proof -
  obtain payload st1 es where step: "(case spec of
        Leaf entry \<Rightarrow> map_sum id (\<lambda>payload. (payload, st)) (leaf_payload entry)
      | Child_Directory mode \<Rightarrow>
          map_sum id (\<lambda>(key, st). (Tree_Directory mode key, st)) (child (dir_child dir name) st)
      | Child_Subtree \<Rightarrow>
          map_sum id (\<lambda>(key, st). (Tree_Subtree key, st)) (child (dir_child dir name) st)) = Inr (payload, st1)"
    and rest: "build_entries child dir children st1 = Inr (es, st')"
    and es: "entries = \<lparr>te_name = name, te_payload = payload\<rparr> # es"
    using assms by (auto simp: map_sum_def split: sum.splits)
  obtain key where "payload = payload_of spec key"
    "if needs_hash spec then child (dir_child dir name) st = Inr (key, st1) else st1 = st"
  proof (cases spec)
    case (Leaf entry)
    with step that show ?thesis by (cases entry) (auto simp: needs_hash_def)
  qed (use step that in \<open>auto simp: needs_hash_def map_sum_def split: sum.splits\<close>)
  with that es rest show ?thesis by blast
qed

lemma build_entries_ok:
  assumes "build_entries child dir children st = Inr (entries, st')" and "distinct (map fst children)"
    and mono: "\<forall>d s k s'. child d s = Inr (k, s') \<longrightarrow> extends s s'"
  shows "extends st st' \<and> (\<exists>keys. entries = entries_with keys children \<and>
    (\<forall>(name, spec) \<in> set children. needs_hash spec \<longrightarrow>
      (\<exists>s s'. extends st s \<and> child (dir_child dir name) s = Inr (keys name, s') \<and> extends s' st')))"
  using assms(1,2)
proof (induction children arbitrary: st entries)
  case Nil
  then show ?case by (simp add: entries_with_def)
next
  case (Cons c children)
  obtain name spec where c: "c = (name, spec)" by force
  obtain key st1 es where es: "entries = \<lparr>te_name = name, te_payload = payload_of spec key\<rparr> # es"
    and rest: "build_entries child dir children st1 = Inr (es, st')"
    and call: "if needs_hash spec then child (dir_child dir name) st = Inr (key, st1) else st1 = st"
    using Cons.prems(1) unfolding c by (rule build_entries_ConsE)
  have ext: "extends st st1" using call mono by (auto split: if_splits)
  obtain keys where ih: "extends st1 st'" "es = entries_with keys children"
    and calls: "\<forall>(name, spec) \<in> set children. needs_hash spec \<longrightarrow>
      (\<exists>s s'. extends st1 s \<and> child (dir_child dir name) s = Inr (keys name, s') \<and> extends s' st')"
    using Cons.IH[OF rest] Cons.prems(2) by auto
  have fresh: "name \<notin> fst ` set children" using Cons.prems(2) c by simp
  have "entries = entries_with (keys(name := key)) (c # children)"
    using es ih(2) c fresh by (force simp: entries_with_def)
  moreover have "\<exists>s s'. extends st s \<and> child (dir_child dir n) s = Inr ((keys(name := key)) n, s') \<and> extends s' st'"
    if n: "(n, sp) \<in> set (c # children)" "needs_hash sp" for n sp
  proof (cases "(n, sp) = c")
    case True
    with call n(2) c ih(1) show ?thesis by (intro exI[of _ st] exI[of _ st1]) simp
  next
    case False
    with n(1) have mem: "(n, sp) \<in> set children" by simp
    with fresh have "n \<noteq> name" by force
    moreover obtain s s' where "extends st1 s" "child (dir_child dir n) s = Inr (keys n, s')" "extends s' st'"
      using calls mem n(2) by fast
    ultimately show ?thesis using extends_trans[OF ext] by auto
  qed
  ultimately show ?case using extends_trans[OF ext ih(1)] by blast
qed

definition ledger_sound :: "('b, 's) node_publisher \<Rightarrow> 's objects \<Rightarrow> bool" where
  "ledger_sound np objs \<longleftrightarrow>
     (\<forall>dir hash key. map_of (np_hashes np) dir = Some hash \<longrightarrow> np_known np hash = Inr (Some key) \<longrightarrow>
        stored (np_io np) (np_crypto np) (np_key_epoch np) objs (np_tree np) dir key)"

definition rows_sound :: "('b, 's) node_publisher \<Rightarrow> 's objects \<Rightarrow> (SubtreeHash \<times> ManifestKey) list \<Rightarrow> bool" where
  "rows_sound np objs rows \<longleftrightarrow>
     (\<forall>(hash, key) \<in> set rows. \<exists>dir. map_of (np_hashes np) dir = Some hash \<and>
        stored (np_io np) (np_crypto np) (np_key_epoch np) objs (np_tree np) dir key)"

text \<open>A directory is either known already, or its children are published and its node is sealed.\<close>

lemma publish_dir_SucE:
  assumes "publish_dir np (Suc levels) dir st = Inr (key, st')"
  obtains (Hit) hash where "map_of (np_hashes np) dir = Some hash" "np_known np hash = Inr (Some key)" "st' = st"
  | (Miss) hash children entries st1 st2 where "map_of (np_hashes np) dir = Some hash" "np_known np hash = Inr None"
      "map_of (np_tree np) dir = Some children"
      "build_entries (publish_dir np levels) dir children st = Inr (entries, st1)"
      "seal_node np (TreeNode_new (np_key_epoch np) entries) st1 = Inr (key, st2)"
      "st' = st2\<lparr>pending_ledger := pending_ledger st2 @ [(hash, key)]\<rparr>"
  using assms by (auto split: option.splits sum.splits)

definition names_distinct :: "dir_nodes \<Rightarrow> bool" where
  "names_distinct nodes \<longleftrightarrow> (\<forall>(dir, children) \<in> set nodes. distinct (map fst children))"

lemma names_distinctD: "names_distinct nodes \<Longrightarrow> map_of nodes dir = Some children \<Longrightarrow> distinct (map fst children)"
  using map_of_SomeD by (fastforce simp: names_distinct_def)

lemma publish_dir_extends:
  assumes "names_distinct (np_tree np)"
  shows "publish_dir np levels dir st = Inr (key, st') \<Longrightarrow> extends st st'"
proof (induction levels arbitrary: dir st key st')
  case (Suc levels)
  from Suc.prems show ?case
  proof (cases rule: publish_dir_SucE)
    case (Miss hash children entries st1 st2)
    have "\<forall>d s k s'. publish_dir np levels d s = Inr (k, s') \<longrightarrow> extends s s'" using Suc.IH by blast
    from build_entries_ok[OF Miss(4) names_distinctD[OF assms Miss(3)] this] have "extends st st1" by blast
    moreover have "extends st1 st'" using seal_node_ok(1)[OF Miss(5)] Miss(6) by (auto simp: extends_def)
    ultimately show ?thesis by (rule extends_trans)
  qed simp
qed simp

lemma rows_sound_extends: "rows_sound np objs (pending_ledger st') \<Longrightarrow> extends st st' \<Longrightarrow>
    rows_sound np objs (pending_ledger st)"
  by (fastforce simp: rows_sound_def extends_def)

lemma publish_dir_stored:
  assumes "names_distinct (np_tree np)" and "ledger_sound np objs"
  shows "publish_dir np levels dir st = Inr (key, st') \<Longrightarrow> held objs st' \<Longrightarrow>
    stored (np_io np) (np_crypto np) (np_key_epoch np) objs (np_tree np) dir key"
proof (induction levels arbitrary: dir st key st')
  case (Suc levels)
  from Suc.prems(1) show ?case
  proof (cases rule: publish_dir_SucE)
    case (Hit hash)
    with assms(2) show ?thesis by (simp add: ledger_sound_def)
  next
    case (Miss hash children entries st1 st2)
    have held: "held objs st2" using Suc.prems(2) Miss(6) by (simp add: held_def)
    then have held1: "held objs st1" using seal_node_ok(1)[OF Miss(5)] held_extends by blast
    have mono: "\<forall>d s k s'. publish_dir np levels d s = Inr (k, s') \<longrightarrow> extends s s'"
      using publish_dir_extends[OF assms(1)] by blast
    obtain keys where k: "entries = entries_with keys children"
      and calls: "\<And>name spec. (name, spec) \<in> set children \<Longrightarrow> needs_hash spec \<Longrightarrow>
        \<exists>s s'. publish_dir np levels (dir_child dir name) s = Inr (keys name, s') \<and> extends s' st1"
      using build_entries_ok[OF Miss(4) names_distinctD[OF assms(1) Miss(3)] mono]
      by fast
    have "\<forall>(name, spec) \<in> set children. needs_hash spec \<longrightarrow>
        stored (np_io np) (np_crypto np) (np_key_epoch np) objs (np_tree np) (dir_child dir name) (keys name)"
      using calls Suc.IH held_extends[OF held1] by fast
    with seal_node_ok(2)[OF Miss(5) held] k Miss(3) show ?thesis by (auto intro: stored_node)
  qed
qed simp

text \<open>Every row that a publish records is for a directory that it has stored.\<close>

lemma build_entries_rows:
  assumes "build_entries child dir children st = Inr (entries, st')" and "P st"
    and "\<And>d s k s'. child d s = Inr (k, s') \<Longrightarrow> P s \<Longrightarrow> P s'"
  shows "P st'"
  using assms(1,2)
proof (induction children arbitrary: st entries)
  case (Cons c children)
  obtain name spec where c: "c = (name, spec)" by force
  obtain key st1 es where rest: "build_entries child dir children st1 = Inr (es, st')"
    and call: "if needs_hash spec then child (dir_child dir name) st = Inr (key, st1) else st1 = st"
    using Cons.prems(1) unfolding c by (rule build_entries_ConsE)
  have "P st1" using call Cons.prems(2) assms(3) by (auto split: if_splits)
  from Cons.IH[OF rest this] show ?case .
qed simp

lemma publish_dir_rows:
  assumes "names_distinct (np_tree np)" and "ledger_sound np objs"
  shows "publish_dir np levels dir st = Inr (key, st') \<Longrightarrow>
    (held objs st \<Longrightarrow> rows_sound np objs (pending_ledger st)) \<Longrightarrow>
    held objs st' \<Longrightarrow> rows_sound np objs (pending_ledger st')"
proof (induction levels arbitrary: dir st key st')
  case (Suc levels)
  note stored = publish_dir_stored[OF assms Suc.prems(1,3)]
  from Suc.prems(1) show ?case
  proof (cases rule: publish_dir_SucE)
    case (Miss hash children entries st1 st2)
    have held: "held objs st2" using Suc.prems(3) Miss(6) by (simp add: held_def)
    then have held1: "held objs st1" using seal_node_ok(1)[OF Miss(5)] held_extends by blast
    have "held objs st1 \<longrightarrow> rows_sound np objs (pending_ledger st1)"
      using build_entries_rows[OF Miss(4), of "\<lambda>s. held objs s \<longrightarrow> rows_sound np objs (pending_ledger s)"]
        Suc.prems(2) Suc.IH by blast
    with held1 seal_node_ok(1)[OF Miss(5)] stored Miss(1,6) show ?thesis
      by (auto simp: rows_sound_def)
  qed (use Suc.prems in simp)
qed simp

section \<open>Publishing does not fail by itself\<close>

definition io_total :: "('b, 's) tree_io \<Rightarrow> WorkspaceCrypto \<Rightarrow> bool" where
  "io_total io crypto \<longleftrightarrow>
     (\<forall>node. to_allocvec io node \<noteq> None) \<and> (\<forall>p. \<exists>s. seal io (write_epoch crypto) p = Inr s)"

lemma seal_node_total:
  "io_total (np_io np) (np_crypto np) \<Longrightarrow> \<exists>key st'. seal_node np node st = Inr (key, st')"
  unfolding io_total_def seal_node_def to_canonical_bytes_def ok_or_def seal_tree_node_def
  by (auto simp: Let_def map_sum_def split: option.splits sum.splits) (metis sum.distinct(1))

lemma build_entries_total:
  assumes "\<forall>(name, spec) \<in> set children. proper_spec spec \<and>
    (needs_hash spec \<longrightarrow> (\<forall>st. \<exists>key st'. child (dir_child dir name) st = Inr (key, st')))"
  shows "\<exists>entries st'. build_entries child dir children st = Inr (entries, st')"
  using assms
proof (induction children arbitrary: st)
  case (Cons c children)
  obtain name spec where c: "c = (name, spec)" by force
  have ih: "\<exists>entries st'. build_entries child dir children st = Inr (entries, st')" for st
    using Cons by simp
  show ?case
  proof (cases "needs_hash spec")
    case True
    then obtain key st1 where k: "child (dir_child dir name) st = Inr (key, st1)"
      using Cons.prems c by fastforce
    with ih[of st1] True c show ?thesis by (cases spec) (auto simp: needs_hash_def)
  next
    case False
    then obtain entry where entry: "spec = Leaf entry" by (cases spec) (auto simp: needs_hash_def)
    moreover have "proper_spec spec" using Cons.prems c by simp
    ultimately show ?thesis using ih[of st] c by (cases entry) (auto simp: proper_spec_def)
  qed
qed simp

lemma publish_dir_total:
  assumes model: "nodes_model (np_tree np) m (implied m)"
    and hashes: "dom (map_of (np_hashes np)) = fst ` set (np_tree np)"
    and io: "io_total (np_io np) (np_crypto np)" and known: "\<And>h e. np_known np h \<noteq> Inl e"
    and depth: "\<And>cs. is_dir m (implied m) cs \<Longrightarrow> length cs < D"
  shows "valid_path cs \<Longrightarrow> is_dir m (implied m) cs \<Longrightarrow> length cs + levels = D \<Longrightarrow>
    \<exists>key st'. publish_dir np levels (join_path cs) st = Inr (key, st')"
proof (induction levels arbitrary: cs st)
  case 0
  with depth[of cs] show ?case by simp
next
  case (Suc levels)
  obtain children where c: "map_of (np_tree np) (join_path cs) = Some children"
    using nodes_modelD(4)[OF model Suc.prems(1,2)] by blast
  then have ok: "node_ok m (implied m) cs children" using nodes_modelD(3)[OF model Suc.prems(1)] by blast
  obtain hash where h: "map_of (np_hashes np) (join_path cs) = Some hash"
    using hashes map_of_SomeD[OF c] by (metis domD fst_conv image_eqI)
  have child: "proper_spec spec \<and>
      (needs_hash spec \<longrightarrow> (\<forall>st. \<exists>key st'. publish_dir np levels (dir_child (join_path cs) name) st = Inr (key, st')))"
    if "(name, spec) \<in> set children" for name spec
  proof -
    note at = nodes_model_child[OF ok that]
    have "\<exists>key st'. publish_dir np levels (dir_child (join_path cs) name) st = Inr (key, st')"
      if "needs_hash spec" for st
      unfolding dir_child_join[OF Suc.prems(1)]
      using at child_at_proper(2)[OF at(2) that] Suc.prems by (intro Suc.IH) simp_all
    with child_at_proper(1)[OF at(2)] show ?thesis by blast
  qed
  have "\<exists>entries st1. build_entries (publish_dir np levels) (join_path cs) children st = Inr (entries, st1)"
    using child by (intro build_entries_total) blast
  then obtain entries st1 where b: "build_entries (publish_dir np levels) (join_path cs) children st = Inr (entries, st1)"
    by blast
  obtain key st2 where "seal_node np (TreeNode_new (np_key_epoch np) entries) st1 = Inr (key, st2)"
    using seal_node_total[OF io] by blast
  with b h c known[of hash] show ?case by (auto split: sum.split option.split)
qed

section \<open>The node ledger\<close>

text \<open>
  What a publish relies on: recording a row adds that row at most, and looking up
  does not start to fail.
\<close>

locale node_ledger =
  fixes known :: "'l \<Rightarrow> ledger"
    and rec :: "SubtreeHash \<Rightarrow> ManifestKey \<Rightarrow> 'l \<Rightarrow> 'l"
    and ok :: "'l \<Rightarrow> bool"
  assumes rec_ok: "ok l \<Longrightarrow> ok (rec h k l)"
    and known_rec: "ok l \<Longrightarrow> known (rec h k l) h' = Inr (Some k') \<Longrightarrow> known l h' = Inr (Some k') \<or> (h', k') = (h, k)"
    and known_error: "ok l \<Longrightarrow> known (rec h k l) h' = Inl e \<Longrightarrow> known l h' = Inl e"
begin

lemma known_fold:
  "ok l \<Longrightarrow> known (fold (\<lambda>(h, k). rec h k) rows l) h = Inr (Some k) \<Longrightarrow>
   known l h = Inr (Some k) \<or> (h, k) \<in> set rows"
proof (induction rows arbitrary: l)
  case (Cons row rows)
  obtain h0 k0 where "row = (h0, k0)" by force
  with Cons.IH[OF rec_ok[OF Cons.prems(1)]] Cons.prems(2) known_rec[OF Cons.prems(1)] show ?case by fastforce
qed simp

lemma known_fold_error:
  "ok l \<Longrightarrow> known (fold (\<lambda>(h, k). rec h k) rows l) h = Inl e \<Longrightarrow> known l h = Inl e"
proof (induction rows arbitrary: l)
  case (Cons row rows)
  obtain h0 k0 where "row = (h0, k0)" by force
  with Cons.IH[OF rec_ok[OF Cons.prems(1)]] Cons.prems(2) known_error[OF Cons.prems(1)] show ?case by fastforce
qed simp

lemma fold_ok: "ok l \<Longrightarrow> ok (fold (\<lambda>(h, k). rec h k) rows l)"
  by (induction rows arbitrary: l) (auto simp: rec_ok)

end

definition fresh_ok :: "StoreNodeLedger \<Rightarrow> bool" where
  "fresh_ok l \<longleftrightarrow> bt_ok (sl_fresh l)"

interpretation unledgered: node_ledger UnledgeredNodes_known UnledgeredNodes_record "\<lambda>_. True"
  by unfold_locales (simp_all add: UnledgeredNodes_known_def)

interpretation store_ledger: node_ledger StoreNodeLedger_known StoreNodeLedger_record fresh_ok
  by unfold_locales
    (auto simp: StoreNodeLedger_known_def StoreNodeLedger_record_def fresh_ok_def bt_insert_ok map_of_bt_insert
      split: option.splits if_splits)

section \<open>The ledger stays sound\<close>

text \<open>
  A published tree: a decomposed manifest and its hashes. Ledger rows come from the trees
  published so far, and a row is good for every tree with the same hash, as long as the
  digest has no collision among them.
\<close>

type_synonym hashed_tree = "dir_nodes \<times> (DirPath, SubtreeHash) btree_map"

definition tree_ok :: "(string \<Rightarrow> string) \<Rightarrow> KeyEpoch \<Rightarrow> hashed_tree \<Rightarrow> bool" where
  "tree_ok blake3 epoch T \<longleftrightarrow> (case T of (nodes, hashes) \<Rightarrow>
     bt_ok nodes \<and> nodes_closed nodes \<and> dom (map_of hashes) = fst ` set nodes
     \<and> hashes_agree blake3 epoch nodes (map_of hashes) \<and> tree_fits nodes (map_of hashes))"

definition collision_free :: "(string \<Rightarrow> string) \<Rightarrow> KeyEpoch \<Rightarrow> hashed_tree set \<Rightarrow> bool" where
  "collision_free blake3 epoch Ts \<longleftrightarrow>
     inj_on blake3 (\<Union>(nodes, hashes) \<in> Ts. hashed_inputs epoch nodes (map_of hashes))"

definition ledger_ok ::
  "('b, 's) tree_io \<Rightarrow> WorkspaceCrypto \<Rightarrow> KeyEpoch \<Rightarrow> 's objects \<Rightarrow> hashed_tree set \<Rightarrow> ledger \<Rightarrow> bool" where
  "ledger_ok io crypto epoch objs Ts known \<longleftrightarrow>
     (\<forall>h k. known h = Inr (Some k) \<longrightarrow>
        (\<exists>(nodes, hashes) \<in> Ts. \<exists>dir. map_of hashes dir = Some h \<and> stored io crypto epoch objs nodes dir k))"

lemma stored_transfer:
  assumes "stored io crypto epoch objs nodes dir k"
    and ok: "tree_ok blake3 epoch (nodes, hashes)" "tree_ok blake3 epoch (nodes', hashes')"
    and free: "inj_on blake3 (hashed_inputs epoch nodes (map_of hashes) \<union> hashed_inputs epoch nodes' (map_of hashes'))"
    and fits: "fits epoch"
    and eq: "map_of hashes dir = map_of hashes' dir'" "dir' \<in> fst ` set nodes'"
  shows "stored io crypto epoch objs nodes' dir' k"
  using assms(1) eq
proof (induction arbitrary: dir')
  case (stored_node dir children keys key)
  have t: "bt_ok nodes" "bt_ok nodes'" "nodes_closed nodes'" "hashes_agree blake3 epoch nodes (map_of hashes)"
    "hashes_agree blake3 epoch nodes' (map_of hashes')" "tree_fits nodes (map_of hashes)" "tree_fits nodes' (map_of hashes')"
    using ok by (auto simp: tree_ok_def)
  obtain children' where c: "map_of nodes' dir' = Some children'"
    using stored_node.prems(2) by (metis map_of_eq_None_iff not_None_eq)
  note step = equal_hash_step[OF t(1,2,4,5) free t(6,7) fits stored_node.hyps(1) c stored_node.prems(1)]
  have "stored io crypto epoch objs nodes' (dir_child dir' name) (keys name)"
    if "(name, spec) \<in> set children" "needs_hash spec" for name spec
  proof -
    have "dir_child dir' name \<in> fst ` set nodes'"
      using t(3) map_of_SomeD[OF c] that step unfolding nodes_closed_def by fast
    moreover have "map_of hashes (dir_child dir name) = map_of hashes' (dir_child dir' name)"
      using step that by auto
    ultimately show ?thesis using stored_node.IH that by fast
  qed
  then have "\<forall>(name, spec) \<in> set children. needs_hash spec \<longrightarrow>
      stored io crypto epoch objs nodes' (dir_child dir' name) (keys name)" by fast
  moreover have "map_of nodes' dir' = Some children" using c step by simp
  ultimately show ?case using stored_node.hyps(2) by (intro stored.stored_node)
qed

lemma ledger_ok_sound:
  assumes "ledger_ok io crypto epoch objs Ts known" and "\<forall>T \<in> Ts. tree_ok blake3 epoch T"
    and "tree_ok blake3 epoch (nodes, hashes)" and "collision_free blake3 epoch (insert (nodes, hashes) Ts)"
    and "fits epoch" and "map_of hashes dir = Some h" and "known h = Inr (Some k)"
  shows "stored io crypto epoch objs nodes dir k"
proof -
  obtain nodes0 hashes0 dir0 where T: "(nodes0, hashes0) \<in> Ts" "map_of hashes0 dir0 = Some h"
    "stored io crypto epoch objs nodes0 dir0 k"
    using assms(1,7) unfolding ledger_ok_def by blast
  have "inj_on blake3 (hashed_inputs epoch nodes0 (map_of hashes0) \<union> hashed_inputs epoch nodes (map_of hashes))"
    using T(1) by (intro inj_on_subset[OF assms(4)[unfolded collision_free_def]]) blast
  moreover have "dir \<in> fst ` set nodes"
    using assms(3,6) by (auto simp: tree_ok_def)
  moreover have "tree_ok blake3 epoch (nodes0, hashes0)" using assms(2) T(1) by blast
  ultimately show ?thesis using stored_transfer[OF T(3) _ assms(3) _ assms(5), of hashes0 dir] T(2) assms(6) by simp
qed

section \<open>Publishing a manifest\<close>

definition manifest_ok :: "Manifest \<Rightarrow> bool" where
  "manifest_ok snapshot \<longleftrightarrow> bt_ok (mf_entries snapshot) \<and> proper_paths (mf_entries snapshot)"

lemma published_tree_ok:
  assumes "manifest_ok snapshot" and "decompose (mf_entries snapshot) = Inr nodes"
    and "subtree_hashes blake3 nodes epoch = Inr hashes" and "tree_fits nodes (map_of hashes)"
  shows "tree_ok blake3 epoch (nodes, hashes)" and "names_distinct nodes"
    and "nodes_model nodes (flat_of (mf_entries snapshot)) (implied (flat_of (mf_entries snapshot)))"
proof -
  show model: "nodes_model nodes (flat_of (mf_entries snapshot)) (implied (flat_of (mf_entries snapshot)))"
    using assms(1,2) decompose_nodes_model unfolding manifest_ok_def by blast
  show "tree_ok blake3 epoch (nodes, hashes)"
    using subtree_hashes_ok[OF nodes_modelD(1)[OF model] nodes_model_closed[OF model], of blake3 epoch]
      nodes_modelD(1)[OF model] nodes_model_closed[OF model] assms(3,4)
    by (auto simp: tree_ok_def)
  have "distinct (map fst children)" if "(dir, children) \<in> set nodes" for dir children
    by (rule nodes_model_entry[OF model that]) (auto simp: node_ok_def intro: bt_ok_distinct)
  then show "names_distinct nodes" unfolding names_distinct_def by blast
qed

context node_ledger
begin

lemma publish_tree_keeps_ledger:
  assumes run: "publish_tree io blake3 crypto known rec put snapshot l = Inr (root, objs', l')"
    and wf: "manifest_ok snapshot" "decompose (mf_entries snapshot) = Inr nodes"
      "subtree_hashes blake3 nodes (mf_key_epoch snapshot) = Inr hashes" "tree_fits nodes (map_of hashes)"
      "fits (mf_key_epoch snapshot)"
    and put: "put_laws objs put"
    and l: "ok l" "ledger_ok io crypto (mf_key_epoch snapshot) objs Ts (known l)"
      "\<forall>T \<in> Ts. tree_ok blake3 (mf_key_epoch snapshot) T"
    and free: "collision_free blake3 (mf_key_epoch snapshot) (insert (nodes, hashes) Ts)"
  shows "stored io crypto (mf_key_epoch snapshot) objs' nodes dir_root root"
    and "ledger_ok io crypto (mf_key_epoch snapshot) objs' (insert (nodes, hashes) Ts) (known l')"
    and "ok l'" and "known l' h = Inl e \<Longrightarrow> known l h = Inl e"
proof -
  let ?epoch = "mf_key_epoch snapshot"
  let ?np = "\<lparr>np_io = io, np_crypto = crypto, np_key_epoch = ?epoch, np_tree = nodes, np_hashes = hashes,
    np_known = known l\<rparr>"
  obtain st where pub: "publish_dir ?np (Suc MAX_WORKSPACE_PATH_DEPTH) dir_root
      \<lparr>pending_uploads = [], pending_ledger = []\<rparr> = Inr (root, st)"
    and up: "put (pending_uploads st) = Inr objs'"
    and l': "l' = fold (\<lambda>(hash, key). rec hash key) (pending_ledger st) l"
    using run wf(2,3) unfolding publish_tree_def
    by (auto simp del: publish_dir.simps split: sum.splits prod.splits)
  note t = published_tree_ok[OF wf(1-4)]
  have held: "held objs' st" and keep: "\<And>k s. objs k = Inr s \<Longrightarrow> objs' k = Inr s"
    using put up unfolding put_laws_def held_def by blast+
  have ledger: "ledger_ok io crypto ?epoch objs' Ts (known l)"
    using l(2) stored_mono[of _ _ _ objs, OF _ keep] unfolding ledger_ok_def by fast
  have sound: "ledger_sound ?np objs'"
    using ledger_ok_sound[OF ledger l(3) t(1) free wf(5)] by (simp add: ledger_sound_def)
  show "stored io crypto ?epoch objs' nodes dir_root root"
    using publish_dir_stored[OF _ sound pub held] t(2) by simp
  have rows: "rows_sound ?np objs' (pending_ledger st)"
    using publish_dir_rows[OF _ sound pub _ held] t(2) by (simp add: rows_sound_def)
  show "ok l'" unfolding l' by (rule fold_ok[OF l(1)])
  show "known l' h = Inl e \<Longrightarrow> known l h = Inl e" unfolding l' by (rule known_fold_error[OF l(1)])
  show "ledger_ok io crypto ?epoch objs' (insert (nodes, hashes) Ts) (known l')"
    unfolding ledger_ok_def
  proof (intro allI impI)
    fix h k
    assume "known l' h = Inr (Some k)"
    then consider "known l h = Inr (Some k)" | "(h, k) \<in> set (pending_ledger st)"
      unfolding l' using known_fold[OF l(1)] by blast
    then show "\<exists>(nodes, hashes) \<in> insert (nodes, hashes) Ts.
        \<exists>dir. map_of hashes dir = Some h \<and> stored io crypto ?epoch objs' nodes dir k"
    proof cases
      case 1
      with ledger show ?thesis unfolding ledger_ok_def by blast
    next
      case 2
      with rows show ?thesis unfolding rows_sound_def by auto
    qed
  qed
qed

end

end
