(* ===== verification/Tree_Bounds.thy ===== *)
theory Tree_Bounds
  imports Tree_Transport
begin

text \<open>
  What a fetch guarantees whatever the object store answers: a hostile tree is either
  refused or stays within every bound of the decode limits.
\<close>

section \<open>Totals\<close>

definition declared :: "ManifestEntry \<Rightarrow> u64" where
  "declared entry = (case declared_size entry of None \<Rightarrow> 0 | Some sz \<Rightarrow> sz)"

definition declared_total :: "(WorkspacePath \<times> ManifestEntry) list \<Rightarrow> u64" where
  "declared_total entries = sum_list (map (declared \<circ> snd) entries)"

lemma declared_total_simps [simp]:
  "declared_total [] = 0"
  "declared_total ((path, entry) # entries) = declared entry + declared_total entries"
  "declared_total (xs @ ys) = declared_total xs + declared_total ys"
  by (simp_all add: declared_total_def)

lemma declared_total_insert: "declared_total (bt_insert path entry m) \<le> declared entry + declared_total m"
  by (induction path entry m rule: bt_insert.induct) auto

lemma length_bt_insert: "length (bt_insert k v m) \<le> Suc (length m)"
  by (induction k v m rule: bt_insert.induct) auto

section \<open>The walk keeps the bounds\<close>

definition clears :: "DecodeLimits \<Rightarrow> WorkspacePath \<Rightarrow> bool" where
  "clears limits path \<longleftrightarrow> validate_manifest_path path limits = Inr ()"

definition walk_bounded :: "DecodeLimits \<Rightarrow> walk \<Rightarrow> bool" where
  "walk_bounded limits w \<longleftrightarrow>
     bt_ok (wk_entries w) \<and> bt_ok (wk_node_keys w)
     \<and> (\<forall>path \<in> fst ` set (wk_entries w). clears limits path)
     \<and> declared_total (wk_entries w) \<le> wk_aggregate w \<and> wk_aggregate w \<le> max_aggregate_declared_bytes limits
     \<and> length (wk_entries w) \<le> wk_records w \<and> wk_records w \<le> max_records limits
     \<and> length (wk_node_keys w) \<le> Suc (wk_records w)
     \<and> wk_decoded w \<le> max_aggregate_decoded_bytes limits"

text \<open>One record has been counted that has produced neither an entry nor a node yet.\<close>

definition walk_counted :: "DecodeLimits \<Rightarrow> walk \<Rightarrow> bool" where
  "walk_counted limits w \<longleftrightarrow>
     walk_bounded limits w \<and> length (wk_entries w) < wk_records w \<and> length (wk_node_keys w) \<le> wk_records w"

lemma count_record_bounded:
  "walk_bounded limits w \<Longrightarrow> count_record limits w = Inr w' \<Longrightarrow> walk_counted limits w'"
  by (auto simp: count_record_def walk_counted_def walk_bounded_def Let_def split: if_splits)

lemma emit_path_bounded:
  assumes "walk_counted (we_limits env) w" and "emit_path env path entry w = Inr w'"
  shows "walk_bounded (we_limits env) w' \<and> length (wk_node_keys w') \<le> wk_records w'"
proof -
  have v: "clears (we_limits env) path"
    using assms(2) by (auto simp: emit_path_def validate_def clears_def map_sum_def split: sum.splits)
  obtain aggregate where a: "aggregate = wk_aggregate w + declared entry"
      "aggregate \<le> max_aggregate_declared_bytes (we_limits env)"
    and w': "w' = w\<lparr>wk_aggregate := aggregate, wk_folded := push_folded (we_fold env path) path (wk_folded w),
      wk_entries := bt_insert path entry (wk_entries w)\<rparr>"
    using assms
    by (auto simp: emit_path_def declared_def filter_option_def checked_add_u64_def walk_counted_def walk_bounded_def
        split: sum.splits option.splits if_splits)
  have "declared_total (bt_insert path entry (wk_entries w)) \<le> aggregate"
    using declared_total_insert[of path entry "wk_entries w"] assms(1) a(1)
    by (simp add: walk_counted_def walk_bounded_def)
  moreover have "length (bt_insert path entry (wk_entries w)) \<le> wk_records w"
    using length_bt_insert[of path entry "wk_entries w"] assms(1) by (simp add: walk_counted_def)
  ultimately show ?thesis
    using assms(1) v a w' bt_insert_keys[of path entry "wk_entries w"]
    by (auto simp: walk_counted_def walk_bounded_def bt_insert_ok)
qed

lemma emit_local_bounded:
  "walk_bounded (we_limits env) w \<Longrightarrow> emit_local env entries w = Inr w' \<Longrightarrow> walk_bounded (we_limits env) w'"
proof (induction env entries w rule: emit_local.induct)
  case (2 env path entry entries w)
  then show ?case
    by (auto split: sum.splits dest!: count_record_bounded) (metis emit_path_bounded)
qed simp

lemma open_node_bounded:
  "walk_bounded (we_limits env) w \<Longrightarrow> open_node env key w = Inr (node, w') \<Longrightarrow> walk_bounded (we_limits env) w'"
  by (auto simp: open_node_def Let_def map_sum_def walk_bounded_def split: sum.splits if_splits prod.splits)

lemma walk_payload_bounded:
  assumes down: "\<And>dir key w w'. walk_bounded (we_limits env) w \<Longrightarrow> length (wk_node_keys w) \<le> wk_records w \<Longrightarrow>
      down dir key w = Inr w' \<Longrightarrow> walk_bounded (we_limits env) w'"
    and w: "walk_counted (we_limits env) w" and run: "walk_payload env down child payload w = Inr w'"
  shows "walk_bounded (we_limits env) w'"
proof (cases payload)
  case (Tree_Directory mode node)
  with run obtain w1 where w1: "emit_path env child (Directory mode) w = Inr w1" "down child node w1 = Inr w'"
    by (auto simp: walk_payload_def split: sum.splits)
  from down[OF _ _ w1(2)] emit_path_bounded[OF w w1(1)] show ?thesis by blast
next
  case (Tree_Subtree node)
  with run have "down child node w = Inr w'" by (auto simp: walk_payload_def split: sum.splits)
  from down[OF _ _ this] w show ?thesis by (simp add: walk_counted_def)
qed (use run emit_path_bounded[OF w] in \<open>auto simp: walk_payload_def\<close>)

lemma walk_entries_bounded:
  assumes down: "\<And>dir key w w'. walk_bounded (we_limits env) w \<Longrightarrow> length (wk_node_keys w) \<le> wk_records w \<Longrightarrow>
      down dir key w = Inr w' \<Longrightarrow> walk_bounded (we_limits env) w'"
  shows "walk_bounded (we_limits env) w \<Longrightarrow> walk_entries env down dir entries w = Inr w' \<Longrightarrow>
    walk_bounded (we_limits env) w'"
proof (induction entries arbitrary: w)
  case (Cons entry entries)
  obtain w1 w2 where w1: "count_record (we_limits env) w = Inr w1"
    and w2: "walk_payload env down (dir_child dir (te_name entry)) (te_payload entry) w1 = Inr w2"
    and rest: "walk_entries env down dir entries w2 = Inr w'"
    using Cons.prems(2) by (auto simp: Let_def split: sum.splits)
  note walk_payload_bounded[of env down, OF down count_record_bounded[OF Cons.prems(1) w1] w2]
  from Cons.IH[OF this rest] show ?case .
qed simp

lemma prune_subtree_bounded:
  "walk_bounded (we_limits env) w \<Longrightarrow> prune_subtree env dir key w = Inr (Some w') \<Longrightarrow> walk_bounded (we_limits env) w'"
  by (auto simp: prune_subtree_def map_sum_def emit_local_bounded split: option.splits sum.splits if_splits)

lemma descend_bounded:
  "walk_bounded (we_limits env) w \<Longrightarrow> length (wk_node_keys w) \<le> wk_records w \<Longrightarrow>
   descend env levels dir key w = Inr w' \<Longrightarrow> walk_bounded (we_limits env) w'"
proof (induction levels arbitrary: dir key w w')
  case (Suc levels)
  let ?w = "w\<lparr>wk_node_keys := bt_insert dir key (wk_node_keys w)\<rparr>"
  have "length (bt_insert dir key (wk_node_keys w)) \<le> Suc (wk_records w)"
    using length_bt_insert[of dir key "wk_node_keys w"] Suc.prems(2) by simp
  then have w: "walk_bounded (we_limits env) ?w"
    using Suc.prems(1) by (simp add: walk_bounded_def bt_insert_ok)
  consider "prune_subtree env dir key ?w = Inr (Some w')"
    | node w1 where "open_node env key ?w = Inr (node, w1)"
      "walk_entries env (descend env levels) dir (tn_entries node) w1 = Inr w'"
    using Suc.prems(3) by (auto simp: Let_def split: sum.splits option.splits)
  then show ?case
  proof cases
    case 1
    with w show ?thesis by (rule prune_subtree_bounded)
  next
    case 2
    from walk_entries_bounded[of env "descend env levels", OF Suc.IH open_node_bounded[OF w 2(1)] 2(2)]
    show ?thesis .
  qed
qed simp

text \<open>C37. Whatever the object store answers, a fetch that returns a manifest stayed within
  every bound: the entries are in path order without duplicates, every path clears the
  publishing predicate under the limits, there are no more entries and, but for the root, no
  more directory nodes than the record limit allows, and the file sizes they declare sum up
  to no more than the aggregate limit, without wrap-around.\<close>

theorem fetch_result_bounded:
  assumes "fetch_tree env root = Inr tree"
  defines "entries \<equiv> mf_entries (ft_manifest tree)"
  shows "bt_ok entries
    \<and> list_all (\<lambda>(path, entry). validate_manifest_path path (we_limits env) = Inr ()) entries
    \<and> length entries \<le> max_records (we_limits env)
    \<and> length (ft_node_keys tree) \<le> Suc (max_records (we_limits env))
    \<and> declared_total entries \<le> max_aggregate_declared_bytes (we_limits env)"
proof -
  obtain w where w: "descend env (Suc (max_depth (we_limits env))) dir_root root new_walk = Inr w"
    and tree: "entries = wk_entries w" "ft_node_keys tree = wk_node_keys w"
    using assms by (auto simp: fetch_tree_def map_sum_def simp del: descend.simps split: sum.splits)
  have "walk_bounded (we_limits env) new_walk" by (simp add: walk_bounded_def new_walk_def)
  from descend_bounded[OF this _ w] have "walk_bounded (we_limits env) w" by (simp add: new_walk_def)
  with tree show ?thesis by (auto simp: walk_bounded_def list_all_iff clears_def)
qed

end
