(* ===== verification/Tree_Fetching.thy ===== *)
theory Tree_Fetching
  imports Tree_Storage Tree_Bounds
begin

text \<open>
  Fetching what was published: a walk over a stored tree finds exactly the entries of the
  manifest, whether it opens every node or takes known subtrees from a local copy, as long
  as the tree is within the decode limits.
\<close>

section \<open>Ancestors of a publishable path\<close>

lemma join_path_append:
  "cs \<noteq> [] \<Longrightarrow> ds \<noteq> [] \<Longrightarrow> join_path (cs @ ds) = join_path cs @ slash # join_path ds"
proof (induction cs rule: join_path.induct)
  case (2 c)
  then show ?case by (cases ds) simp_all
qed simp_all

lemma split_on_append: "split_on slash (p @ slash # s) = split_on slash p @ split_on slash s"
proof (induction p)
  case (Cons x p)
  obtain part parts where "split_on slash p = part # parts" by (cases "split_on slash p") auto
  with Cons show ?case by simp
qed simp

lemma private_append:
  assumes "is_private_workspace_state_path p" and "p \<noteq> []"
  shows "is_private_workspace_state_path (p @ slash # s)"
proof -
  have "set (split_on slash p) \<subseteq> set (split_on slash (p @ slash # s))" by (simp add: split_on_append)
  with assms show ?thesis
    by (auto simp: is_private_workspace_state_path_def list_ex_iff prefix_def)
qed

lemma clears_prefix:
  assumes "clears limits (join_path (cs @ ds))" and "valid_path (cs @ ds)" and "cs \<noteq> []"
  shows "clears limits (join_path cs)"
proof (cases "ds = []")
  case False
  have split: "split_on slash (join_path (cs @ ds)) = cs @ ds" "split_on slash (join_path cs) = cs"
    using assms(2,3) valid_no_slash by (intro split_join; auto)+
  note j = join_path_append[OF assms(3) False]
  have iff: "clears limits p \<longleftrightarrow>
      publishable_workspace_path p (max_path_len limits) (allow_workspace_state_paths limits) = Inr ()" for p
    by (auto simp: clears_def validate_manifest_path_def split: sum.splits PathRejection.splits)
  have "join_path cs \<noteq> []" using assms(2,3) join_path_Nil_iff[of cs] by auto
  with assms(1) private_append[of "join_path cs" "join_path ds"] show ?thesis
    unfolding iff publishable_iff split by (auto simp: j)
qed (use assms in simp)

section \<open>The entries below a directory\<close>

lemma prefix_interval:
  "(p :: string) \<le> k \<Longrightarrow> k \<le> p @ t \<Longrightarrow> prefix p k"
proof (induction p arbitrary: k)
  case (Cons c p)
  then show ?case by (cases k) auto
qed simp

lemma prefix_le: "prefix p k \<Longrightarrow> (p :: string) \<le> k"
  using prefix_order.le_less less_imp_le prefix_less by (metis strict_prefix_def order_refl)

lemma descendants_filter:
  assumes "bt_ok entries"
  shows "descendants entries dir =
    filter (\<lambda>(path, _). prefix (if dir = [] then [] else dir @ [slash]) path) entries"
proof -
  let ?p = "if dir = [] then [] else dir @ [slash]"
  have take: "takeWhile (\<lambda>(path, _). prefix ?p path) es = filter (\<lambda>(path, _). prefix ?p path) es"
    if "bt_ok es" "\<forall>path \<in> fst ` set es. ?p \<le> path" for es :: "(string \<times> ManifestEntry) list"
    using that
  proof (induction es)
    case (Cons e es)
    obtain k v where e: "e = (k, v)" by force
    have "\<not> prefix ?p k'" if "\<not> prefix ?p k" "k' \<in> fst ` set es" for k'
    proof
      assume "prefix ?p k'"
      then obtain t where "k' = ?p @ t" by (auto simp: prefix_def)
      moreover have "k \<le> k'" "?p \<le> k" using Cons.prems e that(2) by (auto simp: less_imp_le)
      ultimately show False using prefix_interval[of ?p k t] that(1) by metis
    qed
    then have "filter (\<lambda>(path, _). prefix ?p path) es = []" if "\<not> prefix ?p k"
      using that by (force simp: filter_empty_conv)
    with Cons e show ?case by simp
  qed simp
  have "takeWhile (\<lambda>(path, _). prefix ?p path) (dropWhile (\<lambda>(path, _). path < ?p) es) =
      filter (\<lambda>(path, _). prefix ?p path) es" if "bt_ok es" for es :: "(string \<times> ManifestEntry) list"
    using that
  proof (induction es)
    case (Cons e es)
    obtain k v where e: "e = (k, v)" by force
    show ?case
    proof (cases "k < ?p")
      case True
      then have "\<not> prefix ?p k" using prefix_le[of ?p k] by auto
      with True Cons e show ?thesis by simp
    next
      case False
      then have "\<forall>path \<in> fst ` set (e # es). ?p \<le> path" using Cons.prems e by auto
      with take[OF Cons.prems this] False e show ?thesis by simp
    qed
  qed simp
  with assms show ?thesis by (simp add: descendants_def Let_def)
qed

text \<open>The part of a manifest at the paths that satisfy a predicate.\<close>

definition only :: "flat \<Rightarrow> (string list \<Rightarrow> bool) \<Rightarrow> WorkspacePath \<rightharpoonup> ManifestEntry" where
  "only m P p = (if P (split_on slash p) then m (split_on slash p) else None)"

lemma only_disj: "(f ++ only m P) ++ only m Q = f ++ only m (\<lambda>q. P q \<or> Q q)"
  by (auto simp: only_def map_add_def fun_eq_iff split: option.splits)

lemma only_cong: "(\<And>q. m q \<noteq> None \<Longrightarrow> P q = Q q) \<Longrightarrow> only m P = only m Q"
  unfolding only_def fun_eq_iff by metis

lemma only_False [simp]: "only m (\<lambda>_. False) = Map.empty"
  by (simp add: only_def fun_eq_iff)

lemma only_single:
  assumes "m q = Some e" and "split_on slash (join_path q) = q"
  shows "f(join_path q \<mapsto> e) = f ++ only m (\<lambda>p. p = q)"
  using assms by (auto simp: only_def map_add_def fun_eq_iff join_split split: option.splits)

lemma flat_of_split: "bt_ok entries \<Longrightarrow> proper_paths entries \<Longrightarrow> flat_of entries (split_on slash p) = map_of entries p"
  by (auto simp: flat_of_def join_split proper_paths_def intro!: split_valid)
    (metis (mono_tags, lifting) case_prodD map_of_SomeD not_None_eq split_valid)

section \<open>What a walk has done\<close>

text \<open>
  The paths of a manifest are its entries and the directories they imply. A sum over the
  paths that satisfy a predicate is additive in the predicate.
\<close>

definition all_paths :: "flat \<Rightarrow> string list set" where
  "all_paths m = dom m \<union> implied m \<union> {[]}"

definition path_sum :: "flat \<Rightarrow> (string list \<Rightarrow> nat) \<Rightarrow> (string list \<Rightarrow> bool) \<Rightarrow> nat" where
  "path_sum m f P = (\<Sum>q \<in> {q \<in> all_paths m. P q}. f q)"

definition record_cost :: "flat \<Rightarrow> string list \<Rightarrow> nat" where
  "record_cost m q = (if q = [] then 0 else 1)"

definition declared_cost :: "flat \<Rightarrow> string list \<Rightarrow> nat" where
  "declared_cost m q = (case m q of None \<Rightarrow> 0 | Some e \<Rightarrow> declared e)"

definition node_cost :: "flat \<Rightarrow> nat \<Rightarrow> string list \<Rightarrow> nat" where
  "node_cost m B q = (if is_dir m (implied m) q then B else 0)"

lemma finite_implied: "finite (dom m) \<Longrightarrow> finite (implied m)"
proof -
  assume "finite (dom m)"
  moreover have "implied m \<subseteq> (\<Union>q \<in> dom m. set (prefixes q))"
    by (auto simp: implied_def strict_prefix_def)
  ultimately show ?thesis by (meson finite_UN finite_set finite_subset)
qed

lemma path_sum_disj:
  assumes "finite (dom m)" and "\<And>q. q \<in> all_paths m \<Longrightarrow> \<not> (P q \<and> Q q)"
  shows "path_sum m f (\<lambda>q. P q \<or> Q q) = path_sum m f P + path_sum m f Q"
proof -
  have "{q \<in> all_paths m. P q \<or> Q q} = {q \<in> all_paths m. P q} \<union> {q \<in> all_paths m. Q q}" by blast
  moreover have "finite (all_paths m)" using assms(1) finite_implied by (simp add: all_paths_def)
  ultimately show ?thesis unfolding path_sum_def using assms(2) by (subst sum.union_disjoint[symmetric]) auto
qed

lemma path_sum_mono: "finite (dom m) \<Longrightarrow> (\<And>q. q \<in> all_paths m \<Longrightarrow> P q \<Longrightarrow> Q q) \<Longrightarrow> path_sum m f P \<le> path_sum m f Q"
  unfolding path_sum_def by (intro sum_mono2) (auto simp: all_paths_def finite_implied)

lemma path_sum_cong: "(\<And>q. q \<in> all_paths m \<Longrightarrow> P q = Q q) \<Longrightarrow> path_sum m f P = path_sum m f Q"
  unfolding path_sum_def by (metis (mono_tags, lifting) Collect_cong)

lemma path_sum_single: "q \<in> all_paths m \<Longrightarrow> path_sum m f (\<lambda>p. p = q) = f q"
proof -
  assume "q \<in> all_paths m"
  then have "{p \<in> all_paths m. p = q} = {q}" by blast
  then show ?thesis by (simp add: path_sum_def)
qed

lemma path_sum_False [simp]: "path_sum m f (\<lambda>_. False) = 0"
  by (simp add: path_sum_def)

text \<open>
  A walk with the manifest \<open>m\<close> before it: it has added the entries at the paths \<open>P\<close>, counted
  no more records and exactly the declared sizes they have, and opened no more than the
  nodes at the directories among the paths \<open>N\<close>, each of \<open>B\<close> bytes at most.
\<close>

definition walked :: "flat \<Rightarrow> nat \<Rightarrow> (string list \<Rightarrow> bool) \<Rightarrow> (string list \<Rightarrow> bool) \<Rightarrow> walk \<Rightarrow> walk \<Rightarrow> bool" where
  "walked m B P N w w' \<longleftrightarrow>
     (bt_ok (wk_entries w) \<longrightarrow> bt_ok (wk_entries w') \<and> map_of (wk_entries w') = map_of (wk_entries w) ++ only m P)
     \<and> wk_records w' \<le> wk_records w + path_sum m (record_cost m) P
     \<and> wk_aggregate w' = wk_aggregate w + path_sum m (declared_cost m) P
     \<and> wk_decoded w' \<le> wk_decoded w + path_sum m (node_cost m B) N"

definition room :: "DecodeLimits \<Rightarrow> flat \<Rightarrow> nat \<Rightarrow> (string list \<Rightarrow> bool) \<Rightarrow> (string list \<Rightarrow> bool) \<Rightarrow> walk \<Rightarrow> bool" where
  "room limits m B P N w \<longleftrightarrow>
     wk_records w + path_sum m (record_cost m) P \<le> max_records limits
     \<and> wk_aggregate w + path_sum m (declared_cost m) P \<le> min u64_MAX (max_aggregate_declared_bytes limits)
     \<and> wk_decoded w + path_sum m (node_cost m B) N \<le> max_aggregate_decoded_bytes limits"

lemma walked_trans:
  assumes "finite (dom m)" and "walked m B P N w w1" and "walked m B Q N' w1 w2"
    and "\<And>q. q \<in> all_paths m \<Longrightarrow> \<not> (P q \<and> Q q)" and "\<And>q. q \<in> all_paths m \<Longrightarrow> \<not> (N q \<and> N' q)"
  shows "walked m B (\<lambda>q. P q \<or> Q q) (\<lambda>q. N q \<or> N' q) w w2"
  using assms(2,3) path_sum_disj[OF assms(1,4)] path_sum_disj[OF assms(1,5)]
  by (auto simp: walked_def only_disj)

lemma walked_cong:
  assumes "walked m B P N w w'" and "\<And>q. q \<in> all_paths m \<Longrightarrow> P q = P' q" and "\<And>q. q \<in> all_paths m \<Longrightarrow> N q = N' q"
  shows "walked m B P' N' w w'"
proof -
  have "only m P = only m P'" using assms(2) by (intro only_cong) (auto simp: all_paths_def)
  with assms path_sum_cong[of m P P'] path_sum_cong[of m N N'] show ?thesis by (simp add: walked_def)
qed

lemma walked_refl: "walked m B (\<lambda>_. False) (\<lambda>_. False) w w"
  by (simp add: walked_def)

lemma room_after:
  assumes "finite (dom m)" and "walked m B P N w w1" and "room limits m B R R' w"
    and "\<And>q. q \<in> all_paths m \<Longrightarrow> P q \<or> Q q \<Longrightarrow> R q" and "\<And>q. q \<in> all_paths m \<Longrightarrow> N q \<or> N' q \<Longrightarrow> R' q"
    and "\<And>q. q \<in> all_paths m \<Longrightarrow> \<not> (P q \<and> Q q)" and "\<And>q. q \<in> all_paths m \<Longrightarrow> \<not> (N q \<and> N' q)"
  shows "room limits m B Q N' w1"
proof -
  have "path_sum m f (\<lambda>q. P q \<or> Q q) \<le> path_sum m f R" "path_sum m f (\<lambda>q. N q \<or> N' q) \<le> path_sum m f R'" for f
    using assms(4,5) by (intro path_sum_mono[OF assms(1)]; blast)+
  then have "path_sum m f P + path_sum m f Q \<le> path_sum m f R" "path_sum m f N + path_sum m f N' \<le> path_sum m f R'" for f
    using path_sum_disj[of m P Q f, OF assms(1,6)] path_sum_disj[of m N N' f, OF assms(1,7)] by metis+
  from this[of "record_cost m"] this[of "declared_cost m"] this[of "node_cost m B"] assms(2,3) show ?thesis
    unfolding walked_def room_def by linarith
qed

lemma walked_weaken:
  assumes "finite (dom m)" and "walked m B P N w w'"
    and "\<And>q. q \<in> all_paths m \<Longrightarrow> P q \<Longrightarrow> P' q" and "\<And>q. m q \<noteq> None \<Longrightarrow> P' q \<Longrightarrow> P q"
    and "\<And>q. q \<in> all_paths m \<Longrightarrow> N q \<Longrightarrow> N' q"
  shows "walked m B P' N' w w'"
proof -
  have "path_sum m (node_cost m B) N \<le> path_sum m (node_cost m B) N'"
    "path_sum m (record_cost m) P \<le> path_sum m (record_cost m) P'"
    using assms(1,3,5) by (intro path_sum_mono; blast)+
  moreover have "only m P = only m P'" using assms(3,4) by (intro only_cong) (auto simp: all_paths_def)
  moreover have "path_sum m (declared_cost m) P = path_sum m (declared_cost m) P'"
    unfolding path_sum_def
    using assms(1,3,4) by (intro sum.mono_neutral_left) (auto simp: declared_cost_def all_paths_def finite_implied split: option.split)
  ultimately show ?thesis using assms(2) unfolding walked_def by auto
qed

lemma room_subset:
  assumes "finite (dom m)" and "room limits m B R R' w"
    and "\<And>q. q \<in> all_paths m \<Longrightarrow> P q \<Longrightarrow> R q" and "\<And>q. q \<in> all_paths m \<Longrightarrow> N q \<Longrightarrow> R' q"
  shows "room limits m B P N w"
  using room_after[OF assms(1) walked_refl assms(2), of P N] assms(3,4) by blast

section \<open>A tree within the limits\<close>

definition objects_fit :: "('b, 's) walk_env \<Rightarrow> nat \<Rightarrow> bool" where
  "objects_fit env B \<longleftrightarrow> B \<le> max_decoded_bytes (we_limits env) \<and>
     (\<forall>key s p. we_objects env key = Inr s \<longrightarrow> seal (we_io env) (write_epoch (we_crypto env)) p = Inr s \<longrightarrow>
        plaintext_len (we_io env) p \<le> B \<and> sealed_len (we_io env) s \<le> max_sealed_bytes (we_limits env))"

definition entry_within :: "DecodeLimits \<Rightarrow> string list \<Rightarrow> ManifestEntry \<Rightarrow> bool" where
  "entry_within limits q e \<longleftrightarrow>
     q \<noteq> [] \<and> valid_path q \<and> clears limits (join_path q) \<and> list_all (\<lambda>c. length c \<le> max_name_len limits) q
     \<and> (case e of Symlink _ target \<Rightarrow> target \<noteq> [] \<and> length target \<le> max_path_len limits | _ \<Rightarrow> True)"

definition tree_within :: "DecodeLimits \<Rightarrow> dir_nodes \<Rightarrow> flat \<Rightarrow> bool" where
  "tree_within limits nodes m \<longleftrightarrow>
     nodes_model nodes m (implied m) \<and> finite (dom m)
     \<and> (\<forall>q e. m q = Some e \<longrightarrow> entry_within limits q e)
     \<and> (\<forall>(dir, children) \<in> set nodes. length children \<le> max_node_entries limits)"

lemma tree_withinD:
  assumes "tree_within limits nodes m"
  shows "nodes_model nodes m (implied m)" and "finite (dom m)"
    and "m q = Some e \<Longrightarrow> entry_within limits q e"
    and "map_of nodes dir = Some children \<Longrightarrow> length children \<le> max_node_entries limits"
  using assms map_of_SomeD unfolding tree_within_def by fast+

lemma all_paths_within:
  assumes "tree_within limits nodes m" and "q \<in> all_paths m" and "q \<noteq> []"
  shows "valid_path q" and "clears limits (join_path q)"
    and "list_all (\<lambda>c. length c \<le> max_name_len limits) q" and "split_on slash (join_path q) = q"
    and "length q \<le> MAX_WORKSPACE_PATH_DEPTH" and "list_all (valid_name limits) q"
proof -
  obtain r where "m (q @ r) \<noteq> None"
  proof (cases "m q")
    case None
    then obtain p where "p \<in> dom m" "strict_prefix q p" using assms(2,3) by (auto simp: all_paths_def implied_def)
    with that show ?thesis by (auto simp: strict_prefix_def prefix_def)
  next
    case (Some e)
    with that[of "[]"] show ?thesis by simp
  qed
  then obtain e where "entry_within limits (q @ r) e" using tree_withinD(3)[OF assms(1)] by auto
  then have e: "valid_path (q @ r)" "clears limits (join_path (q @ r))"
    "list_all (\<lambda>c. length c \<le> max_name_len limits) (q @ r)" by (auto simp: entry_within_def)
  then show v: "valid_path q" and n: "list_all (\<lambda>c. length c \<le> max_name_len limits) q" by simp_all
  show c: "clears limits (join_path q)" using clears_prefix e(1,2) assms(3) by blast
  show sp: "split_on slash (join_path q) = q" using split_join[OF assms(3)] valid_no_slash[OF v] by blast
  have p: "publishable_workspace_path (join_path q) (max_path_len limits) (allow_workspace_state_paths limits) = Inr ()"
    using c by (auto simp: clears_def validate_manifest_path_def split: sum.splits PathRejection.splits)
  then show "length q \<le> MAX_WORKSPACE_PATH_DEPTH" unfolding publishable_iff sp by blast
  from p have "list_all (\<lambda>part. part \<notin> {[], ''.'', ''..''}) q" unfolding publishable_iff sp by blast
  with v n show "list_all (valid_name limits) q"
    by (auto simp: list_all_iff valid_name_def path_component_def)
qed

section \<open>One record at a time\<close>

lemma record_step:
  assumes "room limits m B P N w" and "q \<in> all_paths m" and "q \<noteq> []" and "P q"  and "finite (dom m)"
  shows "count_record limits w = Inr (w\<lparr>wk_records := wk_records w + 1\<rparr>)"
proof -
  have "path_sum m (record_cost m) (\<lambda>p. p = q) \<le> path_sum m (record_cost m) P"
    using assms(4,5) by (intro path_sum_mono) auto
  with assms show ?thesis
    by (auto simp: room_def count_record_def path_sum_single record_cost_def)
qed

lemma emit_step:
  assumes within: "tree_within (we_limits env) nodes m" and room: "room (we_limits env) m B P N w" and "P q"
    and q: "m q = Some e"
  shows "\<exists>w'. emit_path env (join_path q) e (w\<lparr>wk_records := wk_records w + 1\<rparr>) = Inr w'
    \<and> walked m B (\<lambda>p. p = q) (\<lambda>_. False) w w'"
proof -
  note fin = tree_withinD(2)[OF within]
  have mem: "q \<in> all_paths m" "q \<noteq> []"
    using q tree_withinD(3)[OF within q] by (auto simp: all_paths_def entry_within_def)
  note ok = all_paths_within[OF within mem]
  have d: "path_sum m (declared_cost m) (\<lambda>p. p = q) = declared e"
    using q by (simp add: path_sum_single[OF mem(1)] declared_cost_def)
  have r: "path_sum m (record_cost m) (\<lambda>p. p = q) = 1"
    using mem(2) by (simp add: path_sum_single[OF mem(1)] record_cost_def)
  have "path_sum m (declared_cost m) (\<lambda>p. p = q) \<le> path_sum m (declared_cost m) P"
    using assms(3) by (intro path_sum_mono[OF fin]) auto
  with room d have le: "wk_aggregate w + declared e \<le> min u64_MAX (max_aggregate_declared_bytes (we_limits env))"
    by (simp add: room_def)
  let ?w = "w\<lparr>wk_records := wk_records w + 1, wk_aggregate := wk_aggregate w + declared e,
     wk_folded := push_folded (we_fold env (join_path q)) (join_path q) (wk_folded w),
     wk_entries := bt_insert (join_path q) e (wk_entries w)\<rparr>"
  have "emit_path env (join_path q) e (w\<lparr>wk_records := wk_records w + 1\<rparr>) = Inr ?w"
    using ok(2) le
    by (auto simp: emit_path_def validate_def clears_def declared_def filter_option_def checked_add_u64_def
        split: option.split)
  moreover have "walked m B (\<lambda>p. p = q) (\<lambda>_. False) w ?w"
    using d r only_single[of m q e, OF q ok(4)] by (auto simp: walked_def bt_insert_ok map_of_bt_insert)
  ultimately show ?thesis by blast
qed

lemma structural_step:
  assumes within: "tree_within (we_limits env) nodes m" and q: "m q = None" "q \<in> all_paths m" "q \<noteq> []"
  shows "validate (we_limits env) (join_path q) = Inr ()"
    and "walked m B (\<lambda>p. p = q) (\<lambda>_. False) w (w\<lparr>wk_records := wk_records w + 1\<rparr>)"
proof -
  show "validate (we_limits env) (join_path q) = Inr ()"
    using all_paths_within(2)[OF within q(2,3)] by (simp add: validate_def clears_def)
  have "only m (\<lambda>p. p = q) = Map.empty" using q(1) by (auto simp: only_def fun_eq_iff)
  then show "walked m B (\<lambda>p. p = q) (\<lambda>_. False) w (w\<lparr>wk_records := wk_records w + 1\<rparr>)"
    using q by (simp add: walked_def path_sum_single record_cost_def declared_cost_def)
qed

section \<open>Opening a stored node\<close>

lemma open_epochs_ok:
  assumes codec: "codec_laws io crypto" and s: "seal io (write_epoch crypto) p = Inr s"
    and fit: "plaintext_len io p \<le> max_decoded_bytes limits" and mem: "write_epoch crypto \<in> set epochs"
  shows "\<exists>err. open_epochs io s limits err0 epochs = (Some (Inr (p, write_epoch crypto)), err)"
  using mem
proof (induction epochs arbitrary: err0)
  case (Cons epoch epochs)
  show ?case
  proof (cases "epoch = write_epoch crypto")
    case True
    with codec_lawsD(2)[OF codec s fit] show ?thesis by simp
  next
    case False
    with codec_lawsD(3)[OF codec s False] Cons show ?thesis by simp
  qed
qed simp

definition node_within :: "DecodeLimits \<Rightarrow> TreeEntry list \<Rightarrow> bool" where
  "node_within limits es \<longleftrightarrow> length es \<le> max_node_entries limits
     \<and> list_all (\<lambda>e. valid_name limits (te_name e) \<and> valid_target limits (te_payload e)) es
     \<and> sorted_wrt (<) (map te_name es)"

lemma tree_node_within:
  assumes within: "tree_within limits nodes m" and cs: "map_of nodes (join_path cs) = Some children" "valid_path cs"
  shows "node_within limits (entries_with keys children)"
proof -
  have ok: "node_ok m (implied m) cs children" using nodes_modelD(3)[OF tree_withinD(1)[OF within] cs(2,1)] by blast
  have child: "valid_name limits name \<and> valid_target limits (payload_of spec (keys name))"
    if "(name, spec) \<in> set children" for name spec
  proof -
    note at = nodes_model_child[OF ok that]
    have mem: "cs @ [name] \<in> all_paths m"
      using at(2) by (auto simp: all_paths_def child_at_def split: option.splits if_splits)
    have "valid_target limits (payload_of spec (keys name))"
    proof (cases "m (cs @ [name])")
      case None
      with at(2) show ?thesis by (auto simp: child_at_def valid_target_def split: if_splits)
    next
      case (Some e)
      with at(2) tree_withinD(3)[OF within Some] show ?thesis
        by (cases e) (auto simp: child_at_def valid_target_def entry_within_def)
    qed
    with all_paths_within(6)[OF within mem] show ?thesis by simp
  qed
  have names: "map te_name (entries_with keys children) = map fst children"
    by (auto simp: entries_with_def)
  have "length (entries_with keys children) \<le> max_node_entries limits"
    using tree_withinD(4)[OF within cs(1)] by (simp add: entries_with_def)
  moreover have "sorted_wrt (<) (map te_name (entries_with keys children))"
    using ok by (simp only: names node_ok_def bt_ok_def)
  ultimately show ?thesis using child by (auto simp: node_within_def list_all_iff entries_with_def)
qed

text \<open>A node that is in the store and within the limits can be opened and decoded.\<close>

lemma open_node_at:
  assumes codec: "codec_laws io crypto" and node: "node_at io crypto objs key (TreeNode_new (write_epoch crypto) es)"
    and fit: "\<And>s p. objs key = Inr s \<Longrightarrow> seal io (write_epoch crypto) p = Inr s \<Longrightarrow>
      plaintext_len io p \<le> max_decoded_bytes limits \<and> sealed_len io s \<le> max_sealed_bytes limits"
    and within: "node_within limits es"
  obtains s p where "objs key = Inr s" "physical_manifest_key io s = key" "seal io (write_epoch crypto) p = Inr s"
    "open_tree_node io crypto s limits = Inr (p, write_epoch crypto)"
    "TreeNode_decode (from_bytes io) p (write_epoch crypto) limits = Inr (TreeNode_new (write_epoch crypto) es)"
proof -
  obtain p s where o: "objs key = Inr s" "physical_manifest_key io s = key"
    "to_allocvec io (TreeNode_new (write_epoch crypto) es) = Some p" "seal io (write_epoch crypto) p = Inr s"
    using node by (auto simp: node_at_def)
  note sz = fit[OF o(1,4)]
  have "open_tree_node io crypto s limits = Inr (p, write_epoch crypto)"
    using open_epochs_ok[OF codec o(4), of limits "rev (key_epochs crypto)" None] codec_lawsD(4)[OF codec] sz
    by (auto simp: open_tree_node_def)
  moreover have "TreeNode_decode (from_bytes io) p (write_epoch crypto) limits = Inr (TreeNode_new (write_epoch crypto) es)"
    unfolding decode_iff using codec_lawsD(1)[OF codec o(3)] within by (simp add: TreeNode_new_def node_within_def)
  ultimately show thesis using that o by blast
qed

lemma open_stored_node:
  assumes codec: "codec_laws (we_io env) (we_crypto env)" and fit: "objects_fit env B"
    and within: "tree_within (we_limits env) nodes m"
    and node: "node_at (we_io env) (we_crypto env) (we_objects env) key
        (TreeNode_new (write_epoch (we_crypto env)) (entries_with keys children))"
    and cs: "map_of nodes (join_path cs) = Some children" "valid_path cs"
    and room: "room (we_limits env) m B P N w" "N cs"
  shows "\<exists>w'. open_node env key w = Inr (TreeNode_new (write_epoch (we_crypto env)) (entries_with keys children), w')
    \<and> walked m B (\<lambda>_. False) (\<lambda>q. q = cs) w w'"
proof -
  note model = tree_withinD(1)[OF within] and fin = tree_withinD(2)[OF within]
  have sz: "plaintext_len (we_io env) p \<le> B \<and> plaintext_len (we_io env) p \<le> max_decoded_bytes (we_limits env)
      \<and> sealed_len (we_io env) s \<le> max_sealed_bytes (we_limits env)"
    if "we_objects env key = Inr s" "seal (we_io env) (write_epoch (we_crypto env)) p = Inr s" for s p
    using fit that unfolding objects_fit_def by fastforce
  obtain s p where o: "we_objects env key = Inr s" "physical_manifest_key (we_io env) s = key"
    "seal (we_io env) (write_epoch (we_crypto env)) p = Inr s"
    "open_tree_node (we_io env) (we_crypto env) s (we_limits env) = Inr (p, write_epoch (we_crypto env))"
    "TreeNode_decode (from_bytes (we_io env)) p (write_epoch (we_crypto env)) (we_limits env) =
      Inr (TreeNode_new (write_epoch (we_crypto env)) (entries_with keys children))"
    by (rule open_node_at[OF codec node, of "we_limits env"]) (use sz tree_node_within[OF within cs] in simp_all)
  have dir: "is_dir m (implied m) cs" using nodes_modelD(3)[OF model cs(2,1)] by auto
  have cost: "path_sum m (node_cost m B) (\<lambda>q. q = cs) = B"
  proof -
    have "cs \<in> all_paths m" using dir by (auto simp: is_dir_def all_paths_def)
    with dir show ?thesis by (simp add: path_sum_single node_cost_def)
  qed
  moreover have "path_sum m (node_cost m B) (\<lambda>q. q = cs) \<le> path_sum m (node_cost m B) N"
    using room(2) by (intro path_sum_mono[OF fin]) auto
  ultimately show ?thesis
    using o sz[OF o(1,3)] room(1)
    by (auto simp: open_node_def Let_def walked_def room_def saturating_add_u64_def)
qed

section \<open>Taking a subtree from the local copy\<close>

lemma emit_local_ok:
  assumes within: "tree_within (we_limits env) nodes m"
    and "\<forall>(path, e) \<in> set local. m (split_on slash path) = Some e" and "distinct (map fst local)"
    and "room (we_limits env) m B (\<lambda>q. q \<in> split_on slash ` fst ` set local) (\<lambda>_. False) w"
  shows "\<exists>w'. emit_local env local w = Inr w' \<and>
    walked m B (\<lambda>q. q \<in> split_on slash ` fst ` set local) (\<lambda>_. False) w w'"
  using assms(2-4)
proof (induction local arbitrary: w)
  case Nil
  then show ?case by (simp add: walked_refl)
next
  case (Cons pe local)
  note fin = tree_withinD(2)[OF within]
  obtain path e where pe: "pe = (path, e)" by force
  let ?q = "split_on slash path"
  let ?P = "\<lambda>q. q \<in> split_on slash ` fst ` set local"
  have q: "m ?q = Some e" "join_path ?q = path" using Cons.prems(1) pe by (simp_all add: join_split)
  have mem: "?q \<in> all_paths m" "?q \<noteq> []" using q by (auto simp: all_paths_def)
  have fresh: "\<not> (p = ?q \<and> ?P p)" for p using Cons.prems(2) pe by (force simp: split_inject)
  have count: "count_record (we_limits env) w = Inr (w\<lparr>wk_records := wk_records w + 1\<rparr>)"
    using record_step[OF Cons.prems(3) mem _ fin] pe by simp
  obtain w1 where w1: "emit_path env path e (w\<lparr>wk_records := wk_records w + 1\<rparr>) = Inr w1"
    "walked m B (\<lambda>p. p = ?q) (\<lambda>_. False) w w1"
    using emit_step[OF within Cons.prems(3) _ q(1)] pe q(2) by auto
  have "room (we_limits env) m B ?P (\<lambda>_. False) w1"
    using fresh pe by (intro room_after[OF fin w1(2) Cons.prems(3)]) auto
  then obtain w2 where w2: "emit_local env local w1 = Inr w2" "walked m B ?P (\<lambda>_. False) w1 w2"
    using Cons.IH[of w1] Cons.prems(1,2) by auto
  have "walked m B (\<lambda>p. p = ?q \<or> ?P p) (\<lambda>_. False \<or> False) w w2"
    by (rule walked_trans[OF fin w1(2) w2(2)]) (use fresh in blast)+
  then have "walked m B (\<lambda>q. q \<in> split_on slash ` fst ` set (pe # local)) (\<lambda>_. False) w w2"
    by (rule walked_cong) (auto simp: pe)
  with count w1(1) w2(1) pe show ?case by simp
qed

lemma below_split:
  assumes "valid_path cs" and "valid_path (split_on slash p)"
  shows "prefix (if join_path cs = [] then [] else join_path cs @ [slash]) p \<longleftrightarrow> strict_prefix cs (split_on slash p)"
proof (cases "cs = []")
  case True
  then show ?thesis by (simp add: strict_prefix_def split_on_not_Nil[THEN not_sym])
next
  case False
  have sp: "split_on slash (join_path cs) = cs" using split_join[OF False] valid_no_slash[OF assms(1)] by blast
  have ne: "join_path cs \<noteq> []" using False join_path_Nil_iff[OF assms(1)] by blast
  have "prefix (join_path cs @ [slash]) p \<longleftrightarrow> (\<exists>t. p = join_path cs @ slash # t)" by (auto simp: prefix_def)
  also have "\<dots> \<longleftrightarrow> (\<exists>r. split_on slash p = cs @ r \<and> r \<noteq> [])"
  proof
    assume "\<exists>t. p = join_path cs @ slash # t"
    then show "\<exists>r. split_on slash p = cs @ r \<and> r \<noteq> []" using sp split_on_append by fastforce
  next
    assume "\<exists>r. split_on slash p = cs @ r \<and> r \<noteq> []"
    then obtain r where "split_on slash p = cs @ r" "r \<noteq> []" by blast
    then have "p = join_path cs @ slash # join_path r" using join_split[of p] join_path_append[OF False] by metis
    then show "\<exists>t. p = join_path cs @ slash # t" by blast
  qed
  also have "\<dots> \<longleftrightarrow> strict_prefix cs (split_on slash p)" by (auto simp: strict_prefix_def prefix_def)
  finally show ?thesis using ne by simp
qed

text \<open>A subtree that is stored under one key is the same in both trees.\<close>

lemma stored_same_entries:
  assumes codec: "codec_laws io crypto"
    and model: "nodes_model nodes m (implied m)" "nodes_model nodes' m' (implied m')"
    and st: "stored io crypto epoch objs nodes (join_path cs) k" "stored io crypto epoch objs nodes' (join_path cs') k"
    and v: "valid_path cs" "valid_path cs'" and rel: "valid_path rel" "rel \<noteq> []"
  shows "m (cs @ rel) = m' (cs' @ rel)"
proof -
  define R where "R a b \<longleftrightarrow> valid_path a \<and> valid_path b \<and>
    (\<exists>k. stored io crypto epoch objs nodes (join_path a) k \<and> stored io crypto epoch objs nodes' (join_path b) k)" for a b
  have "valid_path a \<and> valid_path b \<and>
      (\<exists>children. map_of nodes (join_path a) = Some children \<and> map_of nodes' (join_path b) = Some children
        \<and> (\<forall>(name, spec) \<in> set children. needs_hash spec \<longrightarrow> R (a @ [name]) (b @ [name])))" if "R a b" for a b
  proof -
    from that have v: "valid_path a" "valid_path b" by (auto simp: R_def)
    obtain k where "stored io crypto epoch objs nodes (join_path a) k" "stored io crypto epoch objs nodes' (join_path b) k"
      using \<open>R a b\<close> unfolding R_def by blast
    then obtain children keys where c: "map_of nodes (join_path a) = Some children" "map_of nodes' (join_path b) = Some children"
      and down: "\<And>name spec. (name, spec) \<in> set children \<Longrightarrow> needs_hash spec \<Longrightarrow>
        stored io crypto epoch objs nodes (dir_child (join_path a) name) (keys name)
        \<and> stored io crypto epoch objs nodes' (dir_child (join_path b) name) (keys name)"
      using stored_same_key[OF codec nodes_model_closed[OF model(1)] nodes_model_closed[OF model(2)]] by metis
    have ok: "node_ok m (implied m) a children" using nodes_modelD(3)[OF model(1) v(1) c(1)] by blast
    have "R (a @ [name]) (b @ [name])" if "(name, spec) \<in> set children" "needs_hash spec" for name spec
      using down[OF that] nodes_model_child(1)[OF ok that(1)] v by (auto simp: R_def dir_child_join)
    with c v show ?thesis by blast
  qed
  from bisimilar_entries[of _ _ _ _ R, OF model this _ rel] st v show ?thesis unfolding R_def by blast
qed

definition prune_sound :: "('b, 's) walk_env \<Rightarrow> bool" where
  "prune_sound env \<longleftrightarrow> (case we_prune env of None \<Rightarrow> True | Some basis \<Rightarrow>
     bt_ok (pb_entries basis) \<and> proper_paths (pb_entries basis)
     \<and> (\<exists>nodes. decompose (pb_entries basis) = Inr nodes
          \<and> (\<forall>dir hash. map_of (pb_hashes basis) dir = Some hash \<longrightarrow>
               (\<exists>known. pb_ledger basis hash = Inr known \<and>
                  (\<forall>key. known = Some key \<longrightarrow>
                     stored (we_io env) (we_crypto env) (write_epoch (we_crypto env)) (we_objects env) nodes dir key)))))"

lemma prune_ok:
  assumes codec: "codec_laws (we_io env) (we_crypto env)" and sound: "prune_sound env"
    and within: "tree_within (we_limits env) nodes m"
    and st: "stored (we_io env) (we_crypto env) (write_epoch (we_crypto env)) (we_objects env) nodes (join_path cs) key"
    and v: "valid_path cs" and room: "room (we_limits env) m B (strict_prefix cs) N w"
  shows "prune_subtree env (join_path cs) key w = Inr None \<or>
    (\<exists>w'. prune_subtree env (join_path cs) key w = Inr (Some w') \<and> walked m B (strict_prefix cs) (\<lambda>_. False) w w')"
proof (cases "\<exists>basis hash. we_prune env = Some basis \<and> map_of (pb_hashes basis) (join_path cs) = Some hash
    \<and> pb_ledger basis hash = Inr (Some key)")
  case False
  with sound show ?thesis
    by (force simp: prune_subtree_def prune_sound_def split: option.splits sum.splits)
next
  case True
  note fin = tree_withinD(2)[OF within]
  from True obtain basis hash where p: "we_prune env = Some basis" "map_of (pb_hashes basis) (join_path cs) = Some hash"
    "pb_ledger basis hash = Inr (Some key)" by blast
  let ?l = "descendants (pb_entries basis) (join_path cs)"
  obtain nodes' where b: "bt_ok (pb_entries basis)" "proper_paths (pb_entries basis)" "decompose (pb_entries basis) = Inr nodes'"
    and st': "stored (we_io env) (we_crypto env) (write_epoch (we_crypto env)) (we_objects env) nodes' (join_path cs) key"
    using sound p unfolding prune_sound_def by fastforce
  note model' = decompose_nodes_model[OF b]
  have same: "m q = flat_of (pb_entries basis) q" if "strict_prefix cs q" "valid_path q" for q
  proof -
    obtain rel where "q = cs @ rel" "rel \<noteq> []"
      using \<open>strict_prefix cs q\<close> by (auto simp: strict_prefix_def prefix_def)
    with stored_same_entries[OF codec tree_withinD(1)[OF within] model' st st' v v, of rel] that(2)
    show ?thesis by simp
  qed
  have local: "(path, e) \<in> set ?l \<longleftrightarrow> map_of (pb_entries basis) path = Some e \<and> strict_prefix cs (split_on slash path)" for path e
  proof -
    have "valid_path (split_on slash path)" if "(path, e) \<in> set (pb_entries basis)"
      using b(2) that by (auto simp: proper_paths_def intro!: split_valid)
    then show ?thesis
      unfolding descendants_filter[OF b(1)] using below_split[OF v] bt_set_iff[OF b(1)] by auto
  qed
  have at: "m (split_on slash path) = Some e \<and> strict_prefix cs (split_on slash path)" if "(path, e) \<in> set ?l" for path e
  proof -
    have "flat_of (pb_entries basis) (split_on slash path) = Some e" "strict_prefix cs (split_on slash path)"
      using that local flat_of_split[OF b(1,2)] by auto
    then show ?thesis using same by (auto simp: flat_of_def split: if_splits)
  qed
  have "distinct (map fst ?l)"
    unfolding descendants_filter[OF b(1)] using bt_ok_distinct[OF b(1)] by (simp add: distinct_map_filter)
  moreover have "room (we_limits env) m B (\<lambda>q. q \<in> split_on slash ` fst ` set ?l) (\<lambda>_. False) w"
    using at by (intro room_subset[OF fin room]) auto
  ultimately obtain w' where w': "emit_local env ?l w = Inr w'"
    "walked m B (\<lambda>q. q \<in> split_on slash ` fst ` set ?l) (\<lambda>_. False) w w'"
    using emit_local_ok[OF within, of ?l B w] at by blast
  have "walked m B (strict_prefix cs) (\<lambda>_. False) w w'"
  proof (rule walked_weaken[OF fin w'(2)])
    fix q assume q: "m q \<noteq> None" "strict_prefix cs q"
    then obtain e where e: "m q = Some e" "entry_within (we_limits env) q e" using tree_withinD(3)[OF within] by blast
    then have "flat_of (pb_entries basis) q = Some e" using same[OF q(2)] by (simp add: entry_within_def)
    moreover have "split_on slash (join_path q) = q"
      using all_paths_within(4)[OF within, of q] e by (auto simp: all_paths_def entry_within_def)
    ultimately have "(join_path q, e) \<in> set ?l" using local q(2) by (auto simp: flat_of_def split: if_splits)
    then show "q \<in> split_on slash ` fst ` set ?l" using \<open>split_on slash (join_path q) = q\<close> by force
  qed (use at in auto)
  with w'(1) p show ?thesis by (auto simp: prune_subtree_def)
qed

section \<open>Walking a stored tree\<close>

lemma below_implied:
  assumes "p \<in> all_paths m" and "strict_prefix q p" and "q \<noteq> []"
  shows "q \<in> implied m"
proof -
  obtain r where "r \<in> dom m" "prefix p r"
    using assms(1,2) by (auto simp: all_paths_def implied_def strict_prefix_def)
  then have "strict_prefix q r" using assms(2) by (meson prefix_order.less_le_trans)
  with assms(3) \<open>r \<in> dom m\<close> show ?thesis by (auto simp: implied_def)
qed

text \<open>The paths strictly below a directory are those at or below one of its children.\<close>

lemma children_cover:
  assumes ok: "node_ok m (implied m) cs children" and q: "q \<in> all_paths m" "valid_path q"
  shows "(\<exists>n \<in> fst ` set children. prefix (cs @ [n]) q) \<longleftrightarrow> strict_prefix cs q"
proof
  show "strict_prefix cs q" if "\<exists>n \<in> fst ` set children. prefix (cs @ [n]) q"
    using that by (auto simp: strict_prefix_def prefix_def)
  assume "strict_prefix cs q"
  then obtain n r where e: "q = (cs @ [n]) @ r"
    by (auto simp: strict_prefix_def prefix_def) (metis append_Cons append_Nil neq_Nil_conv)
  have "path_component n" using q(2) e by simp
  moreover have "child_at m (implied m) (cs @ [n]) \<noteq> None"
  proof (cases "r = []")
    case True
    with q(1) e show ?thesis by (auto simp: child_at_None all_paths_def)
  next
    case False
    then show ?thesis
      using below_implied[OF q(1), of "cs @ [n]"] e by (auto simp: child_at_None strict_prefix_def)
  qed
  ultimately have "map_of children n \<noteq> None" using ok by (simp add: node_ok_def)
  then show "\<exists>n \<in> fst ` set children. prefix (cs @ [n]) q" using e by (metis map_of_eq_None_iff prefixI)
qed

text \<open>What a child of a directory adds, if walking down a directory adds what lies below it.\<close>

lemma child_ok:
  assumes within: "tree_within (we_limits env) nodes m"
    and at: "child_at m (implied m) q = Some spec" and q: "q \<noteq> []"
    and room: "room (we_limits env) m B (prefix q) (prefix q) w"
    and down: "needs_hash spec \<Longrightarrow>
      (\<And>w. room (we_limits env) m B (strict_prefix q) (prefix q) w \<Longrightarrow>
        \<exists>w'. down (join_path q) key w = Inr w' \<and> walked m B (strict_prefix q) (prefix q) w w')"
  shows "\<exists>w'. walk_payload env down (join_path q) (payload_of spec key) (w\<lparr>wk_records := wk_records w + 1\<rparr>) = Inr w'
    \<and> walked m B (prefix q) (prefix q) w w'"
proof -
  note fin = tree_withinD(2)[OF within]
  have own: "walked m B (prefix q) (prefix q) w w'"
    if "walked m B (\<lambda>p. p = q) (\<lambda>_. False) w w'" "q \<notin> implied m" for w'
  proof (rule walked_weaken[OF fin that(1)])
    show "p = q" if "m p \<noteq> None" "prefix q p" for p
      using that \<open>q \<notin> implied m\<close> below_implied[of p m q] q by (auto simp: all_paths_def strict_prefix_def)
  qed auto
  have further: "\<exists>w'. down (join_path q) key w1 = Inr w' \<and> walked m B (prefix q) (prefix q) w w'"
    if w1: "walked m B (\<lambda>p. p = q) (\<lambda>_. False) w w1" and "needs_hash spec" for w1
  proof -
    have "room (we_limits env) m B (strict_prefix q) (prefix q) w1"
      by (rule room_after[OF fin w1 room]) (auto simp: strict_prefix_def)
    from down[OF \<open>needs_hash spec\<close> this] obtain w' where w': "down (join_path q) key w1 = Inr w'"
      "walked m B (strict_prefix q) (prefix q) w1 w'" by blast
    have "walked m B (\<lambda>p. p = q \<or> strict_prefix q p) (\<lambda>p. False \<or> prefix q p) w w'"
      by (rule walked_trans[OF fin w1 w'(2)]) (auto simp: strict_prefix_def)
    then have "walked m B (prefix q) (prefix q) w w'"
      by (rule walked_cong) (auto simp: strict_prefix_def)
    with w'(1) show ?thesis by blast
  qed
  show ?thesis
  proof (cases "m q")
    case None
    with at have s: "spec = Child_Subtree" "q \<in> all_paths m" by (auto simp: child_at_def all_paths_def split: if_splits)
    note st = structural_step[OF within None s(2) q]
    from further[OF st(2)] s(1) st(1) show ?thesis by (auto simp: walk_payload_def needs_hash_def)
  next
    case (Some e)
    then have spec: "spec = spec_of_entry e" using at by (simp add: child_at_def)
    obtain w1 where w1: "emit_path env (join_path q) e (w\<lparr>wk_records := wk_records w + 1\<rparr>) = Inr w1"
      "walked m B (\<lambda>p. p = q) (\<lambda>_. False) w w1"
      using emit_step[OF within room _ Some] by auto
    have leaf: "q \<notin> implied m" if "is_leaf e"
      using nodes_modelD(2)[OF tree_withinD(1)[OF within]] Some that by (auto simp: leaf_at_def)
    show ?thesis
    proof (cases e)
      case (Directory mode)
      with further[OF w1(2)] w1(1) spec show ?thesis by (auto simp: walk_payload_def needs_hash_def)
    qed (use own[OF w1(2)] w1(1) spec leaf in \<open>auto simp: walk_payload_def\<close>)
  qed
qed

lemma walk_entries_ok:
  assumes within: "tree_within (we_limits env) nodes m"
    and "\<forall>(name, spec) \<in> set children. path_component name \<and> child_at m (implied m) (cs @ [name]) = Some spec"
    and "distinct (map fst children)" and v: "valid_path cs"
    and "room (we_limits env) m B (\<lambda>q. \<exists>n \<in> fst ` set children. prefix (cs @ [n]) q)
      (\<lambda>q. \<exists>n \<in> fst ` set children. prefix (cs @ [n]) q) w"
    and down: "\<And>name spec w. (name, spec) \<in> set children \<Longrightarrow> needs_hash spec \<Longrightarrow>
      room (we_limits env) m B (strict_prefix (cs @ [name])) (prefix (cs @ [name])) w \<Longrightarrow>
      \<exists>w'. down (join_path (cs @ [name])) (keys name) w = Inr w' \<and>
        walked m B (strict_prefix (cs @ [name])) (prefix (cs @ [name])) w w'"
  shows "\<exists>w'. walk_entries env down (join_path cs) (entries_with keys children) w = Inr w' \<and>
    walked m B (\<lambda>q. \<exists>n \<in> fst ` set children. prefix (cs @ [n]) q)
      (\<lambda>q. \<exists>n \<in> fst ` set children. prefix (cs @ [n]) q) w w'"
  using assms(2,3,5,6)
proof (induction children arbitrary: w)
  case Nil
  then show ?case by (simp add: entries_with_def walked_refl)
next
  case (Cons c children)
  note fin = tree_withinD(2)[OF within]
  obtain name spec where c: "c = (name, spec)" by force
  let ?q = "cs @ [name]"
  let ?P = "\<lambda>q. \<exists>n \<in> fst ` set children. prefix (cs @ [n]) q"
  have at: "child_at m (implied m) ?q = Some spec" using Cons.prems(1) c by simp
  then have mem: "?q \<in> all_paths m" by (auto simp: child_at_def all_paths_def split: option.splits if_splits)
  have fresh: "\<not> (prefix ?q p \<and> ?P p)" for p
  proof
    assume "prefix ?q p \<and> ?P p"
    then obtain n where n: "n \<in> fst ` set children" "prefix ?q p" "prefix (cs @ [n]) p" by blast
    then have "n = name" by (auto simp: prefix_def)
    with n(1) Cons.prems(2) c show False by auto
  qed
  have count: "count_record (we_limits env) w = Inr (w\<lparr>wk_records := wk_records w + 1\<rparr>)"
    using record_step[OF Cons.prems(3) mem _ _ fin] c by simp
  have "room (we_limits env) m B (prefix ?q) (prefix ?q) w"
    using c by (intro room_subset[OF fin Cons.prems(3)]) auto
  then obtain w1 where w1: "walk_payload env down (join_path ?q) (payload_of spec (keys name))
        (w\<lparr>wk_records := wk_records w + 1\<rparr>) = Inr w1" "walked m B (prefix ?q) (prefix ?q) w w1"
    using child_ok[OF within at, of B w down "keys name"] Cons.prems(4)[of name spec] c by auto
  have room1: "room (we_limits env) m B ?P ?P w1"
    using fresh c by (intro room_after[OF fin w1(2) Cons.prems(3)]) auto
  have "\<exists>w2. walk_entries env down (join_path cs) (entries_with keys children) w1 = Inr w2 \<and> walked m B ?P ?P w1 w2"
  proof (rule Cons.IH[OF _ _ room1])
    fix n sp w
    assume "(n, sp) \<in> set children" and "needs_hash sp"
      and "room (we_limits env) m B (strict_prefix (cs @ [n])) (prefix (cs @ [n])) w"
    then show "\<exists>w'. down (join_path (cs @ [n])) (keys n) w = Inr w' \<and>
        walked m B (strict_prefix (cs @ [n])) (prefix (cs @ [n])) w w'"
      by (intro Cons.prems(4)[OF list.set_intros(2)])
  qed (use Cons.prems(1,2) in simp_all)
  then obtain w2 where w2: "walk_entries env down (join_path cs) (entries_with keys children) w1 = Inr w2"
    "walked m B ?P ?P w1 w2" by blast
  have "walked m B (\<lambda>p. prefix ?q p \<or> ?P p) (\<lambda>p. prefix ?q p \<or> ?P p) w w2"
    by (rule walked_trans[OF fin w1(2) w2(2)]) (use fresh in blast)+
  then have "walked m B (\<lambda>q. \<exists>n \<in> fst ` set (c # children). prefix (cs @ [n]) q)
      (\<lambda>q. \<exists>n \<in> fst ` set (c # children). prefix (cs @ [n]) q) w w2"
    by (rule walked_cong) (auto simp: c)
  with count w1(1) w2(1) c show ?case
    by (simp add: entries_with_def dir_child_join[OF v] Let_def)
qed

lemma room_node_keys [simp]: "room limits m B P N (w\<lparr>wk_node_keys := ks\<rparr>) = room limits m B P N w"
  by (simp add: room_def)

lemma walked_node_keys [simp]: "walked m B P N (w\<lparr>wk_node_keys := ks\<rparr>) w' = walked m B P N w w'"
  by (simp add: walked_def)

lemma descend_ok:
  assumes codec: "codec_laws (we_io env) (we_crypto env)" and fit: "objects_fit env B" and sound: "prune_sound env"
    and within: "tree_within (we_limits env) nodes m"
    and depth: "\<And>cs. is_dir m (implied m) cs \<Longrightarrow> length cs < D"
  shows "stored (we_io env) (we_crypto env) (write_epoch (we_crypto env)) (we_objects env) nodes (join_path cs) key \<Longrightarrow>
    valid_path cs \<Longrightarrow> is_dir m (implied m) cs \<Longrightarrow> length cs + levels = D \<Longrightarrow>
    room (we_limits env) m B (strict_prefix cs) (prefix cs) w \<Longrightarrow>
    \<exists>w'. descend env levels (join_path cs) key w = Inr w' \<and> walked m B (strict_prefix cs) (prefix cs) w w'"
proof (induction levels arbitrary: cs key w)
  case 0
  with depth[of cs] show ?case by simp
next
  case (Suc levels)
  note fin = tree_withinD(2)[OF within] and model = tree_withinD(1)[OF within]
  let ?w = "w\<lparr>wk_node_keys := bt_insert (join_path cs) key (wk_node_keys w)\<rparr>"
  have room: "room (we_limits env) m B (strict_prefix cs) (prefix cs) ?w" using Suc.prems(5) by simp
  from prune_ok[OF codec sound within Suc.prems(1,2) room] show ?case
  proof
    assume "\<exists>w'. prune_subtree env (join_path cs) key ?w = Inr (Some w') \<and> walked m B (strict_prefix cs) (\<lambda>_. False) ?w w'"
    then obtain w' where w': "prune_subtree env (join_path cs) key ?w = Inr (Some w')"
      "walked m B (strict_prefix cs) (\<lambda>_. False) w w'" by auto
    from walked_weaken[OF fin w'(2), of "strict_prefix cs" "prefix cs"] w'(1) show ?thesis by (auto simp: Let_def)
  next
    assume no_prune: "prune_subtree env (join_path cs) key ?w = Inr None"
    obtain children keys where c: "map_of nodes (join_path cs) = Some children"
      and below: "\<forall>(name, spec) \<in> set children. needs_hash spec \<longrightarrow> stored (we_io env) (we_crypto env)
        (write_epoch (we_crypto env)) (we_objects env) nodes (dir_child (join_path cs) name) (keys name)"
      and node: "node_at (we_io env) (we_crypto env) (we_objects env) key
        (TreeNode_new (write_epoch (we_crypto env)) (entries_with keys children))"
      by (rule storedE[OF Suc.prems(1)])
    have ok: "node_ok m (implied m) cs children" using nodes_modelD(3)[OF model Suc.prems(2) c] by blast
    let ?P = "\<lambda>q. \<exists>n \<in> fst ` set children. prefix (cs @ [n]) q"
    have P: "?P q \<longleftrightarrow> strict_prefix cs q" if "q \<in> all_paths m" for q
      using children_cover[OF ok that] all_paths_within(1)[OF within that] by (cases "q = []") auto
    obtain w1 where w1: "open_node env key ?w = Inr (TreeNode_new (write_epoch (we_crypto env)) (entries_with keys children), w1)"
      "walked m B (\<lambda>_. False) (\<lambda>q. q = cs) ?w w1"
      using open_stored_node[OF codec fit within node c Suc.prems(2) room] by auto
    have room1: "room (we_limits env) m B ?P ?P w1"
      using P by (intro room_after[OF fin w1(2) room]) (auto simp: strict_prefix_def)
    have "\<exists>w'. walk_entries env (descend env levels) (join_path cs) (entries_with keys children) w1 = Inr w' \<and>
        walked m B ?P ?P w1 w'"
    proof (rule walk_entries_ok[OF within _ _ Suc.prems(2) room1])
      show "\<forall>(name, spec) \<in> set children. path_component name \<and> child_at m (implied m) (cs @ [name]) = Some spec"
        using nodes_model_child[OF ok] by blast
      show "distinct (map fst children)" using ok by (simp add: node_ok_def bt_ok_distinct)
      fix name spec w
      assume child: "(name, spec) \<in> set children" "needs_hash spec"
        and room: "room (we_limits env) m B (strict_prefix (cs @ [name])) (prefix (cs @ [name])) w"
      note at = nodes_model_child[OF ok child(1)]
      show "\<exists>w'. descend env levels (join_path (cs @ [name])) (keys name) w = Inr w' \<and>
          walked m B (strict_prefix (cs @ [name])) (prefix (cs @ [name])) w w'"
      proof (rule Suc.IH[OF _ _ _ _ room])
        show "stored (we_io env) (we_crypto env) (write_epoch (we_crypto env)) (we_objects env) nodes
            (join_path (cs @ [name])) (keys name)"
          using below child dir_child_join[OF Suc.prems(2), of name] by fastforce
      qed (use at child_at_proper(2)[OF at(2) child(2)] Suc.prems(2,4) in simp_all)
    qed
    then obtain w2 where w2: "walk_entries env (descend env levels) (join_path cs) (entries_with keys children) w1 = Inr w2"
      "walked m B ?P ?P w1 w2" by blast
    have "walked m B (\<lambda>q. False \<or> ?P q) (\<lambda>q. q = cs \<or> ?P q) ?w w2"
      by (rule walked_trans[OF fin w1(2) w2(2)]) (auto simp: prefix_def)
    then have "walked m B (strict_prefix cs) (prefix cs) w w2"
      using walked_cong[of m B "\<lambda>q. False \<or> ?P q" "\<lambda>q. q = cs \<or> ?P q" w w2 "strict_prefix cs" "prefix cs"] P
      by (auto simp: strict_prefix_def)
    with no_prune w1(1) w2(1) show ?thesis by (simp add: Let_def TreeNode_new_def)
  qed
qed

end
