(* ===== verification/Tree_Round_Trip.thy ===== *)
theory Tree_Round_Trip
  imports Tree_Fetching
begin

text \<open>
  Publishing and fetching together: limits stated over the manifest and its nodes, the
  round trip through the object store, and what the ledger promises from one publish to
  the next.
\<close>

section \<open>What a tree costs\<close>

lemma node_of_path:
  assumes model: "nodes_model nodes m (implied m)" and within: "tree_within limits nodes m"
    and q: "q \<in> all_paths m" "q \<noteq> []"
  obtains cs n children where "q = cs @ [n]" "valid_path cs" "map_of nodes (join_path cs) = Some children"
    "n \<in> fst ` set children"
proof -
  obtain cs n where e: "q = cs @ [n]" using q(2) by (metis rev_exhaust)
  have v: "valid_path cs" "path_component n" using all_paths_within(1)[OF within q] e by simp_all
  have "is_dir m (implied m) cs"
    using below_implied[OF q(1), of cs] e by (auto simp: is_dir_def strict_prefix_def)
  then obtain children where c: "map_of nodes (join_path cs) = Some children" using nodes_modelD(4)[OF model v(1)] by blast
  then have "map_of children n = child_at m (implied m) q"
    using nodes_modelD(3)[OF model v(1) c] v(2) e by (simp add: node_ok_def)
  moreover have "child_at m (implied m) q \<noteq> None" using q by (auto simp: child_at_None all_paths_def)
  ultimately have "n \<in> fst ` set children" by (metis map_of_eq_None_iff)
  with e v c that show ?thesis by blast
qed

lemma path_sum_records:
  assumes within: "tree_within limits nodes m"
  shows "path_sum m (record_cost m) P \<le> sum_list (map (length \<circ> snd) nodes)"
proof -
  note model = tree_withinD(1)[OF within] and fin = tree_withinD(2)[OF within]
  let ?paths = "\<lambda>(dir, children). (\<lambda>(n, _). (dir, n)) ` set (children :: (string \<times> ChildSpec) list)"
  define key :: "string list \<Rightarrow> string \<times> string" where "key q = (join_path (butlast q), last q)" for q
  have finq: "finite {q \<in> all_paths m. P q}" using fin finite_implied by (simp add: all_paths_def)
  have "path_sum m (record_cost m) P = card {q \<in> all_paths m. P q \<and> q \<noteq> []}"
    using finq by (simp add: path_sum_def record_cost_def sum.If_cases card_eq_sum[symmetric]) (rule arg_cong[of _ _ card], blast)
  also have "\<dots> \<le> card (\<Union>(?paths ` set nodes))"
  proof (rule card_inj_on_le)
    show "inj_on key {q \<in> all_paths m. P q \<and> q \<noteq> []}"
    proof (rule inj_onI, clarify)
      fix x y assume x: "x \<in> all_paths m" "x \<noteq> []" and y: "y \<in> all_paths m" "y \<noteq> []" and e: "key x = key y"
      have "valid_path (butlast x)" "valid_path (butlast y)"
        using all_paths_within(1)[OF within x] all_paths_within(1)[OF within y] by (auto simp: list_all_iff dest: in_set_butlastD)
      then have "butlast x = butlast y" "last x = last y" using e join_path_inject by (auto simp: key_def)
      with x(2) y(2) show "x = y" by (metis append_butlast_last_id)
    qed
    show "key ` {q \<in> all_paths m. P q \<and> q \<noteq> []} \<subseteq> \<Union>(?paths ` set nodes)"
    proof
      fix k assume "k \<in> key ` {q \<in> all_paths m. P q \<and> q \<noteq> []}"
      then obtain q where q: "q \<in> all_paths m" "q \<noteq> []" "k = key q" by blast
      obtain cs n children where "q = cs @ [n]" "map_of nodes (join_path cs) = Some children" "n \<in> fst ` set children"
        using node_of_path[OF model within q(1,2)] by metis
      then show "k \<in> \<Union>(?paths ` set nodes)" using q(3) map_of_SomeD by (force simp: key_def)
    qed
  qed auto
  also have "\<dots> \<le> (\<Sum>node \<in> set nodes. card (?paths node))" by (intro card_UN_le) simp
  also have "\<dots> \<le> (\<Sum>node \<in> set nodes. (length \<circ> snd) node)"
    by (intro sum_mono) (auto intro!: order_trans[OF card_image_le card_length])
  also have "\<dots> = sum_list (map (length \<circ> snd) nodes)"
    using bt_ok_distinct[OF nodes_modelD(1)[OF model]] by (simp add: sum_list_distinct_conv_sum_set distinct_map)
  finally show ?thesis .
qed

lemma path_sum_nodes:
  assumes within: "tree_within limits nodes m"
  shows "path_sum m (node_cost m B) P \<le> B * length nodes"
proof -
  note model = tree_withinD(1)[OF within] and fin = tree_withinD(2)[OF within]
  let ?dirs = "{q \<in> all_paths m. P q \<and> is_dir m (implied m) q}"
  have fa: "finite (all_paths m)" using fin finite_implied by (simp add: all_paths_def)
  have v: "valid_path q" if "q \<in> all_paths m" for q
    using all_paths_within(1)[OF within that] by (cases "q = []") simp_all
  have "path_sum m (node_cost m B) P = (\<Sum>q \<in> ?dirs. B)"
    unfolding path_sum_def using fa
    by (intro sum.mono_neutral_cong_right) (auto simp: node_cost_def)
  also have "\<dots> = card ?dirs * B" by simp
  also have "card ?dirs \<le> card (set (map fst nodes))"
  proof (rule card_inj_on_le)
    show "inj_on join_path ?dirs" using v join_path_inject by (auto intro!: inj_onI)
    show "join_path ` ?dirs \<subseteq> set (map fst nodes)"
      using nodes_modelD(4)[OF model] v by (force dest: map_of_SomeD)
  qed simp
  also have "card (set (map fst nodes)) \<le> length nodes" using card_length[of "map fst nodes"] by simp
  finally show ?thesis by (simp add: mult.commute)
qed

lemma dom_flat_of: "dom (flat_of entries) \<subseteq> split_on slash ` fst ` set entries"
proof
  fix q assume "q \<in> dom (flat_of entries)"
  then have q: "q \<noteq> []" "valid_path q" "map_of entries (join_path q) \<noteq> None"
    by (auto simp: flat_of_def split: if_splits)
  then have "join_path q \<in> fst ` set entries" by (metis map_of_eq_None_iff)
  moreover have "split_on slash (join_path q) = q" using split_join q(1) valid_no_slash[OF q(2)] by blast
  ultimately show "q \<in> split_on slash ` fst ` set entries" by force
qed

lemma finite_flat_of: "finite (dom (flat_of entries))"
  by (rule finite_subset[OF dom_flat_of]) simp

lemma path_sum_declared:
  assumes ok: "bt_ok entries" "proper_paths entries"
  shows "path_sum (flat_of entries) (declared_cost (flat_of entries)) P \<le> declared_total entries"
proof -
  let ?m = "flat_of entries"
  note dom = dom_flat_of[of entries] and fin = finite_flat_of[of entries]
  have "path_sum ?m (declared_cost ?m) P \<le> (\<Sum>q \<in> all_paths ?m. declared_cost ?m q)"
    unfolding path_sum_def using fin finite_implied by (intro sum_mono2) (auto simp: all_paths_def)
  also have "\<dots> = (\<Sum>q \<in> dom ?m. declared_cost ?m q)"
    using fin finite_implied
    by (intro sum.mono_neutral_right) (auto simp: all_paths_def declared_cost_def domIff split: option.split)
  also have "\<dots> \<le> (\<Sum>q \<in> split_on slash ` fst ` set entries. declared_cost ?m q)"
    using dom by (intro sum_mono2) auto
  also have "\<dots> = (\<Sum>p \<in> fst ` set entries. declared_cost ?m (split_on slash p))"
    by (intro sum.reindex_cong[of "split_on slash"]) (auto intro!: inj_onI simp: split_inject)
  also have "\<dots> = (\<Sum>pe \<in> set entries. declared_cost ?m (split_on slash (fst pe)))"
    using bt_ok_distinct[OF ok(1)] by (intro sum.reindex_cong[of fst]) (auto simp: distinct_map)
  also have "\<dots> = (\<Sum>pe \<in> set entries. (declared \<circ> snd) pe)"
    using ok bt_set_iff[OF ok(1)] by (intro sum.cong) (auto simp: declared_cost_def flat_of_split)
  also have "\<dots> = declared_total entries"
    using bt_ok_distinct[OF ok(1)] by (simp add: declared_total_def sum_list_distinct_conv_sum_set distinct_map)
  finally show ?thesis .
qed

section \<open>Limits over a manifest and its nodes\<close>

text \<open>
  The tree is within the limits if every entry is, no directory has too many children, the
  children of all directories are within the record limit, the declared sizes and the sizes
  of the nodes, each of at most \<open>B\<close> bytes, within the aggregate limits, and the depth
  limit is not below the depth of a publishable path.
\<close>

definition limits_suffice ::
  "DecodeLimits \<Rightarrow> nat \<Rightarrow> (WorkspacePath, ManifestEntry) btree_map \<Rightarrow> dir_nodes \<Rightarrow> bool" where
  "limits_suffice limits B entries nodes \<longleftrightarrow>
     list_all (\<lambda>(path, e). entry_within limits (split_on slash path) e) entries
     \<and> list_all (\<lambda>(dir, children). length children \<le> max_node_entries limits) nodes
     \<and> sum_list (map (length \<circ> snd) nodes) \<le> max_records limits
     \<and> declared_total entries \<le> min u64_MAX (max_aggregate_declared_bytes limits)
     \<and> B * length nodes \<le> max_aggregate_decoded_bytes limits
     \<and> MAX_WORKSPACE_PATH_DEPTH \<le> max_depth limits"

lemma limits_within:
  assumes "bt_ok entries" "proper_paths entries" "decompose entries = Inr nodes" "limits_suffice limits B entries nodes"
  shows "tree_within limits nodes (flat_of entries)"
  unfolding tree_within_def
proof (intro conjI allI impI)
  show "nodes_model nodes (flat_of entries) (implied (flat_of entries))" using decompose_nodes_model[OF assms(1-3)] .
  show "finite (dom (flat_of entries))" by (rule finite_flat_of)
  show "\<forall>(dir, children) \<in> set nodes. length children \<le> max_node_entries limits"
    using assms(4) by (simp add: limits_suffice_def list_all_iff)
  fix q e assume "flat_of entries q = Some e"
  then have q: "q \<noteq> []" "valid_path q" "map_of entries (join_path q) = Some e" by (auto simp: flat_of_def split: if_splits)
  then have "entry_within limits (split_on slash (join_path q)) e"
    using assms(4) map_of_SomeD[OF q(3)] by (auto simp: limits_suffice_def list_all_iff)
  moreover have "split_on slash (join_path q) = q" using split_join q(1) valid_no_slash[OF q(2)] by blast
  ultimately show "entry_within limits q e" by simp
qed

lemma dirs_shallow:
  assumes "tree_within limits nodes m" and "is_dir m (implied m) cs"
  shows "length cs \<le> MAX_WORKSPACE_PATH_DEPTH"
  using all_paths_within(5)[OF assms(1), of cs] assms(2) by (cases "cs = []") (auto simp: is_dir_def all_paths_def)

text \<open>A stored tree is fetched exactly.\<close>

lemma fetch_stored:
  assumes codec: "codec_laws (we_io env) (we_crypto env)" and fit: "objects_fit env B" and sound: "prune_sound env"
    and wf: "bt_ok entries" "proper_paths entries" "decompose entries = Inr nodes"
    and limits: "limits_suffice (we_limits env) B entries nodes"
    and st: "stored (we_io env) (we_crypto env) (write_epoch (we_crypto env)) (we_objects env) nodes dir_root root"
  shows "\<exists>tree. fetch_tree env root = Inr tree
    \<and> ft_manifest tree = \<lparr>mf_key_epoch = write_epoch (we_crypto env), mf_entries = entries\<rparr>"
proof -
  let ?m = "flat_of entries"
  note within = limits_within[OF wf limits]
  let ?D = "Suc (max_depth (we_limits env))"
  have depth: "length cs < ?D" if "is_dir ?m (implied ?m) cs" for cs
    using dirs_shallow[OF within that] limits by (simp add: limits_suffice_def)
  have "room (we_limits env) ?m B (strict_prefix []) (prefix []) new_walk"
    using path_sum_records[OF within, of "strict_prefix []"] path_sum_nodes[OF within, of B "prefix []"]
      path_sum_declared[OF wf(1,2), of "strict_prefix []"] limits
    unfolding room_def limits_suffice_def new_walk_def by simp
  then have "\<exists>w. descend env ?D (join_path []) root new_walk = Inr w \<and> walked ?m B (strict_prefix []) (prefix []) new_walk w"
    using st by (intro descend_ok[OF codec fit sound within depth]) (simp_all add: dir_root_def is_dir_def)
  then obtain w where w: "descend env ?D dir_root root new_walk = Inr w" "walked ?m B (strict_prefix []) (prefix []) new_walk w"
    by (auto simp: dir_root_def simp del: descend.simps)
  have "only ?m (strict_prefix []) p = map_of entries p" for p
    using flat_of_split[OF wf(1,2)] by (auto simp: only_def strict_prefix_def split_on_not_Nil[THEN not_sym])
  then have "wk_entries w = entries"
    using w(2) wf(1) by (intro bt_ext) (auto simp: walked_def new_walk_def fun_eq_iff)
  with w(1) show ?thesis by (auto simp: fetch_tree_def simp del: descend.simps)
qed

text \<open>Publishing goes through when nothing below it fails.\<close>

lemma publish_tree_total:
  assumes wf: "manifest_ok snapshot" "decompose (mf_entries snapshot) = Inr nodes"
      "limits_suffice limits B (mf_entries snapshot) nodes"
    and io: "io_total io crypto" and known: "\<And>h e. known l h \<noteq> Inl e" and put: "\<And>batch e. put batch \<noteq> Inl e"
  shows "\<exists>root objs l'. publish_tree io blake3 crypto known rec put snapshot l = Inr (root, objs, l')"
proof -
  let ?m = "flat_of (mf_entries snapshot)"
  have ok: "bt_ok (mf_entries snapshot)" "proper_paths (mf_entries snapshot)"
    using wf(1) by (simp_all add: manifest_ok_def)
  note within = limits_within[OF ok wf(2,3)] and model = decompose_nodes_model[OF ok wf(2)]
  from subtree_hashes_ok[OF nodes_modelD(1)[OF model] nodes_model_closed[OF model], of blake3 "mf_key_epoch snapshot"]
  obtain hashes where h: "subtree_hashes blake3 nodes (mf_key_epoch snapshot) = Inr hashes"
    "dom (map_of hashes) = fst ` set nodes" by blast
  let ?np = "\<lparr>np_io = io, np_crypto = crypto, np_key_epoch = mf_key_epoch snapshot, np_tree = nodes,
    np_hashes = hashes, np_known = known l\<rparr>"
  have "\<exists>key st'. publish_dir ?np (Suc MAX_WORKSPACE_PATH_DEPTH) (join_path []) \<lparr>pending_uploads = [], pending_ledger = []\<rparr>
      = Inr (key, st')"
  proof (rule publish_dir_total[where m = ?m and D = "Suc MAX_WORKSPACE_PATH_DEPTH"])
    show "length cs < Suc MAX_WORKSPACE_PATH_DEPTH" if "is_dir ?m (implied ?m) cs" for cs
      using dirs_shallow[OF within that] by simp
  qed (use model h io known in \<open>simp_all add: is_dir_def\<close>)
  then obtain key st' where "publish_dir ?np (Suc MAX_WORKSPACE_PATH_DEPTH) dir_root \<lparr>pending_uploads = [], pending_ledger = []\<rparr>
      = Inr (key, st')" by (auto simp: dir_root_def simp del: publish_dir.simps)
  moreover obtain objs where "put (pending_uploads st') = Inr objs" using put by (metis sum.exhaust)
  ultimately show ?thesis using wf(2) h(1) by (simp add: publish_tree_def del: publish_dir.simps)
qed

lemma prune_sound_ledger:
  assumes basis: "we_prune env = Some \<lparr>pb_entries = entries, pb_hashes = hashes, pb_ledger = known\<rparr>"
    and wf: "bt_ok entries" "proper_paths entries" "decompose entries = Inr nodes"
      "subtree_hashes blake3 nodes (write_epoch (we_crypto env)) = Inr hashes" "tree_fits nodes (map_of hashes)"
      "fits (write_epoch (we_crypto env))"
    and known: "\<And>h e. known h \<noteq> Inl e"
    and l: "ledger_ok (we_io env) (we_crypto env) (write_epoch (we_crypto env)) (we_objects env) Ts known"
      "\<forall>T \<in> Ts. tree_ok blake3 (write_epoch (we_crypto env)) T"
      "collision_free blake3 (write_epoch (we_crypto env)) (insert (nodes, hashes) Ts)"
  shows "prune_sound env"
proof -
  let ?snapshot = "\<lparr>mf_key_epoch = write_epoch (we_crypto env), mf_entries = entries\<rparr>"
  have "tree_ok blake3 (write_epoch (we_crypto env)) (nodes, hashes)"
    using published_tree_ok(1)[of ?snapshot nodes blake3 _ hashes] wf by (simp add: manifest_ok_def)
  note sound = ledger_ok_sound[OF l(1,2) this l(3) wf(6)]
  have "\<exists>row. known hash = Inr row \<and> (\<forall>key. row = Some key \<longrightarrow>
      stored (we_io env) (we_crypto env) (write_epoch (we_crypto env)) (we_objects env) nodes dir key)"
    if "map_of hashes dir = Some hash" for dir hash
    using known[of hash] sound[OF that] by (cases "known hash") auto
  with basis wf(1-3) show ?thesis by (simp add: prune_sound_def)
qed

section \<open>A plain codec\<close>

text \<open>
  An instance of the parameters: nodes are their own serialization and their own envelope,
  keys are made from the entry names, and the store starts empty.
\<close>

definition plain_io :: "(TreeNode, TreeNode) tree_io" where
  "plain_io = \<lparr>to_allocvec = Some, from_bytes = Some, plaintext_len = \<lambda>_. 1,
     seal = \<lambda>_ node. Inr node,
     open_bounded = \<lambda>epoch node limit.
       if epoch \<noteq> 2 then Inl Envelope_Other else if limit < 1 then Inl DecodedSizeExceeded else Inr node,
     sealed_len = \<lambda>_. 1, digest = \<lambda>node. concat (map te_name (tn_entries node)),
     node_content_id = \<lambda>_. ''c''\<rparr>"

definition plain_crypto :: WorkspaceCrypto where
  "plain_crypto = \<lparr>write_epoch = 2, key_epochs = [2, 3]\<rparr>"

definition no_objects :: "TreeNode objects" where
  "no_objects key = Inl ''missing''"

definition plain_put :: "TreeNode manifest_upload list \<Rightarrow> string + TreeNode objects" where
  "plain_put batch =
     (let objs = (\<lambda>key. case map_of (map (\<lambda>u. (up_key u, up_sealed u)) batch) key of
                     Some sealed \<Rightarrow> Inr sealed | None \<Rightarrow> Inl ''missing'')
      in if list_all (\<lambda>u. objs (up_key u) = Inr (up_sealed u)) batch then Inr objs else Inl ''conflict'')"

definition plain_env :: "TreeNode objects \<Rightarrow> prune_basis option \<Rightarrow> (TreeNode, TreeNode) walk_env" where
  "plain_env objs prune = \<lparr>we_io = plain_io, we_crypto = plain_crypto, we_objects = objs,
     we_limits = DecodeLimits_default, we_fold = id, we_prune = prune\<rparr>"

definition plain_snapshot :: Manifest where
  "plain_snapshot = \<lparr>mf_key_epoch = 2, mf_entries = [(''a/x'', Symlink 511 ''y'')]\<rparr>"

definition plain_nodes :: dir_nodes where
  "plain_nodes = [([], [(''a'', Child_Subtree)]), (''a'', [(''x'', Leaf (Symlink 511 ''y''))])]"

definition plain_hashes :: "(DirPath, SubtreeHash) btree_map" where
  "plain_hashes =
     (let leaf = ''st_'' @ write_bytes SUBTREE_DOMAIN @ u64_bytes TREE_FORMAT_VERSION @ u64_bytes 2 @ u64_bytes 1
        @ write_bytes ''x'' @ CHR 0x01 # u64_bytes 511 @ write_bytes ''y''
      in [([], ''st_'' @ write_bytes SUBTREE_DOMAIN @ u64_bytes TREE_FORMAT_VERSION @ u64_bytes 2 @ u64_bytes 1
             @ write_bytes ''a'' @ CHR 0x03 # write_bytes leaf), (''a'', leaf)])"

definition plain_ledger :: StoreNodeLedger where
  "plain_ledger = StoreNodeLedger_new (\<lambda>_ _. Inr None) 2"

lemma plain_laws:
  "codec_laws plain_io plain_crypto" "put_laws no_objects plain_put" "io_total plain_io plain_crypto"
  by (auto simp: codec_laws_def plain_io_def plain_crypto_def put_laws_def plain_put_def no_objects_def Let_def
      list_all_iff io_total_def split: if_splits)

lemma plain_tree:
  "manifest_ok plain_snapshot" "decompose (mf_entries plain_snapshot) = Inr plain_nodes"
  "subtree_hashes id plain_nodes 2 = Inr plain_hashes" "tree_fits plain_nodes (map_of plain_hashes)" "fits 2"
proof -
  show "manifest_ok plain_snapshot" by code_simp
  show "decompose (mf_entries plain_snapshot) = Inr plain_nodes" by code_simp
  show "subtree_hashes id plain_nodes 2 = Inr plain_hashes"
    by (simp add: subtree_hashes_def hash_directory_def directory_bytes_def child_hash_def dir_child_def
        plain_nodes_def plain_hashes_def Let_def)
  show "tree_fits plain_nodes (map_of plain_hashes)"
    by (simp add: tree_fits_def children_fit_def fits_def u64_MAX_def write_bytes_def SUBTREE_DOMAIN_def
        dir_child_def plain_nodes_def plain_hashes_def Let_def)
  show "fits 2" by (simp add: fits_def u64_MAX_def)
qed

lemma plain_limits:
  "limits_suffice DecodeLimits_default 2 (mf_entries plain_snapshot) plain_nodes"
  "objects_fit (plain_env objs prune) 2"
proof -
  have "publishable_workspace_path ''a/x'' 4096 False = Inr ()"
    by (simp add: publishable_iff MAX_WORKSPACE_PATH_DEPTH_def is_private_workspace_state_path_def
        is_recovery_temp_component_def is_recovery_quarantine_component_def is_recovery_nonce_component_def
        strip_prefix_def)
  then have "clears DecodeLimits_default ''a/x''"
    by (simp add: clears_def validate_manifest_path_def DecodeLimits_default_def MAX_WORKSPACE_PATH_LEN_def)
  then show "limits_suffice DecodeLimits_default 2 (mf_entries plain_snapshot) plain_nodes"
    by (simp add: limits_suffice_def entry_within_def plain_snapshot_def plain_nodes_def path_component_def
        DecodeLimits_default_def MAX_NAME_LEN_def MAX_WORKSPACE_PATH_LEN_def declared_def u64_MAX_def)
  show "objects_fit (plain_env objs prune) 2"
    by (simp add: objects_fit_def plain_env_def plain_io_def DecodeLimits_default_def)
qed

lemma plain_ledger_ok:
  "fresh_ok plain_ledger" "ledger_ok plain_io plain_crypto 2 objs {} (StoreNodeLedger_known plain_ledger)"
  "StoreNodeLedger_known plain_ledger h = Inr None"
  by (simp_all add: plain_ledger_def StoreNodeLedger_new_def fresh_ok_def ledger_ok_def StoreNodeLedger_known_def)

lemma plain_publish:
  obtains root objs l where "publish_tree plain_io id plain_crypto StoreNodeLedger_known StoreNodeLedger_record
      plain_put plain_snapshot plain_ledger = Inr (root, objs, l)"
proof -
  have "map_of plain_hashes [] \<noteq> None" "map_of plain_hashes ''a'' \<noteq> None"
    by (simp_all add: plain_hashes_def Let_def)
  then obtain h h' where h: "map_of plain_hashes [] = Some h" "map_of plain_hashes ''a'' = Some h'" by auto
  have nodes: "map_of plain_nodes [] = Some [(''a'', Child_Subtree)]"
    "map_of plain_nodes ''a'' = Some [(''x'', Leaf (Symlink 511 ''y''))]" by (simp_all add: plain_nodes_def)
  obtain d where depth: "MAX_WORKSPACE_PATH_DEPTH = Suc d"
    by (metis MAX_WORKSPACE_PATH_DEPTH_def not0_implies_Suc zero_neq_numeral)
  have hashes: "subtree_hashes id plain_nodes (mf_key_epoch plain_snapshot) = Inr plain_hashes"
    using plain_tree(3) by (simp add: plain_snapshot_def)
  have "\<exists>root objs l. publish_tree plain_io id plain_crypto StoreNodeLedger_known StoreNodeLedger_record
      plain_put plain_snapshot plain_ledger = Inr (root, objs, l)"
    by (simp add: publish_tree_def plain_tree(2) hashes depth h plain_ledger_ok(3) dir_root_def nodes
        dir_child_def seal_node_def to_canonical_bytes_def ok_or_def seal_tree_node_def plain_io_def
        plain_put_def physical_manifest_key_def TreeNode_new_def Let_def)
  with that show ?thesis by blast
qed

section \<open>The properties\<close>

text \<open>C25. Publishing and fetching is a round trip: a manifest that was published through the
  engine's node ledger, from a ledger whose rows stem from trees published before, is fetched
  back from its root key exactly, entry for entry and with the same key epoch, when the tree
  is within the reader's limits. The nodes may be uploaded now or reused from any earlier
  publish by their hash.\<close>

theorem publish_fetch_round_trip:
  assumes "publish_tree io blake3 crypto StoreNodeLedger_known StoreNodeLedger_record put snapshot l
      = Inr (root, objs', l')"
    and "manifest_ok snapshot" "decompose (mf_entries snapshot) = Inr nodes"
      "subtree_hashes blake3 nodes (mf_key_epoch snapshot) = Inr hashes" "tree_fits nodes (map_of hashes)"
      "fits (mf_key_epoch snapshot)" "mf_key_epoch snapshot = write_epoch crypto"
    and "codec_laws io crypto" "put_laws objs put"
    and "fresh_ok l" "ledger_ok io crypto (mf_key_epoch snapshot) objs Ts (StoreNodeLedger_known l)"
      "\<forall>T \<in> Ts. tree_ok blake3 (mf_key_epoch snapshot) T"
      "collision_free blake3 (mf_key_epoch snapshot) (insert (nodes, hashes) Ts)"
    and "we_io env = io" "we_crypto env = crypto" "we_objects env = objs'" "we_prune env = None"
      "objects_fit env B" "limits_suffice (we_limits env) B (mf_entries snapshot) nodes"
  shows "\<exists>tree. fetch_tree env root = Inr tree \<and> ft_manifest tree = snapshot"
proof -
  have st: "stored io crypto (mf_key_epoch snapshot) objs' nodes dir_root root"
    using store_ledger.publish_tree_keeps_ledger(1)[OF assms(1-6,9-13)] .
  have "prune_sound env" using assms(17) by (simp add: prune_sound_def)
  then obtain tree where "fetch_tree env root = Inr tree"
      "ft_manifest tree = \<lparr>mf_key_epoch = write_epoch crypto, mf_entries = mf_entries snapshot\<rparr>"
    using fetch_stored[OF _ assms(18) _ _ _ assms(3,19), of root] st assms(2,7,8,14-16)
    by (auto simp: manifest_ok_def)
  moreover have "\<lparr>mf_key_epoch = write_epoch crypto, mf_entries = mf_entries snapshot\<rparr> = snapshot"
    using assms(7) by (cases snapshot) simp
  ultimately show ?thesis by metis
qed

theorem publish_fetch_round_trip_witness:
  "\<exists>root objs l tree. publish_tree plain_io id plain_crypto StoreNodeLedger_known StoreNodeLedger_record
      plain_put plain_snapshot plain_ledger = Inr (root, objs, l)
    \<and> fetch_tree (plain_env objs None) root = Inr tree \<and> ft_manifest tree = plain_snapshot"
proof -
  have e: "mf_key_epoch plain_snapshot = 2" "write_epoch plain_crypto = 2"
    by (simp_all add: plain_snapshot_def plain_crypto_def)
  obtain root objs l where run: "publish_tree plain_io id plain_crypto StoreNodeLedger_known StoreNodeLedger_record
      plain_put plain_snapshot plain_ledger = Inr (root, objs, l)"
    by (rule plain_publish)
  have "\<exists>tree. fetch_tree (plain_env objs None) root = Inr tree \<and> ft_manifest tree = plain_snapshot"
    by (rule publish_fetch_round_trip[OF run, where B = 2 and nodes = plain_nodes and hashes = plain_hashes
          and objs = no_objects and Ts = "{}"])
      (simp_all add: e plain_laws plain_tree plain_limits plain_ledger_ok collision_free_def plain_env_def
        plain_limits[unfolded plain_env_def])
  with run show ?thesis by blast
qed

text \<open>The node ledger stays sound: if every row of the ledger names an object that holds
  some published tree's directory with that hash, and everything below it, then this is still
  so after a publish, for the ledger and the object store the publish leaves behind; and the
  returned root key names the whole published tree. So a hit on a directory's hash always
  proves that the whole subtree is in the store.\<close>

theorem publish_keeps_ledger_sound:
  assumes "publish_tree io blake3 crypto StoreNodeLedger_known StoreNodeLedger_record put snapshot l
      = Inr (root, objs', l')"
    and "manifest_ok snapshot" "decompose (mf_entries snapshot) = Inr nodes"
      "subtree_hashes blake3 nodes (mf_key_epoch snapshot) = Inr hashes" "tree_fits nodes (map_of hashes)"
      "fits (mf_key_epoch snapshot)"
    and "put_laws objs put"
    and "fresh_ok l" "ledger_ok io crypto (mf_key_epoch snapshot) objs Ts (StoreNodeLedger_known l)"
      "\<forall>T \<in> Ts. tree_ok blake3 (mf_key_epoch snapshot) T"
      "collision_free blake3 (mf_key_epoch snapshot) (insert (nodes, hashes) Ts)"
  shows "stored io crypto (mf_key_epoch snapshot) objs' nodes dir_root root
    \<and> fresh_ok l'
    \<and> ledger_ok io crypto (mf_key_epoch snapshot) objs' (insert (nodes, hashes) Ts) (StoreNodeLedger_known l')
    \<and> (\<forall>T \<in> insert (nodes, hashes) Ts. tree_ok blake3 (mf_key_epoch snapshot) T)"
  using store_ledger.publish_tree_keeps_ledger[OF assms] published_tree_ok(1)[OF assms(2-5)] assms(10) by blast

theorem publish_keeps_ledger_sound_witness:
  "\<exists>root objs l. publish_tree plain_io id plain_crypto StoreNodeLedger_known StoreNodeLedger_record
      plain_put plain_snapshot plain_ledger = Inr (root, objs, l)
    \<and> stored plain_io plain_crypto 2 objs plain_nodes dir_root root \<and> fresh_ok l
    \<and> ledger_ok plain_io plain_crypto 2 objs {(plain_nodes, plain_hashes)} (StoreNodeLedger_known l)"
proof -
  have e: "mf_key_epoch plain_snapshot = 2" by (simp add: plain_snapshot_def)
  obtain root objs l where run: "publish_tree plain_io id plain_crypto StoreNodeLedger_known StoreNodeLedger_record
      plain_put plain_snapshot plain_ledger = Inr (root, objs, l)"
    by (rule plain_publish)
  from publish_keeps_ledger_sound[OF run, of plain_nodes plain_hashes no_objects "{}"]
  have "stored plain_io plain_crypto 2 objs plain_nodes dir_root root \<and> fresh_ok l
    \<and> ledger_ok plain_io plain_crypto 2 objs {(plain_nodes, plain_hashes)} (StoreNodeLedger_known l)"
    by (simp add: e plain_laws plain_tree plain_ledger_ok collision_free_def)
  with run show ?thesis by blast
qed

text \<open>C38. Publishing never fails by itself: when the codec serializes and seals, the ledger can
  be read and the upload goes through, every manifest without a file-and-directory clash whose
  paths are publishable is published. In particular the depth guard and the three internal
  errors of the publisher are never reached.\<close>

theorem publish_succeeds:
  assumes "manifest_ok snapshot" "decompose (mf_entries snapshot) = Inr nodes"
    and "limits_suffice limits B (mf_entries snapshot) nodes"
    and "io_total io crypto" and "\<And>h e. known l h \<noteq> Inl e" and "\<And>batch e. put batch \<noteq> Inl e"
  shows "\<exists>root objs l'. publish_tree io blake3 crypto known rec put snapshot l = Inr (root, objs, l')"
  by (intro publish_tree_total[OF assms(1-4)]) (rule assms)+

theorem publish_succeeds_witness:
  "\<exists>root objs l. publish_tree plain_io (\<lambda>_. ''digest'') plain_crypto UnledgeredNodes_known UnledgeredNodes_record
     (\<lambda>batch. Inr no_objects) plain_snapshot () = Inr (root, objs, l)"
  using publish_succeeds[OF plain_tree(1,2) plain_limits(1) plain_laws(3), of UnledgeredNodes_known "()" "\<lambda>batch. Inr no_objects"]
  by (simp add: UnledgeredNodes_known_def)

text \<open>Pruning changes nothing: a fetch that takes subtrees from a local manifest wherever
  the ledger knows the remote key for the local hash returns the very manifest that a fetch
  of every node returns, provided that the local hashes are those of the local entries and
  the ledger rows stem from published trees.\<close>

theorem pruned_fetch_agrees:
  assumes "codec_laws (we_io env) (we_crypto env)" "objects_fit env B"
    and "bt_ok entries" "proper_paths entries" "decompose entries = Inr nodes"
      "limits_suffice (we_limits env) B entries nodes"
      "stored (we_io env) (we_crypto env) (write_epoch (we_crypto env)) (we_objects env) nodes dir_root root"
    and "bt_ok local" "proper_paths local" "decompose local = Inr local_nodes"
      "subtree_hashes blake3 local_nodes (write_epoch (we_crypto env)) = Inr local_hashes"
      "tree_fits local_nodes (map_of local_hashes)" "fits (write_epoch (we_crypto env))"
    and "\<And>h e. known h \<noteq> Inl e"
      "ledger_ok (we_io env) (we_crypto env) (write_epoch (we_crypto env)) (we_objects env) Ts known"
      "\<forall>T \<in> Ts. tree_ok blake3 (write_epoch (we_crypto env)) T"
      "collision_free blake3 (write_epoch (we_crypto env)) (insert (local_nodes, local_hashes) Ts)"
  shows "\<exists>tree tree'. fetch_tree (env\<lparr>we_prune := None\<rparr>) root = Inr tree
    \<and> fetch_tree (env\<lparr>we_prune := Some \<lparr>pb_entries = local, pb_hashes = local_hashes, pb_ledger = known\<rparr>\<rparr>) root = Inr tree'
    \<and> ft_manifest tree = ft_manifest tree' \<and> mf_entries (ft_manifest tree) = entries"
proof -
  let ?env = "env\<lparr>we_prune := Some \<lparr>pb_entries = local, pb_hashes = local_hashes, pb_ledger = known\<rparr>\<rparr>"
  have sound: "prune_sound ?env"
    using prune_sound_ledger[of ?env local local_hashes known, OF _ assms(8-10)] assms(11-17) by simp
  have fit: "objects_fit (env\<lparr>we_prune := p\<rparr>) B" for p using assms(2) by (simp add: objects_fit_def)
  have none: "prune_sound (env\<lparr>we_prune := None\<rparr>)" by (simp add: prune_sound_def)
  obtain tree where "fetch_tree (env\<lparr>we_prune := None\<rparr>) root = Inr tree"
      "ft_manifest tree = \<lparr>mf_key_epoch = write_epoch (we_crypto env), mf_entries = entries\<rparr>"
    using fetch_stored[OF _ fit none assms(3-5), of root] assms(1,6,7) by auto
  moreover obtain tree' where "fetch_tree ?env root = Inr tree'"
      "ft_manifest tree' = \<lparr>mf_key_epoch = write_epoch (we_crypto env), mf_entries = entries\<rparr>"
    using fetch_stored[OF _ fit sound assms(3-5), of root] assms(1,6,7) by auto
  ultimately show ?thesis by simp
qed

theorem pruned_fetch_agrees_witness:
  "\<exists>root objs l tree tree'.
     publish_tree plain_io id plain_crypto StoreNodeLedger_known StoreNodeLedger_record
       plain_put plain_snapshot plain_ledger = Inr (root, objs, l)
     \<and> fetch_tree (plain_env objs None) root = Inr tree
     \<and> fetch_tree (plain_env objs (Some \<lparr>pb_entries = mf_entries plain_snapshot, pb_hashes = plain_hashes,
          pb_ledger = StoreNodeLedger_known l\<rparr>)) root = Inr tree'
     \<and> ft_manifest tree = ft_manifest tree' \<and> mf_entries (ft_manifest tree) = mf_entries plain_snapshot"
proof -
  have e: "mf_key_epoch plain_snapshot = 2" "write_epoch plain_crypto = 2"
    by (simp_all add: plain_snapshot_def plain_crypto_def)
  have m: "bt_ok (mf_entries plain_snapshot)" "proper_paths (mf_entries plain_snapshot)"
    using plain_tree(1) by (simp_all add: manifest_ok_def)
  obtain root objs l where run: "publish_tree plain_io id plain_crypto StoreNodeLedger_known StoreNodeLedger_record
      plain_put plain_snapshot plain_ledger = Inr (root, objs, l)"
    by (rule plain_publish)
  have free: "collision_free id 2 Ts" for Ts by (simp add: collision_free_def)
  note keeps = store_ledger.publish_tree_keeps_ledger[OF run plain_tree(1,2), unfolded e, OF plain_tree(3-5) plain_laws(2)
      plain_ledger_ok(1,2) _ free]
  have known: "StoreNodeLedger_known l h \<noteq> Inl err" for h err
    using keeps(4)[of h err] plain_ledger_ok(3)[of h] by auto
  let ?env = "plain_env objs None"
  have env: "we_io ?env = plain_io" "we_crypto ?env = plain_crypto" "we_objects ?env = objs"
    "we_limits ?env = DecodeLimits_default" by (simp_all add: plain_env_def)
  have ok: "\<forall>T \<in> {(plain_nodes, plain_hashes)}. tree_ok id 2 T"
    using published_tree_ok(1)[OF plain_tree(1-4)] by simp
  have "\<exists>tree tree'. fetch_tree (?env\<lparr>we_prune := None\<rparr>) root = Inr tree
      \<and> fetch_tree (?env\<lparr>we_prune := Some \<lparr>pb_entries = mf_entries plain_snapshot, pb_hashes = plain_hashes,
           pb_ledger = StoreNodeLedger_known l\<rparr>\<rparr>) root = Inr tree'
      \<and> ft_manifest tree = ft_manifest tree' \<and> mf_entries (ft_manifest tree) = mf_entries plain_snapshot"
    by (rule pruned_fetch_agrees[where env = ?env and B = 2 and nodes = plain_nodes and local_nodes = plain_nodes
          and known = "StoreNodeLedger_known l" and Ts = "{(plain_nodes, plain_hashes)}", unfolded env e,
          OF plain_laws(1) plain_limits(2) m plain_tree(2) plain_limits(1) _ m plain_tree(2-5)])
      (use keeps(1,2) known ok free in simp_all)
  moreover have "?env\<lparr>we_prune := p\<rparr> = plain_env objs p" for p by (simp add: plain_env_def)
  ultimately show ?thesis using run by metis
qed

text \<open>A file of seven bytes is fetched within the default limits.\<close>

theorem fetch_result_bounded_witness:
  "\<exists>tree. fetch_tree (plain_env (\<lambda>_. Inr (TreeNode_new 2 [\<lparr>te_name = ''f'', te_payload = Tree_File 7 420 ''c'' ''b'' 2\<rparr>])) None) ''m_f'' = Inr tree
     \<and> declared_total (mf_entries (ft_manifest tree)) = 7
     \<and> declared_total (mf_entries (ft_manifest tree)) \<le> 8 * 1024 * 1024 * 1024 * 1024"
proof -
  let ?env = "plain_env (\<lambda>_. Inr (TreeNode_new 2 [\<lparr>te_name = ''f'', te_payload = Tree_File 7 420 ''c'' ''b'' 2\<rparr>])) None"
  have ok: "publishable_workspace_path ''f'' 4096 False = Inr ()"
    by (simp add: publishable_iff MAX_WORKSPACE_PATH_DEPTH_def is_private_workspace_state_path_def
        is_recovery_temp_component_def is_recovery_quarantine_component_def is_recovery_nonce_component_def
        strip_prefix_def)
  then have valid: "validate_manifest_path ''f'' DecodeLimits_default = Inr ()"
    by (simp add: validate_manifest_path_def DecodeLimits_default_def MAX_WORKSPACE_PATH_LEN_def)
  obtain tree where t: "fetch_tree ?env ''m_f'' = Inr tree" "declared_total (mf_entries (ft_manifest tree)) = 7"
  proof -
    have limits: "max_sealed_bytes DecodeLimits_default \<ge> 1" "max_decoded_bytes DecodeLimits_default \<ge> 1"
      "max_records DecodeLimits_default \<ge> 1" "max_node_entries DecodeLimits_default \<ge> 1"
      "max_name_len DecodeLimits_default \<ge> 1" "max_aggregate_declared_bytes DecodeLimits_default \<ge> 7"
      "max_aggregate_decoded_bytes DecodeLimits_default \<ge> 1"
      by (simp_all add: DecodeLimits_default_def MAX_NAME_LEN_def)
    have "\<exists>tree. fetch_tree ?env ''m_f'' = Inr tree \<and> declared_total (mf_entries (ft_manifest tree)) = 7"
      using limits valid
      by (simp add: fetch_tree_def plain_env_def prune_subtree_def open_node_def open_tree_node_def plain_io_def
          plain_crypto_def physical_manifest_key_def TreeNode_new_def TreeNode_decode_def validate_name_def Let_def
          new_walk_def count_record_def walk_payload_def emit_path_def validate_def dir_child_def dir_root_def
          checked_add_u64_def filter_option_def saturating_add_u64_def u64_MAX_def declared_def not_less)
    with that show ?thesis by blast
  qed
  have "max_aggregate_declared_bytes (we_limits ?env) = 8 * 1024 * 1024 * 1024 * 1024"
    by (simp add: plain_env_def DecodeLimits_default_def)
  with fetch_result_bounded[OF t(1)] t show ?thesis by auto
qed
end
