(* ===== verification/Publish_Cost.thy ===== *)
theory Publish_Cost
  imports Tree_Round_Trip
begin

text \<open>
  What a publish costs when the ledger knows nothing: one sealed node for every directory
  of the manifest, whether or not directories share their content.
\<close>

definition knows_nothing :: "('b, 's) node_publisher \<Rightarrow> bool" where
  "knows_nothing np \<longleftrightarrow> (\<forall>hash. np_known np hash = Inr None)"

lemma seal_node_uploads:
  "seal_node np node st = Inr (key, st') \<Longrightarrow> length (pending_uploads st') = Suc (length (pending_uploads st))"
  by (auto simp: seal_node_def Let_def split: sum.splits)

lemma build_entries_cost:
  assumes "build_entries child (join_path cs) children st = Inr (entries, st')"
    and "finite (dom m)" and v: "valid_path cs"
    and "\<forall>(name, spec) \<in> set children. path_component name \<and> child_at m (implied m) (cs @ [name]) = Some spec"
    and "distinct (map fst children)"
    and leaves: "\<And>q. leaf_at m q \<Longrightarrow> q \<notin> implied m"
    and down: "\<And>name spec st key st'. (name, spec) \<in> set children \<Longrightarrow> needs_hash spec \<Longrightarrow>
      child (join_path (cs @ [name])) st = Inr (key, st') \<Longrightarrow>
      length (pending_uploads st') = length (pending_uploads st) + path_sum m (node_cost m 1) (prefix (cs @ [name]))"
  shows "length (pending_uploads st') = length (pending_uploads st)
    + path_sum m (node_cost m 1) (\<lambda>q. \<exists>n \<in> fst ` set children. prefix (cs @ [n]) q)"
  using assms(1,4,5,7)
proof (induction children arbitrary: st entries)
  case (Cons c children)
  obtain name spec where c: "c = (name, spec)" by force
  let ?q = "cs @ [name]" and ?P = "\<lambda>q. \<exists>n \<in> fst ` set children. prefix (cs @ [n]) q"
  have at: "child_at m (implied m) ?q = Some spec" using Cons.prems(2) c by simp
  obtain key st1 es where rest: "build_entries child (join_path cs) children st1 = Inr (es, st')"
    and call: "if needs_hash spec then child (join_path ?q) st = Inr (key, st1) else st1 = st"
    using Cons.prems(1) unfolding c dir_child_join[OF v, symmetric] by (rule build_entries_ConsE)
  have one: "length (pending_uploads st1) = length (pending_uploads st) + path_sum m (node_cost m 1) (prefix ?q)"
  proof (cases "needs_hash spec")
    case True
    with call Cons.prems(4)[of name spec st key st1] True c show ?thesis by simp
  next
    case False
    then have leaf: "leaf_at m ?q" using at child_at_proper(1)[OF at]
      by (cases spec) (auto simp: child_at_def leaf_at_def needs_hash_def split: option.splits if_splits
          elim: spec_of_entry.elims is_leaf.elims)
    have "\<not> is_dir m (implied m) p" if "p \<in> all_paths m" "prefix ?q p" for p
      using that leaf leaves[OF leaf] below_implied[of p m ?q]
      by (cases "p = ?q") (auto simp: is_dir_def leaf_at_def strict_prefix_def)
    then have "path_sum m (node_cost m 1) (prefix ?q) = 0" by (auto simp: path_sum_def node_cost_def)
    with False call show ?thesis by simp
  qed
  have "length (pending_uploads st') = length (pending_uploads st1) + path_sum m (node_cost m 1) ?P"
  proof (rule Cons.IH[OF rest])
    fix n sp s k s'
    assume "(n, sp) \<in> set children" and "needs_hash sp" and "child (join_path (cs @ [n])) s = Inr (k, s')"
    then show "length (pending_uploads s') = length (pending_uploads s) + path_sum m (node_cost m 1) (prefix (cs @ [n]))"
      by (intro Cons.prems(4)[OF list.set_intros(2)])
  qed (use Cons.prems(2,3) in simp_all)
  moreover have "path_sum m (node_cost m 1) (\<lambda>p. prefix ?q p \<or> ?P p)
      = path_sum m (node_cost m 1) (prefix ?q) + path_sum m (node_cost m 1) ?P"
    using Cons.prems(3) c by (intro path_sum_disj[OF assms(2)]) (auto simp: prefix_def)
  moreover have "(\<lambda>p. \<exists>n \<in> fst ` set (c # children). prefix (cs @ [n]) p) = (\<lambda>p. prefix ?q p \<or> ?P p)"
    using c by auto
  ultimately show ?case using one by simp
qed simp

lemma publish_dir_cost:
  assumes model: "nodes_model (np_tree np) m (implied m)" and fin: "finite (dom m)" and unknown: "knows_nothing np"
    and valid: "\<And>q. q \<in> all_paths m \<Longrightarrow> valid_path q"
  shows "publish_dir np levels (join_path cs) st = Inr (key, st') \<Longrightarrow> valid_path cs \<Longrightarrow> is_dir m (implied m) cs \<Longrightarrow>
    length (pending_uploads st') = length (pending_uploads st) + path_sum m (node_cost m 1) (prefix cs)"
proof (induction levels arbitrary: cs st key st')
  case (Suc levels)
  from Suc.prems(1) show ?case
  proof (cases rule: publish_dir_SucE)
    case (Hit hash)
    with unknown have "np_known np hash = Inr None" unfolding knows_nothing_def by blast
    with Hit(2) show ?thesis by simp
  next
    case (Miss hash children entries st1 st2)
    have ok: "node_ok m (implied m) cs children" using nodes_modelD(3)[OF model Suc.prems(2) Miss(3)] by blast
    let ?P = "\<lambda>q. \<exists>n \<in> fst ` set children. prefix (cs @ [n]) q"
    have built: "length (pending_uploads st1) = length (pending_uploads st) + path_sum m (node_cost m 1) ?P"
    proof (rule build_entries_cost[OF Miss(4) fin Suc.prems(2)])
      show "\<forall>(name, spec) \<in> set children. path_component name \<and> child_at m (implied m) (cs @ [name]) = Some spec"
        using nodes_model_child[OF ok] by blast
      show "distinct (map fst children)" using ok by (simp add: node_ok_def bt_ok_distinct)
      show "q \<notin> implied m" if "leaf_at m q" for q using nodes_modelD(2)[OF model that] .
      fix name spec st key st'
      assume child: "(name, spec) \<in> set children" "needs_hash spec"
        and run: "publish_dir np levels (join_path (cs @ [name])) st = Inr (key, st')"
      note at = nodes_model_child[OF ok child(1)]
      show "length (pending_uploads st') = length (pending_uploads st) + path_sum m (node_cost m 1) (prefix (cs @ [name]))"
        using Suc.IH[OF run] at(1) Suc.prems(2) child_at_proper(2)[OF at(2) child(2)] by simp
    qed
    have "path_sum m (node_cost m 1) (prefix cs) = path_sum m (node_cost m 1) (\<lambda>q. q = cs \<or> ?P q)"
      using children_cover[OF ok _ valid] by (intro path_sum_cong) (auto simp: strict_prefix_def)
    also have "\<dots> = path_sum m (node_cost m 1) (\<lambda>q. q = cs) + path_sum m (node_cost m 1) ?P"
      by (intro path_sum_disj[OF fin]) (auto simp: prefix_def)
    also have "path_sum m (node_cost m 1) (\<lambda>q. q = cs) = 1"
      using Suc.prems(3) by (subst path_sum_single) (auto simp: node_cost_def all_paths_def is_dir_def)
    finally show ?thesis using built seal_node_uploads[OF Miss(5)] Miss(6) by simp
  qed
qed simp

lemma all_paths_valid: "q \<in> all_paths (flat_of entries) \<Longrightarrow> valid_path q"
  by (auto simp: all_paths_def implied_def flat_of_def strict_prefix_def prefix_def split: if_splits)

lemma dirs_count:
  assumes model: "nodes_model nodes m (implied m)" and fin: "finite (dom m)"
    and valid: "\<And>q. q \<in> all_paths m \<Longrightarrow> valid_path q"
  shows "path_sum m (node_cost m 1) (prefix []) = length nodes"
proof -
  let ?dirs = "{q \<in> all_paths m. is_dir m (implied m) q}"
  have "path_sum m (node_cost m 1) (prefix []) = (\<Sum>q \<in> ?dirs. 1)"
    unfolding path_sum_def using fin finite_implied
    by (intro sum.mono_neutral_cong_right) (auto simp: node_cost_def all_paths_def)
  also have "\<dots> = card (join_path ` ?dirs)"
    using valid join_path_inject by (subst card_image) (auto intro!: inj_onI)
  also have "join_path ` ?dirs = set (map fst nodes)"
  proof
    show "join_path ` ?dirs \<subseteq> set (map fst nodes)"
      using nodes_modelD(4)[OF model] valid by (force dest: map_of_SomeD)
    show "set (map fst nodes) \<subseteq> join_path ` ?dirs"
    proof
      fix d assume "d \<in> set (map fst nodes)"
      then obtain children where "(d, children) \<in> set nodes" by auto
      then obtain cs where "d = join_path cs" "is_dir m (implied m) cs" by (rule nodes_model_entry[OF model])
      then show "d \<in> join_path ` ?dirs" by (auto simp: is_dir_def all_paths_def)
    qed
  qed
  also have "card (set (map fst nodes)) = length nodes"
    using distinct_card[OF bt_ok_distinct[OF nodes_modelD(1)[OF model]]] by simp
  finally show ?thesis .
qed

text \<open>A publish whose ledger knows no hash seals and uploads exactly one node for every
  directory of the manifest: directories with equal content are not shared within the
  publish, since rows are recorded only after the upload.\<close>

theorem unknown_tree_uploads_every_directory:
  assumes "bt_ok entries" "proper_paths entries" "decompose entries = Inr (np_tree np)"
    and "\<And>hash. np_known np hash = Inr None"
    and "publish_dir np levels dir_root \<lparr>pending_uploads = [], pending_ledger = []\<rparr> = Inr (root, st)"
  shows "length (pending_uploads st) = length (np_tree np)"
proof -
  let ?m = "flat_of entries"
  note model = decompose_nodes_model[OF assms(1-3)]
  have "length (pending_uploads st) =
      length (pending_uploads (\<lparr>pending_uploads = [], pending_ledger = []\<rparr> :: 'b pending)) + path_sum ?m (node_cost ?m 1) (prefix [])"
  proof (rule publish_dir_cost[OF model finite_flat_of])
    show "publish_dir np levels (join_path []) \<lparr>pending_uploads = [], pending_ledger = []\<rparr> = Inr (root, st)"
      using assms(5) by (simp add: dir_root_def)
  qed (use assms(4) all_paths_valid in \<open>auto simp: knows_nothing_def is_dir_def\<close>)
  also have "path_sum ?m (node_cost ?m 1) (prefix []) = length (np_tree np)"
    by (rule dirs_count[OF model finite_flat_of]) (rule all_paths_valid)
  finally show ?thesis by simp
qed

theorem unknown_tree_uploads_every_directory_witness:
  "\<exists>root st. publish_dir \<lparr>np_io = plain_io, np_crypto = plain_crypto, np_key_epoch = 2,
        np_tree = [([], [(''a'', Child_Subtree), (''b'', Child_Subtree)]),
          (''a'', [(''x'', Leaf (Symlink 511 ''y''))]), (''b'', [(''x'', Leaf (Symlink 511 ''y''))])],
        np_hashes = [([], ''h0''), (''a'', ''h1''), (''b'', ''h1'')],
        np_known = StoreNodeLedger_known plain_ledger\<rparr> 3 dir_root \<lparr>pending_uploads = [], pending_ledger = []\<rparr>
      = Inr (root, st) \<and> map up_key (pending_uploads st) = [''m_x'', ''m_x'', ''m_ab''] \<and> length (pending_uploads st) = 3"
proof -
  let ?np = "\<lparr>np_io = plain_io, np_crypto = plain_crypto, np_key_epoch = 2,
        np_tree = [([], [(''a'', Child_Subtree), (''b'', Child_Subtree)]),
          (''a'', [(''x'', Leaf (Symlink 511 ''y''))]), (''b'', [(''x'', Leaf (Symlink 511 ''y''))])],
        np_hashes = [([], ''h0''), (''a'', ''h1''), (''b'', ''h1'')],
        np_known = StoreNodeLedger_known plain_ledger\<rparr>"
  let ?es = "[(''a/x'', Symlink 511 ''y''), (''b/x'', Symlink 511 ''y'')]"
  obtain root st where run: "publish_dir ?np 3 dir_root \<lparr>pending_uploads = [], pending_ledger = []\<rparr> = Inr (root, st)"
    "map up_key (pending_uploads st) = [''m_x'', ''m_x'', ''m_ab'']"
    by (simp add: numeral_3_eq_3 plain_ledger_ok(3) dir_child_def seal_node_def to_canonical_bytes_def ok_or_def
      seal_tree_node_def plain_io_def physical_manifest_key_def TreeNode_new_def Let_def dir_root_def)
  have "bt_ok ?es" "proper_paths ?es" by code_simp+
  moreover have "decompose ?es = Inr (np_tree ?np)" unfolding node_publisher.simps by code_simp
  ultimately have "length (pending_uploads st) = length (np_tree ?np)"
    by (rule unknown_tree_uploads_every_directory[OF _ _ _ _ run(1)]) (simp add: plain_ledger_ok(3))
  with run show ?thesis by auto
qed

end
