(* ===== verification/Relative_Manifests.thy ===== *)
theory Relative_Manifests
  imports Tree_Round_Trip
begin

text \<open>
  What a node key stands for: a manifest relative to the directory, the relation \<open>reads\<close>.
  For the directories of a manifest it agrees with being stored.
\<close>

section \<open>Relative manifests\<close>

text \<open>The entries below one child, and those below a directory.\<close>

definition sub :: "flat \<Rightarrow> string \<Rightarrow> flat" where
  "sub f n p = (if p = [] then None else f (n # p))"

definition relative :: "flat \<Rightarrow> string list \<Rightarrow> flat" where
  "relative m cs p = (if p = [] then None else m (cs @ p))"

definition child_of :: "flat \<Rightarrow> string \<Rightarrow> ChildSpec option" where
  "child_of f n = (case f [n] of
     Some e \<Rightarrow> Some (spec_of_entry e)
   | None \<Rightarrow> if sub f n = Map.empty then None else Some Child_Subtree)"

lemma sub_relative: "sub (relative m cs) n = relative m (cs @ [n])"
  by (simp add: sub_def relative_def fun_eq_iff)

lemma relative_Nil: "m [] = None \<Longrightarrow> relative m [] = m"
  by (auto simp: relative_def fun_eq_iff)

lemma sub_eq_empty: "sub f n = Map.empty \<longleftrightarrow> (\<forall>p. p \<noteq> [] \<longrightarrow> f (n # p) = None)"
  by (auto simp: sub_def fun_eq_iff)

lemma implied_iff: "cs \<in> implied m \<longleftrightarrow> cs \<noteq> [] \<and> (\<exists>p. p \<noteq> [] \<and> m (cs @ p) \<noteq> None)"
proof -
  have "cs \<in> implied m \<longleftrightarrow> cs \<noteq> [] \<and> (\<exists>q. m q \<noteq> None \<and> (\<exists>p. p \<noteq> [] \<and> q = cs @ p))"
    by (auto simp: implied_def strict_prefix_def prefix_def dom_def)
  then show ?thesis by blast
qed

lemma consistent_iff:
  "consistent f \<longleftrightarrow> (\<forall>q e p. f q = Some e \<longrightarrow> is_leaf e \<longrightarrow> q \<noteq> [] \<longrightarrow> p \<noteq> [] \<longrightarrow> f (q @ p) = None)"
  unfolding consistent_def leaf_at_def implied_iff by metis

lemma child_of_relative: "child_of (relative m cs) n = child_at m (implied m) (cs @ [n])"
proof -
  have "sub (relative m cs) n = Map.empty \<longleftrightarrow> cs @ [n] \<notin> implied m"
    by (auto simp: sub_relative relative_def implied_iff fun_eq_iff)
  then show ?thesis by (simp add: child_of_def child_at_def relative_def split: option.split)
qed

lemma child_of_None: "child_of f n = None \<longleftrightarrow> f [n] = None \<and> sub f n = Map.empty"
  by (auto simp: child_of_def split: option.split)

lemma child_of_cong: "f [n] = f' [n] \<Longrightarrow> sub f n = sub f' n \<Longrightarrow> child_of f n = child_of f' n"
  by (simp add: child_of_def)

lemma child_of_proper: "child_of f n = Some spec \<Longrightarrow> proper_spec spec"
proof -
  have "proper_spec (spec_of_entry e)" for e by (cases e) (simp_all add: proper_spec_def)
  moreover have "proper_spec Child_Subtree" by (simp add: proper_spec_def)
  ultimately show "child_of f n = Some spec \<Longrightarrow> proper_spec spec"
    by (auto simp: child_of_def split: option.splits if_splits)
qed

lemma flat_empty_iff: "f [] = None \<Longrightarrow> f = Map.empty \<longleftrightarrow> (\<forall>n. child_of f n = None)"
proof
  assume root: "f [] = None" and none: "\<forall>n. child_of f n = None"
  show "f = Map.empty"
  proof
    fix p show "f p = None"
    proof (cases p)
      case (Cons n q)
      with none show ?thesis by (cases "q = []") (auto simp: child_of_None sub_eq_empty)
    qed (simp add: root)
  qed
qed (simp add: child_of_None sub_eq_empty)

lemma consistent_sub: "consistent f \<Longrightarrow> consistent (sub f n)"
  unfolding consistent_iff sub_def by (metis append_Cons append_is_Nil_conv list.discI option.discI)

lemma consistent_leaf: "consistent f \<Longrightarrow> f [n] = Some e \<Longrightarrow> is_leaf e \<Longrightarrow> sub f n = Map.empty"
  unfolding consistent_iff sub_eq_empty by (metis append_Cons append_Nil list.discI)

section \<open>What a node key stands for\<close>

text \<open>\<open>good\<close> is a condition on the entries of every node, such as being within the limits.\<close>

inductive reads ::
  "('b, 's) tree_io \<Rightarrow> WorkspaceCrypto \<Rightarrow> 's objects \<Rightarrow> (TreeEntry list \<Rightarrow> bool) \<Rightarrow> ManifestKey \<Rightarrow> flat \<Rightarrow> bool"
  for io crypto objs good where
  reads_node: "bt_ok children \<Longrightarrow> map_of children = child_of f \<Longrightarrow> f [] = None \<Longrightarrow>
    node_at io crypto objs key (TreeNode_new (write_epoch crypto) (entries_with keys children)) \<Longrightarrow>
    good (entries_with keys children) \<Longrightarrow>
    \<forall>(name, spec) \<in> set children. needs_hash spec \<longrightarrow> reads io crypto objs good (keys name) (sub f name) \<Longrightarrow>
    reads io crypto objs good key f"

inductive_cases readsE: "reads io crypto objs good key f"

lemma node_at_mono:
  assumes "node_at io crypto objs key node" and "\<And>k s. objs k = Inr s \<Longrightarrow> objs' k = Inr s"
  shows "node_at io crypto objs' key node"
  using assms unfolding node_at_def by blast

lemma reads_mono:
  assumes "reads io crypto objs good key f" and "\<And>k s. objs k = Inr s \<Longrightarrow> objs' k = Inr s"
    and "\<And>es. good es \<Longrightarrow> good' es"
  shows "reads io crypto objs' good' key f"
  using assms(1)
proof induction
  case (reads_node children f key keys)
  have "\<forall>(name, spec) \<in> set children. needs_hash spec \<longrightarrow> reads io crypto objs' good' (keys name) (sub f name)"
    using reads_node(6) by fast
  with reads_node(1-3) node_at_mono[OF reads_node(4) assms(2)] assms(3)[OF reads_node(5)]
  show ?case by (intro reads.reads_node)
qed

text \<open>For the directories of a manifest it is the same as being stored.\<close>

lemma node_ok_child_of:
  assumes valid: "\<And>q. m q \<noteq> None \<Longrightarrow> valid_path q" and ok: "node_ok m (implied m) cs children"
  shows "map_of children = child_of (relative m cs)"
proof
  fix n show "map_of children n = child_of (relative m cs) n"
  proof (cases "path_component n")
    case False
    then have "child_at m (implied m) (cs @ [n]) = None"
      using valid[of "cs @ [n]"] valid by (force simp: child_at_None implied_iff)
    with False ok show ?thesis by (auto simp: node_ok_def child_of_relative map_of_eq_None_iff)
  qed (use ok in \<open>auto simp: node_ok_def child_of_relative\<close>)
qed

lemma stored_reads:
  assumes model: "nodes_model nodes m (implied m)" and valid: "\<And>q. m q \<noteq> None \<Longrightarrow> valid_path q"
    and good: "\<And>cs children keys. valid_path cs \<Longrightarrow> map_of nodes (join_path cs) = Some children \<Longrightarrow>
      good (entries_with keys children)"
    and "stored io crypto (write_epoch crypto) objs nodes (join_path cs) key" and "valid_path cs"
  shows "reads io crypto objs good key (relative m cs)"
  using assms(4,5)
proof (induction "join_path cs" key arbitrary: cs)
  case (stored_node children keys key)
  have ok: "node_ok m (implied m) cs children" using nodes_modelD(3)[OF model stored_node(4,1)] by blast
  have "\<forall>(name, spec) \<in> set children. needs_hash spec \<longrightarrow>
      reads io crypto objs good (keys name) (sub (relative m cs) name)"
  proof (intro ballI, clarify)
    fix name spec assume mem: "(name, spec) \<in> set children" "needs_hash spec"
    then have "path_component name" using ok by (force simp: node_ok_def)
    then show "reads io crypto objs good (keys name) (sub (relative m cs) name)"
      using stored_node(2) mem dir_child_join[OF stored_node(4), of name] stored_node(4) unfolding sub_relative by fastforce
  qed
  moreover have "bt_ok children" using ok by (simp add: node_ok_def)
  ultimately show ?case
    using stored_node(3) good[OF stored_node(4,1)] node_ok_child_of[OF valid ok]
    by (intro reads_node) (auto simp: relative_def)
qed

lemma reads_stored:
  assumes model: "nodes_model nodes m (implied m)" and valid: "\<And>q. m q \<noteq> None \<Longrightarrow> valid_path q"
    and "reads io crypto objs good key (relative m cs)" and "valid_path cs" and "is_dir m (implied m) cs"
  shows "stored io crypto (write_epoch crypto) objs nodes (join_path cs) key"
  using assms(3-5)
proof (induction key "relative m cs" arbitrary: cs)
  case (reads_node children key keys)
  obtain children' where c: "map_of nodes (join_path cs) = Some children'"
    using nodes_modelD(4)[OF model reads_node(7,8)] by blast
  then have ok: "node_ok m (implied m) cs children'" using nodes_modelD(3)[OF model reads_node(7)] by blast
  have same: "children = children'"
    using reads_node(1,2) node_ok_child_of[OF valid ok] ok by (intro bt_ext) (simp_all add: node_ok_def)
  have "\<forall>(name, spec) \<in> set children. needs_hash spec \<longrightarrow>
      stored io crypto (write_epoch crypto) objs nodes (dir_child (join_path cs) name) (keys name)"
  proof (intro ballI, clarify)
    fix name spec assume mem: "(name, spec) \<in> set children" "needs_hash spec"
    note at = nodes_model_child[OF ok mem(1)[unfolded same]]
    show "stored io crypto (write_epoch crypto) objs nodes (dir_child (join_path cs) name) (keys name)"
      using reads_node(6) mem at child_at_proper(2)[OF at(2) mem(2)] reads_node(7)
      unfolding dir_child_join[OF reads_node(7)] sub_relative by fastforce
  qed
  with c same reads_node(4) show ?case by (intro stored_node) simp_all
qed

end
