(* ===== verification/Tree_Patch.thy ===== *)
theory Tree_Patch
  imports Tree_Transport
begin

text \<open>
  The copy-on-write patch of a published tree, \<^verbatim>\<open>tree_transport/patch.rs\<close>: nodes are opened
  on demand, edited, and sealed again bottom-up where something changed. A mutation through
  \<open>&mut\<close> is the new value returned; the uploads that the code collects in a \<open>RefCell\<close> are
  threaded through.
\<close>

section \<open>Editable nodes\<close>

datatype EditablePayload =
    Edit_File u64 FileMode ContentId BlobKey KeyEpoch
  | Edit_Directory FileMode EditableChild
  | Edit_Subtree EditableChild
  | Edit_Symlink FileMode string
and EditableChild =
    Stored ManifestKey
  | Loaded EditableNode
and EditableNode =
    EditableNode (original_key: "ManifestKey option") (format_version: u32) (node_epoch: KeyEpoch)
      (edit_entries: "(string \<times> EditablePayload) list") (dirty: bool)

record ('b, 's) tree_patcher =
  tp_io :: "('b, 's) tree_io"
  tp_crypto :: WorkspaceCrypto
  tp_objects :: "'s objects"
  tp_limits :: DecodeLimits

definition patch_open_node :: "('b, 's) tree_patcher \<Rightarrow> ManifestKey \<Rightarrow> TreeError + TreeNode" where
  "patch_open_node p key =
     (case tp_objects p key of
        Inl e \<Rightarrow> Inl (Tree_Transport e)
      | Inr sealed \<Rightarrow>
          if physical_manifest_key (tp_io p) sealed \<noteq> key then Inl NodeKeyMismatch
          else (case open_tree_node (tp_io p) (tp_crypto p) sealed (tp_limits p) of
             Inl e \<Rightarrow> Inl (Tree_Manifest e)
           | Inr (plaintext, epoch) \<Rightarrow>
               map_sum Tree_Manifest id
                 (TreeNode_decode (from_bytes (tp_io p)) plaintext epoch (tp_limits p))))"

definition upload_node ::
  "('b, 's) tree_patcher \<Rightarrow> TreeNode \<Rightarrow> 's manifest_upload list \<Rightarrow> TreeError + ManifestKey \<times> 's manifest_upload list" where
  "upload_node p node st =
     (case to_canonical_bytes (tp_io p) node of
        Inl e \<Rightarrow> Inl (Tree_Manifest e)
      | Inr plaintext \<Rightarrow>
     (case seal_tree_node (tp_io p) (tp_crypto p) plaintext of
        Inl e \<Rightarrow> Inl (Tree_Manifest e)
      | Inr sealed \<Rightarrow>
          (let key = physical_manifest_key (tp_io p) sealed
           in Inr (key, st @ [\<lparr>up_key = key, up_content_id = node_content_id (tp_io p) plaintext,
                up_key_epoch = write_epoch (tp_crypto p), up_sealed = sealed\<rparr>]))))"

fun payload_from_tree :: "TreeEntryPayload \<Rightarrow> EditablePayload" where
  "payload_from_tree (Tree_File sz mode content_id blob_key key_epoch) =
     Edit_File sz mode content_id blob_key key_epoch"
| "payload_from_tree (Tree_Directory mode child) = Edit_Directory mode (Stored child)"
| "payload_from_tree (Tree_Subtree child) = Edit_Subtree (Stored child)"
| "payload_from_tree (Tree_Symlink mode target) = Edit_Symlink mode target"

definition from_tree_node :: "TreeNode \<Rightarrow> ManifestKey option \<Rightarrow> EditableNode" where
  "from_tree_node node original =
     EditableNode original (tn_format_version node) (tn_key_epoch node)
       (bt_collect (map (\<lambda>entry. (te_name entry, payload_from_tree (te_payload entry))) (tn_entries node)))
       False"

definition EditableNode_open :: "('b, 's) tree_patcher \<Rightarrow> ManifestKey \<Rightarrow> TreeError + EditableNode" where
  "EditableNode_open p key = map_sum id (\<lambda>node. from_tree_node node (Some key)) (patch_open_node p key)"

definition EditableNode_empty :: "WorkspaceCrypto \<Rightarrow> EditableNode" where
  "EditableNode_empty crypto = from_tree_node (TreeNode_new (write_epoch crypto) []) None"

section \<open>Applying one change\<close>

definition replacement_payload ::
  "WorkspaceCrypto \<Rightarrow> ManifestEntry \<Rightarrow> EditablePayload option \<Rightarrow> EditablePayload \<times> bool" where
  "replacement_payload crypto entry existing =
     (case entry of
        File sz mode content_id blob_key key_epoch \<Rightarrow>
          (Edit_File sz mode content_id blob_key key_epoch,
           existing \<noteq> Some (Edit_File sz mode content_id blob_key key_epoch))
      | Symlink mode target \<Rightarrow>
          (Edit_Symlink mode target, existing \<noteq> Some (Edit_Symlink mode target))
      | Directory mode \<Rightarrow>
          (case existing of
             Some (Edit_Directory old_mode child) \<Rightarrow> (Edit_Directory mode child, old_mode \<noteq> mode)
           | Some (Edit_Subtree child) \<Rightarrow> (Edit_Directory mode child, True)
           | _ \<Rightarrow> (Edit_Directory mode (Loaded (EditableNode_empty crypto)), True)))"

definition apply_leaf ::
  "WorkspaceCrypto \<Rightarrow> string \<Rightarrow> ManifestEntry option \<Rightarrow> EditableNode \<Rightarrow> bool \<times> EditableNode" where
  "apply_leaf crypto name replacement node =
     (case node of EditableNode original version epoch entries is_dirty \<Rightarrow>
        (case replacement of
           None \<Rightarrow>
             (let changed = (map_of entries name \<noteq> None)
              in (changed, EditableNode original version epoch (bt_remove name entries) (is_dirty \<or> changed)))
         | Some entry \<Rightarrow>
             (let (payload, changed) = replacement_payload crypto entry (map_of entries name)
              in (changed, EditableNode original version epoch
                    (bt_insert name payload (bt_remove name entries)) (is_dirty \<or> changed)))))"

fun payload_editable_child :: "EditablePayload \<Rightarrow> EditableChild option" where
  "payload_editable_child (Edit_Directory _ child) = Some child"
| "payload_editable_child (Edit_Subtree child) = Some child"
| "payload_editable_child _ = None"

fun set_child :: "EditableNode \<Rightarrow> EditablePayload \<Rightarrow> EditablePayload" where
  "set_child node (Edit_Directory mode _) = Edit_Directory mode (Loaded node)"
| "set_child node (Edit_Subtree _) = Edit_Subtree (Loaded node)"
| "set_child node payload = payload"

fun load_child :: "('b, 's) tree_patcher \<Rightarrow> EditableChild \<Rightarrow> TreeError + EditableNode" where
  "load_child p (Stored key) = EditableNode_open p key"
| "load_child p (Loaded node) = Inr node"

definition child_mut :: "('b, 's) tree_patcher \<Rightarrow> EditablePayload \<Rightarrow> TreeError + EditableNode option" where
  "child_mut p payload =
     (case payload_editable_child payload of
        None \<Rightarrow> Inr None
      | Some child \<Rightarrow> map_sum id Some (load_child p child))"

definition internal :: "string \<Rightarrow> TreeError" where
  "internal reason = Tree_Manifest (Manifest_Internal reason)"

text \<open>\<open>down\<close> applies the rest of the path to the child.\<close>

definition apply_descendant ::
  "('b, 's) tree_patcher \<Rightarrow> (EditableNode \<Rightarrow> TreeError + bool \<times> EditableNode) \<Rightarrow> string \<Rightarrow>
   ManifestEntry option \<Rightarrow> EditableNode \<Rightarrow> TreeError + bool \<times> EditableNode" where
  "apply_descendant p down name replacement node =
     (case node of EditableNode original version epoch entries is_dirty \<Rightarrow>
        (let missing = (map_of entries name = None)
         in if missing \<and> replacement = None then Inr (False, node)
            else
              (let entries = (if missing
                     then bt_insert name (Edit_Subtree (Loaded (EditableNode_empty (tp_crypto p)))) entries
                     else entries);
                   is_dirty = (is_dirty \<or> missing)
               in case map_of entries name of
                    None \<Rightarrow> Inl (internal ''tree patch lost an inserted ancestor'')
                  | Some payload \<Rightarrow>
                 (case child_mut p payload of
                    Inl e \<Rightarrow> Inl e
                  | Inr None \<Rightarrow>
                      if replacement = None
                      then Inr (False, EditableNode original version epoch entries is_dirty)
                      else Inl (internal ''tree patch descends through a leaf'')
                  | Inr (Some child) \<Rightarrow>
                 (case down child of
                    Inl e \<Rightarrow> Inl e
                  | Inr (changed, child) \<Rightarrow>
                      (let entries = bt_insert name (set_child child payload) entries;
                           prune = (changed \<and> (\<exists>c. payload = Edit_Subtree c) \<and> edit_entries child = [])
                       in Inr (changed, EditableNode original version epoch
                            (if prune then bt_remove name entries else entries) (is_dirty \<or> changed))))))))"

primrec apply_path ::
  "('b, 's) tree_patcher \<Rightarrow> string list \<Rightarrow> ManifestEntry option \<Rightarrow> EditableNode \<Rightarrow> TreeError + bool \<times> EditableNode" where
  "apply_path p [] replacement node = Inl (internal ''tree patch received an empty path'')"
| "apply_path p (name # rest) replacement node =
     (if rest = [] then Inr (apply_leaf (tp_crypto p) name replacement node)
      else apply_descendant p (apply_path p rest replacement) name replacement node)"

section \<open>Sealing what changed\<close>

fun persist_node ::
    "('b, 's) tree_patcher \<Rightarrow> EditableNode \<Rightarrow> 's manifest_upload list \<Rightarrow> TreeError + ManifestKey \<times> 's manifest_upload list"
  and persist_entries ::
    "('b, 's) tree_patcher \<Rightarrow> (string \<times> EditablePayload) list \<Rightarrow> 's manifest_upload list \<Rightarrow>
     TreeError + TreeEntry list \<times> bool \<times> 's manifest_upload list"
  and persist_payload ::
    "('b, 's) tree_patcher \<Rightarrow> EditablePayload \<Rightarrow> 's manifest_upload list \<Rightarrow>
     TreeError + TreeEntryPayload \<times> bool \<times> 's manifest_upload list"
  and persist_child ::
    "('b, 's) tree_patcher \<Rightarrow> EditableChild \<Rightarrow> 's manifest_upload list \<Rightarrow>
     TreeError + ManifestKey \<times> bool \<times> 's manifest_upload list" where
  "persist_node p (EditableNode original version epoch entries is_dirty) st =
     (case persist_entries p entries st of
        Inl e \<Rightarrow> Inl e
      | Inr (entries, child_changed, st) \<Rightarrow>
          (case original of
             Some key \<Rightarrow>
               if \<not> is_dirty \<and> \<not> child_changed then Inr (key, st)
               else upload_node p \<lparr>tn_format_version = version, tn_key_epoch = epoch, tn_entries = entries\<rparr> st
           | None \<Rightarrow>
               upload_node p \<lparr>tn_format_version = version, tn_key_epoch = epoch, tn_entries = entries\<rparr> st))"
| "persist_entries p [] st = Inr ([], False, st)"
| "persist_entries p ((name, payload) # entries) st =
     (case persist_payload p payload st of
        Inl e \<Rightarrow> Inl e
      | Inr (payload, changed, st) \<Rightarrow>
     (case persist_entries p entries st of
        Inl e \<Rightarrow> Inl e
      | Inr (entries, child_changed, st) \<Rightarrow>
          Inr (\<lparr>te_name = name, te_payload = payload\<rparr> # entries, changed \<or> child_changed, st)))"
| "persist_payload p (Edit_File sz mode content_id blob_key key_epoch) st =
     Inr (Tree_File sz mode content_id blob_key key_epoch, False, st)"
| "persist_payload p (Edit_Directory mode child) st =
     map_sum id (\<lambda>(key, changed, st). (Tree_Directory mode key, changed, st)) (persist_child p child st)"
| "persist_payload p (Edit_Subtree child) st =
     map_sum id (\<lambda>(key, changed, st). (Tree_Subtree key, changed, st)) (persist_child p child st)"
| "persist_payload p (Edit_Symlink mode target) st = Inr (Tree_Symlink mode target, False, st)"
| "persist_child p (Stored key) st = Inr (key, False, st)"
| "persist_child p (Loaded node) st =
     map_sum id (\<lambda>(key, st). (key, original_key node \<noteq> Some key, st)) (persist_node p node st)"

section \<open>The whole patch\<close>

definition path_depth :: "WorkspacePath \<Rightarrow> nat" where
  "path_depth path = length (split_on slash path)"

fun apply_changes ::
  "('b, 's) tree_patcher \<Rightarrow> (WorkspacePath \<times> ManifestEntry option) list \<Rightarrow> EditableNode \<Rightarrow> TreeError + EditableNode" where
  "apply_changes p [] root = Inr root"
| "apply_changes p ((path, replacement) # changes) root =
     (case apply_path p (split_on slash path) replacement root of
        Inl e \<Rightarrow> Inl e
      | Inr (_, root) \<Rightarrow> apply_changes p changes root)"

text \<open>
  The changes are in path order, and sorting is stable, so sorting by depth alone breaks
  ties by path. Removals go deepest first, replacements shallowest first.
\<close>

definition removals :: "(WorkspacePath, ManifestEntry option) btree_map \<Rightarrow> (WorkspacePath \<times> ManifestEntry option) list" where
  "removals changes =
     sort_key (\<lambda>(path, _). - int (path_depth path)) (filter (\<lambda>(_, entry). entry = None) changes)"

definition replacements :: "(WorkspacePath, ManifestEntry option) btree_map \<Rightarrow> (WorkspacePath \<times> ManifestEntry option) list" where
  "replacements changes =
     sort_key (\<lambda>(path, _). path_depth path) (filter (\<lambda>(_, entry). entry \<noteq> None) changes)"

definition patch_tree ::
  "('b, 's) tree_io \<Rightarrow> WorkspaceCrypto \<Rightarrow> 's objects \<Rightarrow> ('s manifest_upload list \<Rightarrow> string + 's objects) \<Rightarrow>
   ManifestKey \<Rightarrow> (WorkspacePath, ManifestEntry option) btree_map \<Rightarrow> TreeError + ManifestKey \<times> 's objects" where
  "patch_tree io crypto objs put root changes =
     (let p = \<lparr>tp_io = io, tp_crypto = crypto, tp_objects = objs, tp_limits = DecodeLimits_default\<rparr>
      in case EditableNode_open p root of
           Inl e \<Rightarrow> Inl e
         | Inr node \<Rightarrow>
        (case apply_changes p (removals changes) node of
           Inl e \<Rightarrow> Inl e
         | Inr node \<Rightarrow>
        (case apply_changes p (replacements changes) node of
           Inl e \<Rightarrow> Inl e
         | Inr node \<Rightarrow>
        (case persist_node p node [] of
           Inl e \<Rightarrow> Inl e
         | Inr (key, uploads) \<Rightarrow>
        (case put uploads of
           Inl e \<Rightarrow> Inl (Tree_Transport e)
         | Inr objs \<Rightarrow> Inr (key, objs))))))"

end
