(* ===== verification/Patch_Edits.thy ===== *)
theory Patch_Edits
  imports Relative_Manifests Tree_Patch
begin

text \<open>
  What an editable node stands for, and what one change does to a manifest: the relation
  \<open>edits\<close> ties a node with its loaded and stored children to a relative manifest.
\<close>

section \<open>Changing one path\<close>

text \<open>
  A removal takes everything at and below the path, a file or symlink replaces it, and a
  directory keeps what is below.
\<close>

definition clear :: "flat \<Rightarrow> string list \<Rightarrow> flat" where
  "clear f q p = (if prefix q p then None else f p)"

definition change :: "flat \<Rightarrow> string list \<Rightarrow> ManifestEntry option \<Rightarrow> flat" where
  "change f q r = (case r of
     None \<Rightarrow> clear f q
   | Some e \<Rightarrow> (if is_leaf e then clear f q else f)(q \<mapsto> e))"

definition passable :: "flat \<Rightarrow> string list \<Rightarrow> ManifestEntry option \<Rightarrow> bool" where
  "passable f q r \<longleftrightarrow> r = None \<or> (\<forall>p. p \<noteq> [] \<longrightarrow> strict_prefix p q \<longrightarrow> \<not> leaf_at f p)"

lemma sub_clear: "rest \<noteq> [] \<Longrightarrow> sub (clear f (n # rest)) n = clear (sub f n) rest"
  by (auto simp: sub_def clear_def fun_eq_iff)

lemma sub_change: "rest \<noteq> [] \<Longrightarrow> sub (change f (n # rest) r) n = change (sub f n) rest r"
  by (auto simp: change_def sub_clear split: option.split) (auto simp: sub_def clear_def fun_eq_iff)

lemma change_other:
  "n' \<noteq> n \<Longrightarrow> change f (n # rest) r [n'] = f [n']" "n' \<noteq> n \<Longrightarrow> sub (change f (n # rest) r) n' = sub f n'"
  "rest \<noteq> [] \<Longrightarrow> change f (n # rest) r [n'] = f [n']"
  "q \<noteq> [] \<Longrightarrow> change f q r [] = f []"
  by (auto simp: change_def clear_def sub_def fun_eq_iff split: option.split)

lemma clear_none:
  assumes "sub f n = Map.empty" and "rest \<noteq> [] \<or> f [n] = None"
  shows "clear f (n # rest) = f"
proof
  fix p
  have "f (n # q) = None" if "q \<noteq> [] \<or> f [n] = None" for q
    using assms(1) that unfolding sub_eq_empty by (cases "q = []") auto
  then show "clear f (n # rest) p = f p" using assms(2) by (auto simp: clear_def prefix_def)
qed

lemma change_eq:
  assumes "rest \<noteq> []" and "change (sub f n) rest r = sub f n"
  shows "change f (n # rest) r = f"
proof
  fix p
  have "sub (change f (n # rest) r) n = sub f n" using assms by (simp add: sub_change)
  then have "change f (n # rest) r (n # q) = f (n # q)" if "q \<noteq> []" for q
    using that by (metis sub_def)
  moreover have "change f (n # rest) r (n' # q) = f (n' # q)" if "n' \<noteq> n" for n' q
    using that by (auto simp: change_def clear_def split: option.split)
  ultimately show "change f (n # rest) r p = f p"
    using change_other(3)[OF assms(1)] change_other(4)[of "n # rest"] by (metis list.discI list.exhaust)
qed

lemma passable_sub: "passable f (n # rest) r \<Longrightarrow> passable (sub f n) rest r"
  by (auto simp: passable_def leaf_at_def sub_def)

lemma consistent_clear: "consistent f \<Longrightarrow> consistent (clear f q)"
  by (rule consistent_mono[of _ f]) (auto simp: clear_def map_le_def dom_def split: if_splits)

lemma consistent_change:
  assumes "consistent f" and "passable f q r"
  shows "consistent (change f q r)"
proof (cases r)
  case None
  with assms show ?thesis by (simp add: change_def consistent_clear)
next
  case (Some e)
  let ?g = "if is_leaf e then clear f q else f"
  have g: "consistent ?g" using assms(1) consistent_clear by simp
  have le: "?g p = Some x \<Longrightarrow> f p = Some x" for p x by (auto simp: clear_def split: if_splits)
  have pass: "\<not> leaf_at ?g p" if "p \<noteq> []" "strict_prefix p q" for p
    using assms(2) that Some le unfolding passable_def leaf_at_def by blast
  have "cs \<notin> implied (?g(q \<mapsto> e))" if leaf: "leaf_at (?g(q \<mapsto> e)) cs" for cs
  proof (cases "cs = q")
    case True
    then have "is_leaf e" using leaf by (simp add: leaf_at_def)
    then show ?thesis using True by (auto simp: implied_def clear_def dom_def strict_prefix_def split: if_splits)
  next
    case False
    then have "leaf_at ?g cs" using leaf by (simp add: leaf_at_def)
    then show ?thesis using g pass[of cs] by (auto simp: implied_upd inner_prefixes_def consistent_def)
  qed
  then show ?thesis using Some by (simp add: change_def consistent_def)
qed

section \<open>What an editable node stands for\<close>

fun spec_of_edit :: "EditablePayload \<Rightarrow> ChildSpec" where
  "spec_of_edit (Edit_File sz mode content_id blob_key key_epoch) = Leaf (File sz mode content_id blob_key key_epoch)"
| "spec_of_edit (Edit_Symlink mode target) = Leaf (Symlink mode target)"
| "spec_of_edit (Edit_Directory mode child) = Child_Directory mode"
| "spec_of_edit (Edit_Subtree child) = Child_Subtree"

definition specs :: "(string \<times> EditablePayload) list \<Rightarrow> (string \<times> ChildSpec) list" where
  "specs es = map (\<lambda>(n, p). (n, spec_of_edit p)) es"

text \<open>The key a child had when its parent was last stored.\<close>

fun child_key :: "EditableChild \<Rightarrow> ManifestKey option" where
  "child_key (Stored key) = Some key"
| "child_key (Loaded node) = original_key node"

definition slot :: "EditablePayload \<Rightarrow> ChildSpec \<times> ManifestKey option option" where
  "slot p = (spec_of_edit p, map_option child_key (payload_editable_child p))"

text \<open>An untouched node: the object under its key has the entries it has, with these keys.\<close>

definition untouched ::
  "('b, 's) tree_io \<Rightarrow> WorkspaceCrypto \<Rightarrow> 's objects \<Rightarrow> ManifestKey \<Rightarrow> (string \<times> EditablePayload) list \<Rightarrow> bool" where
  "untouched io crypto objs key es \<longleftrightarrow>
     (\<exists>keys. node_at io crypto objs key (TreeNode_new (write_epoch crypto) (entries_with keys (specs es)))
        \<and> (\<forall>n p c. map_of es n = Some p \<longrightarrow> payload_editable_child p = Some c \<longrightarrow> child_key c = Some (keys n)))"

inductive edits ::
  "('b, 's) tree_io \<Rightarrow> WorkspaceCrypto \<Rightarrow> 's objects \<Rightarrow> (TreeEntry list \<Rightarrow> bool) \<Rightarrow> EditableNode \<Rightarrow> flat \<Rightarrow> bool"
  for io crypto objs good where
  edits_node: "bt_ok es \<Longrightarrow> \<forall>n. map_option spec_of_edit (map_of es n) = child_of f n \<Longrightarrow> f [] = None \<Longrightarrow>
    \<forall>n p k. map_of es n = Some p \<longrightarrow> payload_editable_child p = Some (Stored k) \<longrightarrow>
      reads io crypto objs good k (sub f n) \<Longrightarrow>
    \<forall>n p node. map_of es n = Some p \<longrightarrow> payload_editable_child p = Some (Loaded node) \<longrightarrow>
      edits io crypto objs good node (sub f n) \<Longrightarrow>
    \<forall>key. original = Some key \<longrightarrow> \<not> is_dirty \<longrightarrow> untouched io crypto objs key es \<Longrightarrow>
    edits io crypto objs good (EditableNode original TREE_FORMAT_VERSION (write_epoch crypto) es is_dirty) f"

fun child_edits ::
  "('b, 's) tree_io \<Rightarrow> WorkspaceCrypto \<Rightarrow> 's objects \<Rightarrow> (TreeEntry list \<Rightarrow> bool) \<Rightarrow> EditableChild \<Rightarrow> flat \<Rightarrow> bool" where
  "child_edits io crypto objs good (Stored key) f = reads io crypto objs good key f"
| "child_edits io crypto objs good (Loaded node) f = edits io crypto objs good node f"

lemma edits_iff:
  "edits io crypto objs good (EditableNode original version epoch es is_dirty) f \<longleftrightarrow>
     version = TREE_FORMAT_VERSION \<and> epoch = write_epoch crypto \<and> bt_ok es
     \<and> (\<forall>n. map_option spec_of_edit (map_of es n) = child_of f n) \<and> f [] = None
     \<and> (\<forall>n p c. map_of es n = Some p \<longrightarrow> payload_editable_child p = Some c \<longrightarrow> child_edits io crypto objs good c (sub f n))
     \<and> (\<forall>key. original = Some key \<longrightarrow> \<not> is_dirty \<longrightarrow> untouched io crypto objs key es)"
proof -
  have "(\<forall>n p c. map_of es n = Some p \<longrightarrow> payload_editable_child p = Some c \<longrightarrow> child_edits io crypto objs good c (sub f n)) \<longleftrightarrow>
      (\<forall>n p k. map_of es n = Some p \<longrightarrow> payload_editable_child p = Some (Stored k) \<longrightarrow> reads io crypto objs good k (sub f n))
      \<and> (\<forall>n p node. map_of es n = Some p \<longrightarrow> payload_editable_child p = Some (Loaded node) \<longrightarrow>
        edits io crypto objs good node (sub f n))" (is "?L \<longleftrightarrow> ?R")
  proof
    assume ?L
    then show ?R by (metis child_edits.simps)
  next
    assume ?R
    then show ?L by (metis EditableChild.exhaust child_edits.simps)
  qed
  then show ?thesis by (subst edits.simps) auto
qed

lemma map_of_specs: "map_of (specs es) n = map_option spec_of_edit (map_of es n)"
  unfolding specs_def by (induction es) auto

lemma bt_ok_specs [simp]: "bt_ok (specs es) \<longleftrightarrow> bt_ok es"
  unfolding specs_def bt_ok_def by (simp add: case_prod_beta o_def)

lemma edits_empty_iff:
  assumes "edits io crypto objs good node f"
  shows "edit_entries node = [] \<longleftrightarrow> f = Map.empty"
proof -
  obtain original version epoch es is_dirty where node: "node = EditableNode original version epoch es is_dirty"
    by (cases node)
  have f: "\<forall>n. map_option spec_of_edit (map_of es n) = child_of f n" "f [] = None"
    using assms unfolding node edits_iff by blast+
  have "f = Map.empty \<longleftrightarrow> (\<forall>n. map_of es n = None)"
    unfolding flat_empty_iff[of f, OF f(2)] f(1)[rule_format, symmetric] by simp
  also have "\<dots> \<longleftrightarrow> es = []" by (cases es) (auto simp: fun_eq_iff)
  finally show ?thesis by (simp add: node)
qed

text \<open>Nodes with the same slots are untouched together.\<close>

lemma untouched_cong:
  assumes "untouched io crypto objs key es" and "bt_ok es" and "bt_ok es'"
    and slots: "\<And>n. map_option slot (map_of es' n) = map_option slot (map_of es n)"
  shows "untouched io crypto objs key es'"
proof -
  have "map_of (specs es') = map_of (specs es)"
    using slots by (force simp: map_of_specs slot_def fun_eq_iff map_option_case split: option.splits)
  then have "specs es' = specs es" using assms(2,3) by (intro bt_ext) simp_all
  moreover have "\<exists>p0 c0. map_of es n = Some p0 \<and> payload_editable_child p0 = Some c0 \<and> child_key c0 = child_key c"
    if "map_of es' n = Some p" "payload_editable_child p = Some c" for n p c
    using slots[of n] that by (auto simp: slot_def map_option_case split: option.splits)
  ultimately show ?thesis using assms(1) unfolding untouched_def by metis
qed

text \<open>Editing the entry of one name.\<close>

lemma edits_update:
  assumes node: "edits io crypto objs good (EditableNode original version epoch es is_dirty) f"
    and es': "bt_ok es'" "\<And>n'. n' \<noteq> n \<Longrightarrow> map_of es' n' = map_of es n'"
    and f': "\<And>n'. n' \<noteq> n \<Longrightarrow> f' [n'] = f [n'] \<and> sub f' n' = sub f n'" "f' [] = None"
    and at: "map_option spec_of_edit (map_of es' n) = child_of f' n"
      "\<And>p c. map_of es' n = Some p \<Longrightarrow> payload_editable_child p = Some c \<Longrightarrow> child_edits io crypto objs good c (sub f' n)"
    and clean: "\<not> is_dirty' \<Longrightarrow> \<not> is_dirty \<and> map_option slot (map_of es' n) = map_option slot (map_of es n)"
  shows "edits io crypto objs good (EditableNode original version epoch es' is_dirty') f'"
proof -
  note old = node[unfolded edits_iff]
  have "map_option spec_of_edit (map_of es' n') = child_of f' n'" for n'
    using old es'(2) f'(1) at(1) child_of_cong[of f' n' f] by (cases "n' = n") auto
  moreover have "child_edits io crypto objs good c (sub f' n')"
    if "map_of es' n' = Some p" "payload_editable_child p = Some c" for n' p c
    using old that es'(2) f'(1) at(2) by (cases "n' = n") auto
  moreover have "untouched io crypto objs key es'" if "original = Some key" "\<not> is_dirty'" for key
  proof (rule untouched_cong)
    show "untouched io crypto objs key es" using old clean that by blast
    show "map_option slot (map_of es' n') = map_option slot (map_of es n')" for n'
      using es'(2) clean[OF that(2)] by (cases "n' = n") auto
  qed (use old es'(1) in blast)+
  ultimately show ?thesis using old es'(1) f'(2) unfolding edits_iff by blast
qed

end
