(* ===== verification/Patch_Applies.thy ===== *)
theory Patch_Applies
  imports Patch_Edits
begin

text \<open>
  Opening nodes and applying a change at a path: the edited tree stands for the changed
  manifest, and a change that reports nothing changed has changed nothing.
\<close>

section \<open>Opening a node\<close>

abbreviation patch_reads :: "('b, 's) tree_patcher \<Rightarrow> (TreeEntry list \<Rightarrow> bool) \<Rightarrow> ManifestKey \<Rightarrow> flat \<Rightarrow> bool" where
  "patch_reads p \<equiv> reads (tp_io p) (tp_crypto p) (tp_objects p)"

abbreviation patch_edits :: "('b, 's) tree_patcher \<Rightarrow> (TreeEntry list \<Rightarrow> bool) \<Rightarrow> EditableNode \<Rightarrow> flat \<Rightarrow> bool" where
  "patch_edits p \<equiv> edits (tp_io p) (tp_crypto p) (tp_objects p)"

definition openable :: "('b, 's) tree_patcher \<Rightarrow> (TreeEntry list \<Rightarrow> bool) \<Rightarrow> bool" where
  "openable p good \<longleftrightarrow>
     (\<forall>key es. node_at (tp_io p) (tp_crypto p) (tp_objects p) key (TreeNode_new (write_epoch (tp_crypto p)) es) \<longrightarrow>
        good es \<longrightarrow> patch_open_node p key = Inr (TreeNode_new (write_epoch (tp_crypto p)) es))"

lemma spec_of_payload: "proper_spec spec \<Longrightarrow> spec_of_edit (payload_from_tree (payload_of spec key)) = spec"
  by (cases "(spec, key)" rule: payload_of.cases) (simp_all add: proper_spec_def)

lemma child_of_payload:
  "proper_spec spec \<Longrightarrow> payload_editable_child (payload_from_tree (payload_of spec key)) = (if needs_hash spec then Some (Stored key) else None)"
  by (cases "(spec, key)" rule: payload_of.cases) (simp_all add: proper_spec_def needs_hash_def)

lemma open_edits:
  assumes "openable p good" and "patch_reads p good key f"
  shows "\<exists>node. EditableNode_open p key = Inr node \<and> patch_edits p good node f \<and> original_key node = Some key"
proof -
  obtain children keys where c: "bt_ok children" "map_of children = child_of f" "f [] = None"
    "node_at (tp_io p) (tp_crypto p) (tp_objects p) key (TreeNode_new (write_epoch (tp_crypto p)) (entries_with keys children))"
    "good (entries_with keys children)"
    and below: "\<forall>(name, spec) \<in> set children. needs_hash spec \<longrightarrow> patch_reads p good (keys name) (sub f name)"
    using assms(2) by (rule readsE)
  let ?es = "map (\<lambda>(n, spec). (n, payload_from_tree (payload_of spec (keys n)))) children"
  have proper: "proper_spec spec" if "map_of children n = Some spec" for n spec
    using that c(2) child_of_proper by metis
  have es: "map_of ?es n = map_option (\<lambda>spec. payload_from_tree (payload_of spec (keys n))) (map_of children n)" for n
    by (induction children) auto
  have ok: "bt_ok ?es" using c(1) by (simp add: bt_ok_def case_prod_beta o_def)
  have specs: "specs ?es = children"
  proof (rule bt_ext)
    show "map_of (specs ?es) = map_of children"
      using proper by (auto simp: map_of_specs es spec_of_payload fun_eq_iff map_option_case split: option.split)
  qed (use ok c(1) in simp_all)
  have "map (\<lambda>entry. (te_name entry, payload_from_tree (te_payload entry))) (entries_with keys children) = ?es"
    by (simp add: entries_with_def case_prod_beta o_def)
  then have "bt_collect (map (\<lambda>entry. (te_name entry, payload_from_tree (te_payload entry))) (entries_with keys children)) = ?es"
    using bt_collect_sorted[OF ok] by (rule ssubst)
  then have opened: "EditableNode_open p key =
      Inr (EditableNode (Some key) TREE_FORMAT_VERSION (write_epoch (tp_crypto p)) ?es False)"
    using assms(1) c(4,5) unfolding openable_def
    by (simp add: EditableNode_open_def from_tree_node_def) (simp add: TreeNode_new_def)
  have slot: "child_edits (tp_io p) (tp_crypto p) (tp_objects p) good ch (sub f n) \<and> child_key ch = Some (keys n)"
    if pl: "map_of ?es n = Some payload" "payload_editable_child payload = Some ch" for n payload ch
  proof -
    obtain spec where spec: "map_of children n = Some spec" "payload = payload_from_tree (payload_of spec (keys n))"
      using pl(1) unfolding es by (cases "map_of children n") auto
    then have "ch = Stored (keys n)" "needs_hash spec"
      using pl(2) child_of_payload[OF proper] by (auto split: if_splits)
    with below map_of_SomeD[OF spec(1)] show ?thesis by auto
  qed
  have at: "map_option spec_of_edit (map_of ?es n) = child_of f n" for n
    using c(2) specs map_of_specs[of ?es n] by simp
  have same: "untouched (tp_io p) (tp_crypto p) (tp_objects p) key ?es"
    unfolding untouched_def specs using c(4) slot by blast
  have "patch_edits p good (EditableNode (Some key) TREE_FORMAT_VERSION (write_epoch (tp_crypto p)) ?es False) f"
    unfolding edits_iff using ok at c(3) slot same by blast
  with opened show ?thesis by simp
qed

lemma edits_new_node:
  "patch_edits p good (EditableNode_empty (tp_crypto p)) Map.empty" "original_key (EditableNode_empty crypto) = None"
  by (simp_all add: EditableNode_empty_def from_tree_node_def TreeNode_new_def bt_collect_def edits_iff child_of_def
      sub_eq_empty)

lemma load_edits:
  assumes "openable p good" and "child_edits (tp_io p) (tp_crypto p) (tp_objects p) good child f"
  shows "\<exists>node. load_child p child = Inr node \<and> patch_edits p good node f \<and> original_key node = child_key child"
  using assms open_edits[OF assms(1)] by (cases child) auto

section \<open>Editing a path\<close>

lemma slot_set_child:
  "payload_editable_child payload = Some child \<Longrightarrow> original_key node = child_key child \<Longrightarrow>
   slot (set_child node payload) = slot payload"
  by (cases payload) (auto simp: slot_def)

lemma set_child_simps:
  "payload_editable_child payload = Some child \<Longrightarrow> payload_editable_child (set_child node payload) = Some (Loaded node)"
  "spec_of_edit (set_child node payload) = spec_of_edit payload"
  by (cases payload; simp)+

definition applied ::
  "('b, 's) tree_patcher \<Rightarrow> (TreeEntry list \<Rightarrow> bool) \<Rightarrow> flat \<Rightarrow> EditableNode \<Rightarrow> flat \<Rightarrow> bool \<Rightarrow> EditableNode \<Rightarrow> bool" where
  "applied p good f node f' changed node' \<longleftrightarrow>
     patch_edits p good node' f' \<and> original_key node' = original_key node \<and> (changed \<or> f' = f)"

lemma replacement_facts:
  assumes "replacement_payload crypto e existing = (payload, changed)"
  shows "spec_of_edit payload = spec_of_entry e"
    and "changed \<or> map_option slot existing = Some (slot payload)"
    and "payload_editable_child payload = Some c \<Longrightarrow> \<not> is_leaf e \<and>
      (if Option.bind existing payload_editable_child = None then c = Loaded (EditableNode_empty crypto)
       else Option.bind existing payload_editable_child = Some c)"
  using assms
  by (cases e; cases existing; force simp: replacement_payload_def slot_def split: EditablePayload.splits)+

lemma childless_leaf:
  assumes "patch_edits p good (EditableNode original version epoch es d) f"
    and "map_of es n = Some payload" and "payload_editable_child payload = None"
  shows "leaf_at f [n]"
proof -
  have "child_of f n = Some (spec_of_edit payload)"
    using assms(1,2) unfolding edits_iff by (metis option.simps(9))
  moreover obtain e where "spec_of_edit payload = Leaf e" using assms(3) by (cases payload) auto
  ultimately obtain e0 where "f [n] = Some e0" "spec_of_entry e0 = Leaf e"
    by (auto simp: child_of_def split: option.splits if_splits)
  then show ?thesis by (cases e0) (auto simp: leaf_at_def)
qed

lemma no_child_below:
  assumes "patch_edits p good (EditableNode original version epoch es d) f" and "consistent f"
    and "Option.bind (map_of es n) payload_editable_child = None"
  shows "sub f n = Map.empty"
proof (cases "map_of es n")
  case None
  then show ?thesis using assms(1) unfolding edits_iff by (metis child_of_None option.simps(8))
next
  case (Some payload)
  then have "leaf_at f [n]" using childless_leaf[OF assms(1)] assms(3) by simp
  then show ?thesis using consistent_leaf[OF assms(2)] by (auto simp: leaf_at_def)
qed

lemma child_of_entry: "child_of f n = Some (spec_of_entry e) \<Longrightarrow> f [n] = Some e"
  by (cases e) (auto simp: child_of_def split: option.splits if_splits elim: spec_of_entry.elims)

lemma apply_leaf_removal:
  assumes node: "patch_edits p good node f" and res: "apply_leaf (tp_crypto p) name None node = (changed, node')"
  shows "applied p good f node (change f [name] None) changed node'"
proof -
  obtain original version epoch es d where n: "node = EditableNode original version epoch es d" by (cases node)
  note old = node[unfolded n edits_iff]
  have res': "changed = (map_of es name \<noteq> None)" "node' = EditableNode original version epoch (bt_remove name es) (d \<or> changed)"
    using res by (auto simp: n apply_leaf_def Let_def)
  have gone: "child_of (change f [name] None) name = None"
    by (auto simp: child_of_None change_def clear_def sub_def fun_eq_iff)
  have ok: "bt_ok es" using old by blast
  have "patch_edits p good node' (change f [name] None)"
    unfolding res'(2)
  proof (rule edits_update[OF node[unfolded n], where n = name])
    show "change f [name] None [] = None" using old change_other(4) by simp
  qed (use ok change_other(1,2) gone res'(1) in \<open>auto simp: map_of_bt_remove bt_remove_ok\<close>)
  moreover have "change f [name] None = f" if "\<not> changed"
  proof -
    have "child_of f name = None" using that res'(1) old by (metis option.map_disc_iff)
    then show ?thesis using clear_none[of f name "[]"] by (simp add: change_def child_of_None)
  qed
  ultimately show ?thesis by (auto simp: applied_def n res'(2))
qed

lemma apply_leaf_replacement:
  assumes node: "patch_edits p good node f" and f: "consistent f"
    and res: "apply_leaf (tp_crypto p) name (Some e) node = (changed, node')"
  shows "applied p good f node (change f [name] (Some e)) changed node'"
proof -
  obtain original version epoch es d where n: "node = EditableNode original version epoch es d" by (cases node)
  note old = node[unfolded n edits_iff]
  obtain payload where pl: "replacement_payload (tp_crypto p) e (map_of es name) = (payload, changed)"
    "node' = EditableNode original version epoch (bt_insert name payload (bt_remove name es)) (d \<or> changed)"
    using res by (auto simp: n apply_leaf_def split: prod.splits)
  note facts = replacement_facts[OF pl(1)]
  let ?f = "change f [name] (Some e)"
  have ok: "bt_ok es" using old by blast
  have here: "?f [name] = Some e" by (simp add: change_def)
  have below: "child_edits (tp_io p) (tp_crypto p) (tp_objects p) good c (sub ?f name)"
    if c: "payload_editable_child payload = Some c" for c
  proof -
    have s: "sub ?f name = sub f name" using facts(3)[OF c] by (auto simp: change_def sub_def fun_eq_iff)
    show ?thesis
    proof (cases "Option.bind (map_of es name) payload_editable_child")
      case None
      then show ?thesis
        using facts(3)[OF c] no_child_below[OF node[unfolded n] f None] edits_new_node(1) unfolding s by simp
    next
      case (Some c')
      then show ?thesis using facts(3)[OF c] old unfolding s by (auto simp: bind_eq_Some_conv)
    qed
  qed
  have "patch_edits p good node' ?f"
    unfolding pl(2)
  proof (rule edits_update[OF node[unfolded n], where n = name])
    show "map_option spec_of_edit (map_of (bt_insert name payload (bt_remove name es)) name) = child_of ?f name"
      using ok here by (simp add: map_of_bt_insert bt_remove_ok facts(1) child_of_def)
    show "?f [] = None" using old change_other(4) by simp
  qed (use ok change_other(1,2) below facts(2) in \<open>auto simp: map_of_bt_insert map_of_bt_remove bt_remove_ok bt_insert_ok\<close>)
  moreover have "?f = f" if unchanged: "\<not> changed"
  proof -
    obtain payload0 where "map_of es name = Some payload0" "spec_of_edit payload0 = spec_of_entry e"
      using facts(1,2) unchanged by (auto simp: slot_def)
    then have at: "f [name] = Some e" using old by (intro child_of_entry) (metis option.simps(9))
    have "clear f [name] = f([name] := None)" if "is_leaf e"
      using consistent_leaf[OF f at that] unfolding sub_eq_empty by (auto simp: clear_def fun_eq_iff prefix_def)
    then show ?thesis using at by (auto simp: change_def fun_upd_idem)
  qed
  ultimately show ?thesis by (auto simp: applied_def n pl(2))
qed

lemma child_spec:
  assumes "child_of f n = Some (spec_of_edit payload)" and "payload_editable_child payload = Some child"
  shows "(\<exists>c. payload = Edit_Subtree c) \<longleftrightarrow> f [n] = None"
    and "f [n] = f' [n] \<Longrightarrow> f [n] \<noteq> None \<or> sub f' n \<noteq> Map.empty \<Longrightarrow> child_of f' n = Some (spec_of_edit payload)"
proof -
  have leaf: "spec_of_entry e \<noteq> Child_Subtree" for e by (cases e) auto
  from assms leaf show "(\<exists>c. payload = Edit_Subtree c) \<longleftrightarrow> f [n] = None"
    by (cases payload; cases "f [n]"; force simp: child_of_def split: if_splits)
  from assms leaf show "child_of f' n = Some (spec_of_edit payload)"
    if "f [n] = f' [n]" "f [n] \<noteq> None \<or> sub f' n \<noteq> Map.empty"
    using that by (auto simp: child_of_def split: option.splits if_splits)
qed

text \<open>The child has been edited; the parent takes it over, or drops it if nothing is left.\<close>

lemma child_applied:
  assumes node: "patch_edits p good (EditableNode original version epoch es d) f"
    and at: "map_of es n = Some payload" "payload_editable_child payload = Some child" "original_key opened = child_key child"
    and rest: "rest \<noteq> []"
    and ih: "applied p good (sub f n) opened (change (sub f n) rest r) changed child'"
    and prune: "prune = (changed \<and> (\<exists>c. payload = Edit_Subtree c) \<and> edit_entries child' = [])"
    and es': "es' = bt_insert n (set_child child' payload) es"
  shows "applied p good f (EditableNode original version epoch es d) (change f (n # rest) r) changed
    (EditableNode original version epoch (if prune then bt_remove n es' else es') (d \<or> changed))"
proof -
  note old = node[unfolded edits_iff]
  let ?f = "change f (n # rest) r"
  have ok: "bt_ok es" using old by blast
  have child: "patch_edits p good child' (sub ?f n)" "original_key child' = child_key child"
    and same: "changed \<or> sub ?f n = sub f n"
    using ih at(3) unfolding applied_def sub_change[OF rest] by auto
  have here: "?f [n] = f [n]" using change_other(3)[OF rest] by simp
  have spec: "child_of f n = Some (spec_of_edit payload)" using old at(1) by (metis option.simps(9))
  note kind = child_spec[OF spec at(2)]
  have left: "edit_entries child' = [] \<longleftrightarrow> sub ?f n = Map.empty" using edits_empty_iff[OF child(1)] .
  have full: "sub f n \<noteq> Map.empty" if "f [n] = None" using spec that by (auto simp: child_of_def split: if_splits)
  have "patch_edits p good (EditableNode original version epoch (if prune then bt_remove n es' else es') (d \<or> changed)) ?f"
  proof (rule edits_update[OF node, where n = n])
    show "map_option spec_of_edit (map_of (if prune then bt_remove n es' else es') n) = child_of ?f n"
    proof (cases prune)
      case True
      then have "child_of ?f n = None" using prune kind(1) left here by (simp add: child_of_None)
      with True show ?thesis by (simp add: es' map_of_bt_remove bt_insert_ok ok)
    next
      case False
      then have "f [n] \<noteq> None \<or> sub ?f n \<noteq> Map.empty" using prune kind(1) left same full by auto
      then have "child_of ?f n = Some (spec_of_edit payload)" using kind(2)[of ?f] here by simp
      with False show ?thesis by (simp add: es' map_of_bt_insert ok set_child_simps(2))
    qed
    show "?f [] = None" using old change_other(4) by simp
  next
    assume "\<not> (d \<or> changed)"
    then show "\<not> d \<and> map_option slot (map_of (if prune then bt_remove n es' else es') n) = map_option slot (map_of es n)"
      using prune at(1) slot_set_child[OF at(2) child(2)] by (simp add: es' map_of_bt_insert ok)
  qed (use ok change_other(1,2) child(1) set_child_simps(1)[OF at(2)] in
      \<open>auto simp: es' map_of_bt_insert map_of_bt_remove bt_remove_ok bt_insert_ok split: if_splits\<close>)
  moreover have "?f = f" if "\<not> changed"
    using that ih change_eq[OF rest, of f n r] by (auto simp: applied_def)
  ultimately show ?thesis by (auto simp: applied_def)
qed

text \<open>A new ancestor is never left empty.\<close>

lemma ancestor_applied:
  assumes node: "patch_edits p good (EditableNode original version epoch es d) f"
    and at: "map_of es n = None" and rest: "rest \<noteq> []"
    and ih: "applied p good Map.empty opened (change Map.empty rest (Some e)) changed child'"
  shows "changed \<and> edit_entries child' \<noteq> [] \<and>
    applied p good f (EditableNode original version epoch es d) (change f (n # rest) (Some e)) changed
      (EditableNode original version epoch (bt_insert n (Edit_Subtree (Loaded child')) es) True)"
proof -
  note old = node[unfolded edits_iff]
  let ?f = "change f (n # rest) (Some e)"
  have ok: "bt_ok es" using old by blast
  have none: "f [n] = None" "sub f n = Map.empty" using old at by (metis child_of_None option.simps(8))+
  have g: "sub ?f n = change Map.empty rest (Some e)" using sub_change[OF rest] none(2) by simp
  have full: "change Map.empty rest (Some e) \<noteq> Map.empty"
    by (auto simp: change_def fun_eq_iff intro!: exI[of _ rest])
  have child: "patch_edits p good child' (sub ?f n)" using ih unfolding g applied_def by blast
  have "patch_edits p good (EditableNode original version epoch (bt_insert n (Edit_Subtree (Loaded child')) es) True) ?f"
  proof (rule edits_update[OF node, where n = n])
    show "map_option spec_of_edit (map_of (bt_insert n (Edit_Subtree (Loaded child')) es) n) = child_of ?f n"
      using full none(1) change_other(3)[OF rest, of f n "Some e" n] by (simp add: map_of_bt_insert ok child_of_def g)
    show "?f [] = None" using old change_other(4) by simp
  qed (use ok change_other(1,2) child in \<open>auto simp: map_of_bt_insert bt_insert_ok\<close>)
  moreover have "changed" "edit_entries child' \<noteq> []"
    using ih full edits_empty_iff[OF child] unfolding g applied_def by auto
  ultimately show ?thesis by (simp add: applied_def)
qed

lemma apply_descendant_applied:
  assumes open_ok: "openable p good" and edits: "patch_edits p good node f" and f: "consistent f" "passable f (n # rest) r"
    and rest: "rest \<noteq> []"
    and down: "\<And>child. patch_edits p good child (sub f n) \<Longrightarrow> \<exists>changed child'.
      down child = Inr (changed, child') \<and> applied p good (sub f n) child (change (sub f n) rest r) changed child'"
  shows "\<exists>changed node'. apply_descendant p down n r node = Inr (changed, node')
    \<and> applied p good f node (change f (n # rest) r) changed node'"
proof -
  obtain original version epoch es d where node: "node = EditableNode original version epoch es d" by (cases node)
  note edits' = edits[unfolded node]
  note old = edits'[unfolded edits_iff]
  have ok: "bt_ok es" using old by blast
  have unchanged: "applied p good f node (change f (n # rest) None) False node" if "sub f n = Map.empty"
    using edits clear_none[OF that, of rest] rest by (simp add: applied_def change_def)
  show ?thesis
  proof (cases "map_of es n")
    case None
    have none: "sub f n = Map.empty" using no_child_below[OF edits' f(1)] None by simp
    show ?thesis
    proof (cases r)
      case (Some e)
      obtain changed child' where child: "down (EditableNode_empty (tp_crypto p)) = Inr (changed, child')"
        "applied p good Map.empty (EditableNode_empty (tp_crypto p)) (change Map.empty rest (Some e)) changed child'"
        using down[of "EditableNode_empty (tp_crypto p)"] edits_new_node(1) Some unfolding none by blast
      note up = ancestor_applied[OF edits' None rest child(2)]
      have "apply_descendant p down n r node =
          Inr (changed, EditableNode original version epoch (bt_insert n (Edit_Subtree (Loaded child')) es) True)"
        using None Some child(1) up
        by (simp add: node apply_descendant_def child_mut_def Let_def map_of_bt_insert ok btree.put_put)
      with up Some show ?thesis unfolding node by blast
    qed (use None unchanged[OF none] in \<open>auto simp: node apply_descendant_def\<close>)
  next
    case (Some payload)
    show ?thesis
    proof (cases "payload_editable_child payload")
      case None
      have "r = None"
        using f(2) rest childless_leaf[OF edits' Some None] by (auto simp: passable_def strict_prefix_def)
      then show ?thesis
        using unchanged no_child_below[OF edits' f(1), of n] Some None
        by (auto simp: node apply_descendant_def child_mut_def)
    next
      case child: (Some child)
      obtain opened where o: "load_child p child = Inr opened" "patch_edits p good opened (sub f n)"
        "original_key opened = child_key child"
        using load_edits[OF open_ok, of child "sub f n"] old Some child by blast
      obtain changed child' where c: "down opened = Inr (changed, child')"
        "applied p good (sub f n) opened (change (sub f n) rest r) changed child'"
        using down[OF o(2)] by blast
      note up = child_applied[OF edits' Some child o(3) rest c(2) refl refl]
      with Some child o(1) c(1) show ?thesis
        by (simp add: node apply_descendant_def child_mut_def Let_def)
    qed
  qed
qed

lemma apply_path_applied:
  assumes "openable p good"
  shows "q \<noteq> [] \<Longrightarrow> patch_edits p good node f \<Longrightarrow> consistent f \<Longrightarrow> passable f q r \<Longrightarrow>
    \<exists>changed node'. apply_path p q r node = Inr (changed, node') \<and> applied p good f node (change f q r) changed node'"
proof (induction q arbitrary: node f)
  case (Cons n rest)
  show ?case
  proof (cases "rest = []")
    case True
    obtain changed node' where "apply_leaf (tp_crypto p) n r node = (changed, node')" by force
    then show ?thesis
      using apply_leaf_removal apply_leaf_replacement Cons.prems(2,3) True by (cases r) auto
  next
    case False
    have "\<exists>changed node'. apply_descendant p (apply_path p rest r) n r node = Inr (changed, node')
        \<and> applied p good f node (change f (n # rest) r) changed node'"
      using apply_descendant_applied[OF assms Cons.prems(2-4) False]
        Cons.IH[OF False _ consistent_sub[OF Cons.prems(3)] passable_sub[OF Cons.prems(4)]] by blast
    with False show ?thesis by simp
  qed
qed simp

end
