(* ===== verification/Patch_Seals.thy ===== *)
theory Patch_Seals
  imports Patch_Applies
begin

text \<open>
  Sealing an edited tree: the key it returns stands for the edited manifest, whether a node
  was uploaded again or kept under its old key.
\<close>

section \<open>Sealing what changed\<close>

definition uploads_held :: "'s objects \<Rightarrow> 's manifest_upload list \<Rightarrow> bool" where
  "uploads_held objs st \<longleftrightarrow> (\<forall>u \<in> set st. objs (up_key u) = Inr (up_sealed u))"

lemma uploads_held_mono: "uploads_held objs st' \<Longrightarrow> set st \<subseteq> set st' \<Longrightarrow> uploads_held objs st"
  by (auto simp: uploads_held_def)

lemma upload_node_ok:
  assumes "upload_node p node st = Inr (key, st')"
  shows "set st \<subseteq> set st'" and "uploads_held objs st' \<Longrightarrow> node_at (tp_io p) (tp_crypto p) objs key node"
  using assms
  by (auto simp: upload_node_def to_canonical_bytes_def ok_or_def seal_tree_node_def map_sum_def Let_def
      uploads_held_def node_at_def split: option.splits sum.splits)

lemma upload_node_total:
  "io_total (tp_io p) (tp_crypto p) \<Longrightarrow> \<exists>key st'. upload_node p node st = Inr (key, st')"
  unfolding io_total_def upload_node_def to_canonical_bytes_def ok_or_def seal_tree_node_def
  by (auto simp: Let_def map_sum_def split: option.splits sum.splits) (metis sum.distinct(1))

lemma persist_entries_ConsE:
  assumes "persist_entries p ((name, payload) # es) st = Inr (entries, changed, st')"
  obtains pl ch st1 rest ch' where "persist_payload p payload st = Inr (pl, ch, st1)"
    "persist_entries p es st1 = Inr (rest, ch', st')"
    "entries = \<lparr>te_name = name, te_payload = pl\<rparr> # rest" "changed = (ch \<or> ch')"
proof (cases "persist_payload p payload st")
  case (Inr a)
  obtain pl ch st1 where a: "a = (pl, ch, st1)" by (metis prod_cases3)
  show thesis
  proof (cases "persist_entries p es st1")
    case (Inr b)
    obtain rest ch' st2 where b: "b = (rest, ch', st2)" by (metis prod_cases3)
    with Inr a \<open>persist_payload p payload st = Inr a\<close> assms show thesis by (intro that[of pl ch st1 rest ch']) simp_all
  qed (use assms Inr a in simp)
qed (use assms in simp)

lemma persist_nodeE:
  assumes "persist_node p (EditableNode original version epoch es is_dirty) st = Inr (key, st')"
  obtains (kept) entries where "persist_entries p es st = Inr (entries, False, st')" "original = Some key" "\<not> is_dirty"
    | (sealed) entries changed st1 where "persist_entries p es st = Inr (entries, changed, st1)"
        "upload_node p \<lparr>tn_format_version = version, tn_key_epoch = epoch, tn_entries = entries\<rparr> st1 = Inr (key, st')"
proof (cases "persist_entries p es st")
  case (Inr a)
  obtain entries changed st1 where a: "a = (entries, changed, st1)" by (metis prod_cases3)
  show thesis
  proof (cases "original \<noteq> None \<and> \<not> is_dirty \<and> \<not> changed")
    case True
    with assms Inr a show thesis by (intro kept[of entries]) auto
  next
    case False
    with assms Inr a show thesis by (intro sealed[of entries changed st1]) (auto split: option.splits if_splits)
  qed
qed (use assms in simp)

text \<open>Sealing only adds uploads.\<close>

lemma persist_mono:
  "persist_node p node st = Inr (key, st') \<Longrightarrow> set st \<subseteq> set st'"
  "persist_entries p es st = Inr (entries, changed, st') \<Longrightarrow> set st \<subseteq> set st'"
  "persist_payload p payload st = Inr (pl, changed, st') \<Longrightarrow> set st \<subseteq> set st'"
  "persist_child p child st = Inr (key, changed, st') \<Longrightarrow> set st \<subseteq> set st'"
proof (induction p node st and p es st and p payload st and p child st
    arbitrary: key st' and entries changed st' and pl changed st' and key changed st'
    rule: persist_node_persist_entries_persist_payload_persist_child.induct)
  case (1 p original version epoch es is_dirty st)
  from 1(2) show ?case
    by (cases rule: persist_nodeE) (use 1(1) upload_node_ok(1) in blast)+
next
  case (3 p name payload es st)
  from 3(3) show ?case
  proof (rule persist_entries_ConsE)
    fix pl ch st1 rest ch'
    assume "persist_payload p payload st = Inr (pl, ch, st1)" "persist_entries p es st1 = Inr (rest, ch', st')"
    with 3(1) 3(2)[of "(pl, ch, st1)" pl "(ch, st1)" ch st1] show ?thesis by blast
  qed
qed (auto simp: map_sum_def split: sum.splits)

text \<open>It goes through when no node fails to serialize or to seal.\<close>

lemma persist_total:
  "io_total (tp_io p) (tp_crypto p) \<Longrightarrow> \<exists>key st'. persist_node p node st = Inr (key, st')"
  "io_total (tp_io p) (tp_crypto p) \<Longrightarrow> \<exists>entries changed st'. persist_entries p es st = Inr (entries, changed, st')"
  "io_total (tp_io p) (tp_crypto p) \<Longrightarrow> \<exists>pl changed st'. persist_payload p payload st = Inr (pl, changed, st')"
  "io_total (tp_io p) (tp_crypto p) \<Longrightarrow> \<exists>key changed st'. persist_child p child st = Inr (key, changed, st')"
proof (induction p node st and p es st and p payload st and p child st
    rule: persist_node_persist_entries_persist_payload_persist_child.induct)
  case (1 p original version epoch es is_dirty st)
  then obtain entries changed st1 where "persist_entries p es st = Inr (entries, changed, st1)" by blast
  with upload_node_total[OF 1(2)] show ?case by (simp split: option.split)
qed (fastforce split: sum.split)+

text \<open>The entries of a node and the keys its children were sealed under.\<close>

lemma persist_entries_keys:
  assumes "persist_entries p es st = Inr (entries, changed, st')" and "distinct (map fst es)"
  shows "\<exists>keys. entries = entries_with keys (specs es) \<and>
    (\<forall>(n, payload) \<in> set es. \<forall>c. payload_editable_child payload = Some c \<longrightarrow>
      (\<exists>s s' b. persist_child p c s = Inr (keys n, b, s') \<and> set s' \<subseteq> set st' \<and> (b \<longrightarrow> changed)))"
  using assms
proof (induction es arbitrary: st entries changed)
  case Nil
  then show ?case by (simp add: entries_with_def specs_def)
next
  case (Cons e es)
  obtain n payload where e: "e = (n, payload)" by force
  obtain pl ch st1 rest ch' where h: "persist_payload p payload st = Inr (pl, ch, st1)"
    and t: "persist_entries p es st1 = Inr (rest, ch', st')"
    and r: "entries = \<lparr>te_name = n, te_payload = pl\<rparr> # rest" "changed = (ch \<or> ch')"
    using Cons.prems(1) unfolding e by (rule persist_entries_ConsE)
  obtain keys where ih: "rest = entries_with keys (specs es)"
    "\<forall>(n, payload) \<in> set es. \<forall>c. payload_editable_child payload = Some c \<longrightarrow>
      (\<exists>s s' b. persist_child p c s = Inr (keys n, b, s') \<and> set s' \<subseteq> set st' \<and> (b \<longrightarrow> ch'))"
    using Cons.IH[OF t] Cons.prems(2) by auto
  obtain key where k: "pl = payload_of (spec_of_edit payload) key"
    "\<And>c. payload_editable_child payload = Some c \<Longrightarrow> persist_child p c st = Inr (key, ch, st1)"
    using h by (cases payload) (auto simp: map_sum_def split: sum.splits)
  have fresh: "n \<notin> fst ` set es" using Cons.prems(2) e by simp
  have "entries_with (keys(n := key)) (specs es) = entries_with keys (specs es)"
    using fresh by (force simp: entries_with_def specs_def)
  then have "entries = entries_with (keys(n := key)) (specs (e # es))"
    using r(1) ih(1) k(1) by (simp add: e entries_with_def specs_def)
  moreover have "\<exists>s s' b. persist_child p c s = Inr ((keys(n := key)) n', b, s') \<and> set s' \<subseteq> set st' \<and> (b \<longrightarrow> changed)"
    if "(n', payload') \<in> set (e # es)" "payload_editable_child payload' = Some c" for n' payload' c
  proof (cases "(n', payload') = e")
    case True
    with k(2) that(2) persist_mono(2)[OF t] r(2) e show ?thesis by auto
  next
    case False
    then have "(n', payload') \<in> set es" "n' \<noteq> n" using that(1) fresh by force+
    with ih(2) that(2) r(2) show ?thesis by fastforce
  qed
  ultimately show ?case by blast
qed

lemma edit_needs_hash: "needs_hash (spec_of_edit payload) \<longleftrightarrow> payload_editable_child payload \<noteq> None"
  by (cases payload) (simp_all add: needs_hash_def)

lemma reads_of_edits:
  assumes "bt_ok es" and "\<forall>n. map_option spec_of_edit (map_of es n) = child_of f n" and "f [] = None"
    and "node_at io crypto objs key (TreeNode_new (write_epoch crypto) (entries_with keys (specs es)))"
    and child: "\<And>n payload c. map_of es n = Some payload \<Longrightarrow> payload_editable_child payload = Some c \<Longrightarrow>
      reads io crypto objs (\<lambda>_. True) (keys n) (sub f n)"
  shows "reads io crypto objs (\<lambda>_. True) key f"
proof (rule reads_node)
  show "map_of (specs es) = child_of f" using assms(2) by (auto simp: map_of_specs)
  show "\<forall>(n, spec) \<in> set (specs es). needs_hash spec \<longrightarrow> reads io crypto objs (\<lambda>_. True) (keys n) (sub f n)"
    using child assms(1) by (auto simp: specs_def edit_needs_hash bt_set_iff)
qed (use assms in simp_all)

text \<open>What is sealed stands for what was edited.\<close>

lemma persist_reads:
  assumes keep: "\<And>k s. tp_objects p k = Inr s \<Longrightarrow> objs' k = Inr s"
    and "patch_edits p good node f" and "persist_node p node st = Inr (key, st')" and "uploads_held objs' st'"
  shows "reads (tp_io p) (tp_crypto p) objs' (\<lambda>_. True) key f"
  using assms(2-4)
proof (induction arbitrary: st key st')
  case (edits_node es f original is_dirty)
  let ?at = "\<lambda>keys. node_at (tp_io p) (tp_crypto p) objs' key
    (TreeNode_new (write_epoch (tp_crypto p)) (entries_with keys (specs es)))"
  have child: "reads (tp_io p) (tp_crypto p) objs' (\<lambda>_. True) k (sub f n)"
    if "map_of es n = Some payload" "payload_editable_child payload = Some c"
      "persist_child p c s = Inr (k, b, s')" "set s' \<subseteq> set st'" for n payload c s k b s'
  proof (cases c)
    case (Stored key)
    with that edits_node(4) have "patch_reads p good k (sub f n)" by auto
    then show ?thesis by (rule reads_mono[OF _ keep]) simp_all
  next
    case (Loaded node)
    with that(3) have "persist_node p node s = Inr (k, s')" by (auto simp: map_sum_def split: sum.splits)
    with edits_node.IH that Loaded uploads_held_mono[OF edits_node.prems(2) that(4)] show ?thesis by blast
  qed
  from edits_node.prems(1) show ?case
  proof (cases rule: persist_nodeE)
    case (kept entries)
    then obtain keys where u: "node_at (tp_io p) (tp_crypto p) (tp_objects p) key
        (TreeNode_new (write_epoch (tp_crypto p)) (entries_with keys (specs es)))"
      "\<forall>n payload c. map_of es n = Some payload \<longrightarrow> payload_editable_child payload = Some c \<longrightarrow> child_key c = Some (keys n)"
      using edits_node.hyps(5) unfolding untouched_def by blast
    show ?thesis
    proof (rule reads_of_edits[OF edits_node(1-3), of _ _ _ _ keys])
      show "?at keys" using node_at_mono[OF u(1) keep] .
      fix n payload c
      assume at: "map_of es n = Some payload" "payload_editable_child payload = Some c"
      obtain k s s' where run: "persist_child p c s = Inr (k, False, s')" "set s' \<subseteq> set st'"
        using persist_entries_keys[OF kept(1) bt_ok_distinct[OF edits_node(1)]] map_of_SomeD[OF at(1)] at(2) by fastforce
      moreover have "child_key c = Some (keys n)" using u(2) at by blast
      ultimately have "k = keys n" by (cases c) (auto simp: map_sum_def split: sum.splits)
      with child[OF at run] show "reads (tp_io p) (tp_crypto p) objs' (\<lambda>_. True) (keys n) (sub f n)" by simp
    qed
  next
    case (sealed entries changed st1)
    obtain keys where k: "entries = entries_with keys (specs es)"
      "\<forall>(n, payload) \<in> set es. \<forall>c. payload_editable_child payload = Some c \<longrightarrow>
        (\<exists>s s' b. persist_child p c s = Inr (keys n, b, s') \<and> set s' \<subseteq> set st1 \<and> (b \<longrightarrow> changed))"
      using persist_entries_keys[OF sealed(1) bt_ok_distinct[OF edits_node(1)]] by blast
    show ?thesis
    proof (rule reads_of_edits[OF edits_node(1-3), of _ _ _ _ keys])
      show "?at keys"
        using upload_node_ok(2)[OF sealed(2) edits_node.prems(2)] k(1) by (simp add: TreeNode_new_def)
      show "reads (tp_io p) (tp_crypto p) objs' (\<lambda>_. True) (keys n) (sub f n)"
        if "map_of es n = Some payload" "payload_editable_child payload = Some c" for n payload c
        using k(2) map_of_SomeD[OF that(1)] that upload_node_ok(1)[OF sealed(2)] child by blast
    qed
  qed
qed

end
