(* ===== verification/Patch_Refinement.thy ===== *)
theory Patch_Refinement
  imports Patch_Seals
begin

text \<open>
  The whole patch refines the update of the flat manifest: removals from the deepest path
  up, then replacements from the shallowest down, leave exactly the updated manifest in the
  object store.
\<close>

section \<open>Sequences of changes\<close>

fun change_all :: "(WorkspacePath \<times> ManifestEntry option) list \<Rightarrow> flat \<Rightarrow> flat" where
  "change_all [] f = f"
| "change_all ((path, r) # changes) f = change_all changes (change f (split_on slash path) r)"

fun all_passable :: "(WorkspacePath \<times> ManifestEntry option) list \<Rightarrow> flat \<Rightarrow> bool" where
  "all_passable [] f \<longleftrightarrow> True"
| "all_passable ((path, r) # changes) f \<longleftrightarrow>
     passable f (split_on slash path) r \<and> all_passable changes (change f (split_on slash path) r)"

lemma apply_changes_edits:
  assumes "openable p good"
  shows "patch_edits p good root f \<Longrightarrow> consistent f \<Longrightarrow> all_passable changes f \<Longrightarrow>
    \<exists>root'. apply_changes p changes root = Inr root' \<and> patch_edits p good root' (change_all changes f)
      \<and> consistent (change_all changes f)"
proof (induction changes arbitrary: root f)
  case (Cons c changes)
  obtain path r where c: "c = (path, r)" by force
  obtain changed root' where "apply_path p (split_on slash path) r root = Inr (changed, root')"
    "patch_edits p good root' (change f (split_on slash path) r)"
    using apply_path_applied[OF assms split_on_not_Nil Cons.prems(1,2), of slash path r] Cons.prems(3) c
    by (auto simp: applied_def)
  with Cons.IH[of root' "change f (split_on slash path) r"] consistent_change[OF Cons.prems(2)] Cons.prems(3) c
  show ?case by simp
qed simp

text \<open>Removals take everything at or below a removed path.\<close>

lemma change_all_removals:
  assumes "\<forall>(path, r) \<in> set changes. r = None"
  shows "all_passable changes f"
    and "change_all changes f q = (if \<exists>(path, r) \<in> set changes. prefix (split_on slash path) q then None else f q)"
proof -
  show "all_passable changes f"
    using assms by (induction changes arbitrary: f) (auto simp: passable_def)
  show "change_all changes f q = (if \<exists>(path, r) \<in> set changes. prefix (split_on slash path) q then None else f q)"
    using assms by (induction changes arbitrary: f) (auto simp: change_def clear_def)
qed

text \<open>
  Replacements in the order of depth reach a consistent manifest that agrees with the one
  they start from everywhere else.
\<close>

lemma change_all_replacements:
  assumes target: "consistent m'"
  shows "\<forall>(path, r) \<in> set changes. \<exists>e. r = Some e \<and> m' (split_on slash path) = Some e \<Longrightarrow>
    sorted (map (\<lambda>(path, _). path_depth path) changes) \<Longrightarrow>
    (\<And>q. q \<notin> (\<lambda>(path, _). split_on slash path) ` set changes \<Longrightarrow> f q = m' q) \<Longrightarrow>
    all_passable changes f \<and> change_all changes f = m'"
proof (induction changes arbitrary: f)
  case Nil
  then show ?case by auto
next
  case (Cons c changes)
  obtain path e where c: "c = (path, Some e)" and here: "m' (split_on slash path) = Some e"
    using Cons.prems(1) by auto
  let ?q = "split_on slash path"
  have pass: "passable f ?q (Some e)"
    unfolding passable_def
  proof (intro disjI2 allI impI)
    fix p assume p: "p \<noteq> []" "strict_prefix p ?q"
    then have "length p < path_depth path" by (auto simp: path_depth_def strict_prefix_def prefix_def)
    then have "p \<notin> (\<lambda>(path, _). split_on slash path) ` set (c # changes)"
      using Cons.prems(2) c by (auto simp: path_depth_def)
    then have "f p = m' p" by (rule Cons.prems(3))
    moreover have "\<not> leaf_at m' p" using target here p by (auto simp: consistent_def implied_def)
    ultimately show "\<not> leaf_at f p" by (simp add: leaf_at_def)
  qed
  have below: "p = []" if "is_leaf e" "f (?q @ p) \<noteq> None" for p
  proof (rule ccontr)
    assume "p \<noteq> []"
    then have none: "m' (?q @ p) = None" using target here that by (auto simp: consistent_iff)
    then have "?q @ p \<notin> (\<lambda>(path, _). split_on slash path) ` set (c # changes)" using Cons.prems(1) by force
    with none Cons.prems(3) that(2) show False by simp
  qed
  have step: "change f ?q (Some e) = f(?q \<mapsto> e)"
    using below by (auto simp: change_def clear_def fun_eq_iff prefix_def dest: not_sym)
  have "all_passable changes (f(?q \<mapsto> e)) \<and> change_all changes (f(?q \<mapsto> e)) = m'"
  proof (rule Cons.IH)
    show "(f(?q \<mapsto> e)) p = m' p" if "p \<notin> (\<lambda>(path, _). split_on slash path) ` set changes" for p
      using that here Cons.prems(3)[of p] c by auto
  qed (use Cons.prems in auto)
  with pass show ?case by (simp add: c step)
qed

section \<open>The updated manifest\<close>

definition update_entries ::
  "(WorkspacePath, ManifestEntry) btree_map \<Rightarrow> (WorkspacePath, ManifestEntry option) btree_map \<Rightarrow>
   (WorkspacePath, ManifestEntry) btree_map" where
  "update_entries entries changes =
     fold (\<lambda>(path, r). case r of None \<Rightarrow> bt_remove path | Some e \<Rightarrow> bt_insert path e) changes entries"

text \<open>A removal takes the tracked paths below it along, or they change too.\<close>

definition removals_closed ::
  "(WorkspacePath, ManifestEntry) btree_map \<Rightarrow> (WorkspacePath, ManifestEntry option) btree_map \<Rightarrow> bool" where
  "removals_closed entries changes \<longleftrightarrow>
     list_all (\<lambda>(path, r). r = None \<longrightarrow>
       list_all (\<lambda>(p, _). prefix (path @ [slash]) p \<longrightarrow> map_of changes p \<noteq> None) entries) changes"

lemma update_entries_ok:
  "bt_ok entries \<Longrightarrow> bt_ok (update_entries entries changes)"
  unfolding update_entries_def
  by (induction changes arbitrary: entries) (auto simp: bt_remove_ok bt_insert_ok split: option.split)

lemma map_of_update_entries:
  assumes "bt_ok entries" and "distinct (map fst changes)"
  shows "map_of (update_entries entries changes) p =
    (case map_of changes p of None \<Rightarrow> map_of entries p | Some r \<Rightarrow> r)"
  using assms unfolding update_entries_def
proof (induction changes arbitrary: entries)
  case (Cons c changes)
  obtain path r where c: "c = (path, r)" by force
  let ?entries = "case r of None \<Rightarrow> bt_remove path entries | Some e \<Rightarrow> bt_insert path e entries"
  have "bt_ok ?entries" and at: "map_of ?entries = (map_of entries)(path := r)"
    using Cons.prems(1) by (auto simp: bt_remove_ok bt_insert_ok map_of_bt_remove map_of_bt_insert split: option.split)
  then have ih: "map_of (fold (\<lambda>(path, r). case r of None \<Rightarrow> bt_remove path | Some e \<Rightarrow> bt_insert path e) changes ?entries) p =
      (case map_of changes p of None \<Rightarrow> map_of ?entries p | Some r \<Rightarrow> r)"
    using Cons.IH[of ?entries] Cons.prems(2) by simp
  have "map_of changes path = None" using Cons.prems(2) c by (simp add: map_of_eq_None_iff)
  with ih show ?case unfolding at by (cases "p = path"; cases r) (simp_all add: c split: option.split)
qed simp

lemma proper_paths_update:
  assumes "bt_ok entries" and "distinct (map fst changes)" and "proper_paths entries"
    and "list_all (\<lambda>(path, _). [] \<notin> set (split_on slash path)) changes"
  shows "proper_paths (update_entries entries changes)"
proof -
  have "[] \<notin> set (split_on slash path)" if "(path, e) \<in> set (update_entries entries changes)" for path e
  proof -
    have "map_of (update_entries entries changes) path = Some e"
      using that bt_set_iff[OF update_entries_ok[OF assms(1)]] by blast
    then have "(path, e) \<in> set entries \<or> (path, Some e) \<in> set changes"
      unfolding map_of_update_entries[OF assms(1,2)] by (auto split: option.splits dest: map_of_SomeD)
    with assms(3,4) show ?thesis by (auto simp: proper_paths_def list_all_iff)
  qed
  then show ?thesis by (auto simp: proper_paths_def)
qed

definition patchable ::
  "(WorkspacePath, ManifestEntry) btree_map \<Rightarrow> (WorkspacePath, ManifestEntry option) btree_map \<Rightarrow> bool" where
  "patchable entries changes \<longleftrightarrow> bt_ok changes \<and> list_all (\<lambda>(path, _). [] \<notin> set (split_on slash path)) changes
     \<and> removals_closed entries changes"

lemma flat_of_valid: "flat_of entries q \<noteq> None \<Longrightarrow> valid_path q"
  by (auto simp: flat_of_def split: if_splits)

lemma decompose_consistent:
  "bt_ok entries \<Longrightarrow> proper_paths entries \<Longrightarrow> decompose entries = Inr nodes \<Longrightarrow> consistent (flat_of entries)"
  using decompose_model[of entries] by (auto split: if_splits)

lemma replaced_entry:
  assumes "bt_ok entries" "proper_paths entries" "patchable entries changes" "(path, Some e) \<in> set changes"
  shows "flat_of (update_entries entries changes) (split_on slash path) = Some e"
proof -
  have ch: "bt_ok changes" "list_all (\<lambda>(path, _). [] \<notin> set (split_on slash path)) changes"
    using assms(3) by (simp_all add: patchable_def)
  note d = bt_ok_distinct[OF ch(1)]
  have "flat_of (update_entries entries changes) (split_on slash path) = map_of (update_entries entries changes) path"
    by (rule flat_of_split[OF update_entries_ok[OF assms(1)] proper_paths_update[OF assms(1) d assms(2) ch(2)]])
  moreover have "map_of changes path = Some (Some e)" using assms(4) bt_set_iff[OF ch(1)] by blast
  ultimately show ?thesis by (simp add: map_of_update_entries[OF assms(1) d])
qed

lemma removals_leave:
  assumes entries: "bt_ok entries" and ok: "patchable entries changes"
    and q: "q \<notin> (\<lambda>(path, _). split_on slash path) ` set (filter (\<lambda>(_, r). r \<noteq> None) changes)"
  shows "(if \<exists>(path, r) \<in> set (filter (\<lambda>(_, r). r = None) changes). prefix (split_on slash path) q then None
      else flat_of entries q) = flat_of (update_entries entries changes) q"
proof (cases "valid_path q \<and> q \<noteq> []")
  case True
  let ?p = "join_path q"
  have split: "split_on slash ?p = q" using split_join True valid_no_slash by blast
  have ch: "bt_ok changes" "removals_closed entries changes" using ok by (simp_all add: patchable_def)
  have new: "flat_of (update_entries entries changes) q = (case map_of changes ?p of None \<Rightarrow> map_of entries ?p | Some r \<Rightarrow> r)"
    using True by (simp add: flat_of_def map_of_update_entries[OF entries bt_ok_distinct[OF ch(1)]])
  have old: "flat_of entries q = map_of entries ?p" using True by (simp add: flat_of_def)
  consider "map_of changes ?p = None" | "map_of changes ?p = Some None"
  proof (cases "map_of changes ?p")
    case (Some r)
    then have "(?p, r) \<in> set changes" by (rule map_of_SomeD)
    then have "r = None" using q split by force
    with that Some show ?thesis by blast
  qed (use that in blast)
  then show ?thesis
  proof cases
    case 1
    have "map_of entries ?p = None" if path: "(path, None) \<in> set changes" "prefix (split_on slash path) q" for path
    proof (rule ccontr)
      assume tracked: "map_of entries ?p \<noteq> None"
      obtain r where r: "q = split_on slash path @ r" using path(2) by (auto simp: prefix_def)
      have "r \<noteq> []"
      proof
        assume "r = []"
        then have "?p = path" using r join_split by simp
        with path(1) 1 show False using bt_set_iff[OF ch(1)] by fastforce
      qed
      then have "prefix (path @ [slash]) ?p" using join_path_append[of "split_on slash path" r] r by (simp add: join_split)
      then have "map_of changes ?p \<noteq> None"
        using ch(2) path(1) tracked unfolding removals_closed_def list_all_iff by (fastforce dest: map_of_SomeD)
      with 1 show False by blast
    qed
    with 1 show ?thesis unfolding new old by auto
  next
    case 2
    then have "(?p, None) \<in> set changes" by (rule map_of_SomeD)
    with 2 show ?thesis unfolding new using split by force
  qed
qed (auto simp: flat_of_def)

section \<open>Refinement\<close>

lemma patch_openable:
  assumes "codec_laws (tp_io p) (tp_crypto p)"
    and "\<And>key s pl. tp_objects p key = Inr s \<Longrightarrow> seal (tp_io p) (write_epoch (tp_crypto p)) pl = Inr s \<Longrightarrow>
      plaintext_len (tp_io p) pl \<le> max_decoded_bytes (tp_limits p) \<and> sealed_len (tp_io p) s \<le> max_sealed_bytes (tp_limits p)"
  shows "openable p (node_within (tp_limits p))"
  unfolding openable_def
proof (intro allI impI)
  fix key es
  assume node: "node_at (tp_io p) (tp_crypto p) (tp_objects p) key (TreeNode_new (write_epoch (tp_crypto p)) es)"
    and within: "node_within (tp_limits p) es"
  show "patch_open_node p key = Inr (TreeNode_new (write_epoch (tp_crypto p)) es)"
    by (rule open_node_at[OF assms(1) node assms(2) within]) (simp_all add: patch_open_node_def)
qed

lemma patch_edited:
  assumes open_ok: "openable p good" and root: "patch_reads p good root (flat_of entries)"
    and wf: "bt_ok entries" "proper_paths entries" "consistent (flat_of entries)"
    and ok: "patchable entries changes" "consistent (flat_of (update_entries entries changes))"
  shows "\<exists>node node1 node2. EditableNode_open p root = Inr node \<and> apply_changes p (removals changes) node = Inr node1
    \<and> apply_changes p (replacements changes) node1 = Inr node2
    \<and> patch_edits p good node2 (flat_of (update_entries entries changes))"
proof -
  let ?m = "flat_of entries" and ?m' = "flat_of (update_entries entries changes)"
  obtain node where node: "EditableNode_open p root = Inr node" "patch_edits p good node ?m"
    using open_edits[OF open_ok root] by blast
  have none: "\<forall>(path, r) \<in> set (removals changes). r = None" by (auto simp: removals_def)
  obtain node1 where node1: "apply_changes p (removals changes) node = Inr node1"
    "patch_edits p good node1 (change_all (removals changes) ?m)" "consistent (change_all (removals changes) ?m)"
    using apply_changes_edits[OF open_ok node(2) wf(3) change_all_removals(1)[OF none]] by blast
  have "all_passable (replacements changes) (change_all (removals changes) ?m)
      \<and> change_all (replacements changes) (change_all (removals changes) ?m) = ?m'"
  proof (rule change_all_replacements[OF ok(2)])
    show "\<forall>(path, r) \<in> set (replacements changes). \<exists>e. r = Some e \<and> ?m' (split_on slash path) = Some e"
      using replaced_entry[OF wf(1,2) ok(1)] by (auto simp: replacements_def)
    show "sorted (map (\<lambda>(path, _). path_depth path) (replacements changes))"
      by (simp add: replacements_def)
    show "change_all (removals changes) ?m q = ?m' q"
      if "q \<notin> (\<lambda>(path, _). split_on slash path) ` set (replacements changes)" for q
      using removals_leave[OF wf(1) ok(1)] that change_all_removals(2)[OF none, of ?m q]
      by (simp add: removals_def replacements_def)
  qed
  with apply_changes_edits[OF open_ok node1(2,3)] node node1(1) show ?thesis by metis
qed

lemma patch_tree_edited:
  assumes codec: "codec_laws io crypto"
    and env: "we_io env = io" "we_crypto env = crypto" "we_objects env = objs" "we_limits env = DecodeLimits_default"
      "objects_fit env B"
    and wf: "bt_ok entries" "proper_paths entries" "decompose entries = Inr nodes"
      "limits_suffice DecodeLimits_default B entries nodes"
    and st: "stored io crypto (write_epoch crypto) objs nodes dir_root root"
    and ok: "patchable entries changes" "decompose (update_entries entries changes) = Inr nodes'"
    and p: "p = \<lparr>tp_io = io, tp_crypto = crypto, tp_objects = objs, tp_limits = DecodeLimits_default\<rparr>"
  shows "\<exists>node good. patch_edits p good node (flat_of (update_entries entries changes))
    \<and> patch_tree io crypto objs put root changes =
       (case persist_node p node [] of Inl e \<Rightarrow> Inl e
        | Inr (key, uploads) \<Rightarrow>
            (case put uploads of Inl e \<Rightarrow> Inl (Tree_Transport e) | Inr objs \<Rightarrow> Inr (key, objs)))"
proof -
  have open_ok: "openable p (node_within DecodeLimits_default)"
    using patch_openable[of p] codec env unfolding p objects_fit_def by force
  have model: "nodes_model nodes (flat_of entries) (implied (flat_of entries))" using decompose_nodes_model[OF wf(1-3)] .
  note within = limits_within[OF wf]
  have "reads io crypto objs (node_within DecodeLimits_default) root (relative (flat_of entries) [])"
  proof (rule stored_reads[OF model])
    show "valid_path q" if "flat_of entries q \<noteq> None" for q using that by (rule flat_of_valid)
    show "node_within DecodeLimits_default (entries_with keys children)"
      if "valid_path cs" "map_of nodes (join_path cs) = Some children" for cs children keys
      by (rule tree_node_within[OF within that(2,1)])
  qed (use st in \<open>simp_all add: dir_root_def\<close>)
  then have root: "patch_reads p (node_within DecodeLimits_default) root (flat_of entries)"
    by (simp add: p relative_Nil flat_of_def)
  have ch: "bt_ok changes" "list_all (\<lambda>(path, _). [] \<notin> set (split_on slash path)) changes"
    using ok(1) by (simp_all add: patchable_def)
  have "consistent (flat_of (update_entries entries changes))"
    using decompose_consistent[OF update_entries_ok[OF wf(1)] proper_paths_update[OF wf(1) bt_ok_distinct[OF ch(1)] wf(2) ch(2)] ok(2)] .
  from patch_edited[OF open_ok root wf(1,2) decompose_consistent[OF wf(1-3)] ok(1) this]
  obtain node node1 node2 where "EditableNode_open p root = Inr node" "apply_changes p (removals changes) node = Inr node1"
    "apply_changes p (replacements changes) node1 = Inr node2"
    "patch_edits p (node_within DecodeLimits_default) node2 (flat_of (update_entries entries changes))" by blast
  then show ?thesis unfolding patch_tree_def Let_def p[symmetric] by auto
qed

lemma patch_sealed:
  assumes edited: "patch_edits p good node (flat_of entries)"
    and p: "p = \<lparr>tp_io = io, tp_crypto = crypto, tp_objects = objs, tp_limits = limits\<rparr>"
    and run: "persist_node p node [] = Inr (key, uploads)" and put: "put_laws objs put" "put uploads = Inr objs'"
    and wf: "bt_ok entries" "proper_paths entries" "decompose entries = Inr nodes"
  shows "stored io crypto (write_epoch crypto) objs' nodes dir_root key"
proof -
  have held: "uploads_held objs' uploads" and keep: "\<And>k s. tp_objects p k = Inr s \<Longrightarrow> objs' k = Inr s"
    using put unfolding put_laws_def uploads_held_def p by auto
  have "reads io crypto objs' (\<lambda>_. True) key (relative (flat_of entries) [])"
    using persist_reads[OF keep edited run held] by (simp add: p relative_Nil flat_of_def)
  then show ?thesis
    using reads_stored[OF decompose_nodes_model[OF wf] flat_of_valid, where key = key and cs = "[]"]
    by (simp add: dir_root_def is_dir_def)
qed

lemma patch_tree_updates:
  assumes "codec_laws io crypto" "put_laws objs put"
    and "we_io env = io" "we_crypto env = crypto" "we_objects env = objs" "we_limits env = DecodeLimits_default"
      "objects_fit env B"
    and "bt_ok entries" "proper_paths entries" "decompose entries = Inr nodes"
      "limits_suffice DecodeLimits_default B entries nodes"
      "stored io crypto (write_epoch crypto) objs nodes dir_root root"
    and "patchable entries changes" "decompose (update_entries entries changes) = Inr nodes'"
    and p: "p = \<lparr>tp_io = io, tp_crypto = crypto, tp_objects = objs, tp_limits = DecodeLimits_default\<rparr>"
  obtains node where "patch_tree io crypto objs put root changes =
      (case persist_node p node [] of Inl e \<Rightarrow> Inl e
       | Inr (key, uploads) \<Rightarrow>
           (case put uploads of Inl e \<Rightarrow> Inl (Tree_Transport e) | Inr objs \<Rightarrow> Inr (key, objs)))"
    "\<forall>key uploads objs'. persist_node p node [] = Inr (key, uploads) \<longrightarrow> put uploads = Inr objs' \<longrightarrow>
      stored io crypto (write_epoch crypto) objs' nodes' dir_root key"
    "bt_ok (update_entries entries changes)" "proper_paths (update_entries entries changes)"
proof -
  obtain node good where node: "patch_edits p good node (flat_of (update_entries entries changes))"
    "patch_tree io crypto objs put root changes = (case persist_node p node [] of Inl e \<Rightarrow> Inl e
      | Inr (key, uploads) \<Rightarrow> (case put uploads of Inl e \<Rightarrow> Inl (Tree_Transport e) | Inr objs \<Rightarrow> Inr (key, objs)))"
    using patch_tree_edited[OF assms(1,3-15)] by blast
  have ch: "bt_ok changes" "list_all (\<lambda>(path, _). [] \<notin> set (split_on slash path)) changes"
    using assms(13) by (simp_all add: patchable_def)
  note new = update_entries_ok[OF assms(8)] proper_paths_update[OF assms(8) bt_ok_distinct[OF ch(1)] assms(9) ch(2)]
  show thesis
    using that[OF node(2) _ new] patch_sealed[OF node(1) p _ assms(2) _ new assms(14)] by blast
qed

section \<open>A concrete patch\<close>

text \<open>
  The plain codec over a store that holds the tree of the plain manifest. The change moves
  its symlink, so that the directory it was in disappears.
\<close>

definition plain_objects :: "TreeNode objects" where
  "plain_objects key =
     (if key = ''m_a'' then Inr (TreeNode_new 2 [\<lparr>te_name = ''a'', te_payload = Tree_Subtree ''m_x''\<rparr>])
      else if key = ''m_x'' then Inr (TreeNode_new 2 [\<lparr>te_name = ''x'', te_payload = Tree_Symlink 511 ''y''\<rparr>])
      else Inl ''missing'')"

definition plain_add :: "TreeNode objects \<Rightarrow> TreeNode manifest_upload list \<Rightarrow> string + TreeNode objects" where
  "plain_add objs batch =
     (let objs' = (\<lambda>key. case map_of (map (\<lambda>u. (up_key u, up_sealed u)) batch) key of
                     Some sealed \<Rightarrow> Inr sealed | None \<Rightarrow> objs key)
      in if list_all (\<lambda>u. objs' (up_key u) = Inr (up_sealed u)
              \<and> (objs (up_key u) = Inr (up_sealed u) \<or> \<not> is_ok (objs (up_key u)))) batch
         then Inr objs' else Inl ''conflict'')"

definition plain_changes :: "(WorkspacePath, ManifestEntry option) btree_map" where
  "plain_changes = [(''a/x'', None), (''b'', Some (Symlink 511 ''y''))]"

lemma plain_add_laws: "put_laws objs (plain_add objs)"
  unfolding put_laws_def
proof (intro allI impI conjI)
  fix batch objs'
  assume put: "plain_add objs batch = Inr objs'"
  then show "\<forall>u \<in> set batch. objs' (up_key u) = Inr (up_sealed u)"
    by (auto simp: plain_add_def Let_def list_all_iff split: if_splits)
  show "objs' key = Inr s" if "objs key = Inr s" for key s
  proof (cases "map_of (map (\<lambda>u. (up_key u, up_sealed u)) batch) key")
    case None
    with put that show ?thesis by (auto simp: plain_add_def Let_def split: if_splits)
  next
    case (Some sealed)
    then obtain u where "u \<in> set batch" "up_key u = key" "up_sealed u = sealed" by (auto dest!: map_of_SomeD)
    with put that Some show ?thesis by (auto simp: plain_add_def Let_def list_all_iff split: if_splits)
  qed
qed

lemma plain_stored: "stored plain_io plain_crypto 2 plain_objects plain_nodes dir_root ''m_a''"
proof -
  have leaf: "stored plain_io plain_crypto 2 plain_objects plain_nodes ''a'' ''m_x''"
    by (rule stored_node[where keys = "\<lambda>_. []" and children = "[(''x'', Leaf (Symlink 511 ''y''))]"])
      (simp_all add: plain_nodes_def needs_hash_def node_at_def entries_with_def plain_objects_def plain_io_def
        physical_manifest_key_def TreeNode_new_def)
  show ?thesis
    by (rule stored_node[where keys = "\<lambda>_. ''m_x''" and children = "[(''a'', Child_Subtree)]"])
      (use leaf in \<open>simp_all add: plain_nodes_def needs_hash_def node_at_def entries_with_def plain_objects_def plain_io_def
        physical_manifest_key_def TreeNode_new_def dir_root_def dir_child_def\<close>)
qed

lemma plain_update:
  "update_entries (mf_entries plain_snapshot) plain_changes = [(''b'', Symlink 511 ''y'')]"
  "patchable (mf_entries plain_snapshot) plain_changes"
  "decompose [(''b'', Symlink 511 ''y'')] = Inr [([], [(''b'', Leaf (Symlink 511 ''y''))])]"
  by code_simp+

lemma plain_new_limits:
  "limits_suffice DecodeLimits_default 2 [(''b'', Symlink 511 ''y'')] [([], [(''b'', Leaf (Symlink 511 ''y''))])]"
proof -
  have "publishable_workspace_path ''b'' 4096 False = Inr ()"
    by (simp add: publishable_iff MAX_WORKSPACE_PATH_DEPTH_def is_private_workspace_state_path_def
        is_recovery_temp_component_def is_recovery_quarantine_component_def is_recovery_nonce_component_def
        strip_prefix_def)
  then have "clears DecodeLimits_default ''b''"
    by (simp add: clears_def validate_manifest_path_def DecodeLimits_default_def MAX_WORKSPACE_PATH_LEN_def)
  then show ?thesis
    by (simp add: limits_suffice_def entry_within_def path_component_def
        DecodeLimits_default_def MAX_NAME_LEN_def MAX_WORKSPACE_PATH_LEN_def declared_def u64_MAX_def)
qed

lemma plain_patch:
  obtains root objs where "patch_tree plain_io plain_crypto plain_objects (plain_add plain_objects) ''m_a'' plain_changes
      = Inr (root, objs)"
proof -
  have limits: "max_sealed_bytes DecodeLimits_default \<ge> 1" "max_decoded_bytes DecodeLimits_default \<ge> 1"
    "max_node_entries DecodeLimits_default \<ge> 1" "max_name_len DecodeLimits_default \<ge> 1"
    "max_path_len DecodeLimits_default \<ge> 1"
    by (simp_all add: DecodeLimits_default_def MAX_NAME_LEN_def MAX_WORKSPACE_PATH_LEN_def)
  have "\<exists>root objs. patch_tree plain_io plain_crypto plain_objects (plain_add plain_objects) ''m_a'' plain_changes = Inr (root, objs)"
    using limits
    by (simp add: patch_tree_def EditableNode_open_def patch_open_node_def plain_objects_def physical_manifest_key_def
        plain_io_def plain_crypto_def open_tree_node_def TreeNode_decode_def TreeNode_new_def validate_name_def
        filter_option_def from_tree_node_def bt_collect_def removals_def replacements_def plain_changes_def path_depth_def
        apply_descendant_def apply_leaf_def child_mut_def replacement_payload_def upload_node_def to_canonical_bytes_def
        seal_tree_node_def plain_add_def Let_def not_less)
  with that show thesis by blast
qed

section \<open>The properties\<close>

text \<open>A patch fails only if the upload does: over a stored manifest and a set of changes whose
  removals are closed and whose result has no file-and-directory clash, the patch opens every
  node it needs, is never sent through a leaf, reaches none of its internal errors, and hands
  over one batch of uploads. If the upload goes through, the returned key names the tree of
  the updated manifest, with everything below it.\<close>

theorem patch_fails_only_in_upload:
  assumes "codec_laws io crypto" "io_total io crypto" "put_laws objs put"
    and "we_io env = io" "we_crypto env = crypto" "we_objects env = objs" "we_limits env = DecodeLimits_default"
      "objects_fit env B"
    and "bt_ok entries" "proper_paths entries" "decompose entries = Inr nodes"
      "limits_suffice DecodeLimits_default B entries nodes"
      "stored io crypto (write_epoch crypto) objs nodes dir_root root"
    and "patchable entries changes" "decompose (update_entries entries changes) = Inr nodes'"
  shows "\<exists>key uploads.
    patch_tree io crypto objs put root changes =
      (case put uploads of Inl e \<Rightarrow> Inl (Tree_Transport e) | Inr objs' \<Rightarrow> Inr (key, objs'))
    \<and> (\<forall>objs'. put uploads = Inr objs' \<longrightarrow> stored io crypto (write_epoch crypto) objs' nodes' dir_root key)"
proof -
  let ?p = "\<lparr>tp_io = io, tp_crypto = crypto, tp_objects = objs, tp_limits = DecodeLimits_default\<rparr>"
  obtain node where node: "patch_tree io crypto objs put root changes = (case persist_node ?p node [] of Inl e \<Rightarrow> Inl e
      | Inr (key, uploads) \<Rightarrow> (case put uploads of Inl e \<Rightarrow> Inl (Tree_Transport e) | Inr objs \<Rightarrow> Inr (key, objs)))"
    "\<forall>key uploads objs'. persist_node ?p node [] = Inr (key, uploads) \<longrightarrow> put uploads = Inr objs' \<longrightarrow>
      stored io crypto (write_epoch crypto) objs' nodes' dir_root key"
    "bt_ok (update_entries entries changes)" "proper_paths (update_entries entries changes)"
    by (rule patch_tree_updates[OF assms(1,3-15) refl])
  obtain key uploads where "persist_node ?p node [] = Inr (key, uploads)"
    using persist_total(1)[of ?p node "[]"] assms(2) by auto
  with node show ?thesis by auto
qed

theorem patch_fails_only_in_upload_witness:
  "\<exists>key uploads.
    patch_tree plain_io plain_crypto plain_objects (plain_add plain_objects) ''m_a'' plain_changes =
      (case plain_add plain_objects uploads of Inl e \<Rightarrow> Inl (Tree_Transport e) | Inr objs' \<Rightarrow> Inr (key, objs'))
    \<and> (\<forall>objs'. plain_add plain_objects uploads = Inr objs' \<longrightarrow>
        stored plain_io plain_crypto 2 objs' [([], [(''b'', Leaf (Symlink 511 ''y''))])] dir_root key)"
proof -
  have e: "write_epoch plain_crypto = 2" by (simp add: plain_crypto_def)
  have m: "bt_ok (mf_entries plain_snapshot)" "proper_paths (mf_entries plain_snapshot)"
    using plain_tree(1) by (simp_all add: manifest_ok_def)
  show ?thesis
    by (rule patch_fails_only_in_upload[where crypto = plain_crypto and env = "plain_env plain_objects None" and B = 2 and nodes = plain_nodes
          and entries = "mf_entries plain_snapshot", unfolded e])
      (simp_all add: plain_laws plain_add_laws plain_tree m plain_limits plain_stored plain_update
        plain_limits[unfolded plain_env_def] plain_env_def)
qed

text \<open>C26. Patching refines updating: when a patch of a stored manifest returns, a fetch of the
  returned root key yields exactly the manifest with the changes applied entry by entry, so
  that publishing a delta and publishing the whole updated manifest are the same to a reader.\<close>

theorem patch_refines_update:
  assumes "patch_tree io crypto objs put root changes = Inr (root', objs')"
    and "codec_laws io crypto" "put_laws objs put"
    and "we_io env = io" "we_crypto env = crypto" "we_objects env = objs" "we_limits env = DecodeLimits_default"
      "objects_fit env B"
    and "bt_ok entries" "proper_paths entries" "decompose entries = Inr nodes"
      "limits_suffice DecodeLimits_default B entries nodes"
      "stored io crypto (write_epoch crypto) objs nodes dir_root root"
    and "patchable entries changes" "decompose (update_entries entries changes) = Inr nodes'"
    and "we_io env' = io" "we_crypto env' = crypto" "we_objects env' = objs'" "we_prune env' = None"
      "objects_fit env' B'" "limits_suffice (we_limits env') B' (update_entries entries changes) nodes'"
  shows "\<exists>tree. fetch_tree env' root' = Inr tree
    \<and> ft_manifest tree = \<lparr>mf_key_epoch = write_epoch crypto, mf_entries = update_entries entries changes\<rparr>"
proof -
  let ?p = "\<lparr>tp_io = io, tp_crypto = crypto, tp_objects = objs, tp_limits = DecodeLimits_default\<rparr>"
  obtain node where node: "patch_tree io crypto objs put root changes = (case persist_node ?p node [] of Inl e \<Rightarrow> Inl e
      | Inr (key, uploads) \<Rightarrow> (case put uploads of Inl e \<Rightarrow> Inl (Tree_Transport e) | Inr objs \<Rightarrow> Inr (key, objs)))"
    and sealed: "\<forall>key uploads objs'. persist_node ?p node [] = Inr (key, uploads) \<longrightarrow> put uploads = Inr objs' \<longrightarrow>
      stored io crypto (write_epoch crypto) objs' nodes' dir_root key"
    and new: "bt_ok (update_entries entries changes)" "proper_paths (update_entries entries changes)"
    by (rule patch_tree_updates[OF assms(2-15) refl])
  have "stored io crypto (write_epoch crypto) objs' nodes' dir_root root'"
    using assms(1) sealed unfolding node by (auto split: sum.splits)
  moreover have "prune_sound env'" using assms(19) by (simp add: prune_sound_def)
  ultimately show ?thesis using fetch_stored[OF _ assms(20) _ new assms(15,21), of root'] assms(2,16-18) by simp
qed

theorem patch_refines_update_witness:
  "\<exists>root objs tree. patch_tree plain_io plain_crypto plain_objects (plain_add plain_objects) ''m_a'' plain_changes = Inr (root, objs)
    \<and> fetch_tree (plain_env objs None) root = Inr tree
    \<and> ft_manifest tree = \<lparr>mf_key_epoch = 2, mf_entries = [(''b'', Symlink 511 ''y'')]\<rparr>"
proof -
  have e: "write_epoch plain_crypto = 2" by (simp add: plain_crypto_def)
  have m: "bt_ok (mf_entries plain_snapshot)" "proper_paths (mf_entries plain_snapshot)"
    using plain_tree(1) by (simp_all add: manifest_ok_def)
  obtain root objs where run: "patch_tree plain_io plain_crypto plain_objects (plain_add plain_objects) ''m_a'' plain_changes
      = Inr (root, objs)" by (rule plain_patch)
  have "\<exists>tree. fetch_tree (plain_env objs None) root = Inr tree
      \<and> ft_manifest tree = \<lparr>mf_key_epoch = 2, mf_entries = [(''b'', Symlink 511 ''y'')]\<rparr>"
    by (rule patch_refines_update[OF run, where env = "plain_env plain_objects None" and B = 2 and nodes = plain_nodes
          and entries = "mf_entries plain_snapshot" and B' = 2 and nodes' = "[([], [(''b'', Leaf (Symlink 511 ''y''))])]",
          unfolded e plain_update(1)])
      (simp_all add: plain_laws plain_add_laws plain_tree m plain_limits plain_stored plain_update plain_new_limits
        plain_limits[unfolded plain_env_def] plain_env_def)
  with run show ?thesis by blast
qed

end
