(* ===== verification/Symlink_Containment.thy ===== *)
theory Symlink_Containment
  imports Workspace_Paths
begin

text \<open>
  Where a symbolic link points: the lexical resolution of \<^verbatim>\<open>bowline-core/workspace_graph.rs\<close>,
  which a push uses to refuse a link, and the on-disk walk of \<^verbatim>\<open>fs_guard.rs\<close>, which decides
  whether a pulled link is created. The file system is the function \<open>look\<close> from a workspace
  path to what \<open>symlink_metadata\<close> and \<open>read_link\<close> say about it. \<open>escapes\<close> is how the kernel
  resolves a path: it follows links component by component and reads \<open>..\<close> from the directory
  it has really reached.
\<close>

section \<open>The lexical gate\<close>

fun resolve_components :: "string list \<Rightarrow> string list \<Rightarrow> string list option" where
  "resolve_components resolved [] = Some resolved"
| "resolve_components resolved (component # rest) =
     (if component = [] \<or> component = ''.'' then resolve_components resolved rest
      else if component = ''..'' then
        (if resolved = [] then None else resolve_components (butlast resolved) rest)
      else resolve_components (resolved @ [component]) rest)"

definition resolve_symlink_target :: "string \<Rightarrow> string \<Rightarrow> string option" where
  "resolve_symlink_target link_path target =
     (if target = [] \<or> prefix [slash] target then None
      else
        (let link = normalize_workspace_path link_path
         in if link = [] then None
            else map_option (\<lambda>resolved. normalize_workspace_path (join_path resolved))
              (resolve_components (butlast (split_on slash link)) (split_on slash target))))"

definition symlink_target_stays_in_workspace :: "string \<Rightarrow> string \<Rightarrow> bool" where
  "symlink_target_stays_in_workspace link_path target \<longleftrightarrow> resolve_symlink_target link_path target \<noteq> None"

section \<open>The on-disk gate\<close>

text \<open>
  A link whose target cannot be read, or is not UTF-8, has no target here. The hop counter
  saturates in the code; it never gets that far.
\<close>

datatype lstat = Lstat_Missing | Lstat_Error | Lstat_Link "string option" | Lstat_Other

definition MAX_SYMLINK_HOPS :: nat where
  "MAX_SYMLINK_HOPS = 40"

definition path_components :: "string \<Rightarrow> string list" where
  "path_components path = filter (\<lambda>component. component \<noteq> []) (split_on slash path)"

function lands_walk :: "(string \<Rightarrow> lstat) \<Rightarrow> nat \<Rightarrow> string list \<Rightarrow> string list \<Rightarrow> bool" where
  "lands_walk look hops walked [] = True"
| "lands_walk look hops walked (component # pending) =
     (let walked = walked @ [component]; walked_path = join_path walked
      in case look walked_path of
           Lstat_Missing \<Rightarrow> True
         | Lstat_Error \<Rightarrow> False
         | Lstat_Other \<Rightarrow> lands_walk look hops walked pending
         | Lstat_Link hop \<Rightarrow>
             if hops + 1 > MAX_SYMLINK_HOPS then False
             else (case hop of
                 None \<Rightarrow> False
               | Some hop_target \<Rightarrow>
                   (case resolve_symlink_target walked_path hop_target of
                      None \<Rightarrow> False
                    | Some hop_resolved \<Rightarrow>
                        lands_walk look (hops + 1) [] (path_components hop_resolved @ pending))))"
  by pat_completeness auto
termination
  by (relation "measures [\<lambda>(look, hops, walked, pending). MAX_SYMLINK_HOPS - hops,
        \<lambda>(look, hops, walked, pending). length pending]") auto

definition symlink_target_lands_in_workspace :: "(string \<Rightarrow> lstat) \<Rightarrow> string \<Rightarrow> string \<Rightarrow> bool" where
  "symlink_target_lands_in_workspace look link target =
     (case resolve_symlink_target link target of
        None \<Rightarrow> False
      | Some resolved \<Rightarrow> lands_walk look 0 [] (path_components resolved))"

section \<open>The kernel's resolution\<close>

text \<open>
  \<open>escapes look dir rest\<close>: resolving \<open>rest\<close> from the real directory \<open>dir\<close> of the workspace
  leaves the workspace, or meets something of which nothing is known.
\<close>

abbreviation special :: "string set" where
  "special \<equiv> {[], ''.'', ''..''}"

inductive escapes :: "(string \<Rightarrow> lstat) \<Rightarrow> string list \<Rightarrow> string list \<Rightarrow> bool"
  for look :: "string \<Rightarrow> lstat" where
  climb: "escapes look [] (''..'' # rest)"
| up: "dir \<noteq> [] \<Longrightarrow> escapes look (butlast dir) rest \<Longrightarrow> escapes look dir (''..'' # rest)"
| stay: "c = [] \<or> c = ''.'' \<Longrightarrow> escapes look dir rest \<Longrightarrow> escapes look dir (c # rest)"
| enter: "c \<notin> special \<Longrightarrow> look (join_path (dir @ [c])) = Lstat_Other \<Longrightarrow>
    escapes look (dir @ [c]) rest \<Longrightarrow> escapes look dir (c # rest)"
| follow: "c \<notin> special \<Longrightarrow> look (join_path (dir @ [c])) = Lstat_Link (Some target) \<Longrightarrow>
    \<not> prefix [slash] target \<Longrightarrow> escapes look dir (split_on slash target @ rest) \<Longrightarrow>
    escapes look dir (c # rest)"
| absolute: "c \<notin> special \<Longrightarrow> look (join_path (dir @ [c])) = Lstat_Link (Some target) \<Longrightarrow>
    prefix [slash] target \<Longrightarrow> escapes look dir (c # rest)"
| unknown: "c \<notin> special \<Longrightarrow> look (join_path (dir @ [c])) \<in> {Lstat_Link None, Lstat_Error} \<Longrightarrow>
    escapes look dir (c # rest)"

inductive_cases escapes_NilE: "escapes look dir []"
inductive_cases escapes_ConsE: "escapes look dir (c # rest)"

text \<open>A target is straight when it climbs first, names after that, and has no backslash.\<close>

fun straight_components :: "string list \<Rightarrow> bool" where
  "straight_components [] \<longleftrightarrow> True"
| "straight_components (c # cs) \<longleftrightarrow>
     (if c \<in> special then straight_components cs else ''..'' \<notin> set cs)"

definition straight :: "string \<Rightarrow> bool" where
  "straight target \<longleftrightarrow> backslash \<notin> set target \<and> straight_components (split_on slash target)"

definition real_dir :: "(string \<Rightarrow> lstat) \<Rightarrow> string list \<Rightarrow> bool" where
  "real_dir look dir \<longleftrightarrow>
     list_all (\<lambda>pre. pre = [] \<or> look (join_path pre) = Lstat_Other) (prefixes dir)"

definition names :: "string list \<Rightarrow> bool" where
  "names cs \<longleftrightarrow> list_all (\<lambda>c. c \<notin> special \<and> slash \<notin> set c \<and> backslash \<notin> set c) cs"

lemma names_simps [simp]:
  "names []"
  "names (c # cs) \<longleftrightarrow> c \<notin> special \<and> slash \<notin> set c \<and> backslash \<notin> set c \<and> names cs"
  "names (cs @ ds) \<longleftrightarrow> names cs \<and> names ds"
  by (auto simp: names_def)

lemma real_dir_iff:
  "real_dir look dir \<longleftrightarrow> (\<forall>pre. prefix pre dir \<longrightarrow> pre = [] \<or> look (join_path pre) = Lstat_Other)"
  by (auto simp: real_dir_def list_all_iff in_set_prefixes)

lemma real_dir_Nil [simp]: "real_dir look []"
  by (simp add: real_dir_iff)

lemma real_dir_snoc:
  "real_dir look (dir @ [c]) \<longleftrightarrow> real_dir look dir \<and> look (join_path (dir @ [c])) = Lstat_Other"
  by (auto simp: real_dir_iff)

lemma real_dir_prefix: "real_dir look dir \<Longrightarrow> prefix pre dir \<Longrightarrow> real_dir look pre"
  by (auto simp: real_dir_iff dest: prefix_order.trans)

lemma real_dir_butlast: "real_dir look dir \<Longrightarrow> real_dir look (butlast dir)"
  by (cases dir rule: rev_cases) (auto simp: real_dir_snoc)

lemma names_butlast: "names dir \<Longrightarrow> names (butlast dir)"
  by (cases dir rule: rev_cases) auto

section \<open>Names survive normalization\<close>

lemma join_path_chars: "names cs \<Longrightarrow> backslash \<notin> set (join_path cs)"
  by (induction cs rule: join_path.induct) auto

lemma join_path_canonical:
  assumes "names cs"
  shows "normalize_workspace_path (join_path cs) = join_path cs"
proof (cases "cs = []")
  case True
  then show ?thesis by (simp add: normalize_fixpoint_iff canonical_path_def)
next
  case False
  have split: "split_on slash (join_path cs) = cs"
    using assms by (intro split_join False) (auto simp: names_def list_all_iff)
  then have "join_path cs \<noteq> []" using assms by (cases "join_path cs") (auto simp: names_def)
  then have "canonical_path (join_path cs)"
    using canonical_components[of "join_path cs"] assms join_path_chars[OF assms]
    by (auto simp: split names_def list_all_iff)
  then show ?thesis by (rule canonical_normalize)
qed

lemma components_join_path: "names cs \<Longrightarrow> path_components (join_path cs) = cs"
proof -
  assume n: "names cs"
  show ?thesis
  proof (cases "cs = []")
    case False
    then have "split_on slash (join_path cs) = cs"
      using n by (intro split_join False) (auto simp: names_def list_all_iff)
    then show ?thesis using n by (auto simp: path_components_def names_def list_all_iff intro!: filter_True)
  qed (simp add: path_components_def)
qed

lemma resolve_components_names:
  assumes "resolve_components dir cs = Some resolved" and "names dir"
    and "list_all (\<lambda>c. slash \<notin> set c \<and> backslash \<notin> set c) cs"
  shows "names resolved"
  using assms by (induction dir cs rule: resolve_components.induct) (auto simp: names_butlast split: if_splits)

lemma split_chars: "part \<in> set (split_on c s) \<Longrightarrow> set part \<subseteq> set s"
proof (induction s arbitrary: part)
  case (Cons x s)
  obtain p ps where "split_on c s = p # ps" by (cases "split_on c s") auto
  with Cons.prems Cons.IH[of part] Cons.IH[of p] show ?case by (auto split: if_splits)
qed simp

lemma straight_parts: "straight target \<Longrightarrow>
    list_all (\<lambda>c. slash \<notin> set c \<and> backslash \<notin> set c) (split_on slash target)"
  using split_chars[of _ slash target] split_no_slash[of _ slash target]
  by (fastforce simp: straight_def list_all_iff)

section \<open>The on-disk gate is sound for straight targets\<close>

text \<open>Walking down a real directory changes nothing.\<close>

lemma escapes_through:
  assumes "real_dir look (dir @ down)" and "names down" and "escapes look (dir @ down) rest"
  shows "escapes look dir (down @ rest)"
  using assms
proof (induction down arbitrary: dir)
  case (Cons c down)
  have "real_dir look (dir @ [c])"
    using Cons.prems(1) by (rule real_dir_prefix) simp
  then show ?case using Cons.prems Cons.IH[of "dir @ [c]"] by (simp add: real_dir_snoc escapes.enter)
qed simp


text \<open>Empty components and dots do not matter.\<close>

abbreviation clean :: "string list \<Rightarrow> string list" where
  "clean \<equiv> filter (\<lambda>c. c \<noteq> [] \<and> c \<noteq> ''.'')"

lemma escapes_noise: "clean pre = [] \<Longrightarrow> escapes look dir rest \<Longrightarrow> escapes look dir (pre @ rest)"
  by (induction pre) (auto intro: escapes.stay split: if_splits)

lemma clean_ConsE:
  assumes "clean xs = c # rest"
  obtains pre xs' where "xs = pre @ c # xs'" and "clean pre = []" and "clean xs' = rest"
  using assms by (auto simp: filter_eq_Cons_iff)

lemma escapes_clean:
  assumes "escapes look dir ys" and "clean xs = clean ys"
  shows "escapes look dir xs"
  using assms
proof (induction arbitrary: xs rule: escapes.induct)
  case (climb rest)
  then obtain pre xs' where "xs = pre @ ''..'' # xs'" "clean pre = []" "clean xs' = clean rest"
    by (auto elim: clean_ConsE)
  then show ?case by (simp add: escapes_noise escapes.climb)
next
  case (up dir rest)
  then obtain pre xs' where "xs = pre @ ''..'' # xs'" "clean pre = []" "clean xs' = clean rest"
    by (auto elim: clean_ConsE)
  with up show ?case by (simp add: escapes_noise escapes.up)
next
  case (stay c dir rest)
  then show ?case by auto
next
  case (enter c dir rest)
  then obtain pre xs' where "xs = pre @ c # xs'" "clean pre = []" "clean xs' = clean rest"
    by (auto elim: clean_ConsE)
  with enter show ?case by (simp add: escapes_noise escapes.enter)
next
  case (follow c dir target rest)
  then obtain pre xs' where "xs = pre @ c # xs'" "clean pre = []" "clean xs' = clean rest"
    by (auto elim: clean_ConsE)
  with follow show ?case by (simp add: escapes_noise escapes.follow)
next
  case (absolute c dir target rest)
  then obtain pre xs' where "xs = pre @ c # xs'" "clean pre = []" "clean xs' = clean rest"
    by (auto elim: clean_ConsE)
  with absolute show ?case by (simp add: escapes_noise escapes.absolute)
next
  case (unknown c dir rest)
  then obtain pre xs' where "xs = pre @ c # xs'" "clean pre = []" "clean xs' = clean rest"
    by (auto elim: clean_ConsE)
  with unknown show ?case by (simp add: escapes_noise escapes.unknown)
qed

lemma resolve_components_descend:
  "''..'' \<notin> set cs \<Longrightarrow> resolve_components dir cs = Some (dir @ clean cs)"
  by (induction cs arbitrary: dir) auto

text \<open>Resolving a straight target lexically first and walking down afterwards escapes whenever
  the kernel does.\<close>

lemma escapes_resolved:
  assumes "resolve_components dir cs = Some resolved" and "straight_components cs"
    and "names dir" and "real_dir look dir" and "escapes look dir (cs @ rest)"
  shows "escapes look [] (resolved @ rest)"
  using assms
proof (induction dir cs rule: resolve_components.induct)
  case (1 dir)
  then show ?case using escapes_through[of look "[]" dir rest] by simp
next
  case (2 dir c cs)
  consider "c = [] \<or> c = ''.''" | "c = ''..''" "dir \<noteq> []" | "c \<notin> special"
    using "2.prems"(1) by (auto split: if_splits)
  then show ?case
  proof cases
    case 1
    then have "escapes look dir (cs @ rest)" using "2.prems"(5) by (auto elim: escapes_ConsE)
    with 1 "2.prems" show ?thesis by (auto intro: "2.IH"(1))
  next
    case 2
    then have "escapes look (butlast dir) (cs @ rest)" using "2.prems"(5) by (auto elim: escapes_ConsE)
    with 2 "2.prems" show ?thesis by (auto intro: "2.IH"(2) names_butlast real_dir_butlast)
  next
    case 3
    then have r: "resolved = dir @ c # clean cs"
      using "2.prems"(1,2) resolve_components_descend[of cs "dir @ [c]"] by auto
    have "escapes look dir (c # clean cs @ rest)"
      using "2.prems"(5) by (rule escapes_clean) simp
    then show ?thesis using escapes_through[of look "[]" dir "c # clean cs @ rest"] "2.prems"(3,4) r by simp
  qed
qed

lemma resolve_symlink_straight:
  assumes "resolve_symlink_target (join_path (dir @ [c])) target = Some resolved"
    and "names (dir @ [c])" and "straight target"
  obtains cs where "resolve_components dir (split_on slash target) = Some cs"
    and "path_components resolved = cs" and "names cs" and "\<not> prefix [slash] target"
proof -
  have split: "split_on slash (join_path (dir @ [c])) = dir @ [c]"
    using assms(2) by (intro split_join) (auto simp: names_def list_all_iff)
  then have "join_path (dir @ [c]) \<noteq> []" using assms(2) by (cases "join_path (dir @ [c])") (auto simp: append_eq_Cons_conv)
  then obtain cs where cs: "resolve_components dir (split_on slash target) = Some cs"
      "resolved = normalize_workspace_path (join_path cs)" "\<not> prefix [slash] target"
    using assms(1) join_path_canonical[OF assms(2)] split
    by (auto simp: resolve_symlink_target_def Let_def split: if_splits)
  moreover have "names cs"
    using cs(1) straight_parts[OF assms(3)] assms(2) by (intro resolve_components_names[OF cs(1)]) auto
  ultimately show thesis using that by (simp add: join_path_canonical components_join_path)
qed

lemma lands_walk_contained:
  assumes "lands_walk look hops walked pending" and "names walked" and "real_dir look walked"
    and "names pending" and "\<forall>p t. look p = Lstat_Link (Some t) \<longrightarrow> straight t"
  shows "\<not> escapes look walked pending"
  using assms
proof (induction look hops walked pending rule: lands_walk.induct)
  case (1 look hops walked)
  then show ?case by (auto elim: escapes_NilE)
next
  case (2 look hops walked c pending)
  note walk = "2.prems"(1)[simplified, unfolded Let_def]
  let ?path = "join_path (walked @ [c])"
  have c: "c \<notin> special" "names (walked @ [c])" using "2.prems" by auto
  show ?case
  proof (cases "look ?path")
    case Lstat_Missing
    with c show ?thesis by (auto elim: escapes_ConsE)
  next
    case Lstat_Error
    with walk show ?thesis by simp
  next
    case Lstat_Other
    then have "\<not> escapes look (walked @ [c]) pending"
      using "2.IH"(2)[OF refl refl Lstat_Other] walk "2.prems" by (simp add: real_dir_snoc)
    with c Lstat_Other show ?thesis by (auto elim: escapes_ConsE)
  next
    case (Lstat_Link hop)
    then obtain target resolved where hop: "hop = Some target" "resolve_symlink_target ?path target = Some resolved"
        "\<not> hops + 1 > MAX_SYMLINK_HOPS" "lands_walk look (hops + 1) [] (path_components resolved @ pending)"
      using walk by (auto split: if_splits option.splits)
    have straight: "straight target" using "2.prems"(5) Lstat_Link hop(1) by simp
    then obtain cs where cs: "resolve_components walked (split_on slash target) = Some cs"
        "path_components resolved = cs" "names cs" "\<not> prefix [slash] target"
      by (rule resolve_symlink_straight[OF hop(2) c(2)])
    have "\<not> escapes look [] (cs @ pending)"
      using "2.IH"(1)[OF refl refl Lstat_Link hop(3) hop(1) hop(2)] hop(4) cs "2.prems" by simp
    then have "\<not> escapes look walked (split_on slash target @ pending)"
      using escapes_resolved[OF cs(1)] straight "2.prems"(2,3) by (auto simp: straight_def)
    with c Lstat_Link hop(1) cs(4) show ?thesis by (auto elim: escapes_ConsE)
  qed
qed

definition link_parent :: "string \<Rightarrow> string list" where
  "link_parent link = butlast (split_on slash link)"

lemma publishable_names: "publishable_workspace_path link n allow = Inr () \<Longrightarrow> names (split_on slash link)"
  using split_chars[of _ slash link] split_no_slash[of _ slash link]
  by (fastforce simp: publishable_iff names_def list_all_iff canonical_path_def normalize_fixpoint_iff)

section \<open>Properties\<close>


definition package_tree :: "string \<Rightarrow> lstat" where
  "package_tree path =
     (if path \<in> {''m'', ''m/bin'', ''s'', ''s/p''} then Lstat_Other
      else if path = ''m/p'' then Lstat_Link (Some ''../s/p'')
      else Lstat_Missing)"


definition cancelled_tree :: "string \<Rightarrow> lstat" where
  "cancelled_tree path =
     (if path \<in> {''d'', ''d/e'', ''t''} then Lstat_Other
      else if path = ''d/s'' then Lstat_Link (Some ''../t'')
      else Lstat_Missing)"

text \<open>C33. The condition on the targets is needed: both gates cancel a name against a
  following \<open>..\<close> before they look at the disk, so that a link on which every gate agrees
  leaves the workspace when the cancelled name is itself a contained link. A workspace with
  the directories \<open>d/e\<close> and \<open>t\<close>, the link \<open>d/s\<close> to \<open>../t\<close> and the link \<open>d/e/l\<close> to
  \<open>../s/../../x\<close> is accepted link by link, and \<open>d/e/l\<close> names a sibling of the workspace root.\<close>

theorem cancelled_link_escapes:
  "symlink_target_lands_in_workspace cancelled_tree ''d/s'' ''../t''
   \<and> symlink_target_stays_in_workspace ''d/e/l'' ''../s/../../x''
   \<and> symlink_target_lands_in_workspace cancelled_tree ''d/e/l'' ''../s/../../x''
   \<and> real_dir cancelled_tree (link_parent ''d/e/l'')
   \<and> escapes cancelled_tree (link_parent ''d/e/l'') (split_on slash ''../s/../../x'')"
proof -
  have parts: "link_parent ''d/e/l'' = [''d'', ''e'']"
      "split_on slash ''../s/../../x'' = [''..'', ''s'', ''..'', ''..'', ''x'']" "split_on slash ''../t'' = [''..'', ''t'']"
    by code_simp+
  have "escapes cancelled_tree [''t''] [''..'', ''..'', ''x'']"
    by (simp add: escapes.up escapes.climb)
  then have "escapes cancelled_tree [] [''t'', ''..'', ''..'', ''x'']"
    by (simp add: escapes.enter cancelled_tree_def)
  then have "escapes cancelled_tree [''d''] (split_on slash ''../t'' @ [''..'', ''..'', ''x''])"
    by (simp add: parts(3) escapes.up)
  then have "escapes cancelled_tree [''d''] [''s'', ''..'', ''..'', ''x'']"
    by (rule escapes.follow[where target = "''../t''", rotated 3]) (simp_all add: cancelled_tree_def)
  then have "escapes cancelled_tree [''d'', ''e''] [''..'', ''s'', ''..'', ''..'', ''x'']"
    by (simp add: escapes.up)
  moreover have "symlink_target_lands_in_workspace cancelled_tree ''d/s'' ''../t''" by code_simp
  moreover have "symlink_target_stays_in_workspace ''d/e/l'' ''../s/../../x''" by code_simp
  moreover have "symlink_target_lands_in_workspace cancelled_tree ''d/e/l'' ''../s/../../x''" by code_simp
  moreover have "real_dir cancelled_tree [''d'', ''e'']" by (simp add: real_dir_def cancelled_tree_def)
  ultimately show ?thesis by (simp add: parts)
qed

text \<open>So is the condition on backslashes: the name \<open>a\b\<close>, one component for the kernel, is
  looked up as \<open>a/b\<close>.\<close>

lemma backslash_name_escapes:
  assumes "look = (\<lambda>path. if path = [CHR ''a'', backslash, CHR ''b''] then Lstat_Link (Some ''/etc'') else Lstat_Missing)"
  shows "symlink_target_lands_in_workspace look ''l'' [CHR ''a'', backslash, CHR ''b'']
    \<and> escapes look [] [[CHR ''a'', backslash, CHR ''b'']]"
proof -
  have "resolve_symlink_target ''l'' [CHR ''a'', backslash, CHR ''b''] = Some ''a/b''" by code_simp
  moreover have "path_components ''a/b'' = [''a'', ''b'']" by code_simp
  ultimately show ?thesis
    by (simp add: symlink_target_lands_in_workspace_def assms escapes.absolute)
qed

end
