(* ===== verification/Engine_Types.thy ===== *)
theory Engine_Types
  imports Tree_Transport Symlink_Containment
begin

text \<open>
  The vocabulary that pull and push share: ancestor rows (\<^verbatim>\<open>store.rs\<close>), observations of the
  disk (\<^verbatim>\<open>fs_guard.rs\<close>), the paths that cannot be synchronized (\<^verbatim>\<open>unsyncable.rs\<close>), the errors of
  both directions, and the projection between entries and rows (\<^verbatim>\<open>entry_record.rs\<close>). The disk,
  the clock and the keyed content hash are the fields of \<open>world\<close>, an argument of whatever
  asks them.
\<close>

type_synonym i64 = int

section \<open>Rows and observations\<close>

record StatFingerprint =
  mtime_ns :: i64
  ctime_ns :: i64
  inode :: u64
  dev :: u64

record FileRecord =
  fr_kind :: EntryKind
  fr_size :: u64
  fr_mode :: FileMode
  fr_symlink_target :: "string option"
  fr_content_id :: "ContentId option"
  fr_blob_key :: "BlobKey option"
  fr_key_epoch :: "KeyEpoch option"
  fr_fingerprint :: StatFingerprint
  fr_hashed_at :: "i64 option"
  fr_verified_at :: "i64 option"

record Observed =
  ob_kind :: EntryKind
  ob_size :: u64
  ob_mode :: FileMode
  ob_symlink_target :: "string option"
  ob_fingerprint :: StatFingerprint

record ExpectedFile =
  ef_fingerprint :: StatFingerprint
  ef_size :: u64

definition expected_file :: "Observed \<Rightarrow> ExpectedFile" where
  "expected_file observed = \<lparr>ef_fingerprint = ob_fingerprint observed, ef_size = ob_size observed\<rparr>"

section \<open>Paths that cannot be synchronized\<close>

datatype UnsyncableReason =
    PermissionDenied
  | ResourceExhausted
  | NonUtf8Name
  | NonUtf8SymlinkTarget
  | UnsupportedKind
  | UnrepresentablePath
  | AboveSealCeiling
  | ReadFailed
  | EscapingSymlinkTarget
  | FilesystemRefused
  | RecoveryAbandoned

definition UnsyncableReason_ALL :: "UnsyncableReason list" where
  "UnsyncableReason_ALL =
     [PermissionDenied, ResourceExhausted, NonUtf8Name, NonUtf8SymlinkTarget, UnsupportedKind,
      UnrepresentablePath, AboveSealCeiling, ReadFailed, EscapingSymlinkTarget, FilesystemRefused,
      RecoveryAbandoned]"

fun reason_tag :: "UnsyncableReason \<Rightarrow> string" where
  "reason_tag PermissionDenied = ''permission-denied''"
| "reason_tag ResourceExhausted = ''resource-exhausted''"
| "reason_tag NonUtf8Name = ''non-utf8-name''"
| "reason_tag NonUtf8SymlinkTarget = ''non-utf8-symlink-target''"
| "reason_tag UnsupportedKind = ''unsupported-kind''"
| "reason_tag UnrepresentablePath = ''unrepresentable-path''"
| "reason_tag AboveSealCeiling = ''above-seal-ceiling''"
| "reason_tag ReadFailed = ''read-failed''"
| "reason_tag EscapingSymlinkTarget = ''escaping-symlink-target''"
| "reason_tag FilesystemRefused = ''filesystem-refused''"
| "reason_tag RecoveryAbandoned = ''recovery-abandoned''"

definition reason_from_tag :: "string \<Rightarrow> UnsyncableReason option" where
  "reason_from_tag value = List.find (\<lambda>reason. reason_tag reason = value) UnsyncableReason_ALL"

definition is_transient :: "UnsyncableReason \<Rightarrow> bool" where
  "is_transient reason \<longleftrightarrow>
     reason \<in> {ResourceExhausted, ReadFailed, FilesystemRefused, RecoveryAbandoned}"

record UnsyncableRecord =
  us_reason :: UnsyncableReason
  us_errno :: "int option"
  us_observed_at :: i64

definition UnsyncableRecord_new :: "UnsyncableReason \<Rightarrow> int option \<Rightarrow> i64 \<Rightarrow> UnsyncableRecord" where
  "UnsyncableRecord_new reason errno observed_at =
     \<lparr>us_reason = reason, us_errno = errno, us_observed_at = observed_at\<rparr>"

record UnsyncablePath =
  usp_path :: WorkspacePath
  usp_record :: UnsyncableRecord

text \<open>What is read off an \<open>io::Error\<close>: its kind and the number the kernel gave.\<close>

datatype ErrorKind = Io_PermissionDenied | Io_OutOfMemory | Io_InvalidData | Io_NotFound | Io_NotADirectory | Io_Other

record io_error =
  io_kind :: ErrorKind
  raw_os_error :: "int option"

definition libc_emfile :: int where
  "libc_emfile = 24"

definition libc_enfile :: int where
  "libc_enfile = 23"

definition classify_io_error :: "io_error \<Rightarrow> UnsyncableReason option" where
  "classify_io_error error =
     (case io_kind error of
        Io_PermissionDenied \<Rightarrow> Some PermissionDenied
      | Io_OutOfMemory \<Rightarrow> Some ResourceExhausted
      | Io_InvalidData \<Rightarrow> Some ReadFailed
      | _ \<Rightarrow>
          (case raw_os_error error of
             Some code \<Rightarrow> if code = libc_emfile \<or> code = libc_enfile then Some ResourceExhausted else None
           | None \<Rightarrow> None))"

definition path_scoped_reason :: "io_error \<Rightarrow> UnsyncableReason" where
  "path_scoped_reason error =
     (case classify_io_error error of Some reason \<Rightarrow> reason | None \<Rightarrow> FilesystemRefused)"

definition UnsyncablePath_from_io :: "WorkspacePath \<Rightarrow> io_error \<Rightarrow> i64 \<Rightarrow> UnsyncablePath" where
  "UnsyncablePath_from_io path error observed_at =
     \<lparr>usp_path = path, usp_record = UnsyncableRecord_new (path_scoped_reason error) (raw_os_error error) observed_at\<rparr>"

definition UnsyncablePath_new :: "WorkspacePath \<Rightarrow> UnsyncableReason \<Rightarrow> i64 \<Rightarrow> UnsyncablePath" where
  "UnsyncablePath_new path reason observed_at =
     \<lparr>usp_path = path, usp_record = UnsyncableRecord_new reason None observed_at\<rparr>"

section \<open>Errors\<close>

datatype ManifestStoreError = Sqlite string | Store_Io string | Corrupt string | ValueOutOfRange string

datatype PushError =
    Push_Io io_error
  | Push_Store ManifestStoreError
  | Push_Manifest ManifestError
  | Push_Transport string
  | AncestorRowMissing string
  | StreamSealUnsupported u64 u64
  | MassDeletionRefused "WorkspacePath set" nat nat

datatype PullError =
    Pull_Path UnsyncablePath
  | EngineScratchIo io_error
  | Pull_Store ManifestStoreError
  | Pull_Manifest ManifestError
  | Pull_Push PushError
  | Pull_Transport string
  | ManifestKeyMismatch
  | BlobKeyMismatch
  | RefRegressed u64 u64
  | RefForked u64
  | NarrowingMissedChange string
  | Pull_Internal string

fun push_error_from_tree :: "TreeError \<Rightarrow> PushError" where
  "push_error_from_tree (Tree_Manifest error) = Push_Manifest error"
| "push_error_from_tree (Tree_Store error) = Push_Store (Sqlite error)"
| "push_error_from_tree (Tree_Transport error) = Push_Transport error"
| "push_error_from_tree NodeKeyMismatch =
     Push_Manifest (Manifest_Internal ''published tree node does not match its key'')"

fun pull_error_from_tree :: "TreeError \<Rightarrow> PullError" where
  "pull_error_from_tree (Tree_Manifest error) = Pull_Manifest error"
| "pull_error_from_tree (Tree_Store error) = Pull_Store (Sqlite error)"
| "pull_error_from_tree (Tree_Transport error) = Pull_Transport error"
| "pull_error_from_tree NodeKeyMismatch = ManifestKeyMismatch"

section \<open>The world\<close>

datatype ObserveOutcome = Observe_Absent | Observe_Present Observed | Observe_Unsyncable UnsyncableReason

datatype FileRead = Read_Bytes string | Read_Diverged

text \<open>
  \<open>w_read\<close> is \<open>read_file_bounded\<close> at the configured ceiling. The content hash under the write
  key and under the key of a held epoch are \<open>w_content_id\<close> and \<open>w_content_id_at\<close>.
\<close>

record world =
  w_observe :: "WorkspacePath \<Rightarrow> ObserveOutcome"
  w_read :: "WorkspacePath \<Rightarrow> ExpectedFile \<Rightarrow> PushError + FileRead"
  w_lstat :: "string \<Rightarrow> lstat"
  w_content_id :: "string \<Rightarrow> ContentId"
  w_content_id_at :: "KeyEpoch \<Rightarrow> string \<Rightarrow> ContentId option"
  w_now :: i64

section \<open>Entries and rows\<close>

definition record_for_entry :: "i64 \<Rightarrow> ManifestEntry \<Rightarrow> StatFingerprint \<Rightarrow> FileRecord" where
  "record_for_entry now entry fingerprint =
     (case entry of
        File sz mode content_id blob_key key_epoch \<Rightarrow>
          \<lparr>fr_kind = Kind_File, fr_size = sz, fr_mode = mode, fr_symlink_target = None,
           fr_content_id = Some content_id, fr_blob_key = Some blob_key, fr_key_epoch = Some key_epoch,
           fr_fingerprint = fingerprint, fr_hashed_at = Some now, fr_verified_at = None\<rparr>
      | Directory mode \<Rightarrow>
          \<lparr>fr_kind = Kind_Directory, fr_size = 0, fr_mode = mode, fr_symlink_target = None,
           fr_content_id = None, fr_blob_key = None, fr_key_epoch = None,
           fr_fingerprint = fingerprint, fr_hashed_at = None, fr_verified_at = None\<rparr>
      | Symlink _ target \<Rightarrow>
          \<lparr>fr_kind = Kind_Symlink, fr_size = 0, fr_mode = FileMode_symlink, fr_symlink_target = Some target,
           fr_content_id = None, fr_blob_key = None, fr_key_epoch = None,
           fr_fingerprint = fingerprint, fr_hashed_at = None, fr_verified_at = None\<rparr>)"

fun entry_mode :: "ManifestEntry \<Rightarrow> FileMode" where
  "entry_mode (File _ mode _ _ _) = mode"
| "entry_mode (Directory mode) = mode"
| "entry_mode (Symlink _ _) = FileMode_symlink"

fun entry_matches_identity ::
  "ManifestEntry \<Rightarrow> EntryKind \<Rightarrow> ContentId option \<Rightarrow> string option \<Rightarrow> bool" where
  "entry_matches_identity (File _ _ entry_content_id _ _) kind content_id _ \<longleftrightarrow>
     kind = Kind_File \<and> content_id = Some entry_content_id"
| "entry_matches_identity (Directory _) kind _ _ \<longleftrightarrow> kind = Kind_Directory"
| "entry_matches_identity (Symlink _ target) kind _ symlink_target \<longleftrightarrow>
     kind = Kind_Symlink \<and> symlink_target = Some target"

definition entry_matches_observed :: "ManifestEntry \<Rightarrow> Observed \<Rightarrow> ContentId option \<Rightarrow> bool" where
  "entry_matches_observed entry observed content_id =
     entry_matches_identity entry (ob_kind observed) content_id (ob_symlink_target observed)"

definition entry_matches_record :: "ManifestEntry \<Rightarrow> FileRecord \<Rightarrow> bool" where
  "entry_matches_record entry r =
     entry_matches_identity entry (fr_kind r) (fr_content_id r) (fr_symlink_target r)"

definition file_record_to_entry :: "FileRecord \<Rightarrow> PushError + ManifestEntry" where
  "file_record_to_entry r =
     (case fr_kind r of
        Kind_File \<Rightarrow>
          (case fr_content_id r of
             None \<Rightarrow> Inl (AncestorRowMissing ''content_id'')
           | Some content_id \<Rightarrow>
               (case fr_blob_key r of
                  None \<Rightarrow> Inl (AncestorRowMissing ''blob_key'')
                | Some blob_key \<Rightarrow>
                    (case fr_key_epoch r of
                       None \<Rightarrow> Inl (AncestorRowMissing ''key_epoch'')
                     | Some key_epoch \<Rightarrow> Inr (File (fr_size r) (fr_mode r) content_id blob_key key_epoch))))
      | Kind_Directory \<Rightarrow> Inr (Directory (fr_mode r))
      | Kind_Symlink \<Rightarrow>
          (case fr_symlink_target r of
             None \<Rightarrow> Inl (AncestorRowMissing ''symlink_target'')
           | Some target \<Rightarrow> Inr (Symlink (fr_mode r) target)))"

text \<open>The entry a device publishes back: the same, but for the mode of a link.\<close>

fun canonical_entry :: "ManifestEntry \<Rightarrow> ManifestEntry" where
  "canonical_entry (Symlink _ target) = Symlink FileMode_symlink target"
| "canonical_entry entry = entry"

lemma record_entry_round_trip:
  "file_record_to_entry (record_for_entry now entry fingerprint) = Inr (canonical_entry entry)"
  by (cases entry) (simp_all add: file_record_to_entry_def record_for_entry_def)

lemma record_for_entry_fields:
  "fr_kind (record_for_entry now entry fp) = entry_kind entry"
  "fr_mode (record_for_entry now entry fp) = entry_mode entry"
  "fr_fingerprint (record_for_entry now entry fp) = fp"
  by (cases entry; simp add: record_for_entry_def)+

lemma matches_record_for_entry [simp]: "entry_matches_record entry (record_for_entry now entry fp)"
  by (cases entry) (simp_all add: entry_matches_record_def record_for_entry_def)

lemma reason_tag_round_trip: "reason_from_tag (reason_tag reason) = Some reason"
  by (cases reason) (simp_all add: reason_from_tag_def UnsyncableReason_ALL_def)

end
