(* ===== verification/Merge_Deltas.thy ===== *)
theory Merge_Deltas
  imports Engine_Types
begin

text \<open>
  What each side did to a path since the ancestor, \<^verbatim>\<open>pull_apply/delta.rs\<close>, and the preimage
  that is recorded with an operation and compared again before it mutates the disk
  (\<^verbatim>\<open>pull_apply/intents.rs\<close>, \<open>preimage_matches\<close> of \<^verbatim>\<open>pull_apply/apply.rs\<close>).
\<close>

section \<open>Preimages\<close>

record PreimagePayload =
  pre_present :: bool
  pre_kind :: "EntryKind option"
  pre_mode :: "FileMode option"
  pre_content_id :: "ContentId option"
  pre_key_epoch :: "KeyEpoch option"
  pre_symlink_target :: "string option"

definition preimage_absent :: PreimagePayload where
  "preimage_absent = \<lparr>pre_present = False, pre_kind = None, pre_mode = None, pre_content_id = None,
     pre_key_epoch = None, pre_symlink_target = None\<rparr>"

definition preimage_from_record :: "FileRecord \<Rightarrow> PreimagePayload" where
  "preimage_from_record r = \<lparr>pre_present = True, pre_kind = Some (fr_kind r), pre_mode = Some (fr_mode r),
     pre_content_id = fr_content_id r, pre_key_epoch = fr_key_epoch r, pre_symlink_target = fr_symlink_target r\<rparr>"

definition preimage_from_observed :: "Observed \<Rightarrow> ContentId option \<Rightarrow> PreimagePayload" where
  "preimage_from_observed observed content_id = \<lparr>pre_present = True, pre_kind = Some (ob_kind observed),
     pre_mode = Some (ob_mode observed), pre_content_id = content_id, pre_key_epoch = None,
     pre_symlink_target = ob_symlink_target observed\<rparr>"

section \<open>Local deltas\<close>

datatype LocalDelta =
    Local_Absent
  | Local_Unreadable
  | Local_Untracked Observed "ContentId option"
  | Local_Unchanged FileRecord
  | Local_Changed Observed "ContentId option"
  | Local_ModeChanged Observed
  | Local_Deleted

fun preimage :: "LocalDelta \<Rightarrow> PreimagePayload" where
  "preimage Local_Absent = preimage_absent"
| "preimage Local_Deleted = preimage_absent"
| "preimage Local_Unreadable = preimage_absent"
| "preimage (Local_Unchanged r) = preimage_from_record r"
| "preimage (Local_Untracked observed content_id) = preimage_from_observed observed content_id"
| "preimage (Local_Changed observed content_id) = preimage_from_observed observed content_id"
| "preimage (Local_ModeChanged observed) = preimage_from_observed observed None"

fun record_from_observed :: "world \<Rightarrow> LocalDelta \<Rightarrow> ManifestEntry \<Rightarrow> PullError + FileRecord" where
  "record_from_observed w (Local_Untracked observed _) entry =
     Inr (record_for_entry (w_now w) entry (ob_fingerprint observed))"
| "record_from_observed w (Local_Changed observed _) entry =
     Inr (record_for_entry (w_now w) entry (ob_fingerprint observed))"
| "record_from_observed w _ entry = Inl (Pull_Internal ''adopt without local observation'')"

datatype LocalRead = Local_Bytes string | Unverifiable

definition read_local_content :: "world \<Rightarrow> WorkspacePath \<Rightarrow> ExpectedFile \<Rightarrow> PullError + LocalRead" where
  "read_local_content w path expected =
     (case w_read w path expected of
        Inr (Read_Bytes bytes) \<Rightarrow> Inr (Local_Bytes bytes)
      | Inr Read_Diverged \<Rightarrow> Inr Unverifiable
      | Inl (StreamSealUnsupported _ _) \<Rightarrow> Inr Unverifiable
      | Inl (Push_Io _) \<Rightarrow> Inr Unverifiable
      | Inl error \<Rightarrow> Inl (Pull_Push error))"

definition maybe_hash :: "world \<Rightarrow> WorkspacePath \<Rightarrow> Observed \<Rightarrow> PullError + ContentId option" where
  "maybe_hash w path observed =
     (if ob_kind observed \<noteq> Kind_File then Inr None
      else (case read_local_content w path (expected_file observed) of
          Inl e \<Rightarrow> Inl e
        | Inr (Local_Bytes bytes) \<Rightarrow> Inr (Some (w_content_id w bytes))
        | Inr Unverifiable \<Rightarrow> Inr None))"

definition local_vs_record ::
  "world \<Rightarrow> WorkspacePath \<Rightarrow> Observed \<Rightarrow> FileRecord \<Rightarrow> bool \<Rightarrow> PullError + LocalDelta" where
  "local_vs_record w path observed r verify_file_content =
     (if ob_kind observed \<noteq> fr_kind r
      then map_sum id (Local_Changed observed) (maybe_hash w path observed)
      else if ob_kind observed = Kind_Directory \<and> ob_mode observed = fr_mode r
      then Inr (Local_Unchanged r)
      else if ob_kind observed = Kind_Symlink \<and> ob_mode observed = fr_mode r
        \<and> ob_symlink_target observed = fr_symlink_target r
      then Inr (Local_Unchanged r)
      else if ob_kind observed = Kind_File \<and> \<not> verify_file_content
        \<and> ob_fingerprint observed = fr_fingerprint r \<and> ob_size observed = fr_size r
        \<and> ob_mode observed = fr_mode r
      then Inr (Local_Unchanged r)
      else (case ob_kind observed of
          Kind_File \<Rightarrow>
            (case read_local_content w path (expected_file observed) of
               Inl e \<Rightarrow> Inl e
             | Inr Unverifiable \<Rightarrow> Inr (Local_Changed observed None)
             | Inr (Local_Bytes bytes) \<Rightarrow>
                 (let matches_record = Option.bind (fr_key_epoch r) (\<lambda>key_epoch.
                        map_option (\<lambda>content_id. Some content_id = fr_content_id r)
                          (w_content_id_at w key_epoch bytes))
                  in if matches_record = Some True then
                       (if ob_mode observed = fr_mode r then Inr (Local_Unchanged r)
                        else Inr (Local_ModeChanged observed))
                     else Inr (Local_Changed observed (Some (w_content_id w bytes)))))
        | Kind_Symlink \<Rightarrow>
            if ob_symlink_target observed = fr_symlink_target r \<and> ob_mode observed = fr_mode r
            then Inr (Local_Unchanged r)
            else Inr (Local_Changed observed None)
        | Kind_Directory \<Rightarrow> Inr (Local_ModeChanged observed)))"

definition local_delta ::
  "world \<Rightarrow> WorkspacePath \<Rightarrow> FileRecord option \<Rightarrow> bool \<Rightarrow> PullError + LocalDelta" where
  "local_delta w path ancestor verify_file_content =
     (case w_observe w path of
        Observe_Unsyncable _ \<Rightarrow> Inr Local_Unreadable
      | Observe_Absent \<Rightarrow> (case ancestor of None \<Rightarrow> Inr Local_Absent | Some _ \<Rightarrow> Inr Local_Deleted)
      | Observe_Present observed \<Rightarrow>
          (case ancestor of
             None \<Rightarrow> map_sum id (Local_Untracked observed) (maybe_hash w path observed)
           | Some r \<Rightarrow> local_vs_record w path observed r verify_file_content))"

section \<open>Remote deltas\<close>

datatype RemoteDelta =
    Remote_Absent
  | Remote_Created ManifestEntry
  | Remote_Unchanged
  | Remote_ModeChanged ManifestEntry
  | Remote_Changed ManifestEntry

fun requires_verified_local_content :: "RemoteDelta \<Rightarrow> bool" where
  "requires_verified_local_content Remote_Unchanged = False"
| "requires_verified_local_content _ = True"

fun delta_entry :: "RemoteDelta \<Rightarrow> ManifestEntry option" where
  "delta_entry (Remote_Created entry) = Some entry"
| "delta_entry (Remote_ModeChanged entry) = Some entry"
| "delta_entry (Remote_Changed entry) = Some entry"
| "delta_entry Remote_Absent = None"
| "delta_entry Remote_Unchanged = None"

definition remote_delta :: "ManifestEntry option \<Rightarrow> FileRecord option \<Rightarrow> RemoteDelta" where
  "remote_delta remote ancestor =
     (case (remote, ancestor) of
        (None, _) \<Rightarrow> Remote_Absent
      | (Some entry, None) \<Rightarrow> Remote_Created entry
      | (Some entry, Some r) \<Rightarrow>
          if entry_matches_record entry r then
            (if entry_mode entry = fr_mode r then Remote_Unchanged else Remote_ModeChanged entry)
          else Remote_Changed entry)"

section \<open>Comparing the preimage again\<close>

definition preimage_matches ::
  "world \<Rightarrow> WorkspacePath \<Rightarrow> PreimagePayload \<Rightarrow> Observed option \<Rightarrow> PullError + bool" where
  "preimage_matches w path expected observed =
     (case observed of
        None \<Rightarrow> Inr (\<not> pre_present expected)
      | Some observed \<Rightarrow>
          if \<not> pre_present expected then Inr False
          else if Some (ob_kind observed) \<noteq> pre_kind expected then Inr False
          else (case ob_kind observed of
              Kind_File \<Rightarrow>
                if (case pre_mode expected of Some mode \<Rightarrow> ob_mode observed \<noteq> mode | None \<Rightarrow> False) then Inr False
                else (case read_local_content w path (expected_file observed) of
                    Inl e \<Rightarrow> Inl e
                  | Inr (Local_Bytes bytes) \<Rightarrow>
                      (case pre_key_epoch expected of
                         Some key_epoch \<Rightarrow> Inr (w_content_id_at w key_epoch bytes = pre_content_id expected)
                       | None \<Rightarrow> Inr (Some (w_content_id w bytes) = pre_content_id expected))
                  | Inr Unverifiable \<Rightarrow> Inr False)
            | Kind_Symlink \<Rightarrow> Inr (ob_symlink_target observed = pre_symlink_target expected)
            | Kind_Directory \<Rightarrow>
                Inr (case pre_mode expected of None \<Rightarrow> True | Some mode \<Rightarrow> ob_mode observed = mode)))"

definition observe_syncable :: "world \<Rightarrow> WorkspacePath \<Rightarrow> PullError + Observed option" where
  "observe_syncable w path =
     (case w_observe w path of
        Observe_Present observed \<Rightarrow> Inr (Some observed)
      | Observe_Absent \<Rightarrow> Inr None
      | Observe_Unsyncable reason \<Rightarrow> Inl (Pull_Path (UnsyncablePath_new path reason (w_now w))))"

section \<open>What a local delta says about the disk\<close>

text \<open>
  \<open>verified w path observed r\<close>: the object seen at the path is the one the ancestor row
  records, a file by its bytes and not by its fingerprint.
\<close>

definition verified :: "world \<Rightarrow> WorkspacePath \<Rightarrow> Observed \<Rightarrow> FileRecord \<Rightarrow> bool" where
  "verified w path observed r \<longleftrightarrow>
     ob_kind observed = fr_kind r \<and> ob_mode observed = fr_mode r
     \<and> (case fr_kind r of
          Kind_File \<Rightarrow>
            (\<exists>bytes key_epoch. w_read w path (expected_file observed) = Inr (Read_Bytes bytes)
               \<and> fr_key_epoch r = Some key_epoch \<and> fr_content_id r \<noteq> None
               \<and> w_content_id_at w key_epoch bytes = fr_content_id r)
        | Kind_Symlink \<Rightarrow> ob_symlink_target observed = fr_symlink_target r
        | Kind_Directory \<Rightarrow> True)"

lemma read_local_bytes:
  "read_local_content w path expected = Inr (Local_Bytes bytes) \<longleftrightarrow> w_read w path expected = Inr (Read_Bytes bytes)"
  by (auto simp: read_local_content_def split: sum.splits FileRead.splits PushError.splits)

lemma local_vs_record_verified:
  assumes "local_vs_record w path observed r True = Inr (Local_Unchanged r')"
  shows "r' = r \<and> verified w path observed r"
  using assms
  by (auto simp: local_vs_record_def verified_def read_local_bytes map_sum_Inr Option.bind_eq_Some_conv
      split: if_splits EntryKind.splits sum.splits LocalRead.splits dest: sym)

lemma local_vs_record_not:
  "local_vs_record w path observed r v \<noteq> Inr Local_Absent"
  "local_vs_record w path observed r v \<noteq> Inr Local_Deleted"
  "local_vs_record w path observed r v \<noteq> Inr Local_Unreadable"
  "local_vs_record w path observed r v \<noteq> Inr (Local_Untracked ob c)"
  by (auto simp: local_vs_record_def map_sum_Inr Let_def split: sum.splits LocalRead.splits EntryKind.splits)

lemma preimage_of_verified:
  assumes "verified w path observed r"
  shows "preimage_matches w path (preimage_from_record r) (Some observed) = Inr True"
proof (cases "fr_kind r")
  case Kind_File
  with assms obtain bytes key_epoch where "read_local_content w path (expected_file observed) = Inr (Local_Bytes bytes)"
      "fr_key_epoch r = Some key_epoch" "w_content_id_at w key_epoch bytes = fr_content_id r"
    by (auto simp: verified_def read_local_bytes)
  with Kind_File assms show ?thesis
    by (simp add: preimage_matches_def preimage_from_record_def verified_def)
qed (use assms in \<open>simp_all add: preimage_matches_def preimage_from_record_def verified_def\<close>)

end
