(* ===== verification/Git_Paths.thy ===== *)
theory Git_Paths
  imports Workspace_Paths Ordered_Maps "HOL-Library.List_Lexorder" "HOL-Library.Char_ord"
begin

text \<open>
  The classification of paths inside a Git directory, \<^verbatim>\<open>bowline-core/git_paths.rs\<close>, and the
  rules for writing into a repository, \<^verbatim>\<open>pull_apply/git_contract.rs\<close>: which lock files are
  looked for before an operation, what may be answered from the cache, and the rank that puts
  objects before the refs that name them.
\<close>

section \<open>Strings\<close>

text \<open>\<open>str::find\<close>, \<open>starts_with\<close>, \<open>ends_with\<close> and \<open>rsplit_once\<close>.\<close>

fun find_sub :: "string \<Rightarrow> string \<Rightarrow> nat option" where
  "find_sub pat [] = (if pat = [] then Some 0 else None)"
| "find_sub pat (x # xs) = (if prefix pat (x # xs) then Some 0 else map_option Suc (find_sub pat xs))"

definition find_last :: "string \<Rightarrow> string \<Rightarrow> nat option" where
  "find_last pat s = map_option (\<lambda>n. length s - length pat - n) (find_sub (rev pat) (rev s))"

definition rsplit_once :: "string \<Rightarrow> string \<Rightarrow> (string \<times> string) option" where
  "rsplit_once pat s = map_option (\<lambda>n. (take n s, drop (n + length pat) s)) (find_last pat s)"

definition is_ascii_hexdigit :: "char \<Rightarrow> bool" where
  "is_ascii_hexdigit c \<longleftrightarrow>
     (CHR ''0'' \<le> c \<and> c \<le> CHR ''9'') \<or> (CHR ''a'' \<le> c \<and> c \<le> CHR ''f'') \<or> (CHR ''A'' \<le> c \<and> c \<le> CHR ''F'')"

section \<open>Classes of Git paths\<close>

datatype GitPathClass = ImmutableObject | PointerState | DerivableVolatile | OrdinaryState

fun apply_rank :: "GitPathClass \<Rightarrow> nat" where
  "apply_rank ImmutableObject = 0"
| "apply_rank OrdinaryState = 1"
| "apply_rank DerivableVolatile = 1"
| "apply_rank PointerState = 2"

definition GIT_VOLATILE_ROOT_NAMES :: "string list" where
  "GIT_VOLATILE_ROOT_NAMES = [''FETCH_HEAD'', ''ORIG_HEAD'', ''gc.log'', ''gc.pid'']"

definition GIT_VOLATILE_DIR_PREFIXES :: "string list" where
  "GIT_VOLATILE_DIR_PREFIXES = [''logs/'']"

definition GIT_VOLATILE_DIR_NAMES :: "string list" where
  "GIT_VOLATILE_DIR_NAMES = [''logs'']"

definition GIT_WORKTREE_LOCAL_ROOT_NAMES :: "string list" where
  "GIT_WORKTREE_LOCAL_ROOT_NAMES = [''gitdir'', ''commondir'', ''locked'', ''config.worktree'']"

definition is_git_directory_path :: "string \<Rightarrow> bool" where
  "is_git_directory_path path \<longleftrightarrow> path = ''.git'' \<or> suffix ''/.git'' path"

definition git_tail_path :: "string \<Rightarrow> string option" where
  "git_tail_path path =
     (case strip_prefix ''.git/'' path of
        Some tail \<Rightarrow> Some tail
      | None \<Rightarrow> map_option (\<lambda>index. drop (index + length ''/.git/'') path) (find_sub ''/.git/'' path))"

definition is_git_temp_object_path :: "string list \<Rightarrow> string \<Rightarrow> string \<Rightarrow> bool" where
  "is_git_temp_object_path tail tail_path final_name \<longleftrightarrow>
     prefix ''objects/'' tail_path
     \<and> (prefix ''tmp_'' final_name \<or> list_ex (prefix ''tmp_'') (drop 1 tail))"

definition classify_nested_module_suffix :: "string list \<Rightarrow> GitPathClass option" where
  "classify_nested_module_suffix tail =
     (let root_name = hd tail; final_name = last tail; tail_path = join_path tail
      in if length tail = 1
            \<and> (root_name \<in> set GIT_VOLATILE_ROOT_NAMES \<or> root_name \<in> set GIT_VOLATILE_DIR_NAMES)
         then Some DerivableVolatile
         else if length tail = 1 \<and> suffix ''.lock'' root_name then Some DerivableVolatile
         else if is_git_temp_object_path tail tail_path final_name then Some DerivableVolatile
         else if tail_path \<in> {''HEAD'', ''packed-refs'', ''shallow''} \<or> prefix ''refs/'' tail_path
         then Some PointerState
         else if prefix ''objects/'' tail_path then Some ImmutableObject
         else None)"

definition classify_plain_git_tail :: "string list \<Rightarrow> GitPathClass" where
  "classify_plain_git_tail tail =
     (let tail_path = join_path tail; root_name = hd tail; final_name = last tail
      in if length tail = 1 \<and> root_name \<in> set GIT_VOLATILE_ROOT_NAMES then DerivableVolatile
         else if length tail = 1 \<and> root_name \<in> set GIT_VOLATILE_DIR_NAMES then DerivableVolatile
         else if list_ex (\<lambda>pfx. prefix pfx tail_path) GIT_VOLATILE_DIR_PREFIXES then DerivableVolatile
         else if list_ex (suffix ''.lock'') tail then DerivableVolatile
         else if is_git_temp_object_path tail tail_path final_name then DerivableVolatile
         else if tail_path \<in> {''HEAD'', ''packed-refs'', ''shallow''} \<or> prefix ''refs/'' tail_path
         then PointerState
         else if prefix ''objects/'' tail_path then ImmutableObject
         else OrdinaryState)"

text \<open>The proper suffixes of a tail, longest first: \<open>tail[1..]\<close>, \<open>tail[2..]\<close>, and so on.\<close>

fun proper_tails :: "string list \<Rightarrow> string list list" where
  "proper_tails (_ # x # xs) = (x # xs) # proper_tails (x # xs)"
| "proper_tails _ = []"

fun first_class :: "string list list \<Rightarrow> GitPathClass option" where
  "first_class [] = None"
| "first_class (tail # tails) =
     (case classify_nested_module_suffix tail of Some class \<Rightarrow> Some class | None \<Rightarrow> first_class tails)"

function (sequential) classify_git_tail :: "string list \<Rightarrow> GitPathClass option"
  and classify_worktree_tail :: "string list \<Rightarrow> GitPathClass"
  and classify_module_tail :: "string list \<Rightarrow> GitPathClass" where
  "classify_git_tail [] = None"
| "classify_git_tail (root # tail) =
     (if root = ''worktrees'' \<and> 2 \<le> length tail then Some (classify_worktree_tail (tl tail))
      else if root = ''modules'' \<and> 2 \<le> length tail then Some (classify_module_tail tail)
      else Some (classify_plain_git_tail (root # tail)))"
| "classify_worktree_tail tail =
     (if tail \<noteq> [] \<and> hd tail \<in> set GIT_WORKTREE_LOCAL_ROOT_NAMES then DerivableVolatile
      else case classify_git_tail tail of Some class \<Rightarrow> class | None \<Rightarrow> OrdinaryState)"
| "classify_module_tail tail =
     (if length tail = 2 then
        (case classify_git_tail (tl tail) of Some class \<Rightarrow> class | None \<Rightarrow> OrdinaryState)
      else if list_ex (\<lambda>part. classify_nested_module_suffix part = Some DerivableVolatile) (proper_tails tail)
      then DerivableVolatile
      else (case first_class (rev (proper_tails tail)) of Some class \<Rightarrow> class | None \<Rightarrow> OrdinaryState))"
  by pat_completeness auto
termination
  by (relation "measure (case_sum (\<lambda>t. 2 * length t) (case_sum (\<lambda>t. 2 * length t + 1) (\<lambda>t. 2 * length t + 1)))")
    auto

definition classify_git_path :: "string \<Rightarrow> GitPathClass option" where
  "classify_git_path path =
     (if is_git_directory_path path then Some DerivableVolatile
      else (case git_tail_path path of
          None \<Rightarrow> None
        | Some tail_path \<Rightarrow>
            (let components = filter (\<lambda>component. component \<noteq> []) (split_on slash tail_path)
             in if components = [] then None else classify_git_tail components)))"

definition is_git_derivable_volatile_path :: "string \<Rightarrow> bool" where
  "is_git_derivable_volatile_path path \<longleftrightarrow> classify_git_path path = Some DerivableVolatile"

definition immutable_pack_artifact :: "string \<Rightarrow> bool" where
  "immutable_pack_artifact artifact =
     (case rsplit_once ''.'' artifact of
        None \<Rightarrow> False
      | Some (stem, extension) \<Rightarrow>
          (case strip_prefix ''pack-'' stem of
             None \<Rightarrow> False
           | Some hash \<Rightarrow>
               40 \<le> length hash \<and> list_all is_ascii_hexdigit hash \<and> extension = ''pack''))"

definition is_immutable_git_object_payload :: "string \<Rightarrow> bool" where
  "is_immutable_git_object_payload path =
     (if classify_git_path path \<noteq> Some ImmutableObject then False
      else (case git_tail_path path of
          None \<Rightarrow> False
        | Some tail \<Rightarrow>
            (case (case strip_prefix ''objects/'' tail of
                 Some object_path \<Rightarrow> Some object_path
               | None \<Rightarrow> map_option snd (rsplit_once ''/objects/'' tail)) of
               None \<Rightarrow> False
             | Some object_path \<Rightarrow>
                 (case split_on slash object_path of
                    [a, b] \<Rightarrow>
                      (if length a = 2 \<and> list_all is_ascii_hexdigit a
                          \<and> 38 \<le> length b \<and> list_all is_ascii_hexdigit b then True
                       else a = ''pack'' \<and> immutable_pack_artifact b)
                  | _ \<Rightarrow> False))))"

section \<open>The contract for writing into a repository\<close>

definition git_apply_rank :: "string \<Rightarrow> nat" where
  "git_apply_rank path = (case classify_git_path path of None \<Rightarrow> 1 | Some class \<Rightarrow> apply_rank class)"

definition git_dir_for :: "string \<Rightarrow> string option" where
  "git_dir_for path =
     (case find_sub ''/.git/'' path of
        Some index \<Rightarrow> Some (take index path @ ''/.git'')
      | None \<Rightarrow>
          if path = ''.git'' \<or> prefix ''.git/'' path then Some ''.git''
          else map_option (\<lambda>pfx. pfx @ ''/.git'') (strip_suffix ''/.git'' path))"

definition is_git_lock_path :: "string \<Rightarrow> bool" where
  "is_git_lock_path path \<longleftrightarrow>
     suffix ''.lock'' (last (split_on slash path)) \<and> find_sub ''.git/'' path \<noteq> None"

text \<open>
  What the file system says about the lock files of a Git directory: the three fixed names,
  and the walk of \<open>refs\<close>.
\<close>

record git_probe =
  single_file_lock_present :: "string \<Rightarrow> bool"
  refs_lock_present :: "string \<Rightarrow> bool"

definition git_lock_active_in :: "git_probe \<Rightarrow> string \<Rightarrow> bool" where
  "git_lock_active_in fs git_dir \<longleftrightarrow> single_file_lock_present fs git_dir \<or> refs_lock_present fs git_dir"

definition git_lock_active :: "git_probe \<Rightarrow> string \<Rightarrow> bool" where
  "git_lock_active fs path =
     (case git_dir_for path of Some git_dir \<Rightarrow> git_lock_active_in fs git_dir | None \<Rightarrow> False)"

definition GIT_LOCK_REPROBE_OPS :: u32 where
  "GIT_LOCK_REPROBE_OPS = 256"

record GitLockCache =
  refs_locked :: "(string, bool) btree_map"
  ops_since_probe :: u32

definition GitLockCache_default :: GitLockCache where
  "GitLockCache_default = \<lparr>refs_locked = [], ops_since_probe = 0\<rparr>"

definition requires_fresh_refs_probe :: "string \<Rightarrow> bool" where
  "requires_fresh_refs_probe path \<longleftrightarrow> \<not> is_immutable_git_object_payload path"

definition is_active :: "git_probe \<Rightarrow> string \<Rightarrow> GitLockCache \<Rightarrow> bool \<times> GitLockCache" where
  "is_active fs path cache =
     (case git_dir_for path of
        None \<Rightarrow> (False, cache)
      | Some git_dir \<Rightarrow>
          (let cache = cache\<lparr>ops_since_probe := min (ops_since_probe cache + 1) u32_MAX\<rparr>;
               cache = (if ops_since_probe cache \<ge> GIT_LOCK_REPROBE_OPS
                 then \<lparr>refs_locked = [], ops_since_probe = 0\<rparr> else cache)
           in if single_file_lock_present fs git_dir then (True, cache)
              else
                (let cache = (if requires_fresh_refs_probe path
                       then cache\<lparr>refs_locked := bt_remove git_dir (refs_locked cache)\<rparr> else cache)
                 in case map_of (refs_locked cache) git_dir of
                      Some locked \<Rightarrow> (locked, cache)
                    | None \<Rightarrow>
                        (let locked = refs_lock_present fs git_dir
                         in (locked, cache\<lparr>refs_locked := bt_insert git_dir locked (refs_locked cache)\<rparr>)))))"

section \<open>What the lock cache may answer\<close>

definition lock_cache_ok :: "GitLockCache \<Rightarrow> bool" where
  "lock_cache_ok cache \<longleftrightarrow> bt_ok (refs_locked cache) \<and> ops_since_probe cache < GIT_LOCK_REPROBE_OPS"

lemma lock_cache_ok_default: "lock_cache_ok GitLockCache_default"
  by (simp add: lock_cache_ok_def GitLockCache_default_def GIT_LOCK_REPROBE_OPS_def)

lemma is_active_keeps: "lock_cache_ok cache \<Longrightarrow> lock_cache_ok (snd (is_active fs path cache))"
  by (auto simp: is_active_def lock_cache_ok_def Let_def GIT_LOCK_REPROBE_OPS_def bt_insert_ok bt_remove_ok
      split: option.splits)

text \<open>A history of calls, the cache it leaves, and the probes of its calls inside a repository,
  latest first.\<close>

definition lock_run :: "(git_probe \<times> string) list \<Rightarrow> GitLockCache" where
  "lock_run calls = fold (\<lambda>(fs, path) cache. snd (is_active fs path cache)) calls GitLockCache_default"

definition git_probes :: "(git_probe \<times> string) list \<Rightarrow> git_probe list" where
  "git_probes calls = map fst (rev (filter (\<lambda>(fs, path). git_dir_for path \<noteq> None) calls))"

lemma git_probes_snoc:
  "git_probes (calls @ [(fs, path)]) = (if git_dir_for path = None then git_probes calls else fs # git_probes calls)"
  by (simp add: git_probes_def)

lemma lock_run_snoc: "lock_run (calls @ [(fs, path)]) = snd (is_active fs path (lock_run calls))"
  by (simp add: lock_run_def)

definition cache_recent :: "git_probe list \<Rightarrow> GitLockCache \<Rightarrow> bool" where
  "cache_recent probes cache \<longleftrightarrow>
     (\<forall>git_dir locked. map_of (refs_locked cache) git_dir = Some locked \<longrightarrow>
        (\<exists>fs \<in> set (take (ops_since_probe cache + 1) probes). locked = refs_lock_present fs git_dir))"

lemma is_active_recent:
  assumes "lock_cache_ok cache" and "cache_recent probes cache" and "git_dir_for path = Some git_dir"
  obtains fs' where "fs' \<in> set (take 256 (fs # probes))"
    and "fst (is_active fs path cache) = (single_file_lock_present fs git_dir \<or> refs_lock_present fs' git_dir)"
    and "requires_fresh_refs_probe path \<longrightarrow> fs' = fs"
    and "cache_recent (fs # probes) (snd (is_active fs path cache))"
proof -
  let ?next = "cache\<lparr>ops_since_probe := ops_since_probe cache + 1\<rparr>"
  define tidy where "tidy = (if ops_since_probe ?next \<ge> GIT_LOCK_REPROBE_OPS
      then \<lparr>refs_locked = [], ops_since_probe = 0\<rparr> else ?next)"
  define kept where "kept = (if requires_fresh_refs_probe path
      then tidy\<lparr>refs_locked := bt_remove git_dir (refs_locked tidy)\<rparr> else tidy)"
  have count: "ops_since_probe cache < 256" "bt_ok (refs_locked cache)"
    using assms(1) by (simp_all add: lock_cache_ok_def GIT_LOCK_REPROBE_OPS_def)
  have ok: "bt_ok (refs_locked tidy)" "ops_since_probe tidy < 256"
    using count by (simp_all add: tidy_def GIT_LOCK_REPROBE_OPS_def)
  have recent: "cache_recent (fs # probes) tidy"
    using assms(2) by (auto simp: tidy_def cache_recent_def)
  have kept: "cache_recent (fs # probes) kept" "ops_since_probe kept < 256" "bt_ok (refs_locked kept)"
      "requires_fresh_refs_probe path \<Longrightarrow> map_of (refs_locked kept) git_dir = None"
    using recent ok by (auto simp: kept_def cache_recent_def map_of_bt_remove bt_remove_ok split: if_splits)
  have small: "min (ops_since_probe cache + 1) u32_MAX = ops_since_probe cache + 1"
    using count(1) by (simp add: u32_MAX_def)
  have run: "is_active fs path cache =
      (if single_file_lock_present fs git_dir then (True, tidy)
       else case map_of (refs_locked kept) git_dir of
           Some locked \<Rightarrow> (locked, kept)
         | None \<Rightarrow> (refs_lock_present fs git_dir,
             kept\<lparr>refs_locked := bt_insert git_dir (refs_lock_present fs git_dir) (refs_locked kept)\<rparr>))"
    unfolding kept_def tidy_def is_active_def assms(3) Let_def small by (simp only: option.case)
  have new: "cache_recent (fs # probes)
      (kept\<lparr>refs_locked := bt_insert git_dir (refs_lock_present fs git_dir) (refs_locked kept)\<rparr>)"
    using kept(1,3) by (auto simp: cache_recent_def map_of_bt_insert)
  show thesis
  proof (cases "map_of (refs_locked kept) git_dir")
    case None
    show thesis by (rule that[of fs]) (use None run recent new in auto)
  next
    case (Some locked)
    then obtain fs' where "fs' \<in> set (take (ops_since_probe kept + 1) (fs # probes))" "locked = refs_lock_present fs' git_dir"
      using kept(1) unfolding cache_recent_def by blast
    moreover have "set (take (ops_since_probe kept + 1) (fs # probes)) \<subseteq> set (take 256 (fs # probes))"
      using kept(2) by (intro set_take_subset_set_take) simp
    ultimately show thesis
      by (intro that[of fs']) (use kept Some recent in \<open>auto simp: run\<close>)
  qed
qed

lemma lock_run_recent: "lock_cache_ok (lock_run calls) \<and> cache_recent (git_probes calls) (lock_run calls)"
proof (induction calls rule: rev_induct)
  case Nil
  show ?case by (simp add: lock_run_def lock_cache_ok_default) (simp add: cache_recent_def GitLockCache_default_def)
next
  case (snoc call calls)
  obtain fs path where call: "call = (fs, path)" by force
  show ?case
  proof (cases "git_dir_for path")
    case None
    with snoc call show ?thesis by (simp add: lock_run_snoc git_probes_snoc is_active_def)
  next
    case (Some git_dir)
    then show ?thesis
      using is_active_recent[of "lock_run calls" "git_probes calls" path git_dir fs] snoc call
      by (auto simp: lock_run_snoc git_probes_snoc is_active_keeps)
  qed
qed

section \<open>Properties\<close>

text \<open>After any sequence of operations, the lock answer for a path of a repository is the
  state of the three fixed lock files now, together with a walk of \<open>refs\<close> made no more than
  256 repository operations ago. For every path other than the payload of an immutable object
  the walk is made now, so that the cache answers as the full probe does.\<close>

theorem lock_answer_is_recent:
  assumes "git_dir_for path = Some git_dir"
  shows "(\<exists>probe \<in> set (take 256 (fs # git_probes calls)).
      fst (is_active fs path (lock_run calls))
        = (single_file_lock_present fs git_dir \<or> refs_lock_present probe git_dir))
    \<and> (requires_fresh_refs_probe path \<longrightarrow>
        fst (is_active fs path (lock_run calls)) = git_lock_active fs path)"
proof -
  obtain probe where "probe \<in> set (take 256 (fs # git_probes calls))"
      "fst (is_active fs path (lock_run calls)) = (single_file_lock_present fs git_dir \<or> refs_lock_present probe git_dir)"
      "requires_fresh_refs_probe path \<longrightarrow> probe = fs"
    using is_active_recent[of "lock_run calls" "git_probes calls" path git_dir fs] lock_run_recent[of calls] assms by blast
  then show ?thesis using assms by (auto simp: git_lock_active_def git_lock_active_in_def)
qed

definition locked_refs :: git_probe where
  "locked_refs = \<lparr>single_file_lock_present = (\<lambda>_. False), refs_lock_present = (\<lambda>dir. dir = ''r/.git'')\<rparr>"

definition no_locks :: git_probe where
  "no_locks = \<lparr>single_file_lock_present = (\<lambda>_. False), refs_lock_present = (\<lambda>_. False)\<rparr>"

theorem lock_answer_is_recent_witness:
  "fst (is_active locked_refs ''r/.git/HEAD'' (lock_run [(no_locks, ''r/.git/config'')]))"
proof -
  have "git_dir_for ''r/.git/HEAD'' = Some ''r/.git''" by code_simp
  moreover have "requires_fresh_refs_probe ''r/.git/HEAD''" by code_simp
  ultimately show ?thesis
    using lock_answer_is_recent[of "''r/.git/HEAD''" "''r/.git''" locked_refs "[(no_locks, ''r/.git/config'')]"]
    by (simp add: git_lock_active_def git_lock_active_in_def locked_refs_def)
qed

end
