(* ===== verification/Merge_Matrix.thy ===== *)
theory Merge_Matrix
  imports Merge_Deltas Git_Paths
begin

text \<open>
  The three-way merge of a pull, \<^verbatim>\<open>pull_apply.rs\<close>: which paths are looked at, what the local and
  the remote delta of a path lead to, and the plan that collects it. Nothing here touches the
  disk.
\<close>

section \<open>The plan\<close>

datatype FsOpKind =
    Op_Install ManifestEntry
  | Op_Delete
  | Op_ModeChange ManifestEntry
  | Op_ConflictAside ManifestEntry

record FsOp =
  op_path :: WorkspacePath
  op_kind :: FsOpKind
  op_expected :: PreimagePayload

record MergePlan =
  fs_ops :: "FsOp list"
  ancestor_upserts :: "(WorkspacePath, FileRecord) btree_map"
  ancestor_removals :: "WorkspacePath set"
  plan_push_again :: "WorkspacePath set"
  plan_unsyncable :: "(WorkspacePath, UnsyncableRecord) btree_map"

definition MergePlan_default :: MergePlan where
  "MergePlan_default = \<lparr>fs_ops = [], ancestor_upserts = [], ancestor_removals = {},
     plan_push_again = {}, plan_unsyncable = []\<rparr>"

definition plan_op :: "WorkspacePath \<Rightarrow> FsOpKind \<Rightarrow> PreimagePayload \<Rightarrow> MergePlan \<Rightarrow> MergePlan" where
  "plan_op path kind expected plan =
     plan\<lparr>fs_ops := fs_ops plan @ [\<lparr>op_path = path, op_kind = kind, op_expected = expected\<rparr>]\<rparr>"

definition plan_install :: "WorkspacePath \<Rightarrow> ManifestEntry \<Rightarrow> PreimagePayload \<Rightarrow> MergePlan \<Rightarrow> MergePlan" where
  "plan_install path entry expected = plan_op path (Op_Install entry) expected"

definition plan_aside :: "WorkspacePath \<Rightarrow> ManifestEntry \<Rightarrow> PreimagePayload \<Rightarrow> MergePlan \<Rightarrow> MergePlan" where
  "plan_aside path entry expected = plan_op path (Op_ConflictAside entry) expected"

definition plan_delete :: "WorkspacePath \<Rightarrow> PreimagePayload \<Rightarrow> MergePlan \<Rightarrow> MergePlan" where
  "plan_delete path expected = plan_op path Op_Delete expected"

definition plan_mode_change :: "WorkspacePath \<Rightarrow> ManifestEntry \<Rightarrow> PreimagePayload \<Rightarrow> MergePlan \<Rightarrow> MergePlan" where
  "plan_mode_change path entry expected = plan_op path (Op_ModeChange entry) expected"

definition adopt :: "WorkspacePath \<Rightarrow> FileRecord \<Rightarrow> MergePlan \<Rightarrow> MergePlan" where
  "adopt path r plan = plan\<lparr>ancestor_upserts := bt_insert path r (ancestor_upserts plan)\<rparr>"

definition push_again_path :: "WorkspacePath \<Rightarrow> MergePlan \<Rightarrow> MergePlan" where
  "push_again_path path plan = plan\<lparr>plan_push_again := insert path (plan_push_again plan)\<rparr>"

definition remove_ancestor :: "WorkspacePath \<Rightarrow> MergePlan \<Rightarrow> MergePlan" where
  "remove_ancestor path plan = plan\<lparr>ancestor_removals := insert path (ancestor_removals plan)\<rparr>"

definition refuse_path :: "WorkspacePath \<Rightarrow> UnsyncableRecord \<Rightarrow> MergePlan \<Rightarrow> MergePlan" where
  "refuse_path path r plan = plan\<lparr>plan_unsyncable := bt_insert path r (plan_unsyncable plan)\<rparr>"

section \<open>Which paths are looked at\<close>

datatype PullScope =
    ChangedAndDirty "WorkspacePath set"
  | ChangedAndWalked "WorkspacePath set"
  | WholeAncestor
  | ReconcileAncestor "WorkspacePath set"

fun scope_dirty_paths :: "PullScope \<Rightarrow> WorkspacePath set option" where
  "scope_dirty_paths (ChangedAndDirty dirty) = Some dirty"
| "scope_dirty_paths (ChangedAndWalked dirty) = Some dirty"
| "scope_dirty_paths (ReconcileAncestor dirty) = Some dirty"
| "scope_dirty_paths WholeAncestor = None"

fun observes :: "PullScope \<Rightarrow> WorkspacePath \<Rightarrow> RemoteDelta \<Rightarrow> bool" where
  "observes WholeAncestor path remote = True"
| "observes (ReconcileAncestor _) path remote = True"
| "observes (ChangedAndDirty dirty) path remote \<longleftrightarrow> remote \<noteq> Remote_Unchanged \<or> path \<in> dirty"
| "observes (ChangedAndWalked dirty) path remote \<longleftrightarrow> remote \<noteq> Remote_Unchanged \<or> path \<in> dirty"

fun reconciles_pending :: "PullScope \<Rightarrow> WorkspacePath \<Rightarrow> bool" where
  "reconciles_pending (ReconcileAncestor pending) path \<longleftrightarrow> path \<in> pending"
| "reconciles_pending _ path \<longleftrightarrow> False"

definition collision_set :: "PathCollision list \<Rightarrow> WorkspacePath set" where
  "collision_set clashes = \<Union> (set ` pc_paths ` set clashes)"

section \<open>The matrix\<close>

definition escaping_target :: "world \<Rightarrow> WorkspacePath \<Rightarrow> RemoteDelta \<Rightarrow> bool" where
  "escaping_target w path remote =
     (case delta_entry remote of
        Some (Symlink _ target) \<Rightarrow> \<not> symlink_target_lands_in_workspace (w_lstat w) path target
      | _ \<Rightarrow> False)"

definition classify_row ::
  "world \<Rightarrow> WorkspacePath \<Rightarrow> LocalDelta \<Rightarrow> RemoteDelta \<Rightarrow> bool \<Rightarrow> MergePlan \<Rightarrow> PullError + MergePlan" where
  "classify_row w path local remote force_aside plan =
     (case local of
        Local_Unreadable \<Rightarrow> Inr plan
      | Local_Absent \<Rightarrow>
          (case remote of
             Remote_Created entry \<Rightarrow> Inr (plan_install path entry preimage_absent plan)
           | _ \<Rightarrow> Inr plan)
      | Local_Untracked observed content_id \<Rightarrow>
          (case remote of
             Remote_Absent \<Rightarrow> Inr (push_again_path path plan)
           | Remote_Created entry \<Rightarrow>
               if \<not> force_aside \<and> entry_matches_observed entry observed content_id
               then map_sum id (\<lambda>r. adopt path r plan) (record_from_observed w local entry)
               else Inr (push_again_path path (plan_aside path entry preimage_absent plan))
           | _ \<Rightarrow> Inr plan)
      | Local_Unchanged _ \<Rightarrow>
          (case remote of
             Remote_Absent \<Rightarrow> Inr (plan_delete path (preimage local) plan)
           | Remote_Changed entry \<Rightarrow> Inr (plan_install path entry (preimage local) plan)
           | Remote_ModeChanged entry \<Rightarrow> Inr (plan_mode_change path entry (preimage local) plan)
           | Remote_Unchanged \<Rightarrow> Inr plan
           | Remote_Created _ \<Rightarrow> Inr plan)
      | Local_Deleted \<Rightarrow>
          (case remote of
             Remote_Absent \<Rightarrow> Inr (remove_ancestor path plan)
           | Remote_Changed entry \<Rightarrow>
               Inr (push_again_path path (remove_ancestor path (plan_aside path entry preimage_absent plan)))
           | Remote_Unchanged \<Rightarrow> Inr (push_again_path path plan)
           | Remote_ModeChanged _ \<Rightarrow> Inr (push_again_path path plan)
           | Remote_Created _ \<Rightarrow> Inr plan)
      | Local_Changed observed content_id \<Rightarrow>
          (case remote of
             Remote_Absent \<Rightarrow> Inr (push_again_path path (remove_ancestor path plan))
           | Remote_Changed entry \<Rightarrow>
               if \<not> entry_matches_observed entry observed content_id
               then Inr (push_again_path path (plan_aside path entry (preimage local) plan))
               else if entry_mode entry = ob_mode observed
               then Inr (adopt path (record_for_entry (w_now w) entry (ob_fingerprint observed)) plan)
               else Inr (plan_mode_change path entry (preimage local) plan)
           | Remote_Unchanged \<Rightarrow> Inr (push_again_path path plan)
           | Remote_ModeChanged _ \<Rightarrow> Inr (push_again_path path plan)
           | Remote_Created _ \<Rightarrow> Inr plan)
      | Local_ModeChanged observed \<Rightarrow>
          (case remote of
             Remote_Absent \<Rightarrow> Inr (push_again_path path (remove_ancestor path plan))
           | Remote_ModeChanged entry \<Rightarrow>
               if entry_mode entry = ob_mode observed
               then Inr (adopt path (record_for_entry (w_now w) entry (ob_fingerprint observed)) plan)
               else Inr (push_again_path path plan)
           | Remote_Unchanged \<Rightarrow> Inr (push_again_path path plan)
           | Remote_Changed entry \<Rightarrow> Inr (push_again_path path (plan_aside path entry (preimage local) plan))
           | Remote_Created _ \<Rightarrow> Inr plan))"

definition classify_one ::
  "world \<Rightarrow> WorkspacePath \<Rightarrow> LocalDelta \<Rightarrow> RemoteDelta \<Rightarrow> bool \<Rightarrow> MergePlan \<Rightarrow> PullError + MergePlan" where
  "classify_one w path local remote force_aside plan =
     (if escaping_target w path remote
      then Inr (refuse_path path (UnsyncableRecord_new EscapingSymlinkTarget None (w_now w)) plan)
      else classify_row w path local remote force_aside plan)"

section \<open>The pass over all paths\<close>

type_synonym ancestor_rows = "(WorkspacePath, FileRecord) btree_map"
type_synonym remote_entries = "(WorkspacePath, ManifestEntry) btree_map"

definition classify_observed ::
  "world \<Rightarrow> ancestor_rows \<Rightarrow> remote_entries \<Rightarrow> WorkspacePath set \<Rightarrow> PullScope \<Rightarrow> WorkspacePath \<Rightarrow>
   MergePlan \<Rightarrow> PullError + MergePlan" where
  "classify_observed w ancestor remote collided scope path plan =
     (let delta = remote_delta (map_of remote path) (map_of ancestor path)
      in case local_delta w path (map_of ancestor path) (requires_verified_local_content delta) of
           Inl e \<Rightarrow> Inl e
         | Inr local \<Rightarrow>
             if reconciles_pending scope path \<and> map_of ancestor path = None
               \<and> local = Local_Absent \<and> map_of remote path \<noteq> None
             then Inr (push_again_path path plan)
             else classify_one w path local delta (path \<in> collided) plan)"

fun classify_paths ::
  "world \<Rightarrow> ancestor_rows \<Rightarrow> remote_entries \<Rightarrow> WorkspacePath set \<Rightarrow> PullScope \<Rightarrow> WorkspacePath list \<Rightarrow>
   MergePlan \<Rightarrow> WorkspacePath list \<Rightarrow> PullError + MergePlan \<times> WorkspacePath list" where
  "classify_paths w ancestor remote collided scope [] plan excluded = Inr (plan, excluded)"
| "classify_paths w ancestor remote collided scope (path # paths) plan excluded =
     (if is_git_lock_path path
      then classify_paths w ancestor remote collided scope paths plan excluded
      else if \<not> observes scope path (remote_delta (map_of remote path) (map_of ancestor path))
      then classify_paths w ancestor remote collided scope paths plan (excluded @ [path])
      else (case classify_observed w ancestor remote collided scope path plan of
          Inl e \<Rightarrow> Inl e
        | Inr plan \<Rightarrow> classify_paths w ancestor remote collided scope paths plan excluded))"

text \<open>The check compiled into debug builds, which is the argument \<open>debug_assertions\<close>.\<close>

fun excluded_unchanged :: "world \<Rightarrow> ancestor_rows \<Rightarrow> WorkspacePath list \<Rightarrow> PullError + unit" where
  "excluded_unchanged w ancestor [] = Inr ()"
| "excluded_unchanged w ancestor (path # paths) =
     (case local_delta w path (map_of ancestor path) False of
        Inl e \<Rightarrow> Inl e
      | Inr (Local_Unchanged _) \<Rightarrow> excluded_unchanged w ancestor paths
      | Inr Local_Unreadable \<Rightarrow> excluded_unchanged w ancestor paths
      | Inr _ \<Rightarrow> Inl (NarrowingMissedChange path))"

definition prove_narrowing :: "bool \<Rightarrow> world \<Rightarrow> ancestor_rows \<Rightarrow> PullScope \<Rightarrow> WorkspacePath list \<Rightarrow> PullError + unit" where
  "prove_narrowing debug_assertions w ancestor scope excluded =
     (if debug_assertions then
        (case scope of ChangedAndWalked _ \<Rightarrow> excluded_unchanged w ancestor excluded | _ \<Rightarrow> Inr ())
      else Inr ())"

definition merge_paths :: "ancestor_rows \<Rightarrow> remote_entries \<Rightarrow> WorkspacePath list" where
  "merge_paths ancestor remote =
     map fst (bt_collect (map (\<lambda>(path, _). (path, ())) ancestor @ map (\<lambda>(path, _). (path, ())) remote))"

definition classify ::
  "bool \<Rightarrow> world \<Rightarrow> ancestor_rows \<Rightarrow> remote_entries \<Rightarrow> PathCollision list \<Rightarrow> PullScope \<Rightarrow> PullError + MergePlan" where
  "classify debug_assertions w ancestor remote clashes scope =
     (case classify_paths w ancestor remote (collision_set clashes) scope
        (merge_paths ancestor remote) MergePlan_default [] of
        Inl e \<Rightarrow> Inl e
      | Inr (plan, excluded) \<Rightarrow>
          (case prove_narrowing debug_assertions w ancestor scope excluded of
             Inl e \<Rightarrow> Inl e
           | Inr _ \<Rightarrow> Inr plan))"

section \<open>A plan is what its paths contribute\<close>

record plan_share =
  sh_ops :: "FsOp list"
  sh_upsert :: "FileRecord option"
  sh_removed :: bool
  sh_push_again :: bool
  sh_unsyncable :: "UnsyncableRecord option"

definition at_path :: "MergePlan \<Rightarrow> WorkspacePath \<Rightarrow> plan_share" where
  "at_path plan path = \<lparr>sh_ops = filter (\<lambda>op. op_path op = path) (fs_ops plan),
     sh_upsert = map_of (ancestor_upserts plan) path, sh_removed = (path \<in> ancestor_removals plan),
     sh_push_again = (path \<in> plan_push_again plan), sh_unsyncable = map_of (plan_unsyncable plan) path\<rparr>"

definition empty_share :: plan_share where
  "empty_share = \<lparr>sh_ops = [], sh_upsert = None, sh_removed = False, sh_push_again = False, sh_unsyncable = None\<rparr>"

definition plan_ok :: "MergePlan \<Rightarrow> bool" where
  "plan_ok plan \<longleftrightarrow> bt_ok (ancestor_upserts plan) \<and> bt_ok (plan_unsyncable plan)"

lemmas plan_steps = plan_install_def plan_aside_def plan_delete_def plan_mode_change_def plan_op_def adopt_def
  push_again_path_def remove_ancestor_def refuse_path_def

lemma at_path_default: "at_path MergePlan_default path = empty_share" "plan_ok MergePlan_default"
  by (simp_all add: at_path_def MergePlan_default_def empty_share_def plan_ok_def)

lemma plan_steps_share:
  assumes "plan_ok plan"
  shows "plan_ok (plan_op path kind expected plan)"
    and "plan_ok (adopt path r plan)" and "plan_ok (push_again_path path plan)"
    and "plan_ok (remove_ancestor path plan)" and "plan_ok (refuse_path path u plan)"
    and "at_path (plan_op path kind expected plan) q =
      (if q = path then (at_path plan q)\<lparr>sh_ops := sh_ops (at_path plan q) @
         [\<lparr>op_path = path, op_kind = kind, op_expected = expected\<rparr>]\<rparr> else at_path plan q)"
    and "at_path (adopt path r plan) q =
      (if q = path then (at_path plan q)\<lparr>sh_upsert := Some r\<rparr> else at_path plan q)"
    and "at_path (push_again_path path plan) q =
      (if q = path then (at_path plan q)\<lparr>sh_push_again := True\<rparr> else at_path plan q)"
    and "at_path (remove_ancestor path plan) q =
      (if q = path then (at_path plan q)\<lparr>sh_removed := True\<rparr> else at_path plan q)"
    and "at_path (refuse_path path u plan) q =
      (if q = path then (at_path plan q)\<lparr>sh_unsyncable := Some u\<rparr> else at_path plan q)"
  using assms
  by (auto simp: plan_ok_def at_path_def plan_op_def adopt_def push_again_path_def remove_ancestor_def
      refuse_path_def bt_insert_ok map_of_bt_insert)

end
