(* ===== verification/Merge_Properties.thy ===== *)
theory Merge_Properties
  imports Merge_Matrix
begin

text \<open>
  What the merge guarantees for every path: local content that is not known to be held
  elsewhere is never displaced, no local and no remote change is forgotten, and looking at
  fewer paths loses nothing.
\<close>

section \<open>Every path is decided on its own\<close>

lemma classify_row_share:
  assumes "classify_row w path local remote force plan = Inr plan'" and "plan_ok plan"
  shows "plan_ok plan'" and "q \<noteq> path \<Longrightarrow> at_path plan' q = at_path plan q"
    and "at_path plan path = empty_share \<Longrightarrow>
      \<exists>d. classify_row w path local remote force MergePlan_default = Inr d \<and> at_path plan' path = at_path d path"
  using assms
  by (cases local; cases remote; auto simp: classify_row_def plan_steps_share plan_install_def plan_aside_def
      plan_delete_def plan_mode_change_def at_path_default split: if_splits)+

lemma classify_one_share:
  assumes "classify_one w path local remote force plan = Inr plan'" and "plan_ok plan"
  shows "plan_ok plan'" and "q \<noteq> path \<Longrightarrow> at_path plan' q = at_path plan q"
    and "at_path plan path = empty_share \<Longrightarrow>
      \<exists>d. classify_one w path local remote force MergePlan_default = Inr d \<and> at_path plan' path = at_path d path"
  using assms classify_row_share[of w path local remote force plan plan']
  by (auto simp: classify_one_def plan_steps_share at_path_default split: if_splits)

lemma classify_observed_share:
  assumes "classify_observed w ancestor remote collided scope path plan = Inr plan'" and "plan_ok plan"
  shows "plan_ok plan'" and "q \<noteq> path \<Longrightarrow> at_path plan' q = at_path plan q"
    and "at_path plan path = empty_share \<Longrightarrow>
      \<exists>d. classify_observed w ancestor remote collided scope path MergePlan_default = Inr d
        \<and> at_path plan' path = at_path d path"
  using assms classify_one_share[of w path _ _ _ plan plan']
  by (auto simp: classify_observed_def Let_def plan_steps_share at_path_default split: if_splits sum.splits)

text \<open>\<open>looked_at\<close>: the paths for which the matrix is consulted.\<close>

definition looked_at :: "ancestor_rows \<Rightarrow> remote_entries \<Rightarrow> PullScope \<Rightarrow> WorkspacePath \<Rightarrow> bool" where
  "looked_at ancestor remote scope path \<longleftrightarrow>
     (map_of ancestor path \<noteq> None \<or> map_of remote path \<noteq> None) \<and> \<not> is_git_lock_path path
     \<and> observes scope path (remote_delta (map_of remote path) (map_of ancestor path))"

lemma classify_paths_share:
  assumes "classify_paths w ancestor remote collided scope paths plan excluded = Inr (plan', excluded')"
    and "plan_ok plan" and "distinct paths"
  shows "plan_ok plan' \<and> (\<forall>q. (q \<notin> set paths \<longrightarrow> at_path plan' q = at_path plan q)
    \<and> (q \<in> set paths \<longrightarrow> at_path plan q = empty_share \<longrightarrow>
        (if is_git_lock_path q \<or> \<not> observes scope q (remote_delta (map_of remote q) (map_of ancestor q))
         then at_path plan' q = empty_share
         else \<exists>d. classify_observed w ancestor remote collided scope q MergePlan_default = Inr d
           \<and> at_path plan' q = at_path d q)))"
  using assms
proof (induction paths arbitrary: plan excluded)
  case (Cons path paths)
  show ?case
  proof (cases "is_git_lock_path path \<or> \<not> observes scope path (remote_delta (map_of remote path) (map_of ancestor path))")
    case True
    then obtain excluded'' where "classify_paths w ancestor remote collided scope paths plan excluded'' = Inr (plan', excluded')"
      using Cons.prems(1) by (auto split: if_splits)
    from Cons.IH[OF this Cons.prems(2)] Cons.prems(3) True show ?thesis by (auto split: if_splits)
  next
    case False
    then obtain step where step: "classify_observed w ancestor remote collided scope path plan = Inr step"
        "classify_paths w ancestor remote collided scope paths step excluded = Inr (plan', excluded')"
      using Cons.prems(1) by (auto split: sum.splits)
    note share = classify_observed_share[OF step(1) Cons.prems(2)]
    have "path \<notin> set paths" "distinct paths" using Cons.prems(3) by auto
    with Cons.IH[OF step(2) share(1)] share(2,3) False show ?thesis
      by (auto split: if_splits) metis+
  qed
qed simp

lemma merge_paths_keys:
  "distinct (merge_paths ancestor remote)"
  "set (merge_paths ancestor remote) = dom (map_of ancestor) \<union> dom (map_of remote)"
proof -
  let ?all = "map (\<lambda>(path, _). (path, ())) ancestor @ map (\<lambda>(path, _). (path, ())) remote"
  show "distinct (merge_paths ancestor remote)"
    unfolding merge_paths_def by (rule bt_ok_distinct[OF bt_collect_ok])
  have "set (merge_paths ancestor remote) = dom (map_of (bt_collect ?all))"
    by (simp add: merge_paths_def dom_map_of_conv_image_fst)
  also have "\<dots> = fst ` set ?all"
    by (simp add: map_of_bt_collect dom_map_of_conv_image_fst image_Un Un_commute)
  finally show "set (merge_paths ancestor remote) = dom (map_of ancestor) \<union> dom (map_of remote)"
    by (simp add: dom_map_of_conv_image_fst image_Un image_image case_prod_unfold)
qed

lemma classify_share:
  assumes "classify debug w ancestor remote clashes scope = Inr plan"
  shows "\<not> looked_at ancestor remote scope path \<Longrightarrow> at_path plan path = empty_share"
    and "looked_at ancestor remote scope path \<Longrightarrow>
      \<exists>d. classify_observed w ancestor remote (collision_set clashes) scope path MergePlan_default = Inr d
        \<and> at_path plan path = at_path d path"
proof -
  obtain excluded where "classify_paths w ancestor remote (collision_set clashes) scope
      (merge_paths ancestor remote) MergePlan_default [] = Inr (plan, excluded)"
    using assms by (auto simp: classify_def split: sum.splits)
  note key = classify_paths_share[OF this at_path_default(2) merge_paths_keys(1), THEN conjunct2, THEN spec, of path]
  have member: "path \<in> set (merge_paths ancestor remote) \<longleftrightarrow> map_of ancestor path \<noteq> None \<or> map_of remote path \<noteq> None"
    by (auto simp: merge_paths_keys)
  show "\<not> looked_at ancestor remote scope path \<Longrightarrow> at_path plan path = empty_share"
    using key unfolding member looked_at_def at_path_default(1) by metis
  show "looked_at ancestor remote scope path \<Longrightarrow>
      \<exists>d. classify_observed w ancestor remote (collision_set clashes) scope path MergePlan_default = Inr d
        \<and> at_path plan path = at_path d path"
    using key unfolding member looked_at_def at_path_default(1) by metis
qed

lemma classify_op:
  assumes "classify debug w ancestor remote clashes scope = Inr plan" and "op \<in> set (fs_ops plan)"
  obtains d where "classify_observed w ancestor remote (collision_set clashes) scope (op_path op) MergePlan_default = Inr d"
    and "op \<in> set (sh_ops (at_path d (op_path op)))"
proof -
  have mem: "op \<in> set (sh_ops (at_path plan (op_path op)))" using assms(2) by (simp add: at_path_def)
  then have "looked_at ancestor remote scope (op_path op)"
    using classify_share(1)[OF assms(1)] by (fastforce simp: empty_share_def)
  with classify_share(2)[OF assms(1)] mem that show thesis by metis
qed

section \<open>What is known of the disk\<close>

lemma local_delta_absent: "local_delta w path ancestor v = Inr Local_Absent \<Longrightarrow> w_observe w path = Observe_Absent \<and> ancestor = None"
  by (auto simp: local_delta_def local_vs_record_not map_sum_Inr split: ObserveOutcome.splits option.splits)

lemma local_delta_unchanged:
  assumes "local_delta w path ancestor True = Inr (Local_Unchanged r)"
  obtains observed where "w_observe w path = Observe_Present observed" and "ancestor = Some r" and "verified w path observed r"
  using assms local_vs_record_verified[of w path]
  by (auto simp: local_delta_def map_sum_Inr split: ObserveOutcome.splits option.splits)

text \<open>A hash is taken of bytes that were read.\<close>

definition hashed :: "world \<Rightarrow> WorkspacePath \<Rightarrow> Observed \<Rightarrow> ContentId option \<Rightarrow> bool" where
  "hashed w path observed content_id \<longleftrightarrow>
     (\<forall>c. content_id = Some c \<longrightarrow> ob_kind observed = Kind_File
        \<and> (\<exists>bytes. w_read w path (expected_file observed) = Inr (Read_Bytes bytes) \<and> c = w_content_id w bytes))"

lemma maybe_hash_hashed: "maybe_hash w path observed = Inr content_id \<Longrightarrow> hashed w path observed content_id"
  by (auto simp: maybe_hash_def hashed_def read_local_bytes split: if_splits sum.splits LocalRead.splits)

lemma local_vs_record_changed:
  "local_vs_record w path observed r v = Inr (Local_Changed observed' content_id) \<Longrightarrow>
     observed' = observed \<and> hashed w path observed content_id"
  using maybe_hash_hashed[of w path observed]
  by (auto simp: local_vs_record_def map_sum_Inr Let_def read_local_bytes
      split: if_splits EntryKind.splits sum.splits LocalRead.splits) (auto simp: hashed_def)

lemma local_delta_changed:
  assumes "local_delta w path ancestor v = Inr (Local_Changed observed content_id)"
  shows "w_observe w path = Observe_Present observed \<and> hashed w path observed content_id"
  using assms
  by (auto simp: local_delta_def map_sum_Inr split: ObserveOutcome.splits option.splits dest: local_vs_record_changed)

lemma preimage_of_changed:
  assumes "hashed w path observed content_id" and "ob_kind observed = Kind_File \<longrightarrow> content_id \<noteq> None"
  shows "preimage_matches w path (preimage_from_observed observed content_id) (Some observed) = Inr True"
proof (cases "ob_kind observed")
  case Kind_File
  with assms obtain bytes where "read_local_content w path (expected_file observed) = Inr (Local_Bytes bytes)"
      "content_id = Some (w_content_id w bytes)"
    by (auto simp: hashed_def read_local_bytes)
  with Kind_File show ?thesis by (simp add: preimage_matches_def preimage_from_observed_def)
qed (simp_all add: preimage_matches_def preimage_from_observed_def)

section \<open>Nothing unverified is displaced\<close>

definition unchanged_on_disk :: "world \<Rightarrow> ancestor_rows \<Rightarrow> WorkspacePath \<Rightarrow> bool" where
  "unchanged_on_disk w ancestor path \<longleftrightarrow>
     (\<exists>observed r. w_observe w path = Observe_Present observed \<and> map_of ancestor path = Some r
        \<and> verified w path observed r)"

definition same_content :: "world \<Rightarrow> WorkspacePath \<Rightarrow> ManifestEntry \<Rightarrow> bool" where
  "same_content w path entry \<longleftrightarrow>
     (\<exists>observed. w_observe w path = Observe_Present observed \<and> ob_kind observed = entry_kind entry
        \<and> (case entry of
             File _ _ content_id _ _ \<Rightarrow>
               (\<exists>bytes. w_read w path (expected_file observed) = Inr (Read_Bytes bytes)
                  \<and> content_id = w_content_id w bytes)
           | Directory _ \<Rightarrow> True
           | Symlink _ target \<Rightarrow> ob_symlink_target observed = Some target))"

definition displaces_only_held :: "world \<Rightarrow> ancestor_rows \<Rightarrow> FsOp \<Rightarrow> bool" where
  "displaces_only_held w ancestor op =
     (case op_kind op of
        Op_Install _ \<Rightarrow> w_observe w (op_path op) = Observe_Absent \<or> unchanged_on_disk w ancestor (op_path op)
      | Op_Delete \<Rightarrow> unchanged_on_disk w ancestor (op_path op)
      | Op_ModeChange entry \<Rightarrow>
          unchanged_on_disk w ancestor (op_path op) \<or> same_content w (op_path op) entry
      | Op_ConflictAside _ \<Rightarrow> True)"

definition preimage_holds :: "world \<Rightarrow> FsOp \<Rightarrow> bool" where
  "preimage_holds w op =
     (case op_kind op of
        Op_ConflictAside _ \<Rightarrow> True
      | _ \<Rightarrow> (\<exists>observed. observe_syncable w (op_path op) = Inr observed
          \<and> preimage_matches w (op_path op) (op_expected op) observed = Inr True))"

lemma same_contentI:
  assumes "w_observe w path = Observe_Present observed" and "hashed w path observed content_id"
    and "entry_matches_observed entry observed content_id"
  shows "same_content w path entry" and "ob_kind observed = Kind_File \<longrightarrow> content_id \<noteq> None"
  using assms by (cases entry; auto simp: same_content_def entry_matches_observed_def hashed_def)+

lemma classify_row_safe:
  assumes "classify_row w path local remote force MergePlan_default = Inr d"
    and "local_delta w path (map_of ancestor path) (requires_verified_local_content remote) = Inr local"
    and "op \<in> set (sh_ops (at_path d path))"
  shows "op_path op = path \<and> displaces_only_held w ancestor op \<and> preimage_holds w op"
proof (cases local)
  case Local_Absent
  then show ?thesis using assms local_delta_absent[of w path "map_of ancestor path"]
    by (auto simp: classify_row_def plan_steps_share at_path_default empty_share_def plan_install_def
        displaces_only_held_def preimage_holds_def observe_syncable_def preimage_matches_def preimage_absent_def
        split: RemoteDelta.splits)
next
  case (Local_Unchanged r)
  show ?thesis
  proof (cases "requires_verified_local_content remote")
    case True
    then obtain observed where "w_observe w path = Observe_Present observed" "map_of ancestor path = Some r"
        "verified w path observed r"
      using assms(2) Local_Unchanged by (auto elim: local_delta_unchanged)
    then show ?thesis using assms(1,3) Local_Unchanged
      by (auto simp: classify_row_def plan_steps_share at_path_default empty_share_def plan_install_def plan_delete_def
          plan_mode_change_def displaces_only_held_def preimage_holds_def observe_syncable_def unchanged_on_disk_def
          preimage_of_verified split: RemoteDelta.splits)
  next
    case False
    then show ?thesis using assms(1,3) Local_Unchanged
      by (cases remote) (auto simp: classify_row_def at_path_default empty_share_def)
  qed
next
  case (Local_Changed observed content_id)
  then have seen: "w_observe w path = Observe_Present observed" "hashed w path observed content_id"
    using local_delta_changed assms(2) by blast+
  then show ?thesis using assms(1,3) Local_Changed same_contentI[OF seen] preimage_of_changed[OF seen(2)]
    by (auto simp: classify_row_def plan_steps_share at_path_default empty_share_def plan_aside_def
        plan_mode_change_def displaces_only_held_def preimage_holds_def observe_syncable_def
        split: RemoteDelta.splits if_splits)
qed (use assms in \<open>auto simp: classify_row_def plan_steps_share at_path_default empty_share_def plan_aside_def
    displaces_only_held_def preimage_holds_def split: RemoteDelta.splits if_splits\<close>)

lemma plan_op_safe:
  assumes "classify debug w ancestor remote clashes scope = Inr plan" and "op \<in> set (fs_ops plan)"
  shows "displaces_only_held w ancestor op \<and> preimage_holds w op"
proof -
  obtain d where d: "classify_observed w ancestor remote (collision_set clashes) scope (op_path op) MergePlan_default = Inr d"
      "op \<in> set (sh_ops (at_path d (op_path op)))"
    by (rule classify_op[OF assms])
  then show ?thesis
    using classify_row_safe[of w "op_path op" _ "remote_delta (map_of remote (op_path op)) (map_of ancestor (op_path op))"
        _ d ancestor op]
    by (auto simp: classify_observed_def classify_one_def Let_def plan_steps_share at_path_default empty_share_def
        split: sum.splits if_splits)
qed

section \<open>Looking at fewer paths\<close>

lemma excluded_unchanged_iff:
  "excluded_unchanged w ancestor paths = Inr () \<longleftrightarrow>
     list_all (\<lambda>path. (\<exists>r. local_delta w path (map_of ancestor path) False = Inr (Local_Unchanged r))
       \<or> local_delta w path (map_of ancestor path) False = Inr Local_Unreadable) paths"
  by (induction paths) (auto split: sum.splits LocalDelta.splits)

lemma classify_observed_idle:
  assumes "remote_delta (map_of remote path) (map_of ancestor path) = Remote_Unchanged"
    and "(\<exists>r. local_delta w path (map_of ancestor path) False = Inr (Local_Unchanged r))
      \<or> local_delta w path (map_of ancestor path) False = Inr Local_Unreadable"
  shows "classify_observed w ancestor remote collided WholeAncestor path plan = Inr plan"
  using assms by (auto simp: classify_observed_def classify_one_def classify_row_def escaping_target_def)

lemma classify_paths_excluded:
  "classify_paths w ancestor remote collided scope paths plan excluded = Inr (plan', excluded') \<Longrightarrow>
     \<exists>more. excluded' = excluded @ more"
proof (induction paths arbitrary: plan excluded)
  case (Cons path paths)
  then show ?case by (fastforce split: if_splits sum.splits)
qed simp

lemma classify_paths_narrow:
  assumes "classify_paths w ancestor remote collided scope paths plan excluded = Inr (plan', excluded')"
    and "scope = ChangedAndDirty dirty \<or> scope = ChangedAndWalked dirty"
    and "excluded_unchanged w ancestor excluded' = Inr ()"
  shows "classify_paths w ancestor remote collided WholeAncestor paths plan [] = Inr (plan', [])"
  using assms(1)
proof (induction paths arbitrary: plan excluded)
  case (Cons path paths)
  let ?delta = "remote_delta (map_of remote path) (map_of ancestor path)"
  consider (lock) "is_git_lock_path path" | (skip) "\<not> is_git_lock_path path" "\<not> observes scope path ?delta"
    | (look) "\<not> is_git_lock_path path" "observes scope path ?delta" by blast
  then show ?case
  proof cases
    case lock
    with Cons show ?thesis by auto
  next
    case skip
    then have rest: "classify_paths w ancestor remote collided scope paths plan (excluded @ [path]) = Inr (plan', excluded')"
      using Cons.prems by simp
    then have "path \<in> set excluded'" using classify_paths_excluded[OF rest] by auto
    then have "classify_observed w ancestor remote collided WholeAncestor path plan = Inr plan"
      using assms(2,3) skip(2)
      by (intro classify_observed_idle) (auto simp: excluded_unchanged_iff list_all_iff)
    with Cons.IH[OF rest] skip show ?thesis by simp
  next
    case look
    have "classify_observed w ancestor remote collided scope path plan =
        classify_observed w ancestor remote collided WholeAncestor path plan"
      using assms(2) by (auto simp: classify_observed_def Let_def split: sum.split)
    with look Cons show ?thesis by (auto split: sum.splits)
  qed
qed simp

lemma classify_narrow:
  assumes "classify_paths w ancestor remote (collision_set clashes) scope (merge_paths ancestor remote) MergePlan_default []
      = Inr (plan, excluded)"
    and "scope = ChangedAndDirty dirty \<or> scope = ChangedAndWalked dirty"
    and "excluded_unchanged w ancestor excluded = Inr ()"
  shows "classify debug w ancestor remote clashes WholeAncestor = Inr plan"
  using classify_paths_narrow[OF assms] by (simp add: classify_def prove_narrowing_def)

end
