(* ===== verification/Engine_Store.thy ===== *)
theory Engine_Store
  imports Merge_Properties
begin

text \<open>
  The durable state of the engine, \<^verbatim>\<open>store.rs\<close> and \<^verbatim>\<open>store/frontier.rs\<close>: the ancestor rows, the
  applied ref and the freshness ratchet, the intents, the pending pushes and the refused paths,
  each table as a map and each transaction as a function. A transaction that fails leaves the
  store as it was; the failures of SQLite itself are not modelled. The singleton row that has not
  been written yet reads as its default.
\<close>

section \<open>The tables\<close>

record EngineState =
  applied_manifest_key :: "ManifestKey option"
  last_ref_version :: "u64 option"
  materialization_revision :: u64
  highest_verified_ref_version :: "u64 option"
  highest_verified_manifest_key :: "ManifestKey option"

definition EngineState_default :: EngineState where
  "EngineState_default = \<lparr>applied_manifest_key = None, last_ref_version = None, materialization_revision = 0,
     highest_verified_ref_version = None, highest_verified_manifest_key = None\<rparr>"

record RefObservation =
  ref_version :: u64
  ref_manifest_key :: ManifestKey

datatype EngineRef = Genesis | Head RefObservation

definition applied_ref :: "EngineState \<Rightarrow> ManifestStoreError + EngineRef" where
  "applied_ref state =
     (case (applied_manifest_key state, last_ref_version state) of
        (None, None) \<Rightarrow> Inr Genesis
      | (Some manifest_key, Some version) \<Rightarrow> Inr (Head \<lparr>ref_version = version, ref_manifest_key = manifest_key\<rparr>)
      | _ \<Rightarrow> Inl (Corrupt ''applied_ref''))"

datatype IntentOperationKind = Intent_Install | Intent_Delete | Intent_ModeChange | Intent_ConflictAside

record Intent =
  in_path :: WorkspacePath
  in_operation_kind :: IntentOperationKind
  in_temp_name :: "string option"
  in_expected_preimage :: "string option"
  in_target_record :: "string option"
  in_preserved_preimage :: "string option"
  in_target_manifest_key :: "ManifestKey option"
  in_created_at :: i64

record AncestorCommit =
  ac_upserts :: ancestor_rows
  ac_removals :: "WorkspacePath set"

definition AncestorCommit_default :: AncestorCommit where
  "AncestorCommit_default = \<lparr>ac_upserts = [], ac_removals = {}\<rparr>"

record SealedBlob =
  sb_blob_key :: BlobKey
  sb_key_epoch :: KeyEpoch
  sb_byte_len :: u64

record manifest_store =
  st_files :: ancestor_rows
  st_state :: EngineState
  st_intents :: "(WorkspacePath, Intent) btree_map"
  st_pending_push :: "WorkspacePath set"
  st_unsyncable :: "(WorkspacePath, UnsyncableRecord) btree_map"
  st_blobs :: "(ContentId, SealedBlob) btree_map"
  st_tree_nodes :: "(SubtreeHash, ManifestKey \<times> KeyEpoch) btree_map"
  st_node_epochs :: "(ManifestKey, KeyEpoch) btree_map"

section \<open>Transactions\<close>

definition i64_MAX :: nat where
  "i64_MAX = 9223372036854775807"

definition to_i64 :: "u64 \<Rightarrow> ManifestStoreError + nat" where
  "to_i64 v = (if v \<le> i64_MAX then Inr v else Inl (ValueOutOfRange ''u64->i64''))"

definition engine_state :: "manifest_store \<Rightarrow> ManifestStoreError + EngineState" where
  "engine_state store =
     (case applied_ref (st_state store) of Inl e \<Rightarrow> Inl e | Inr _ \<Rightarrow> Inr (st_state store))"

definition next_materialization_revision :: "EngineState \<Rightarrow> ManifestStoreError + nat" where
  "next_materialization_revision state =
     (if materialization_revision state + 1 \<le> i64_MAX then Inr (materialization_revision state + 1)
      else Inl (ValueOutOfRange ''materialization_revision''))"

definition set_applied :: "ManifestKey \<Rightarrow> u64 \<Rightarrow> EngineState \<Rightarrow> ManifestStoreError + EngineState" where
  "set_applied manifest_key version state =
     map_sum id (\<lambda>next. state\<lparr>applied_manifest_key := Some manifest_key, last_ref_version := Some version,
         materialization_revision := next\<rparr>)
       (next_materialization_revision state)"

definition advance_materialization_revision :: "EngineState \<Rightarrow> ManifestStoreError + EngineState" where
  "advance_materialization_revision state =
     map_sum id (\<lambda>next. state\<lparr>materialization_revision := next\<rparr>) (next_materialization_revision state)"

definition advance_verified_ratchet :: "ManifestKey \<Rightarrow> u64 \<Rightarrow> EngineState \<Rightarrow> EngineState" where
  "advance_verified_ratchet manifest_key version state =
     (if (case highest_verified_ref_version state of None \<Rightarrow> True | Some highest \<Rightarrow> version > highest)
      then state\<lparr>highest_verified_ref_version := Some version, highest_verified_manifest_key := Some manifest_key\<rparr>
      else state)"

definition raise_ratchet_floor :: "EngineState \<Rightarrow> EngineState" where
  "raise_ratchet_floor state =
     (case (applied_manifest_key state, last_ref_version state) of
        (Some manifest_key, Some version) \<Rightarrow>
          if (case highest_verified_ref_version state of None \<Rightarrow> True | Some highest \<Rightarrow> highest < version)
          then state\<lparr>highest_verified_ref_version := Some version, highest_verified_manifest_key := Some manifest_key\<rparr>
          else state
      | _ \<Rightarrow> state)"

definition apply_ancestor :: "AncestorCommit \<Rightarrow> ancestor_rows \<Rightarrow> ManifestStoreError + ancestor_rows" where
  "apply_ancestor commit files =
     (if list_all (\<lambda>(_, r). fr_size r \<le> i64_MAX) (ac_upserts commit) then
        Inr (fold (\<lambda>(path, r). bt_insert path r) (ac_upserts commit)
          (filter (\<lambda>(path, _). path \<notin> ac_removals commit) files))
      else Inl (ValueOutOfRange ''u64->i64''))"

definition record_highest_verified :: "u64 \<Rightarrow> ManifestKey \<Rightarrow> manifest_store \<Rightarrow> ManifestStoreError + manifest_store" where
  "record_highest_verified version manifest_key store =
     map_sum id (\<lambda>version. store\<lparr>st_state := advance_verified_ratchet manifest_key version (st_state store)\<rparr>)
       (to_i64 version)"

definition record_ref_advance :: "ManifestKey \<Rightarrow> u64 \<Rightarrow> manifest_store \<Rightarrow> ManifestStoreError + manifest_store" where
  "record_ref_advance manifest_key version store =
     (case to_i64 version of
        Inl e \<Rightarrow> Inl e
      | Inr version \<Rightarrow>
     (case set_applied manifest_key version (st_state store) of
        Inl e \<Rightarrow> Inl e
      | Inr state \<Rightarrow> Inr (store\<lparr>st_state := advance_verified_ratchet manifest_key version state\<rparr>)))"

definition commit_push_success ::
  "AncestorCommit \<Rightarrow> ManifestKey \<Rightarrow> u64 \<Rightarrow> WorkspacePath set \<Rightarrow> manifest_store \<Rightarrow> ManifestStoreError + manifest_store" where
  "commit_push_success commit manifest_key version settled_paths store =
     (case to_i64 version of
        Inl e \<Rightarrow> Inl e
      | Inr version \<Rightarrow>
     (case apply_ancestor commit (st_files store) of
        Inl e \<Rightarrow> Inl e
      | Inr files \<Rightarrow>
     (case set_applied manifest_key version (st_state store) of
        Inl e \<Rightarrow> Inl e
      | Inr state \<Rightarrow> Inr (store\<lparr>st_files := files,
          st_state := advance_verified_ratchet manifest_key version state,
          st_pending_push := st_pending_push store - settled_paths\<rparr>))))"

definition commit_push_no_change ::
  "AncestorCommit \<Rightarrow> WorkspacePath set \<Rightarrow> manifest_store \<Rightarrow> ManifestStoreError + manifest_store" where
  "commit_push_no_change commit settled_paths store =
     map_sum id (\<lambda>files. store\<lparr>st_files := files, st_pending_push := st_pending_push store - settled_paths\<rparr>)
       (apply_ancestor commit (st_files store))"

definition refresh_local_file_records :: "ancestor_rows \<Rightarrow> manifest_store \<Rightarrow> ManifestStoreError + manifest_store" where
  "refresh_local_file_records records store =
     map_sum id (\<lambda>files. store\<lparr>st_files := files\<rparr>)
       (apply_ancestor \<lparr>ac_upserts = records, ac_removals = {}\<rparr> (st_files store))"

definition clear_pending_push_paths :: "WorkspacePath set \<Rightarrow> manifest_store \<Rightarrow> manifest_store" where
  "clear_pending_push_paths paths store = store\<lparr>st_pending_push := st_pending_push store - paths\<rparr>"

definition commit_pull_outcome ::
  "AncestorCommit \<Rightarrow> (ManifestKey \<times> u64) option \<Rightarrow> (ManifestKey \<times> u64) option \<Rightarrow> WorkspacePath list \<Rightarrow>
   WorkspacePath set \<Rightarrow> manifest_store \<Rightarrow> ManifestStoreError + manifest_store" where
  "commit_pull_outcome commit applied verified_head intent_ids push_again store =
     (let materialization_changed = (ac_upserts commit \<noteq> [] \<or> ac_removals commit \<noteq> {} \<or> intent_ids \<noteq> [])
      in case apply_ancestor commit (st_files store) of
           Inl e \<Rightarrow> Inl e
         | Inr files \<Rightarrow>
        (case (case applied of
             Some (manifest_key, version) \<Rightarrow>
               (case to_i64 version of Inl e \<Rightarrow> Inl e | Inr version \<Rightarrow> set_applied manifest_key version (st_state store))
           | None \<Rightarrow>
               if materialization_changed then advance_materialization_revision (st_state store)
               else Inr (st_state store)) of
           Inl e \<Rightarrow> Inl e
         | Inr state \<Rightarrow>
        (case (case verified_head of
             Some (manifest_key, version) \<Rightarrow>
               (case to_i64 version of Inl e \<Rightarrow> Inl e | Inr version \<Rightarrow> Inr (advance_verified_ratchet manifest_key version state))
           | None \<Rightarrow> Inr state) of
           Inl e \<Rightarrow> Inl e
         | Inr state \<Rightarrow>
             Inr (store\<lparr>st_files := files, st_state := state,
               st_intents := filter (\<lambda>(path, _). path \<notin> set intent_ids) (st_intents store),
               st_pending_push := st_pending_push store \<union> push_again\<rparr>))))"

definition open_intent :: "Intent \<Rightarrow> manifest_store \<Rightarrow> manifest_store" where
  "open_intent intent store = store\<lparr>st_intents := bt_insert (in_path intent) intent (st_intents store)\<rparr>"

definition pending_intents :: "manifest_store \<Rightarrow> Intent list" where
  "pending_intents store = map snd (st_intents store)"

definition record_unsyncable ::
  "(WorkspacePath, UnsyncableRecord) btree_map \<Rightarrow> WorkspacePath set \<Rightarrow> manifest_store \<Rightarrow> manifest_store" where
  "record_unsyncable observed resolved store =
     store\<lparr>st_unsyncable := fold (\<lambda>(path, r). bt_insert path r) observed
       (filter (\<lambda>(path, _). path \<notin> resolved) (st_unsyncable store))\<rparr>"

text \<open>The ledgers of sealed blobs and of tree nodes; a row of another epoch is no hit.\<close>

definition sealed_blob :: "manifest_store \<Rightarrow> ContentId \<Rightarrow> KeyEpoch \<Rightarrow> SealedBlob option" where
  "sealed_blob store content_id key_epoch =
     Option.bind (map_of (st_blobs store) content_id) (\<lambda>blob. if sb_key_epoch blob = key_epoch then Some blob else None)"

definition record_sealed_blobs ::
  "(ContentId, SealedBlob) btree_map \<Rightarrow> manifest_store \<Rightarrow> ManifestStoreError + manifest_store" where
  "record_sealed_blobs blobs store =
     (if list_all (\<lambda>(_, blob). sb_byte_len blob \<le> i64_MAX) blobs
      then Inr (store\<lparr>st_blobs := fold (\<lambda>(content_id, blob). bt_insert content_id blob) blobs (st_blobs store)\<rparr>)
      else Inl (ValueOutOfRange ''u64->i64''))"

definition tree_node :: "manifest_store \<Rightarrow> SubtreeHash \<Rightarrow> KeyEpoch \<Rightarrow> string + ManifestKey option" where
  "tree_node store subtree_hash key_epoch =
     Inr (Option.bind (map_of (st_tree_nodes store) subtree_hash) (\<lambda>(key, epoch). if epoch = key_epoch then Some key else None))"

definition record_tree_node_epoch :: "ManifestKey \<Rightarrow> KeyEpoch \<Rightarrow> manifest_store \<Rightarrow> manifest_store" where
  "record_tree_node_epoch node_key key_epoch store =
     store\<lparr>st_node_epochs := bt_insert node_key key_epoch (st_node_epochs store)\<rparr>"

definition record_tree_nodes ::
  "(SubtreeHash, ManifestKey) btree_map \<Rightarrow> KeyEpoch \<Rightarrow> manifest_store \<Rightarrow> manifest_store" where
  "record_tree_nodes nodes key_epoch store =
     fold (\<lambda>(hash, key). record_tree_node_epoch key key_epoch) nodes
       (store\<lparr>st_tree_nodes := fold (\<lambda>(hash, key). bt_insert hash (key, key_epoch)) nodes (st_tree_nodes store)\<rparr>)"

section \<open>Queries\<close>

definition all_files :: "manifest_store \<Rightarrow> ancestor_rows" where
  "all_files store = st_files store"

text \<open>
  The rows at or below the scopes, as one range of the primary key for each scope: the names
  from \<open>scope/\<close> up to \<open>scope0\<close>, since \<open>0\<close> follows the slash.
\<close>

definition in_scope :: "WorkspacePath \<Rightarrow> WorkspacePath \<Rightarrow> bool" where
  "in_scope scope path \<longleftrightarrow> path = scope \<or> (scope @ [slash] \<le> path \<and> path < scope @ ''0'')"

definition files_in_scopes :: "WorkspacePath set \<Rightarrow> manifest_store \<Rightarrow> ancestor_rows" where
  "files_in_scopes scopes store = filter (\<lambda>(path, _). \<exists>scope \<in> scopes. in_scope scope path) (st_files store)"

definition files_at_paths :: "WorkspacePath set \<Rightarrow> manifest_store \<Rightarrow> ancestor_rows" where
  "files_at_paths paths store = filter (\<lambda>(path, _). path \<in> paths) (st_files store)"

definition file_count :: "manifest_store \<Rightarrow> nat" where
  "file_count store = length (st_files store)"

definition has_files_outside_key_epoch :: "KeyEpoch \<Rightarrow> manifest_store \<Rightarrow> bool" where
  "has_files_outside_key_epoch key_epoch store \<longleftrightarrow>
     list_ex (\<lambda>(_, r). case fr_key_epoch r of None \<Rightarrow> False | Some epoch \<Rightarrow> epoch \<noteq> key_epoch) (st_files store)"

definition tree_node_key_epoch :: "ManifestKey \<Rightarrow> manifest_store \<Rightarrow> KeyEpoch option" where
  "tree_node_key_epoch node_key store = map_of (st_node_epochs store) node_key"

section \<open>The frontier\<close>

text \<open>
  \<open>frontier_ok\<close>: the applied ref is a key with a version or neither, the ratchet likewise, and
  the ratchet is not below the applied ref.
\<close>

definition frontier_ok :: "EngineState \<Rightarrow> bool" where
  "frontier_ok state \<longleftrightarrow>
     (applied_manifest_key state = None \<longleftrightarrow> last_ref_version state = None)
     \<and> (highest_verified_manifest_key state = None \<longleftrightarrow> highest_verified_ref_version state = None)
     \<and> (case last_ref_version state of
          None \<Rightarrow> True
        | Some version \<Rightarrow> (case highest_verified_ref_version state of None \<Rightarrow> False | Some highest \<Rightarrow> version \<le> highest))"

text \<open>\<open>ratchet_le\<close>: the ratchet has not moved back, and at the same version it has the same key.\<close>

definition ratchet_le :: "EngineState \<Rightarrow> EngineState \<Rightarrow> bool" where
  "ratchet_le old new =
     (case highest_verified_ref_version old of
        None \<Rightarrow> True
      | Some highest \<Rightarrow>
          (case highest_verified_ref_version new of
             None \<Rightarrow> False
           | Some highest' \<Rightarrow> highest < highest'
               \<or> (highest' = highest \<and> highest_verified_manifest_key new = highest_verified_manifest_key old)))"

lemma ratchet_refl: "ratchet_le state state"
  by (simp add: ratchet_le_def split: option.split)

lemma ratchet_trans: "ratchet_le a b \<Longrightarrow> ratchet_le b c \<Longrightarrow> ratchet_le a c"
  by (auto simp: ratchet_le_def split: option.splits)

lemma frontier_ok_default: "frontier_ok EngineState_default"
  by (simp add: frontier_ok_def EngineState_default_def)

lemma frontier_ok_applied: "frontier_ok state \<Longrightarrow> \<exists>r. applied_ref state = Inr r"
  by (auto simp: frontier_ok_def applied_ref_def split: option.splits)

lemma advance_ratchet:
  assumes "frontier_ok state"
  shows "ratchet_le state (advance_verified_ratchet key version state)"
    and "frontier_ok (advance_verified_ratchet key version state)"
  using assms by (auto simp: advance_verified_ratchet_def ratchet_le_def frontier_ok_def split: option.splits if_splits)

lemma raise_floor:
  shows "frontier_ok state \<Longrightarrow> raise_ratchet_floor state = state"
  by (auto simp: raise_ratchet_floor_def frontier_ok_def split: option.splits)

text \<open>Applying a head and ratcheting to it, and applying again what was applied before.\<close>

lemma set_applied_ratchet:
  assumes "set_applied key version state = Inr state'" and "frontier_ok state"
  shows "frontier_ok (advance_verified_ratchet key version state')"
    and "ratchet_le state (advance_verified_ratchet key version state')"
    and "applied_manifest_key (advance_verified_ratchet key version state') = Some key"
    and "last_ref_version (advance_verified_ratchet key version state') = Some version"
  using assms
  by (auto simp: set_applied_def map_sum_Inr advance_verified_ratchet_def ratchet_le_def frontier_ok_def
      split: option.splits if_splits)

end
