(* ===== verification/Pull_Apply.thy ===== *)
theory Pull_Apply
  imports Engine_Store
begin

text \<open>
  Applying a plan, \<^verbatim>\<open>pull_apply/apply.rs\<close>, \<^verbatim>\<open>pull_apply/apply/applied_outcome.rs\<close>,
  \<^verbatim>\<open>pull_apply/prefetch.rs\<close> and the payloads of \<^verbatim>\<open>pull_apply/intents.rs\<close>. The primitives that
  touch the disk (\<^verbatim>\<open>pull_apply/materialize.rs\<close>) are the fields of \<open>disk\<close>: functions on a state
  that other programs may change at the same time, so that they may change it in any way.
\<close>

section \<open>Payloads of an intent\<close>

datatype IntentOpTag = Tag_Install | Tag_Delete | Tag_ModeChange | Tag_ConflictAside

record TargetRecordPayload =
  tg_op :: IntentOpTag
  tg_kind :: "EntryKind option"
  tg_size :: "u64 option"
  tg_mode :: "FileMode option"
  tg_content_id :: "ContentId option"
  tg_blob_key :: "BlobKey option"
  tg_key_epoch :: "KeyEpoch option"
  tg_symlink_target :: "string option"

definition missing_field :: "string \<Rightarrow> PullError" where
  "missing_field field = Pull_Internal field"

definition or_default :: "'a option \<Rightarrow> 'a \<Rightarrow> 'a" where
  "or_default x d = (case x of Some v \<Rightarrow> v | None \<Rightarrow> d)"

definition to_entry :: "TargetRecordPayload \<Rightarrow> PullError + ManifestEntry" where
  "to_entry target =
     (case tg_kind target of
        Some Kind_File \<Rightarrow>
          (case tg_content_id target of
             None \<Rightarrow> Inl (missing_field ''content_id'')
           | Some content_id \<Rightarrow>
               (case tg_blob_key target of
                  None \<Rightarrow> Inl (missing_field ''blob_key'')
                | Some blob_key \<Rightarrow>
                    (case tg_key_epoch target of
                       None \<Rightarrow> Inl (missing_field ''key_epoch'')
                     | Some key_epoch \<Rightarrow>
                         Inr (File (or_default (tg_size target) 0) (or_default (tg_mode target) 420)
                           content_id blob_key key_epoch))))
      | Some Kind_Directory \<Rightarrow> Inr (Directory (or_default (tg_mode target) 493))
      | Some Kind_Symlink \<Rightarrow>
          (case tg_symlink_target target of
             None \<Rightarrow> Inl (missing_field ''symlink_target'')
           | Some link \<Rightarrow> Inr (Symlink FileMode_symlink link))
      | None \<Rightarrow> Inl (missing_field ''kind''))"

definition to_record :: "i64 \<Rightarrow> TargetRecordPayload \<Rightarrow> StatFingerprint \<Rightarrow> PullError + FileRecord" where
  "to_record now target fingerprint =
     map_sum id (\<lambda>entry. record_for_entry now entry fingerprint) (to_entry target)"

definition entry_to_target :: "IntentOpTag \<Rightarrow> ManifestEntry \<Rightarrow> TargetRecordPayload" where
  "entry_to_target op entry =
     (let payload = \<lparr>tg_op = op, tg_kind = Some (entry_kind entry), tg_size = None,
            tg_mode = Some (entry_mode entry), tg_content_id = None, tg_blob_key = None,
            tg_key_epoch = None, tg_symlink_target = None\<rparr>
      in case entry of
           File sz _ content_id blob_key key_epoch \<Rightarrow>
             payload\<lparr>tg_size := Some sz, tg_content_id := Some content_id, tg_blob_key := Some blob_key,
               tg_key_epoch := Some key_epoch\<rparr>
         | Directory _ \<Rightarrow> payload
         | Symlink _ link \<Rightarrow> payload\<lparr>tg_symlink_target := Some link\<rparr>)"

definition target_payload :: "FsOp \<Rightarrow> IntentOperationKind \<times> TargetRecordPayload" where
  "target_payload op =
     (case op_kind op of
        Op_Install entry \<Rightarrow> (Intent_Install, entry_to_target Tag_Install entry)
      | Op_ConflictAside entry \<Rightarrow> (Intent_ConflictAside, entry_to_target Tag_ConflictAside entry)
      | Op_Delete \<Rightarrow>
          (Intent_Delete, \<lparr>tg_op = Tag_Delete, tg_kind = None, tg_size = None, tg_mode = None,
             tg_content_id = None, tg_blob_key = None, tg_key_epoch = None, tg_symlink_target = None\<rparr>)
      | Op_ModeChange entry \<Rightarrow> (Intent_ModeChange, entry_to_target Tag_ModeChange entry))"

lemma target_entry_round_trip: "to_entry (entry_to_target op entry) = Inr (canonical_entry entry)"
  by (cases entry) (simp_all add: to_entry_def entry_to_target_def or_default_def)

section \<open>The disk and its primitives\<close>

datatype 'a Materialized = Done 'a | ParentBlocked | EscapingTarget | Vanished | AsideRefused

datatype DeleteOutcome = Deleted | Delete_KeptLocal

text \<open>
  A staged file is the name of its temporary; \<open>d_encode\<close> and \<open>d_decode\<close> are the JSON codec of the
  payloads; \<open>d_prove\<close> stamps rows with the instant that proves them.
\<close>

record 's disk =
  d_world :: "'s \<Rightarrow> world"
  d_locks :: "'s \<Rightarrow> git_probe"
  d_stage :: "FsOp \<Rightarrow> 's \<Rightarrow> (PullError + string option) \<times> 's"
  d_install :: "WorkspacePath \<Rightarrow> ManifestEntry \<Rightarrow> string option \<Rightarrow> Observed option \<Rightarrow> 's \<Rightarrow>
    (PullError + FileRecord Materialized) \<times> 's"
  d_reinstall :: "WorkspacePath \<Rightarrow> ManifestEntry \<Rightarrow> 's \<Rightarrow> (PullError + FileRecord Materialized) \<times> 's"
  d_aside :: "WorkspacePath \<Rightarrow> ManifestEntry \<Rightarrow> string option \<Rightarrow> 's \<Rightarrow> (PullError + WorkspacePath Materialized) \<times> 's"
  d_aside_present :: "WorkspacePath \<Rightarrow> ManifestEntry \<Rightarrow> 's \<Rightarrow> PullError + bool"
  d_delete :: "WorkspacePath \<Rightarrow> 's \<Rightarrow> (PullError + DeleteOutcome) \<times> 's"
  d_parent_blocked :: "WorkspacePath \<Rightarrow> 's \<Rightarrow> bool"
  d_set_mode :: "WorkspacePath \<Rightarrow> FileMode \<Rightarrow> 's \<Rightarrow> (PullError + unit) \<times> 's"
  d_prefetch :: "FsOp list \<Rightarrow> 's \<Rightarrow> string + unit"
  d_transition_lock :: "'s \<Rightarrow> PullError + unit"
  d_prove :: "'s \<Rightarrow> ancestor_rows \<Rightarrow> ancestor_rows"
  d_temp_exists :: "string \<Rightarrow> 's \<Rightarrow> bool"
  d_quarantine_exists :: "string \<Rightarrow> 's \<Rightarrow> bool"
  d_quarantine_name :: "WorkspacePath \<Rightarrow> string"
  d_release :: "WorkspacePath list \<Rightarrow> 's \<Rightarrow> 's"
  d_sweep :: "string set \<Rightarrow> 's \<Rightarrow> (PullError + unit) \<times> 's"
  d_encode_preimage :: "PreimagePayload \<Rightarrow> string"
  d_decode_preimage :: "string \<Rightarrow> PreimagePayload option"
  d_encode_target :: "TargetRecordPayload \<Rightarrow> string"
  d_decode_target :: "string \<Rightarrow> TargetRecordPayload option"

section \<open>One operation\<close>

datatype Applied =
    Applied_Upsert WorkspacePath FileRecord
  | Applied_Remove WorkspacePath
  | Applied_Aside WorkspacePath
  | Applied_KeptLocal WorkspacePath
  | Applied_Unsyncable WorkspacePath UnsyncableRecord

definition build_intent :: "'s disk \<Rightarrow> 's \<Rightarrow> FsOp \<Rightarrow> string option \<Rightarrow> ManifestKey \<Rightarrow> Intent" where
  "build_intent disk s op temp manifest_key =
     (let (operation_kind, target) = target_payload op
      in \<lparr>in_path = op_path op, in_operation_kind = operation_kind, in_temp_name = temp,
          in_expected_preimage = Some (d_encode_preimage disk (op_expected op)),
          in_target_record = Some (d_encode_target disk target),
          in_preserved_preimage = Some (d_quarantine_name disk (op_path op)),
          in_target_manifest_key = Some manifest_key, in_created_at = w_now (d_world disk s)\<rparr>)"

definition installs_the_same_directory :: "FsOpKind \<Rightarrow> Observed option \<Rightarrow> bool" where
  "installs_the_same_directory kind observed \<longleftrightarrow>
     (case kind of Op_Install (Directory _) \<Rightarrow> True | _ \<Rightarrow> False)
     \<and> (case observed of Some ob \<Rightarrow> ob_kind ob = Kind_Directory | None \<Rightarrow> False)"

definition aside_result :: "FsOp \<Rightarrow> WorkspacePath Materialized \<Rightarrow> Applied" where
  "aside_result op placed =
     (case placed of Done aside \<Rightarrow> Applied_Aside aside | _ \<Rightarrow> Applied_KeptLocal (op_path op))"

definition apply_keep_local :: "'s disk \<Rightarrow> FsOp \<Rightarrow> string option \<Rightarrow> 's \<Rightarrow> (PullError + Applied) \<times> 's" where
  "apply_keep_local disk op temp s =
     (case op_kind op of
        Op_Delete \<Rightarrow> (Inr (Applied_KeptLocal (op_path op)), s)
      | Op_ModeChange _ \<Rightarrow> (Inr (Applied_KeptLocal (op_path op)), s)
      | Op_Install entry \<Rightarrow> apfst (map_sum id (aside_result op)) (d_aside disk (op_path op) entry temp s)
      | Op_ConflictAside entry \<Rightarrow> apfst (map_sum id (aside_result op)) (d_aside disk (op_path op) entry temp s))"

text \<open>The mutation, once the preimage has been found to hold.\<close>

definition perform_op ::
  "'s disk \<Rightarrow> FsOp \<Rightarrow> string option \<Rightarrow> Observed option \<Rightarrow> 's \<Rightarrow> (PullError + Applied) \<times> 's" where
  "perform_op disk op temp observed s =
     (case op_kind op of
        Op_Install entry \<Rightarrow>
          (case d_install disk (op_path op) entry temp observed s of
             (Inl e, s) \<Rightarrow> (Inl e, s)
           | (Inr (Done r), s) \<Rightarrow> (Inr (Applied_Upsert (op_path op) r), s)
           | (Inr ParentBlocked, s) \<Rightarrow> apply_keep_local disk op None s
           | (Inr _, s) \<Rightarrow> (Inr (Applied_KeptLocal (op_path op)), s))
      | Op_ConflictAside _ \<Rightarrow> apply_keep_local disk op temp s
      | Op_Delete \<Rightarrow>
          (case d_delete disk (op_path op) s of
             (Inl e, s) \<Rightarrow> (Inl e, s)
           | (Inr Deleted, s) \<Rightarrow> (Inr (Applied_Remove (op_path op)), s)
           | (Inr Delete_KeptLocal, s) \<Rightarrow> (Inr (Applied_KeptLocal (op_path op)), s))
      | Op_ModeChange entry \<Rightarrow>
          if d_parent_blocked disk (op_path op) s then (Inr (Applied_KeptLocal (op_path op)), s)
          else (case d_set_mode disk (op_path op) (entry_mode entry) s of
              (Inl e, s) \<Rightarrow> (Inl e, s)
            | (Inr _, s) \<Rightarrow>
                (case observe_syncable (d_world disk s) (op_path op) of
                   Inl e \<Rightarrow> (Inl e, s)
                 | Inr None \<Rightarrow> (Inr (Applied_KeptLocal (op_path op)), s)
                 | Inr (Some observed) \<Rightarrow>
                     (Inr (Applied_Upsert (op_path op)
                        (record_for_entry (w_now (d_world disk s)) entry (ob_fingerprint observed))), s))))"

definition apply_op ::
  "'s disk \<Rightarrow> FsOp \<Rightarrow> ManifestKey \<Rightarrow> 's \<Rightarrow> manifest_store \<Rightarrow> (PullError + Applied) \<times> 's \<times> manifest_store" where
  "apply_op disk op manifest_key s store =
     (case d_stage disk op s of
        (Inl e, s) \<Rightarrow> (Inl e, s, store)
      | (Inr temp, s) \<Rightarrow>
          (let store = open_intent (build_intent disk s op temp manifest_key) store
           in case observe_syncable (d_world disk s) (op_path op) of
                Inl e \<Rightarrow> (Inl e, s, store)
              | Inr observed \<Rightarrow>
                  (case preimage_matches (d_world disk s) (op_path op) (op_expected op) observed of
                     Inl e \<Rightarrow> (Inl e, s, store)
                   | Inr matches \<Rightarrow>
                       if \<not> matches \<and> \<not> installs_the_same_directory (op_kind op) observed
                       then (let (r, s) = apply_keep_local disk op temp s in (r, s, store))
                       else (let (r, s) = perform_op disk op temp observed s in (r, s, store)))))"

section \<open>Windows\<close>

definition MAX_PREFETCHED_BLOB_BYTES :: u64 where
  "MAX_PREFETCHED_BLOB_BYTES = 32 * 1024 * 1024"

definition SEALED_BLOB_OVERHEAD_ALLOWANCE :: u64 where
  "SEALED_BLOB_OVERHEAD_ALLOWANCE = 4 * 1024"

definition APPLY_WINDOW_MAX_FILES :: nat where
  "APPLY_WINDOW_MAX_FILES = 16"

definition APPLY_WINDOW_MAX_PREFETCH_BYTES :: u64 where
  "APPLY_WINDOW_MAX_PREFETCH_BYTES = 8 * 1024 * 1024"

definition prefetch_request :: "FsOp \<Rightarrow> (BlobKey \<times> u64) option" where
  "prefetch_request op =
     (case (case op_kind op of
          Op_Install entry \<Rightarrow> Some entry
        | Op_ConflictAside entry \<Rightarrow> Some entry
        | _ \<Rightarrow> None) of
        Some (File sz _ _ blob_key _) \<Rightarrow>
          (let transfer_budget = saturating_add_u64 sz SEALED_BLOB_OVERHEAD_ALLOWANCE
           in if transfer_budget \<le> MAX_PREFETCHED_BLOB_BYTES then Some (blob_key, transfer_budget) else None)
      | _ \<Rightarrow> None)"

fun windows_from :: "FsOp list \<Rightarrow> u64 \<Rightarrow> FsOp list \<Rightarrow> FsOp list list" where
  "windows_from window bytes [] = (if window = [] then [] else [window])"
| "windows_from window bytes (op # ops) =
     (let op_bytes = (case prefetch_request op of Some (_, b) \<Rightarrow> b | None \<Rightarrow> 0);
          full = (length window \<ge> APPLY_WINDOW_MAX_FILES);
          overflows = (length window > 0
            \<and> saturating_add_u64 bytes op_bytes > APPLY_WINDOW_MAX_PREFETCH_BYTES)
      in if full \<or> overflows
         then window # windows_from [op] (saturating_add_u64 0 op_bytes) ops
         else windows_from (window @ [op]) (saturating_add_u64 bytes op_bytes) ops)"

definition apply_windows :: "FsOp list \<Rightarrow> FsOp list list" where
  "apply_windows ops = windows_from [] 0 ops"

definition blob_prefetch_requests :: "FsOp list \<Rightarrow> (BlobKey, u64) btree_map" where
  "blob_prefetch_requests ops =
     fold (\<lambda>op requests.
         case prefetch_request op of
           None \<Rightarrow> requests
         | Some (blob_key, transfer_budget) \<Rightarrow>
             bt_insert blob_key
               (case map_of requests blob_key of
                  Some byte_len \<Rightarrow> max byte_len transfer_budget
                | None \<Rightarrow> transfer_budget) requests)
       ops []"

section \<open>The order of operations\<close>

definition is_delete :: "FsOp \<Rightarrow> bool" where
  "is_delete op \<longleftrightarrow> op_kind op = Op_Delete"

definition delete_phase :: "FsOp \<Rightarrow> nat" where
  "delete_phase op = (if is_delete op then 0 else 1)"

text \<open>
  The stable sort of the code: deletes first, by descending path; then the rest by rank and
  ascending path.
\<close>

definition ordered_ops :: "FsOp list \<Rightarrow> FsOp list" where
  "ordered_ops ops =
     rev (sort_key op_path (rev (filter is_delete ops)))
     @ sort_key (\<lambda>op. git_apply_rank (op_path op)) (sort_key op_path (filter (\<lambda>op. \<not> is_delete op) ops))"

section \<open>The whole plan\<close>

record PullOutcome =
  po_observed_ref :: EngineRef
  po_applied_manifest_key :: "ManifestKey option"
  po_ref_version :: "u64 option"
  po_installed :: "WorkspacePath set"
  po_deleted :: "WorkspacePath set"
  po_conflict_asides :: "WorkspacePath set"
  po_push_again :: "WorkspacePath set"
  po_deferred :: "WorkspacePath set"
  po_unsyncable :: "(WorkspacePath, UnsyncableRecord) btree_map"
  po_already_current :: bool

definition PullOutcome_default :: PullOutcome where
  "PullOutcome_default = \<lparr>po_observed_ref = Genesis, po_applied_manifest_key = None, po_ref_version = None,
     po_installed = {}, po_deleted = {}, po_conflict_asides = {}, po_push_again = {}, po_deferred = {},
     po_unsyncable = [], po_already_current = False\<rparr>"

fun record_applied :: "Applied \<Rightarrow> AncestorCommit \<Rightarrow> PullOutcome \<Rightarrow> AncestorCommit \<times> PullOutcome" where
  "record_applied (Applied_Upsert path r) commit outcome =
     (commit\<lparr>ac_upserts := bt_insert path r (ac_upserts commit)\<rparr>, outcome\<lparr>po_installed := insert path (po_installed outcome)\<rparr>)"
| "record_applied (Applied_Remove path) commit outcome =
     (commit\<lparr>ac_removals := insert path (ac_removals commit)\<rparr>, outcome\<lparr>po_deleted := insert path (po_deleted outcome)\<rparr>)"
| "record_applied (Applied_Aside path) commit outcome =
     (commit, outcome\<lparr>po_conflict_asides := insert path (po_conflict_asides outcome)\<rparr>)"
| "record_applied (Applied_KeptLocal path) commit outcome =
     (commit, outcome\<lparr>po_push_again := insert path (po_push_again outcome)\<rparr>)"
| "record_applied (Applied_Unsyncable path r) commit outcome =
     (commit, outcome\<lparr>po_unsyncable := bt_insert path r (po_unsyncable outcome)\<rparr>)"

record apply_run =
  ar_locks :: GitLockCache
  ar_commit :: AncestorCommit
  ar_outcome :: PullOutcome
  ar_intent_ids :: "WorkspacePath list"

definition defer_op :: "WorkspacePath \<Rightarrow> apply_run \<Rightarrow> apply_run" where
  "defer_op path run = run\<lparr>
     ar_outcome := (ar_outcome run)\<lparr>po_deferred := insert path (po_deferred (ar_outcome run))\<rparr>,
     ar_commit := \<lparr>ac_upserts = bt_remove path (ac_upserts (ar_commit run)),
       ac_removals = ac_removals (ar_commit run) - {path}\<rparr>\<rparr>"

fun settle_path_error :: "PullError + Applied \<Rightarrow> PullError + Applied" where
  "settle_path_error (Inr applied) = Inr applied"
| "settle_path_error (Inl (Pull_Path fault)) = Inr (Applied_Unsyncable (usp_path fault) (usp_record fault))"
| "settle_path_error (Inl error) = Inl error"

fun apply_window ::
  "'s disk \<Rightarrow> ManifestKey \<Rightarrow> FsOp list \<Rightarrow> apply_run \<Rightarrow> 's \<Rightarrow> manifest_store \<Rightarrow>
   (PullError + apply_run) \<times> 's \<times> manifest_store" where
  "apply_window disk manifest_key [] run s store = (Inr run, s, store)"
| "apply_window disk manifest_key (op # ops) run s store =
     (let (locked, locks) = is_active (d_locks disk s) (op_path op) (ar_locks run);
          run = run\<lparr>ar_locks := locks\<rparr>
      in if locked then apply_window disk manifest_key ops (defer_op (op_path op) run) s store
         else
           (let run = run\<lparr>ar_intent_ids := ar_intent_ids run @ [op_path op]\<rparr>;
                (result, s, store) = apply_op disk op manifest_key s store
            in case settle_path_error result of
                 Inl error \<Rightarrow> (Inl error, s, store)
               | Inr applied \<Rightarrow>
                   (let (commit, outcome) = record_applied applied (ar_commit run) (ar_outcome run)
                    in apply_window disk manifest_key ops (run\<lparr>ar_commit := commit, ar_outcome := outcome\<rparr>) s store)))"

fun apply_all_windows ::
  "'s disk \<Rightarrow> ManifestKey \<Rightarrow> FsOp list list \<Rightarrow> apply_run \<Rightarrow> 's \<Rightarrow> manifest_store \<Rightarrow>
   (PullError + apply_run) \<times> 's \<times> manifest_store" where
  "apply_all_windows disk manifest_key [] run s store = (Inr run, s, store)"
| "apply_all_windows disk manifest_key (window # windows) run s store =
     (case d_prefetch disk window s of
        Inl e \<Rightarrow> (Inl (Pull_Transport e), s, store)
      | Inr _ \<Rightarrow>
          (case apply_window disk manifest_key window run s store of
             (Inl e, s, store) \<Rightarrow> (Inl e, s, store)
           | (Inr run, s, store) \<Rightarrow> apply_all_windows disk manifest_key windows run s store))"

definition AUX_INDEX_PATH :: WorkspacePath where
  "AUX_INDEX_PATH = ''.bowline-meta/aux-index''"

definition head_advance :: "EngineState \<Rightarrow> PullOutcome \<Rightarrow> ManifestKey \<Rightarrow> u64 \<Rightarrow> (ManifestKey \<times> u64) option" where
  "head_advance prior outcome manifest_key version =
     (if po_deferred outcome = {} then Some (manifest_key, version)
      else (case (applied_manifest_key prior, last_ref_version prior) of
          (Some key, Some v) \<Rightarrow> Some (key, v)
        | _ \<Rightarrow> None))"

definition apply_plan ::
  "'s disk \<Rightarrow> MergePlan \<Rightarrow> ManifestKey \<Rightarrow> u64 \<Rightarrow> 's \<Rightarrow> manifest_store \<Rightarrow>
   (PullError + PullOutcome) \<times> 's \<times> manifest_store" where
  "apply_plan disk plan manifest_key version s store =
     (case engine_state store of
        Inl e \<Rightarrow> (Inl (Pull_Store e), s, store)
      | Inr prior \<Rightarrow>
          (let outcome = PullOutcome_default\<lparr>
                 po_observed_ref := Head \<lparr>ref_version = version, ref_manifest_key = manifest_key\<rparr>,
                 po_applied_manifest_key := Some manifest_key, po_ref_version := Some version,
                 po_push_again := plan_push_again plan\<rparr>;
               commit = \<lparr>ac_upserts = ancestor_upserts plan, ac_removals = ancestor_removals plan\<rparr>;
               store = record_unsyncable (plan_unsyncable plan) {} store
           in case (if list_ex (\<lambda>op. op_path op = AUX_INDEX_PATH) (fs_ops plan)
                then d_transition_lock disk s else Inr ()) of
                Inl e \<Rightarrow> (Inl e, s, store)
              | Inr _ \<Rightarrow>
             (case apply_all_windows disk manifest_key (apply_windows (ordered_ops (fs_ops plan)))
                 \<lparr>ar_locks = GitLockCache_default, ar_commit = commit, ar_outcome = outcome, ar_intent_ids = []\<rparr>
                 s store of
                (Inl e, s, store) \<Rightarrow> (Inl e, s, store)
              | (Inr run, s, store) \<Rightarrow>
                  (let outcome = ar_outcome run;
                       store = record_unsyncable (po_unsyncable outcome) {} store;
                       advance = head_advance prior outcome manifest_key version;
                       outcome = outcome\<lparr>po_applied_manifest_key := map_option fst advance,
                         po_ref_version := map_option snd advance\<rparr>;
                       commit = (ar_commit run)\<lparr>ac_upserts := d_prove disk s (ac_upserts (ar_commit run))\<rparr>
                   in case commit_pull_outcome commit advance (Some (manifest_key, version))
                        (ar_intent_ids run) (po_push_again outcome) store of
                        Inl e \<Rightarrow> (Inl (Pull_Store e), s, store)
                      | Inr store \<Rightarrow> (Inr outcome, d_release disk (ar_intent_ids run) s, store)))))"

end
