(* ===== verification/Merge_Guarantees.thy ===== *)
theory Merge_Guarantees
  imports Merge_Properties
begin

text \<open>
  The guarantees of the merge as properties, with a small workspace on which their hypotheses
  hold.
\<close>

section \<open>Local and remote changes\<close>

fun local_change :: "LocalDelta \<Rightarrow> bool" where
  "local_change (Local_Untracked _ _) = True"
| "local_change (Local_Changed _ _) = True"
| "local_change (Local_ModeChanged _) = True"
| "local_change Local_Deleted = True"
| "local_change _ = False"

definition delta_at :: "ancestor_rows \<Rightarrow> remote_entries \<Rightarrow> WorkspacePath \<Rightarrow> RemoteDelta" where
  "delta_at ancestor remote path = remote_delta (map_of remote path) (map_of ancestor path)"

definition local_at :: "world \<Rightarrow> ancestor_rows \<Rightarrow> remote_entries \<Rightarrow> WorkspacePath \<Rightarrow> PullError + LocalDelta" where
  "local_at w ancestor remote path =
     local_delta w path (map_of ancestor path) (requires_verified_local_content (delta_at ancestor remote path))"

text \<open>The disk holds the content of the entry, or the content of the ancestor row under
  another mode and the entry names that content too.\<close>

definition content_agrees :: "world \<Rightarrow> ancestor_rows \<Rightarrow> WorkspacePath \<Rightarrow> ManifestEntry \<Rightarrow> bool" where
  "content_agrees w ancestor path entry \<longleftrightarrow>
     same_content w path entry
     \<or> (\<exists>observed r. w_observe w path = Observe_Present observed \<and> map_of ancestor path = Some r
          \<and> verified w path (observed\<lparr>ob_mode := fr_mode r\<rparr>) r \<and> entry_matches_record entry r)"

lemma expected_file_mode [simp]: "expected_file (observed\<lparr>ob_mode := mode\<rparr>) = expected_file observed"
  by (simp add: expected_file_def)

lemma local_delta_mode_changed:
  assumes "local_delta w path ancestor v = Inr (Local_ModeChanged observed)"
  obtains r where "w_observe w path = Observe_Present observed" and "ancestor = Some r"
    and "verified w path (observed\<lparr>ob_mode := fr_mode r\<rparr>) r"
proof -
  obtain r where r: "w_observe w path = Observe_Present observed" "ancestor = Some r"
      "local_vs_record w path observed r v = Inr (Local_ModeChanged observed)"
    using assms by (auto simp: local_delta_def local_vs_record_def map_sum_Inr Let_def
        split: ObserveOutcome.splits option.splits if_splits EntryKind.splits sum.splits LocalRead.splits)
  have "verified w path (observed\<lparr>ob_mode := fr_mode r\<rparr>) r"
    using r(3) by (auto simp: local_vs_record_def verified_def map_sum_Inr Option.bind_eq_Some_conv read_local_bytes
        split: if_splits EntryKind.splits sum.splits LocalRead.splits dest: sym)
  with r that show thesis by blast
qed

lemma local_delta_untracked:
  assumes "local_delta w path ancestor v = Inr (Local_Untracked observed content_id)"
  shows "w_observe w path = Observe_Present observed \<and> ancestor = None \<and> hashed w path observed content_id"
  using assms by (auto simp: local_delta_def local_vs_record_not map_sum_Inr maybe_hash_hashed
      split: ObserveOutcome.splits option.splits)

lemma local_delta_deleted:
  assumes "local_delta w path ancestor v = Inr Local_Deleted"
  shows "w_observe w path = Observe_Absent \<and> ancestor \<noteq> None"
  using assms by (auto simp: local_delta_def local_vs_record_not map_sum_Inr split: ObserveOutcome.splits option.splits)

lemma remote_delta_entry:
  "remote_delta remote (Some r) = Remote_Changed entry \<Longrightarrow> remote = Some entry"
  "remote_delta remote (Some r) = Remote_ModeChanged entry \<Longrightarrow>
     remote = Some entry \<and> entry_matches_record entry r"
  "remote_delta remote (Some r) \<noteq> Remote_Created entry"
  "remote_delta remote ancestor = Remote_Absent \<longleftrightarrow> remote = None"
  "remote_delta remote None = Remote_Created entry \<longleftrightarrow> remote = Some entry"
  "remote_delta remote None \<noteq> Remote_Changed entry"
  "remote_delta remote None \<noteq> Remote_ModeChanged entry"
  "remote_delta remote None \<noteq> Remote_Unchanged"
  by (auto simp: remote_delta_def split: option.splits if_splits)

lemma remote_delta_none [simp]: "remote_delta None ancestor = Remote_Absent"
  by (simp add: remote_delta_def)

lemma classify_local:
  assumes "classify debug w ancestor remote clashes scope = Inr plan" and "looked_at ancestor remote scope path"
  obtains local d where "local_at w ancestor remote path = Inr local" and "at_path plan path = at_path d path"
    and "(reconciles_pending scope path \<and> map_of ancestor path = None \<and> local = Local_Absent
          \<and> map_of remote path \<noteq> None \<and> d = push_again_path path MergePlan_default)
      \<or> classify_one w path local (delta_at ancestor remote path) (path \<in> collision_set clashes) MergePlan_default = Inr d"
  using classify_share(2)[OF assms] that
  by (auto simp: classify_observed_def Let_def local_at_def delta_at_def split: sum.splits if_splits)

lemmas row_shares = classify_one_def classify_row_def plan_steps_share at_path_default empty_share_def
  plan_install_def plan_aside_def plan_delete_def plan_mode_change_def

lemma at_path_fields:
  "sh_push_again (at_path plan path) \<longleftrightarrow> path \<in> plan_push_again plan"
  "sh_removed (at_path plan path) \<longleftrightarrow> path \<in> ancestor_removals plan"
  "sh_upsert (at_path plan path) = map_of (ancestor_upserts plan) path"
  "sh_unsyncable (at_path plan path) = map_of (plan_unsyncable plan) path"
  "op \<in> set (sh_ops (at_path plan path)) \<longleftrightarrow> op \<in> set (fs_ops plan) \<and> op_path op = path"
  by (auto simp: at_path_def)

text \<open>\<open>settles\<close>: the plan makes the row or the mode of the path agree with the remote entry.\<close>

definition settles :: "MergePlan \<Rightarrow> WorkspacePath \<Rightarrow> ManifestEntry \<Rightarrow> bool" where
  "settles plan path entry \<longleftrightarrow>
     (\<exists>r. map_of (ancestor_upserts plan) path = Some r \<and> entry_matches_record entry r \<and> fr_mode r = entry_mode entry)
     \<or> Op_ModeChange entry \<in> op_kind ` {op \<in> set (fs_ops plan). op_path op = path}"

definition settles_share :: "plan_share \<Rightarrow> ManifestEntry \<Rightarrow> bool" where
  "settles_share share entry \<longleftrightarrow>
     (\<exists>r. sh_upsert share = Some r \<and> entry_matches_record entry r \<and> fr_mode r = entry_mode entry)
     \<or> Op_ModeChange entry \<in> op_kind ` set (sh_ops share)"

lemma settles_share: "settles plan path entry \<longleftrightarrow> settles_share (at_path plan path) entry"
  by (auto simp: settles_def settles_share_def at_path_def)

lemma classify_one_keeps_local:
  assumes "classify_one w path local (delta_at ancestor remote path) force MergePlan_default = Inr d"
    and "local_at w ancestor remote path = Inr local" and "local_change local"
  shows "sh_push_again (at_path d path) \<or> sh_unsyncable (at_path d path) \<noteq> None
    \<or> (\<exists>entry. map_of remote path = Some entry \<and> content_agrees w ancestor path entry
          \<and> settles_share (at_path d path) entry)
    \<or> (local = Local_Deleted \<and> map_of remote path = None \<and> sh_removed (at_path d path))"
proof (cases local)
  case (Local_Untracked observed content_id)
  then have "w_observe w path = Observe_Present observed" "map_of ancestor path = None" "hashed w path observed content_id"
    using assms(2) local_delta_untracked unfolding local_at_def by blast+
  with assms(1) Local_Untracked same_contentI(1)[of w path observed content_id] show ?thesis
    by (cases "map_of remote path")
      (auto simp: delta_at_def remote_delta_def row_shares content_agrees_def settles_share_def
        record_for_entry_fields split: if_splits)
next
  case (Local_Changed observed content_id)
  then have seen: "w_observe w path = Observe_Present observed" "hashed w path observed content_id"
    using assms(2) local_delta_changed unfolding local_at_def by blast+
  then obtain r where "map_of ancestor path = Some r"
    using assms(2) Local_Changed by (auto simp: local_at_def local_delta_def map_sum_Inr split: option.splits)
  with seen assms(1) Local_Changed same_contentI(1)[OF seen] remote_delta_entry(1)[of "map_of remote path" r] show ?thesis
    by (cases "delta_at ancestor remote path")
      (auto simp: delta_at_def row_shares content_agrees_def settles_share_def record_for_entry_fields
        remote_delta_entry(3) split: if_splits)
next
  case (Local_ModeChanged observed)
  then obtain r where "w_observe w path = Observe_Present observed" "map_of ancestor path = Some r"
      "verified w path (observed\<lparr>ob_mode := fr_mode r\<rparr>) r"
    using assms(2) unfolding local_at_def by (auto elim: local_delta_mode_changed)
  with assms(1) Local_ModeChanged remote_delta_entry(2)[of "map_of remote path" r] show ?thesis
    by (cases "delta_at ancestor remote path")
      (auto simp: delta_at_def row_shares content_agrees_def settles_share_def record_for_entry_fields
        remote_delta_entry(3) split: if_splits)
next
  case Local_Deleted
  then obtain r where "map_of ancestor path = Some r"
    using assms(2) local_delta_deleted unfolding local_at_def by blast
  with assms(1) Local_Deleted show ?thesis
    by (cases "delta_at ancestor remote path")
      (auto simp: delta_at_def row_shares remote_delta_entry(3,4) split: if_splits)
qed (use assms(3) in simp_all)

lemma classify_one_keeps_remote:
  assumes "classify_one w path local (delta_at ancestor remote path) force MergePlan_default = Inr d"
    and "local_at w ancestor remote path = Inr local" and "map_of remote path = Some entry"
    and "delta_at ancestor remote path \<noteq> Remote_Unchanged" and "local \<noteq> Local_Unreadable"
    and "\<not> escaping_target w path (delta_at ancestor remote path)"
  shows "(\<exists>op \<in> set (sh_ops (at_path d path)). op_kind op = Op_Install entry \<or> op_kind op = Op_ConflictAside entry)
    \<or> settles_share (at_path d path) entry
    \<or> (sh_push_again (at_path d path) \<and> delta_at ancestor remote path = Remote_ModeChanged entry)"
proof (cases "map_of ancestor path")
  case None
  then have "delta_at ancestor remote path = Remote_Created entry"
      "local = Local_Absent \<or> (\<exists>observed c. local = Local_Untracked observed c)"
    using assms(2,3,5)
    by (auto simp: delta_at_def remote_delta_def local_at_def local_delta_def map_sum_Inr split: ObserveOutcome.splits)
  with assms(1,6) show ?thesis
    by (auto simp: row_shares settles_share_def record_for_entry_fields split: if_splits)
next
  case (Some r)
  then have "delta_at ancestor remote path = Remote_Changed entry \<or> delta_at ancestor remote path = Remote_ModeChanged entry"
    using assms(3,4) by (auto simp: delta_at_def remote_delta_def)
  moreover have "local \<noteq> Local_Absent \<and> (\<forall>observed c. local \<noteq> Local_Untracked observed c)"
    using assms(2) Some local_delta_absent local_delta_untracked unfolding local_at_def by fastforce
  ultimately show ?thesis using assms(1,5,6)
    by (cases local) (auto simp: row_shares settles_share_def record_for_entry_fields split: if_splits)
qed

lemma classify_one_adopts:
  assumes "classify_one w path local (delta_at ancestor remote path) force MergePlan_default = Inr d"
    and "local_at w ancestor remote path = Inr local" and "sh_upsert (at_path d path) = Some r"
  shows "\<exists>observed entry. w_observe w path = Observe_Present observed \<and> map_of remote path = Some entry
    \<and> r = record_for_entry (w_now w) entry (ob_fingerprint observed) \<and> content_agrees w ancestor path entry
    \<and> (map_of ancestor path = None \<or> fr_mode r = ob_mode observed)"
proof (cases local)
  case (Local_Untracked observed content_id)
  then have seen: "w_observe w path = Observe_Present observed" "map_of ancestor path = None" "hashed w path observed content_id"
    using assms(2) local_delta_untracked unfolding local_at_def by blast+
  with assms(1,3) Local_Untracked same_contentI(1)[OF seen(1,3)] show ?thesis
    by (cases "map_of remote path")
      (auto simp: delta_at_def remote_delta_def row_shares content_agrees_def split: if_splits)
next
  case (Local_Changed observed content_id)
  then have seen: "w_observe w path = Observe_Present observed" "hashed w path observed content_id"
    using assms(2) local_delta_changed unfolding local_at_def by blast+
  then obtain old where "map_of ancestor path = Some old"
    using assms(2) Local_Changed by (auto simp: local_at_def local_delta_def map_sum_Inr split: option.splits)
  with seen assms(1,3) Local_Changed same_contentI(1)[OF seen] remote_delta_entry(1)[of "map_of remote path" old] show ?thesis
    by (cases "delta_at ancestor remote path")
      (auto simp: delta_at_def row_shares content_agrees_def record_for_entry_fields split: if_splits)
next
  case (Local_ModeChanged observed)
  then obtain old where "w_observe w path = Observe_Present observed" "map_of ancestor path = Some old"
      "verified w path (observed\<lparr>ob_mode := fr_mode old\<rparr>) old"
    using assms(2) unfolding local_at_def by (auto elim: local_delta_mode_changed)
  with assms(1,3) Local_ModeChanged remote_delta_entry(2)[of "map_of remote path" old] show ?thesis
    by (cases "delta_at ancestor remote path")
      (auto simp: delta_at_def row_shares content_agrees_def record_for_entry_fields split: if_splits)
qed (use assms(1,3) in \<open>auto simp: row_shares split: if_splits RemoteDelta.splits\<close>)

lemma classify_paths_excluded_idle:
  assumes "classify_paths w ancestor remote collided scope paths plan [] = Inr (plan', excluded)"
    and "scope = ChangedAndDirty dirty \<or> scope = ChangedAndWalked dirty" and "path \<in> set excluded"
  shows "path \<notin> dirty \<and> map_of ancestor path \<noteq> None"
proof -
  have "\<forall>path \<in> set excluded. path \<in> set start \<or> (path \<notin> dirty \<and> map_of ancestor path \<noteq> None)"
    if "classify_paths w ancestor remote collided scope paths plan start = Inr (plan', excluded)" for start
    using that
  proof (induction paths arbitrary: plan start)
    case (Cons q paths)
    have "q \<notin> dirty \<and> map_of ancestor q \<noteq> None"
      if "\<not> observes scope q (remote_delta (map_of remote q) (map_of ancestor q))"
      using that assms(2) remote_delta_entry(8) by (auto intro: ccontr)
    with Cons show ?case by (fastforce split: if_splits sum.splits)
  qed simp
  from this[OF assms(1)] assms(3) show ?thesis by simp
qed

section \<open>A small workspace\<close>

text \<open>The path \<open>a\<close> is changed by the remote, \<open>c\<close> by both sides, \<open>n\<close> is new on the remote, and
  \<open>u\<close> is unchanged.\<close>

definition demo_stat :: StatFingerprint where
  "demo_stat = \<lparr>mtime_ns = 0, ctime_ns = 0, inode = 0, dev = 0\<rparr>"

definition demo_file :: "FileMode \<Rightarrow> Observed" where
  "demo_file mode = \<lparr>ob_kind = Kind_File, ob_size = 0, ob_mode = mode, ob_symlink_target = None,
     ob_fingerprint = demo_stat\<rparr>"

definition demo_entry :: "string \<Rightarrow> ManifestEntry" where
  "demo_entry content = File 0 6 content content 2"

definition demo_row :: "string \<Rightarrow> FileRecord" where
  "demo_row content = record_for_entry 0 (demo_entry content) demo_stat"

definition demo_bytes :: "WorkspacePath \<Rightarrow> string option" where
  "demo_bytes = map_of [(''a'', ''x''), (''c'', ''l''), (''u'', ''u'')]"

definition disk_world :: "FileMode \<Rightarrow> (WorkspacePath \<Rightarrow> string option) \<Rightarrow> world" where
  "disk_world mode bytes = \<lparr>
     w_observe = (\<lambda>path. if bytes path = None then Observe_Absent else Observe_Present (demo_file mode)),
     w_read = (\<lambda>path _. case bytes path of Some b \<Rightarrow> Inr (Read_Bytes b) | None \<Rightarrow> Inr Read_Diverged),
     w_lstat = (\<lambda>_. Lstat_Missing), w_content_id = id,
     w_content_id_at = (\<lambda>epoch b. if epoch = 2 then Some b else None), w_now = 0\<rparr>"

definition demo_world :: world where
  "demo_world = disk_world 6 demo_bytes"

definition demo_ancestor :: ancestor_rows where
  "demo_ancestor = [(''a'', demo_row ''x''), (''c'', demo_row ''o''), (''u'', demo_row ''u'')]"

definition demo_remote :: remote_entries where
  "demo_remote = [(''a'', demo_entry ''y''), (''c'', demo_entry ''r''), (''n'', demo_entry ''n''), (''u'', demo_entry ''u'')]"

definition demo_plan :: MergePlan where
  "demo_plan = \<lparr>
     fs_ops = [
       \<lparr>op_path = ''a'', op_kind = Op_Install (demo_entry ''y''), op_expected = preimage_from_record (demo_row ''x'')\<rparr>,
       \<lparr>op_path = ''c'', op_kind = Op_ConflictAside (demo_entry ''r''),
         op_expected = preimage_from_observed (demo_file 6) (Some ''l'')\<rparr>,
       \<lparr>op_path = ''n'', op_kind = Op_Install (demo_entry ''n''), op_expected = preimage_absent\<rparr>],
     ancestor_upserts = [], ancestor_removals = {}, plan_push_again = {''c''}, plan_unsyncable = []\<rparr>"

lemma demo_classify: "classify True demo_world demo_ancestor demo_remote [] (ChangedAndWalked {}) = Inr demo_plan"
  by code_simp

section \<open>Properties\<close>

text \<open>C1. A pull displaces only content that is held elsewhere. Every operation that would
  overwrite, delete or change the mode of a path is planned only where the disk has nothing, or
  where the object on disk is the one the ancestor row records, a file by the hash of its bytes
  under the row's key and never by its fingerprint alone, or (a mode change) where the bytes are
  those of the remote entry. The preimage recorded with the operation holds at that moment.\<close>

theorem merge_displaces_only_held:
  assumes "classify debug w ancestor remote clashes scope = Inr plan" and "op \<in> set (fs_ops plan)"
  shows "displaces_only_held w ancestor op \<and> preimage_holds w op"
  using plan_op_safe[OF assms] .

theorem merge_displaces_only_held_witness:
  "unchanged_on_disk demo_world demo_ancestor ''a''
   \<and> preimage_matches demo_world ''a'' (preimage_from_record (demo_row ''x'')) (Some (demo_file 6)) = Inr True"
proof -
  have observed: "observe_syncable demo_world ''a'' = Inr (Some (demo_file 6))" by code_simp
  have "w_observe demo_world ''a'' \<noteq> Observe_Absent" by code_simp
  then show ?thesis
    using merge_displaces_only_held[OF demo_classify, of "fs_ops demo_plan ! 0"] observed
    by (simp add: demo_plan_def displaces_only_held_def preimage_holds_def)
qed

text \<open>C2. No local change is forgotten. A path that the merge looks at and that was created,
  changed or deleted locally is queued for the next push, or the remote made the same change
  and the plan settles on it, or the remote offers a link that leads out of the workspace and
  the path is recorded as refused.\<close>

theorem local_change_is_kept:
  assumes "classify debug w ancestor remote clashes scope = Inr plan" and "looked_at ancestor remote scope path"
    and "local_at w ancestor remote path = Inr local" and "local_change local"
  shows "path \<in> plan_push_again plan \<or> map_of (plan_unsyncable plan) path \<noteq> None
    \<or> (\<exists>entry. map_of remote path = Some entry \<and> content_agrees w ancestor path entry \<and> settles plan path entry)
    \<or> (local = Local_Deleted \<and> map_of remote path = None \<and> path \<in> ancestor_removals plan)"
proof -
  obtain d where d: "at_path plan path = at_path d path"
      "local = Local_Absent \<or> classify_one w path local (delta_at ancestor remote path)
         (path \<in> collision_set clashes) MergePlan_default = Inr d"
    using classify_local[OF assms(1,2)] assms(3) by (metis Inr_inject)
  then have "classify_one w path local (delta_at ancestor remote path) (path \<in> collision_set clashes) MergePlan_default = Inr d"
    using assms(4) by auto
  from classify_one_keeps_local[OF this assms(3,4)] show ?thesis
    unfolding settles_share d(1)[symmetric] at_path_fields .
qed

theorem local_change_is_kept_witness:
  "local_at demo_world demo_ancestor demo_remote ''c'' = Inr (Local_Changed (demo_file 6) (Some ''l''))
   \<and> ''c'' \<in> plan_push_again demo_plan"
proof -
  have seen: "local_at demo_world demo_ancestor demo_remote ''c'' = Inr (Local_Changed (demo_file 6) (Some ''l''))" by code_simp
  have look: "looked_at demo_ancestor demo_remote (ChangedAndWalked {}) ''c''" by code_simp
  have "map_of (plan_unsyncable demo_plan) ''c'' = None" "map_of (ancestor_upserts demo_plan) ''c'' = None"
      "\<not> settles demo_plan ''c'' (demo_entry ''r'')" "map_of demo_remote ''c'' = Some (demo_entry ''r'')"
    by (auto simp: demo_plan_def settles_def demo_remote_def)
  with local_change_is_kept[OF demo_classify look seen] seen show ?thesis by simp
qed



text \<open>C31. Narrowing loses nothing. When the pass over the changed and dirty paths succeeds,
  looking at every path yields the same plan, if the debug check on the paths left out passed,
  or if every tracked path outside the dirty set is unchanged or unreadable on disk.\<close>

theorem narrowed_merge_is_whole_merge:
  assumes "classify debug w ancestor remote clashes scope = Inr plan"
    and "scope = ChangedAndDirty dirty \<or> scope = ChangedAndWalked dirty"
    and "(debug \<and> scope = ChangedAndWalked dirty)
      \<or> (\<forall>path. path \<notin> dirty \<longrightarrow> map_of ancestor path \<noteq> None \<longrightarrow>
          (\<exists>r. local_delta w path (map_of ancestor path) False = Inr (Local_Unchanged r))
          \<or> local_delta w path (map_of ancestor path) False = Inr Local_Unreadable)"
  shows "classify debug' w ancestor remote clashes WholeAncestor = Inr plan"
proof -
  obtain excluded where run: "classify_paths w ancestor remote (collision_set clashes) scope
      (merge_paths ancestor remote) MergePlan_default [] = Inr (plan, excluded)"
      "prove_narrowing debug w ancestor scope excluded = Inr ()"
    using assms(1) by (auto simp: classify_def split: sum.splits)
  have "excluded_unchanged w ancestor excluded = Inr ()"
    using assms(3)
  proof
    assume "debug \<and> scope = ChangedAndWalked dirty"
    with run(2) show ?thesis by (simp add: prove_narrowing_def)
  next
    assume rest: "\<forall>path. path \<notin> dirty \<longrightarrow> map_of ancestor path \<noteq> None \<longrightarrow>
          (\<exists>r. local_delta w path (map_of ancestor path) False = Inr (Local_Unchanged r))
          \<or> local_delta w path (map_of ancestor path) False = Inr Local_Unreadable"
    have "path \<notin> dirty \<and> map_of ancestor path \<noteq> None" if "path \<in> set excluded" for path
      using classify_paths_excluded_idle[OF run(1) assms(2) that] by simp
    with rest show ?thesis by (simp add: excluded_unchanged_iff list_all_iff)
  qed
  from classify_narrow[OF run(1) assms(2) this] show ?thesis .
qed

theorem narrowed_merge_is_whole_merge_witness:
  "classify True demo_world demo_ancestor demo_remote [] (ChangedAndWalked {}) = Inr demo_plan
   \<and> classify False demo_world demo_ancestor demo_remote [] WholeAncestor = Inr demo_plan"
  using narrowed_merge_is_whole_merge[OF demo_classify, of "{}" False] demo_classify by simp

text \<open>An adopted row describes the disk. When a plan rewrites an ancestor row without
  touching the disk, the row carries the remote entry with the fingerprint of the object seen
  there, and the content agrees; the mode agrees wherever the path had an ancestor row.\<close>

theorem adopted_row_describes_disk:
  assumes "classify debug w ancestor remote clashes scope = Inr plan" and "map_of (ancestor_upserts plan) path = Some r"
  shows "\<exists>observed entry. w_observe w path = Observe_Present observed \<and> map_of remote path = Some entry
    \<and> r = record_for_entry (w_now w) entry (ob_fingerprint observed) \<and> content_agrees w ancestor path entry
    \<and> (map_of ancestor path = None \<or> fr_mode r = ob_mode observed)"
proof -
  have "looked_at ancestor remote scope path"
    using classify_share(1)[OF assms(1)] assms(2) at_path_fields(3)[of plan path] by (fastforce simp: empty_share_def)
  then obtain local d where d: "local_at w ancestor remote path = Inr local" "at_path plan path = at_path d path"
      "d = push_again_path path MergePlan_default
        \<or> classify_one w path local (delta_at ancestor remote path) (path \<in> collision_set clashes) MergePlan_default = Inr d"
    using classify_local[OF assms(1)] by metis
  have row: "sh_upsert (at_path d path) = Some r" using assms(2) d(2) at_path_fields(3)[of plan path] by simp
  then have "classify_one w path local (delta_at ancestor remote path) (path \<in> collision_set clashes) MergePlan_default = Inr d"
    using d(3) by (auto simp: plan_steps_share at_path_default empty_share_def)
  from classify_one_adopts[OF this d(1) row] show ?thesis .
qed

theorem adopted_row_describes_disk_witness:
  "\<exists>plan. classify False (disk_world 6 [''a'' \<mapsto> ''y'']) [(''a'', demo_row ''o'')] [(''a'', demo_entry ''y'')] [] WholeAncestor = Inr plan
     \<and> map_of (ancestor_upserts plan) ''a'' = Some (demo_row ''y'')
     \<and> content_agrees (disk_world 6 [''a'' \<mapsto> ''y'']) [(''a'', demo_row ''o'')] ''a'' (demo_entry ''y'')"
proof -
  let ?plan = "MergePlan_default\<lparr>ancestor_upserts := [(''a'', demo_row ''y'')]\<rparr>"
  have run: "classify False (disk_world 6 [''a'' \<mapsto> ''y'']) [(''a'', demo_row ''o'')] [(''a'', demo_entry ''y'')] [] WholeAncestor
      = Inr ?plan" by code_simp
  moreover have "content_agrees (disk_world 6 [''a'' \<mapsto> ''y'']) [(''a'', demo_row ''o'')] ''a'' (demo_entry ''y'')"
    using adopted_row_describes_disk[OF run, of "''a''" "demo_row ''y''"] by auto
  ultimately show ?thesis by simp
qed


end
