(* ===== verification/Apply_Properties.thy ===== *)
theory Apply_Properties
  imports Pull_Apply Merge_Guarantees "HOL-Library.Multiset"
begin

text \<open>
  What applying a plan guarantees, whatever other programs do to the disk meanwhile: an object
  that is not the one the plan was made for is left alone, what is displaced is held elsewhere,
  operations run in an order that respects directories and Git refs, and a path whose operation
  was deferred keeps its base.
\<close>

section \<open>The preimages of a plan\<close>

definition planned_preimage :: "ancestor_rows \<Rightarrow> FsOp \<Rightarrow> bool" where
  "planned_preimage ancestor op =
     (case op_kind op of
        Op_Install _ \<Rightarrow> op_expected op = preimage_absent
          \<or> (\<exists>r. map_of ancestor (op_path op) = Some r \<and> op_expected op = preimage_from_record r)
      | Op_Delete \<Rightarrow> (\<exists>r. map_of ancestor (op_path op) = Some r \<and> op_expected op = preimage_from_record r)
      | Op_ModeChange entry \<Rightarrow>
          (\<exists>r. map_of ancestor (op_path op) = Some r \<and> op_expected op = preimage_from_record r)
          \<or> (\<exists>observed content_id. op_expected op = preimage_from_observed observed content_id
               \<and> entry_matches_observed entry observed content_id)
      | Op_ConflictAside _ \<Rightarrow> True)"

lemma local_delta_unchanged_row:
  "local_delta w path ancestor v = Inr (Local_Unchanged r) \<Longrightarrow> ancestor = Some r"
  by (auto simp: local_delta_def local_vs_record_def map_sum_Inr Let_def
      split: ObserveOutcome.splits option.splits if_splits EntryKind.splits sum.splits LocalRead.splits)

lemma classify_row_planned:
  assumes "classify_row w path local remote force MergePlan_default = Inr d"
    and "local_delta w path (map_of ancestor path) v = Inr local"
  shows "length (sh_ops (at_path d path)) \<le> 1
    \<and> (\<forall>op \<in> set (sh_ops (at_path d path)). op_path op = path \<and> planned_preimage ancestor op)"
  using assms local_delta_unchanged_row[of w path "map_of ancestor path" v]
  by (cases local; cases remote)
    (auto simp: classify_row_def plan_steps_share at_path_default empty_share_def plan_install_def plan_aside_def
      plan_delete_def plan_mode_change_def planned_preimage_def split: if_splits)

lemma classify_observed_planned:
  assumes "classify_observed w ancestor remote collided scope path MergePlan_default = Inr d"
  shows "length (sh_ops (at_path d path)) \<le> 1
    \<and> (\<forall>op \<in> set (sh_ops (at_path d path)). op_path op = path \<and> planned_preimage ancestor op)"
proof -
  let ?delta = "remote_delta (map_of remote path) (map_of ancestor path)"
  obtain local where local: "local_delta w path (map_of ancestor path) (requires_verified_local_content ?delta) = Inr local"
      "d = push_again_path path MergePlan_default
        \<or> d = refuse_path path (UnsyncableRecord_new EscapingSymlinkTarget None (w_now w)) MergePlan_default
        \<or> classify_row w path local ?delta (path \<in> collided) MergePlan_default = Inr d"
    using assms by (auto simp: classify_observed_def classify_one_def Let_def split: sum.splits if_splits)
  from local(2) show ?thesis
    using classify_row_planned[OF _ local(1)] by (auto simp: plan_steps_share at_path_default empty_share_def)
qed

lemma plan_op_planned:
  assumes "classify debug w ancestor remote clashes scope = Inr plan" and "op \<in> set (fs_ops plan)"
  shows "planned_preimage ancestor op"
proof -
  obtain d where "classify_observed w ancestor remote (collision_set clashes) scope (op_path op) MergePlan_default = Inr d"
      "op \<in> set (sh_ops (at_path d (op_path op)))"
    by (rule classify_op[OF assms])
  with classify_observed_planned show ?thesis by blast
qed

lemma count_filter_le: "(\<And>q. length (filter (\<lambda>x. f x = q) xs) \<le> 1) \<Longrightarrow> distinct (map f xs)"
proof (induction xs)
  case (Cons x xs)
  have "filter (\<lambda>y. f y = f x) xs = []" using Cons.prems[of "f x"] by simp
  then have "f x \<notin> f ` set xs" by (auto simp: filter_empty_conv)
  moreover have "length (filter (\<lambda>y. f y = q) xs) \<le> 1" for q
    using Cons.prems[of q] by (simp split: if_splits)
  ultimately show ?case using Cons.IH by simp
qed simp

lemma plan_paths_distinct:
  assumes "classify debug w ancestor remote clashes scope = Inr plan"
  shows "distinct (map op_path (fs_ops plan))"
proof (rule count_filter_le)
  fix q
  have "sh_ops (at_path plan q) = filter (\<lambda>op. op_path op = q) (fs_ops plan)" by (simp add: at_path_def)
  moreover have "length (sh_ops (at_path plan q)) \<le> 1"
  proof (cases "looked_at ancestor remote scope q")
    case True
    then obtain d where "classify_observed w ancestor remote (collision_set clashes) scope q MergePlan_default = Inr d"
        "at_path plan q = at_path d q"
      using classify_share(2)[OF assms] by blast
    with classify_observed_planned[of w ancestor remote _ scope q d] show ?thesis by simp
  next
    case False
    then show ?thesis using classify_share(1)[OF assms] by (simp add: empty_share_def)
  qed
  ultimately show "length (filter (\<lambda>op. op_path op = q) (fs_ops plan)) \<le> 1" by simp
qed

section \<open>The mutation boundary\<close>

definition same_object :: "world \<Rightarrow> world \<Rightarrow> WorkspacePath \<Rightarrow> bool" where
  "same_object w w' path \<longleftrightarrow> w_observe w' path = w_observe w path \<and> w_read w' path = w_read w path"

text \<open>
  The contract of placing an aside: it takes a free name and replaces nothing, so every object
  that is there stays as it is.
\<close>

definition aside_replaces_nothing :: "'s disk \<Rightarrow> bool" where
  "aside_replaces_nothing disk \<longleftrightarrow>
     (\<forall>path entry temp s q. w_observe (d_world disk s) q \<noteq> Observe_Absent \<longrightarrow>
        same_object (d_world disk s) (d_world disk (snd (d_aside disk path entry temp s))) q)"

definition guard_holds :: "world \<Rightarrow> FsOp \<Rightarrow> bool" where
  "guard_holds w op \<longleftrightarrow>
     (\<exists>observed. observe_syncable w (op_path op) = Inr observed
        \<and> (preimage_matches w (op_path op) (op_expected op) observed = Inr True
           \<or> installs_the_same_directory (op_kind op) observed))"

fun changes_row :: "PullError + Applied \<Rightarrow> bool" where
  "changes_row (Inr (Applied_Upsert _ _)) = True"
| "changes_row (Inr (Applied_Remove _)) = True"
| "changes_row _ = False"

lemma keep_local_keeps:
  assumes "aside_replaces_nothing disk" and "w_observe (d_world disk s) q \<noteq> Observe_Absent"
  shows "same_object (d_world disk s) (d_world disk (snd (apply_keep_local disk op temp s))) q"
  using assms by (cases "op_kind op") (simp_all add: apply_keep_local_def aside_replaces_nothing_def same_object_def)

lemma aside_changes_no_row [simp]: "\<not> changes_row (map_sum id (aside_result op) result)"
  by (cases result) (auto simp: aside_result_def split: Materialized.split)

lemma keep_local_changes_no_row: "\<not> changes_row (fst (apply_keep_local disk op temp s))"
  by (cases "op_kind op") (simp_all add: apply_keep_local_def)

lemma apply_op_cases:
  assumes "apply_op disk op key s store = (result, s', store')" and "d_stage disk op s = (Inr temp, s1)"
  obtains (fails) e where "result = Inl e" and "s' = s1"
  | (kept) "apply_keep_local disk op temp s1 = (result, s')"
  | (performed) "guard_holds (d_world disk s1) op"
  using assms
  by (auto simp: apply_op_def Let_def guard_holds_def split: sum.splits if_splits prod.splits)

definition rows_complete :: "ancestor_rows \<Rightarrow> bool" where
  "rows_complete ancestor \<longleftrightarrow>
     list_all (\<lambda>(_, r). fr_kind r \<noteq> Kind_File \<or> (fr_content_id r \<noteq> None \<and> fr_key_epoch r \<noteq> None)) ancestor"

definition held_at :: "world \<Rightarrow> ancestor_rows \<Rightarrow> FsOp \<Rightarrow> bool" where
  "held_at w ancestor op \<longleftrightarrow>
     w_observe w (op_path op) = Observe_Absent
     \<or> (\<exists>observed r. w_observe w (op_path op) = Observe_Present observed \<and> map_of ancestor (op_path op) = Some r
          \<and> verified w (op_path op) (observed\<lparr>ob_mode := fr_mode r\<rparr>) r)
     \<or> (\<exists>entry. op_kind op = Op_ModeChange entry \<and> same_content w (op_path op) entry)
     \<or> (\<exists>observed. w_observe w (op_path op) = Observe_Present observed
          \<and> installs_the_same_directory (op_kind op) (Some observed))"

lemma matching_record_verified:
  assumes "preimage_matches w path (preimage_from_record r) (Some observed) = Inr True"
    and "fr_kind r \<noteq> Kind_File \<or> (fr_content_id r \<noteq> None \<and> fr_key_epoch r \<noteq> None)"
  shows "verified w path (observed\<lparr>ob_mode := fr_mode r\<rparr>) r"
  using assms
  by (auto simp: preimage_matches_def preimage_from_record_def verified_def read_local_bytes
      split: EntryKind.splits sum.splits LocalRead.splits if_splits)

lemma matching_observed_same:
  assumes "preimage_matches w path (preimage_from_observed before content_id) (Some observed) = Inr True"
    and "entry_matches_observed entry before content_id" and "w_observe w path = Observe_Present observed"
  shows "same_content w path entry"
  using assms
  by (cases entry) (auto simp: preimage_matches_def preimage_from_observed_def same_content_def
      entry_matches_observed_def read_local_bytes split: EntryKind.splits sum.splits LocalRead.splits if_splits)

lemma guard_held:
  assumes "planned_preimage ancestor op" and "rows_complete ancestor" and "guard_holds w op"
    and "\<nexists>entry. op_kind op = Op_ConflictAside entry"
  shows "held_at w ancestor op"
proof -
  obtain observed where seen: "observe_syncable w (op_path op) = Inr observed"
      "preimage_matches w (op_path op) (op_expected op) observed = Inr True \<or> installs_the_same_directory (op_kind op) observed"
    using assms(3) by (auto simp: guard_holds_def)
  show ?thesis
  proof (cases observed)
    case None
    then show ?thesis using seen(1) by (auto simp: observe_syncable_def held_at_def split: ObserveOutcome.splits)
  next
    case (Some ob)
    then have ob: "w_observe w (op_path op) = Observe_Present ob"
      using seen(1) by (auto simp: observe_syncable_def split: ObserveOutcome.splits)
    show ?thesis
    proof (cases "installs_the_same_directory (op_kind op) observed")
      case True
      with ob Some show ?thesis by (auto simp: held_at_def)
    next
      case False
      then have pre: "preimage_matches w (op_path op) (op_expected op) (Some ob) = Inr True" using seen(2) Some by simp
      have complete: "fr_kind r \<noteq> Kind_File \<or> (fr_content_id r \<noteq> None \<and> fr_key_epoch r \<noteq> None)"
        if "map_of ancestor (op_path op) = Some r" for r
        using assms(2) map_of_SomeD[OF that] by (auto simp: rows_complete_def list_all_iff)
      have "op_expected op \<noteq> preimage_absent" using pre by (auto simp: preimage_matches_def preimage_absent_def)
      with assms(1,4) consider r where "map_of ancestor (op_path op) = Some r" "op_expected op = preimage_from_record r"
        | before content_id entry where "op_kind op = Op_ModeChange entry"
            "op_expected op = preimage_from_observed before content_id" "entry_matches_observed entry before content_id"
        by (auto simp: planned_preimage_def split: FsOpKind.splits)
      then show ?thesis
        using pre ob matching_record_verified[OF _ complete] matching_observed_same
        by cases (auto simp: held_at_def)
    qed
  qed
qed

section \<open>Order\<close>

text \<open>\<open>below p q\<close>: the path \<open>q\<close> lies strictly inside the directory \<open>p\<close>.\<close>

definition below :: "WorkspacePath \<Rightarrow> WorkspacePath \<Rightarrow> bool" where
  "below p q \<longleftrightarrow> (\<exists>rest. q = p @ slash # rest)"

definition must_precede :: "FsOp \<Rightarrow> FsOp \<Rightarrow> bool" where
  "must_precede a b \<longleftrightarrow>
     (is_delete a \<and> \<not> is_delete b)
     \<or> (is_delete a \<and> is_delete b \<and> below (op_path b) (op_path a))
     \<or> (\<not> is_delete a \<and> \<not> is_delete b \<and> git_apply_rank (op_path a) < git_apply_rank (op_path b))
     \<or> (\<not> is_delete a \<and> \<not> is_delete b \<and> git_apply_rank (op_path a) = git_apply_rank (op_path b)
          \<and> below (op_path a) (op_path b))"

lemma below_less: "below p q \<Longrightarrow> p < q"
  by (auto simp: below_def list_less_def lexord_append_rightI)

lemma insort_stable:
  assumes "sorted_wrt (\<lambda>a b. f a < f b \<or> (f a = (f b :: 'k :: linorder) \<and> P a b)) ys" and "\<forall>y \<in> set ys. P x y"
  shows "sorted_wrt (\<lambda>a b. f a < f b \<or> (f a = f b \<and> P a b)) (insort_key f x ys)"
  using assms
proof (induction ys)
  case (Cons y ys)
  show ?case
  proof (cases "f x \<le> f y")
    case True
    have "\<forall>z \<in> set ys. f x < f z \<or> f x = f z" using Cons.prems(1) True by fastforce
    with Cons.prems True show ?thesis by (auto simp: le_less)
  next
    case False
    have "\<forall>z \<in> set (insort_key f x ys). f y < f z \<or> (f y = f z \<and> P y z)"
      using Cons.prems(1) False by (auto simp: set_insort_key)
    with Cons False show ?thesis by simp
  qed
qed simp

lemma sort_key_stable:
  "sorted_wrt P xs \<Longrightarrow> sorted_wrt (\<lambda>a b. f a < f b \<or> (f a = (f b :: 'k :: linorder) \<and> P a b)) (sort_key f xs)"
  by (induction xs) (auto intro: insort_stable)

lemma sort_key_sorted: "sorted_wrt (\<lambda>a b. f a \<le> (f b :: 'k :: linorder)) (sort_key f xs)"
  using sorted_sort_key[of f xs] by (simp add: sorted_wrt_map)

lemma deletes_ordered:
  "sorted_wrt (\<lambda>a b. \<not> must_precede b a) (rev (sort_key op_path (rev (filter is_delete ops))))"
proof -
  have "sorted_wrt (\<lambda>a b. op_path b \<le> op_path a) (rev (sort_key op_path (rev (filter is_delete ops))))"
    by (simp add: sorted_wrt_rev sort_key_sorted)
  then show ?thesis
    by (rule sorted_wrt_mono_rel[rotated]) (auto simp: must_precede_def dest: below_less)
qed

lemma writes_ordered:
  "sorted_wrt (\<lambda>a b. \<not> must_precede b a)
     (sort_key (\<lambda>op. git_apply_rank (op_path op)) (sort_key op_path (filter (\<lambda>op. \<not> is_delete op) ops)))"
proof -
  have "sorted_wrt (\<lambda>a b. git_apply_rank (op_path a) < git_apply_rank (op_path b)
      \<or> (git_apply_rank (op_path a) = git_apply_rank (op_path b) \<and> op_path a \<le> op_path b))
     (sort_key (\<lambda>op. git_apply_rank (op_path op)) (sort_key op_path (filter (\<lambda>op. \<not> is_delete op) ops)))"
    by (rule sort_key_stable[OF sort_key_sorted])
  then show ?thesis
    by (rule sorted_wrt_mono_rel[rotated]) (auto simp: must_precede_def dest: below_less)
qed

lemma ordered_ops_order: "sorted_wrt (\<lambda>a b. \<not> must_precede b a) (ordered_ops ops)"
  unfolding ordered_ops_def sorted_wrt_append
  using deletes_ordered writes_ordered by (auto simp: must_precede_def)

lemma ordered_ops_mset: "mset (ordered_ops ops) = mset ops"
  by (simp add: ordered_ops_def multiset_partition[symmetric])

section \<open>Windows\<close>

lemma windows_from_concat: "concat (windows_from window bytes ops) = window @ ops"
  by (induction ops arbitrary: window bytes) (simp_all add: Let_def)

lemma windows_from_bounds:
  assumes "length window \<le> APPLY_WINDOW_MAX_FILES" and "part \<in> set (windows_from window bytes ops)"
  shows "length part \<le> APPLY_WINDOW_MAX_FILES \<and> part \<noteq> []"
  using assms
proof (induction ops arbitrary: window bytes)
  case (Cons op ops)
  from Cons.prems(2) consider "part = window" "window \<noteq> []" | b where "part \<in> set (windows_from [op] b ops)"
    | b where "part \<in> set (windows_from (window @ [op]) b ops)" "length window < APPLY_WINDOW_MAX_FILES"
    by (cases window) (auto simp: Let_def APPLY_WINDOW_MAX_FILES_def split: if_splits)
  then show ?case
    using Cons.prems(1) Cons.IH[of "[op]"] Cons.IH[of "window @ [op]"] by cases (auto simp: APPLY_WINDOW_MAX_FILES_def)
qed (auto split: if_splits)

end
