(* ===== verification/Apply_Outcome.thy ===== *)
theory Apply_Outcome
  imports Apply_Properties
begin

text \<open>
  What a plan leaves behind when it has been applied: the rows, the frontier, the intents and
  the pending pushes of the store.
\<close>

section \<open>Windows do not matter\<close>

lemma apply_window_append:
  "apply_window disk key (xs @ ys) run s store =
     (case apply_window disk key xs run s store of
        (Inl e, s, store) \<Rightarrow> (Inl e, s, store)
      | (Inr run, s, store) \<Rightarrow> apply_window disk key ys run s store)"
  by (induction xs arbitrary: run s store) (simp_all add: Let_def split: prod.split sum.split)

lemma apply_all_windows_concat:
  "apply_all_windows disk key windows run s store = (Inr run', s', store') \<Longrightarrow>
     apply_window disk key (concat windows) run s store = (Inr run', s', store')"
  by (induction windows arbitrary: run s store) (auto simp: apply_window_append split: prod.splits sum.splits)

section \<open>What one operation changes in the store\<close>

definition only_intents :: "WorkspacePath set \<Rightarrow> manifest_store \<Rightarrow> manifest_store \<Rightarrow> bool" where
  "only_intents paths store store' \<longleftrightarrow>
     st_files store' = st_files store \<and> st_state store' = st_state store
     \<and> st_pending_push store' = st_pending_push store \<and> st_unsyncable store' = st_unsyncable store
     \<and> bt_ok (st_intents store')
     \<and> (\<forall>p. p \<notin> paths \<longrightarrow> map_of (st_intents store') p = map_of (st_intents store) p)"

lemma only_intents_refl: "bt_ok (st_intents store) \<Longrightarrow> only_intents paths store store"
  by (simp add: only_intents_def)

lemma only_intents_trans:
  "only_intents A a b \<Longrightarrow> only_intents B b c \<Longrightarrow> only_intents (A \<union> B) a c"
  by (auto simp: only_intents_def)

lemma apply_op_store:
  assumes "apply_op disk op key s store = (result, s', store')" and "bt_ok (st_intents store)"
  shows "only_intents {op_path op} store store'"
  using assms
  by (auto simp: apply_op_def Let_def only_intents_def open_intent_def build_intent_def bt_insert_ok map_of_bt_insert
      split: prod.splits sum.splits if_splits)

lemma perform_op_row:
  assumes "fst (perform_op disk op temp observed s) = Inr applied" and "changes_row (Inr applied)"
  shows "(\<exists>r. applied = Applied_Upsert (op_path op) r) \<or> applied = Applied_Remove (op_path op)"
  using assms keep_local_changes_no_row[of disk op]
  by (auto simp: perform_op_def split: FsOpKind.splits prod.splits sum.splits Materialized.splits DeleteOutcome.splits
      if_splits option.splits) (metis fst_conv)+

lemma apply_op_row:
  assumes "apply_op disk op key s store = (Inr applied, s', store')" and "changes_row (Inr applied)"
  shows "(\<exists>r. applied = Applied_Upsert (op_path op) r) \<or> applied = Applied_Remove (op_path op)"
  using assms keep_local_changes_no_row[of disk op] perform_op_row[of disk op]
  by (auto simp: apply_op_def Let_def split: prod.splits sum.splits if_splits) (metis fst_conv)+

lemma settle_path_error_row:
  "settle_path_error result = Inr applied \<Longrightarrow> changes_row (Inr applied) \<Longrightarrow> result = Inr applied"
  by (cases result rule: settle_path_error.cases) auto

section \<open>What a run of operations changes\<close>

definition base_kept :: "apply_run \<Rightarrow> bool" where
  "base_kept run \<longleftrightarrow>
     bt_ok (ac_upserts (ar_commit run))
     \<and> (\<forall>p \<in> po_deferred (ar_outcome run). map_of (ac_upserts (ar_commit run)) p = None \<and> p \<notin> ac_removals (ar_commit run))"

lemma record_applied_keeps:
  assumes "record_applied applied commit outcome = (commit', outcome')" and "bt_ok (ac_upserts commit)"
    and "changes_row (Inr applied) \<longrightarrow> (\<exists>r. applied = Applied_Upsert path r) \<or> applied = Applied_Remove path"
  shows "bt_ok (ac_upserts commit') \<and> po_deferred outcome' = po_deferred outcome
    \<and> po_push_again outcome \<subseteq> po_push_again outcome'
    \<and> (\<forall>p. p \<noteq> path \<longrightarrow> map_of (ac_upserts commit') p = map_of (ac_upserts commit) p
        \<and> (p \<in> ac_removals commit' \<longleftrightarrow> p \<in> ac_removals commit))"
  using assms by (cases applied) (auto simp: bt_insert_ok map_of_bt_insert)

lemma defer_op_keeps:
  assumes "base_kept run"
  shows "base_kept (defer_op path run)"
  using assms by (auto simp: base_kept_def defer_op_def bt_remove_ok map_of_bt_remove)

lemma apply_window_keeps:
  assumes "apply_window disk key ops run s store = (Inr run', s', store')"
    and "distinct (map op_path ops)" and "base_kept run" and "bt_ok (st_intents store)"
    and "po_deferred (ar_outcome run) \<inter> op_path ` set ops = {}"
  shows "base_kept run' \<and> po_push_again (ar_outcome run) \<subseteq> po_push_again (ar_outcome run')
    \<and> set (ar_intent_ids run) \<subseteq> set (ar_intent_ids run')
    \<and> only_intents (set (ar_intent_ids run')) store store'"
  using assms
proof (induction ops arbitrary: run s store)
  case Nil
  then show ?case by (auto simp: only_intents_refl)
next
  case (Cons op ops)
  obtain locked locks where lock: "is_active (d_locks disk s) (op_path op) (ar_locks run) = (locked, locks)" by force
  show ?case
  proof (cases locked)
    case True
    let ?run = "defer_op (op_path op) (run\<lparr>ar_locks := locks\<rparr>)"
    have "apply_window disk key ops ?run s store = (Inr run', s', store')"
      using Cons.prems(1) lock True by simp
    moreover have "base_kept ?run" using Cons.prems(3) by (intro defer_op_keeps) (simp add: base_kept_def)
    moreover have "po_deferred (ar_outcome ?run) \<inter> op_path ` set ops = {}"
      using Cons.prems(2,5) by (auto simp: defer_op_def)
    ultimately show ?thesis using Cons.IH[of ?run s store] Cons.prems(2,4) by (simp add: defer_op_def)
  next
    case False
    obtain result s1 store1 where op: "apply_op disk op key s store = (result, s1, store1)" by (metis prod_cases3)
    obtain applied where applied: "settle_path_error result = Inr applied"
      using Cons.prems(1) lock False op by (auto simp: Let_def split: sum.splits)
    obtain commit outcome where rec: "record_applied applied (ar_commit run) (ar_outcome run) = (commit, outcome)" by force
    let ?run = "run\<lparr>ar_locks := locks, ar_intent_ids := ar_intent_ids run @ [op_path op], ar_commit := commit, ar_outcome := outcome\<rparr>"
    have rest: "apply_window disk key ops ?run s1 store1 = (Inr run', s', store')"
      using Cons.prems(1) lock False op applied rec by (simp add: Let_def)
    have row: "changes_row (Inr applied) \<longrightarrow> (\<exists>r. applied = Applied_Upsert (op_path op) r) \<or> applied = Applied_Remove (op_path op)"
    proof
      assume c: "changes_row (Inr applied)"
      then have "apply_op disk op key s store = (Inr applied, s1, store1)"
        using settle_path_error_row[OF applied] op by simp
      from apply_op_row[OF this c] show "(\<exists>r. applied = Applied_Upsert (op_path op) r) \<or> applied = Applied_Remove (op_path op)" .
    qed
    have step: "bt_ok (ac_upserts commit)" "po_deferred outcome = po_deferred (ar_outcome run)"
        "po_push_again (ar_outcome run) \<subseteq> po_push_again outcome"
        "\<And>p. p \<noteq> op_path op \<Longrightarrow> map_of (ac_upserts commit) p = map_of (ac_upserts (ar_commit run)) p
          \<and> (p \<in> ac_removals commit \<longleftrightarrow> p \<in> ac_removals (ar_commit run))"
      using record_applied_keeps[OF rec _ row] Cons.prems(3) by (simp_all add: base_kept_def)
    have "p \<noteq> op_path op" if "p \<in> po_deferred (ar_outcome run)" for p using that Cons.prems(5) by auto
    then have "base_kept ?run" using step Cons.prems(3) by (simp add: base_kept_def)
    moreover note frame = apply_op_store[OF op Cons.prems(4)]
    moreover have "bt_ok (st_intents store1)" using frame by (simp add: only_intents_def)
    moreover have "po_deferred (ar_outcome ?run) \<inter> op_path ` set ops = {}" using step(2) Cons.prems(5) by auto
    ultimately have ih: "base_kept run' \<and> po_push_again outcome \<subseteq> po_push_again (ar_outcome run')
        \<and> set (ar_intent_ids run @ [op_path op]) \<subseteq> set (ar_intent_ids run')
        \<and> only_intents (set (ar_intent_ids run')) store1 store'"
      using Cons.IH[OF rest] Cons.prems(2) by simp
    then have "only_intents ({op_path op} \<union> set (ar_intent_ids run')) store store'"
      using only_intents_trans[OF frame] by blast
    moreover have "{op_path op} \<union> set (ar_intent_ids run') = set (ar_intent_ids run')" using ih by auto
    ultimately show ?thesis using ih step(3) by auto
  qed
qed

section \<open>The committed outcome\<close>

definition stamps_only :: "'s disk \<Rightarrow> bool" where
  "stamps_only disk \<longleftrightarrow> (\<forall>s rows. map fst (d_prove disk s rows) = map fst rows)"

lemma map_of_apply_ancestor:
  assumes "bt_ok files" and "map_of (ac_upserts commit) path = None" and "path \<notin> ac_removals commit"
    and "apply_ancestor commit files = Inr files'"
  shows "map_of files' path = map_of files path"
proof -
  let ?left = "filter (\<lambda>(path, _). path \<notin> ac_removals commit) files"
  have "bt_ok ?left" using assms(1) by (auto simp: bt_ok_def sorted_wrt_map intro: sorted_wrt_filter)
  moreover have "map_of (rev (ac_upserts commit)) path = None"
    using assms(2) by (simp add: map_of_eq_None_iff)
  ultimately have "map_of files' path = map_of ?left path"
    using assms(4) btree.fold_put[of ?left "ac_upserts commit"]
    by (auto simp: apply_ancestor_def map_add_def split: if_splits)
  also have "\<dots> = map_of files path"
    using assms(3) by (induction files) auto
  finally show ?thesis .
qed

lemma apply_plan_run:
  assumes "apply_plan disk plan key version s store = (Inr outcome, s', store')" and "bt_ok (ancestor_upserts plan)"
    and "distinct (map op_path (fs_ops plan))" and "bt_ok (st_intents store)"
  obtains run s1 mid where "base_kept run" and "plan_push_again plan \<subseteq> po_push_again outcome"
    and "only_intents (set (ar_intent_ids run)) (record_unsyncable (plan_unsyncable plan) {} store) mid"
    and "po_deferred outcome = po_deferred (ar_outcome run)" and "po_push_again outcome = po_push_again (ar_outcome run)"
    and "commit_pull_outcome ((ar_commit run)\<lparr>ac_upserts := d_prove disk s1 (ac_upserts (ar_commit run))\<rparr>)
      (head_advance (st_state store) outcome key version) (Some (key, version)) (ar_intent_ids run) (po_push_again outcome)
      (record_unsyncable (po_unsyncable (ar_outcome run)) {} mid) = Inr store'"
proof -
  let ?start = "\<lparr>ar_locks = GitLockCache_default,
      ar_commit = \<lparr>ac_upserts = ancestor_upserts plan, ac_removals = ancestor_removals plan\<rparr>,
      ar_outcome = PullOutcome_default\<lparr>po_observed_ref := Head \<lparr>ref_version = version, ref_manifest_key = key\<rparr>,
        po_applied_manifest_key := Some key, po_ref_version := Some version, po_push_again := plan_push_again plan\<rparr>,
      ar_intent_ids = []\<rparr>"
  let ?store = "record_unsyncable (plan_unsyncable plan) {} store"
  obtain run s1 mid where run: "apply_all_windows disk key (apply_windows (ordered_ops (fs_ops plan))) ?start s ?store = (Inr run, s1, mid)"
      "po_deferred outcome = po_deferred (ar_outcome run)" "po_push_again outcome = po_push_again (ar_outcome run)"
      "commit_pull_outcome ((ar_commit run)\<lparr>ac_upserts := d_prove disk s1 (ac_upserts (ar_commit run))\<rparr>)
        (head_advance (st_state store) (ar_outcome run) key version) (Some (key, version)) (ar_intent_ids run)
        (po_push_again (ar_outcome run)) (record_unsyncable (po_unsyncable (ar_outcome run)) {} mid) = Inr store'"
    using assms(1)
    by (auto simp: apply_plan_def engine_state_def Let_def split: sum.splits prod.splits if_splits)
  have "apply_window disk key (ordered_ops (fs_ops plan)) ?start s ?store = (Inr run, s1, mid)"
    using apply_all_windows_concat[OF run(1)] by (simp add: apply_windows_def windows_from_concat)
  moreover have "distinct (map op_path (ordered_ops (fs_ops plan)))"
    using assms(3) ordered_ops_mset[of "fs_ops plan"] by (metis mset_eq_imp_distinct_iff mset_map)
  moreover have "base_kept ?start" using assms(2) by (simp add: base_kept_def PullOutcome_default_def)
  moreover have "bt_ok (st_intents ?store)" using assms(4) by (simp add: record_unsyncable_def)
  ultimately have "base_kept run" "plan_push_again plan \<subseteq> po_push_again (ar_outcome run)"
      "only_intents (set (ar_intent_ids run)) ?store mid"
    using apply_window_keeps[of disk key "ordered_ops (fs_ops plan)" ?start s ?store run s1 mid]
    by (simp_all add: PullOutcome_default_def)
  moreover have "head_advance (st_state store) outcome key version = head_advance (st_state store) (ar_outcome run) key version"
    by (simp add: head_advance_def run(2))
  ultimately show thesis using run(2-4) that[of run mid s1] by simp
qed

section \<open>The transaction of an outcome\<close>

lemma commit_pull_outcome_ok:
  assumes "commit_pull_outcome commit applied verified_head ids push_again store = Inr store'"
  shows "st_pending_push store' = st_pending_push store \<union> push_again"
    and "st_intents store' = filter (\<lambda>(path, _). path \<notin> set ids) (st_intents store)"
    and "apply_ancestor commit (st_files store) = Inr (st_files store')"
  using assms by (auto simp: commit_pull_outcome_def Let_def split: sum.splits)

text \<open>The frontier after a pull of the head \<open>(key, version)\<close>, applied or held at the prior head.\<close>

definition same_frontier :: "EngineState \<Rightarrow> EngineState \<Rightarrow> bool" where
  "same_frontier a b \<longleftrightarrow>
     applied_manifest_key a = applied_manifest_key b \<and> last_ref_version a = last_ref_version b
     \<and> highest_verified_ref_version a = highest_verified_ref_version b
     \<and> highest_verified_manifest_key a = highest_verified_manifest_key b"

lemma same_frontier_ratchet:
  assumes "same_frontier state prior" and "frontier_ok prior"
  shows "frontier_ok (advance_verified_ratchet key version state)"
    and "ratchet_le prior (advance_verified_ratchet key version state)"
proof -
  have "frontier_ok state" using assms by (auto simp: same_frontier_def frontier_ok_def)
  moreover have "ratchet_le prior state" using assms(1) by (simp add: same_frontier_def ratchet_le_def split: option.split)
  ultimately show "frontier_ok (advance_verified_ratchet key version state)"
      "ratchet_le prior (advance_verified_ratchet key version state)"
    using advance_ratchet ratchet_trans by blast+
qed

lemma held_head_same_frontier:
  "set_applied k v prior = Inr state \<Longrightarrow> applied_manifest_key prior = Some k \<Longrightarrow> last_ref_version prior = Some v
     \<Longrightarrow> same_frontier state prior"
  "advance_materialization_revision prior = Inr state \<Longrightarrow> same_frontier state prior"
  by (auto simp: set_applied_def advance_materialization_revision_def map_sum_Inr same_frontier_def)

lemma commit_pull_frontier:
  assumes "commit_pull_outcome commit (head_advance prior outcome key version) (Some (key, version)) ids push_again store = Inr store'"
    and "st_state store = prior" and "frontier_ok prior"
  shows "frontier_ok (st_state store') \<and> ratchet_le prior (st_state store')
    \<and> (po_deferred outcome = {} \<longrightarrow>
         applied_ref (st_state store') = Inr (Head \<lparr>ref_version = version, ref_manifest_key = key\<rparr>))"
proof (cases "po_deferred outcome = {}")
  case True
  then obtain state where "set_applied key version prior = Inr state" "st_state store' = advance_verified_ratchet key version state"
    using assms(1,2) by (auto simp: commit_pull_outcome_def head_advance_def Let_def to_i64_def split: sum.splits if_splits)
  then show ?thesis using set_applied_ratchet[of key version prior state] assms(3) by (simp add: applied_ref_def)
next
  case False
  then obtain state where "st_state store' = advance_verified_ratchet key version state" and same: "same_frontier state prior"
    using assms(1,2) held_head_same_frontier(1)[where prior = prior] held_head_same_frontier(2)[where prior = prior]
      same_frontier_def[of prior prior]
    by (auto simp: commit_pull_outcome_def head_advance_def Let_def to_i64_def split: sum.splits if_splits option.splits; blast)
  then show ?thesis using same_frontier_ratchet[OF same assms(3)] False by simp
qed

end
