(* ===== verification/Pull_Recovery.thy ===== *)
theory Pull_Recovery
  imports Apply_Outcome
begin

text \<open>
  Crash recovery of a pull, the second half of \<^verbatim>\<open>pull_apply/apply.rs\<close> and the observation
  helpers of \<^verbatim>\<open>pull_apply/intents.rs\<close>: every intent that was open when the process died is
  classified by what is on the disk now, finished or given up, and retired in one transaction
  that does not move the applied head.
\<close>

section \<open>The boundaries\<close>

datatype RecoveryBoundary =
    TempOnly | IntentOldTarget | InstalledIntent | PreservedNoTarget | DeleteDoneIntent | TargetModifiedWhileDown

datatype RecoveryAction =
    DiscardTemp | Reapply | FinalizeInstalled | RestoreOrComplete | FinalizeDeleted | KeepLocalAside

record RecoveryObservation =
  target_present :: bool
  target_matches_target_record :: bool
  target_matches_preimage :: bool
  temp_exists :: bool
  quarantine_exists :: bool

definition recovery_boundary :: "IntentOperationKind \<Rightarrow> RecoveryObservation \<Rightarrow> RecoveryBoundary" where
  "recovery_boundary operation observed =
     (case operation of
        Intent_Delete \<Rightarrow>
          if target_present observed then
            (if target_matches_preimage observed then IntentOldTarget else TargetModifiedWhileDown)
          else DeleteDoneIntent
      | _ \<Rightarrow>
          if target_matches_target_record observed then InstalledIntent
          else if target_matches_preimage observed then IntentOldTarget
          else if \<not> target_present observed \<and> quarantine_exists observed then PreservedNoTarget
          else if target_present observed then TargetModifiedWhileDown
          else if temp_exists observed then TempOnly
          else PreservedNoTarget)"

fun recovery_action :: "RecoveryBoundary \<Rightarrow> RecoveryAction" where
  "recovery_action TempOnly = DiscardTemp"
| "recovery_action IntentOldTarget = Reapply"
| "recovery_action InstalledIntent = FinalizeInstalled"
| "recovery_action PreservedNoTarget = RestoreOrComplete"
| "recovery_action DeleteDoneIntent = FinalizeDeleted"
| "recovery_action TargetModifiedWhileDown = KeepLocalAside"

section \<open>The facts\<close>

definition target_matches ::
  "world \<Rightarrow> WorkspacePath \<Rightarrow> TargetRecordPayload \<Rightarrow> Observed option \<Rightarrow> PullError + bool" where
  "target_matches w path target observed =
     (case observed of
        None \<Rightarrow> Inr (tg_op target = Tag_Delete)
      | Some observed \<Rightarrow>
          if tg_op target = Tag_ModeChange
             \<and> (case tg_mode target of Some mode \<Rightarrow> ob_mode observed \<noteq> mode | None \<Rightarrow> False)
          then Inr False
          else (case tg_kind target of
              Some Kind_File \<Rightarrow>
                if ob_kind observed \<noteq> Kind_File then Inr False
                else (case read_local_content w path (expected_file observed) of
                    Inl e \<Rightarrow> Inl e
                  | Inr (Local_Bytes bytes) \<Rightarrow>
                      Inr (Option.bind (tg_key_epoch target) (\<lambda>key_epoch.
                          map_option (\<lambda>content_id. Some content_id = tg_content_id target)
                            (w_content_id_at w key_epoch bytes)) = Some True)
                  | Inr Unverifiable \<Rightarrow> Inr False)
            | Some Kind_Symlink \<Rightarrow>
                Inr (ob_kind observed = Kind_Symlink \<and> ob_symlink_target observed = tg_symlink_target target)
            | Some Kind_Directory \<Rightarrow> Inr (ob_kind observed = Kind_Directory)
            | None \<Rightarrow> Inr False))"

definition recovery_facts ::
  "'s disk \<Rightarrow> WorkspacePath \<Rightarrow> TargetRecordPayload \<Rightarrow> PreimagePayload \<Rightarrow> Observed option \<Rightarrow> Intent \<Rightarrow> 's \<Rightarrow>
   PullError + RecoveryObservation" where
  "recovery_facts disk path target expected observed intent s =
     (case target_matches (d_world disk s) path target observed of
        Inl e \<Rightarrow> Inl e
      | Inr matches_target \<Rightarrow>
     (case preimage_matches (d_world disk s) path expected observed of
        Inl e \<Rightarrow> Inl e
      | Inr matches_preimage \<Rightarrow>
          Inr \<lparr>target_present = (observed \<noteq> None),
            target_matches_target_record = matches_target,
            target_matches_preimage = matches_preimage,
            temp_exists = (case in_temp_name intent of Some name \<Rightarrow> d_temp_exists disk name s | None \<Rightarrow> False),
            quarantine_exists =
              (case in_preserved_preimage intent of Some rel \<Rightarrow> d_quarantine_exists disk rel s | None \<Rightarrow> False)\<rparr>))"

section \<open>Finishing an intent\<close>

definition add_upsert :: "WorkspacePath \<Rightarrow> FileRecord \<Rightarrow> AncestorCommit \<Rightarrow> AncestorCommit" where
  "add_upsert path r commit = commit\<lparr>ac_upserts := bt_insert path r (ac_upserts commit)\<rparr>"

definition add_removal :: "WorkspacePath \<Rightarrow> AncestorCommit \<Rightarrow> AncestorCommit" where
  "add_removal path commit = commit\<lparr>ac_removals := insert path (ac_removals commit)\<rparr>"

definition finalize_installed ::
  "world \<Rightarrow> WorkspacePath \<Rightarrow> TargetRecordPayload \<Rightarrow> AncestorCommit \<Rightarrow> PullError + AncestorCommit" where
  "finalize_installed w path target commit =
     (if tg_op target = Tag_Delete then Inr (add_removal path commit)
      else (case observe_syncable w path of
          Inl e \<Rightarrow> Inl e
        | Inr None \<Rightarrow> Inr commit
        | Inr (Some observed) \<Rightarrow>
            map_sum id (\<lambda>r. add_upsert path r commit) (to_record (w_now w) target (ob_fingerprint observed))))"

definition reapply_target ::
  "'s disk \<Rightarrow> Intent \<Rightarrow> TargetRecordPayload \<Rightarrow> AncestorCommit \<Rightarrow> 's \<Rightarrow> (PullError + AncestorCommit) \<times> 's" where
  "reapply_target disk intent target commit s =
     (let path = in_path intent
      in case tg_op target of
           Tag_Delete \<Rightarrow>
             (case d_delete disk path s of
                (Inl e, s) \<Rightarrow> (Inl e, s)
              | (Inr Deleted, s) \<Rightarrow> (Inr (add_removal path commit), s)
              | (Inr Delete_KeptLocal, s) \<Rightarrow> (Inr commit, s))
         | Tag_ConflictAside \<Rightarrow>
             (case to_entry target of
                Inl e \<Rightarrow> (Inl e, s)
              | Inr entry \<Rightarrow>
                  (case d_aside_present disk path entry s of
                     Inl e \<Rightarrow> (Inl e, s)
                   | Inr True \<Rightarrow> (Inr commit, s)
                   | Inr False \<Rightarrow>
                       (case d_aside disk path entry None s of
                          (Inl e, s) \<Rightarrow> (Inl e, s)
                        | (Inr _, s) \<Rightarrow> (Inr commit, s))))
         | Tag_ModeChange \<Rightarrow>
             (case to_entry target of
                Inl e \<Rightarrow> (Inl e, s)
              | Inr entry \<Rightarrow>
                  if d_parent_blocked disk path s then (Inr commit, s)
                  else (case d_set_mode disk path (entry_mode entry) s of
                      (Inl e, s) \<Rightarrow> (Inl e, s)
                    | (Inr _, s) \<Rightarrow>
                        (case observe_syncable (d_world disk s) path of
                           Inl e \<Rightarrow> (Inl e, s)
                         | Inr None \<Rightarrow> (Inr commit, s)
                         | Inr (Some observed) \<Rightarrow>
                             (Inr (add_upsert path
                                (record_for_entry (w_now (d_world disk s)) entry (ob_fingerprint observed)) commit), s))))
         | Tag_Install \<Rightarrow>
             (case to_entry target of
                Inl e \<Rightarrow> (Inl e, s)
              | Inr entry \<Rightarrow>
                  (case observe_syncable (d_world disk s) path of
                     Inl e \<Rightarrow> (Inl e, s)
                   | Inr existing \<Rightarrow>
                       (case (case d_install disk path entry None existing s of
                            (Inr result, s) \<Rightarrow> (Inr result, s)
                          | (Inl (Pull_Path fault), s) \<Rightarrow> (Inl (Pull_Path fault), s)
                          | (Inl _, s) \<Rightarrow> d_reinstall disk path entry s) of
                          (Inl e, s) \<Rightarrow> (Inl e, s)
                        | (Inr (Done r), s) \<Rightarrow> (Inr (add_upsert path r commit), s)
                        | (Inr _, s) \<Rightarrow> (Inr commit, s)))))"

definition execute_recovery ::
  "'s disk \<Rightarrow> Intent \<Rightarrow> TargetRecordPayload \<Rightarrow> RecoveryBoundary \<Rightarrow> AncestorCommit \<Rightarrow> 's \<Rightarrow>
   (PullError + AncestorCommit) \<times> 's" where
  "execute_recovery disk intent target boundary commit s =
     (case recovery_action boundary of
        DiscardTemp \<Rightarrow> (Inr commit, s)
      | KeepLocalAside \<Rightarrow> (Inr commit, s)
      | FinalizeDeleted \<Rightarrow> (Inr (add_removal (in_path intent) commit), s)
      | FinalizeInstalled \<Rightarrow> (finalize_installed (d_world disk s) (in_path intent) target commit, s)
      | Reapply \<Rightarrow> reapply_target disk intent target commit s
      | RestoreOrComplete \<Rightarrow> reapply_target disk intent target commit s)"

text \<open>
  The payloads of an intent as recovery decodes them: a missing target is an error, a missing
  preimage stands for absence, and what does not decode is an error.
\<close>

definition decode_or :: "(string \<Rightarrow> 'a option) \<Rightarrow> string option \<Rightarrow> PullError + 'a option" where
  "decode_or decode payload =
     (case payload of
        None \<Rightarrow> Inr None
      | Some value \<Rightarrow>
          (case decode value of
             Some x \<Rightarrow> Inr (Some x)
           | None \<Rightarrow> Inl (Pull_Internal ''intent decode failed'')))"

definition intent_target :: "'s disk \<Rightarrow> Intent \<Rightarrow> PullError + TargetRecordPayload" where
  "intent_target disk intent =
     (case decode_or (d_decode_target disk) (in_target_record intent) of
        Inl e \<Rightarrow> Inl e
      | Inr (Some target) \<Rightarrow> Inr target
      | Inr None \<Rightarrow> Inl (Pull_Internal ''intent missing target record''))"

definition intent_preimage :: "'s disk \<Rightarrow> Intent \<Rightarrow> PullError + PreimagePayload" where
  "intent_preimage disk intent =
     map_sum id (\<lambda>p. case p of Some expected \<Rightarrow> expected | None \<Rightarrow> preimage_absent)
       (decode_or (d_decode_preimage disk) (in_expected_preimage intent))"

text \<open>The result carries the commit and the temporaries to keep, both unchanged by a failure
  before they are touched.\<close>

definition recover_one ::
  "'s disk \<Rightarrow> Intent \<Rightarrow> AncestorCommit \<Rightarrow> string set \<Rightarrow> 's \<Rightarrow>
   (PullError + AncestorCommit) \<times> string set \<times> 's" where
  "recover_one disk intent commit keep_temps s =
     (case intent_target disk intent of
        Inl e \<Rightarrow> (Inl e, keep_temps, s)
      | Inr target \<Rightarrow>
     (case intent_preimage disk intent of
        Inl e \<Rightarrow> (Inl e, keep_temps, s)
      | Inr expected \<Rightarrow>
     (case observe_syncable (d_world disk s) (in_path intent) of
        Inl e \<Rightarrow> (Inl e, keep_temps, s)
      | Inr observed \<Rightarrow>
     (case recovery_facts disk (in_path intent) target expected observed intent s of
        Inl e \<Rightarrow> (Inl e, keep_temps, s)
      | Inr facts \<Rightarrow>
          (let boundary = recovery_boundary (in_operation_kind intent) facts;
               keep_temps = (case in_temp_name intent of Some temp \<Rightarrow> insert temp keep_temps | None \<Rightarrow> keep_temps);
               (result, s) = execute_recovery disk intent target boundary commit s
           in (result, keep_temps, s))))))"

datatype ReplayVerdict = Replay_Retry | Replay_Quarantine UnsyncableReason

fun replay_verdict :: "PullError \<Rightarrow> ReplayVerdict" where
  "replay_verdict (Pull_Transport _) = Replay_Retry"
| "replay_verdict (Pull_Store _) = Replay_Retry"
| "replay_verdict (Pull_Path fault) = Replay_Quarantine (us_reason (usp_record fault))"
| "replay_verdict _ = Replay_Quarantine RecoveryAbandoned"

record recovery_run =
  rr_commit :: AncestorCommit
  rr_intent_ids :: "WorkspacePath list"
  rr_keep_temps :: "string set"
  rr_abandoned :: "(WorkspacePath, UnsyncableRecord) btree_map"

definition recovery_start :: recovery_run where
  "recovery_start = \<lparr>rr_commit = AncestorCommit_default, rr_intent_ids = [], rr_keep_temps = {}, rr_abandoned = []\<rparr>"

fun recover_each :: "'s disk \<Rightarrow> Intent list \<Rightarrow> recovery_run \<Rightarrow> 's \<Rightarrow> (PullError + recovery_run) \<times> 's" where
  "recover_each disk [] run s = (Inr run, s)"
| "recover_each disk (intent # intents) run s =
     (let run = run\<lparr>rr_intent_ids := rr_intent_ids run @ [in_path intent]\<rparr>;
          (result, keep_temps, s) = recover_one disk intent (rr_commit run) (rr_keep_temps run) s;
          run = run\<lparr>rr_keep_temps := keep_temps\<rparr>
      in case result of
           Inr commit \<Rightarrow> recover_each disk intents (run\<lparr>rr_commit := commit\<rparr>) s
         | Inl error \<Rightarrow>
             (case replay_verdict error of
                Replay_Retry \<Rightarrow> (Inl error, s)
              | Replay_Quarantine reason \<Rightarrow>
                  recover_each disk intents
                    (run\<lparr>rr_abandoned := bt_insert (in_path intent)
                       (UnsyncableRecord_new reason None (w_now (d_world disk s))) (rr_abandoned run)\<rparr>) s))"

definition recover_intents ::
  "'s disk \<Rightarrow> 's \<Rightarrow> manifest_store \<Rightarrow> (PullError + unit) \<times> 's \<times> manifest_store" where
  "recover_intents disk s store =
     (let intents = pending_intents store
      in case (if list_ex (\<lambda>intent. in_path intent = AUX_INDEX_PATH) intents then d_transition_lock disk s else Inr ()) of
           Inl e \<Rightarrow> (Inl e, s, store)
         | Inr _ \<Rightarrow>
             if intents = [] then (let (r, s) = d_sweep disk {} s in (r, s, store))
             else
               (case recover_each disk intents recovery_start s of
                  (Inl e, s) \<Rightarrow> (Inl e, s, store)
                | (Inr run, s) \<Rightarrow>
                    (let store = record_unsyncable (rr_abandoned run) {} store;
                         commit = (rr_commit run)\<lparr>ac_upserts := d_prove disk s (ac_upserts (rr_commit run))\<rparr>
                     in case commit_pull_outcome commit None None (rr_intent_ids run) {} store of
                          Inl e \<Rightarrow> (Inl (Pull_Store e), s, store)
                        | Inr store \<Rightarrow> (let (r, s) = d_sweep disk (rr_keep_temps run) s in (r, s, store)))))"

end
