(* ===== verification/Apply_Guarantees.thy ===== *)
theory Apply_Guarantees
  imports Apply_Outcome
begin

text \<open>The guarantees of applying a plan as properties, with a disk on which they can be seen.\<close>

lemma classify_plan_ok: "classify debug w ancestor remote clashes scope = Inr plan \<Longrightarrow> plan_ok plan"
  using classify_paths_share[OF _ at_path_default(2) merge_paths_keys(1)]
  by (fastforce simp: classify_def split: sum.splits)

section \<open>A small disk\<close>

text \<open>The state of the disk maps a path to the bytes of a file. An aside takes the name with a
  tilde when it is free.\<close>

type_synonym files = "WorkspacePath \<Rightarrow> string option"

fun entry_bytes :: "ManifestEntry \<Rightarrow> string" where
  "entry_bytes (File _ _ content_id _ _) = content_id"
| "entry_bytes _ = []"

definition small_disk :: "git_probe \<Rightarrow> files disk" where
  "small_disk locks = \<lparr>
     d_world = disk_world 6,
     d_locks = (\<lambda>_. locks),
     d_stage = (\<lambda>_ s. (Inr None, s)),
     d_install = (\<lambda>path entry _ _ s. (Inr (Done (record_for_entry 0 entry demo_stat)), s(path \<mapsto> entry_bytes entry))),
     d_reinstall = (\<lambda>path entry s. (Inr (Done (record_for_entry 0 entry demo_stat)), s(path \<mapsto> entry_bytes entry))),
     d_aside = (\<lambda>path entry _ s. if s (path @ ''~'') = None
        then (Inr (Done (path @ ''~'')), s(path @ ''~'' \<mapsto> entry_bytes entry)) else (Inr AsideRefused, s)),
     d_aside_present = (\<lambda>path entry s. Inr (s (path @ ''~'') = Some (entry_bytes entry))),
     d_delete = (\<lambda>path s. (Inr Deleted, s(path := None))),
     d_parent_blocked = (\<lambda>_ _. False),
     d_set_mode = (\<lambda>_ _ s. (Inr (), s)),
     d_prefetch = (\<lambda>_ _. Inr ()),
     d_transition_lock = (\<lambda>_. Inr ()),
     d_prove = (\<lambda>_ rows. rows),
     d_temp_exists = (\<lambda>_ _. False),
     d_quarantine_exists = (\<lambda>_ _. False),
     d_quarantine_name = id,
     d_release = (\<lambda>_ s. s),
     d_sweep = (\<lambda>_ s. (Inr (), s)),
     d_encode_preimage = (\<lambda>p. []),
     d_decode_preimage = (\<lambda>_. None),
     d_encode_target = (\<lambda>t. []),
     d_decode_target = (\<lambda>_. None)\<rparr>"

definition demo_store :: manifest_store where
  "demo_store = \<lparr>st_files = demo_ancestor, st_state = EngineState_default\<lparr>applied_manifest_key := Some ''m'',
     last_ref_version := Some 4, highest_verified_ref_version := Some 4, highest_verified_manifest_key := Some ''m''\<rparr>,
     st_intents = [], st_pending_push = {}, st_unsyncable = [], st_blobs = [], st_tree_nodes = [], st_node_epochs = []\<rparr>"

lemma small_disk_aside: "aside_replaces_nothing (small_disk locks)"
  by (auto simp: aside_replaces_nothing_def small_disk_def same_object_def disk_world_def fun_eq_iff split: option.splits)

lemma small_disk_stamps: "stamps_only (small_disk locks)"
  by (simp add: stamps_only_def small_disk_def)

lemma demo_store_ok: "bt_ok (st_files demo_store)" "bt_ok (st_intents demo_store)" "frontier_ok (st_state demo_store)"
  by (simp_all add: demo_store_def demo_ancestor_def frontier_ok_def EngineState_default_def bt_ok_def)

lemma demo_rows_complete: "rows_complete demo_ancestor"
  by (simp add: rows_complete_def demo_ancestor_def demo_row_def demo_entry_def record_for_entry_def)

section \<open>Properties\<close>


text \<open>The path \<open>a\<close> is written between the plan and its application.\<close>

definition raced_files :: files where
  "raced_files = demo_bytes(''a'' \<mapsto> ''z'')"


text \<open>C14. What an operation displaces is held elsewhere. When an operation of a plan installs,
  deletes or changes a mode, the object it found at the mutation boundary was absent, or carried
  the content of the ancestor row, verified there by the hash of its bytes, or (a mode change)
  the content of the remote entry, or was a directory where a directory is installed.\<close>

theorem displaced_content_is_held:
  assumes "classify debug w ancestor remote clashes scope = Inr plan" and "op \<in> set (fs_ops plan)"
    and "rows_complete ancestor" and "apply_op disk op key s store = (result, s', store')"
    and "d_stage disk op s = (Inr temp, s1)" and "changes_row result"
  shows "held_at (d_world disk s1) ancestor op"
proof -
  have "guard_holds (d_world disk s1) op"
    using assms(4,5)
  proof (cases rule: apply_op_cases)
    case kept
    then show ?thesis using keep_local_changes_no_row[of disk op temp s1] assms(6) by simp
  qed (use assms(6) in simp_all)
  moreover have "\<nexists>entry. op_kind op = Op_ConflictAside entry"
  proof
    assume "\<exists>entry. op_kind op = Op_ConflictAside entry"
    then have "\<not> changes_row result"
      using assms(4) keep_local_changes_no_row[of disk op]
      by (auto simp: apply_op_def perform_op_def Let_def split: prod.splits sum.splits if_splits) (metis fst_conv)+
    with assms(6) show False by simp
  qed
  ultimately show ?thesis using guard_held[OF plan_op_planned[OF assms(1,2)] assms(3)] by blast
qed

theorem displaced_content_is_held_witness:
  "\<exists>result s' store'. apply_op (small_disk no_locks) (fs_ops demo_plan ! 0) ''h'' demo_bytes demo_store = (result, s', store')
     \<and> changes_row result \<and> held_at (disk_world 6 demo_bytes) demo_ancestor (fs_ops demo_plan ! 0)"
proof -
  let ?op = "fs_ops demo_plan ! 0"
  have stage: "d_stage (small_disk no_locks) ?op demo_bytes = (Inr None, demo_bytes)" by (simp add: small_disk_def)
  have op: "?op \<in> set (fs_ops demo_plan)" by (simp add: demo_plan_def)
  obtain result s' store' where run: "apply_op (small_disk no_locks) ?op ''h'' demo_bytes demo_store = (result, s', store')"
    by (metis prod_cases3)
  have "changes_row (fst (apply_op (small_disk no_locks) ?op ''h'' demo_bytes demo_store))" by code_simp
  then have "changes_row result" using run by simp
  with displaced_content_is_held[OF demo_classify op demo_rows_complete run stage] run show ?thesis
    by (auto simp: small_disk_def)
qed

text \<open>The order of a plan. The windows in which a plan is applied hold its operations, all of
  them and once each, in an order in which deletes come before writes, a child is deleted before
  its directory, objects of a Git repository are written before the refs that may name them, and
  a directory is written before what is in it where the rank does not decide.\<close>

theorem operations_in_order:
  "mset (concat (apply_windows (ordered_ops ops))) = mset ops
   \<and> sorted_wrt (\<lambda>a b. \<not> must_precede b a) (concat (apply_windows (ordered_ops ops)))
   \<and> list_all (\<lambda>window. window \<noteq> [] \<and> length window \<le> 16) (apply_windows (ordered_ops ops))"
proof -
  have "list_all (\<lambda>window. window \<noteq> [] \<and> length window \<le> 16) (apply_windows (ordered_ops ops))"
    using windows_from_bounds[of "[]"] by (auto simp: list_all_iff apply_windows_def APPLY_WINDOW_MAX_FILES_def)
  then show ?thesis
    by (simp add: apply_windows_def windows_from_concat ordered_ops_mset ordered_ops_order)
qed

text \<open>C16. A deferred path keeps its base. When the operation of a path was held back by a Git
  lock, its ancestor row is what it was, and the applied head stays at the prior head, so that
  the next pull decides the path again; what was decided for the other paths is committed.\<close>

theorem deferred_path_keeps_base:
  assumes "classify debug w ancestor remote clashes scope = Inr plan"
    and "apply_plan disk plan key version s store = (Inr outcome, s', store')"
    and "bt_ok (st_files store)" and "bt_ok (st_intents store)" and "frontier_ok (st_state store)"
    and "stamps_only disk" and "path \<in> po_deferred outcome"
  shows "map_of (st_files store') path = map_of (st_files store) path
    \<and> applied_manifest_key (st_state store') = applied_manifest_key (st_state store)
    \<and> last_ref_version (st_state store') = last_ref_version (st_state store)"
proof -
  have ok: "bt_ok (ancestor_upserts plan)" using classify_plan_ok[OF assms(1)] by (simp add: plan_ok_def)
  obtain run s1 mid where run: "base_kept run"
      "only_intents (set (ar_intent_ids run)) (record_unsyncable (plan_unsyncable plan) {} store) mid"
      "po_deferred outcome = po_deferred (ar_outcome run)"
      "commit_pull_outcome ((ar_commit run)\<lparr>ac_upserts := d_prove disk s1 (ac_upserts (ar_commit run))\<rparr>)
        (head_advance (st_state store) outcome key version) (Some (key, version)) (ar_intent_ids run) (po_push_again outcome)
        (record_unsyncable (po_unsyncable (ar_outcome run)) {} mid) = Inr store'"
    using apply_plan_run[OF assms(2) ok plan_paths_distinct[OF assms(1)] assms(4)] by metis
  let ?commit = "(ar_commit run)\<lparr>ac_upserts := d_prove disk s1 (ac_upserts (ar_commit run))\<rparr>"
  have mid: "st_files mid = st_files store" "st_state mid = st_state store"
    using run(2) by (simp_all add: only_intents_def record_unsyncable_def)
  have files: "apply_ancestor ?commit (st_files store) = Inr (st_files store')"
    using commit_pull_outcome_ok(3)[OF run(4)] mid by (simp add: record_unsyncable_def)
  have "map fst (ac_upserts ?commit) = map fst (ac_upserts (ar_commit run))"
    using assms(6) by (simp add: stamps_only_def)
  then have "map_of (ac_upserts ?commit) path = None" "path \<notin> ac_removals ?commit"
    using run(1,3) assms(7) by (auto simp: base_kept_def map_of_eq_None_iff simp flip: set_map)
  then have row: "map_of (st_files store') path = map_of (st_files store) path"
    by (rule map_of_apply_ancestor[OF assms(3) _ _ files])
  have "head_advance (st_state store) outcome key version =
      (case (applied_manifest_key (st_state store), last_ref_version (st_state store)) of (Some k, Some v) \<Rightarrow> Some (k, v) | _ \<Rightarrow> None)"
    using assms(7) by (auto simp: head_advance_def)
  then show ?thesis
    using row run(4) mid assms(5)
    by (auto simp: commit_pull_outcome_def record_unsyncable_def Let_def set_applied_def advance_materialization_revision_def
        map_sum_Inr advance_verified_ratchet_def frontier_ok_def to_i64_def split: sum.splits option.splits if_splits)
qed

text \<open>A ref of a Git repository is updated while Git holds its locks.\<close>

definition ref_remote :: remote_entries where
  "ref_remote = [(''r/.git/HEAD'', demo_entry ''y'')]"

definition ref_store :: manifest_store where
  "ref_store = demo_store\<lparr>st_files := [(''r/.git/HEAD'', demo_row ''x'')]\<rparr>"

definition ref_plan :: MergePlan where
  "ref_plan = \<lparr>fs_ops = [\<lparr>op_path = ''r/.git/HEAD'', op_kind = Op_Install (demo_entry ''y''),
       op_expected = preimage_from_record (demo_row ''x'')\<rparr>],
     ancestor_upserts = [], ancestor_removals = {}, plan_push_again = {}, plan_unsyncable = []\<rparr>"

definition ref_bytes :: files where
  "ref_bytes = [''r/.git/HEAD'' \<mapsto> ''x'']"

lemma ref_classify:
  "classify False (disk_world 6 ref_bytes) (st_files ref_store) ref_remote [] WholeAncestor = Inr ref_plan"
  by code_simp

lemma ref_store_ok: "bt_ok (st_files ref_store)" "bt_ok (st_intents ref_store)" "frontier_ok (st_state ref_store)"
  by (simp_all add: ref_store_def demo_store_def frontier_ok_def EngineState_default_def bt_ok_def)

lemma ref_is_locked: "fst (is_active locked_refs ''r/.git/HEAD'' GitLockCache_default)"
proof -
  have "git_dir_for ''r/.git/HEAD'' = Some ''r/.git''" by code_simp
  then show ?thesis
    by (simp add: is_active_def GitLockCache_default_def locked_refs_def u32_MAX_def GIT_LOCK_REPROBE_OPS_def Let_def)
qed

lemma ref_apply:
  obtains outcome s' store' where "apply_plan (small_disk locked_refs) ref_plan ''h'' 5 ref_bytes ref_store = (Inr outcome, s', store')"
    and "po_deferred outcome = {''r/.git/HEAD''}"
proof -
  let ?result = "apply_plan (small_disk locked_refs) ref_plan ''h'' 5 ref_bytes ref_store"
  obtain locks where "is_active locked_refs ''r/.git/HEAD'' GitLockCache_default = (True, locks)"
    using ref_is_locked by (metis prod.collapse)
  then have "map_sum id po_deferred (fst ?result) = Inr {''r/.git/HEAD''}"
    by (simp add: apply_plan_def ref_plan_def ref_store_def demo_store_def engine_state_def applied_ref_def EngineState_default_def
        ordered_ops_def is_delete_def apply_windows_def AUX_INDEX_PATH_def small_disk_def defer_op_def PullOutcome_default_def
        head_advance_def record_unsyncable_def commit_pull_outcome_def to_i64_def i64_MAX_def set_applied_def
        next_materialization_revision_def advance_verified_ratchet_def APPLY_WINDOW_MAX_FILES_def apply_ancestor_def Let_def)
  then show thesis using that by (cases ?result) (auto simp: map_sum_Inr)
qed

theorem deferred_path_keeps_base_witness:
  "\<exists>outcome s' store'. apply_plan (small_disk locked_refs) ref_plan ''h'' 5 ref_bytes ref_store = (Inr outcome, s', store')
     \<and> po_deferred outcome = {''r/.git/HEAD''} \<and> map_of (st_files store') ''r/.git/HEAD'' = Some (demo_row ''x'')"
proof -
  obtain outcome s' store' where run: "apply_plan (small_disk locked_refs) ref_plan ''h'' 5 ref_bytes ref_store = (Inr outcome, s', store')"
    and deferred: "po_deferred outcome = {''r/.git/HEAD''}"
    by (rule ref_apply)
  show ?thesis
    using deferred_path_keeps_base[OF ref_classify run ref_store_ok small_disk_stamps, of "''r/.git/HEAD''"] run deferred
    by (auto simp: ref_store_def)
qed

text \<open>C17. The outcome of a plan is one durable step. When a plan has been applied, every path that
  the merge or the application kept for the next push is queued and nothing queued before is
  lost, every intent opened on the way is retired and no other is touched, the freshness ratchet
  has not moved back, and the applied head is the incoming one when no path was deferred.\<close>

theorem plan_outcome_is_durable:
  assumes "classify debug w ancestor remote clashes scope = Inr plan"
    and "apply_plan disk plan key version s store = (Inr outcome, s', store')"
    and "bt_ok (st_intents store)" and "frontier_ok (st_state store)"
  shows "plan_push_again plan \<union> po_push_again outcome \<union> st_pending_push store = st_pending_push store'
    \<and> map_of (st_intents store') \<subseteq>\<^sub>m map_of (st_intents store)
    \<and> frontier_ok (st_state store') \<and> ratchet_le (st_state store) (st_state store')
    \<and> (po_deferred outcome = {} \<longrightarrow>
         applied_ref (st_state store') = Inr (Head \<lparr>ref_version = version, ref_manifest_key = key\<rparr>))"
proof -
  have ok: "bt_ok (ancestor_upserts plan)" using classify_plan_ok[OF assms(1)] by (simp add: plan_ok_def)
  obtain run :: apply_run and s1 mid where run: "plan_push_again plan \<subseteq> po_push_again outcome"
      "only_intents (set (ar_intent_ids run)) (record_unsyncable (plan_unsyncable plan) {} store) mid"
      "commit_pull_outcome ((ar_commit run)\<lparr>ac_upserts := d_prove disk s1 (ac_upserts (ar_commit run))\<rparr>)
        (head_advance (st_state store) outcome key version) (Some (key, version)) (ar_intent_ids run) (po_push_again outcome)
        (record_unsyncable (po_unsyncable (ar_outcome run)) {} mid) = Inr store'"
    using apply_plan_run[OF assms(2) ok plan_paths_distinct[OF assms(1)] assms(3)] by metis
  have mid: "st_pending_push mid = st_pending_push store" "st_state mid = st_state store"
      "\<And>p. p \<notin> set (ar_intent_ids run) \<Longrightarrow> map_of (st_intents mid) p = map_of (st_intents store) p"
    using run(2) by (simp_all add: only_intents_def record_unsyncable_def)
  note committed = commit_pull_outcome_ok[OF run(3)]
  have "map_of (st_intents store') \<subseteq>\<^sub>m map_of (st_intents store)"
    using committed(2) mid(3) by (auto simp: map_le_def record_unsyncable_def map_of_filter_fst split: if_splits)
  moreover have "frontier_ok (st_state store') \<and> ratchet_le (st_state store) (st_state store')
    \<and> (po_deferred outcome = {} \<longrightarrow>
         applied_ref (st_state store') = Inr (Head \<lparr>ref_version = version, ref_manifest_key = key\<rparr>))"
    using mid(2) assms(4) by (intro commit_pull_frontier[OF run(3)]) (simp_all add: record_unsyncable_def)
  ultimately show ?thesis using run(1) mid(1) committed(1) by (auto simp: record_unsyncable_def)
qed

theorem plan_outcome_is_durable_witness:
  "\<exists>outcome s' store'. apply_plan (small_disk locked_refs) ref_plan ''h'' 5 ref_bytes ref_store = (Inr outcome, s', store')
     \<and> map_of (st_intents store') = Map.empty \<and> ratchet_le (st_state ref_store) (st_state store')"
proof -
  obtain outcome s' store' where run: "apply_plan (small_disk locked_refs) ref_plan ''h'' 5 ref_bytes ref_store = (Inr outcome, s', store')"
    by (rule ref_apply)
  have durable: "map_of (st_intents store') \<subseteq>\<^sub>m map_of (st_intents ref_store)" "ratchet_le (st_state ref_store) (st_state store')"
    using plan_outcome_is_durable[OF ref_classify run ref_store_ok(2,3)] by blast+
  have "map_of (st_intents ref_store) = Map.empty" by (simp add: ref_store_def demo_store_def)
  with durable(1) have "map_of (st_intents store') = Map.empty" by (metis map_le_antisym map_le_empty)
  with run durable(2) show ?thesis by blast
qed

end
