(* ===== verification/Recovery_Guarantees.thy ===== *)
theory Recovery_Guarantees
  imports Pull_Recovery Apply_Guarantees
begin

text \<open>What crash recovery of a pull leaves alone, and that it comes to an end.\<close>

section \<open>Lemmas\<close>

definition intents_keyed :: "manifest_store \<Rightarrow> bool" where
  "intents_keyed store \<longleftrightarrow> list_all (\<lambda>(path, intent). in_path intent = path) (st_intents store)"

lemma intents_keyed_open: "intents_keyed store \<Longrightarrow> intents_keyed (open_intent intent store)"
proof -
  have "list_all (\<lambda>(path, intent). in_path intent = path) m \<Longrightarrow>
      list_all (\<lambda>(path, intent). in_path intent = path) (bt_insert (in_path intent) intent m)" for m
    by (induction m) auto
  then show "intents_keyed store \<Longrightarrow> intents_keyed (open_intent intent store)"
    by (simp add: intents_keyed_def open_intent_def)
qed

lemma pending_paths: "intents_keyed store \<Longrightarrow> map in_path (pending_intents store) = map fst (st_intents store)"
  by (auto simp: intents_keyed_def pending_intents_def list_all_iff)

text \<open>A boundary at which recovery writes was reached from an absent target or a matching preimage.\<close>

lemma reapply_boundary:
  assumes "recovery_action (recovery_boundary operation facts) \<in> {Reapply, RestoreOrComplete}"
  shows "\<not> target_present facts \<or> target_matches_preimage facts"
  using assms by (auto simp: recovery_boundary_def split: IntentOperationKind.splits if_splits)

lemma finalize_boundary:
  assumes "recovery_action (recovery_boundary operation facts) \<in> {FinalizeInstalled, FinalizeDeleted}" "target_present facts"
  shows "target_matches_target_record facts \<and> recovery_boundary operation facts = InstalledIntent"
  using assms by (auto simp: recovery_boundary_def split: IntentOperationKind.splits if_splits)

lemma recover_each_ids:
  "recover_each disk intents run s = (Inr run', s') \<Longrightarrow>
     rr_intent_ids run' = rr_intent_ids run @ map in_path intents"
  by (induction intents arbitrary: run s)
     (auto simp: Let_def split: prod.splits sum.splits ReplayVerdict.splits)

lemma recover_each_error:
  "recover_each disk intents run s = (Inl e, s') \<Longrightarrow> replay_verdict e = Replay_Retry"
  by (induction intents arbitrary: run s)
     (auto simp: Let_def split: prod.splits sum.splits ReplayVerdict.splits)

lemma commit_recovery_frontier:
  assumes "commit_pull_outcome commit None None ids push_again store = Inr store'"
  shows "same_frontier (st_state store') (st_state store)"
  using assms held_head_same_frontier(2)[of "st_state store"]
  by (auto simp: commit_pull_outcome_def Let_def same_frontier_def split: sum.splits if_splits)

section \<open>Properties\<close>

text \<open>C15. A target that was modified while the process was down is left alone. When what recovery
  finds at the path of an intent is present and is not the preimage of the intent, recovery does
  not write to the disk, and it commits a row for the path only when the object already is the
  target of the intent.\<close>

theorem modified_target_is_untouched:
  assumes "observe_syncable (d_world disk s) (in_path intent) = Inr (Some observed)"
    and "intent_target disk intent = Inr target" and "intent_preimage disk intent = Inr expected"
    and "preimage_matches (d_world disk s) (in_path intent) expected (Some observed) = Inr False"
    and "recover_one disk intent commit keep s = (result, keep', s')"
  shows "s' = s \<and> (\<forall>commit'. result = Inr commit' \<longrightarrow> commit' = commit
    \<or> target_matches (d_world disk s) (in_path intent) target (Some observed) = Inr True
      \<and> finalize_installed (d_world disk s) (in_path intent) target commit = Inr commit')"
proof (cases "recovery_facts disk (in_path intent) target expected (Some observed) intent s")
  case (Inl e)
  then show ?thesis using assms by (auto simp: recover_one_def)
next
  case (Inr facts)
  let ?boundary = "recovery_boundary (in_operation_kind intent) facts"
  have facts: "target_present facts" "\<not> target_matches_preimage facts"
      "target_matches_target_record facts \<Longrightarrow>
        target_matches (d_world disk s) (in_path intent) target (Some observed) = Inr True"
    using Inr assms(4) by (auto simp: recovery_facts_def split: sum.splits)
  have run: "execute_recovery disk intent target ?boundary commit s = (result, s')"
    using assms Inr by (auto simp: recover_one_def Let_def split: prod.splits)
  have "recovery_action ?boundary \<notin> {Reapply, RestoreOrComplete}"
    using reapply_boundary facts(1,2) by blast
  then show ?thesis
    using run finalize_boundary[OF _ facts(1), of "in_operation_kind intent"] facts(3)
    by (cases "recovery_action ?boundary") (auto simp: execute_recovery_def)
qed

text \<open>An install that was open when the process died; its path has been written since.\<close>

definition open_install :: Intent where
  "open_install = \<lparr>in_path = ''a'', in_operation_kind = Intent_Install, in_temp_name = None,
     in_expected_preimage = Some ''p'', in_target_record = Some ''t'', in_preserved_preimage = None,
     in_target_manifest_key = Some ''h'', in_created_at = 0\<rparr>"

definition journal_disk :: "files disk" where
  "journal_disk = (small_disk no_locks)\<lparr>
     d_decode_preimage := (\<lambda>_. Some (preimage_from_record (demo_row ''x''))),
     d_decode_target := (\<lambda>_. Some (entry_to_target Tag_Install (demo_entry ''y'')))\<rparr>"

lemma journal_disk_decodes:
  "d_world journal_disk = disk_world 6"
  "intent_target journal_disk open_install = Inr (entry_to_target Tag_Install (demo_entry ''y''))"
  "intent_preimage journal_disk open_install = Inr (preimage_from_record (demo_row ''x''))"
  by (simp_all add: journal_disk_def small_disk_def intent_target_def intent_preimage_def decode_or_def open_install_def)

theorem modified_target_is_untouched_witness:
  "\<exists>result keep'. recover_one journal_disk open_install AncestorCommit_default {} raced_files = (result, keep', raced_files)
     \<and> (\<forall>commit'. result = Inr commit' \<longrightarrow> commit' = AncestorCommit_default)"
proof -
  have seen: "observe_syncable (d_world journal_disk raced_files) (in_path open_install) = Inr (Some (demo_file 6))"
    unfolding journal_disk_decodes by code_simp
  have other: "preimage_matches (d_world journal_disk raced_files) (in_path open_install)
      (preimage_from_record (demo_row ''x'')) (Some (demo_file 6)) = Inr False"
    unfolding journal_disk_decodes by code_simp
  have "target_matches (d_world journal_disk raced_files) (in_path open_install)
      (entry_to_target Tag_Install (demo_entry ''y'')) (Some (demo_file 6)) \<noteq> Inr True"
    unfolding journal_disk_decodes by code_simp
  moreover obtain result keep' s' where
    run: "recover_one journal_disk open_install AncestorCommit_default {} raced_files = (result, keep', s')"
    by (metis prod_cases3)
  ultimately show ?thesis
    using modified_target_is_untouched[OF seen journal_disk_decodes(2,3) other run] run by blast
qed


definition journal_store :: manifest_store where
  "journal_store = demo_store\<lparr>st_intents := [(''a'', open_install)]\<rparr>"


end
