(* ===== verification/Stat_Trust.thy ===== *)
theory Stat_Trust
  imports Engine_Types
begin

text \<open>
  When a stat alone settles that a file is unchanged, \<^verbatim>\<open>endpoint.rs\<close>: timestamps at the
  resolution of the volume, the instant of the volume's own clock that proves a row, and the
  spelling a path is published under. The clock of the volume and the Unicode normalization are
  arguments.
\<close>

section \<open>Timestamps\<close>

definition i64_max :: i64 where
  "i64_max = 9223372036854775807"

definition i64_min :: i64 where
  "i64_min = - 9223372036854775808"

definition saturating_mul_i64 :: "i64 \<Rightarrow> i64 \<Rightarrow> i64" where
  "saturating_mul_i64 a b = max i64_min (min i64_max (a * b))"

type_synonym TimestampGranularity = i64

definition NANOSECOND :: TimestampGranularity where
  "NANOSECOND = 1"

definition SECOND :: TimestampGranularity where
  "SECOND = 1000000000"

definition TWO_SECONDS :: TimestampGranularity where
  "TWO_SECONDS = 2000000000"

text \<open>Euclidean division by a positive granularity is the division of HOL, which rounds down.\<close>

definition bucket :: "TimestampGranularity \<Rightarrow> i64 \<Rightarrow> i64" where
  "bucket granularity nanos = saturating_mul_i64 (nanos div granularity) granularity"

definition indistinguishable :: "TimestampGranularity \<Rightarrow> i64 \<Rightarrow> i64 \<Rightarrow> bool" where
  "indistinguishable granularity left right \<longleftrightarrow> bucket granularity left = bucket granularity right"

lemma saturating_mul_mono: "0 \<le> c \<Longrightarrow> a \<le> b \<Longrightarrow> saturating_mul_i64 a c \<le> saturating_mul_i64 b c"
  using mult_right_mono[of a b c] by (simp add: saturating_mul_i64_def)

lemma bucket_mono: "0 < g \<Longrightarrow> a \<le> b \<Longrightarrow> bucket g a \<le> bucket g b"
  by (simp add: bucket_def saturating_mul_mono zdiv_mono1)

lemma bucket_below: "0 < g \<Longrightarrow> bucket g a < bucket g b \<Longrightarrow> a < b"
  using bucket_mono[of g b a] by linarith

text \<open>Within the range of the type the start of a bucket is at most its granularity away.\<close>

lemma bucket_bounds:
  assumes "0 < g" and "i64_min + g \<le> n" and "n \<le> i64_max"
  shows "bucket g n \<le> n \<and> n < bucket g n + g"
proof -
  have "n div g * g = n - n mod g" by (simp add: minus_mod_eq_div_mult)
  moreover have "0 \<le> n mod g" "n mod g < g" using assms(1) by simp_all
  ultimately show ?thesis using assms unfolding bucket_def saturating_mul_i64_def by linarith
qed

section \<open>Trust in a stat\<close>

datatype StatTrust = OutsideRacyWindow TimestampGranularity | Trust_Never

definition same_stat :: "TimestampGranularity \<Rightarrow> FileRecord \<Rightarrow> Observed \<Rightarrow> bool" where
  "same_stat granularity r observed =
     (let recorded = fr_fingerprint r; seen = ob_fingerprint observed
      in inode recorded = inode seen \<and> dev recorded = dev seen
         \<and> indistinguishable granularity (mtime_ns recorded) (mtime_ns seen)
         \<and> indistinguishable granularity (ctime_ns recorded) (ctime_ns seen))"

fun settles :: "StatTrust \<Rightarrow> FileRecord \<Rightarrow> Observed \<Rightarrow> bool" where
  "settles Trust_Never r observed = False"
| "settles (OutsideRacyWindow granularity) r observed =
     (case fr_verified_at r of
        None \<Rightarrow> False
      | Some verified_at \<Rightarrow>
          same_stat granularity r observed
          \<and> bucket granularity (ctime_ns (ob_fingerprint observed)) < bucket granularity verified_at)"

section \<open>Proving rows\<close>

definition content_matches_record :: "world \<Rightarrow> WorkspacePath \<Rightarrow> Observed \<Rightarrow> FileRecord \<Rightarrow> bool" where
  "content_matches_record w path observed r =
     (case (fr_content_id r, fr_key_epoch r) of
        (Some expected_content_id, Some key_epoch) \<Rightarrow>
          (case w_read w path (expected_file observed) of
             Inr (Read_Bytes bytes) \<Rightarrow>
               w_content_id_at w key_epoch bytes = Some expected_content_id \<and> length bytes = ob_size observed
           | _ \<Rightarrow> False)
      | _ \<Rightarrow> False)"

definition prove_row :: "world \<Rightarrow> TimestampGranularity \<Rightarrow> i64 \<Rightarrow> WorkspacePath \<Rightarrow> FileRecord \<Rightarrow> i64 option" where
  "prove_row w granularity sampled path r =
     (if bucket granularity (ctime_ns (fr_fingerprint r)) \<ge> bucket granularity sampled then None
      else (case w_observe w path of
          Observe_Present observed \<Rightarrow>
            if ob_kind observed \<noteq> fr_kind r \<or> ob_size observed \<noteq> fr_size r \<or> ob_mode observed \<noteq> fr_mode r
               \<or> ob_symlink_target observed \<noteq> fr_symlink_target r \<or> \<not> same_stat granularity r observed
            then None
            else if granularity \<noteq> NANOSECOND \<and> fr_kind r = Kind_File \<and> \<not> content_matches_record w path observed r
            then None
            else Some sampled
        | _ \<Rightarrow> None))"

text \<open>Without a reading of the clock the rows stay as they are.\<close>

definition stamp_row :: "world \<Rightarrow> TimestampGranularity \<Rightarrow> i64 option \<Rightarrow> WorkspacePath \<Rightarrow> FileRecord \<Rightarrow> FileRecord" where
  "stamp_row w granularity clock path r =
     (case clock of
        None \<Rightarrow> r
      | Some sampled \<Rightarrow> r\<lparr>fr_verified_at := prove_row w granularity sampled path r\<rparr>)"

definition prove_rows ::
  "world \<Rightarrow> TimestampGranularity \<Rightarrow> i64 option \<Rightarrow> (WorkspacePath \<times> FileRecord) list \<Rightarrow> (WorkspacePath \<times> FileRecord) list" where
  "prove_rows w granularity clock rows = map (\<lambda>(path, r). (path, stamp_row w granularity clock path r)) rows"

lemma prove_rows_paths [simp]: "map fst (prove_rows w g clock rows) = map fst rows"
  by (simp add: prove_rows_def case_prod_beta)

lemma stamp_row_entry [simp]: "file_record_to_entry (stamp_row w g clock path r) = file_record_to_entry r"
  by (cases clock; cases "fr_kind r") (simp_all add: stamp_row_def file_record_to_entry_def split: option.split)

section \<open>Names\<close>

datatype NormalizationForm = Normalization_Insensitive | Normalization_Sensitive

datatype CaseForm = Case_Insensitive | Case_Sensitive

record NameFolding =
  nf_normalization :: NormalizationForm
  nf_case :: CaseForm

definition EXACT :: NameFolding where
  "EXACT = \<lparr>nf_normalization = Normalization_Sensitive, nf_case = Case_Sensitive\<rparr>"

text \<open>\<open>nfc\<close> and \<open>lower\<close> are the Unicode functions of the crates.\<close>

definition nfc_path :: "(string \<Rightarrow> string) \<Rightarrow> WorkspacePath \<Rightarrow> WorkspacePath" where
  "nfc_path nfc path = (if nfc path = path then path else nfc path)"

definition canonical_spelling :: "(string \<Rightarrow> string) \<Rightarrow> NameFolding \<Rightarrow> WorkspacePath \<Rightarrow> WorkspacePath" where
  "canonical_spelling nfc fold_rules path =
     (case nf_normalization fold_rules of
        Normalization_Sensitive \<Rightarrow> path
      | Normalization_Insensitive \<Rightarrow> nfc_path nfc path)"

definition fold_name :: "(string \<Rightarrow> string) \<Rightarrow> (string \<Rightarrow> string) \<Rightarrow> NameFolding \<Rightarrow> string \<Rightarrow> string" where
  "fold_name nfc lower fold_rules path =
     (let normalized = (case nf_normalization fold_rules of
            Normalization_Sensitive \<Rightarrow> path
          | Normalization_Insensitive \<Rightarrow> nfc path)
      in case nf_case fold_rules of
           Case_Sensitive \<Rightarrow> normalized
         | Case_Insensitive \<Rightarrow> lower normalized)"

section \<open>What a settled stat says\<close>

text \<open>
  A row that was proved and settles an observation later: the inode last changed strictly
  before the instant at which the volume's clock was read for the proof, and at that time the
  object at the path had the kind, size, mode and stat of the row.
\<close>

lemma settled_before_proof:
  assumes "prove_row w granularity sampled path r = Some proof_instant" and "0 < granularity"
    and "settles (OutsideRacyWindow granularity) (r\<lparr>fr_verified_at := Some proof_instant\<rparr>) observed"
  shows "ctime_ns (ob_fingerprint observed) < proof_instant \<and> proof_instant = sampled
    \<and> (\<exists>then_seen. w_observe w path = Observe_Present then_seen \<and> ob_kind then_seen = fr_kind r
        \<and> ob_size then_seen = fr_size r \<and> ob_mode then_seen = fr_mode r \<and> same_stat granularity r then_seen)"
  using assms bucket_below[OF assms(2)]
  by (auto simp: prove_row_def split: if_splits ObserveOutcome.splits)

section \<open>Trusted content\<close>

text \<open>
  What the kernel promises of a change time: an inode whose change time lies before a reading of
  the volume's clock has the bytes it had when the clock was read.
\<close>

definition ctime_dates_writes :: "TimestampGranularity \<Rightarrow> i64 \<Rightarrow> world \<Rightarrow> world \<Rightarrow> WorkspacePath \<Rightarrow> bool" where
  "ctime_dates_writes granularity sampled w w' path \<longleftrightarrow>
     (\<forall>observed bytes. w_observe w' path = Observe_Present observed
        \<longrightarrow> w_read w' path (expected_file observed) = Inr (Read_Bytes bytes)
        \<longrightarrow> bucket granularity (ctime_ns (ob_fingerprint observed)) < bucket granularity sampled
        \<longrightarrow> (\<forall>seen. w_observe w path = Observe_Present seen \<longrightarrow> w_read w path (expected_file seen) = Inr (Read_Bytes bytes)))"


text \<open>A volume with a resolution of two nanoseconds, a row proved at the instant 9, and the file
  as it was.\<close>

definition coarse_file :: Observed where
  "coarse_file = \<lparr>ob_kind = Kind_File, ob_size = 1, ob_mode = 6, ob_symlink_target = None,
     ob_fingerprint = \<lparr>mtime_ns = 4, ctime_ns = 5, inode = 1, dev = 1\<rparr>\<rparr>"

definition coarse_world :: world where
  "coarse_world = \<lparr>w_observe = (\<lambda>_. Observe_Present coarse_file), w_read = (\<lambda>_ _. Inr (Read_Bytes ''x'')),
     w_lstat = (\<lambda>_. Lstat_Other), w_content_id = (\<lambda>bytes. bytes), w_content_id_at = (\<lambda>_ bytes. Some bytes), w_now = 0\<rparr>"

definition coarse_row :: FileRecord where
  "coarse_row = \<lparr>fr_kind = Kind_File, fr_size = 1, fr_mode = 6, fr_symlink_target = None, fr_content_id = Some ''x'',
     fr_blob_key = Some ''b'', fr_key_epoch = Some 2, fr_fingerprint = \<lparr>mtime_ns = 4, ctime_ns = 4, inode = 1, dev = 1\<rparr>,
     fr_hashed_at = None, fr_verified_at = None\<rparr>"


end
