(* ===== verification/Push_Candidate.thy ===== *)
theory Push_Candidate
  imports Engine_Store Stat_Trust
begin

text \<open>
  The delta of a push, \<^verbatim>\<open>push/candidate.rs\<close> and the blob uploads of \<^verbatim>\<open>push.rs\<close>: the dirty paths are
  looked at one by one, in order, changed files are sealed and uploaded, and what is found
  becomes the candidate. The disk is seen through \<open>sc_world\<close> on a state that other programs may
  change between any two looks (\<open>sc_others\<close>) and that an upload may change (\<open>sc_put\<close>, which seals
  and stores the bytes and answers the key of the object).
\<close>

section \<open>The candidate\<close>

record Candidate =
  cd_upserts :: "(WorkspacePath, FileRecord \<times> ManifestEntry) btree_map"
  cd_removals :: "WorkspacePath set"
  cd_local_refreshes :: ancestor_rows
  cd_unsyncable :: "(WorkspacePath, UnsyncableRecord) btree_map"
  cd_skipped :: "WorkspacePath set"
  cd_scanned :: "WorkspacePath set"

definition Candidate_default :: Candidate where
  "Candidate_default = \<lparr>cd_upserts = [], cd_removals = {}, cd_local_refreshes = [], cd_unsyncable = [],
     cd_skipped = {}, cd_scanned = {}\<rparr>"

definition Candidate_is_empty :: "Candidate \<Rightarrow> bool" where
  "Candidate_is_empty candidate \<longleftrightarrow> cd_upserts candidate = [] \<and> cd_removals candidate = {}"

definition ancestor_commit :: "Candidate \<Rightarrow> AncestorCommit" where
  "ancestor_commit candidate =
     \<lparr>ac_upserts = fold (\<lambda>(path, r, _). bt_insert path r) (cd_upserts candidate) (cd_local_refreshes candidate),
      ac_removals = cd_removals candidate\<rparr>"

definition settled_paths :: "Candidate \<Rightarrow> WorkspacePath set" where
  "settled_paths candidate =
     {path \<in> cd_scanned candidate. path \<notin> cd_skipped candidate \<and> map_of (cd_unsyncable candidate) path = None}"

definition is_descendant :: "WorkspacePath \<Rightarrow> WorkspacePath \<Rightarrow> bool" where
  "is_descendant path root \<longleftrightarrow> prefix root path \<and> prefix [slash] (drop (length root) path)"

definition replaces_directory :: "ancestor_rows \<Rightarrow> WorkspacePath \<Rightarrow> ManifestEntry \<Rightarrow> bool" where
  "replaces_directory ancestor path entry \<longleftrightarrow>
     (case map_of ancestor path of Some r \<Rightarrow> fr_kind r = Kind_Directory | None \<Rightarrow> False)
     \<and> (case entry of Directory _ \<Rightarrow> False | _ \<Rightarrow> True)"

definition destructive_roots :: "Candidate \<Rightarrow> ancestor_rows \<Rightarrow> WorkspacePath set" where
  "destructive_roots candidate ancestor =
     cd_removals candidate
     \<union> set (map fst (filter (\<lambda>(path, _, entry). replaces_directory ancestor path entry) (cd_upserts candidate)))"

definition is_below_destructive_root :: "WorkspacePath set \<Rightarrow> WorkspacePath \<Rightarrow> bool" where
  "is_below_destructive_root roots path \<longleftrightarrow> (\<exists>root \<in> roots. path \<noteq> root \<and> is_descendant path root)"

definition expand_subtree_removals :: "Candidate \<Rightarrow> ancestor_rows \<Rightarrow> Candidate" where
  "expand_subtree_removals candidate ancestor =
     (let roots = destructive_roots candidate ancestor;
          gone = is_below_destructive_root roots
      in if roots = {} then candidate
         else candidate\<lparr>
           cd_removals := cd_removals candidate \<union> set (filter gone (map fst ancestor)),
           cd_upserts := filter (\<lambda>(path, _). \<not> gone path) (cd_upserts candidate),
           cd_local_refreshes := filter (\<lambda>(path, _). \<not> gone path) (cd_local_refreshes candidate)\<rparr>)"

section \<open>Scanning one path\<close>

datatype PathScan =
    Scan_Upsert FileRecord ManifestEntry
  | Scan_Remove
  | Scan_LocalRefresh FileRecord
  | Scan_Settled
  | Scan_Retry
  | Scan_Unsyncable UnsyncableRecord

datatype ScanResult =
    Result_Entry FileRecord ManifestEntry
  | Result_LocalRefresh FileRecord
  | Result_Unchanged
  | Result_Diverged
  | Result_Unsyncable UnsyncableRecord

definition directory_candidate :: "Observed \<Rightarrow> FileRecord \<times> ManifestEntry" where
  "directory_candidate observed =
     (\<lparr>fr_kind = Kind_Directory, fr_size = 0, fr_mode = ob_mode observed, fr_symlink_target = None,
       fr_content_id = None, fr_blob_key = None, fr_key_epoch = None, fr_fingerprint = ob_fingerprint observed,
       fr_hashed_at = None, fr_verified_at = None\<rparr>,
      Directory (ob_mode observed))"

definition link_target :: "Observed \<Rightarrow> string" where
  "link_target observed = (case ob_symlink_target observed of Some target \<Rightarrow> target | None \<Rightarrow> [])"

definition symlink_candidate :: "Observed \<Rightarrow> FileRecord \<times> ManifestEntry" where
  "symlink_candidate observed =
     (\<lparr>fr_kind = Kind_Symlink, fr_size = 0, fr_mode = ob_mode observed, fr_symlink_target = Some (link_target observed),
       fr_content_id = None, fr_blob_key = None, fr_key_epoch = None, fr_fingerprint = ob_fingerprint observed,
       fr_hashed_at = None, fr_verified_at = None\<rparr>,
      Symlink (ob_mode observed) (link_target observed))"

definition directory_scan :: "Observed \<Rightarrow> FileRecord option \<Rightarrow> ScanResult" where
  "directory_scan observed ancestor_row =
     (if (case ancestor_row of
          Some r \<Rightarrow> fr_kind r = Kind_Directory \<and> fr_mode r = ob_mode observed
        | None \<Rightarrow> False)
      then Result_Unchanged
      else case_prod Result_Entry (directory_candidate observed))"

definition symlink_scan :: "i64 \<Rightarrow> WorkspacePath \<Rightarrow> Observed \<Rightarrow> FileRecord option \<Rightarrow> ScanResult" where
  "symlink_scan now path observed ancestor_row =
     (if \<not> symlink_target_stays_in_workspace path (link_target observed)
      then Result_Unsyncable (UnsyncableRecord_new EscapingSymlinkTarget None now)
      else if (case ancestor_row of
          Some r \<Rightarrow> fr_kind r = Kind_Symlink \<and> fr_mode r = ob_mode observed
            \<and> fr_symlink_target r = Some (link_target observed)
        | None \<Rightarrow> False)
      then Result_Unchanged
      else case_prod Result_Entry (symlink_candidate observed))"

definition read_rejection :: "i64 \<Rightarrow> PushError \<Rightarrow> PushError + UnsyncableRecord" where
  "read_rejection now error =
     (case error of
        StreamSealUnsupported _ _ \<Rightarrow> Inr (UnsyncableRecord_new AboveSealCeiling None now)
      | Push_Io error \<Rightarrow> Inr (UnsyncableRecord_new (path_scoped_reason error) (raw_os_error error) now)
      | other \<Rightarrow> Inl other)"

section \<open>Uploading a blob\<close>

record 's scanner =
  sc_world :: "'s \<Rightarrow> world"
  sc_others :: "'s \<Rightarrow> 's"
  sc_put :: "ContentId \<Rightarrow> string \<Rightarrow> 's \<Rightarrow> (PushError + BlobKey) \<times> 's"
  sc_clock :: "'s \<Rightarrow> i64 option \<times> 's"
  sc_key_epoch :: KeyEpoch
  sc_large_file_threshold :: u64
  sc_timestamps :: TimestampGranularity
  sc_project_view :: bool
  sc_canonical :: "WorkspacePath \<Rightarrow> WorkspacePath"

text \<open>The ledger: the rows of the store under what this push uploaded.\<close>

record BlobLedger =
  bl_store :: manifest_store
  bl_key_epoch :: KeyEpoch
  bl_fresh :: "(ContentId, SealedBlob) btree_map"

definition BlobLedger_new :: "manifest_store \<Rightarrow> KeyEpoch \<Rightarrow> BlobLedger" where
  "BlobLedger_new store key_epoch = \<lparr>bl_store = store, bl_key_epoch = key_epoch, bl_fresh = []\<rparr>"

definition BlobLedger_known :: "BlobLedger \<Rightarrow> ContentId \<Rightarrow> BlobKey option" where
  "BlobLedger_known ledger content_id =
     (case map_of (bl_fresh ledger) content_id of
        Some blob \<Rightarrow> Some (sb_blob_key blob)
      | None \<Rightarrow> map_option sb_blob_key (sealed_blob (bl_store ledger) content_id (bl_key_epoch ledger)))"

definition BlobLedger_record :: "ContentId \<Rightarrow> BlobKey \<Rightarrow> u64 \<Rightarrow> BlobLedger \<Rightarrow> BlobLedger" where
  "BlobLedger_record content_id blob_key byte_len ledger =
     ledger\<lparr>bl_fresh := bt_insert content_id
       \<lparr>sb_blob_key = blob_key, sb_key_epoch = bl_key_epoch ledger, sb_byte_len = byte_len\<rparr> (bl_fresh ledger)\<rparr>"

definition upload_file_blob ::
  "'s scanner \<Rightarrow> ContentId \<Rightarrow> string \<Rightarrow> BlobLedger \<Rightarrow> 's \<Rightarrow> (PushError + BlobKey \<times> BlobLedger) \<times> 's" where
  "upload_file_blob sc content_id plaintext ledger s =
     (case BlobLedger_known ledger content_id of
        Some existing \<Rightarrow> (Inr (existing, ledger), s)
      | None \<Rightarrow>
          (case sc_put sc content_id plaintext s of
             (Inl e, s) \<Rightarrow> (Inl e, s)
           | (Inr key, s) \<Rightarrow> (Inr (key, BlobLedger_record content_id key (length plaintext) ledger), s)))"

definition upload_file_blob_segmented ::
  "'s scanner \<Rightarrow> WorkspacePath \<Rightarrow> ExpectedFile \<Rightarrow> ContentId \<Rightarrow> BlobLedger \<Rightarrow> 's \<Rightarrow>
   (PushError + (BlobKey \<times> BlobLedger) option) \<times> 's" where
  "upload_file_blob_segmented sc path expected content_id ledger s =
     (case BlobLedger_known ledger content_id of
        Some existing \<Rightarrow> (Inr (Some (existing, ledger)), s)
      | None \<Rightarrow>
          (case w_read (sc_world sc s) path expected of
             Inl e \<Rightarrow> (Inl e, sc_others sc s)
           | Inr Read_Diverged \<Rightarrow> (Inr None, sc_others sc s)
           | Inr (Read_Bytes bytes) \<Rightarrow>
               (case sc_put sc content_id bytes (sc_others sc s) of
                  (Inl e, s) \<Rightarrow> (Inl e, s)
                | (Inr key, s) \<Rightarrow>
                    (Inr (Some (key, BlobLedger_record content_id key (ef_size expected) ledger)), s))))"

section \<open>Scanning a file\<close>

definition stat_clean :: "StatTrust \<Rightarrow> FileRecord option \<Rightarrow> Observed \<Rightarrow> bool" where
  "stat_clean trust ancestor_row observed =
     (case ancestor_row of
        Some r \<Rightarrow> fr_kind r = Kind_File \<and> fr_size r = ob_size observed \<and> fr_mode r = ob_mode observed
          \<and> settles trust r observed
      | None \<Rightarrow> False)"

definition same_content :: "KeyEpoch \<Rightarrow> FileRecord \<Rightarrow> ContentId \<Rightarrow> bool" where
  "same_content key_epoch r content_id \<longleftrightarrow> fr_content_id r = Some content_id \<and> fr_key_epoch r = Some key_epoch"

definition refreshed_row :: "i64 \<Rightarrow> FileRecord \<Rightarrow> Observed \<Rightarrow> FileRecord" where
  "refreshed_row now r observed =
     r\<lparr>fr_size := ob_size observed, fr_fingerprint := ob_fingerprint observed, fr_hashed_at := Some now, fr_verified_at := None\<rparr>"

definition file_entry_row :: "i64 \<Rightarrow> Observed \<Rightarrow> ContentId \<Rightarrow> BlobKey \<Rightarrow> KeyEpoch \<Rightarrow> FileRecord \<times> ManifestEntry" where
  "file_entry_row now observed content_id blob_key key_epoch =
     (\<lparr>fr_kind = Kind_File, fr_size = ob_size observed, fr_mode = ob_mode observed, fr_symlink_target = None,
       fr_content_id = Some content_id, fr_blob_key = Some blob_key, fr_key_epoch = Some key_epoch,
       fr_fingerprint = ob_fingerprint observed, fr_hashed_at = Some now, fr_verified_at = None\<rparr>,
      File (ob_size observed) (ob_mode observed) content_id blob_key key_epoch)"

text \<open>The key of the blob of a file whose bytes were read: the ancestor's, or a new upload.
  \<open>None\<close> is divergence.\<close>

definition file_blob_key ::
  "'s scanner \<Rightarrow> WorkspacePath \<Rightarrow> Observed \<Rightarrow> FileRecord option \<Rightarrow> bool \<Rightarrow> ContentId \<Rightarrow> string \<Rightarrow> BlobLedger \<Rightarrow> 's \<Rightarrow>
   (PushError + (BlobKey \<times> BlobLedger) option) \<times> 's" where
  "file_blob_key sc path observed ancestor_row is_segmented content_id bytes ledger s =
     (case (case ancestor_row of Some r \<Rightarrow> if same_content (sc_key_epoch sc) r content_id then Some r else None | None \<Rightarrow> None) of
        Some r \<Rightarrow>
          (case fr_blob_key r of
             Some blob_key \<Rightarrow> (Inr (Some (blob_key, ledger)), s)
           | None \<Rightarrow> (Inl (AncestorRowMissing ''blob_key''), s))
      | None \<Rightarrow>
          if is_segmented then upload_file_blob_segmented sc path (expected_file observed) content_id ledger s
          else apfst (map_sum id Some) (upload_file_blob sc content_id bytes ledger s))"

definition file_candidate ::
  "'s scanner \<Rightarrow> WorkspacePath \<Rightarrow> Observed \<Rightarrow> FileRecord option \<Rightarrow> StatTrust \<Rightarrow> BlobLedger \<Rightarrow> 's \<Rightarrow>
   (PushError + ScanResult \<times> BlobLedger) \<times> 's" where
  "file_candidate sc path observed ancestor_row trust ledger s =
     (if stat_clean trust ancestor_row observed then (Inr (Result_Unchanged, ledger), s)
      else
        (let is_segmented = (ob_size observed \<ge> sc_large_file_threshold sc);
             read = w_read (sc_world sc s) path (expected_file observed);
             now = w_now (sc_world sc s);
             hash = w_content_id (sc_world sc s);
             s = sc_others sc s
         in case read of
              Inl error \<Rightarrow> (map_sum id (\<lambda>rejected. (Result_Unsyncable rejected, ledger)) (read_rejection now error), s)
            | Inr Read_Diverged \<Rightarrow> (Inr (Result_Diverged, ledger), s)
            | Inr (Read_Bytes bytes) \<Rightarrow>
                if is_segmented \<and> length bytes \<noteq> ob_size observed then (Inr (Result_Diverged, ledger), s)
                else
                  (let content_id = hash bytes
                   in if (case ancestor_row of
                        Some r \<Rightarrow> fr_kind r = Kind_File \<and> same_content (sc_key_epoch sc) r content_id
                          \<and> fr_mode r = ob_mode observed
                      | None \<Rightarrow> False)
                      then (Inr (Result_LocalRefresh (refreshed_row now (the ancestor_row) observed), ledger), s)
                      else
                        (case file_blob_key sc path observed ancestor_row is_segmented content_id bytes ledger s of
                           (Inl e, s) \<Rightarrow> (Inl e, s)
                         | (Inr None, s) \<Rightarrow> (Inr (Result_Diverged, ledger), s)
                         | (Inr (Some (blob_key, ledger)), s) \<Rightarrow>
                             (Inr (case_prod Result_Entry (file_entry_row now observed content_id blob_key (sc_key_epoch sc)),
                                ledger), s)))))"

definition scan_observed ::
  "'s scanner \<Rightarrow> WorkspacePath \<Rightarrow> Observed \<Rightarrow> FileRecord option \<Rightarrow> StatTrust \<Rightarrow> BlobLedger \<Rightarrow> 's \<Rightarrow>
   (PushError + ScanResult \<times> BlobLedger) \<times> 's" where
  "scan_observed sc path observed ancestor_row trust ledger s =
     (case ob_kind observed of
        Kind_Directory \<Rightarrow> (Inr (directory_scan observed ancestor_row, ledger), s)
      | Kind_Symlink \<Rightarrow> (Inr (symlink_scan (w_now (sc_world sc s)) path observed ancestor_row, ledger), s)
      | Kind_File \<Rightarrow> file_candidate sc path observed ancestor_row trust ledger s)"

text \<open>Two looks at most; the first argument counts those left.\<close>

fun scan_looks ::
  "nat \<Rightarrow> 's scanner \<Rightarrow> ancestor_rows \<Rightarrow> WorkspacePath \<Rightarrow> StatTrust \<Rightarrow> BlobLedger \<Rightarrow> 's \<Rightarrow>
   (PushError + PathScan \<times> BlobLedger) \<times> 's" where
  "scan_looks 0 sc ancestor path trust ledger s = (Inr (Scan_Retry, ledger), s)"
| "scan_looks (Suc looks) sc ancestor path trust ledger s =
     (case w_observe (sc_world sc s) path of
        Observe_Absent \<Rightarrow> (Inr (Scan_Remove, ledger), sc_others sc s)
      | Observe_Unsyncable reason \<Rightarrow>
          (Inr (Scan_Unsyncable (UnsyncableRecord_new reason None (w_now (sc_world sc s))), ledger), sc_others sc s)
      | Observe_Present observed \<Rightarrow>
          (case scan_observed sc path observed (map_of ancestor path) trust ledger (sc_others sc s) of
             (Inl e, s) \<Rightarrow> (Inl e, s)
           | (Inr (Result_Entry r entry, ledger), s) \<Rightarrow> (Inr (Scan_Upsert r entry, ledger), s)
           | (Inr (Result_LocalRefresh r, ledger), s) \<Rightarrow> (Inr (Scan_LocalRefresh r, ledger), s)
           | (Inr (Result_Unchanged, ledger), s) \<Rightarrow> (Inr (Scan_Settled, ledger), s)
           | (Inr (Result_Unsyncable r, ledger), s) \<Rightarrow> (Inr (Scan_Unsyncable r, ledger), s)
           | (Inr (Result_Diverged, ledger), s) \<Rightarrow> scan_looks looks sc ancestor path trust ledger s))"

definition scan_path ::
  "'s scanner \<Rightarrow> ancestor_rows \<Rightarrow> WorkspacePath \<Rightarrow> StatTrust \<Rightarrow> BlobLedger \<Rightarrow> 's \<Rightarrow>
   (PushError + PathScan \<times> BlobLedger) \<times> 's" where
  "scan_path = scan_looks 2"

section \<open>Building the candidate\<close>

fun record_scan :: "WorkspacePath \<Rightarrow> PathScan \<Rightarrow> Candidate \<Rightarrow> Candidate" where
  "record_scan path (Scan_Upsert r entry) candidate = candidate\<lparr>cd_upserts := bt_insert path (r, entry) (cd_upserts candidate)\<rparr>"
| "record_scan path Scan_Remove candidate = candidate\<lparr>cd_removals := insert path (cd_removals candidate)\<rparr>"
| "record_scan path (Scan_Unsyncable r) candidate = candidate\<lparr>cd_unsyncable := bt_insert path r (cd_unsyncable candidate)\<rparr>"
| "record_scan path (Scan_LocalRefresh r) candidate =
     candidate\<lparr>cd_local_refreshes := bt_insert path r (cd_local_refreshes candidate)\<rparr>"
| "record_scan path Scan_Settled candidate = candidate"
| "record_scan path Scan_Retry candidate = candidate\<lparr>cd_skipped := insert path (cd_skipped candidate)\<rparr>"

fun scan_all ::
  "'s scanner \<Rightarrow> ancestor_rows \<Rightarrow> StatTrust \<Rightarrow> WorkspacePath list \<Rightarrow> Candidate \<Rightarrow> BlobLedger \<Rightarrow> 's \<Rightarrow>
   (PushError + Candidate \<times> BlobLedger) \<times> 's" where
  "scan_all sc ancestor trust [] candidate ledger s = (Inr (candidate, ledger), s)"
| "scan_all sc ancestor trust (path # paths) candidate ledger s =
     (case publishable_workspace_path path MAX_WORKSPACE_PATH_LEN (sc_project_view sc) of
        Inl _ \<Rightarrow>
          scan_all sc ancestor trust paths
            (record_scan path (Scan_Unsyncable (UnsyncableRecord_new UnrepresentablePath None (w_now (sc_world sc s)))) candidate)
            ledger s
      | Inr _ \<Rightarrow>
          (case scan_path sc ancestor path trust ledger s of
             (Inl e, s) \<Rightarrow> (Inl e, s)
           | (Inr (scan, ledger), s) \<Rightarrow> scan_all sc ancestor trust paths (record_scan path scan candidate) ledger s))"

definition prove_candidate :: "world \<Rightarrow> TimestampGranularity \<Rightarrow> i64 option \<Rightarrow> Candidate \<Rightarrow> Candidate" where
  "prove_candidate w granularity clock candidate =
     candidate\<lparr>
       cd_upserts := map (\<lambda>(path, r, entry). (path, stamp_row w granularity clock path r, entry)) (cd_upserts candidate),
       cd_local_refreshes := prove_rows w granularity clock (cd_local_refreshes candidate)\<rparr>"

definition build_candidate ::
  "'s scanner \<Rightarrow> ancestor_rows \<Rightarrow> WorkspacePath set \<Rightarrow> StatTrust \<Rightarrow> BlobLedger \<Rightarrow> 's \<Rightarrow>
   (PushError + Candidate \<times> BlobLedger) \<times> 's" where
  "build_candidate sc ancestor dirty_paths trust ledger s =
     (let publish = sorted_list_of_set (sc_canonical sc ` dirty_paths)
      in case scan_all sc ancestor trust publish Candidate_default ledger s of
           (Inl e, s) \<Rightarrow> (Inl e, s)
         | (Inr (candidate, ledger), s) \<Rightarrow>
             (let candidate = (expand_subtree_removals candidate ancestor)\<lparr>cd_scanned := set publish\<rparr>;
                  (clock, s) = sc_clock sc s
              in (Inr (prove_candidate (sc_world sc s) (sc_timestamps sc) clock candidate, ledger), s)))"

section \<open>The deletion guard\<close>

definition MIN_DELETION_ALLOWANCE :: nat where
  "MIN_DELETION_ALLOWANCE = 64"

definition DELETION_FRACTION_DENOMINATOR :: nat where
  "DELETION_FRACTION_DENOMINATOR = 4"

definition mass_deletion_threshold :: "nat \<Rightarrow> nat" where
  "mass_deletion_threshold entries = max MIN_DELETION_ALLOWANCE (entries div DELETION_FRACTION_DENOMINATOR)"

datatype DeletionAuthorization =
    Deletion_Enforce | ExplicitOperation | ConfirmedPaths "WorkspacePath set"

definition guarded_removals :: "ancestor_rows \<Rightarrow> WorkspacePath set \<Rightarrow> Candidate \<Rightarrow> WorkspacePath set" where
  "guarded_removals scoped_ancestor durable_pending candidate =
     {path \<in> cd_removals candidate. map_of scoped_ancestor path \<noteq> None \<or> path \<in> durable_pending}"

definition guard_mass_deletion ::
  "nat \<Rightarrow> ancestor_rows \<Rightarrow> WorkspacePath set \<Rightarrow> Candidate \<Rightarrow> DeletionAuthorization \<Rightarrow> PushError + unit" where
  "guard_mass_deletion ancestor_count scoped_ancestor durable_pending candidate deletions =
     (let removals = guarded_removals scoped_ancestor durable_pending candidate;
          allowed = (case deletions of
              ExplicitOperation \<Rightarrow> True
            | ConfirmedPaths confirmed \<Rightarrow> removals \<subseteq> confirmed
            | Deletion_Enforce \<Rightarrow> False);
          threshold = mass_deletion_threshold ancestor_count
      in if \<not> allowed \<and> card removals > threshold
         then Inl (MassDeletionRefused removals ancestor_count threshold)
         else Inr ())"

definition record_unsyncable_outcome :: "manifest_store \<Rightarrow> Candidate \<Rightarrow> manifest_store" where
  "record_unsyncable_outcome store candidate =
     record_unsyncable (cd_unsyncable candidate)
       {path \<in> cd_scanned candidate. map_of (cd_unsyncable candidate) path = None} store"

end
