(* ===== verification/Push_Cycle.thy ===== *)
theory Push_Cycle
  imports Push_Candidate Tree_Patch
begin

text \<open>
  One push, \<^verbatim>\<open>push.rs\<close>: derive the candidate, publish its delta as a patch of the applied tree or
  as a whole tree, swap the workspace ref, and commit the ancestor only when the swap is proven.
  The object store is a value that \<open>pr_put\<close> extends; the ref service is \<open>pr_cas\<close> and
  \<open>pr_read_ref\<close>. A failure leaves in the store what was durable before it.
\<close>

section \<open>Outcomes and policies\<close>

datatype CasOutcome = Cas_Advanced RefObservation | Cas_Lost RefObservation | Cas_Ambiguous

datatype PushOutcome =
    Push_Advanced ManifestKey u64 "WorkspacePath set"
  | Push_NoChange "WorkspacePath set"
  | Push_RefLost "RefObservation option"

datatype DeletionPolicy = Policy_Enforce | Policy_Confirmed

fun deletion_authorization :: "DeletionPolicy \<Rightarrow> DeletionAuthorization" where
  "deletion_authorization Policy_Enforce = Deletion_Enforce"
| "deletion_authorization Policy_Confirmed = ExplicitOperation"

datatype WatcherEvidence = Evidence_Continuous | Evidence_Gapped

record ('b, 'o) push_remote =
  pr_io :: "('b, 'o) tree_io"
  pr_blake3 :: "string \<Rightarrow> string"
  pr_crypto :: WorkspaceCrypto
  pr_put :: "'o objects \<Rightarrow> 'o manifest_upload list \<Rightarrow> string + 'o objects"
  pr_settled :: "string + unit"
  pr_cas :: "u64 option \<Rightarrow> ManifestKey \<Rightarrow> string + CasOutcome"
  pr_read_ref :: "string + RefObservation option"

section \<open>Publishing\<close>

definition manifest_changes :: "Candidate \<Rightarrow> (WorkspacePath, ManifestEntry option) btree_map" where
  "manifest_changes candidate =
     fold (\<lambda>path. bt_insert path None) (sorted_list_of_set (cd_removals candidate))
       (fold (\<lambda>(path, _, entry). bt_insert path (Some entry)) (cd_upserts candidate) [])"

definition upload_manifest_delta ::
  "('b, 'o) push_remote \<Rightarrow> KeyEpoch \<Rightarrow> ManifestKey \<Rightarrow> Candidate \<Rightarrow> manifest_store \<Rightarrow> 'o objects \<Rightarrow>
   PushError + ManifestKey \<times> manifest_store \<times> 'o objects" where
  "upload_manifest_delta remote key_epoch root candidate store objs =
     (case patch_tree (pr_io remote) (pr_crypto remote) objs (pr_put remote objs) root (manifest_changes candidate) of
        Inl e \<Rightarrow> Inl (push_error_from_tree e)
      | Inr (root, objs) \<Rightarrow> Inr (root, record_tree_node_epoch root key_epoch store, objs))"

fun ancestor_entries :: "ancestor_rows \<Rightarrow> (WorkspacePath, ManifestEntry) btree_map \<Rightarrow>
    PushError + (WorkspacePath, ManifestEntry) btree_map" where
  "ancestor_entries [] entries = Inr entries"
| "ancestor_entries ((path, r) # rows) entries =
     (case file_record_to_entry r of
        Inl e \<Rightarrow> Inl e
      | Inr entry \<Rightarrow> ancestor_entries rows (bt_insert path entry entries))"

definition build_manifest :: "ancestor_rows \<Rightarrow> Candidate \<Rightarrow> KeyEpoch \<Rightarrow> PushError + Manifest" where
  "build_manifest ancestor candidate key_epoch =
     map_sum id (\<lambda>entries.
         \<lparr>mf_key_epoch = key_epoch,
          mf_entries = fold bt_remove (sorted_list_of_set (cd_removals candidate))
            (fold (\<lambda>(path, _, entry). bt_insert path entry) (cd_upserts candidate) entries)\<rparr>)
       (ancestor_entries ancestor [])"

definition upload_manifest ::
  "('b, 'o) push_remote \<Rightarrow> KeyEpoch \<Rightarrow> Manifest \<Rightarrow> manifest_store \<Rightarrow> 'o objects \<Rightarrow>
   PushError + ManifestKey \<times> manifest_store \<times> 'o objects" where
  "upload_manifest remote key_epoch snapshot store objs =
     (case publish_tree (pr_io remote) (pr_blake3 remote) (pr_crypto remote) StoreNodeLedger_known StoreNodeLedger_record
         (pr_put remote objs) snapshot (StoreNodeLedger_new (tree_node store) key_epoch) of
        Inl e \<Rightarrow> Inl (push_error_from_tree e)
      | Inr (key, objs, ledger) \<Rightarrow> Inr (key, record_tree_nodes (into_recorded ledger) key_epoch store, objs))"

section \<open>The compare-and-swap\<close>

definition commit_advance ::
  "Candidate \<Rightarrow> ManifestKey \<Rightarrow> u64 \<Rightarrow> manifest_store \<Rightarrow> (PushError + PushOutcome) \<times> manifest_store" where
  "commit_advance candidate manifest_key version store =
     (case commit_push_success (ancestor_commit candidate) manifest_key version (settled_paths candidate) store of
        Inl e \<Rightarrow> (Inl (Push_Store e), store)
      | Inr store \<Rightarrow> (Inr (Push_Advanced manifest_key version (cd_skipped candidate)), store))"

definition resolve_cas ::
  "('b, 'o) push_remote \<Rightarrow> Candidate \<Rightarrow> ManifestKey \<Rightarrow> CasOutcome \<Rightarrow> manifest_store \<Rightarrow>
   (PushError + PushOutcome) \<times> manifest_store" where
  "resolve_cas remote candidate manifest_key outcome store =
     (case outcome of
        Cas_Advanced observed \<Rightarrow> commit_advance candidate manifest_key (ref_version observed) store
      | Cas_Lost current \<Rightarrow> (Inr (Push_RefLost (Some current)), store)
      | Cas_Ambiguous \<Rightarrow>
          (case pr_read_ref remote of
             Inl e \<Rightarrow> (Inl (Push_Transport e), store)
           | Inr None \<Rightarrow> (Inr (Push_RefLost None), store)
           | Inr (Some current) \<Rightarrow>
               if ref_manifest_key current = manifest_key
               then commit_advance candidate manifest_key (ref_version current) store
               else (Inr (Push_RefLost (Some current)), store)))"

section \<open>One push\<close>

definition epoch_rebuild :: "KeyEpoch \<Rightarrow> EngineState \<Rightarrow> manifest_store \<Rightarrow> bool" where
  "epoch_rebuild key_epoch state store \<longleftrightarrow>
     has_files_outside_key_epoch key_epoch store
     \<or> (case applied_manifest_key state of
          Some root \<Rightarrow> tree_node_key_epoch root store \<noteq> Some key_epoch
        | None \<Rightarrow> False)"

text \<open>The store after the scan: the uploaded blobs once the uploads have settled, and the
  verdict on the paths that were looked at.\<close>

definition record_scan_outcome ::
  "('b, 'o) push_remote \<Rightarrow> BlobLedger \<Rightarrow> Candidate \<Rightarrow> manifest_store \<Rightarrow> PushError + manifest_store" where
  "record_scan_outcome remote ledger candidate store =
     (if bl_fresh ledger = [] then Inr (record_unsyncable_outcome store candidate)
      else (case pr_settled remote of
          Inl e \<Rightarrow> Inl (Push_Transport e)
        | Inr _ \<Rightarrow>
            (case record_sealed_blobs (bl_fresh ledger) store of
               Inl e \<Rightarrow> Inl (Push_Store e)
             | Inr store \<Rightarrow> Inr (record_unsyncable_outcome store candidate))))"

definition settle_no_change :: "Candidate \<Rightarrow> manifest_store \<Rightarrow> (PushError + PushOutcome) \<times> manifest_store" where
  "settle_no_change candidate store =
     (case commit_push_no_change (ancestor_commit candidate) (settled_paths candidate) store of
        Inl e \<Rightarrow> (Inl (Push_Store e), store)
      | Inr store \<Rightarrow> (Inr (Push_NoChange (cd_skipped candidate)), store))"

definition publish_candidate ::
  "('b, 'o) push_remote \<Rightarrow> KeyEpoch \<Rightarrow> EngineState \<Rightarrow> bool \<Rightarrow> ancestor_rows \<Rightarrow> Candidate \<Rightarrow> manifest_store \<Rightarrow> 'o objects \<Rightarrow>
   PushError + ManifestKey \<times> manifest_store \<times> 'o objects" where
  "publish_candidate remote key_epoch state rebuild ancestor candidate store objs =
     (case (applied_manifest_key state, rebuild) of
        (Some root, False) \<Rightarrow> upload_manifest_delta remote key_epoch root candidate store objs
      | _ \<Rightarrow>
          (case build_manifest (if rebuild then all_files store else ancestor) candidate key_epoch of
             Inl e \<Rightarrow> Inl e
           | Inr snapshot \<Rightarrow> upload_manifest remote key_epoch snapshot store objs))"

text \<open>Everything after the scan.\<close>

definition push_candidate ::
  "('b, 'o) push_remote \<Rightarrow> KeyEpoch \<Rightarrow> EngineState \<Rightarrow> bool \<Rightarrow> nat \<Rightarrow> ancestor_rows \<Rightarrow> WorkspacePath set \<Rightarrow>
   DeletionAuthorization \<Rightarrow> Candidate \<Rightarrow> manifest_store \<Rightarrow> 'o objects \<Rightarrow>
   (PushError + PushOutcome) \<times> manifest_store \<times> 'o objects" where
  "push_candidate remote key_epoch state rebuild ancestor_count ancestor durable_pending deletions candidate store objs =
     (if Candidate_is_empty candidate \<and> \<not> rebuild
      then (let (result, store) = settle_no_change candidate store in (result, store, objs))
      else (case guard_mass_deletion ancestor_count ancestor durable_pending candidate deletions of
          Inl e \<Rightarrow> (Inl e, store, objs)
        | Inr _ \<Rightarrow>
       (case publish_candidate remote key_epoch state rebuild ancestor candidate store objs of
          Inl e \<Rightarrow> (Inl e, store, objs)
        | Inr (manifest_key, store, objs) \<Rightarrow>
            if applied_manifest_key state = Some manifest_key
            then (let (result, store) = settle_no_change candidate store in (result, store, objs))
            else (case pr_cas remote (last_ref_version state) manifest_key of
                Inl e \<Rightarrow> (Inl (Push_Transport e), store, objs)
              | Inr outcome \<Rightarrow>
                  (let (result, store) = resolve_cas remote candidate manifest_key outcome store in (result, store, objs))))))"

definition push_scanned ::
  "'s scanner \<Rightarrow> ('b, 'o) push_remote \<Rightarrow> WorkspacePath set \<Rightarrow> StatTrust \<Rightarrow> DeletionAuthorization \<Rightarrow>
   's \<Rightarrow> manifest_store \<Rightarrow> 'o objects \<Rightarrow> (PushError + PushOutcome) \<times> 's \<times> manifest_store \<times> 'o objects" where
  "push_scanned sc remote dirty_paths trust deletions s store objs =
     (let ancestor = files_in_scopes (sc_canonical sc ` dirty_paths) store;
          ancestor_count = file_count store;
          durable_pending = st_pending_push store;
          key_epoch = sc_key_epoch sc
      in case engine_state store of
           Inl e \<Rightarrow> (Inl (Push_Store e), s, store, objs)
         | Inr state \<Rightarrow>
        (case build_candidate sc ancestor dirty_paths trust (BlobLedger_new store key_epoch) s of
           (Inl e, s) \<Rightarrow> (Inl e, s, store, objs)
         | (Inr (candidate, ledger), s) \<Rightarrow>
        (case record_scan_outcome remote ledger candidate store of
           Inl e \<Rightarrow> (Inl e, s, store, objs)
         | Inr recorded \<Rightarrow>
             (let (result, store, objs) =
                push_candidate remote key_epoch state (epoch_rebuild key_epoch state store) ancestor_count ancestor
                  durable_pending deletions candidate recorded objs
              in (result, s, store, objs)))))"

definition push_dirty_paths_authorized ::
  "'s scanner \<Rightarrow> ('b, 'o) push_remote \<Rightarrow> WorkspacePath set \<Rightarrow> DeletionAuthorization \<Rightarrow> WatcherEvidence \<Rightarrow>
   's \<Rightarrow> manifest_store \<Rightarrow> 'o objects \<Rightarrow> (PushError + PushOutcome) \<times> 's \<times> manifest_store \<times> 'o objects" where
  "push_dirty_paths_authorized sc remote dirty_paths deletions evidence =
     push_scanned sc remote dirty_paths
       (case evidence of Evidence_Continuous \<Rightarrow> OutsideRacyWindow (sc_timestamps sc) | Evidence_Gapped \<Rightarrow> Trust_Never) deletions"

definition push_dirty_paths ::
  "'s scanner \<Rightarrow> ('b, 'o) push_remote \<Rightarrow> WorkspacePath set \<Rightarrow> DeletionPolicy \<Rightarrow> WatcherEvidence \<Rightarrow>
   's \<Rightarrow> manifest_store \<Rightarrow> 'o objects \<Rightarrow> (PushError + PushOutcome) \<times> 's \<times> manifest_store \<times> 'o objects" where
  "push_dirty_paths sc remote dirty_paths deletions evidence =
     push_dirty_paths_authorized sc remote dirty_paths (deletion_authorization deletions) evidence"

definition push ::
  "'s scanner \<Rightarrow> ('b, 'o) push_remote \<Rightarrow> WorkspacePath set \<Rightarrow> 's \<Rightarrow> manifest_store \<Rightarrow> 'o objects \<Rightarrow>
   (PushError + PushOutcome) \<times> 's \<times> manifest_store \<times> 'o objects" where
  "push sc remote dirty_paths = push_dirty_paths sc remote dirty_paths Policy_Enforce Evidence_Continuous"

end
