(* ===== verification/Push_Properties.thy ===== *)
theory Push_Properties
  imports Push_Cycle Patch_Refinement
begin

text \<open>
  Lemmas on the push: what the scan of a path saw, what the expansion of removals leaves, and
  which parts of the store each step may change.
\<close>

section \<open>The states of a scan\<close>

text \<open>\<open>stays sc I\<close>: whatever happens during a scan, the state stays in \<open>I\<close>.\<close>

definition stays :: "'s scanner \<Rightarrow> ('s \<Rightarrow> bool) \<Rightarrow> bool" where
  "stays sc I \<longleftrightarrow> (\<forall>s. I s \<longrightarrow> I (sc_others sc s) \<and> I (snd (sc_clock sc s))
     \<and> (\<forall>content_id bytes. I (snd (sc_put sc content_id bytes s))))"

lemma upload_stays:
  assumes "stays sc I" and "I s"
  shows "I (snd (upload_file_blob sc content_id bytes ledger s))"
    and "I (snd (upload_file_blob_segmented sc path expected content_id ledger s))"
proof -
  have put: "I t \<Longrightarrow> sc_put sc content_id bytes t = (r, t') \<Longrightarrow> I t'" for t r t' bytes
    using assms(1) unfolding stays_def by (metis snd_conv)
  have "I (sc_others sc s)" using assms by (simp add: stays_def)
  then show "I (snd (upload_file_blob_segmented sc path expected content_id ledger s))"
    using assms(2) put
    by (auto simp: upload_file_blob_segmented_def split: option.split sum.split FileRead.split prod.split)
  show "I (snd (upload_file_blob sc content_id bytes ledger s))"
    using assms(2) put by (auto simp: upload_file_blob_def split: option.split sum.split prod.split)
qed

lemma file_candidate_stays:
  assumes "stays sc I" and "I s"
  shows "I (snd (file_candidate sc path observed row trust ledger s))"
proof -
  have others: "I (sc_others sc s)" using assms by (simp add: stays_def)
  have "I (snd (file_blob_key sc path observed row seg content_id bytes ledger (sc_others sc s)))" for seg content_id bytes
    using others upload_stays[OF assms(1) others]
    by (auto simp: file_blob_key_def split: option.split)
  then show ?thesis
    using assms(2) others
    by (auto simp: file_candidate_def Let_def split: sum.split FileRead.split prod.split option.split)
       (metis snd_conv)+
qed

lemma scan_observed_stays:
  assumes "stays sc I" and "I s"
  shows "I (snd (scan_observed sc path observed row trust ledger s))"
  using assms file_candidate_stays[OF assms] by (simp add: scan_observed_def split: EntryKind.split)

text \<open>What a scan reports was seen at some moment of it.\<close>

definition seen_as :: "'s scanner \<Rightarrow> ('s \<Rightarrow> bool) \<Rightarrow> WorkspacePath \<Rightarrow> PathScan \<Rightarrow> bool" where
  "seen_as sc I path scan \<longleftrightarrow>
     (scan = Scan_Remove \<longrightarrow> (\<exists>t. I t \<and> w_observe (sc_world sc t) path = Observe_Absent))
     \<and> (\<forall>r entry. scan = Scan_Upsert r entry \<longrightarrow>
          (\<exists>t observed. I t \<and> w_observe (sc_world sc t) path = Observe_Present observed \<and> ob_kind observed = entry_kind entry))"

lemma file_candidate_entry:
  assumes "fst (file_candidate sc path observed row trust ledger s) = Inr (Result_Entry r entry, ledger')"
  shows "entry_kind entry = Kind_File"
  using assms
  by (auto simp: file_candidate_def file_entry_row_def Let_def map_sum_Inr
      split: if_splits sum.splits FileRead.splits prod.splits option.splits)

lemma scan_observed_entry:
  assumes "fst (scan_observed sc path observed row trust ledger s) = Inr (Result_Entry r entry, ledger')"
  shows "entry_kind entry = ob_kind observed"
  using assms file_candidate_entry[of sc path observed row trust ledger s]
  by (auto simp: scan_observed_def directory_scan_def symlink_scan_def directory_candidate_def symlink_candidate_def
      split: EntryKind.splits if_splits)

lemma scan_looks_seen:
  assumes "stays sc I" and "I s" and "scan_looks n sc ancestor path trust ledger s = (result, s')"
  shows "I s' \<and> (\<forall>scan ledger'. result = Inr (scan, ledger') \<longrightarrow> seen_as sc I path scan)"
  using assms(2,3)
proof (induction n arbitrary: ledger s)
  case 0
  then show ?case by (auto simp: seen_as_def)
next
  case (Suc n)
  have others: "I (sc_others sc s)" using assms(1) Suc.prems(1) by (simp add: stays_def)
  show ?case
  proof (cases "w_observe (sc_world sc s) path")
    case (Observe_Present observed)
    obtain found t where run: "scan_observed sc path observed (map_of ancestor path) trust ledger (sc_others sc s) = (found, t)"
      by force
    have "I t" using scan_observed_stays[OF assms(1) others, of path observed "map_of ancestor path" trust ledger] run by simp
    show ?thesis
    proof (cases "\<exists>ledger'. found = Inr (Result_Diverged, ledger')")
      case True
      then obtain ledger' where "scan_looks n sc ancestor path trust ledger' t = (result, s')"
        using Suc.prems(2) Observe_Present run by auto
      then show ?thesis using Suc.IH \<open>I t\<close> by blast
    next
      case False
      have entry: "entry_kind e = ob_kind observed" if "found = Inr (Result_Entry r e, l)" for r e l
        using scan_observed_entry[of sc path observed "map_of ancestor path" trust ledger "sc_others sc s" r e l] run that by simp
      show ?thesis
        using Suc.prems Observe_Present run False \<open>I t\<close> entry
        by (auto simp: seen_as_def split: sum.splits prod.splits ScanResult.splits)
    qed
  qed (use Suc.prems others in \<open>auto simp: seen_as_def\<close>)
qed

section \<open>The whole scan\<close>

text \<open>
  \<open>scanned_ok sc I done candidate\<close>: the paths in \<open>done\<close> have been scanned, each into at most
  one part of the candidate, by what was seen.
\<close>

definition scanned_ok :: "'s scanner \<Rightarrow> ('s \<Rightarrow> bool) \<Rightarrow> WorkspacePath set \<Rightarrow> Candidate \<Rightarrow> bool" where
  "scanned_ok sc I paths candidate \<longleftrightarrow>
     bt_ok (cd_upserts candidate) \<and> bt_ok (cd_local_refreshes candidate) \<and> finite (cd_removals candidate)
     \<and> dom (map_of (cd_upserts candidate)) \<inter> cd_removals candidate = {}
     \<and> dom (map_of (cd_upserts candidate)) \<union> cd_removals candidate
         \<subseteq> {path \<in> paths. publishable_workspace_path path MAX_WORKSPACE_PATH_LEN (sc_project_view sc) = Inr ()}
     \<and> (\<forall>path \<in> cd_removals candidate. \<exists>t. I t \<and> w_observe (sc_world sc t) path = Observe_Absent)
     \<and> (\<forall>path r entry. map_of (cd_upserts candidate) path = Some (r, entry) \<longrightarrow>
          (\<exists>t observed. I t \<and> w_observe (sc_world sc t) path = Observe_Present observed \<and> ob_kind observed = entry_kind entry))"

lemma record_scan_ok:
  assumes "scanned_ok sc I paths candidate" and "seen_as sc I path scan" and "path \<notin> paths"
    and "publishable_workspace_path path MAX_WORKSPACE_PATH_LEN (sc_project_view sc) = Inr () \<or> (\<exists>r. scan = Scan_Unsyncable r)"
  shows "scanned_ok sc I (insert path paths) (record_scan path scan candidate)"
proof (cases scan)
  case (Scan_Upsert r entry)
  have at: "map_of (bt_insert path (r, entry) (cd_upserts candidate)) = (map_of (cd_upserts candidate))(path \<mapsto> (r, entry))"
    using assms(1) by (simp add: map_of_bt_insert scanned_ok_def)
  have "path \<notin> cd_removals candidate" using assms(1,3) by (auto simp: scanned_ok_def)
  then show ?thesis
    using assms Scan_Upsert by (auto simp: scanned_ok_def seen_as_def at bt_insert_ok)
next
  case Scan_Remove
  have "map_of (cd_upserts candidate) path = None" using assms(1,3) by (auto simp: scanned_ok_def)
  then show ?thesis using assms Scan_Remove by (auto simp: scanned_ok_def seen_as_def)
qed (use assms in \<open>auto simp: scanned_ok_def bt_insert_ok\<close>)

lemma seen_as_unsyncable: "seen_as sc I path (Scan_Unsyncable r)"
  by (simp add: seen_as_def)

lemma scan_all_ok:
  assumes "stays sc I" and "I s" and "scan_all sc ancestor trust todo candidate ledger s = (Inr (found, ledger'), s')"
    and "scanned_ok sc I paths candidate" and "distinct todo" and "paths \<inter> set todo = {}"
  shows "scanned_ok sc I (paths \<union> set todo) found \<and> I s' \<and> cd_scanned found = cd_scanned candidate"
  using assms(2-6)
proof (induction todo arbitrary: candidate ledger s paths)
  case Nil
  then show ?case by simp
next
  case (Cons path todo)
  have fresh: "path \<notin> paths" "insert path paths \<inter> set todo = {}" "distinct todo" using Cons.prems(4,5) by auto
  obtain scan ledger1 s1 where rest: "scan_all sc ancestor trust todo (record_scan path scan candidate) ledger1 s1 = (Inr (found, ledger'), s')"
      "seen_as sc I path scan" "I s1"
      "publishable_workspace_path path MAX_WORKSPACE_PATH_LEN (sc_project_view sc) = Inr () \<or> (\<exists>r. scan = Scan_Unsyncable r)"
  proof (cases "publishable_workspace_path path MAX_WORKSPACE_PATH_LEN (sc_project_view sc)")
    case (Inl _)
    then show thesis using that[OF _ seen_as_unsyncable Cons.prems(1)] Cons.prems(2) by auto
  next
    case (Inr _)
    obtain result s1 where scan: "scan_looks 2 sc ancestor path trust ledger s = (result, s1)" by force
    then obtain scan ledger1 where "result = Inr (scan, ledger1)"
        "scan_all sc ancestor trust todo (record_scan path scan candidate) ledger1 s1 = (Inr (found, ledger'), s')"
      using Cons.prems(2) Inr by (auto simp: scan_path_def split: sum.splits prod.splits)
    then show thesis using that[of scan ledger1 s1] scan_looks_seen[OF assms(1) Cons.prems(1) scan] Inr by simp
  qed
  have "scanned_ok sc I (insert path paths) (record_scan path scan candidate)"
    by (rule record_scan_ok[OF Cons.prems(3) rest(2) fresh(1) rest(4)])
  moreover have "cd_scanned (record_scan path scan candidate) = cd_scanned candidate" by (cases scan) simp_all
  ultimately show ?case using Cons.IH[OF rest(3,1) _ fresh(3,2)] by simp
qed

section \<open>Below a path\<close>

lemma is_descendant_prefix: "is_descendant path root \<longleftrightarrow> prefix (root @ [slash]) path"
  by (auto simp: is_descendant_def prefix_def)

lemma is_descendant_trans: "is_descendant a b \<Longrightarrow> is_descendant b c \<Longrightarrow> is_descendant a c"
  unfolding is_descendant_prefix by (metis append_prefixD prefix_order.trans)

lemma is_descendant_neq: "is_descendant path root \<Longrightarrow> path \<noteq> root"
  by (auto simp: is_descendant_prefix prefix_def)

lemma char_between: "slash \<le> c \<and> c < CHR ''0'' \<longleftrightarrow> c = slash" for c :: char
proof -
  have "of_char c = (of_char slash :: nat) \<longleftrightarrow> c = slash" by (rule of_char_eq_iff)
  then show ?thesis by (auto simp: less_eq_char_def less_char_def)
qed

text \<open>The range that the store asks for is the subtree.\<close>

lemma in_scope_prefix: "in_scope scope path \<longleftrightarrow> path = scope \<or> prefix (scope @ [slash]) path"
proof -
  have "scope @ [slash] \<le> path \<and> path < scope @ ''0'' \<longleftrightarrow> prefix (scope @ [slash]) path"
  proof (induction scope arbitrary: path)
    case Nil
    show ?case using char_between[of "hd path"] by (cases path; cases "tl path") (auto simp: le_less)
  next
    case (Cons c scope)
    show ?case using Cons.IH[of "tl path"] by (cases path) auto
  qed
  then show ?thesis by (simp add: in_scope_def)
qed

lemma files_in_scopes_subtree:
  "files_in_scopes scopes store =
     filter (\<lambda>(path, _). \<exists>scope \<in> scopes. path = scope \<or> is_descendant path scope) (st_files store)"
  by (simp add: files_in_scopes_def in_scope_prefix is_descendant_prefix)

section \<open>The expanded candidate\<close>

lemma expanded_removals:
  "cd_removals (expand_subtree_removals candidate ancestor) =
     cd_removals candidate \<union> {path \<in> fst ` set ancestor. is_below_destructive_root (destructive_roots candidate ancestor) path}"
  by (auto simp: expand_subtree_removals_def Let_def is_below_destructive_root_def)

lemma expanded_upserts:
  "map_of (cd_upserts (expand_subtree_removals candidate ancestor)) path =
     (if is_below_destructive_root (destructive_roots candidate ancestor) path then None
      else map_of (cd_upserts candidate) path)"
  by (auto simp: expand_subtree_removals_def Let_def map_of_filter_fst is_below_destructive_root_def)

lemma below_root_descendant:
  assumes "is_below_destructive_root roots path" and "is_descendant below path"
  shows "is_below_destructive_root roots below"
  using assms is_descendant_trans is_descendant_neq unfolding is_below_destructive_root_def by blast

text \<open>The removals of an expanded candidate take everything tracked below them along.\<close>

lemma expanded_closed:
  assumes "path \<in> cd_removals (expand_subtree_removals candidate ancestor)" and "is_descendant below path"
    and "below \<in> fst ` set ancestor"
  shows "below \<in> cd_removals (expand_subtree_removals candidate ancestor)"
proof -
  have "is_below_destructive_root (destructive_roots candidate ancestor) below"
  proof (cases "path \<in> cd_removals candidate")
    case True
    then have "path \<in> destructive_roots candidate ancestor" by (simp add: destructive_roots_def)
    then show ?thesis using assms(2) is_descendant_neq unfolding is_below_destructive_root_def by blast
  next
    case False
    then show ?thesis using assms(1,2) below_root_descendant by (auto simp: expanded_removals)
  qed
  then show ?thesis using assms(3) by (simp add: expanded_removals)
qed

definition candidate_ok :: "Candidate \<Rightarrow> bool" where
  "candidate_ok candidate \<longleftrightarrow>
     bt_ok (cd_upserts candidate) \<and> bt_ok (cd_local_refreshes candidate) \<and> finite (cd_removals candidate)
     \<and> dom (map_of (cd_upserts candidate)) \<inter> cd_removals candidate = {}"

lemma expanded_ok:
  assumes "scanned_ok sc I paths candidate"
  shows "candidate_ok (expand_subtree_removals candidate ancestor)"
proof -
  have "bt_ok (cd_upserts (expand_subtree_removals candidate ancestor))"
      "bt_ok (cd_local_refreshes (expand_subtree_removals candidate ancestor))"
    using assms by (simp_all add: expand_subtree_removals_def Let_def scanned_ok_def bt_ok_filter)
  moreover have "dom (map_of (cd_upserts (expand_subtree_removals candidate ancestor)))
      \<inter> cd_removals (expand_subtree_removals candidate ancestor) = {}"
    using assms by (auto simp: expanded_upserts expanded_removals scanned_ok_def split: if_splits) (meson disjoint_iff domI)
  moreover have "finite (cd_removals (expand_subtree_removals candidate ancestor))"
    using assms by (auto simp: expanded_removals scanned_ok_def)
  ultimately show ?thesis by (simp add: candidate_ok_def)
qed

text \<open>Stamping rows with the instant that proves them changes no path and no entry.\<close>

lemma prove_candidate_simps [simp]:
  "cd_removals (prove_candidate w g clock c) = cd_removals c"
  "cd_unsyncable (prove_candidate w g clock c) = cd_unsyncable c"
  "cd_skipped (prove_candidate w g clock c) = cd_skipped c"
  "cd_scanned (prove_candidate w g clock c) = cd_scanned c"
  "map (\<lambda>(path, _, entry). (path, entry)) (cd_upserts (prove_candidate w g clock c)) =
     map (\<lambda>(path, _, entry). (path, entry)) (cd_upserts c)"
  "map fst (cd_upserts (prove_candidate w g clock c)) = map fst (cd_upserts c)"
  "map fst (cd_local_refreshes (prove_candidate w g clock c)) = map fst (cd_local_refreshes c)"
  by (simp_all add: prove_candidate_def case_prod_beta)

lemma prove_candidate_ok: "candidate_ok c \<Longrightarrow> candidate_ok (prove_candidate w g clock c)"
  unfolding candidate_ok_def bt_ok_def dom_map_of_conv_image_fst
  by (metis list.set_map prove_candidate_simps(1,6,7))

section \<open>The published changes\<close>

lemma map_of_upsert_entries:
  "map_of (map (\<lambda>(path, r, entry). (path, f entry)) upserts) path = map_option (\<lambda>(r, entry). f entry) (map_of upserts path)"
  by (induction upserts) auto

lemma fold_insert_entries:
  "fold (\<lambda>(path, _, entry). bt_insert path (f entry)) upserts m =
     fold (\<lambda>(path, e). bt_insert path e) (map (\<lambda>(path, r, entry). (path, f entry)) upserts) m"
  by (induction upserts arbitrary: m) auto

lemma fold_insert_upserts:
  assumes "bt_ok m" and "bt_ok upserts"
  shows "bt_ok (fold (\<lambda>(path, _, entry). bt_insert path (f entry)) upserts m)"
    and "map_of (fold (\<lambda>(path, _, entry). bt_insert path (f entry)) upserts m) path =
      (case map_of upserts path of Some (_, entry) \<Rightarrow> Some (f entry) | None \<Rightarrow> map_of m path)"
proof -
  let ?kvs = "map (\<lambda>(path, r, entry). (path, f entry)) upserts"
  have "distinct (map fst ?kvs)" using bt_ok_distinct[OF assms(2)] by (simp add: case_prod_beta comp_def)
  then have rev: "map_of (rev ?kvs) = map_of ?kvs" by (rule map_of_rev_distinct)
  show "bt_ok (fold (\<lambda>(path, _, entry). bt_insert path (f entry)) upserts m)"
    unfolding fold_insert_entries using btree.fold_put[OF assms(1)] by blast
  show "map_of (fold (\<lambda>(path, _, entry). bt_insert path (f entry)) upserts m) path =
      (case map_of upserts path of Some (_, entry) \<Rightarrow> Some (f entry) | None \<Rightarrow> map_of m path)"
    unfolding fold_insert_entries btree.fold_put[OF assms(1), THEN conjunct2] rev
    by (simp add: map_add_def map_of_upsert_entries split: option.split)
qed

lemma fold_insert_None:
  assumes "bt_ok m"
  shows "bt_ok (fold (\<lambda>path. bt_insert path None) paths m)"
    and "map_of (fold (\<lambda>path. bt_insert path None) paths m) path = (if path \<in> set paths then Some None else map_of m path)"
  using assms by (induction paths arbitrary: m) (auto simp: bt_insert_ok map_of_bt_insert)

lemma fold_remove:
  assumes "bt_ok m"
  shows "bt_ok (fold bt_remove paths m)"
    and "map_of (fold bt_remove paths m) path = (if path \<in> set paths then None else map_of m path)"
  using assms by (induction paths arbitrary: m) (auto simp: bt_remove_ok map_of_bt_remove)

lemma manifest_changes_map:
  assumes "candidate_ok candidate"
  shows "bt_ok (manifest_changes candidate)"
    and "map_of (manifest_changes candidate) path =
      (if path \<in> cd_removals candidate then Some None
       else (case map_of (cd_upserts candidate) path of Some (_, entry) \<Rightarrow> Some (Some entry) | None \<Rightarrow> None))"
  using assms fold_insert_upserts[of "[]" "cd_upserts candidate" Some]
  by (simp_all add: manifest_changes_def candidate_ok_def fold_insert_None split: option.split)

lemma ancestor_entries_map:
  assumes "ancestor_entries rows m = Inr entries" and "bt_ok m" and "distinct (map fst rows)"
  shows "bt_ok entries \<and> (\<forall>path. map_of entries path =
    (case map_of rows path of Some r \<Rightarrow> Some (projr (file_record_to_entry r)) | None \<Rightarrow> map_of m path))"
  using assms
proof (induction rows arbitrary: m)
  case (Cons row rows)
  obtain path r where row: "row = (path, r)" by force
  obtain entry where entry: "file_record_to_entry r = Inr entry" "ancestor_entries rows (bt_insert path entry m) = Inr entries"
    using Cons.prems(1) row by (auto split: sum.splits)
  have "map_of rows path = None" using Cons.prems(3) row by (simp add: map_of_eq_None_iff)
  moreover have "bt_ok entries \<and> (\<forall>p. map_of entries p =
      (case map_of rows p of Some r \<Rightarrow> Some (projr (file_record_to_entry r)) | None \<Rightarrow> map_of (bt_insert path entry m) p))"
    using Cons.IH[OF entry(2) bt_insert_ok[OF Cons.prems(2)]] Cons.prems(3) row by simp
  ultimately show ?case
    using Cons.prems(2) row entry(1) by (auto simp: map_of_bt_insert split: option.split)
qed simp

text \<open>The whole manifest of a candidate is the ancestor's, updated by the changes.\<close>

lemma build_manifest_update:
  assumes "candidate_ok candidate" and "bt_ok rows" and "ancestor_entries rows [] = Inr entries"
  shows "build_manifest rows candidate key_epoch =
    Inr \<lparr>mf_key_epoch = key_epoch, mf_entries = update_entries entries (manifest_changes candidate)\<rparr>"
proof -
  have entries: "bt_ok entries" using ancestor_entries_map[OF assms(3) _ bt_ok_distinct[OF assms(2)]] by simp
  let ?up = "fold (\<lambda>(path, _, entry). bt_insert path entry) (cd_upserts candidate) entries"
  have up: "bt_ok (cd_upserts candidate)" "finite (cd_removals candidate)" using assms(1) by (simp_all add: candidate_ok_def)
  note ups = fold_insert_upserts[OF entries up(1), of id, unfolded id_apply]
  have "fold bt_remove (sorted_list_of_set (cd_removals candidate)) ?up = update_entries entries (manifest_changes candidate)"
  proof (rule bt_ext)
    show "bt_ok (fold bt_remove (sorted_list_of_set (cd_removals candidate)) ?up)" by (rule fold_remove(1)[OF ups(1)])
    show "bt_ok (update_entries entries (manifest_changes candidate))" by (rule update_entries_ok[OF entries])
    show "map_of (fold bt_remove (sorted_list_of_set (cd_removals candidate)) ?up) = map_of (update_entries entries (manifest_changes candidate))"
      unfolding fun_eq_iff fold_remove(2)[OF ups(1)]
        map_of_update_entries[OF entries bt_ok_distinct[OF manifest_changes_map(1)[OF assms(1)]]]
      using up(2) by (auto simp: ups(2) manifest_changes_map(2)[OF assms(1)] split: option.split)
  qed
  then show ?thesis using assms(3) by (simp add: build_manifest_def)
qed

end
