(* ===== verification/Push_Guarantees.thy ===== *)
theory Push_Guarantees
  imports Push_Properties
begin

text \<open>The guarantees of a push as properties, with a disk and a service on which they can be seen.\<close>

section \<open>Lemmas\<close>

text \<open>A candidate that was built: its parts come from a scan that was expanded and stamped.\<close>

lemma build_candidate_scan:
  assumes "build_candidate sc ancestor dirty_paths trust ledger s = (Inr (candidate, ledger'), s')"
    and "finite dirty_paths" and "stays sc I" and "I s"
  obtains found w clock where "scanned_ok sc I (sc_canonical sc ` dirty_paths) found"
    and "candidate = prove_candidate w (sc_timestamps sc) clock
      ((expand_subtree_removals found ancestor)\<lparr>cd_scanned := sc_canonical sc ` dirty_paths\<rparr>)"
proof -
  let ?publish = "sorted_list_of_set (sc_canonical sc ` dirty_paths)"
  have publish: "set ?publish = sc_canonical sc ` dirty_paths" "distinct ?publish" using assms(2) by simp_all
  obtain found t where scan: "scan_all sc ancestor trust ?publish Candidate_default ledger s = (Inr (found, ledger'), t)"
    and candidate: "candidate = prove_candidate (sc_world sc s') (sc_timestamps sc) (fst (sc_clock sc t))
      ((expand_subtree_removals found ancestor)\<lparr>cd_scanned := set ?publish\<rparr>)"
    using assms(1) by (auto simp: build_candidate_def Let_def split: prod.splits sum.splits)
  have "scanned_ok sc I {} Candidate_default" by (simp add: scanned_ok_def Candidate_default_def)
  then have "scanned_ok sc I (sc_canonical sc ` dirty_paths) found"
    using scan_all_ok[OF assms(3,4) scan _ publish(2), of "{}"] publish(1) by simp
  then show thesis using candidate publish(1) that by simp
qed

lemma candidate_ok_scanned [simp]: "candidate_ok (c\<lparr>cd_scanned := X\<rparr>) = candidate_ok c"
  by (simp add: candidate_ok_def)

lemma build_candidate_ok:
  assumes "build_candidate sc ancestor dirty_paths trust ledger s = (Inr (candidate, ledger'), s')" and "finite dirty_paths"
  shows "candidate_ok candidate"
proof -
  obtain found w clock where found: "scanned_ok sc (\<lambda>_. True) (sc_canonical sc ` dirty_paths) found"
    and candidate: "candidate = prove_candidate w (sc_timestamps sc) clock
      ((expand_subtree_removals found ancestor)\<lparr>cd_scanned := sc_canonical sc ` dirty_paths\<rparr>)"
    by (rule build_candidate_scan[OF assms, of "\<lambda>_. True"]) (auto simp: stays_def)
  show ?thesis unfolding candidate by (intro prove_candidate_ok) (simp add: expanded_ok[OF found])
qed

section \<open>Deletions\<close>

text \<open>C5. What is there is not published as deleted. A path that is present, readable or not, at
  every moment of the scan, below directories that are, is not among the removals of the
  candidate, whatever other programs do to the rest of the workspace meanwhile.\<close>

theorem present_path_is_not_removed:
  assumes "build_candidate sc ancestor dirty_paths trust ledger s = (Inr (candidate, ledger'), s')" and "finite dirty_paths"
    and "stays sc I" and "I s"
    and "\<forall>t. I t \<longrightarrow> w_observe (sc_world sc t) path \<noteq> Observe_Absent"
    and "\<forall>t parent. I t \<longrightarrow> is_descendant path parent \<longrightarrow> w_observe (sc_world sc t) parent \<noteq> Observe_Absent
      \<and> (\<forall>observed. w_observe (sc_world sc t) parent = Observe_Present observed \<longrightarrow> ob_kind observed = Kind_Directory)"
  shows "path \<notin> cd_removals candidate"
proof
  assume removed: "path \<in> cd_removals candidate"
  obtain found w clock where found: "scanned_ok sc I (sc_canonical sc ` dirty_paths) found"
    and candidate: "candidate = prove_candidate w (sc_timestamps sc) clock
      ((expand_subtree_removals found ancestor)\<lparr>cd_scanned := sc_canonical sc ` dirty_paths\<rparr>)"
    by (rule build_candidate_scan[OF assms(1-4)])
  have seen: "\<exists>t. I t \<and> w_observe (sc_world sc t) p = Observe_Absent" if "p \<in> cd_removals found" for p
    using found that by (simp add: scanned_ok_def)
  consider "path \<in> cd_removals found" | root where "root \<in> destructive_roots found ancestor" "is_descendant path root"
    using removed unfolding candidate by (auto simp: expanded_removals is_below_destructive_root_def)
  then show False
  proof cases
    case 1
    then show ?thesis using seen assms(5) by blast
  next
    case (2 root)
    show ?thesis
    proof (cases "root \<in> cd_removals found")
      case True
      then show ?thesis using seen assms(6) 2(2) by blast
    next
      case False
      then obtain r entry where up: "(root, r, entry) \<in> set (cd_upserts found)" "replaces_directory ancestor root entry"
        using 2(1) by (auto simp: destructive_roots_def)
      have "map_of (cd_upserts found) root = Some (r, entry)"
        using up(1) found by (simp add: scanned_ok_def bt_set_iff)
      then obtain t observed where "I t" "w_observe (sc_world sc t) root = Observe_Present observed" "ob_kind observed = entry_kind entry"
        using found unfolding scanned_ok_def by blast
      moreover have "entry_kind entry \<noteq> Kind_Directory"
        using up(2) by (cases entry) (simp_all add: replaces_directory_def)
      ultimately show ?thesis using assms(6) 2(2) by metis
    qed
  qed
qed

section \<open>The published delta\<close>

lemma removals_closed_iff:
  "removals_closed entries changes \<longleftrightarrow>
     (\<forall>path p e. (path, None) \<in> set changes \<longrightarrow> (p, e) \<in> set entries \<longrightarrow> is_descendant p path \<longrightarrow> map_of changes p \<noteq> None)"
  by (auto simp: removals_closed_def list_all_iff is_descendant_prefix)

text \<open>C6. The delta of a push is the update of its manifest. For the rows that this device has
  materialized, the changes of a candidate are ones the copy-on-write patch accepts (removals
  take every tracked path below them along), and patching them in has the entries that building
  the whole manifest from all rows and the candidate has.\<close>

theorem delta_is_the_update:
  assumes "build_candidate sc (files_in_scopes (sc_canonical sc ` dirty_paths) store) dirty_paths trust ledger s = (Inr (candidate, ledger'), s')"
    and "finite dirty_paths" and "bt_ok (st_files store)" and "ancestor_entries (st_files store) [] = Inr entries"
    and "proper_paths entries"
  shows "patchable entries (manifest_changes candidate)
    \<and> build_manifest (all_files store) candidate key_epoch =
        Inr \<lparr>mf_key_epoch = key_epoch, mf_entries = update_entries entries (manifest_changes candidate)\<rparr>"
proof -
  let ?ancestor = "files_in_scopes (sc_canonical sc ` dirty_paths) store"
  obtain found w clock where found: "scanned_ok sc (\<lambda>_. True) (sc_canonical sc ` dirty_paths) found"
    and candidate: "candidate = prove_candidate w (sc_timestamps sc) clock
      ((expand_subtree_removals found ?ancestor)\<lparr>cd_scanned := sc_canonical sc ` dirty_paths\<rparr>)"
    by (rule build_candidate_scan[OF assms(1,2), of "\<lambda>_. True"]) (auto simp: stays_def)
  have ok: "candidate_ok candidate" by (rule build_candidate_ok[OF assms(1,2)])
  have rows: "map_of entries path = None \<longleftrightarrow> map_of (st_files store) path = None" for path
    using ancestor_entries_map[OF assms(4) _ bt_ok_distinct[OF assms(3)]] by (simp split: option.split)
  have tracked: "p \<in> fst ` set (st_files store)" if "(p, e) \<in> set entries" for p e
    using rows[of p] that by (metis map_of_eq_None_iff fst_conv image_eqI)
  have removals: "cd_removals candidate = cd_removals (expand_subtree_removals found ?ancestor)" by (simp add: candidate)
  have scope: "\<exists>root \<in> sc_canonical sc ` dirty_paths. path = root \<or> is_descendant path root" if "path \<in> cd_removals candidate" for path
  proof -
    have "cd_removals found \<subseteq> sc_canonical sc ` dirty_paths" "fst ` set (cd_upserts found) \<subseteq> sc_canonical sc ` dirty_paths"
      using found by (auto simp: scanned_ok_def dom_map_of_conv_image_fst)
    then show ?thesis
      using that unfolding removals expanded_removals
      by (fastforce simp: is_below_destructive_root_def destructive_roots_def files_in_scopes_subtree)
  qed
  have "map_of (manifest_changes candidate) p \<noteq> None"
    if "(path, None) \<in> set (manifest_changes candidate)" "(p, e) \<in> set entries" "is_descendant p path" for path p e
  proof -
    have "path \<in> cd_removals candidate"
      using that(1) unfolding bt_set_iff[OF manifest_changes_map(1)[OF ok]] manifest_changes_map(2)[OF ok]
      by (auto split: if_splits option.splits)
    moreover from scope[OF this] tracked[OF that(2)] that(3) have "p \<in> fst ` set ?ancestor"
      unfolding files_in_scopes_subtree using is_descendant_trans by fastforce
    ultimately have "p \<in> cd_removals candidate" using expanded_closed that(3) unfolding removals by blast
    then show ?thesis by (simp add: manifest_changes_map(2)[OF ok])
  qed
  then have closed: "removals_closed entries (manifest_changes candidate)" by (auto simp: removals_closed_iff)
  have upsert_keys: "map_of (cd_upserts found) path \<noteq> None" if "map_of (cd_upserts candidate) path \<noteq> None" for path
  proof -
    have "map_of (cd_upserts (expand_subtree_removals found ?ancestor)) path \<noteq> None"
      using that map_of_keys[of "cd_upserts candidate" "cd_upserts (expand_subtree_removals found ?ancestor)" path]
      unfolding candidate by simp
    then show ?thesis unfolding expanded_upserts by (simp split: if_splits)
  qed
  moreover have "[] \<notin> set (split_on slash path)" if "(path, e) \<in> set (manifest_changes candidate)" for path e
  proof -
    have "path \<in> cd_removals candidate \<or> map_of (cd_upserts candidate) path \<noteq> None"
      using that unfolding bt_set_iff[OF manifest_changes_map(1)[OF ok]] manifest_changes_map(2)[OF ok]
      by (auto split: if_splits option.splits)
    moreover have scanned: "publishable_workspace_path path MAX_WORKSPACE_PATH_LEN (sc_project_view sc) = Inr ()"
      if "path \<in> cd_removals found \<or> map_of (cd_upserts found) path \<noteq> None"
      using found that by (auto simp: scanned_ok_def)
    ultimately have "publishable_workspace_path path MAX_WORKSPACE_PATH_LEN (sc_project_view sc) = Inr () \<or> path \<in> fst ` set (st_files store)"
      using upsert_keys[of path] scanned unfolding removals expanded_removals files_in_scopes_subtree by auto
    then show ?thesis
    proof
      assume "path \<in> fst ` set (st_files store)"
      then obtain entry where "map_of entries path = Some entry" using rows[of path] by (metis map_of_eq_None_iff not_None_eq)
      then show ?thesis using assms(5) by (auto simp: proper_paths_def dest: map_of_SomeD)
    qed (auto simp: publishable_iff list_all_iff)
  qed
  ultimately show ?thesis
    using closed build_manifest_update[OF ok assms(3,4)] manifest_changes_map(1)[OF ok]
    by (auto simp: patchable_def list_all_iff all_files_def)
qed

section \<open>The compare-and-swap\<close>

text \<open>\<open>unmoved store store'\<close>: the ancestor, the frontier, the intents and the pending pushes are the
  same; the ledgers of uploads and of refused paths may have grown.\<close>

definition unmoved :: "manifest_store \<Rightarrow> manifest_store \<Rightarrow> bool" where
  "unmoved store store' \<longleftrightarrow> st_files store' = st_files store \<and> st_state store' = st_state store
     \<and> st_intents store' = st_intents store \<and> st_pending_push store' = st_pending_push store"

text \<open>\<open>proven_advance remote expected key version\<close>: the service swapped the ref from \<open>expected\<close> to the
  key, or, when its answer was lost, the ref was read back and has the key.\<close>

definition proven_advance :: "('b, 'o) push_remote \<Rightarrow> u64 option \<Rightarrow> ManifestKey \<Rightarrow> u64 \<Rightarrow> bool" where
  "proven_advance remote expected key version =
     (case pr_cas remote expected key of
        Inr (Cas_Advanced observed) \<Rightarrow> ref_version observed = version
      | Inr Cas_Ambiguous \<Rightarrow> pr_read_ref remote = Inr (Some \<lparr>ref_version = version, ref_manifest_key = key\<rparr>)
      | _ \<Rightarrow> False)"

text \<open>\<open>push_kept remote store (result, store')\<close>: what the outcome of a push says of the store.\<close>

definition push_kept :: "('b, 'o) push_remote \<Rightarrow> manifest_store \<Rightarrow> (PushError + PushOutcome) \<times> manifest_store \<Rightarrow> bool" where
  "push_kept remote store run =
     (case run of
        (Inr (Push_Advanced key version skipped), store') \<Rightarrow>
          proven_advance remote (last_ref_version (st_state store)) key version
          \<and> applied_ref (st_state store') = Inr (Head \<lparr>ref_version = version, ref_manifest_key = key\<rparr>)
          \<and> st_intents store' = st_intents store
          \<and> st_pending_push store' \<subseteq> st_pending_push store \<and> st_pending_push store \<inter> skipped \<subseteq> st_pending_push store'
      | (Inr (Push_NoChange skipped), store') \<Rightarrow>
          st_state store' = st_state store \<and> st_intents store' = st_intents store
          \<and> st_pending_push store' \<subseteq> st_pending_push store \<and> st_pending_push store \<inter> skipped \<subseteq> st_pending_push store'
      | (_, store') \<Rightarrow> unmoved store store')"

lemma unmoved_refl [simp]: "unmoved store store"
  by (simp add: unmoved_def)

lemma push_kept_unmoved: "unmoved store store1 \<Longrightarrow> push_kept remote store1 run \<Longrightarrow> push_kept remote store run"
  by (auto simp: push_kept_def unmoved_def split: prod.splits sum.splits PushOutcome.splits)

lemma record_tree_nodes_unmoved: "unmoved store (record_tree_nodes nodes key_epoch store)"
proof -
  have "unmoved store store1 \<Longrightarrow> unmoved store (fold (\<lambda>(hash, key). record_tree_node_epoch key key_epoch) nodes store1)" for store1
    by (induction nodes arbitrary: store1) (auto simp: record_tree_node_epoch_def unmoved_def)
  then show ?thesis by (simp add: record_tree_nodes_def unmoved_def)
qed

lemma publish_candidate_unmoved:
  "publish_candidate remote key_epoch state rebuild ancestor candidate store objs = Inr (key, store', objs') \<Longrightarrow> unmoved store store'"
  using record_tree_nodes_unmoved
  by (fastforce simp: publish_candidate_def upload_manifest_delta_def upload_manifest_def record_tree_node_epoch_def unmoved_def
      split: option.splits bool.splits sum.splits prod.splits)

lemma record_scan_outcome_unmoved:
  "record_scan_outcome remote ledger candidate store = Inr store' \<Longrightarrow> unmoved store store'"
  by (auto simp: record_scan_outcome_def record_unsyncable_outcome_def record_unsyncable_def record_sealed_blobs_def unmoved_def
      split: sum.splits if_splits)

lemma applied_after_advance:
  "set_applied key version state = Inr state' \<Longrightarrow>
   applied_ref (advance_verified_ratchet key version' state') = Inr (Head \<lparr>ref_version = version, ref_manifest_key = key\<rparr>)"
  by (auto simp: set_applied_def map_sum_Inr advance_verified_ratchet_def applied_ref_def)

lemma settled_not_skipped: "settled_paths candidate \<inter> cd_skipped candidate = {}"
  by (auto simp: settled_paths_def)

lemma commit_advance_kept:
  assumes "proven_advance remote (last_ref_version (st_state store)) key version"
  shows "push_kept remote store (commit_advance candidate key version store)"
  using assms settled_not_skipped[of candidate]
  by (auto simp: commit_advance_def commit_push_success_def push_kept_def to_i64_def applied_after_advance split: sum.splits if_splits)

lemma settle_no_change_kept: "push_kept remote store (settle_no_change candidate store)"
  using settled_not_skipped[of candidate]
  by (auto simp: settle_no_change_def commit_push_no_change_def push_kept_def map_sum_Inr split: sum.splits)

lemma resolve_cas_kept:
  assumes "pr_cas remote (last_ref_version (st_state store)) key = Inr outcome"
  shows "push_kept remote store (resolve_cas remote candidate key outcome store)"
proof -
  have lost: "push_kept remote store (Inr (Push_RefLost r), store)" "push_kept remote store (Inl e, store)" for r e
    by (simp_all add: push_kept_def)
  show ?thesis
  proof (cases outcome)
    case (Cas_Advanced observed)
    then show ?thesis using assms by (auto simp: resolve_cas_def proven_advance_def intro: commit_advance_kept)
  next
    case Cas_Ambiguous
    show ?thesis
    proof (cases "\<exists>current. pr_read_ref remote = Inr (Some current) \<and> ref_manifest_key current = key")
      case True
      then obtain current where current: "pr_read_ref remote = Inr (Some current)" "ref_manifest_key current = key" by blast
      then have "proven_advance remote (last_ref_version (st_state store)) key (ref_version current)"
        using assms Cas_Ambiguous by (cases current) (simp add: proven_advance_def)
      then show ?thesis using current Cas_Ambiguous by (simp add: resolve_cas_def commit_advance_kept)
    next
      case False
      then show ?thesis using Cas_Ambiguous lost by (auto simp: resolve_cas_def split: sum.split option.split)
    qed
  qed (simp add: resolve_cas_def lost)
qed

definition result_and_store :: "'r \<times> manifest_store \<times> 'o \<Rightarrow> 'r \<times> manifest_store" where
  "result_and_store run = (fst run, fst (snd run))"

lemma result_and_store_simps [simp]:
  "result_and_store (r, store, objs) = (r, store)"
  "result_and_store (case pair of (r, store) \<Rightarrow> (r, store, objs)) = pair"
  "(case (case run of (r, store, objs) \<Rightarrow> (r, s, store, objs)) of (r, s', store', objs') \<Rightarrow> (r, store')) = result_and_store run"
  by (simp_all add: result_and_store_def split: prod.split)

lemma push_kept_failed [simp]: "unmoved store store' \<Longrightarrow> push_kept remote store (Inl e, store')"
  by (simp add: push_kept_def)

lemma push_candidate_kept:
  assumes "state = st_state store"
  shows "push_kept remote store (result_and_store
    (push_candidate remote key_epoch state rebuild ancestor_count ancestor durable_pending deletions candidate store objs))"
proof (cases "publish_candidate remote key_epoch state rebuild ancestor candidate store objs")
  case (Inl e)
  then show ?thesis using settle_no_change_kept by (auto simp: push_candidate_def split: sum.split)
next
  case (Inr published)
  obtain key store1 objs1 where published: "published = (key, store1, objs1)" by (cases published)
  then have unmoved: "unmoved store store1" using Inr publish_candidate_unmoved by blast
  have "push_kept remote store (settle_no_change candidate store1)"
    by (rule push_kept_unmoved[OF unmoved settle_no_change_kept])
  moreover have "push_kept remote store (resolve_cas remote candidate key outcome store1)"
    if "pr_cas remote (last_ref_version state) key = Inr outcome" for outcome
    using that unmoved assms push_kept_unmoved[OF unmoved resolve_cas_kept[of remote store1 key outcome candidate]]
    by (simp add: unmoved_def)
  ultimately show ?thesis using settle_no_change_kept published Inr unmoved
    by (auto simp: push_candidate_def split: sum.split)
qed

text \<open>C4. The ancestor moves only with the ref. A push that fails or loses the swap leaves the
  ancestor rows, the frontier, the intents and the pending pushes as they were; one that found
  nothing to publish leaves the frontier. A push reports an advance only when the service said
  it swapped the ref from the version this device had applied, or the ref, read back after a
  lost answer, has the published key; then the applied ref is exactly that head. Paths that
  could not be settled and were pending stay pending.\<close>

theorem push_commits_only_on_advance:
  "push_kept remote store (case push_scanned sc remote dirty_paths trust deletions s store objs of
     (result, s', store', objs') \<Rightarrow> (result, store'))"
proof (cases "engine_state store")
  case (Inl e)
  then show ?thesis by (simp add: push_scanned_def Let_def)
next
  case (Inr state)
  then have state: "state = st_state store" by (auto simp: engine_state_def split: sum.splits)
  let ?ancestor = "files_in_scopes (sc_canonical sc ` dirty_paths) store"
  obtain scan s1 where scan: "build_candidate sc ?ancestor dirty_paths trust (BlobLedger_new store (sc_key_epoch sc)) s = (scan, s1)"
    by force
  show ?thesis
  proof (cases scan)
    case (Inl e)
    then show ?thesis using Inr scan by (simp add: push_scanned_def Let_def)
  next
    case built: (Inr pair)
    obtain candidate ledger where pair: "pair = (candidate, ledger)" by force
    show ?thesis
    proof (cases "record_scan_outcome remote ledger candidate store")
      case (Inl e)
      then show ?thesis using Inr scan built pair by (simp add: push_scanned_def Let_def)
    next
      case recorded: (Inr recorded)
      have unmoved: "unmoved store recorded" by (rule record_scan_outcome_unmoved[OF recorded])
      then have "state = st_state recorded" by (simp add: state unmoved_def)
      from push_kept_unmoved[OF unmoved push_candidate_kept[OF this]] show ?thesis
        using Inr scan built pair recorded by (simp add: push_scanned_def Let_def)
    qed
  qed
qed

end
