(* ===== verification/Push_Examples.thy ===== *)
theory Push_Examples
  imports Push_Guarantees
begin

text \<open>A disk, a store and a service on which the properties of the push can be seen.\<close>

definition shown :: "EntryKind \<Rightarrow> nat \<Rightarrow> Observed" where
  "shown kind n = \<lparr>ob_kind = kind, ob_size = n, ob_mode = 493, ob_symlink_target = None,
     ob_fingerprint = \<lparr>mtime_ns = 5, ctime_ns = 5, inode = 1, dev = 1\<rparr>\<rparr>"

text \<open>A directory \<open>d\<close> with an unreadable file \<open>d/a\<close>; a file \<open>big\<close> that can be read at even
  moments only.\<close>

definition shaky_world :: "nat \<Rightarrow> world" where
  "shaky_world moment = \<lparr>
     w_observe = (\<lambda>path. if path = ''d'' then Observe_Present (shown Kind_Directory 0)
       else if path = ''d/a'' then Observe_Unsyncable PermissionDenied
       else if path = ''big'' then Observe_Present (shown Kind_File 1) else Observe_Absent),
     w_read = (\<lambda>_ _. if even moment then Inr (Read_Bytes ''x'') else Inl (Push_Io \<lparr>io_kind = Io_Other, raw_os_error = Some 5\<rparr>)),
     w_lstat = (\<lambda>_. Lstat_Missing), w_content_id = (\<lambda>bytes. ''cid_'' @ bytes), w_content_id_at = (\<lambda>_ bytes. Some (''cid_'' @ bytes)),
     w_now = 9\<rparr>"

definition shaky_scanner :: "nat scanner" where
  "shaky_scanner = \<lparr>sc_world = shaky_world, sc_others = Suc, sc_put = (\<lambda>_ bytes s. (Inr (''b_'' @ bytes), s)),
     sc_clock = (\<lambda>s. (Some 9, s)), sc_key_epoch = 1, sc_large_file_threshold = 1, sc_timestamps = NANOSECOND,
     sc_project_view = False, sc_canonical = id\<rparr>"

definition held :: "EntryKind \<Rightarrow> FileRecord" where
  "held kind = \<lparr>fr_kind = kind, fr_size = 0, fr_mode = 493, fr_symlink_target = Some ''t'', fr_content_id = Some ''cid_'',
     fr_blob_key = Some ''b_'', fr_key_epoch = Some 1, fr_fingerprint = \<lparr>mtime_ns = 4, ctime_ns = 4, inode = 1, dev = 1\<rparr>,
     fr_hashed_at = None, fr_verified_at = None\<rparr>"

definition held_store :: manifest_store where
  "held_store = \<lparr>st_files = [(''d'', held Kind_Directory), (''d/a'', held Kind_File), (''x'', held Kind_Directory), (''x/y'', held Kind_Symlink)],
     st_state = EngineState_default, st_intents = [], st_pending_push = {}, st_unsyncable = [], st_blobs = [],
     st_tree_nodes = [], st_node_epochs = []\<rparr>"

lemma publishable_examples:
  "publishable_workspace_path ''d/a'' 4096 False = Inr ()" "publishable_workspace_path ''x'' 4096 False = Inr ()"
  "publishable_workspace_path ''big'' 4096 False = Inr ()"
  by (simp_all add: publishable_iff MAX_WORKSPACE_PATH_DEPTH_def is_private_workspace_state_path_def
      is_recovery_temp_component_def is_recovery_quarantine_component_def is_recovery_nonce_component_def strip_prefix_def)

lemma sorted_dirty: "sorted_list_of_set {''d/a'', ''x''} = [''d/a'', ''x'']"
  by (simp add: sorted_list_of_set_insert_remove)

lemma scoped_rows:
  "files_in_scopes {''d/a'', ''x''} held_store = [(''d/a'', held Kind_File), (''x'', held Kind_Directory), (''x/y'', held Kind_Symlink)]"
  by (simp add: files_in_scopes_subtree held_store_def is_descendant_def)

definition found_candidate :: Candidate where
  "found_candidate = \<lparr>cd_upserts = [], cd_removals = {''x'', ''x/y''}, cd_local_refreshes = [],
     cd_unsyncable = [(''d/a'', \<lparr>us_reason = PermissionDenied, us_errno = None, us_observed_at = 9\<rparr>)],
     cd_skipped = {}, cd_scanned = {''d/a'', ''x''}\<rparr>"

lemma found:
  "build_candidate shaky_scanner (files_in_scopes {''d/a'', ''x''} held_store) {''d/a'', ''x''} Trust_Never
     (BlobLedger_new held_store 1) 0 = (Inr (found_candidate, BlobLedger_new held_store 1), 2)"
  unfolding scoped_rows
  by (auto simp: build_candidate_def shaky_scanner_def sorted_dirty publishable_examples MAX_WORKSPACE_PATH_LEN_def
      scan_path_def numeral_2_eq_2 shaky_world_def UnsyncableRecord_new_def Candidate_default_def expand_subtree_removals_def
      destructive_roots_def is_below_destructive_root_def is_descendant_def prove_candidate_def prove_rows_def found_candidate_def
      Let_def)

theorem present_path_is_not_removed_witness:
  "''d/a'' \<notin> cd_removals found_candidate \<and> ''x/y'' \<in> cd_removals found_candidate"
proof -
  have parent: "parent = ''d''" if "is_descendant ''d/a'' parent" for parent
    using that by (cases parent; cases "tl parent"; cases "tl (tl parent)") (auto simp: is_descendant_def)
  have "''d/a'' \<notin> cd_removals found_candidate"
    by (rule present_path_is_not_removed[OF found, of "\<lambda>_. True"])
      (auto simp: stays_def shaky_scanner_def shaky_world_def shown_def dest!: parent)
  then show ?thesis by (simp add: found_candidate_def)
qed

theorem delta_is_the_update_witness:
  "\<exists>entries. patchable entries (manifest_changes found_candidate) \<and> map_of entries ''x/y'' \<noteq> None
     \<and> build_manifest (all_files held_store) found_candidate 1 =
         Inr \<lparr>mf_key_epoch = 1, mf_entries = update_entries entries (manifest_changes found_candidate)\<rparr>"
proof -
  let ?entries = "[(''d'', Directory 493), (''d/a'', File 0 493 ''cid_'' ''b_'' 1), (''x'', Directory 493), (''x/y'', Symlink 493 ''t'')]"
  have entries: "ancestor_entries (st_files held_store) [] = Inr ?entries"
    by (simp add: held_store_def held_def file_record_to_entry_def)
  have rows: "bt_ok (st_files held_store)" by (simp add: held_store_def bt_ok_def)
  have paths: "proper_paths ?entries" by code_simp
  have built: "build_candidate shaky_scanner (files_in_scopes (sc_canonical shaky_scanner ` {''d/a'', ''x''}) held_store) {''d/a'', ''x''} Trust_Never
     (BlobLedger_new held_store 1) 0 = (Inr (found_candidate, BlobLedger_new held_store 1), 2)"
    using found by (simp add: shaky_scanner_def)
  have "patchable ?entries (manifest_changes found_candidate)
     \<and> build_manifest (all_files held_store) found_candidate 1 =
         Inr \<lparr>mf_key_epoch = 1, mf_entries = update_entries ?entries (manifest_changes found_candidate)\<rparr>"
    by (rule delta_is_the_update[OF built _ rows entries paths]) simp
  moreover have "map_of ?entries ''x/y'' \<noteq> None" by simp
  ultimately show ?thesis by blast
qed

section \<open>The second read of a large file\<close>

lemma scan_one:
  assumes "publishable_workspace_path path MAX_WORKSPACE_PATH_LEN (sc_project_view sc) = Inr ()"
    and "w_observe (sc_world sc s) path = Observe_Present observed"
    and "ob_kind observed = Kind_File"
    and "fst (file_candidate sc path observed (map_of ancestor path) trust ledger (sc_others sc s)) = Inl e"
    and "sc_canonical sc path = path"
  shows "fst (build_candidate sc ancestor {path} trust ledger s) = Inl e"
proof -
  obtain t where "file_candidate sc path observed (map_of ancestor path) trust ledger (sc_others sc s) = (Inl e, t)"
    using assms(4) by (metis prod.collapse)
  then show ?thesis
    using assms(1-3,5) by (simp add: build_candidate_def scan_path_def numeral_2_eq_2 scan_observed_def Let_def)
qed



end
