(* ===== verification/Engine_Driver.thy ===== *)
theory Engine_Driver
  imports Push_Cycle Pull_Recovery
begin

text \<open>
  The driver of one workspace, first part: the engine's state (\<^verbatim>\<open>mod.rs\<close>, \<^verbatim>\<open>state.rs\<close>), the dirty
  set (\<^verbatim>\<open>dirty_set.rs\<close>), the events it folds in (\<^verbatim>\<open>events.rs\<close>, \<open>on_event\<close>), its deadlines, and the
  classification of failures (\<^verbatim>\<open>cycle_outcome.rs\<close>, \<open>absorb_cycle_error\<close>). Milliseconds are natural
  numbers; the cost counters are left out.
\<close>

section \<open>Vocabulary\<close>

datatype EnginePhase = Phase_Starting | Phase_Idle | Phase_Syncing | Phase_BackingOff | Phase_Stalled | Phase_Stopped

datatype FullScanReason =
    WatcherOverflow
  | IngressDetailCollapsed
  | WatcherDisconnected
  | RootReplaced
  | PeriodicAudit
  | Scan_ConvergenceBarrier

datatype RootFault = Root_Missing | NotADirectory | Root_Unreadable | MarkerMissing | MarkerMismatch | MarkerUnreadable

datatype RootState = Root_Ready | Root_Faulted RootFault

datatype Degradation =
    Nominal
  | FullScanRequired FullScanReason
  | OfflineRetrying u32
  | IntegrityStalled
  | Degraded_RootUnavailable RootFault
  | MassDeletionBlocked nat nat
  | StoreUnavailable

type_synonym EngineConvergenceBarrierId = u64
type_synonym EngineEndpointGeneration = u64

datatype EngineEvent =
    Event_Paths "WorkspacePath set"
  | Event_RecursivePaths "WorkspacePath set"
  | Event_FullScanRequired FullScanReason
  | Event_RefChanged
  | Event_RefObserved RefObservation
  | Event_ConnectivityRestored
  | Event_ConvergenceBarrier EngineConvergenceBarrierId EngineEndpointGeneration
  | Event_CancelConvergenceBarrier EngineConvergenceBarrierId EngineEndpointGeneration
  | Event_ConfirmMassDeletion
  | Event_Shutdown

datatype DeletionConfirmation = Authorized nat nat | NotBlocked

record EngineProcessIdentity =
  pi_boot_id :: string
  pi_session_id :: string
  pi_started_at :: string

text \<open>What the driver uses of the engine context.\<close>

record EngineContext =
  ec_process_identity :: EngineProcessIdentity
  ec_workspace_identity :: string
  ec_device_id :: string
  ec_names :: NameFolding
  ec_timestamps :: TimestampGranularity

definition EngineRef_from_observation :: "RefObservation option \<Rightarrow> EngineRef" where
  "EngineRef_from_observation observation = (case observation of None \<Rightarrow> Genesis | Some head \<Rightarrow> Head head)"

section \<open>Snapshots and receipts\<close>

record EngineSnapshot =
  es_revision :: u64
  es_phase :: EnginePhase
  es_observed_ref :: "RefObservation option"
  es_applied_ref :: EngineRef
  es_materialization_revision :: u64
  es_pending_intents :: nat
  es_dirty :: nat
  es_dirty_paths :: "WorkspacePath set"
  es_dirty_subtree_paths :: "WorkspacePath set"
  es_pending_intent_paths :: "WorkspacePath set"
  es_scan_required :: bool
  es_unattributed_pull_pending :: bool
  es_cycle_active :: bool
  es_last_success_at :: "u64 option"
  es_degradation :: Degradation
  es_unsyncable :: "(WorkspacePath, UnsyncableRecord) btree_map"
  es_refused_removals :: "WorkspacePath set"

record EngineConvergenceReceipt =
  cr_process_identity :: EngineProcessIdentity
  cr_workspace_identity :: string
  cr_endpoint_generation :: EngineEndpointGeneration
  cr_barrier_id :: EngineConvergenceBarrierId
  cr_engine_revision :: u64
  cr_observed_ref :: EngineRef
  cr_applied_ref :: EngineRef
  cr_materialization_revision :: u64

definition exact_observed_ref :: "EngineSnapshot \<Rightarrow> EngineRef" where
  "exact_observed_ref snapshot = EngineRef_from_observation (es_observed_ref snapshot)"

definition is_work_drained :: "EngineSnapshot \<Rightarrow> bool" where
  "is_work_drained snapshot \<longleftrightarrow>
     es_phase snapshot = Phase_Idle \<and> es_pending_intents snapshot = 0 \<and> es_dirty snapshot = 0
     \<and> es_dirty_paths snapshot = {} \<and> es_dirty_subtree_paths snapshot = {} \<and> es_pending_intent_paths snapshot = {}
     \<and> \<not> es_scan_required snapshot \<and> \<not> es_unattributed_pull_pending snapshot \<and> \<not> es_cycle_active snapshot"

definition is_exactly_converged :: "EngineSnapshot \<Rightarrow> bool" where
  "is_exactly_converged snapshot \<longleftrightarrow>
     is_work_drained snapshot \<and> es_degradation snapshot = Nominal
     \<and> exact_observed_ref snapshot = es_applied_ref snapshot
     \<and> es_unsyncable snapshot = [] \<and> es_refused_removals snapshot = {}"

definition convergence_receipt ::
  "EngineProcessIdentity \<Rightarrow> string \<Rightarrow> EngineEndpointGeneration \<Rightarrow> EngineConvergenceBarrierId \<Rightarrow> EngineSnapshot \<Rightarrow>
   EngineConvergenceReceipt option" where
  "convergence_receipt process_identity workspace_identity endpoint_generation barrier_id snapshot =
     (if \<not> is_exactly_converged snapshot then None
      else Some \<lparr>cr_process_identity = process_identity, cr_workspace_identity = workspace_identity,
        cr_endpoint_generation = endpoint_generation, cr_barrier_id = barrier_id,
        cr_engine_revision = es_revision snapshot, cr_observed_ref = exact_observed_ref snapshot,
        cr_applied_ref = es_applied_ref snapshot, cr_materialization_revision = es_materialization_revision snapshot\<rparr>)"

record StateSig =
  sg_phase :: EnginePhase
  sg_degradation :: Degradation
  sg_applied_ref :: EngineRef
  sg_materialization_revision :: u64
  sg_observed_ref :: EngineRef
  sg_pending_intents :: nat
  sg_pending_intent_paths :: "WorkspacePath set"
  sg_dirty_paths :: "WorkspacePath set"
  sg_dirty_subtree_paths :: "WorkspacePath set"
  sg_scan_required :: bool
  sg_unattributed_pull_pending :: bool
  sg_cycle_active :: bool
  sg_unsyncable :: "(WorkspacePath, UnsyncableRecord) btree_map"
  sg_refused_removals :: "WorkspacePath set"

section \<open>The engine\<close>

type_synonym DirtySeq = u64

record ManifestEngine =
  me_store :: manifest_store
  me_ctx :: EngineContext
  me_dirty :: "WorkspacePath set"
  me_dirty_seen :: "(WorkspacePath, DirtySeq) btree_map"
  me_next_dirty_seq :: DirtySeq
  me_published_batch :: "WorkspacePath set"
  me_dirty_subtrees :: "WorkspacePath set"
  me_scan_required :: bool
  me_pull_needed :: bool
  me_pending_ref_hint :: "RefObservation option"
  me_force_ref_read :: bool
  me_unattributed_pull_pending :: bool
  me_startup_reconcile :: bool
  me_startup_pending :: "WorkspacePath set"
  me_cycle_active :: bool
  me_authoritative_scan_active :: bool
  me_debounce_deadline :: "u64 option"
  me_max_latency_deadline :: "u64 option"
  me_backoff_deadline :: "u64 option"
  me_backoff_attempt :: u32
  me_audit_deadline :: "u64 option"
  me_audit_round :: u32
  me_stall_deadline :: "u64 option"
  me_confirmed_removals :: "WorkspacePath set option"
  me_revision :: u64
  me_phase :: EnginePhase
  me_head_ref :: "RefObservation option"
  me_applied_ref :: EngineRef
  me_materialization_revision :: u64
  me_pending_intents :: nat
  me_pending_intent_paths :: "WorkspacePath set"
  me_last_success_at :: "u64 option"
  me_degradation :: Degradation
  me_unsyncable :: "(WorkspacePath, UnsyncableRecord) btree_map"
  me_refused_removals :: "WorkspacePath set"
  me_last_sig :: "StateSig option"
  me_pending_barriers :: "(EngineConvergenceBarrierId, EngineEndpointGeneration) btree_map"
  me_completed_barriers :: "(EngineConvergenceBarrierId, EngineConvergenceReceipt) btree_map"

definition ManifestEngine_new :: "manifest_store \<Rightarrow> EngineContext \<Rightarrow> ManifestEngine" where
  "ManifestEngine_new store ctx = \<lparr>
     me_store = store, me_ctx = ctx, me_dirty = {}, me_dirty_seen = [], me_next_dirty_seq = 0,
     me_published_batch = {}, me_dirty_subtrees = {}, me_scan_required = False, me_pull_needed = False,
     me_pending_ref_hint = None, me_force_ref_read = False, me_unattributed_pull_pending = False,
     me_startup_reconcile = True, me_startup_pending = {}, me_cycle_active = False,
     me_authoritative_scan_active = False, me_debounce_deadline = None, me_max_latency_deadline = None,
     me_backoff_deadline = None, me_backoff_attempt = 0, me_audit_deadline = None, me_audit_round = 0,
     me_stall_deadline = None, me_confirmed_removals = None, me_revision = 0, me_phase = Phase_Starting,
     me_head_ref = None, me_applied_ref = Genesis, me_materialization_revision = 0, me_pending_intents = 0,
     me_pending_intent_paths = {}, me_last_success_at = None, me_degradation = Nominal, me_unsyncable = [],
     me_refused_removals = {}, me_last_sig = None, me_pending_barriers = [], me_completed_barriers = []\<rparr>"

definition engine_snapshot :: "ManifestEngine \<Rightarrow> EngineSnapshot" where
  "engine_snapshot me = \<lparr>
     es_revision = me_revision me, es_phase = me_phase me, es_observed_ref = me_head_ref me,
     es_applied_ref = me_applied_ref me, es_materialization_revision = me_materialization_revision me,
     es_pending_intents = me_pending_intents me,
     es_dirty = card (me_dirty me) + card (me_dirty_subtrees me),
     es_dirty_paths = me_dirty me, es_dirty_subtree_paths = me_dirty_subtrees me,
     es_pending_intent_paths = me_pending_intent_paths me, es_scan_required = me_scan_required me,
     es_unattributed_pull_pending = me_unattributed_pull_pending me, es_cycle_active = me_cycle_active me,
     es_last_success_at = me_last_success_at me, es_degradation = me_degradation me,
     es_unsyncable = me_unsyncable me, es_refused_removals = me_refused_removals me\<rparr>"

definition state_sig :: "ManifestEngine \<Rightarrow> StateSig" where
  "state_sig me = \<lparr>
     sg_phase = me_phase me, sg_degradation = me_degradation me, sg_applied_ref = me_applied_ref me,
     sg_materialization_revision = me_materialization_revision me,
     sg_observed_ref = EngineRef_from_observation (me_head_ref me),
     sg_pending_intents = me_pending_intents me, sg_pending_intent_paths = me_pending_intent_paths me,
     sg_dirty_paths = me_dirty me, sg_dirty_subtree_paths = me_dirty_subtrees me,
     sg_scan_required = me_scan_required me, sg_unattributed_pull_pending = me_unattributed_pull_pending me,
     sg_cycle_active = me_cycle_active me, sg_unsyncable = me_unsyncable me,
     sg_refused_removals = me_refused_removals me\<rparr>"

definition bump_revision_if_changed :: "ManifestEngine \<Rightarrow> ManifestEngine" where
  "bump_revision_if_changed me =
     (let sig = state_sig me
      in if me_last_sig me \<noteq> Some sig then me\<lparr>me_revision := me_revision me + 1, me_last_sig := Some sig\<rparr> else me)"

fun is_mass_deletion_blocked :: "Degradation \<Rightarrow> bool" where
  "is_mass_deletion_blocked (MassDeletionBlocked _ _) = True"
| "is_mass_deletion_blocked _ = False"

definition set_degradation :: "Degradation \<Rightarrow> ManifestEngine \<Rightarrow> ManifestEngine" where
  "set_degradation degradation me =
     (if \<not> is_mass_deletion_blocked degradation \<and> me_refused_removals me \<noteq> {}
      then me\<lparr>me_refused_removals := {}, me_degradation := degradation\<rparr>
      else me\<lparr>me_degradation := degradation\<rparr>)"

definition block_mass_deletion :: "WorkspacePath set \<Rightarrow> nat \<Rightarrow> ManifestEngine \<Rightarrow> ManifestEngine" where
  "block_mass_deletion refused entries me =
     (set_degradation (MassDeletionBlocked (card refused) entries) me)\<lparr>me_refused_removals := refused\<rparr>"

definition idle :: "ManifestEngine \<Rightarrow> bool" where
  "idle me \<longleftrightarrow> me_dirty me = {} \<and> me_dirty_subtrees me = {} \<and> \<not> me_scan_required me \<and> \<not> me_pull_needed me"

definition degradation_is_transient :: "ManifestEngine \<Rightarrow> bool" where
  "degradation_is_transient me =
     (case me_degradation me of
        OfflineRetrying _ \<Rightarrow> True
      | FullScanRequired _ \<Rightarrow> True
      | IntegrityStalled \<Rightarrow> True
      | MassDeletionBlocked _ _ \<Rightarrow> True
      | _ \<Rightarrow> False)"

definition refresh_durable_state :: "ManifestEngine \<Rightarrow> ManifestEngine" where
  "refresh_durable_state me =
     (let (me, store_failed) =
        (case engine_state (me_store me) of
           Inl _ \<Rightarrow> (me, True)
         | Inr state \<Rightarrow>
             (case applied_ref state of
                Inl _ \<Rightarrow> (me, True)
              | Inr applied \<Rightarrow>
                  (me\<lparr>me_applied_ref := applied, me_materialization_revision := materialization_revision state\<rparr>, False)));
          intents = pending_intents (me_store me);
          me = me\<lparr>me_pending_intents := length intents, me_pending_intent_paths := set (map in_path intents),
             me_unsyncable := st_unsyncable (me_store me)\<rparr>
      in if store_failed then set_degradation StoreUnavailable me
         else if me_degradation me = StoreUnavailable then set_degradation Nominal me
         else me)"

definition refresh_and_bump :: "ManifestEngine \<Rightarrow> ManifestEngine" where
  "refresh_and_bump me = bump_revision_if_changed (refresh_durable_state me)"

section \<open>The dirty set\<close>

definition DirtySeq_next :: "DirtySeq \<Rightarrow> DirtySeq" where
  "DirtySeq_next seq = saturating_add_u64 seq 1"

definition canonical_paths :: "(string \<Rightarrow> string) \<Rightarrow> ManifestEngine \<Rightarrow> WorkspacePath set \<Rightarrow> WorkspacePath set" where
  "canonical_paths nfc me paths = canonical_spelling nfc (ec_names (me_ctx me)) ` paths"

definition absorb_dirty :: "(string \<Rightarrow> string) \<Rightarrow> WorkspacePath set \<Rightarrow> ManifestEngine \<Rightarrow> ManifestEngine" where
  "absorb_dirty nfc paths me =
     (let folded = canonical_paths nfc me paths;
          me = fold (\<lambda>path me. let seq = DirtySeq_next (me_next_dirty_seq me)
               in me\<lparr>me_next_dirty_seq := seq, me_dirty_seen := bt_insert path seq (me_dirty_seen me)\<rparr>)
             (sorted_list_of_set folded) me
      in me\<lparr>me_dirty := me_dirty me \<union> folded\<rparr>)"

definition absorb_authoritative_dirty ::
  "(string \<Rightarrow> string) \<Rightarrow> WorkspacePath set \<Rightarrow> DirtySeq \<Rightarrow> ManifestEngine \<Rightarrow> ManifestEngine" where
  "absorb_authoritative_dirty nfc paths observation_seq me =
     (let folded = canonical_paths nfc me paths
      in me\<lparr>me_dirty_seen := fold (\<lambda>path seen. bt_insert path
             (case map_of seen path of Some current \<Rightarrow> max current observation_seq | None \<Rightarrow> observation_seq) seen)
           (sorted_list_of_set folded) (me_dirty_seen me),
         me_dirty := me_dirty me \<union> folded\<rparr>)"

section \<open>Deadlines\<close>

definition DEBOUNCE_MS :: u64 where "DEBOUNCE_MS = 250"

definition MAX_LATENCY_MS :: u64 where "MAX_LATENCY_MS = 2000"

definition BACKOFF_BASE_MS :: u64 where "BACKOFF_BASE_MS = 250"

definition BACKOFF_CAP_MS :: u64 where "BACKOFF_CAP_MS = 5000"

definition AUDIT_INTERVAL_MIN_MS :: u64 where "AUDIT_INTERVAL_MIN_MS = 1800000"

definition AUDIT_INTERVAL_MAX_MS :: u64 where "AUDIT_INTERVAL_MAX_MS = 3600000"

definition STALL_REPROBE_MS :: u64 where "STALL_REPROBE_MS = 30000"

definition next_due :: "ManifestEngine \<Rightarrow> u64 option" where
  "next_due me =
     (case List.map_filter id [me_debounce_deadline me, me_max_latency_deadline me, me_backoff_deadline me,
        me_audit_deadline me, me_stall_deadline me] of
        [] \<Rightarrow> None
      | due # dues \<Rightarrow> Some (fold min dues due))"

definition next_timeout :: "u64 \<Rightarrow> ManifestEngine \<Rightarrow> u64 option" where
  "next_timeout now me = map_option (\<lambda>due. due - now) (next_due me)"

text \<open>The seed of both jitters: wrapping multiplication and addition over the bytes of the device.\<close>

definition jitter_seed :: "u64 \<Rightarrow> string \<Rightarrow> u64" where
  "jitter_seed start device =
     fold (\<lambda>c seed. (seed * 31 mod (u64_MAX + 1) + of_char c) mod (u64_MAX + 1)) device start"

definition arm_audit :: "u64 \<Rightarrow> ManifestEngine \<Rightarrow> ManifestEngine" where
  "arm_audit now me =
     (let round = (me_audit_round me + 1) mod (u32_MAX + 1);
          span = AUDIT_INTERVAL_MAX_MS - AUDIT_INTERVAL_MIN_MS;
          seed = jitter_seed round (ec_device_id (me_ctx me))
      in me\<lparr>me_audit_round := round,
         me_audit_deadline := Some (now + AUDIT_INTERVAL_MIN_MS + seed mod (span + 1))\<rparr>)"

definition arm_debounce :: "u64 \<Rightarrow> ManifestEngine \<Rightarrow> ManifestEngine" where
  "arm_debounce now me =
     me\<lparr>me_debounce_deadline := Some (now + DEBOUNCE_MS),
       me_max_latency_deadline :=
         (case me_max_latency_deadline me of None \<Rightarrow> Some (now + MAX_LATENCY_MS) | Some due \<Rightarrow> Some due)\<rparr>"

definition preempt_backoff :: "ManifestEngine \<Rightarrow> ManifestEngine" where
  "preempt_backoff me = me\<lparr>me_backoff_deadline := None, me_backoff_attempt := 0\<rparr>"

definition backoff_delay :: "string \<Rightarrow> u32 \<Rightarrow> u64" where
  "backoff_delay device attempt =
     (let exp = min (BACKOFF_BASE_MS * 2 ^ min attempt 8) u64_MAX;
          base = min exp BACKOFF_CAP_MS;
          jitter_span = base div 4
      in if jitter_span = 0 then base
         else base - jitter_span + jitter_seed attempt device mod (jitter_span + 1))"

definition enter_backoff :: "u64 \<Rightarrow> ManifestEngine \<Rightarrow> ManifestEngine" where
  "enter_backoff now me =
     (let attempt = min (me_backoff_attempt me + 1) u32_MAX;
          me = me\<lparr>me_backoff_attempt := attempt,
            me_backoff_deadline := Some (now + backoff_delay (ec_device_id (me_ctx me)) attempt)\<rparr>
      in (set_degradation (OfflineRetrying attempt) me)\<lparr>me_phase := Phase_BackingOff\<rparr>)"

section \<open>Events\<close>

definition confirm_mass_deletion :: "u64 \<Rightarrow> ManifestEngine \<Rightarrow> DeletionConfirmation \<times> ManifestEngine" where
  "confirm_mass_deletion now me =
     (case me_degradation me of
        MassDeletionBlocked refused entries \<Rightarrow>
          (let me = me\<lparr>me_confirmed_removals := Some (me_refused_removals me)\<rparr>;
               me = set_degradation Nominal me;
               me = preempt_backoff (me\<lparr>me_debounce_deadline := Some now\<rparr>)
           in (Authorized refused entries, bump_revision_if_changed me))
      | _ \<Rightarrow> (NotBlocked, me))"

definition coalesce_ref_hint :: "RefObservation \<Rightarrow> ManifestEngine \<Rightarrow> bool \<times> ManifestEngine" where
  "coalesce_ref_hint observed me =
     (let hint =
        (case me_pending_ref_hint me of
           None \<Rightarrow> (True, me\<lparr>me_pending_ref_hint := Some observed\<rparr>)
         | Some current \<Rightarrow>
             if ref_version observed > ref_version current then (True, me\<lparr>me_pending_ref_hint := Some observed\<rparr>)
             else if ref_version observed = ref_version current \<and> ref_manifest_key observed \<noteq> ref_manifest_key current
             then (True, me\<lparr>me_pending_ref_hint := None, me_force_ref_read := True\<rparr>)
             else (True, me))
      in if me_force_ref_read me then (True, me)
         else (case me_head_ref me of
             None \<Rightarrow> hint
           | Some head \<Rightarrow>
               if ref_version observed < ref_version head
                 \<or> (ref_version observed = ref_version head \<and> ref_manifest_key observed = ref_manifest_key head)
               then (False, me)
               else if ref_version observed = ref_version head
               then (True, me\<lparr>me_pending_ref_hint := None, me_force_ref_read := True\<rparr>)
               else hint))"

text \<open>A ref wakeup does not shorten the debounce of a burst of directory events.\<close>

definition ref_wakeup_deadline :: "u64 \<Rightarrow> ManifestEngine \<Rightarrow> ManifestEngine" where
  "ref_wakeup_deadline now me =
     (if me_dirty_subtrees me = {} \<or> me_debounce_deadline me = None then me\<lparr>me_debounce_deadline := Some now\<rparr> else me)"

definition demand_pull :: "ManifestEngine \<Rightarrow> ManifestEngine" where
  "demand_pull me = me\<lparr>me_pull_needed := True, me_unattributed_pull_pending := True\<rparr>"

definition drop_ref_hint :: "ManifestEngine \<Rightarrow> ManifestEngine" where
  "drop_ref_hint me = me\<lparr>me_pending_ref_hint := None, me_force_ref_read := True\<rparr>"

definition fold_event :: "(string \<Rightarrow> string) \<Rightarrow> EngineEvent \<Rightarrow> u64 \<Rightarrow> ManifestEngine \<Rightarrow> ManifestEngine" where
  "fold_event nfc event now me =
     (case event of
        Event_Paths paths \<Rightarrow> preempt_backoff (arm_debounce now (absorb_dirty nfc paths me))
      | Event_RecursivePaths paths \<Rightarrow>
          preempt_backoff (arm_debounce now
            (me\<lparr>me_dirty_subtrees := me_dirty_subtrees me \<union> canonical_paths nfc me paths\<rparr>))
      | Event_FullScanRequired reason \<Rightarrow>
          preempt_backoff ((set_degradation (FullScanRequired reason) (me\<lparr>me_scan_required := True\<rparr>))
            \<lparr>me_debounce_deadline := Some now\<rparr>)
      | Event_RefChanged \<Rightarrow> preempt_backoff (ref_wakeup_deadline now (demand_pull (drop_ref_hint me)))
      | Event_RefObserved observed \<Rightarrow>
          (case coalesce_ref_hint observed me of
             (True, me) \<Rightarrow> preempt_backoff (ref_wakeup_deadline now (demand_pull me))
           | (False, me) \<Rightarrow> me)
      | Event_ConnectivityRestored \<Rightarrow>
          preempt_backoff ((demand_pull (drop_ref_hint me))\<lparr>me_debounce_deadline := Some now\<rparr>)
      | Event_ConvergenceBarrier barrier generation \<Rightarrow>
          (let me = drop_ref_hint me;
               me = me\<lparr>me_pending_barriers := bt_insert barrier generation (me_pending_barriers me), me_scan_required := True\<rparr>;
               me = set_degradation (FullScanRequired Scan_ConvergenceBarrier) (demand_pull me)
           in preempt_backoff (me\<lparr>me_debounce_deadline := Some now\<rparr>))
      | Event_CancelConvergenceBarrier barrier generation \<Rightarrow>
          (let me = (if map_of (me_pending_barriers me) barrier = Some generation
                 then me\<lparr>me_pending_barriers := bt_remove barrier (me_pending_barriers me)\<rparr> else me)
           in if (case map_of (me_completed_barriers me) barrier of
                    Some receipt \<Rightarrow> cr_endpoint_generation receipt = generation
                  | None \<Rightarrow> False)
              then me\<lparr>me_completed_barriers := bt_remove barrier (me_completed_barriers me)\<rparr> else me)
      | Event_ConfirmMassDeletion \<Rightarrow> snd (confirm_mass_deletion now me)
      | Event_Shutdown \<Rightarrow> me\<lparr>me_phase := Phase_Stopped\<rparr>)"

definition on_event :: "(string \<Rightarrow> string) \<Rightarrow> EngineEvent \<Rightarrow> u64 \<Rightarrow> ManifestEngine \<Rightarrow> ManifestEngine" where
  "on_event nfc event now me = bump_revision_if_changed (fold_event nfc event now me)"

definition announce_due_work :: "u64 \<Rightarrow> ManifestEngine \<Rightarrow> bool \<times> ManifestEngine" where
  "announce_due_work now me =
     (if \<not> (case next_due me of Some due \<Rightarrow> due \<le> now | None \<Rightarrow> False) then (False, me)
      else (True, bump_revision_if_changed
        (me\<lparr>me_phase := Phase_Syncing, me_cycle_active := True, me_unattributed_pull_pending := False\<rparr>)))"

definition take_completed_barriers :: "ManifestEngine \<Rightarrow> EngineConvergenceReceipt list \<times> ManifestEngine" where
  "take_completed_barriers me = (map snd (me_completed_barriers me), me\<lparr>me_completed_barriers := []\<rparr>)"

definition schedule_recovered_work :: "u64 \<Rightarrow> ManifestEngine \<Rightarrow> ManifestEngine" where
  "schedule_recovered_work now me =
     (if me_dirty me = {} then me else bump_revision_if_changed (me\<lparr>me_debounce_deadline := Some now\<rparr>))"

section \<open>Failures of a cycle\<close>

datatype TransportFailureClass = Transport_Retryable | Transport_Integrity

datatype EngineError =
    Engine_Io io_error
  | Engine_Store ManifestStoreError
  | Engine_Push PushError
  | Engine_Pull PullError
  | Engine_Internal

datatype CycleError =
    Cycle_Transport
  | Cycle_Integrity
  | Cycle_RootUnavailable RootFault
  | Cycle_MassDeletionBlocked "WorkspacePath set" nat
  | Cycle_PathScoped
  | Cycle_Fatal EngineError

datatype PushFailureScope = ParksPublishing | StopsCycle

text \<open>\<open>failure_class\<close> is the class that the transport gave its error.\<close>

definition transport_cycle_error :: "(string \<Rightarrow> TransportFailureClass) \<Rightarrow> string \<Rightarrow> CycleError" where
  "transport_cycle_error failure_class error =
     (case failure_class error of Transport_Retryable \<Rightarrow> Cycle_Transport | Transport_Integrity \<Rightarrow> Cycle_Integrity)"

fun push_cycle_error :: "(string \<Rightarrow> TransportFailureClass) \<Rightarrow> PushError \<Rightarrow> CycleError" where
  "push_cycle_error failure_class (Push_Transport error) = transport_cycle_error failure_class error"
| "push_cycle_error failure_class (MassDeletionRefused refused entries _) = Cycle_MassDeletionBlocked refused entries"
| "push_cycle_error failure_class error = Cycle_Fatal (Engine_Push error)"

fun push_failure_scope :: "CycleError \<Rightarrow> PushFailureScope" where
  "push_failure_scope (Cycle_MassDeletionBlocked _ _) = ParksPublishing"
| "push_failure_scope _ = StopsCycle"

fun classify_pull_error :: "(string \<Rightarrow> TransportFailureClass) \<Rightarrow> PullError \<Rightarrow> CycleError" where
  "classify_pull_error failure_class (Pull_Transport error) = transport_cycle_error failure_class error"
| "classify_pull_error failure_class (RefRegressed _ _) = Cycle_Integrity"
| "classify_pull_error failure_class (RefForked _) = Cycle_Integrity"
| "classify_pull_error failure_class (Pull_Path _) = Cycle_PathScoped"
| "classify_pull_error failure_class _ = Cycle_Fatal Engine_Internal"

fun map_fatal :: "EngineError \<Rightarrow> CycleError \<Rightarrow> CycleError" where
  "map_fatal error (Cycle_Fatal _) = Cycle_Fatal error"
| "map_fatal error other = other"

definition pull_cycle_error :: "(string \<Rightarrow> TransportFailureClass) \<Rightarrow> PullError \<Rightarrow> CycleError" where
  "pull_cycle_error failure_class error = map_fatal (Engine_Pull error) (classify_pull_error failure_class error)"

definition absorb_cycle_error :: "CycleError \<Rightarrow> u64 \<Rightarrow> ManifestEngine \<Rightarrow> (EngineError + unit) \<times> ManifestEngine" where
  "absorb_cycle_error error now me =
     (case error of
        Cycle_Transport \<Rightarrow> (Inr (), enter_backoff now me)
      | Cycle_Integrity \<Rightarrow>
          (Inr (), (set_degradation IntegrityStalled me)\<lparr>me_phase := Phase_Stalled, me_pull_needed := True,
             me_force_ref_read := True, me_stall_deadline := Some (now + STALL_REPROBE_MS)\<rparr>)
      | Cycle_RootUnavailable fault \<Rightarrow>
          (Inr (), (set_degradation (Degraded_RootUnavailable fault) me)\<lparr>me_phase := Phase_Stalled, me_scan_required := True,
             me_pull_needed := True, me_stall_deadline := Some (now + STALL_REPROBE_MS)\<rparr>)
      | Cycle_MassDeletionBlocked refused entries \<Rightarrow>
          (Inr (), (block_mass_deletion refused entries me)\<lparr>me_phase := Phase_Stalled, me_pull_needed := True\<rparr>)
      | Cycle_PathScoped \<Rightarrow>
          (Inr (), me\<lparr>me_scan_required := True, me_pull_needed := True, me_force_ref_read := True,
             me_stall_deadline := Some (now + STALL_REPROBE_MS)\<rparr>)
      | Cycle_Fatal error \<Rightarrow> (Inl error, me))"

end
