(* ===== verification/Engine_Cycle.thy ===== *)
theory Engine_Cycle
  imports Engine_Driver "HOL-Library.Product_Lexorder"
begin

text \<open>
  The driver of one workspace, second part: what a cycle observes (\<^verbatim>\<open>scan_cycle.rs\<close>), receives
  (\<^verbatim>\<open>ref_observation.rs\<close>) and publishes (\<^verbatim>\<open>publish_cycle.rs\<close>), one cycle (\<open>run_cycle\<close>), the due work with
  its receipts (\<open>run_due_work\<close>) and the start (\<^verbatim>\<open>mod.rs\<close>). The record \<open>engine_io\<close> has what a cycle asks
  of the world: the root sentinel, the stat walk, push, pull and recovery, each from a state of
  the world to its answer and the next state.
\<close>

section \<open>The world of a cycle\<close>

record StatWalk =
  sw_dirty :: "WorkspacePath set"
  sw_unsyncable :: "(WorkspacePath, UnsyncableRecord) btree_map"

text \<open>
  \<open>io_policy\<close> loads the user policy, of the whole workspace or of some roots; \<open>io_walk\<close> is the stat
  walk of the workspace or of some roots against the ancestor rows, \<open>io_gone\<close> that a path has no
  metadata, \<open>io_probe\<close> measures the volume again.
\<close>

record ('s, 'p) engine_io =
  io_now :: "'s \<Rightarrow> u64"
  io_nfc :: "string \<Rightarrow> string"
  io_failure_class :: "string \<Rightarrow> TransportFailureClass"
  io_verify_root :: "'s \<Rightarrow> RootState"
  io_adopt_root :: "'s \<Rightarrow> (io_error + unit) \<times> 's"
  io_probe :: "'s \<Rightarrow> (io_error + NameFolding \<times> TimestampGranularity) \<times> 's"
  io_policy :: "WorkspacePath set option \<Rightarrow> 's \<Rightarrow> io_error + 'p"
  io_walk :: "WorkspacePath set option \<Rightarrow> 'p \<Rightarrow> ancestor_rows \<Rightarrow> 's \<Rightarrow> (io_error + StatWalk) \<times> 's"
  io_gone :: "'s \<Rightarrow> WorkspacePath \<Rightarrow> bool"
  io_push :: "EngineContext \<Rightarrow> WorkspacePath set \<Rightarrow> DeletionAuthorization \<Rightarrow> WatcherEvidence \<Rightarrow> 's \<Rightarrow> manifest_store \<Rightarrow>
    (PushError + PushOutcome) \<times> 's \<times> manifest_store"
  io_pull :: "EngineContext \<Rightarrow> PullScope \<Rightarrow> 's \<Rightarrow> manifest_store \<Rightarrow> (PullError + PullOutcome) \<times> 's \<times> manifest_store"
  io_recover :: "EngineContext \<Rightarrow> 's \<Rightarrow> manifest_store \<Rightarrow> (PullError + unit) \<times> 's \<times> manifest_store"

type_synonym 's cycle_result = "(CycleError + unit) \<times> ManifestEngine \<times> 's"

section \<open>Observing\<close>

definition ancestor_is_empty :: "ManifestEngine \<Rightarrow> bool" where
  "ancestor_is_empty me \<longleftrightarrow> file_count (me_store me) = 0"

definition root_returned :: "('s, 'p) engine_io \<Rightarrow> ManifestEngine \<Rightarrow> 's \<Rightarrow> 's cycle_result" where
  "root_returned io me s =
     (case me_degradation me of
        Degraded_RootUnavailable _ \<Rightarrow>
          (case io_probe io s of
             (Inl e, s) \<Rightarrow> (Inl (Cycle_Fatal (Engine_Io e)), me, s)
           | (Inr (folding_names, granularity), s) \<Rightarrow>
               (Inr (), (set_degradation (FullScanRequired RootReplaced)
                  (me\<lparr>me_ctx := (me_ctx me)\<lparr>ec_names := folding_names, ec_timestamps := granularity\<rparr>\<rparr>))\<lparr>me_scan_required := True\<rparr>, s))
      | _ \<Rightarrow> (Inr (), me, s))"

definition guard_root :: "('s, 'p) engine_io \<Rightarrow> ManifestEngine \<Rightarrow> 's \<Rightarrow> 's cycle_result" where
  "guard_root io me s =
     (case io_verify_root io s of
        Root_Ready \<Rightarrow> root_returned io me s
      | Root_Faulted fault \<Rightarrow>
          if fault = MarkerMissing \<and> ancestor_is_empty me
          then (case io_adopt_root io s of
              (Inl e, s) \<Rightarrow> (Inl (Cycle_Fatal (Engine_Io e)), me, s)
            | (Inr _, s) \<Rightarrow> root_returned io me s)
          else (Inl (Cycle_RootUnavailable fault), me, s))"

datatype WalkScope = WholeWorkspace | DirtySubtrees

definition path_is_at_or_below :: "string \<Rightarrow> string \<Rightarrow> bool" where
  "path_is_at_or_below path root \<longleftrightarrow> path = root \<or> (prefix root path \<and> prefix [slash] (drop (length root) path))"

definition walk_visited :: "WalkScope \<Rightarrow> ManifestEngine \<Rightarrow> WorkspacePath \<Rightarrow> bool" where
  "walk_visited scope me path =
     (case scope of
        WholeWorkspace \<Rightarrow> True
      | DirtySubtrees \<Rightarrow> (\<exists>root \<in> me_dirty_subtrees me. path_is_at_or_below path root))"

definition record_walk_unsyncable :: "StatWalk \<Rightarrow> WalkScope \<Rightarrow> ManifestEngine \<Rightarrow> ManifestEngine" where
  "record_walk_unsyncable walk scope me =
     (let resolved = set (filter (\<lambda>path. map_of (sw_unsyncable walk) path = None \<and> walk_visited scope me path)
            (map fst (st_unsyncable (me_store me))))
      in me\<lparr>me_store := record_unsyncable (sw_unsyncable walk) resolved (me_store me)\<rparr>)"

definition full_scan :: "('s, 'p) engine_io \<Rightarrow> ManifestEngine \<Rightarrow> 's \<Rightarrow> 's cycle_result" where
  "full_scan io me s =
     (case io_policy io None s of
        Inl e \<Rightarrow> (Inl (Cycle_Fatal (Engine_Io e)), me, s)
      | Inr policy \<Rightarrow>
          (case io_walk io None policy (all_files (me_store me)) s of
             (Inl _, s) \<Rightarrow> (Inl (Cycle_RootUnavailable Root_Missing), me, s)
           | (Inr walk, s) \<Rightarrow>
               (Inr (), absorb_dirty (io_nfc io) (sw_dirty walk) (record_walk_unsyncable walk WholeWorkspace me), s)))"

definition scan_dirty_subtrees :: "('s, 'p) engine_io \<Rightarrow> ManifestEngine \<Rightarrow> 's \<Rightarrow> 's cycle_result" where
  "scan_dirty_subtrees io me s =
     (let roots = me_dirty_subtrees me
      in case io_policy io (Some roots) s of
           Inl e \<Rightarrow> (Inl (Cycle_Fatal (Engine_Io e)), me, s)
         | Inr policy \<Rightarrow>
             (case io_walk io (Some roots) policy (files_in_scopes roots (me_store me)) s of
                (Inl _, s) \<Rightarrow> (Inl (Cycle_RootUnavailable Root_Missing), me, s)
              | (Inr walk, s) \<Rightarrow>
                  (Inr (), (absorb_dirty (io_nfc io) (sw_dirty walk) (record_walk_unsyncable walk DirtySubtrees me))
                     \<lparr>me_dirty_subtrees := {}\<rparr>, s)))"

section \<open>Authoritative scans\<close>

datatype AuthoritativeScanError =
    Scan_CycleActive
  | Scan_RootUnavailable RootFault
  | Scan_Fatal EngineError

record AuthoritativeScanReceipt =
  asr_revision :: u64
  asr_dirty_paths :: nat

record 'p AuthoritativeScanPlan =
  asp_policy :: 'p
  asp_ancestor :: ancestor_rows
  asp_observation_seq :: DirtySeq

record AuthoritativeScanResult =
  asl_walk :: "RootFault + StatWalk"
  asl_observation_seq :: DirtySeq

fun authoritative_cycle_error :: "CycleError \<Rightarrow> AuthoritativeScanError" where
  "authoritative_cycle_error (Cycle_RootUnavailable fault) = Scan_RootUnavailable fault"
| "authoritative_cycle_error (Cycle_Fatal error) = Scan_Fatal error"
| "authoritative_cycle_error _ = Scan_Fatal Engine_Internal"

definition begin_authoritative_local_scan ::
  "('s, 'p) engine_io \<Rightarrow> ManifestEngine \<Rightarrow> 's \<Rightarrow> (AuthoritativeScanError + 'p AuthoritativeScanPlan) \<times> ManifestEngine \<times> 's" where
  "begin_authoritative_local_scan io me s =
     (if me_cycle_active me \<or> me_authoritative_scan_active me then (Inl Scan_CycleActive, me, s)
      else
        (let me = bump_revision_if_changed (me\<lparr>me_phase := Phase_Syncing, me_authoritative_scan_active := True\<rparr>)
         in case guard_root io me s of
              (Inl (Cycle_RootUnavailable fault), me, s) \<Rightarrow>
                (Inl (Scan_RootUnavailable fault), bump_revision_if_changed
                  ((set_degradation (Degraded_RootUnavailable fault) (me\<lparr>me_authoritative_scan_active := False\<rparr>))
                    \<lparr>me_scan_required := True, me_phase := Phase_Stalled\<rparr>), s)
            | (Inl error, me, s) \<Rightarrow>
                (Inl (authoritative_cycle_error error), me\<lparr>me_authoritative_scan_active := False\<rparr>, s)
            | (Inr _, me, s) \<Rightarrow>
                (case io_policy io None s of
                   Inl e \<Rightarrow> (Inl (Scan_Fatal (Engine_Io e)), me\<lparr>me_authoritative_scan_active := False\<rparr>, s)
                 | Inr policy \<Rightarrow>
                     (Inr \<lparr>asp_policy = policy, asp_ancestor = all_files (me_store me), asp_observation_seq = me_next_dirty_seq me\<rparr>,
                      me\<lparr>me_scan_required := False, me_dirty_subtrees := {}\<rparr>, s))))"

definition execute_scan :: "('s, 'p) engine_io \<Rightarrow> 'p AuthoritativeScanPlan \<Rightarrow> 's \<Rightarrow> AuthoritativeScanResult \<times> 's" where
  "execute_scan io plan s =
     (case io_walk io None (asp_policy plan) (asp_ancestor plan) s of
        (walk, s) \<Rightarrow> (\<lparr>asl_walk = map_sum (\<lambda>_. Root_Missing) id walk, asl_observation_seq = asp_observation_seq plan\<rparr>, s))"

definition complete_authoritative_local_scan ::
  "(string \<Rightarrow> string) \<Rightarrow> AuthoritativeScanResult \<Rightarrow> ManifestEngine \<Rightarrow> (AuthoritativeScanError + AuthoritativeScanReceipt) \<times> ManifestEngine" where
  "complete_authoritative_local_scan nfc result me =
     (let me = me\<lparr>me_authoritative_scan_active := False\<rparr>
      in case asl_walk result of
           Inl fault \<Rightarrow>
             (Inl (Scan_RootUnavailable fault), bump_revision_if_changed
               ((set_degradation (Degraded_RootUnavailable fault) me)\<lparr>me_scan_required := True, me_phase := Phase_Stalled\<rparr>))
         | Inr walk \<Rightarrow>
             (let me = record_walk_unsyncable walk WholeWorkspace me;
                  me = absorb_authoritative_dirty nfc (sw_dirty walk) (asl_observation_seq result) me;
                  me = (case me_degradation me of FullScanRequired _ \<Rightarrow> set_degradation Nominal me | _ \<Rightarrow> me);
                  me = bump_revision_if_changed (refresh_durable_state (me\<lparr>me_phase := Phase_Syncing\<rparr>))
              in (Inr \<lparr>asr_revision = me_revision me, asr_dirty_paths = card (me_dirty me)\<rparr>, me)))"

section \<open>Receiving\<close>

datatype LocalObservation = Reactive | FreshlyWalked

fun watcher_evidence :: "LocalObservation \<Rightarrow> WatcherEvidence" where
  "watcher_evidence Reactive = Evidence_Continuous"
| "watcher_evidence FreshlyWalked = Evidence_Gapped"

fun observation_scope :: "LocalObservation \<Rightarrow> WorkspacePath set \<Rightarrow> PullScope" where
  "observation_scope Reactive paths = ChangedAndDirty paths"
| "observation_scope FreshlyWalked paths = ChangedAndWalked paths"

definition pull_scope :: "LocalObservation \<Rightarrow> ManifestEngine \<Rightarrow> PullScope" where
  "pull_scope observation me =
     (if me_startup_reconcile me then ReconcileAncestor (me_startup_pending me) else observation_scope observation (me_dirty me))"

definition pulled_applied_ref :: "PullOutcome \<Rightarrow> EngineRef \<Rightarrow> EngineRef" where
  "pulled_applied_ref outcome current =
     (case (po_ref_version outcome, po_applied_manifest_key outcome) of
        (Some version, Some manifest_key) \<Rightarrow> Head \<lparr>ref_version = version, ref_manifest_key = manifest_key\<rparr>
      | (None, None) \<Rightarrow> Genesis
      | _ \<Rightarrow> current)"

definition absorb_pull :: "PullOutcome \<Rightarrow> u64 \<Rightarrow> ManifestEngine \<Rightarrow> ManifestEngine" where
  "absorb_pull outcome now me =
     (let me = me\<lparr>me_startup_reconcile := False, me_startup_pending := {},
            me_head_ref := (case po_observed_ref outcome of Genesis \<Rightarrow> None | Head observed \<Rightarrow> Some observed),
            me_applied_ref := pulled_applied_ref outcome (me_applied_ref me),
            me_dirty := me_dirty me \<union> po_push_again outcome \<union> po_conflict_asides outcome\<rparr>
      in if po_deferred outcome \<noteq> {}
         then me\<lparr>me_pull_needed := True, me_debounce_deadline := Some (now + DEBOUNCE_MS)\<rparr> else me)"

definition do_pull :: "('s, 'p) engine_io \<Rightarrow> LocalObservation \<Rightarrow> ManifestEngine \<Rightarrow> 's \<Rightarrow> 's cycle_result" where
  "do_pull io observation me s =
     (let scope = pull_scope observation me;
          me = me\<lparr>me_pending_ref_hint := None, me_force_ref_read := False\<rparr>
      in case io_pull io (me_ctx me) scope s (me_store me) of
           (Inl error, s, store) \<Rightarrow>
             (Inl (pull_cycle_error (io_failure_class io) error), me\<lparr>me_store := store, me_force_ref_read := True\<rparr>, s)
         | (Inr outcome, s, store) \<Rightarrow> (Inr (), absorb_pull outcome (io_now io s) (me\<lparr>me_store := store\<rparr>), s))"

section \<open>Publishing\<close>

definition PUBLISH_BATCH_MAX :: nat where "PUBLISH_BATCH_MAX = 64"

definition MAX_PUSH_ATTEMPTS :: nat where "MAX_PUSH_ATTEMPTS = 2"

definition ordered_dirty :: "ManifestEngine \<Rightarrow> (DirtySeq \<times> WorkspacePath) list" where
  "ordered_dirty me =
     sort (map (\<lambda>path. (case map_of (me_dirty_seen me) path of Some seq \<Rightarrow> seq | None \<Rightarrow> 0, path))
       (sorted_list_of_set (me_dirty me)))"

definition bounded_batch :: "(DirtySeq \<times> WorkspacePath) list \<Rightarrow> WorkspacePath set" where
  "bounded_batch ordered =
     (let half = PUBLISH_BATCH_MAX div 2
      in set (map snd (take half ordered)) \<union> set (map snd (take (PUBLISH_BATCH_MAX - half) (rev ordered))))"

definition publish_batch :: "('s, 'p) engine_io \<Rightarrow> 's \<Rightarrow> ManifestEngine \<Rightarrow> WorkspacePath set" where
  "publish_batch io s me =
     (if card (me_dirty me) \<le> PUBLISH_BATCH_MAX then me_dirty me
      else if \<exists>path \<in> me_dirty me. io_gone io s path then me_dirty me
      else bounded_batch (ordered_dirty me))"

definition retain_skipped :: "WorkspacePath set \<Rightarrow> ManifestEngine \<Rightarrow> ManifestEngine" where
  "retain_skipped skipped me =
     (let retained = skipped \<union> (me_dirty me - me_published_batch me)
      in me\<lparr>me_dirty_seen := filter (\<lambda>(path, _). path \<in> retained) (me_dirty_seen me),
         me_dirty := retained, me_published_batch := {}\<rparr>)"

fun publish_attempts ::
  "nat \<Rightarrow> ('s, 'p) engine_io \<Rightarrow> LocalObservation \<Rightarrow> bool \<Rightarrow> DeletionAuthorization \<Rightarrow> ManifestEngine \<Rightarrow> 's \<Rightarrow> 's cycle_result" where
  "publish_attempts 0 io observation pulled deletions me s = (Inr (), me, s)"
| "publish_attempts (Suc attempts) io observation pulled deletions me s =
     (if me_dirty me = {} then (Inr (), me, s)
      else
        (let batch = publish_batch io s me;
             me = me\<lparr>me_published_batch := batch\<rparr>
         in case io_push io (me_ctx me) batch deletions (watcher_evidence observation) s (me_store me) of
              (Inl error, s, store) \<Rightarrow>
                (let me = me\<lparr>me_store := store\<rparr>;
                     error = push_cycle_error (io_failure_class io) error
                 in if push_failure_scope error = StopsCycle \<or> pulled then (Inl error, me, s)
                    else (case do_pull io observation me s of
                        (Inl error, me, s) \<Rightarrow> (Inl error, me, s)
                      | (Inr _, me, s) \<Rightarrow> publish_attempts attempts io observation True deletions me s))
            | (Inr (Push_Advanced manifest_key version skipped), s, store) \<Rightarrow>
                (let head = \<lparr>ref_version = version, ref_manifest_key = manifest_key\<rparr>
                 in (Inr (), retain_skipped skipped
                   (me\<lparr>me_store := store, me_head_ref := Some head, me_applied_ref := Head head\<rparr>), s))
            | (Inr (Push_NoChange skipped), s, store) \<Rightarrow> (Inr (), retain_skipped skipped (me\<lparr>me_store := store\<rparr>), s)
            | (Inr (Push_RefLost current), s, store) \<Rightarrow>
                (case do_pull io observation (me\<lparr>me_store := store, me_head_ref := current\<rparr>) s of
                   (Inl error, me, s) \<Rightarrow> (Inl error, me, s)
                 | (Inr _, me, s) \<Rightarrow> publish_attempts attempts io observation True deletions me s)))"

definition publish_dirty ::
  "('s, 'p) engine_io \<Rightarrow> LocalObservation \<Rightarrow> bool \<Rightarrow> DeletionAuthorization \<Rightarrow> ManifestEngine \<Rightarrow> 's \<Rightarrow> 's cycle_result" where
  "publish_dirty = publish_attempts MAX_PUSH_ATTEMPTS"

section \<open>One cycle\<close>

definition spend_confirmation :: "ManifestEngine \<Rightarrow> DeletionAuthorization \<times> ManifestEngine" where
  "spend_confirmation me =
     ((case me_confirmed_removals me of Some paths \<Rightarrow> ConfirmedPaths paths | None \<Rightarrow> Deletion_Enforce),
      me\<lparr>me_confirmed_removals := None\<rparr>)"

definition observe_workspace :: "('s, 'p) engine_io \<Rightarrow> ManifestEngine \<Rightarrow> 's \<Rightarrow> (CycleError + LocalObservation) \<times> ManifestEngine \<times> 's" where
  "observe_workspace io me s =
     (case (if me_scan_required me \<and> \<not> me_authoritative_scan_active me
            then (case full_scan io me s of
                (Inl e, me, s) \<Rightarrow> (Inl e, me, s)
              | (Inr _, me, s) \<Rightarrow> (Inr FreshlyWalked, me\<lparr>me_scan_required := False, me_dirty_subtrees := {}\<rparr>, s))
            else (Inr Reactive, me, s)) of
        (Inl e, me, s) \<Rightarrow> (Inl e, me, s)
      | (Inr observation, me, s) \<Rightarrow>
          if me_dirty_subtrees me = {} then (Inr observation, me, s)
          else (case scan_dirty_subtrees io me s of
              (Inl e, me, s) \<Rightarrow> (Inl e, me, s)
            | (Inr _, me, s) \<Rightarrow> (Inr observation, me, s)))"

definition receive :: "('s, 'p) engine_io \<Rightarrow> LocalObservation \<Rightarrow> ManifestEngine \<Rightarrow> 's \<Rightarrow> (CycleError + bool) \<times> ManifestEngine \<times> 's" where
  "receive io observation me s =
     (if me_pull_needed me
      then (case do_pull io observation (me\<lparr>me_pull_needed := False\<rparr>) s of
          (Inl e, me, s) \<Rightarrow> (Inl e, me, s)
        | (Inr _, me, s) \<Rightarrow> (Inr True, me, s))
      else (Inr False, me, s))"

definition reschedule_dirty :: "u64 \<Rightarrow> ManifestEngine \<Rightarrow> ManifestEngine" where
  "reschedule_dirty now me =
     (if me_dirty me = {} then me else me\<lparr>me_pull_needed := True, me_debounce_deadline := Some (now + DEBOUNCE_MS)\<rparr>)"

definition run_cycle :: "('s, 'p) engine_io \<Rightarrow> ManifestEngine \<Rightarrow> 's \<Rightarrow> 's cycle_result" where
  "run_cycle io me s =
     (let (deletions, me) = spend_confirmation me
      in case guard_root io me s of
           (Inl e, me, s) \<Rightarrow> (Inl e, me, s)
         | (Inr _, me, s) \<Rightarrow>
        (case observe_workspace io me s of
           (Inl e, me, s) \<Rightarrow> (Inl e, me, s)
         | (Inr observation, me, s) \<Rightarrow>
        (case receive io observation me s of
           (Inl e, me, s) \<Rightarrow> (Inl e, me, s)
         | (Inr pulled, me, s) \<Rightarrow>
        (case publish_dirty io observation pulled deletions me s of
           (Inl e, me, s) \<Rightarrow> (Inl e, me, s)
         | (Inr _, me, s) \<Rightarrow> (Inr (), reschedule_dirty (io_now io s) me, s)))))"

section \<open>Due work\<close>

definition consume_deadlines :: "u64 \<Rightarrow> ManifestEngine \<Rightarrow> ManifestEngine" where
  "consume_deadlines now me =
     (let me = me\<lparr>me_debounce_deadline := None, me_max_latency_deadline := None, me_stall_deadline := None\<rparr>
      in if (case me_audit_deadline me of Some due \<Rightarrow> due \<le> now | None \<Rightarrow> False)
         then (let me = (arm_audit now me)\<lparr>me_scan_required := True, me_pull_needed := True\<rparr>
               in if me_degradation me = Nominal then set_degradation (FullScanRequired PeriodicAudit) me else me)
         else me)"

definition cycle_succeeded :: "u64 \<Rightarrow> ManifestEngine \<Rightarrow> ManifestEngine" where
  "cycle_succeeded now me =
     (let me = me\<lparr>me_backoff_deadline := None, me_backoff_attempt := 0, me_last_success_at := Some now\<rparr>;
          me = (if degradation_is_transient me then set_degradation Nominal me else me)
      in me\<lparr>me_phase := (if idle me then Phase_Idle else Phase_Syncing)\<rparr>)"

definition complete_barriers :: "ManifestEngine \<Rightarrow> ManifestEngine" where
  "complete_barriers me =
     (let snapshot = engine_snapshot me
      in if is_exactly_converged snapshot
         then me\<lparr>me_pending_barriers := [],
           me_completed_barriers := fold (\<lambda>(barrier, generation) completed.
               case convergence_receipt (ec_process_identity (me_ctx me)) (ec_workspace_identity (me_ctx me)) generation barrier snapshot of
                 Some receipt \<Rightarrow> bt_insert barrier receipt completed
               | None \<Rightarrow> completed) (me_pending_barriers me) (me_completed_barriers me)\<rparr>
         else me)"

definition run_due_work :: "('s, 'p) engine_io \<Rightarrow> ManifestEngine \<Rightarrow> 's \<Rightarrow> (EngineError + unit) \<times> ManifestEngine \<times> 's" where
  "run_due_work io me s =
     (let now = io_now io s
      in if \<not> (case next_due me of Some due \<Rightarrow> due \<le> now | None \<Rightarrow> False) then (Inr (), me, s)
         else
           (let me = (consume_deadlines now me)\<lparr>me_phase := Phase_Syncing, me_cycle_active := True, me_unattributed_pull_pending := False\<rparr>
            in case run_cycle io me s of
                 (Inr _, me, s) \<Rightarrow>
                   (Inr (), complete_barriers (refresh_and_bump (cycle_succeeded now (me\<lparr>me_cycle_active := False\<rparr>))), s)
               | (Inl error, me, s) \<Rightarrow>
                   (case absorb_cycle_error error now (me\<lparr>me_cycle_active := False\<rparr>) of
                      (Inl fatal, me) \<Rightarrow> (Inl fatal, refresh_and_bump me, s)
                    | (Inr _, me) \<Rightarrow> (Inr (), complete_barriers (refresh_and_bump me), s))))"

section \<open>Starting\<close>

definition start :: "('s, 'p) engine_io \<Rightarrow> ManifestEngine \<Rightarrow> 's \<Rightarrow> (EngineError + unit) \<times> ManifestEngine \<times> 's" where
  "start io me s =
     (let me = arm_audit (io_now io s) (me\<lparr>me_phase := Phase_Starting, me_unattributed_pull_pending := True\<rparr>)
      in case guard_root io me s of
           (Inl error, me, s) \<Rightarrow> (let (r, me) = absorb_cycle_error error (io_now io s) me in (r, refresh_and_bump me, s))
         | (Inr _, me, s) \<Rightarrow>
        (case io_recover io (me_ctx me) s (me_store me) of
           (Inl error, s, store) \<Rightarrow>
             (let classified = pull_cycle_error (io_failure_class io) error;
                  me = me\<lparr>me_store := store\<rparr>;
                  me = (if classified = Cycle_Transport then me\<lparr>me_pull_needed := True\<rparr> else me);
                  (r, me) = absorb_cycle_error classified (io_now io s) me
              in (r, refresh_and_bump me, s))
         | (Inr _, s, store) \<Rightarrow>
             (let pending = st_pending_push store;
                  me = absorb_dirty (io_nfc io) pending (me\<lparr>me_store := store, me_startup_pending := pending\<rparr>)
              in run_due_work io (me\<lparr>me_scan_required := True, me_pull_needed := True,
                   me_debounce_deadline := Some (io_now io s)\<rparr>) s)))"

end
