(* ===== verification/Engine_Frames.thy ===== *)
theory Engine_Frames
  imports Engine_Cycle
begin

text \<open>
  What the driver's operations leave alone. The lemmas named \<open>_fields\<close> are rewrite rules for the
  fields that an operation keeps; \<open>cycle_frame\<close> has the fields that no part of a cycle writes.
\<close>

section \<open>The small operations\<close>

lemma bump_fields [simp]:
  "me_store (bump_revision_if_changed me) = me_store me" "me_ctx (bump_revision_if_changed me) = me_ctx me"
  "me_dirty (bump_revision_if_changed me) = me_dirty me" "me_dirty_seen (bump_revision_if_changed me) = me_dirty_seen me"
  "me_dirty_subtrees (bump_revision_if_changed me) = me_dirty_subtrees me"
  "me_scan_required (bump_revision_if_changed me) = me_scan_required me"
  "me_pull_needed (bump_revision_if_changed me) = me_pull_needed me"
  "me_force_ref_read (bump_revision_if_changed me) = me_force_ref_read me"
  "me_unattributed_pull_pending (bump_revision_if_changed me) = me_unattributed_pull_pending me"
  "me_cycle_active (bump_revision_if_changed me) = me_cycle_active me"
  "me_authoritative_scan_active (bump_revision_if_changed me) = me_authoritative_scan_active me"
  "me_debounce_deadline (bump_revision_if_changed me) = me_debounce_deadline me"
  "me_max_latency_deadline (bump_revision_if_changed me) = me_max_latency_deadline me"
  "me_backoff_deadline (bump_revision_if_changed me) = me_backoff_deadline me"
  "me_backoff_attempt (bump_revision_if_changed me) = me_backoff_attempt me"
  "me_audit_deadline (bump_revision_if_changed me) = me_audit_deadline me"
  "me_stall_deadline (bump_revision_if_changed me) = me_stall_deadline me"
  "me_confirmed_removals (bump_revision_if_changed me) = me_confirmed_removals me"
  "me_phase (bump_revision_if_changed me) = me_phase me" "me_head_ref (bump_revision_if_changed me) = me_head_ref me"
  "me_applied_ref (bump_revision_if_changed me) = me_applied_ref me"
  "me_materialization_revision (bump_revision_if_changed me) = me_materialization_revision me"
  "me_pending_intents (bump_revision_if_changed me) = me_pending_intents me"
  "me_pending_intent_paths (bump_revision_if_changed me) = me_pending_intent_paths me"
  "me_last_success_at (bump_revision_if_changed me) = me_last_success_at me"
  "me_degradation (bump_revision_if_changed me) = me_degradation me"
  "me_unsyncable (bump_revision_if_changed me) = me_unsyncable me"
  "me_refused_removals (bump_revision_if_changed me) = me_refused_removals me"
  "me_pending_barriers (bump_revision_if_changed me) = me_pending_barriers me"
  "me_completed_barriers (bump_revision_if_changed me) = me_completed_barriers me"
  by (simp_all add: bump_revision_if_changed_def Let_def)

lemma set_degradation_eq:
  "set_degradation d me =
     me\<lparr>me_refused_removals := (if is_mass_deletion_blocked d then me_refused_removals me else {}), me_degradation := d\<rparr>"
  by (cases "me_refused_removals me = {}") (auto simp: set_degradation_def)

lemma set_degradation_fields [simp]:
  "me_degradation (set_degradation d me) = d"
  "me_refused_removals (set_degradation d me) = (if is_mass_deletion_blocked d then me_refused_removals me else {})"
  "me_store (set_degradation d me) = me_store me" "me_ctx (set_degradation d me) = me_ctx me"
  "me_dirty (set_degradation d me) = me_dirty me" "me_dirty_subtrees (set_degradation d me) = me_dirty_subtrees me"
  "me_scan_required (set_degradation d me) = me_scan_required me" "me_pull_needed (set_degradation d me) = me_pull_needed me"
  "me_unattributed_pull_pending (set_degradation d me) = me_unattributed_pull_pending me"
  "me_cycle_active (set_degradation d me) = me_cycle_active me"
  "me_authoritative_scan_active (set_degradation d me) = me_authoritative_scan_active me"
  "me_debounce_deadline (set_degradation d me) = me_debounce_deadline me"
  "me_max_latency_deadline (set_degradation d me) = me_max_latency_deadline me"
  "me_backoff_deadline (set_degradation d me) = me_backoff_deadline me"
  "me_backoff_attempt (set_degradation d me) = me_backoff_attempt me"
  "me_audit_deadline (set_degradation d me) = me_audit_deadline me"
  "me_stall_deadline (set_degradation d me) = me_stall_deadline me"
  "me_confirmed_removals (set_degradation d me) = me_confirmed_removals me"
  "me_phase (set_degradation d me) = me_phase me" "me_head_ref (set_degradation d me) = me_head_ref me"
  "me_applied_ref (set_degradation d me) = me_applied_ref me"
  "me_force_ref_read (set_degradation d me) = me_force_ref_read me"
  "me_last_success_at (set_degradation d me) = me_last_success_at me"
  "me_materialization_revision (set_degradation d me) = me_materialization_revision me"
  "me_pending_intents (set_degradation d me) = me_pending_intents me"
  "me_pending_intent_paths (set_degradation d me) = me_pending_intent_paths me"
  "me_unsyncable (set_degradation d me) = me_unsyncable me"
  "me_pending_barriers (set_degradation d me) = me_pending_barriers me"
  "me_completed_barriers (set_degradation d me) = me_completed_barriers me"
  by (simp_all add: set_degradation_eq)

lemma block_mass_deletion_eq:
  "block_mass_deletion refused entries me =
     me\<lparr>me_degradation := MassDeletionBlocked (card refused) entries, me_refused_removals := refused\<rparr>"
  by (simp add: block_mass_deletion_def set_degradation_eq)

lemma absorb_dirty_eq:
  "\<exists>seq seen. absorb_dirty nfc paths me =
     me\<lparr>me_next_dirty_seq := seq, me_dirty_seen := seen, me_dirty := me_dirty me \<union> canonical_paths nfc me paths\<rparr>"
proof -
  have "\<exists>seq seen. fold (\<lambda>path me. let seq = DirtySeq_next (me_next_dirty_seq me)
      in me\<lparr>me_next_dirty_seq := seq, me_dirty_seen := bt_insert path seq (me_dirty_seen me)\<rparr>) ps me =
      me\<lparr>me_next_dirty_seq := seq, me_dirty_seen := seen\<rparr>" for ps
  proof (induction ps arbitrary: me)
    case Nil
    have "me = me\<lparr>me_next_dirty_seq := me_next_dirty_seq me, me_dirty_seen := me_dirty_seen me\<rparr>" by simp
    then show ?case by (simp only: fold_Nil id_apply) blast
  next
    case (Cons p ps)
    from Cons[of "me\<lparr>me_next_dirty_seq := DirtySeq_next (me_next_dirty_seq me),
        me_dirty_seen := bt_insert p (DirtySeq_next (me_next_dirty_seq me)) (me_dirty_seen me)\<rparr>"]
    show ?case by (simp add: Let_def)
  qed
  then obtain seq seen where "fold (\<lambda>path me. let seq = DirtySeq_next (me_next_dirty_seq me)
      in me\<lparr>me_next_dirty_seq := seq, me_dirty_seen := bt_insert path seq (me_dirty_seen me)\<rparr>)
      (sorted_list_of_set (canonical_paths nfc me paths)) me = me\<lparr>me_next_dirty_seq := seq, me_dirty_seen := seen\<rparr>" by blast
  then show ?thesis by (auto simp: absorb_dirty_def Let_def)
qed

lemma absorb_dirty_fields [simp]:
  "me_dirty (absorb_dirty nfc paths me) = me_dirty me \<union> canonical_paths nfc me paths"
  "me_store (absorb_dirty nfc paths me) = me_store me" "me_ctx (absorb_dirty nfc paths me) = me_ctx me"
  "me_dirty_subtrees (absorb_dirty nfc paths me) = me_dirty_subtrees me"
  "me_scan_required (absorb_dirty nfc paths me) = me_scan_required me"
  "me_pull_needed (absorb_dirty nfc paths me) = me_pull_needed me"
  "me_authoritative_scan_active (absorb_dirty nfc paths me) = me_authoritative_scan_active me"
  "me_debounce_deadline (absorb_dirty nfc paths me) = me_debounce_deadline me"
  "me_max_latency_deadline (absorb_dirty nfc paths me) = me_max_latency_deadline me"
  "me_backoff_deadline (absorb_dirty nfc paths me) = me_backoff_deadline me"
  "me_audit_deadline (absorb_dirty nfc paths me) = me_audit_deadline me"
  "me_stall_deadline (absorb_dirty nfc paths me) = me_stall_deadline me"
  "me_phase (absorb_dirty nfc paths me) = me_phase me"
  "me_degradation (absorb_dirty nfc paths me) = me_degradation me"
  "me_refused_removals (absorb_dirty nfc paths me) = me_refused_removals me"
  "me_pending_barriers (absorb_dirty nfc paths me) = me_pending_barriers me"
  "me_completed_barriers (absorb_dirty nfc paths me) = me_completed_barriers me"
  using absorb_dirty_eq[of nfc paths me] by auto

lemma absorb_authoritative_fields [simp]:
  "me_store (absorb_authoritative_dirty nfc paths q me) = me_store me"
  "me_scan_required (absorb_authoritative_dirty nfc paths q me) = me_scan_required me"
  "me_degradation (absorb_authoritative_dirty nfc paths q me) = me_degradation me"
  "me_refused_removals (absorb_authoritative_dirty nfc paths q me) = me_refused_removals me"
  by (simp_all add: absorb_authoritative_dirty_def Let_def)

lemma refresh_fields [simp]:
  "me_store (refresh_durable_state me) = me_store me" "me_ctx (refresh_durable_state me) = me_ctx me"
  "me_dirty (refresh_durable_state me) = me_dirty me" "me_dirty_subtrees (refresh_durable_state me) = me_dirty_subtrees me"
  "me_scan_required (refresh_durable_state me) = me_scan_required me"
  "me_pull_needed (refresh_durable_state me) = me_pull_needed me"
  "me_debounce_deadline (refresh_durable_state me) = me_debounce_deadline me"
  "me_max_latency_deadline (refresh_durable_state me) = me_max_latency_deadline me"
  "me_backoff_deadline (refresh_durable_state me) = me_backoff_deadline me"
  "me_audit_deadline (refresh_durable_state me) = me_audit_deadline me"
  "me_stall_deadline (refresh_durable_state me) = me_stall_deadline me"
  "me_confirmed_removals (refresh_durable_state me) = me_confirmed_removals me"
  "me_phase (refresh_durable_state me) = me_phase me" "me_head_ref (refresh_durable_state me) = me_head_ref me"
  "me_cycle_active (refresh_durable_state me) = me_cycle_active me"
  "me_unattributed_pull_pending (refresh_durable_state me) = me_unattributed_pull_pending me"
  "me_force_ref_read (refresh_durable_state me) = me_force_ref_read me"
  "me_authoritative_scan_active (refresh_durable_state me) = me_authoritative_scan_active me"
  "me_pending_barriers (refresh_durable_state me) = me_pending_barriers me"
  "me_completed_barriers (refresh_durable_state me) = me_completed_barriers me"
  "me_pending_intents (refresh_durable_state me) = length (pending_intents (me_store me))"
  "me_pending_intent_paths (refresh_durable_state me) = set (map in_path (pending_intents (me_store me)))"
  "me_unsyncable (refresh_durable_state me) = st_unsyncable (me_store me)"
  by (simp_all add: refresh_durable_state_def Let_def split: sum.split)

lemma arm_audit_eq: "arm_audit now me = me\<lparr>me_audit_round := me_audit_round (arm_audit now me), me_audit_deadline := me_audit_deadline (arm_audit now me)\<rparr>"
  by (simp add: arm_audit_def Let_def)

lemma enter_backoff_eq:
  "enter_backoff now me = (set_degradation (OfflineRetrying (min (me_backoff_attempt me + 1) u32_MAX))
     (me\<lparr>me_backoff_attempt := min (me_backoff_attempt me + 1) u32_MAX, me_backoff_deadline :=
        Some (now + backoff_delay (ec_device_id (me_ctx me)) (min (me_backoff_attempt me + 1) u32_MAX))\<rparr>))\<lparr>me_phase := Phase_BackingOff\<rparr>"
  by (simp add: enter_backoff_def Let_def)

section \<open>The parts of a cycle\<close>

definition cycle_frame :: "ManifestEngine \<Rightarrow> ManifestEngine \<Rightarrow> bool" where
  "cycle_frame me me' \<longleftrightarrow>
     me_pending_barriers me' = me_pending_barriers me \<and> me_completed_barriers me' = me_completed_barriers me
     \<and> me_backoff_deadline me' = me_backoff_deadline me \<and> me_backoff_attempt me' = me_backoff_attempt me
     \<and> me_stall_deadline me' = me_stall_deadline me \<and> me_max_latency_deadline me' = me_max_latency_deadline me
     \<and> me_audit_deadline me' = me_audit_deadline me \<and> me_confirmed_removals me' = me_confirmed_removals me
     \<and> me_authoritative_scan_active me' = me_authoritative_scan_active me \<and> me_phase me' = me_phase me
     \<and> me_cycle_active me' = me_cycle_active me \<and> me_unattributed_pull_pending me' = me_unattributed_pull_pending me
     \<and> ec_process_identity (me_ctx me') = ec_process_identity (me_ctx me)
     \<and> ec_workspace_identity (me_ctx me') = ec_workspace_identity (me_ctx me)
     \<and> ec_device_id (me_ctx me') = ec_device_id (me_ctx me)"

lemma cycle_frame_refl: "cycle_frame me me"
  by (simp add: cycle_frame_def)

lemma cycle_frame_trans: "cycle_frame a b \<Longrightarrow> cycle_frame b c \<Longrightarrow> cycle_frame a c"
  by (simp add: cycle_frame_def)

lemma record_walk_unsyncable_eq:
  "record_walk_unsyncable walk scope me = me\<lparr>me_store := me_store (record_walk_unsyncable walk scope me)\<rparr>"
  by (simp add: record_walk_unsyncable_def Let_def)

lemma record_walk_unsyncable_fields [simp]:
  "me_dirty (record_walk_unsyncable walk scope me) = me_dirty me" "me_ctx (record_walk_unsyncable walk scope me) = me_ctx me"
  "me_dirty_subtrees (record_walk_unsyncable walk scope me) = me_dirty_subtrees me"
  "me_scan_required (record_walk_unsyncable walk scope me) = me_scan_required me"
  "me_pull_needed (record_walk_unsyncable walk scope me) = me_pull_needed me"
  "me_degradation (record_walk_unsyncable walk scope me) = me_degradation me"
  "me_refused_removals (record_walk_unsyncable walk scope me) = me_refused_removals me"
  "me_debounce_deadline (record_walk_unsyncable walk scope me) = me_debounce_deadline me"
  by (simp_all add: record_walk_unsyncable_def Let_def)

lemma cycle_frame_walk: "cycle_frame me (absorb_dirty nfc paths (record_walk_unsyncable walk scope me))"
  using absorb_dirty_eq[of nfc paths "record_walk_unsyncable walk scope me"]
  by (auto simp: cycle_frame_def) (auto simp: record_walk_unsyncable_def Let_def)

lemma guard_root_frame: "guard_root io me s = (r, me', s') \<Longrightarrow> cycle_frame me me'"
  by (auto simp: guard_root_def root_returned_def cycle_frame_def set_degradation_eq
      split: RootState.splits sum.splits prod.splits if_splits Degradation.splits)

lemma full_scan_frame: "full_scan io me s = (r, me', s') \<Longrightarrow> cycle_frame me me'"
  by (auto simp: full_scan_def cycle_frame_refl cycle_frame_walk split: sum.splits prod.splits)

lemma scan_dirty_subtrees_frame: "scan_dirty_subtrees io me s = (r, me', s') \<Longrightarrow> cycle_frame me me'"
  using cycle_frame_walk[of me]
  by (auto simp: scan_dirty_subtrees_def cycle_frame_refl cycle_frame_def Let_def split: sum.splits prod.splits)

lemma observe_workspace_frame: "observe_workspace io me s = (r, me', s') \<Longrightarrow> cycle_frame me me'"
proof -
  assume run: "observe_workspace io me s = (r, me', s')"
  define first where "first = (if me_scan_required me \<and> \<not> me_authoritative_scan_active me
            then (case full_scan io me s of
                (Inl e, me, s) \<Rightarrow> (Inl e, me, s)
              | (Inr _, me, s) \<Rightarrow> (Inr FreshlyWalked, me\<lparr>me_scan_required := False, me_dirty_subtrees := {}\<rparr>, s))
            else (Inr Reactive, me, s))"
  obtain r1 me1 s1 where f: "first = (r1, me1, s1)" by (cases first)
  have one: "cycle_frame me me1"
    using f full_scan_frame[of io me s]
    by (auto simp: first_def cycle_frame_refl cycle_frame_def split: if_splits prod.splits sum.splits)
  show ?thesis
    using run f one scan_dirty_subtrees_frame[of io me1 s1] cycle_frame_trans[OF one]
    by (auto simp: observe_workspace_def first_def[symmetric] split: sum.splits if_splits prod.splits)
qed

lemma absorb_pull_eq:
  "\<exists>startup pending head applied_ref dirty_paths pull deadline. absorb_pull outcome now me =
     me\<lparr>me_startup_reconcile := startup, me_startup_pending := pending, me_head_ref := head, me_applied_ref := applied_ref,
       me_dirty := dirty_paths, me_pull_needed := pull, me_debounce_deadline := deadline\<rparr> \<and> me_dirty me \<subseteq> dirty_paths"
proof -
  have "absorb_pull outcome now me =
     me\<lparr>me_startup_reconcile := False, me_startup_pending := {},
       me_head_ref := me_head_ref (absorb_pull outcome now me), me_applied_ref := me_applied_ref (absorb_pull outcome now me),
       me_dirty := me_dirty (absorb_pull outcome now me), me_pull_needed := me_pull_needed (absorb_pull outcome now me),
       me_debounce_deadline := me_debounce_deadline (absorb_pull outcome now me)\<rparr>"
    by (simp add: absorb_pull_def Let_def)
  moreover have "me_dirty me \<subseteq> me_dirty (absorb_pull outcome now me)" by (auto simp: absorb_pull_def Let_def)
  ultimately show ?thesis by blast
qed

lemma absorb_pull_fields [simp]:
  "me_store (absorb_pull outcome now me) = me_store me" "me_ctx (absorb_pull outcome now me) = me_ctx me"
  "me_scan_required (absorb_pull outcome now me) = me_scan_required me"
  "me_dirty_subtrees (absorb_pull outcome now me) = me_dirty_subtrees me"
  "me_dirty_seen (absorb_pull outcome now me) = me_dirty_seen me"
  "me_degradation (absorb_pull outcome now me) = me_degradation me"
  "me_refused_removals (absorb_pull outcome now me) = me_refused_removals me"
  using absorb_pull_eq[of outcome now me] by auto

lemma absorb_pull_dirty: "me_dirty me \<subseteq> me_dirty (absorb_pull outcome now me)"
  using absorb_pull_eq[of outcome now me] by auto

lemma absorb_pull_frame: "cycle_frame me (absorb_pull outcome now me)"
  using absorb_pull_eq[of outcome now me] by (auto simp: cycle_frame_def)

text \<open>A failed pull asks for the ref to be read again and writes nothing else; a pull that succeeds has
  taken in its outcome.\<close>

lemma do_pull_cases:
  assumes "do_pull io observation me s = (r, me', s')"
  obtains (failed) error store where
      "io_pull io (me_ctx me) (pull_scope observation me) s (me_store me) = (Inl error, s', store)"
      "r = Inl (pull_cycle_error (io_failure_class io) error)"
      "me' = me\<lparr>me_pending_ref_hint := None, me_force_ref_read := True, me_store := store\<rparr>"
    | (pulled) outcome store where
      "io_pull io (me_ctx me) (pull_scope observation me) s (me_store me) = (Inr outcome, s', store)" "r = Inr ()"
      "me' = absorb_pull outcome (io_now io s') (me\<lparr>me_pending_ref_hint := None, me_force_ref_read := False, me_store := store\<rparr>)"
proof -
  obtain r1 s1 store where "io_pull io (me_ctx me) (pull_scope observation me) s (me_store me) = (r1, s1, store)"
    by (cases "io_pull io (me_ctx me) (pull_scope observation me) s (me_store me)")
  note run = this
  show ?thesis
  proof (cases r1)
    case (Inl error)
    show ?thesis by (rule failed[of error store]) (use assms run Inl in \<open>auto simp: do_pull_def Let_def\<close>)
  next
    case (Inr outcome)
    show ?thesis by (rule pulled[of outcome store]) (use assms run Inr in \<open>auto simp: do_pull_def Let_def\<close>)
  qed
qed

lemma do_pull_frame: "do_pull io observation me s = (r, me', s') \<Longrightarrow> cycle_frame me me'"
proof (erule do_pull_cases)
  fix outcome store now
  show "me' = absorb_pull outcome (io_now io s') (me\<lparr>me_pending_ref_hint := None, me_force_ref_read := False, me_store := store\<rparr>) \<Longrightarrow>
      cycle_frame me me'"
    using absorb_pull_frame[of "me\<lparr>me_pending_ref_hint := None, me_force_ref_read := False, me_store := store\<rparr>" outcome "io_now io s'"]
    by (simp add: cycle_frame_def)
qed (simp add: cycle_frame_def)

lemma receive_frame: "receive io observation me s = (r, me', s') \<Longrightarrow> cycle_frame me me'"
  using do_pull_frame[of io observation "me\<lparr>me_pull_needed := False\<rparr>" s]
  by (auto simp: receive_def cycle_frame_refl cycle_frame_def split: if_splits prod.splits sum.splits)

lemma retain_skipped_fields [simp]:
  "me_dirty (retain_skipped skipped me) = skipped \<union> (me_dirty me - me_published_batch me)"
  "me_store (retain_skipped skipped me) = me_store me" "me_ctx (retain_skipped skipped me) = me_ctx me"
  "me_scan_required (retain_skipped skipped me) = me_scan_required me"
  "me_dirty_subtrees (retain_skipped skipped me) = me_dirty_subtrees me"
  "me_degradation (retain_skipped skipped me) = me_degradation me"
  "me_refused_removals (retain_skipped skipped me) = me_refused_removals me"
  by (simp_all add: retain_skipped_def Let_def)

lemma retain_skipped_frame: "cycle_frame me (retain_skipped skipped me)"
  by (simp add: retain_skipped_def cycle_frame_def Let_def)

text \<open>One attempt of the publishing loop: it ends, or it pulls and the loop goes on.\<close>

lemma publish_attempts_cases:
  assumes "publish_attempts n io observation pulled deletions me s = (r, me', s')"
  obtains (stop) "n = 0 \<or> me_dirty me = {}" "r = Inr ()" "me' = me" "s' = s"
    | (settled) attempts outcome store skipped me1 where "n = Suc attempts" "me_dirty me \<noteq> {}"
        "io_push io (me_ctx me) (publish_batch io s me) deletions (watcher_evidence observation) s (me_store me) = (Inr outcome, s', store)"
        "(\<exists>key version. outcome = Push_Advanced key version skipped \<and> me1 = me\<lparr>me_published_batch := publish_batch io s me,
            me_store := store, me_head_ref := Some \<lparr>ref_version = version, ref_manifest_key = key\<rparr>,
            me_applied_ref := Head \<lparr>ref_version = version, ref_manifest_key = key\<rparr>\<rparr>)
          \<or> outcome = Push_NoChange skipped \<and> me1 = me\<lparr>me_published_batch := publish_batch io s me, me_store := store\<rparr>"
        "r = Inr ()" "me' = retain_skipped skipped me1"
    | (refused) attempts error store where "n = Suc attempts" "me_dirty me \<noteq> {}"
        "io_push io (me_ctx me) (publish_batch io s me) deletions (watcher_evidence observation) s (me_store me) = (Inl error, s', store)"
        "r = Inl (push_cycle_error (io_failure_class io) error)"
        "me' = me\<lparr>me_published_batch := publish_batch io s me, me_store := store\<rparr>"
    | (again) attempts pushed s1 store me1 r2 me2 s2 where "n = Suc attempts" "me_dirty me \<noteq> {}"
        "io_push io (me_ctx me) (publish_batch io s me) deletions (watcher_evidence observation) s (me_store me) = (pushed, s1, store)"
        "(\<exists>error. pushed = Inl error \<and> \<not> pulled \<and> me1 = me\<lparr>me_published_batch := publish_batch io s me, me_store := store\<rparr>)
          \<or> (\<exists>current. pushed = Inr (Push_RefLost current)
              \<and> me1 = me\<lparr>me_published_batch := publish_batch io s me, me_store := store, me_head_ref := current\<rparr>)"
        "do_pull io observation me1 s1 = (r2, me2, s2)"
        "(\<exists>e. r2 = Inl e \<and> r = Inl e \<and> me' = me2 \<and> s' = s2)
          \<or> r2 = Inr () \<and> publish_attempts attempts io observation True deletions me2 s2 = (r, me', s')"
proof (cases n)
  case 0
  show ?thesis by (rule stop) (use assms 0 in simp_all)
next
  case (Suc attempts)
  show ?thesis
  proof (cases "me_dirty me = {}")
    case True
    show ?thesis by (rule stop) (use assms Suc True in simp_all)
  next
    case False
    let ?me = "me\<lparr>me_published_batch := publish_batch io s me\<rparr>"
    obtain pushed s1 store where push:
      "io_push io (me_ctx me) (publish_batch io s me) deletions (watcher_evidence observation) s (me_store me) = (pushed, s1, store)"
      by (cases "io_push io (me_ctx me) (publish_batch io s me) deletions (watcher_evidence observation) s (me_store me)")
    note run = assms[unfolded Suc publish_attempts.simps Let_def, simplified False push if_False, simplified push]
    show ?thesis
    proof (cases pushed)
      case (Inl error)
      show ?thesis
      proof (cases "push_failure_scope (push_cycle_error (io_failure_class io) error) = StopsCycle \<or> pulled")
        case True
        show ?thesis by (rule refused[OF Suc False, of error store]) (use run True Inl push in auto)
      next
        case go: False
        obtain r2 me2 s2 where pull: "do_pull io observation (?me\<lparr>me_store := store\<rparr>) s1 = (r2, me2, s2)"
          by (cases "do_pull io observation (?me\<lparr>me_store := store\<rparr>) s1")
        have "(case r2 of Inl e \<Rightarrow> (Inl e, me2, s2)
            | Inr _ \<Rightarrow> publish_attempts attempts io observation True deletions me2 s2) = (r, me', s')"
          using run go pull Inl push by (cases r2) auto
        then have "(\<exists>e. r2 = Inl e \<and> r = Inl e \<and> me' = me2 \<and> s' = s2)
            \<or> r2 = Inr () \<and> publish_attempts attempts io observation True deletions me2 s2 = (r, me', s')"
          by (cases r2) auto
        with again[OF Suc False push _ pull] Inl go show ?thesis by blast
      qed
    next
      case (Inr outcome)
      show ?thesis
      proof (cases outcome)
        case (Push_Advanced key version skipped)
        have "r = Inr ()" "s' = s1" "me' = retain_skipped skipped (?me\<lparr>me_store := store,
            me_head_ref := Some \<lparr>ref_version = version, ref_manifest_key = key\<rparr>,
            me_applied_ref := Head \<lparr>ref_version = version, ref_manifest_key = key\<rparr>\<rparr>)"
          using run Inr Push_Advanced push by simp_all
        with settled[OF Suc False, of outcome store skipped] push Inr Push_Advanced show ?thesis by blast
      next
        case (Push_NoChange skipped)
        have "r = Inr ()" "s' = s1" "me' = retain_skipped skipped (?me\<lparr>me_store := store\<rparr>)"
          using run Inr Push_NoChange push by simp_all
        with settled[OF Suc False, of outcome store skipped] push Inr Push_NoChange show ?thesis by blast
      next
        case (Push_RefLost current)
        obtain r2 me2 s2 where pull: "do_pull io observation (?me\<lparr>me_store := store, me_head_ref := current\<rparr>) s1 = (r2, me2, s2)"
          by (cases "do_pull io observation (?me\<lparr>me_store := store, me_head_ref := current\<rparr>) s1")
        have "(case r2 of Inl e \<Rightarrow> (Inl e, me2, s2)
            | Inr _ \<Rightarrow> publish_attempts attempts io observation True deletions me2 s2) = (r, me', s')"
          using run pull Inr Push_RefLost push by (cases r2) auto
        then have "(\<exists>e. r2 = Inl e \<and> r = Inl e \<and> me' = me2 \<and> s' = s2)
            \<or> r2 = Inr () \<and> publish_attempts attempts io observation True deletions me2 s2 = (r, me', s')"
          by (cases r2) auto
        with again[OF Suc False push _ pull] Inr Push_RefLost show ?thesis by blast
      qed
    qed
  qed
qed

lemma publish_attempts_frame:
  "publish_attempts n io observation pulled deletions me s = (r, me', s') \<Longrightarrow> cycle_frame me me'"
proof (induction n arbitrary: pulled me s)
  case 0
  then show ?case by (simp add: cycle_frame_refl)
next
  case (Suc n)
  from Suc.prems show ?case
  proof (cases rule: publish_attempts_cases)
    case (settled attempts outcome store skipped me1)
    then have "cycle_frame me me1" by (auto simp: cycle_frame_def)
    then show ?thesis using settled cycle_frame_trans retain_skipped_frame by blast
  next
    case (again attempts pushed s1 store me1 r2 me2 s2)
    then have "cycle_frame me me1" by (auto simp: cycle_frame_def)
    note two = cycle_frame_trans[OF this do_pull_frame[OF again(5)]]
    have "n = attempts" using again(1) by simp
    then show ?thesis using again(6) two cycle_frame_trans[OF two Suc.IH[of True me2 s2]] by auto
  qed (simp_all add: cycle_frame_def)
qed

text \<open>What a cycle goes through before it ends, and where it may end early.\<close>

lemma run_cycle_cases:
  assumes "run_cycle io me s = (r, me', s')"
  obtains (root) e where "guard_root io (me\<lparr>me_confirmed_removals := None\<rparr>) s = (Inl e, me', s')" "r = Inl e"
    | (walk) e me1 s1 where "guard_root io (me\<lparr>me_confirmed_removals := None\<rparr>) s = (Inr (), me1, s1)"
        "observe_workspace io me1 s1 = (Inl e, me', s')" "r = Inl e"
    | (receive) e me1 s1 observation me2 s2 where "guard_root io (me\<lparr>me_confirmed_removals := None\<rparr>) s = (Inr (), me1, s1)"
        "observe_workspace io me1 s1 = (Inr observation, me2, s2)" "receive io observation me2 s2 = (Inl e, me', s')" "r = Inl e"
    | (publish) me1 s1 observation me2 s2 pulled me3 s3 me4 where
        "guard_root io (me\<lparr>me_confirmed_removals := None\<rparr>) s = (Inr (), me1, s1)"
        "observe_workspace io me1 s1 = (Inr observation, me2, s2)" "receive io observation me2 s2 = (Inr pulled, me3, s3)"
        "publish_dirty io observation pulled (fst (spend_confirmation me)) me3 s3 = (r, me4, s')"
        "me' = (if r = Inr () then reschedule_dirty (io_now io s') me4 else me4)"
proof -
  obtain deletions where spend: "spend_confirmation me = (deletions, me\<lparr>me_confirmed_removals := None\<rparr>)"
    by (simp add: spend_confirmation_def)
  obtain r1 me1 s1 where guard: "guard_root io (me\<lparr>me_confirmed_removals := None\<rparr>) s = (r1, me1, s1)"
    by (cases "guard_root io (me\<lparr>me_confirmed_removals := None\<rparr>) s")
  obtain r2 me2 s2 where observe: "observe_workspace io me1 s1 = (r2, me2, s2)" by (cases "observe_workspace io me1 s1")
  show ?thesis
  proof (cases r1)
    case (Inl e)
    show ?thesis by (rule root) (use assms guard Inl spend in \<open>auto simp: run_cycle_def\<close>)
  next
    case ok1: (Inr u)
    show ?thesis
    proof (cases r2)
      case (Inl e)
      show ?thesis by (rule walk[of me1 s1]) (use assms guard ok1 observe Inl spend in \<open>auto simp: run_cycle_def\<close>)
    next
      case ok2: (Inr observation)
      obtain r3 me3 s3 where rec: "receive io observation me2 s2 = (r3, me3, s3)" by (cases "receive io observation me2 s2")
      show ?thesis
      proof (cases r3)
        case (Inl e)
        show ?thesis
          by (rule receive[of me1 s1 observation me2 s2])
            (use assms guard ok1 observe ok2 rec Inl spend in \<open>auto simp: run_cycle_def\<close>)
      next
        case ok3: (Inr pulled)
        obtain r4 me4 s4 where pub: "publish_dirty io observation pulled deletions me3 s3 = (r4, me4, s4)"
          by (cases "publish_dirty io observation pulled deletions me3 s3")
        have "(case r4 of Inl e \<Rightarrow> (Inl e, me4, s4) | Inr _ \<Rightarrow> (Inr (), reschedule_dirty (io_now io s4) me4, s4)) = (r, me', s')"
          using assms guard ok1 observe ok2 rec ok3 pub spend by (cases r4) (auto simp: run_cycle_def)
        then have fin: "r = r4" "s' = s4" "me' = (if r = Inr () then reschedule_dirty (io_now io s') me4 else me4)"
          by (cases r4; auto)+
        show ?thesis
          by (rule publish[of me1 s1 observation me2 s2 pulled me3 s3 me4])
            (use guard ok1 observe ok2 rec ok3 pub spend fin(1,2) in \<open>simp, simp, simp, simp, simp add: fin(3)\<close>)
      qed
    qed
  qed
qed

lemma reschedule_dirty_fields [simp]:
  "me_dirty (reschedule_dirty now me) = me_dirty me" "me_store (reschedule_dirty now me) = me_store me"
  "me_scan_required (reschedule_dirty now me) = me_scan_required me"
  "me_dirty_subtrees (reschedule_dirty now me) = me_dirty_subtrees me"
  "me_degradation (reschedule_dirty now me) = me_degradation me"
  "me_refused_removals (reschedule_dirty now me) = me_refused_removals me"
  by (simp_all add: reschedule_dirty_def)

lemma reschedule_dirty_frame: "cycle_frame me (reschedule_dirty now me)"
  by (simp add: reschedule_dirty_def cycle_frame_def)

lemma run_cycle_frame:
  assumes "run_cycle io me s = (r, me', s')"
  shows "cycle_frame (me\<lparr>me_confirmed_removals := None\<rparr>) me'"
  using assms
proof (cases rule: run_cycle_cases)
  case (publish me1 s1 observation me2 s2 pulled me3 s3 me4)
  have "cycle_frame (me\<lparr>me_confirmed_removals := None\<rparr>) me4"
    using guard_root_frame[OF publish(1)] observe_workspace_frame[OF publish(2)] receive_frame[OF publish(3)]
      publish_attempts_frame[OF publish(4)[unfolded publish_dirty_def]] cycle_frame_trans by blast
  then show ?thesis using publish(5) cycle_frame_trans reschedule_dirty_frame by auto
next
  case (root e)
  show ?thesis by (rule guard_root_frame[OF root(1)])
next
  case (walk e me1 s1)
  show ?thesis by (rule cycle_frame_trans[OF guard_root_frame[OF walk(1)] observe_workspace_frame[OF walk(2)]])
next
  case (receive e me1 s1 observation me2 s2)
  show ?thesis
    using guard_root_frame[OF receive(1)] observe_workspace_frame[OF receive(2)] receive_frame[OF receive(3)]
      cycle_frame_trans by blast
qed

section \<open>The due work\<close>

abbreviation due_now :: "('s, 'p) engine_io \<Rightarrow> ManifestEngine \<Rightarrow> 's \<Rightarrow> bool" where
  "due_now io me s \<equiv> (case next_due me of Some due \<Rightarrow> due \<le> io_now io s | None \<Rightarrow> False)"

text \<open>The engine that a due cycle starts from.\<close>

definition begun :: "u64 \<Rightarrow> ManifestEngine \<Rightarrow> ManifestEngine" where
  "begun now me = (consume_deadlines now me)\<lparr>me_phase := Phase_Syncing, me_cycle_active := True, me_unattributed_pull_pending := False\<rparr>"

lemma begun_fields:
  "me_pending_barriers (begun now me) = me_pending_barriers me" "me_completed_barriers (begun now me) = me_completed_barriers me"
  "me_authoritative_scan_active (begun now me) = me_authoritative_scan_active me" "me_store (begun now me) = me_store me"
  "me_dirty (begun now me) = me_dirty me" "me_backoff_deadline (begun now me) = me_backoff_deadline me"
  "me_phase (begun now me) = Phase_Syncing"
  "me_scan_required me \<Longrightarrow> me_scan_required (begun now me)" "me_pull_needed me \<Longrightarrow> me_pull_needed (begun now me)"
  by (simp_all add: begun_def consume_deadlines_def arm_audit_def Let_def)

abbreviation ended :: "u64 \<Rightarrow> ManifestEngine \<Rightarrow> ManifestEngine" where
  "ended now me \<equiv> refresh_and_bump (cycle_succeeded now (me\<lparr>me_cycle_active := False\<rparr>))"

lemma run_due_work_cases:
  assumes "run_due_work io me s = (r, me', s')"
  obtains (nothing_due) "\<not> due_now io me s" "r = Inr ()" "me' = me" "s' = s"
    | (succeeded) me1 where "due_now io me s" "run_cycle io (begun (io_now io s) me) s = (Inr (), me1, s')" "r = Inr ()"
        "me' = complete_barriers (ended (io_now io s) me1)"
    | (failed) error me1 me2 where "due_now io me s" "run_cycle io (begun (io_now io s) me) s = (Inl error, me1, s')"
        "absorb_cycle_error error (io_now io s) (me1\<lparr>me_cycle_active := False\<rparr>) = (r, me2)"
        "me' = (if r = Inr () then complete_barriers (refresh_and_bump me2) else refresh_and_bump me2)"
proof (cases "due_now io me s")
  case False
  show ?thesis by (rule nothing_due[OF False]) (use assms False in \<open>simp_all add: run_due_work_def\<close>)
next
  case True
  obtain r1 me1 s1 where cycle: "run_cycle io (begun (io_now io s) me) s = (r1, me1, s1)" by (metis prod_cases3)
  show ?thesis
  proof (cases r1)
    case (Inr u)
    show ?thesis
      by (rule succeeded[OF True, of me1]) (use assms True cycle Inr in \<open>auto simp: run_due_work_def begun_def[symmetric]\<close>)
  next
    case (Inl error)
    obtain r2 me2 where absorb: "absorb_cycle_error error (io_now io s) (me1\<lparr>me_cycle_active := False\<rparr>) = (r2, me2)" by force
    have "r = r2 \<and> s' = s1 \<and> me' = (if r = Inr () then complete_barriers (refresh_and_bump me2) else refresh_and_bump me2)"
      using assms True cycle Inl absorb by (cases r2) (auto simp: run_due_work_def begun_def[symmetric])
    then show ?thesis using failed[OF True, of error me1 me2] cycle Inl absorb by simp
  qed
qed

lemma run_due_cycle_frame:
  assumes "run_cycle io (begun now me) s = (r, me1, s')"
  shows "me_pending_barriers me1 = me_pending_barriers me" and "me_completed_barriers me1 = me_completed_barriers me"
    and "me_phase me1 = Phase_Syncing" and "me_confirmed_removals me1 = None" and "me_backoff_deadline me1 = me_backoff_deadline me"
  using run_cycle_frame[OF assms] by (simp_all add: cycle_frame_def begun_fields)

end
