(* ===== verification/Engine_Steps.thy ===== *)
theory Engine_Steps
  imports Engine_Frames
begin

text \<open>
  The driver as a state machine. The locale \<open>engine_world\<close> states what the driver relies on of push,
  pull and recovery; under it two invariants hold in every state that the driver's operations
  reach, in any order and however the world changes between them.
\<close>

section \<open>Steps\<close>

inductive engine_step :: "('s, 'p) engine_io \<Rightarrow> ManifestEngine \<times> 's \<Rightarrow> ManifestEngine \<times> 's \<Rightarrow> bool" for io where
  step_world: "engine_step io (me, s) (me, s')"
| step_event: "engine_step io (me, s) (on_event (io_nfc io) event (io_now io s) me, s)"
| step_announce: "announce_due_work (io_now io s) me = (due, me') \<Longrightarrow> engine_step io (me, s) (me', s)"
| step_confirm: "confirm_mass_deletion (io_now io s) me = (answer, me') \<Longrightarrow> engine_step io (me, s) (me', s)"
| step_take: "take_completed_barriers me = (receipts, me') \<Longrightarrow> engine_step io (me, s) (me', s)"
| step_schedule: "engine_step io (me, s) (schedule_recovered_work (io_now io s) me, s)"
| step_begin: "begin_authoritative_local_scan io me s = (plan, me', s') \<Longrightarrow> engine_step io (me, s) (me', s')"
| step_complete: "complete_authoritative_local_scan (io_nfc io) result me = (receipt, me') \<Longrightarrow> engine_step io (me, s) (me', s)"
| step_due: "run_due_work io me s = (r, me', s') \<Longrightarrow> engine_step io (me, s) (me', s')"
| step_start: "start io me s = (r, me', s') \<Longrightarrow> engine_step io (me, s) (me', s')"

inductive engine_steps :: "('s, 'p) engine_io \<Rightarrow> ManifestEngine \<times> 's \<Rightarrow> ManifestEngine \<times> 's \<Rightarrow> bool" for io where
  steps_refl: "engine_steps io x x"
| steps_step: "engine_steps io x y \<Longrightarrow> engine_step io y z \<Longrightarrow> engine_steps io x z"

inductive_cases engine_stepE: "engine_step io (me, s) z"

section \<open>The refused removals\<close>

fun refusal_matches :: "Degradation \<Rightarrow> WorkspacePath set \<Rightarrow> bool" where
  "refusal_matches (MassDeletionBlocked n _) refused \<longleftrightarrow> refused \<noteq> {} \<and> n = card refused"
| "refusal_matches _ refused \<longleftrightarrow> refused = {}"

definition refusal_ok :: "ManifestEngine \<Rightarrow> bool" where
  "refusal_ok me = refusal_matches (me_degradation me) (me_refused_removals me)"

abbreviation same_refusal :: "ManifestEngine \<Rightarrow> ManifestEngine \<Rightarrow> bool" where
  "same_refusal me me' \<equiv> me_refused_removals me' = me_refused_removals me \<and> me_degradation me' = me_degradation me"

lemma refusal_ok_same: "same_refusal me me' \<Longrightarrow> refusal_ok me \<Longrightarrow> refusal_ok me'"
  by (simp add: refusal_ok_def)

lemma refusal_ok_set [simp]: "\<not> is_mass_deletion_blocked d \<Longrightarrow> refusal_ok (set_degradation d me)"
  by (cases d) (simp_all add: refusal_ok_def)

lemma refusal_ok_bump [simp]: "refusal_ok (bump_revision_if_changed me) = refusal_ok me"
  by (simp add: refusal_ok_def)

lemma refusal_ok_refresh: "refusal_ok me \<Longrightarrow> refusal_ok (refresh_durable_state me)"
  by (cases "me_degradation me") (auto simp: refusal_ok_def refresh_durable_state_def Let_def split: sum.splits)

lemma refusal_ok_fields [simp]:
  "refusal_ok (me\<lparr>me_phase := phase\<rparr>) = refusal_ok me" "refusal_ok (me\<lparr>me_cycle_active := b\<rparr>) = refusal_ok me"
  "refusal_ok (me\<lparr>me_scan_required := b\<rparr>) = refusal_ok me" "refusal_ok (me\<lparr>me_pull_needed := b\<rparr>) = refusal_ok me"
  "refusal_ok (me\<lparr>me_force_ref_read := b\<rparr>) = refusal_ok me" "refusal_ok (me\<lparr>me_store := store\<rparr>) = refusal_ok me"
  "refusal_ok (me\<lparr>me_debounce_deadline := t\<rparr>) = refusal_ok me" "refusal_ok (me\<lparr>me_stall_deadline := t\<rparr>) = refusal_ok me"
  "refusal_ok (me\<lparr>me_max_latency_deadline := t\<rparr>) = refusal_ok me" "refusal_ok (me\<lparr>me_backoff_deadline := t\<rparr>) = refusal_ok me"
  "refusal_ok (me\<lparr>me_backoff_attempt := n\<rparr>) = refusal_ok me" "refusal_ok (me\<lparr>me_last_success_at := t\<rparr>) = refusal_ok me"
  "refusal_ok (me\<lparr>me_unattributed_pull_pending := b\<rparr>) = refusal_ok me" "refusal_ok (me\<lparr>me_pending_ref_hint := h\<rparr>) = refusal_ok me"
  "refusal_ok (me\<lparr>me_pending_barriers := p\<rparr>) = refusal_ok me" "refusal_ok (me\<lparr>me_completed_barriers := c\<rparr>) = refusal_ok me"
  "refusal_ok (me\<lparr>me_dirty_subtrees := d\<rparr>) = refusal_ok me" "refusal_ok (me\<lparr>me_startup_pending := d\<rparr>) = refusal_ok me"
  "refusal_ok (me\<lparr>me_confirmed_removals := d'\<rparr>) = refusal_ok me" "refusal_ok (me\<lparr>me_authoritative_scan_active := b\<rparr>) = refusal_ok me"
  "refusal_ok (me\<lparr>me_ctx := ctx\<rparr>) = refusal_ok me" "refusal_ok (me\<lparr>me_published_batch := d\<rparr>) = refusal_ok me"
  "refusal_ok (me\<lparr>me_head_ref := h\<rparr>) = refusal_ok me" "refusal_ok (me\<lparr>me_applied_ref := e\<rparr>) = refusal_ok me"
  by (simp_all add: refusal_ok_def)

lemma refusal_ok_ops [simp]:
  "refusal_ok (absorb_dirty nfc paths me) = refusal_ok me"
  "refusal_ok (absorb_authoritative_dirty nfc paths q me) = refusal_ok me"
  "refusal_ok (record_walk_unsyncable walk scope me) = refusal_ok me"
  "refusal_ok (absorb_pull outcome now me) = refusal_ok me"
  "refusal_ok (retain_skipped skipped me) = refusal_ok me"
  "refusal_ok (reschedule_dirty now me) = refusal_ok me"
  "refusal_ok (arm_debounce now me) = refusal_ok me" "refusal_ok (preempt_backoff me) = refusal_ok me"
  "refusal_ok (demand_pull me) = refusal_ok me" "refusal_ok (drop_ref_hint me) = refusal_ok me"
  "refusal_ok (ref_wakeup_deadline now me) = refusal_ok me" "refusal_ok (arm_audit now me) = refusal_ok me"
  by (simp_all add: refusal_ok_def arm_debounce_def preempt_backoff_def demand_pull_def drop_ref_hint_def
      ref_wakeup_deadline_def arm_audit_def Let_def)

lemma refusal_ok_confirm: "refusal_ok me \<Longrightarrow> refusal_ok (snd (confirm_mass_deletion now me))"
  by (simp add: confirm_mass_deletion_def Let_def split: Degradation.split)

lemma refusal_ok_coalesce: "coalesce_ref_hint observed me = (wake, me') \<Longrightarrow> refusal_ok me \<Longrightarrow> refusal_ok me'"
  by (auto simp: coalesce_ref_hint_def Let_def split: if_splits option.splits)

lemma refusal_ok_event: "refusal_ok me \<Longrightarrow> refusal_ok (fold_event nfc event now me)"
  using refusal_ok_coalesce refusal_ok_confirm[of me now]
  by (cases event) (auto simp: fold_event_def Let_def split: prod.splits bool.splits option.splits)

lemma guard_root_refusal: "guard_root io me s = (r, me', s') \<Longrightarrow> refusal_ok me \<Longrightarrow> refusal_ok me'"
  by (auto simp: guard_root_def root_returned_def
      split: RootState.splits sum.splits prod.splits if_splits Degradation.splits)

lemma full_scan_refusal: "full_scan io me s = (r, me', s') \<Longrightarrow> refusal_ok me' = refusal_ok me"
  by (auto simp: full_scan_def split: sum.splits prod.splits)

lemma scan_dirty_subtrees_refusal: "scan_dirty_subtrees io me s = (r, me', s') \<Longrightarrow> refusal_ok me' = refusal_ok me"
  by (auto simp: scan_dirty_subtrees_def Let_def split: sum.splits prod.splits)

lemma observe_workspace_refusal: "observe_workspace io me s = (r, me', s') \<Longrightarrow> refusal_ok me' = refusal_ok me"
  by (auto simp: observe_workspace_def split: if_splits sum.splits prod.splits
      dest!: full_scan_refusal scan_dirty_subtrees_refusal)

lemma do_pull_refusal: "do_pull io observation me s = (r, me', s') \<Longrightarrow> refusal_ok me' = refusal_ok me"
  by (erule do_pull_cases) simp_all

lemma receive_refusal: "receive io observation me s = (r, me', s') \<Longrightarrow> refusal_ok me' = refusal_ok me"
  by (auto simp: receive_def split: if_splits prod.splits sum.splits dest!: do_pull_refusal)


section \<open>What the driver relies on\<close>

text \<open>\<open>keeps_frontier\<close>: a store with a consistent frontier becomes one whose ratchet has not moved back.\<close>

definition keeps_frontier :: "manifest_store \<Rightarrow> manifest_store \<Rightarrow> bool" where
  "keeps_frontier store store' \<longleftrightarrow>
     (frontier_ok (st_state store) \<longrightarrow> frontier_ok (st_state store') \<and> ratchet_le (st_state store) (st_state store'))"

lemma keeps_frontier_same: "st_state store' = st_state store \<Longrightarrow> keeps_frontier store store'"
  by (simp add: keeps_frontier_def ratchet_refl)

lemma keeps_frontier_trans: "keeps_frontier a b \<Longrightarrow> keeps_frontier b c \<Longrightarrow> keeps_frontier a c"
  unfolding keeps_frontier_def using ratchet_trans by blast

text \<open>What a part of a cycle keeps: the refusal, the frontier, and that a refusal it reports names something.\<close>

definition part_ok :: "ManifestEngine \<Rightarrow> ManifestEngine \<Rightarrow> CycleError option \<Rightarrow> bool" where
  "part_ok me me' error \<longleftrightarrow>
     (refusal_ok me \<longrightarrow> refusal_ok me') \<and> keeps_frontier (me_store me) (me_store me')
     \<and> (case error of Some (Cycle_MassDeletionBlocked refused _) \<Rightarrow> refused \<noteq> {} | _ \<Rightarrow> True)"

lemma part_ok_trans: "part_ok a b None \<Longrightarrow> part_ok b c error \<Longrightarrow> part_ok a c error"
  unfolding part_ok_def using keeps_frontier_trans by blast

lemma transport_not_blocked: "transport_cycle_error c e \<noteq> Cycle_MassDeletionBlocked refused entries"
  by (cases "c e") (simp_all add: transport_cycle_error_def)

lemma pull_error_not_blocked: "pull_cycle_error c e \<noteq> Cycle_MassDeletionBlocked refused entries"
proof -
  have "map_fatal f d = Cycle_MassDeletionBlocked refused entries \<longleftrightarrow> d = Cycle_MassDeletionBlocked refused entries" for f d
    by (cases d) simp_all
  then show ?thesis using transport_not_blocked by (cases e) (simp_all add: pull_cycle_error_def)
qed

lemma push_error_blocked:
  "push_cycle_error c e = Cycle_MassDeletionBlocked refused entries \<Longrightarrow> \<exists>threshold. e = MassDeletionRefused refused entries threshold"
  using transport_not_blocked by (cases e) auto

abbreviation failure :: "('e + 'a) \<Rightarrow> 'e option" where
  "failure r \<equiv> (case r of Inl e \<Rightarrow> Some e | Inr _ \<Rightarrow> None)"

locale engine_world =
  fixes io :: "('s, 'p) engine_io"
  assumes push_refusal: "io_push io ctx batch deletions evidence s store = (Inl (MassDeletionRefused refused entries threshold), s', store')
      \<Longrightarrow> refused \<noteq> {}"
    and push_frontier: "io_push io ctx batch deletions evidence s store = (pushed, s', store') \<Longrightarrow> keeps_frontier store store'"
    and pull_frontier: "io_pull io ctx scope s store = (pulled, s', store') \<Longrightarrow> keeps_frontier store store'"
    and recover_frontier: "io_recover io ctx s store = (recovered, s', store') \<Longrightarrow> keeps_frontier store store'"
begin

lemma guard_root_part: "guard_root io me s = (r, me', s') \<Longrightarrow> part_ok me me' (failure r)"
  using guard_root_refusal[of io me s r me' s']
  by (auto simp: part_ok_def guard_root_def root_returned_def keeps_frontier_same
      split: RootState.splits sum.splits prod.splits if_splits Degradation.splits)

lemma walk_frontier: "keeps_frontier (me_store me) (me_store (record_walk_unsyncable walk scope me))"
  by (simp add: record_walk_unsyncable_def record_unsyncable_def keeps_frontier_same Let_def)

lemma full_scan_part: "full_scan io me s = (r, me', s') \<Longrightarrow> part_ok me me' (failure r)"
  using walk_frontier[of me] full_scan_refusal[of io me s r me' s']
  by (auto simp: part_ok_def full_scan_def keeps_frontier_same split: sum.splits prod.splits)

lemma scan_dirty_subtrees_part: "scan_dirty_subtrees io me s = (r, me', s') \<Longrightarrow> part_ok me me' (failure r)"
  using walk_frontier[of me] scan_dirty_subtrees_refusal[of io me s r me' s']
  by (auto simp: part_ok_def scan_dirty_subtrees_def keeps_frontier_same Let_def split: sum.splits prod.splits)

lemma do_pull_part: "do_pull io observation me s = (r, me', s') \<Longrightarrow> part_ok me me' (failure r)"
  using do_pull_refusal[of io observation me s r me' s'] pull_frontier pull_error_not_blocked
  by (erule_tac do_pull_cases) (auto simp: part_ok_def split: CycleError.split)

lemma receive_part: "receive io observation me s = (r, me', s') \<Longrightarrow> part_ok me me' (failure r)"
  using do_pull_part[of observation "me\<lparr>me_pull_needed := False\<rparr>" s]
  by (auto simp: receive_def part_ok_def keeps_frontier_same split: if_splits prod.splits sum.splits)

lemma observe_workspace_part: "observe_workspace io me s = (r, me', s') \<Longrightarrow> part_ok me me' (failure r)"
proof -
  assume run: "observe_workspace io me s = (r, me', s')"
  define first where "first = (if me_scan_required me \<and> \<not> me_authoritative_scan_active me
            then (case full_scan io me s of
                (Inl e, me, s) \<Rightarrow> (Inl e, me, s)
              | (Inr _, me, s) \<Rightarrow> (Inr FreshlyWalked, me\<lparr>me_scan_required := False, me_dirty_subtrees := {}\<rparr>, s))
            else (Inr Reactive, me, s))"
  obtain r1 me1 s1 where f: "first = (r1, me1, s1)" by (cases first)
  have one: "part_ok me me1 (failure r1)"
    using f full_scan_part[of me s]
    by (auto simp: first_def part_ok_def keeps_frontier_same split: if_splits prod.splits sum.splits)
  show ?thesis
    using run f one scan_dirty_subtrees_part[of me1 s1] part_ok_trans[of me me1 me']
    by (auto simp: observe_workspace_def first_def[symmetric] split: sum.splits if_splits prod.splits)
qed

lemma publish_attempts_part:
  "publish_attempts n io observation pulled deletions me s = (r, me', s') \<Longrightarrow> part_ok me me' (failure r)"
proof (induction n arbitrary: pulled me s)
  case 0
  then show ?case by (auto simp: part_ok_def keeps_frontier_same)
next
  case (Suc n)
  from Suc.prems show ?case
  proof (cases rule: publish_attempts_cases)
    case stop
    then show ?thesis by (simp add: part_ok_def keeps_frontier_same)
  next
    case (settled attempts outcome store skipped me1)
    then show ?thesis using push_frontier[OF settled(3)] by (auto simp: part_ok_def)
  next
    case (refused attempts error store)
    have "some \<noteq> {}" if "push_cycle_error (io_failure_class io) error = Cycle_MassDeletionBlocked some entries" for some entries
      using push_error_blocked[OF that] push_refusal refused(3) by blast
    then show ?thesis using push_frontier[OF refused(3)] refused(4,5) by (auto simp: part_ok_def split: CycleError.split)
  next
    case (again attempts pushed s1 store me1 r2 me2 s2)
    then have one: "part_ok me me1 None" using push_frontier[OF again(3)] by (auto simp: part_ok_def)
    note two = part_ok_trans[OF one do_pull_part[OF again(5)]]
    have "n = attempts" using again(1) by simp
    with again(6) two show ?thesis using part_ok_trans[of me me2 me' "failure r"] Suc.IH[of True me2 s2] by auto
  qed
qed

lemma run_cycle_part:
  assumes "run_cycle io me s = (r, me', s')"
  shows "part_ok me me' (failure r)"
proof -
  have start: "part_ok me (me\<lparr>me_confirmed_removals := None\<rparr>) None" by (simp add: part_ok_def keeps_frontier_same)
  from assms show ?thesis
  proof (cases rule: run_cycle_cases)
    case (root e)
    then show ?thesis using part_ok_trans[OF start guard_root_part[OF root(1)]] by simp
  next
    case (walk e me1 s1)
    have "part_ok me me1 None" using part_ok_trans[OF start guard_root_part[OF walk(1)]] by simp
    then show ?thesis using part_ok_trans[OF _ observe_workspace_part[OF walk(2)]] walk(3) by simp
  next
    case (receive e me1 s1 observation me2 s2)
    have "part_ok me me1 None" using part_ok_trans[OF start guard_root_part[OF receive(1)]] by simp
    then have "part_ok me me2 None" using part_ok_trans[OF _ observe_workspace_part[OF receive(2)]] by simp
    then show ?thesis using part_ok_trans[OF _ receive_part[OF receive(3)]] receive(4) by simp
  next
    case (publish me1 s1 observation me2 s2 pulled me3 s3 me4)
    have "part_ok me me1 None" using part_ok_trans[OF start guard_root_part[OF publish(1)]] by simp
    then have "part_ok me me2 None" using part_ok_trans[OF _ observe_workspace_part[OF publish(2)]] by simp
    then have "part_ok me me3 None" using part_ok_trans[OF _ receive_part[OF publish(3)]] by simp
    then have "part_ok me me4 (failure r)"
      using part_ok_trans[OF _ publish_attempts_part[OF publish(4)[unfolded publish_dirty_def]]] by simp
    then show ?thesis using publish(5) by (auto simp: part_ok_def)
  qed
qed

section \<open>Every step\<close>

text \<open>The small operations keep both.\<close>

lemma absorb_cycle_error_keeps:
  assumes "absorb_cycle_error error now me = (r, me')" and "part_ok me0 me (Some error)"
  shows "part_ok me0 me' None"
  using assms
  by (cases error)
    (auto simp: absorb_cycle_error_def part_ok_def enter_backoff_eq block_mass_deletion_eq refusal_ok_def)

lemma complete_barriers_keeps: "refusal_ok (complete_barriers me) = refusal_ok me" "me_store (complete_barriers me) = me_store me"
  by (simp_all add: complete_barriers_def Let_def)

lemma refresh_and_bump_keeps: "refusal_ok me \<Longrightarrow> refusal_ok (refresh_and_bump me)" "me_store (refresh_and_bump me) = me_store me"
  by (simp_all add: refresh_and_bump_def refusal_ok_refresh)

lemma cycle_succeeded_keeps: "refusal_ok me \<Longrightarrow> refusal_ok (cycle_succeeded now me)" "me_store (cycle_succeeded now me) = me_store me"
  by (auto simp: cycle_succeeded_def Let_def)

lemma consume_deadlines_keeps:
  "refusal_ok me \<Longrightarrow> refusal_ok (consume_deadlines now me)" "me_store (consume_deadlines now me) = me_store me"
  by (auto simp: consume_deadlines_def Let_def) (simp add: arm_audit_def Let_def)+

lemma run_due_work_keeps:
  assumes "run_due_work io me s = (r, me', s')"
  shows "part_ok me me' None"
proof -
  have begun: "part_ok me (begun (io_now io s) me) None"
    by (simp add: begun_def part_ok_def consume_deadlines_keeps keeps_frontier_same)
  from assms show ?thesis
  proof (cases rule: run_due_work_cases)
    case nothing_due
    then show ?thesis by (simp add: part_ok_def keeps_frontier_same)
  next
    case (succeeded me1)
    from part_ok_trans[OF begun run_cycle_part[OF succeeded(2)]] have "part_ok me (me1\<lparr>me_cycle_active := False\<rparr>) None"
      by (simp add: part_ok_def)
    then show ?thesis using succeeded(4)
      by (simp add: part_ok_def complete_barriers_keeps refresh_and_bump_keeps cycle_succeeded_keeps)
  next
    case (failed error me1 me2)
    from part_ok_trans[OF begun run_cycle_part[OF failed(2)]] have "part_ok me (me1\<lparr>me_cycle_active := False\<rparr>) (Some error)"
      by (simp add: part_ok_def)
    from absorb_cycle_error_keeps[OF failed(3) this] show ?thesis using failed(4)
      by (simp add: part_ok_def complete_barriers_keeps refresh_and_bump_keeps)
  qed
qed

lemma start_keeps:
  assumes "start io me s = (r, me', s')"
  shows "part_ok me me' None"
proof -
  define me0 where "me0 = arm_audit (io_now io s) (me\<lparr>me_phase := Phase_Starting, me_unattributed_pull_pending := True\<rparr>)"
  have zero: "part_ok me me0 None" by (simp add: me0_def part_ok_def keeps_frontier_same) (simp add: arm_audit_def Let_def keeps_frontier_same)
  obtain r1 me1 s1 where guard: "guard_root io me0 s = (r1, me1, s1)" by (cases "guard_root io me0 s")
  have one: "part_ok me me1 (failure r1)" by (rule part_ok_trans[OF zero guard_root_part[OF guard]])
  have fails: "part_ok me me3 None"
    if "part_ok me me2 (Some error)" "(let (r, me) = absorb_cycle_error error now me2 in (r, refresh_and_bump me, s2)) = (r, me3, s')"
    for me2 error now s2 me3
    using that absorb_cycle_error_keeps[of error now me2 _ _ me]
    by (auto simp: part_ok_def refresh_and_bump_keeps split: prod.splits)
  show ?thesis
  proof (cases r1)
    case (Inl error)
    then show ?thesis using assms guard fails[of me1 error] one by (simp add: start_def me0_def[symmetric] Let_def)
  next
    case (Inr u)
    obtain r2 s2 store where recover: "io_recover io (me_ctx me1) s1 (me_store me1) = (r2, s2, store)"
      by (cases "io_recover io (me_ctx me1) s1 (me_store me1)")
    have two: "part_ok me (me1\<lparr>me_store := store\<rparr>) None"
      using part_ok_trans[of me me1 "me1\<lparr>me_store := store\<rparr>" None] one Inr recover_frontier[OF recover] by (simp add: part_ok_def)
    show ?thesis
    proof (cases r2)
      case r2: (Inl error)
      have "part_ok me me2 (Some (pull_cycle_error (io_failure_class io) error))"
        if "me2 = me1\<lparr>me_store := store\<rparr> \<or> me2 = me1\<lparr>me_store := store, me_pull_needed := True\<rparr>" for me2
        using that two pull_error_not_blocked by (auto simp: part_ok_def split: CycleError.split)
      from fails[OF this] show ?thesis
        using assms guard Inr recover r2 by (auto simp: start_def me0_def[symmetric] Let_def split: if_splits)
    next
      case r2: (Inr u')
      let ?me2 = "absorb_dirty (io_nfc io) (st_pending_push store) (me1\<lparr>me_store := store, me_startup_pending := st_pending_push store\<rparr>)"
      let ?me3 = "?me2\<lparr>me_scan_required := True, me_pull_needed := True, me_debounce_deadline := Some (io_now io s2)\<rparr>"
      have "run_due_work io ?me3 s2 = (r, me', s')"
        using assms guard Inr recover r2 by (simp add: start_def me0_def[symmetric] Let_def)
      moreover have "part_ok me ?me3 None" using two by (simp add: part_ok_def)
      ultimately show ?thesis using part_ok_trans run_due_work_keeps by blast
    qed
  qed
qed

lemma begin_scan_keeps:
  assumes "begin_authoritative_local_scan io me s = (r, me', s')"
  shows "part_ok me me' None"
proof (cases "me_cycle_active me \<or> me_authoritative_scan_active me")
  case True
  then show ?thesis using assms by (auto simp: begin_authoritative_local_scan_def part_ok_def keeps_frontier_same)
next
  case False
  define me0 where "me0 = bump_revision_if_changed (me\<lparr>me_phase := Phase_Syncing, me_authoritative_scan_active := True\<rparr>)"
  obtain r1 me1 s1 where guard: "guard_root io me0 s = (r1, me1, s1)" by (cases "guard_root io me0 s")
  have "part_ok me me0 None" by (simp add: me0_def part_ok_def keeps_frontier_same)
  from part_ok_trans[OF this guard_root_part[OF guard]] have one: "part_ok me me1 (failure r1)" .
  show ?thesis
  proof (cases r1)
    case (Inl error)
    then show ?thesis using assms False guard one
      by (cases error) (auto simp: begin_authoritative_local_scan_def me0_def[symmetric] part_ok_def Let_def)
  next
    case (Inr u)
    then show ?thesis using assms False guard one
      by (auto simp: begin_authoritative_local_scan_def me0_def[symmetric] part_ok_def Let_def split: sum.splits)
  qed
qed

lemma complete_scan_keeps:
  assumes "complete_authoritative_local_scan nfc result me = (r, me')"
  shows "part_ok me me' None"
proof (cases "asl_walk result")
  case (Inl fault)
  then show ?thesis using assms by (auto simp: complete_authoritative_local_scan_def part_ok_def keeps_frontier_same Let_def)
next
  case (Inr walk)
  define me1 where "me1 = absorb_authoritative_dirty nfc (sw_dirty walk) (asl_observation_seq result)
    (record_walk_unsyncable walk WholeWorkspace (me\<lparr>me_authoritative_scan_active := False\<rparr>))"
  have one: "part_ok me me1 None"
    using walk_frontier[of "me\<lparr>me_authoritative_scan_active := False\<rparr>"] by (simp add: me1_def part_ok_def)
  have "me' = bump_revision_if_changed (refresh_durable_state
      ((case me_degradation me1 of FullScanRequired _ \<Rightarrow> set_degradation Nominal me1 | _ \<Rightarrow> me1)\<lparr>me_phase := Phase_Syncing\<rparr>))"
    using assms Inr by (cases "me_degradation me") (auto simp: complete_authoritative_local_scan_def me1_def Let_def)
  then show ?thesis using one by (auto simp: part_ok_def refusal_ok_refresh split: Degradation.split)
qed

lemma fold_event_store: "me_store (fold_event nfc event now me) = me_store me"
proof -
  have "me_store (snd (coalesce_ref_hint observed me)) = me_store me" for observed
    by (auto simp: coalesce_ref_hint_def Let_def split: option.split)
  then show ?thesis
    by (cases event) (auto simp: fold_event_def Let_def arm_debounce_def preempt_backoff_def demand_pull_def drop_ref_hint_def
        ref_wakeup_deadline_def confirm_mass_deletion_def split: prod.splits bool.splits option.splits Degradation.splits; metis snd_conv)+
qed

lemma engine_step_keeps: "engine_step io (me, s) (me', s') \<Longrightarrow> part_ok me me' None"
proof (erule engine_stepE)
  fix answer me1
  show "confirm_mass_deletion (io_now io s) me = (answer, me1) \<Longrightarrow> (me', s') = (me1, s) \<Longrightarrow> part_ok me me' None"
    using refusal_ok_confirm[of me "io_now io s"]
    by (auto simp: part_ok_def confirm_mass_deletion_def preempt_backoff_def keeps_frontier_same Let_def split: Degradation.splits)
next
  fix event show "(me', s') = (on_event (io_nfc io) event (io_now io s) me, s) \<Longrightarrow> part_ok me me' None"
    by (simp add: on_event_def part_ok_def refusal_ok_event fold_event_store keeps_frontier_same)
next
  fix due me1
  show "announce_due_work (io_now io s) me = (due, me1) \<Longrightarrow> (me', s') = (me1, s) \<Longrightarrow> part_ok me me' None"
    by (auto simp: announce_due_work_def part_ok_def keeps_frontier_same split: if_splits)
qed (auto simp: part_ok_def keeps_frontier_same take_completed_barriers_def schedule_recovered_work_def
    dest: begin_scan_keeps[unfolded part_ok_def] complete_scan_keeps[unfolded part_ok_def]
      run_due_work_keeps[unfolded part_ok_def] start_keeps[unfolded part_ok_def])

lemma engine_steps_keep: "engine_steps io x y \<Longrightarrow> part_ok (fst x) (fst y) None"
proof (induction rule: engine_steps.induct)
  case (steps_refl x)
  then show ?case by (simp add: part_ok_def keeps_frontier_same)
next
  case (steps_step x y z)
  then show ?case using part_ok_trans engine_step_keeps[of "fst y" "snd y" "fst z" "snd z"] by simp
qed

end

end
