(* ===== verification/Tree_Diff.thy ===== *)
theory Tree_Diff
  imports Tree_Transport
begin

text \<open>
  The comparison of two published trees, \<^verbatim>\<open>diff.rs\<close>: nodes with equal keys are skipped, others are
  opened on both sides and compared name by name, and the paths that differ are collected with
  their new entries. A node is opened at most once; the budget of each side counts every use.
  The recursion is on the levels that the depth guard leaves, as in the fetch.
\<close>

record ('b, 's) diff_env =
  dn_io :: "('b, 's) tree_io"
  dn_crypto :: WorkspaceCrypto
  dn_objects :: "'s objects"
  dn_limits :: DecodeLimits
  dn_fold :: "string \<Rightarrow> string"

record OpenedTreeNode =
  on_node :: TreeNode
  on_decoded_bytes :: u64

record DecodedBudgets =
  db_old :: u64
  db_new :: u64

datatype TreeSide = Side_Old | Side_New

record TreeDiffer =
  df_entries :: "(WorkspacePath, ManifestEntry) btree_map"
  df_touched :: "WorkspacePath set"
  df_folded :: "(string, WorkspacePath list) btree_map"
  df_collision_entries :: "(WorkspacePath, ManifestEntry) btree_map"
  df_opened :: "(ManifestKey, OpenedTreeNode) btree_map"
  df_records :: u64
  df_aggregate :: u64
  df_decoded :: DecodedBudgets

record TreeDelta =
  td_entries :: "(WorkspacePath, ManifestEntry) btree_map"
  td_touched :: "WorkspacePath set"
  td_collisions :: "PathCollision list"

section \<open>Opening and counting nodes\<close>

definition charge :: "TreeSide \<Rightarrow> u64 \<Rightarrow> u64 \<Rightarrow> DecodedBudgets \<Rightarrow> TreeError + DecodedBudgets" where
  "charge side bytes limit budgets =
     (case side of
        Side_Old \<Rightarrow>
          (let decoded = saturating_add_u64 (db_old budgets) bytes
           in if decoded > limit then Inl (bound ''tree-aggregate-decoded-bytes'') else Inr (budgets\<lparr>db_old := decoded\<rparr>))
      | Side_New \<Rightarrow>
          (let decoded = saturating_add_u64 (db_new budgets) bytes
           in if decoded > limit then Inl (bound ''tree-aggregate-decoded-bytes'') else Inr (budgets\<lparr>db_new := decoded\<rparr>)))"

definition charge_differ :: "('b, 's) diff_env \<Rightarrow> TreeSide \<Rightarrow> u64 \<Rightarrow> TreeDiffer \<Rightarrow> TreeError + TreeDiffer" where
  "charge_differ env side bytes d =
     map_sum id (\<lambda>decoded. d\<lparr>df_decoded := decoded\<rparr>)
       (charge side bytes (max_aggregate_decoded_bytes (dn_limits env)) (df_decoded d))"

definition diff_open_node ::
  "('b, 's) diff_env \<Rightarrow> ManifestKey \<Rightarrow> TreeSide \<Rightarrow> bool \<Rightarrow> TreeDiffer \<Rightarrow> TreeError + TreeNode \<times> TreeDiffer" where
  "diff_open_node env key side charge_cached d =
     (case map_of (df_opened d) key of
        Some opened \<Rightarrow>
          if charge_cached then map_sum id (Pair (on_node opened)) (charge_differ env side (on_decoded_bytes opened) d)
          else Inr (on_node opened, d)
      | None \<Rightarrow>
     (case dn_objects env key of
        Inl e \<Rightarrow> Inl (Tree_Transport e)
      | Inr sealed \<Rightarrow>
          if physical_manifest_key (dn_io env) sealed \<noteq> key then Inl NodeKeyMismatch
          else (case open_tree_node (dn_io env) (dn_crypto env) sealed (dn_limits env) of
             Inl e \<Rightarrow> Inl (Tree_Manifest e)
           | Inr (plaintext, key_epoch) \<Rightarrow>
               (let bytes = plaintext_len (dn_io env) plaintext
                in case charge_differ env side bytes d of
                     Inl e \<Rightarrow> Inl e
                   | Inr d \<Rightarrow>
                  (case TreeNode_decode (from_bytes (dn_io env)) plaintext key_epoch (dn_limits env) of
                     Inl e \<Rightarrow> Inl (Tree_Manifest e)
                   | Inr node \<Rightarrow>
                       Inr (node, d\<lparr>df_opened := bt_insert key \<lparr>on_node = node, on_decoded_bytes = bytes\<rparr> (df_opened d)\<rparr>))))))"

fun payload_size :: "TreeEntryPayload \<Rightarrow> u64 option" where
  "payload_size (Tree_File sz _ _ _ _) = Some sz"
| "payload_size _ = None"

fun add_declared :: "DecodeLimits \<Rightarrow> TreeEntry list \<Rightarrow> u64 \<Rightarrow> TreeError + u64" where
  "add_declared limits [] aggregate = Inr aggregate"
| "add_declared limits (entry # entries) aggregate =
     (case payload_size (te_payload entry) of
        None \<Rightarrow> add_declared limits entries aggregate
      | Some sz \<Rightarrow>
          (case filter_option (\<lambda>total. total \<le> max_aggregate_declared_bytes limits) (checked_add_u64 aggregate sz) of
             None \<Rightarrow> Inl (bound ''aggregate-declared-size'')
           | Some aggregate \<Rightarrow> add_declared limits entries aggregate))"

definition count_node :: "('b, 's) diff_env \<Rightarrow> TreeNode \<Rightarrow> bool \<Rightarrow> TreeDiffer \<Rightarrow> TreeError + TreeDiffer" where
  "count_node env node new_tree d =
     (let d = d\<lparr>df_records := saturating_add_u64 (df_records d) (length (tn_entries node))\<rparr>
      in if df_records d > min (max_records (dn_limits env) * 2) u64_MAX then Inl (bound ''record-count'')
         else if new_tree
         then map_sum id (\<lambda>aggregate. d\<lparr>df_aggregate := aggregate\<rparr>)
           (add_declared (dn_limits env) (tn_entries node) (df_aggregate d))
         else Inr d)"

fun visible_entry :: "TreeEntryPayload \<Rightarrow> ManifestEntry option" where
  "visible_entry (Tree_File sz mode content_id blob_key key_epoch) = Some (File sz mode content_id blob_key key_epoch)"
| "visible_entry (Tree_Directory mode _) = Some (Directory mode)"
| "visible_entry (Tree_Symlink mode target) = Some (Symlink mode target)"
| "visible_entry (Tree_Subtree _) = None"

section \<open>Collecting paths\<close>

definition touch :: "WorkspacePath \<Rightarrow> TreeDiffer \<Rightarrow> TreeDiffer" where
  "touch path d = d\<lparr>df_touched := insert path (df_touched d)\<rparr>"

definition diff_emit :: "('b, 's) diff_env \<Rightarrow> DirPath \<Rightarrow> ManifestEntry \<Rightarrow> TreeDiffer \<Rightarrow> TreeError + TreeDiffer" where
  "diff_emit env path entry d =
     (case validate (dn_limits env) path of
        Inl e \<Rightarrow> Inl e
      | Inr _ \<Rightarrow> Inr ((touch path d)\<lparr>df_entries := bt_insert path entry (df_entries d)\<rparr>))"

definition note_collision :: "('b, 's) diff_env \<Rightarrow> DirPath \<Rightarrow> TreeEntryPayload \<Rightarrow> TreeDiffer \<Rightarrow> TreeDiffer" where
  "note_collision env path payload d =
     (let d = d\<lparr>df_folded := push_folded (dn_fold env path) path (df_folded d)\<rparr>
      in case visible_entry payload of
           None \<Rightarrow> d
         | Some visible \<Rightarrow>
             if map_of (df_collision_entries d) path = None
             then d\<lparr>df_collision_entries := bt_insert path visible (df_collision_entries d)\<rparr> else d)"

fun record_collisions :: "('b, 's) diff_env \<Rightarrow> DirPath \<Rightarrow> TreeEntry list \<Rightarrow> TreeDiffer \<Rightarrow> TreeError + TreeDiffer" where
  "record_collisions env dir [] d = Inr d"
| "record_collisions env dir (entry # entries) d =
     (let path = dir_child dir (te_name entry)
      in case validate (dn_limits env) path of
           Inl e \<Rightarrow> Inl e
         | Inr _ \<Rightarrow> record_collisions env dir entries (note_collision env path (te_payload entry) d))"

section \<open>One side only\<close>

definition enumerate_entry ::
  "('b, 's) diff_env \<Rightarrow> (DirPath \<Rightarrow> ManifestKey \<Rightarrow> TreeDiffer \<Rightarrow> TreeError + TreeDiffer) \<Rightarrow> bool \<Rightarrow> DirPath \<Rightarrow>
   TreeEntryPayload \<Rightarrow> TreeDiffer \<Rightarrow> TreeError + TreeDiffer" where
  "enumerate_entry env down adding child payload d =
     (case (case visible_entry payload of
              None \<Rightarrow> Inr d
            | Some visible \<Rightarrow> if adding then diff_emit env child visible d else Inr (touch child d)) of
        Inl e \<Rightarrow> Inl e
      | Inr d \<Rightarrow> (case payload_child payload of None \<Rightarrow> Inr d | Some node \<Rightarrow> down child node d))"

fun enumerate_entries ::
  "('b, 's) diff_env \<Rightarrow> (DirPath \<Rightarrow> ManifestKey \<Rightarrow> TreeDiffer \<Rightarrow> TreeError + TreeDiffer) \<Rightarrow> bool \<Rightarrow> DirPath \<Rightarrow>
   TreeEntry list \<Rightarrow> TreeDiffer \<Rightarrow> TreeError + TreeDiffer" where
  "enumerate_entries env down adding dir [] d = Inr d"
| "enumerate_entries env down adding dir (entry # entries) d =
     (case enumerate_entry env down adding (dir_child dir (te_name entry)) (te_payload entry) d of
        Inl e \<Rightarrow> Inl e
      | Inr d \<Rightarrow> enumerate_entries env down adding dir entries d)"

primrec enumerate_tree ::
  "('b, 's) diff_env \<Rightarrow> bool \<Rightarrow> nat \<Rightarrow> DirPath \<Rightarrow> ManifestKey \<Rightarrow> TreeDiffer \<Rightarrow> TreeError + TreeDiffer" where
  "enumerate_tree env adding 0 dir key d = Inl (bound ''tree-depth'')"
| "enumerate_tree env adding (Suc levels) dir key d =
     (case diff_open_node env key (if adding then Side_New else Side_Old) True d of
        Inl e \<Rightarrow> Inl e
      | Inr (node, d) \<Rightarrow>
     (case count_node env node adding d of
        Inl e \<Rightarrow> Inl e
      | Inr d \<Rightarrow>
     (case (if adding then record_collisions env dir (tn_entries node) d else Inr d) of
        Inl e \<Rightarrow> Inl e
      | Inr d \<Rightarrow> enumerate_entries env (enumerate_tree env adding levels) adding dir (tn_entries node) d)))"

section \<open>Both sides\<close>

definition compare_entry ::
  "('b, 's) diff_env \<Rightarrow> nat \<Rightarrow> (DirPath \<Rightarrow> ManifestKey \<Rightarrow> ManifestKey \<Rightarrow> TreeDiffer \<Rightarrow> TreeError + TreeDiffer) \<Rightarrow>
   DirPath \<Rightarrow> TreeEntryPayload \<Rightarrow> TreeEntryPayload \<Rightarrow> TreeDiffer \<Rightarrow> TreeError + TreeDiffer" where
  "compare_entry env levels down path before after d =
     (case (before, after) of
        (Tree_Directory before_mode before_child, Tree_Directory after_mode after_child) \<Rightarrow>
          (case (if before_mode \<noteq> after_mode then diff_emit env path (Directory after_mode) d else Inr d) of
             Inl e \<Rightarrow> Inl e
           | Inr d \<Rightarrow> down path before_child after_child d)
      | (Tree_Subtree before_child, Tree_Subtree after_child) \<Rightarrow> down path before_child after_child d
      | (Tree_Directory _ before_child, Tree_Subtree after_child) \<Rightarrow> down path before_child after_child (touch path d)
      | (Tree_Subtree before_child, Tree_Directory mode after_child) \<Rightarrow>
          (case diff_emit env path (Directory mode) d of
             Inl e \<Rightarrow> Inl e
           | Inr d \<Rightarrow> down path before_child after_child d)
      | _ \<Rightarrow>
          (case enumerate_entry env (enumerate_tree env False levels) False path before d of
             Inl e \<Rightarrow> Inl e
           | Inr d \<Rightarrow> enumerate_entry env (enumerate_tree env True levels) True path after d))"

definition compare_name ::
  "('b, 's) diff_env \<Rightarrow> nat \<Rightarrow> (DirPath \<Rightarrow> ManifestKey \<Rightarrow> ManifestKey \<Rightarrow> TreeDiffer \<Rightarrow> TreeError + TreeDiffer) \<Rightarrow>
   DirPath \<Rightarrow> TreeEntryPayload option \<Rightarrow> TreeEntryPayload option \<Rightarrow> TreeDiffer \<Rightarrow> TreeError + TreeDiffer" where
  "compare_name env levels down child before after d =
     (case (before, after) of
        (Some before, Some after) \<Rightarrow> if before = after then Inr d else compare_entry env levels down child before after d
      | (Some before, None) \<Rightarrow> enumerate_entry env (enumerate_tree env False levels) False child before d
      | (None, Some after) \<Rightarrow> enumerate_entry env (enumerate_tree env True levels) True child after d
      | (None, None) \<Rightarrow> Inr d)"

fun compare_names ::
  "('b, 's) diff_env \<Rightarrow> nat \<Rightarrow> (DirPath \<Rightarrow> ManifestKey \<Rightarrow> ManifestKey \<Rightarrow> TreeDiffer \<Rightarrow> TreeError + TreeDiffer) \<Rightarrow>
   DirPath \<Rightarrow> (string, TreeEntryPayload) btree_map \<Rightarrow> (string, TreeEntryPayload) btree_map \<Rightarrow> string list \<Rightarrow>
   TreeDiffer \<Rightarrow> TreeError + TreeDiffer" where
  "compare_names env levels down dir old new [] d = Inr d"
| "compare_names env levels down dir old new (name # names) d =
     (case compare_name env levels down (dir_child dir name) (map_of old name) (map_of new name) d of
        Inl e \<Rightarrow> Inl e
      | Inr d \<Rightarrow> compare_names env levels down dir old new names d)"

definition entries_by_name :: "TreeNode \<Rightarrow> (string, TreeEntryPayload) btree_map" where
  "entries_by_name node = bt_collect (map (\<lambda>entry. (te_name entry, te_payload entry)) (tn_entries node))"

definition all_names :: "(string, 'a) btree_map \<Rightarrow> (string, 'b) btree_map \<Rightarrow> string list" where
  "all_names old new = map fst (bt_collect (map (\<lambda>(name, _). (name, ())) old @ map (\<lambda>(name, _). (name, ())) new))"

primrec compare_tree ::
  "('b, 's) diff_env \<Rightarrow> nat \<Rightarrow> DirPath \<Rightarrow> ManifestKey \<Rightarrow> ManifestKey \<Rightarrow> TreeDiffer \<Rightarrow> TreeError + TreeDiffer" where
  "compare_tree env 0 dir old_key new_key d = (if old_key = new_key then Inr d else Inl (bound ''tree-depth''))"
| "compare_tree env (Suc levels) dir old_key new_key d =
     (if old_key = new_key then Inr d
      else (case diff_open_node env old_key Side_Old True d of
        Inl e \<Rightarrow> Inl e
      | Inr (old_node, d) \<Rightarrow>
     (case count_node env old_node False d of
        Inl e \<Rightarrow> Inl e
      | Inr d \<Rightarrow>
     (case diff_open_node env new_key Side_New True d of
        Inl e \<Rightarrow> Inl e
      | Inr (new_node, d) \<Rightarrow>
     (case count_node env new_node True d of
        Inl e \<Rightarrow> Inl e
      | Inr d \<Rightarrow>
          (let old = entries_by_name old_node; new = entries_by_name new_node
           in case record_collisions env dir (map (\<lambda>(name, payload). \<lparr>te_name = name, te_payload = payload\<rparr>) new) d of
                Inl e \<Rightarrow> Inl e
              | Inr d \<Rightarrow> compare_names env levels (compare_tree env levels) dir old new (all_names old new) d))))))"

section \<open>Dirty paths and collisions\<close>

text \<open>The names of an opened node are strictly ordered, so the binary search finds the one entry
  of a name.\<close>

fun resolve :: "('b, 's) diff_env \<Rightarrow> WorkspacePath \<Rightarrow> string list \<Rightarrow> ManifestKey \<Rightarrow> TreeDiffer \<Rightarrow> TreeError + TreeDiffer" where
  "resolve env path [] key d = Inr d"
| "resolve env path (component # components) key d =
     (case diff_open_node env key Side_New False d of
        Inl e \<Rightarrow> Inl e
      | Inr (node, d) \<Rightarrow>
          (case List.find (\<lambda>entry. te_name entry = component) (tn_entries node) of
             None \<Rightarrow> Inr d
           | Some entry \<Rightarrow>
               if components = [] then
                 Inr (case visible_entry (te_payload entry) of
                     None \<Rightarrow> d
                   | Some visible \<Rightarrow> d\<lparr>df_entries := bt_insert path visible (df_entries d)\<rparr>)
               else (case payload_child (te_payload entry) of
                   None \<Rightarrow> Inr d
                 | Some child \<Rightarrow> resolve env path components child d)))"

fun resolve_dirty :: "('b, 's) diff_env \<Rightarrow> ManifestKey \<Rightarrow> WorkspacePath list \<Rightarrow> TreeDiffer \<Rightarrow> TreeError + TreeDiffer" where
  "resolve_dirty env root [] d = Inr d"
| "resolve_dirty env root (path # paths) d =
     (case resolve env path (split_on slash path) root d of
        Inl e \<Rightarrow> Inl e
      | Inr d \<Rightarrow> resolve_dirty env root paths (touch path d))"

definition diff_collisions :: "(string, WorkspacePath list) btree_map \<Rightarrow> PathCollision list" where
  "diff_collisions folded =
     filter (\<lambda>collision. length (pc_paths collision) > 1)
       (map (\<lambda>(key, paths). \<lparr>pc_folded = key, pc_paths = remdups_adj (sort paths)\<rparr>)
         (filter (\<lambda>(_, paths). length paths > 1) folded))"

definition add_collided :: "WorkspacePath \<Rightarrow> TreeDiffer \<Rightarrow> TreeDiffer" where
  "add_collided path d =
     (let d = touch path d
      in case map_of (df_collision_entries d) path of
           None \<Rightarrow> d
         | Some entry \<Rightarrow> d\<lparr>df_entries := bt_insert path entry (df_entries d)\<rparr>)"

definition new_differ :: TreeDiffer where
  "new_differ = \<lparr>df_entries = [], df_touched = {}, df_folded = [], df_collision_entries = [], df_opened = [],
     df_records = 0, df_aggregate = 0, df_decoded = \<lparr>db_old = 0, db_new = 0\<rparr>\<rparr>"

definition diff_tree ::
  "('b, 's) diff_env \<Rightarrow> ManifestKey \<Rightarrow> ManifestKey \<Rightarrow> WorkspacePath set \<Rightarrow> TreeError + TreeDelta" where
  "diff_tree env old_root new_root dirty_paths =
     (case compare_tree env (Suc (max_depth (dn_limits env))) dir_root old_root new_root new_differ of
        Inl e \<Rightarrow> Inl e
      | Inr d \<Rightarrow>
     (case resolve_dirty env new_root (sorted_list_of_set dirty_paths) d of
        Inl e \<Rightarrow> Inl e
      | Inr d \<Rightarrow>
          (let clashes = diff_collisions (df_folded d);
               d = fold add_collided (concat (map pc_paths clashes)) d
           in Inr \<lparr>td_entries = df_entries d, td_touched = df_touched d, td_collisions = clashes\<rparr>)))"

end
