(* ===== verification/Pull_Head.thy ===== *)
theory Pull_Head
  imports Tree_Diff Pull_Recovery Push_Cycle
begin

text \<open>
  One pull, \<^verbatim>\<open>pull_apply.rs\<close>: recover, read the ref, reject what is not fresh, and either record a
  head that is already applied or fetch it (whole, or only what differs from the applied head),
  merge it and apply the plan. Nothing here writes to the disk but the recovery and the plan.
\<close>

record ('b, 'o, 's) pull_env =
  pe_io :: "('b, 'o) tree_io"
  pe_crypto :: WorkspaceCrypto
  pe_blake3 :: "string \<Rightarrow> string"
  pe_fold :: "string \<Rightarrow> string"
  pe_project_view :: bool
  pe_debug_assertions :: bool
  pe_objects :: "'s \<Rightarrow> 'o objects"
  pe_read_ref :: "'s \<Rightarrow> string + RefObservation option"

fun reconciles_ancestor :: "PullScope \<Rightarrow> bool" where
  "reconciles_ancestor (ReconcileAncestor _) = True"
| "reconciles_ancestor _ = False"

definition head_limits :: "('b, 'o, 's) pull_env \<Rightarrow> DecodeLimits" where
  "head_limits env = (if pe_project_view env then project_view else DecodeLimits_default)"

section \<open>Freshness\<close>

definition enforce_freshness :: "manifest_store \<Rightarrow> RefObservation \<Rightarrow> PullError + unit" where
  "enforce_freshness store head =
     (case engine_state store of
        Inl e \<Rightarrow> Inl (Pull_Store e)
      | Inr state \<Rightarrow>
          (case highest_verified_ref_version state of
             None \<Rightarrow> Inr ()
           | Some highest \<Rightarrow>
               if ref_version head < highest then Inl (RefRegressed (ref_version head) highest)
               else if ref_version head = highest \<and> highest_verified_manifest_key state \<noteq> Some (ref_manifest_key head)
               then Inl (RefForked (ref_version head))
               else Inr ()))"

section \<open>Fetching and deciding\<close>

definition ancestor_manifest_entries :: "ancestor_rows \<Rightarrow> PullError + (WorkspacePath, ManifestEntry) btree_map" where
  "ancestor_manifest_entries ancestor = map_sum Pull_Push id (ancestor_entries ancestor [])"

definition hashed_directories ::
  "('b, 'o, 's) pull_env \<Rightarrow> (WorkspacePath, ManifestEntry) btree_map \<Rightarrow> PullError + (DirPath, SubtreeHash) btree_map" where
  "hashed_directories env entries =
     (case decompose entries of
        Inl e \<Rightarrow> Inl (Pull_Manifest e)
      | Inr tree \<Rightarrow> map_sum Pull_Manifest id (subtree_hashes (pe_blake3 env) tree (write_epoch (pe_crypto env))))"

definition record_fetched ::
  "(DirPath, SubtreeHash) btree_map \<Rightarrow> (DirPath, ManifestKey) btree_map \<Rightarrow> StoreNodeLedger \<Rightarrow> StoreNodeLedger" where
  "record_fetched hashes node_keys ledger =
     fold (\<lambda>(dir, hash) ledger.
         case map_of node_keys dir of Some key \<Rightarrow> StoreNodeLedger_record hash key ledger | None \<Rightarrow> ledger) hashes ledger"

definition fetch_head ::
  "('b, 'o, 's) pull_env \<Rightarrow> 'o objects \<Rightarrow> RefObservation \<Rightarrow> ancestor_rows \<Rightarrow> bool \<Rightarrow> manifest_store \<Rightarrow>
   PullError + (Manifest \<times> PathCollision list) \<times> manifest_store" where
  "fetch_head env objs head ancestor prune_unchanged store =
     (let key_epoch = write_epoch (pe_crypto env)
      in case ancestor_manifest_entries ancestor of
           Inl e \<Rightarrow> Inl e
         | Inr entries \<Rightarrow>
        (case hashed_directories env entries of
           Inl e \<Rightarrow> Inl e
         | Inr hashes \<Rightarrow>
             (let ledger = StoreNodeLedger_new (tree_node store) key_epoch;
                  prune = (if prune_unchanged
                    then Some \<lparr>pb_entries = entries, pb_hashes = hashes, pb_ledger = StoreNodeLedger_known ledger\<rparr> else None)
              in case fetch_tree \<lparr>we_io = pe_io env, we_crypto = pe_crypto env, we_objects = objs,
                     we_limits = head_limits env, we_fold = pe_fold env, we_prune = prune\<rparr> (ref_manifest_key head) of
                   Inl e \<Rightarrow> Inl (pull_error_from_tree e)
                 | Inr fetched \<Rightarrow>
                (case hashed_directories env (mf_entries (ft_manifest fetched)) of
                   Inl e \<Rightarrow> Inl e
                 | Inr head_hashes \<Rightarrow>
                     Inr ((ft_manifest fetched, ft_collisions fetched),
                       record_tree_nodes (into_recorded (record_fetched head_hashes (ft_node_keys fetched) ledger)) key_epoch store)))))"

definition decide_head ::
  "('b, 'o, 's) pull_env \<Rightarrow> 'o objects \<Rightarrow> PullScope \<Rightarrow> world \<Rightarrow> RefObservation \<Rightarrow> manifest_store \<Rightarrow>
   PullError + MergePlan \<times> manifest_store" where
  "decide_head env objs scope w head store =
     (case engine_state store of
        Inl e \<Rightarrow> Inl (Pull_Store e)
      | Inr state \<Rightarrow>
          (case (applied_manifest_key state, scope_dirty_paths scope) of
             (Some applied, Some dirty_paths) \<Rightarrow>
               (case diff_tree \<lparr>dn_io = pe_io env, dn_crypto = pe_crypto env, dn_objects = objs, dn_limits = head_limits env,
                      dn_fold = pe_fold env\<rparr> applied (ref_manifest_key head) dirty_paths of
                  Inl e \<Rightarrow> Inl (pull_error_from_tree e)
                | Inr delta \<Rightarrow>
                    (let scopes = td_touched delta \<union> dirty_paths \<union> \<Union> (set ` pc_paths ` set (td_collisions delta));
                         ancestor = files_at_paths scopes store
                     in map_sum id (\<lambda>plan. (plan, store))
                       (classify (pe_debug_assertions env) w ancestor (td_entries delta) (td_collisions delta) scope)))
           | _ \<Rightarrow>
               (let ancestor = all_files store
                in case fetch_head env objs head ancestor (\<not> reconciles_ancestor scope) store of
                     Inl e \<Rightarrow> Inl e
                   | Inr ((snapshot, clashes), store) \<Rightarrow>
                       map_sum id (\<lambda>plan. (plan, store))
                         (classify (pe_debug_assertions env) w ancestor (mf_entries snapshot) clashes scope))))"

definition apply_head ::
  "('b, 'o, 's) pull_env \<Rightarrow> 's disk \<Rightarrow> PullScope \<Rightarrow> RefObservation \<Rightarrow> 's \<Rightarrow> manifest_store \<Rightarrow>
   (PullError + PullOutcome) \<times> 's \<times> manifest_store" where
  "apply_head env disk scope head s store =
     (case decide_head env (pe_objects env s) scope (d_world disk s) head store of
        Inl e \<Rightarrow> (Inl e, s, store)
      | Inr (plan, store) \<Rightarrow> apply_plan disk plan (ref_manifest_key head) (ref_version head) s store)"

section \<open>One pull\<close>

definition pull_observed ::
  "('b, 'o, 's) pull_env \<Rightarrow> 's disk \<Rightarrow> PullScope \<Rightarrow> RefObservation option \<Rightarrow> 's \<Rightarrow> manifest_store \<Rightarrow>
   (PullError + PullOutcome) \<times> 's \<times> manifest_store" where
  "pull_observed env disk scope observed s store =
     (case observed of
        None \<Rightarrow> (Inr (PullOutcome_default\<lparr>po_observed_ref := Genesis\<rparr>), s, store)
      | Some head \<Rightarrow>
     (case enforce_freshness store head of
        Inl e \<Rightarrow> (Inl e, s, store)
      | Inr _ \<Rightarrow>
     (case engine_state store of
        Inl e \<Rightarrow> (Inl (Pull_Store e), s, store)
      | Inr state \<Rightarrow>
          if applied_manifest_key state = Some (ref_manifest_key head) \<and> \<not> reconciles_ancestor scope
          then
            (case (if last_ref_version state \<noteq> Some (ref_version head)
                   then record_ref_advance (ref_manifest_key head) (ref_version head) store else Inr store) of
               Inl e \<Rightarrow> (Inl (Pull_Store e), s, store)
             | Inr store \<Rightarrow>
                 (Inr (PullOutcome_default\<lparr>po_observed_ref := Head head, po_applied_manifest_key := Some (ref_manifest_key head),
                    po_ref_version := Some (ref_version head), po_already_current := True\<rparr>), s, store))
          else apply_head env disk scope head s store)))"

definition pull ::
  "('b, 'o, 's) pull_env \<Rightarrow> 's disk \<Rightarrow> PullScope \<Rightarrow> 's \<Rightarrow> manifest_store \<Rightarrow>
   (PullError + PullOutcome) \<times> 's \<times> manifest_store" where
  "pull env disk scope s store =
     (case recover_intents disk s store of
        (Inl e, s, store) \<Rightarrow> (Inl e, s, store)
      | (Inr _, s, store) \<Rightarrow>
          (case pe_read_ref env s of
             Inl e \<Rightarrow> (Inl (Pull_Transport e), s, store)
           | Inr observed \<Rightarrow> pull_observed env disk scope observed s store))"

end
