(* ===== verification/Engine_Device.thy ===== *)
theory Engine_Device
  imports Engine_Steps Pull_Head Recovery_Guarantees
begin

text \<open>
  The driver on its own push, pull and recovery. A \<open>device\<close> has the parameters of those parts; the
  laws of \<open>engine_world\<close> are proved for them, for every device.
\<close>

section \<open>A device\<close>

record ('b, 'o, 's) device =
  dv_scanner :: "EngineContext \<Rightarrow> 's scanner"
  dv_disk :: "EngineContext \<Rightarrow> 's disk"
  dv_remote :: "'s \<Rightarrow> ('b, 'o) push_remote"
  dv_pull :: "('b, 'o, 's) pull_env"
  dv_objects :: "'s \<Rightarrow> 'o objects"
  dv_store_objects :: "'o objects \<Rightarrow> 's \<Rightarrow> 's"

definition device_push ::
  "('b, 'o, 's) device \<Rightarrow> EngineContext \<Rightarrow> WorkspacePath set \<Rightarrow> DeletionAuthorization \<Rightarrow> WatcherEvidence \<Rightarrow> 's \<Rightarrow>
   manifest_store \<Rightarrow> (PushError + PushOutcome) \<times> 's \<times> manifest_store" where
  "device_push dv ctx batch deletions evidence s store =
     (case push_dirty_paths_authorized (dv_scanner dv ctx) (dv_remote dv s) batch deletions evidence s store (dv_objects dv s) of
        (result, s, store, objs) \<Rightarrow> (result, dv_store_objects dv objs s, store))"

definition device_io :: "('b, 'o, 's) device \<Rightarrow> ('s, 'p) engine_io \<Rightarrow> ('s, 'p) engine_io" where
  "device_io dv io = io\<lparr>io_push := device_push dv, io_pull := \<lambda>ctx. pull (dv_pull dv) (dv_disk dv ctx),
     io_recover := \<lambda>ctx. recover_intents (dv_disk dv ctx)\<rparr>"

section \<open>The frontier of a push\<close>

lemma guard_refuses_something:
  "guard_mass_deletion n ancestor pending candidate deletions = Inl (MassDeletionRefused refused entries threshold) \<Longrightarrow> refused \<noteq> {}"
  by (auto simp: guard_mass_deletion_def Let_def split: if_splits)

lemma commit_push_success_frontier:
  "commit_push_success commit key version settled store = Inr store' \<Longrightarrow> keeps_frontier store store'"
  using set_applied_ratchet by (auto simp: commit_push_success_def keeps_frontier_def to_i64_def split: sum.splits if_splits)

lemma commit_push_no_change_state:
  "commit_push_no_change commit settled store = Inr store' \<Longrightarrow> st_state store' = st_state store"
  by (auto simp: commit_push_no_change_def map_sum_Inr)

lemma record_tree_nodes_state [simp]: "st_state (record_tree_nodes nodes epoch store) = st_state store"
proof -
  have "st_state (fold (\<lambda>(hash, key). record_tree_node_epoch key epoch) xs store) = st_state store" for xs :: "(SubtreeHash \<times> ManifestKey) list" and store
    by (induction xs arbitrary: store) (auto simp: record_tree_node_epoch_def)
  then show ?thesis by (simp add: record_tree_nodes_def)
qed

lemma publish_candidate_state:
  "publish_candidate remote epoch state rebuild ancestor candidate store objs = Inr (key, store', objs') \<Longrightarrow>
   st_state store' = st_state store"
  by (auto simp: publish_candidate_def upload_manifest_delta_def upload_manifest_def record_tree_node_epoch_def
      split: option.splits bool.splits sum.splits)

lemma commit_advance_frontier: "commit_advance candidate key version store = (result, store') \<Longrightarrow> keeps_frontier store store'"
  using commit_push_success_frontier
  by (auto simp: commit_advance_def keeps_frontier_same split: sum.splits)

lemma settle_no_change_frontier: "settle_no_change candidate store = (result, store') \<Longrightarrow> keeps_frontier store store'"
  using commit_push_no_change_state
  by (auto simp: settle_no_change_def intro: keeps_frontier_same split: sum.splits)

lemma resolve_cas_frontier: "resolve_cas remote candidate key outcome store = (result, store') \<Longrightarrow> keeps_frontier store store'"
  using commit_advance_frontier
  by (auto simp: resolve_cas_def keeps_frontier_same split: CasOutcome.splits sum.splits option.splits if_splits)

lemma push_candidate_frontier:
  assumes "push_candidate remote epoch state rebuild n ancestor pending deletions candidate store objs = (result, store', objs')"
  shows "keeps_frontier store store'"
proof (cases "Candidate_is_empty candidate \<and> \<not> rebuild")
  case True
  then show ?thesis using assms settle_no_change_frontier
    by (auto simp: push_candidate_def split: prod.splits)
next
  case False
  note run = assms[unfolded push_candidate_def, simplified False if_False]
  show ?thesis
  proof (cases "guard_mass_deletion n ancestor pending candidate deletions")
    case (Inl e)
    then show ?thesis using assms False by (auto simp: push_candidate_def keeps_frontier_same)
  next
    case guard: (Inr u)
    show ?thesis
    proof (cases "publish_candidate remote epoch state rebuild ancestor candidate store objs")
      case (Inl e)
      then show ?thesis using assms False guard by (auto simp: push_candidate_def keeps_frontier_same)
    next
      case (Inr published)
      obtain key store1 objs1 where p: "published = (key, store1, objs1)" by (cases published)
      have one: "keeps_frontier store store1" using publish_candidate_state Inr p keeps_frontier_same by blast
      have "keeps_frontier store1 store'"
        using assms False guard Inr p settle_no_change_frontier resolve_cas_frontier
        by (auto simp: push_candidate_def keeps_frontier_same split: if_splits sum.splits prod.splits)
      with one show ?thesis by (rule keeps_frontier_trans)
    qed
  qed
qed

lemma record_scan_outcome_state: "record_scan_outcome remote ledger candidate store = Inr store' \<Longrightarrow> st_state store' = st_state store"
  by (auto simp: record_scan_outcome_def record_unsyncable_outcome_def record_unsyncable_def record_sealed_blobs_def Let_def
      split: if_splits sum.splits)

lemma push_scanned_frontier:
  assumes "push_scanned sc remote dirty_paths trust deletions s store objs = (result, s', store', objs')"
  shows "keeps_frontier store store'"
proof -
  have one: "keeps_frontier store recorded" if "record_scan_outcome remote ledger candidate store = Inr recorded" for ledger candidate recorded
    using record_scan_outcome_state[OF that] by (rule keeps_frontier_same)
  show ?thesis
    using assms keeps_frontier_trans[OF one push_candidate_frontier]
    by (auto simp: push_scanned_def keeps_frontier_same Let_def split: sum.splits prod.splits)
qed

section \<open>What a push refuses\<close>

text \<open>Reading a file and uploading a blob have errors of their own; only the guard refuses a deletion.\<close>

definition refuses :: "PushError \<Rightarrow> bool" where
  "refuses e = (case e of MassDeletionRefused _ _ _ \<Rightarrow> True | _ \<Rightarrow> False)"

lemma refuses_guard [simp]: "refuses (MassDeletionRefused refused entries threshold)"
  by (simp add: refuses_def)

definition honest_scanner :: "'s scanner \<Rightarrow> bool" where
  "honest_scanner sc \<longleftrightarrow>
     (\<forall>s path expected e. w_read (sc_world sc s) path expected = Inl e \<longrightarrow> \<not> refuses e)
     \<and> (\<forall>content_id bytes s e s'. sc_put sc content_id bytes s = (Inl e, s') \<longrightarrow> \<not> refuses e)"

lemma honest_read: "honest_scanner sc \<Longrightarrow> w_read (sc_world sc s) path expected = Inl e \<Longrightarrow> \<not> refuses e"
  by (auto simp: honest_scanner_def)

lemma honest_put: "honest_scanner sc \<Longrightarrow> sc_put sc content_id bytes s = (Inl e, s') \<Longrightarrow> \<not> refuses e"
  unfolding honest_scanner_def by blast

lemma upload_file_blob_error:
  "honest_scanner sc \<Longrightarrow> upload_file_blob sc content_id bytes ledger s = (Inl e, s') \<Longrightarrow> \<not> refuses e"
  by (auto simp: upload_file_blob_def dest: honest_put split: option.splits prod.splits sum.splits)

lemma upload_file_blob_segmented_error:
  "honest_scanner sc \<Longrightarrow> upload_file_blob_segmented sc path expected content_id ledger s = (Inl e, s') \<Longrightarrow> \<not> refuses e"
  by (auto simp: upload_file_blob_segmented_def dest: honest_put honest_read split: option.splits prod.splits sum.splits FileRead.splits)

lemma file_blob_key_error:
  "honest_scanner sc \<Longrightarrow> file_blob_key sc path observed row seg content_id bytes ledger s = (Inl e, s') \<Longrightarrow> \<not> refuses e"
  using upload_file_blob_error[of sc content_id bytes ledger s] upload_file_blob_segmented_error[of sc path _ content_id ledger s]
  by (cases "upload_file_blob sc content_id bytes ledger s"; cases "fst (upload_file_blob sc content_id bytes ledger s)")
    (auto simp: file_blob_key_def refuses_def split: option.splits if_splits)

lemma file_candidate_error:
  assumes "honest_scanner sc" and "file_candidate sc path observed row trust ledger s = (Inl e, s')"
  shows "\<not> refuses e"
proof -
  have rejected: "map_sum id f (read_rejection now error) = Inl e' \<Longrightarrow> e' = error" for f :: "UnsyncableRecord \<Rightarrow> ScanResult \<times> BlobLedger" and now error e'
    by (cases error) (simp_all add: read_rejection_def)
  show ?thesis
    using assms(2)
    by (auto simp: file_candidate_def Let_def split: if_splits sum.splits FileRead.splits option.splits prod.splits
        dest: rejected honest_read[OF assms(1)] file_blob_key_error[OF assms(1)])
qed

lemma scan_looks_error:
  "honest_scanner sc \<Longrightarrow> scan_looks n sc ancestor path trust ledger s = (Inl e, s') \<Longrightarrow> \<not> refuses e"
proof (induction n arbitrary: ledger s)
  case (Suc n)
  have "\<not> refuses e" if "scan_observed sc path observed row trust ledger s0 = (Inl e, s1)" for observed row s0 s1
    using that file_candidate_error[OF Suc.prems(1)] by (auto simp: scan_observed_def split: EntryKind.splits)
  with Suc show ?case
    by (auto split: ObserveOutcome.splits prod.splits sum.splits ScanResult.splits)
qed simp

lemma scan_all_error:
  "honest_scanner sc \<Longrightarrow> scan_all sc ancestor trust paths candidate ledger s = (Inl e, s') \<Longrightarrow> \<not> refuses e"
proof (induction paths arbitrary: candidate ledger s)
  case (Cons path paths)
  then show ?case using scan_looks_error[of sc 2 ancestor path trust]
    by (auto simp: scan_path_def split: sum.splits prod.splits)
qed simp

lemma build_candidate_error:
  "honest_scanner sc \<Longrightarrow> build_candidate sc ancestor dirty_paths trust ledger s = (Inl e, s') \<Longrightarrow> \<not> refuses e"
  using scan_all_error[of sc ancestor trust] by (auto simp: build_candidate_def Let_def split: sum.splits prod.splits)


lemma ancestor_entries_error: "ancestor_entries rows entries = Inl e \<Longrightarrow> \<not> refuses e"
  by (induction rows entries rule: ancestor_entries.induct)
    (auto simp: refuses_def file_record_to_entry_def split: sum.splits option.splits EntryKind.splits)

lemma publish_candidate_error:
  assumes "publish_candidate remote epoch state rebuild ancestor candidate store objs = Inl e"
  shows "\<not> refuses e"
proof -
  have tree: "\<not> refuses (push_error_from_tree e')" for e' by (cases e') (auto simp: refuses_def)
  have build: "\<not> refuses e'" if "build_manifest rows candidate epoch = Inl e'" for rows e'
    using that ancestor_entries_error[of rows "[]"] by (cases "ancestor_entries rows []") (auto simp: build_manifest_def)
  show ?thesis
    using assms tree build
    by (auto simp: publish_candidate_def upload_manifest_delta_def upload_manifest_def split: option.splits bool.splits sum.splits)
qed

lemma resolve_cas_error: "resolve_cas remote candidate key outcome store = (Inl e, store') \<Longrightarrow> \<not> refuses e"
  by (auto simp: resolve_cas_def commit_advance_def refuses_def split: CasOutcome.splits sum.splits option.splits if_splits)

lemma settle_no_change_error: "settle_no_change candidate store = (Inl e, store') \<Longrightarrow> \<not> refuses e"
  by (auto simp: settle_no_change_def refuses_def split: sum.splits)

lemma push_candidate_refusal:
  assumes "push_candidate remote epoch state rebuild n ancestor pending deletions candidate store objs =
      (Inl (MassDeletionRefused refused entries threshold), store', objs')"
  shows "refused \<noteq> {}"
  using assms
  by (cases "guard_mass_deletion n ancestor pending candidate deletions")
    (auto simp: push_candidate_def split: if_splits prod.splits sum.splits
      dest: guard_refuses_something settle_no_change_error publish_candidate_error resolve_cas_error)

lemma record_scan_outcome_error: "record_scan_outcome remote ledger candidate store = Inl e \<Longrightarrow> \<not> refuses e"
  by (auto simp: record_scan_outcome_def refuses_def split: if_splits sum.splits)

lemma push_scanned_refusal:
  assumes "honest_scanner sc"
    and "push_scanned sc remote dirty_paths trust deletions s store objs = (Inl (MassDeletionRefused refused entries threshold), s', store', objs')"
  shows "refused \<noteq> {}"
  using assms(2)
  by (auto simp: push_scanned_def engine_state_def Let_def split: sum.splits prod.splits
      dest: build_candidate_error[OF assms(1)] record_scan_outcome_error dest!: push_candidate_refusal)

section \<open>The frontier of a pull\<close>

lemma apply_op_state: "apply_op disk op key s store = (result, s', store') \<Longrightarrow> st_state store' = st_state store"
  by (auto simp: apply_op_def Let_def open_intent_def split: prod.splits sum.splits if_splits)

lemma apply_window_state: "apply_window disk key ops run s store = (result, s', store') \<Longrightarrow> st_state store' = st_state store"
proof (induction ops arbitrary: run s store)
  case (Cons op ops)
  then show ?case using apply_op_state[of disk op key s store]
    by (auto simp: Let_def split: prod.splits if_splits sum.splits)
qed simp

lemma apply_all_windows_state:
  "apply_all_windows disk key windows run s store = (result, s', store') \<Longrightarrow> st_state store' = st_state store"
proof (induction windows arbitrary: run s store)
  case (Cons window windows)
  then show ?case using apply_window_state[of disk key window run s store]
    by (auto split: sum.splits prod.splits)
qed simp


lemma commit_pull_keeps:
  assumes "commit_pull_outcome commit (head_advance (st_state store) outcome key version) (Some (key, version)) ids push_again store = Inr store'"
  shows "keeps_frontier store store'"
  using commit_pull_frontier[OF assms refl] by (simp add: keeps_frontier_def)

lemma apply_plan_frontier:
  assumes "apply_plan disk plan key version s store = (result, s', store')"
  shows "keeps_frontier store store'"
proof -
  let ?store = "record_unsyncable (plan_unsyncable plan) {} store"
  have first: "keeps_frontier store ?store" by (rule keeps_frontier_same) (simp add: record_unsyncable_def)
  obtain r1 s1 store1 where run: "apply_all_windows disk key (apply_windows (ordered_ops (fs_ops plan)))
      \<lparr>ar_locks = GitLockCache_default, ar_commit = \<lparr>ac_upserts = ancestor_upserts plan, ac_removals = ancestor_removals plan\<rparr>,
       ar_outcome = PullOutcome_default\<lparr>po_observed_ref := Head \<lparr>ref_version = version, ref_manifest_key = key\<rparr>,
         po_applied_manifest_key := Some key, po_ref_version := Some version, po_push_again := plan_push_again plan\<rparr>,
       ar_intent_ids = []\<rparr> s ?store = (r1, s1, store1)" by (metis prod_cases3)
  have state: "st_state (record_unsyncable u {} store1) = st_state store" for u
    using apply_all_windows_state[OF run] by (simp add: record_unsyncable_def)
  have second: "keeps_frontier store (record_unsyncable u {} store1)" "keeps_frontier store store1" for u
    using keeps_frontier_same[OF state] apply_all_windows_state[OF run] by (simp_all add: keeps_frontier_same record_unsyncable_def)
  have third: "keeps_frontier store store'"
    if "commit_pull_outcome commit (head_advance (st_state store) outcome key version) (Some (key, version)) ids push_again
      (record_unsyncable u {} store1) = Inr store'" for commit outcome ids push_again u
    using commit_pull_keeps[of commit "record_unsyncable u {} store1" outcome] that second keeps_frontier_trans unfolding state by blast
  show ?thesis
    using assms run first second third
    by (auto simp: apply_plan_def engine_state_def keeps_frontier_same Let_def split: sum.splits if_splits)
qed

lemma recover_intents_frontier:
  assumes "recover_intents disk s store = (result, s', store')"
  shows "keeps_frontier store store'"
proof -
  have "keeps_frontier store store'" if "commit_pull_outcome commit None None ids {} (record_unsyncable u {} store) = Inr store'" for commit ids u
    using that same_frontier_def
    by (auto simp: commit_pull_outcome_def keeps_frontier_def record_unsyncable_def advance_materialization_revision_def
        map_sum_Inr ratchet_refl frontier_ok_def ratchet_le_def Let_def split: sum.splits if_splits option.splits)
  then show ?thesis
    using assms
    by (auto simp: recover_intents_def Let_def keeps_frontier_same record_unsyncable_def split: sum.splits if_splits prod.splits)
qed


lemma decide_head_state: "decide_head env objs scope w head store = Inr (plan, store') \<Longrightarrow> st_state store' = st_state store"
proof -
  have "fetch_head env objs head ancestor prune store = Inr (x, store') \<Longrightarrow> st_state store' = st_state store" for ancestor prune x
    by (auto simp: fetch_head_def Let_def split: sum.splits)
  then show "decide_head env objs scope w head store = Inr (plan, store') \<Longrightarrow> st_state store' = st_state store"
    by (auto simp: decide_head_def map_sum_Inr Let_def split: sum.splits option.splits) 
qed

lemma record_ref_advance_frontier: "record_ref_advance key version store = Inr store' \<Longrightarrow> keeps_frontier store store'"
  using set_applied_ratchet by (auto simp: record_ref_advance_def keeps_frontier_def to_i64_def split: sum.splits if_splits)

lemma apply_head_frontier: "apply_head env disk scope head s store = (result, s', store') \<Longrightarrow> keeps_frontier store store'"
  by (auto simp: apply_head_def keeps_frontier_same split: sum.splits
      dest!: decide_head_state apply_plan_frontier intro: keeps_frontier_trans[OF keeps_frontier_same])

lemma pull_observed_frontier: "pull_observed env disk scope observed s store = (result, s', store') \<Longrightarrow> keeps_frontier store store'"
  using record_ref_advance_frontier[of _ _ store] apply_head_frontier[of env disk scope _ s store]
  by (auto simp: pull_observed_def keeps_frontier_same split: option.splits sum.splits if_splits)

lemma pull_frontier:
  assumes "pull env disk scope s store = (result, s', store')"
  shows "keeps_frontier store store'"
proof -
  obtain r1 s1 store1 where rec: "recover_intents disk s store = (r1, s1, store1)" by (metis prod_cases3)
  note one = recover_intents_frontier[OF rec]
  show ?thesis
    using assms rec one keeps_frontier_trans[OF one pull_observed_frontier]
    by (auto simp: pull_def split: sum.splits)
qed

section \<open>The laws\<close>

lemma device_io_simps [simp]:
  "io_push (device_io dv io) = device_push dv" "io_pull (device_io dv io) ctx = pull (dv_pull dv) (dv_disk dv ctx)"
  "io_recover (device_io dv io) ctx = recover_intents (dv_disk dv ctx)"
  "io_now (device_io dv io) = io_now io" "io_nfc (device_io dv io) = io_nfc io"
  "io_failure_class (device_io dv io) = io_failure_class io"
  by (simp_all add: device_io_def)

locale honest_device =
  fixes dv :: "('b, 'o, 's) device" and io :: "('s, 'p) engine_io"
  assumes scanner_honest: "honest_scanner (dv_scanner dv ctx)"

sublocale honest_device \<subseteq> world: engine_world "device_io dv io"
proof
  fix ctx batch deletions evidence s store refused entries threshold s' store'
  show "io_push (device_io dv io) ctx batch deletions evidence s store = (Inl (MassDeletionRefused refused entries threshold), s', store') \<Longrightarrow>
      refused \<noteq> {}"
    by (auto simp: device_push_def push_dirty_paths_authorized_def split: prod.splits dest!: push_scanned_refusal[OF scanner_honest])
next
  fix ctx batch deletions evidence s store pushed s' store'
  show "io_push (device_io dv io) ctx batch deletions evidence s store = (pushed, s', store') \<Longrightarrow> keeps_frontier store store'"
    using push_scanned_frontier by (auto simp: device_push_def push_dirty_paths_authorized_def split: prod.splits)
qed (simp_all add: pull_frontier recover_intents_frontier)

end
