(* ===== verification/Engine_Guarantees.thy ===== *)
theory Engine_Guarantees
  imports Engine_Device
begin

text \<open>
  What the driver guarantees: its receipts, its invariants on a device, the paths it publishes and
  its deadlines.
\<close>

section \<open>Receipts\<close>

lemma bt_insert_set: "set (bt_insert k v m) \<subseteq> insert (k, v) (set m)"
  by (induction k v m rule: bt_insert.induct) auto

lemma complete_barriers_receipts:
  assumes "(b, receipt) \<in> set (me_completed_barriers (complete_barriers me))"
    and "(b, receipt) \<notin> set (me_completed_barriers me)"
  obtains generation where "(b, generation) \<in> set (me_pending_barriers me)" and "is_exactly_converged (engine_snapshot me)"
    and "convergence_receipt (ec_process_identity (me_ctx me)) (ec_workspace_identity (me_ctx me)) generation b (engine_snapshot me)
      = Some receipt"
proof -
  let ?receipt = "\<lambda>generation b. convergence_receipt (ec_process_identity (me_ctx me)) (ec_workspace_identity (me_ctx me)) generation b
      (engine_snapshot me)"
  have new: "\<exists>generation. (b, generation) \<in> set pending \<and> ?receipt generation b = Some receipt"
    if "(b, receipt) \<in> set (fold (\<lambda>(barrier, generation) completed. case ?receipt generation barrier of
          Some receipt \<Rightarrow> bt_insert barrier receipt completed | None \<Rightarrow> completed) pending completed)"
      "(b, receipt) \<notin> set completed" for pending completed
    using that
  proof (induction pending arbitrary: completed)
    case (Cons p pending)
    obtain barrier generation where p: "p = (barrier, generation)" by force
    show ?case
    proof (cases "?receipt generation barrier")
      case None
      then show ?thesis using Cons p by auto
    next
      case (Some r)
      show ?thesis
      proof (cases "(b, receipt) \<in> set (bt_insert barrier r completed)")
        case True
        then show ?thesis using bt_insert_set[of barrier r completed] Cons.prems(2) Some p by auto
      next
        case False
        then show ?thesis using Cons.IH[of "bt_insert barrier r completed"] Cons.prems(1) Some p by auto
      qed
    qed
  qed simp
  show ?thesis
  proof (cases "is_exactly_converged (engine_snapshot me)")
    case True
    then show ?thesis using new[of "me_pending_barriers me" "me_completed_barriers me"] assms that
      by (auto simp: complete_barriers_def Let_def)
  next
    case False
    then show ?thesis using assms by (simp add: complete_barriers_def Let_def)
  qed
qed

lemma cycle_succeeded_fields:
  "me_pending_barriers (cycle_succeeded now me) = me_pending_barriers me"
  "me_completed_barriers (cycle_succeeded now me) = me_completed_barriers me"
  "me_store (cycle_succeeded now me) = me_store me"
  "me_dirty (cycle_succeeded now me) = me_dirty me"
  "me_head_ref (cycle_succeeded now me) = me_head_ref me"
  "me_pull_needed (cycle_succeeded now me) = me_pull_needed me"
  "me_phase (cycle_succeeded now me) = Phase_Idle \<Longrightarrow> idle me"
  by (auto simp: cycle_succeeded_def idle_def Let_def split: if_splits)

lemma absorb_cycle_error_fields:
  assumes "absorb_cycle_error error now me = (r, me')"
  shows "me_pending_barriers me' = me_pending_barriers me" and "me_completed_barriers me' = me_completed_barriers me"
    and "me_phase me = Phase_Syncing \<Longrightarrow> me_phase me' \<noteq> Phase_Idle"
  using assms by (cases error; auto simp: absorb_cycle_error_def enter_backoff_eq block_mass_deletion_eq)+

text \<open>A run of the due work that issues a receipt: the cycle succeeded, and the receipt was made
  from the state it left.\<close>

lemma receipt_from_success:
  assumes "run_due_work io me s = (r, me', s')" and "(b, receipt) \<in> set (me_completed_barriers me')"
    and "(b, receipt) \<notin> set (me_completed_barriers me)"
  obtains me1 generation where
      "run_cycle io (begun (io_now io s) me) s = (Inr (), me1, s')" "me' = complete_barriers (ended (io_now io s) me1)"
      "(b, generation) \<in> set (me_pending_barriers me)" "is_exactly_converged (engine_snapshot (ended (io_now io s) me1))"
      "convergence_receipt (ec_process_identity (me_ctx (ended (io_now io s) me1))) (ec_workspace_identity (me_ctx (ended (io_now io s) me1)))
         generation b (engine_snapshot (ended (io_now io s) me1)) = Some receipt"
  using assms(1)
proof (cases rule: run_due_work_cases)
  case (succeeded me1)
  have "me_completed_barriers (ended (io_now io s) me1) = me_completed_barriers me"
      "me_pending_barriers (ended (io_now io s) me1) = me_pending_barriers me"
    by (simp_all add: refresh_and_bump_def cycle_succeeded_fields run_due_cycle_frame[OF succeeded(2)])
  with assms(2,3) succeeded(4) obtain generation where
      "(b, generation) \<in> set (me_pending_barriers me)" "is_exactly_converged (engine_snapshot (ended (io_now io s) me1))"
      "convergence_receipt (ec_process_identity (me_ctx (ended (io_now io s) me1))) (ec_workspace_identity (me_ctx (ended (io_now io s) me1)))
         generation b (engine_snapshot (ended (io_now io s) me1)) = Some receipt"
    using complete_barriers_receipts[of b receipt "ended (io_now io s) me1"] by metis
  then show ?thesis using that succeeded(2,4) by blast
next
  case (failed error me1 me2)
  note kept = absorb_cycle_error_fields[OF failed(3)] and frame = run_due_cycle_frame[OF failed(2)]
  have "me_completed_barriers (refresh_and_bump me2) = me_completed_barriers me"
    using kept frame by (simp add: refresh_and_bump_def)
  moreover have "\<not> is_exactly_converged (engine_snapshot (refresh_and_bump me2))"
    using kept(3) frame by (simp add: is_exactly_converged_def is_work_drained_def engine_snapshot_def refresh_and_bump_def)
  ultimately show ?thesis
    using assms(2,3) failed(4) complete_barriers_receipts[of b receipt "refresh_and_bump me2"] by metis
qed (use assms in simp)

lemma refresh_and_bump_fields:
  "me_store (refresh_and_bump me) = me_store me" "me_dirty (refresh_and_bump me) = me_dirty me"
  "me_dirty_subtrees (refresh_and_bump me) = me_dirty_subtrees me" "me_scan_required (refresh_and_bump me) = me_scan_required me"
  "me_pull_needed (refresh_and_bump me) = me_pull_needed me" "me_phase (refresh_and_bump me) = me_phase me"
  "me_head_ref (refresh_and_bump me) = me_head_ref me"
  "me_pending_intents (refresh_and_bump me) = length (pending_intents (me_store me))"
  "me_unsyncable (refresh_and_bump me) = st_unsyncable (me_store me)"
  by (simp_all add: refresh_and_bump_def)

text \<open>A nominal engine reports what the store holds.\<close>

lemma refresh_and_bump_durable:
  assumes "me_degradation (refresh_and_bump me) = Nominal"
  shows "\<exists>state. engine_state (me_store me) = Inr state \<and> applied_ref state = Inr (me_applied_ref (refresh_and_bump me))
    \<and> materialization_revision state = me_materialization_revision (refresh_and_bump me)"
  using assms by (auto simp: refresh_and_bump_def refresh_durable_state_def Let_def split: sum.splits if_splits)

lemma complete_barriers_fields:
  "me_store (complete_barriers me) = me_store me" "me_dirty (complete_barriers me) = me_dirty me"
  "me_dirty_subtrees (complete_barriers me) = me_dirty_subtrees me" "me_scan_required (complete_barriers me) = me_scan_required me"
  "me_pull_needed (complete_barriers me) = me_pull_needed me" "me_head_ref (complete_barriers me) = me_head_ref me"
  "me_phase (complete_barriers me) = me_phase me" "me_degradation (complete_barriers me) = me_degradation me"
  "is_exactly_converged (engine_snapshot me) \<Longrightarrow> me_pending_barriers (complete_barriers me) = []"
  by (simp_all add: complete_barriers_def Let_def)


text \<open>What guarding the root keeps, and what the two observations of a cycle begin with.\<close>

lemma guard_root_flags:
  assumes "guard_root io me s = (r, me', s')"
  shows "me_scan_required me \<Longrightarrow> me_scan_required me'" and "me_pull_needed me' = me_pull_needed me" and "me_store me' = me_store me"
  using assms
  by (auto simp: guard_root_def root_returned_def split: RootState.splits sum.splits prod.splits if_splits Degradation.splits)

lemma scan_dirty_subtrees_flags:
  "scan_dirty_subtrees io me s = (r, me', s') \<Longrightarrow> me_pull_needed me' = me_pull_needed me"
  by (auto simp: scan_dirty_subtrees_def Let_def split: sum.splits prod.splits)

lemma observe_workspace_walks:
  assumes "observe_workspace io me s = (Inr observation, me', s')" and "me_scan_required me" and "\<not> me_authoritative_scan_active me"
  shows "(\<exists>policy walk s1. io_policy io None s = Inr policy \<and> io_walk io None policy (all_files (me_store me)) s = (Inr walk, s1))
    \<and> observation = FreshlyWalked \<and> me_pull_needed me' = me_pull_needed me"
proof -
  obtain r1 me1 s1 where scan: "full_scan io me s = (r1, me1, s1)" by (cases "full_scan io me s")
  then have ok: "r1 = Inr ()" using assms by (cases r1) (auto simp: observe_workspace_def)
  then have "(\<exists>policy walk s1. io_policy io None s = Inr policy \<and> io_walk io None policy (all_files (me_store me)) s = (Inr walk, s1))
      \<and> me_pull_needed me1 = me_pull_needed me"
    using scan by (auto simp: full_scan_def split: sum.splits prod.splits)
  then show ?thesis
    using assms scan ok scan_dirty_subtrees_flags
    by (auto simp: observe_workspace_def split: if_splits prod.splits sum.splits)
qed



section \<open>Invariants on a device\<close>

lemma absorb_cycle_error_confirmation:
  "absorb_cycle_error error now me = (r, me') \<Longrightarrow> me_confirmed_removals me' = me_confirmed_removals me"
  by (cases error) (auto simp: absorb_cycle_error_def enter_backoff_eq block_mass_deletion_eq)

lemma run_due_work_confirmation:
  assumes "run_due_work io me s = (r, me', s')" and "due_now io me s"
  shows "me_confirmed_removals me' = None"
proof -
  have kept: "me_confirmed_removals (complete_barriers x) = me_confirmed_removals x"
      "me_confirmed_removals (refresh_and_bump x) = me_confirmed_removals x"
      "me_confirmed_removals (cycle_succeeded now x) = me_confirmed_removals x" for x now
    by (simp_all add: complete_barriers_def refresh_and_bump_def cycle_succeeded_def Let_def)
  from assms(1) show ?thesis
  proof (cases rule: run_due_work_cases)
    case (succeeded me1)
    then show ?thesis using kept run_due_cycle_frame(4)[OF succeeded(2)] by simp
  next
    case (failed error me1 me2)
    then show ?thesis using kept absorb_cycle_error_confirmation[OF failed(3)] run_due_cycle_frame(4)[OF failed(2)] by simp
  qed (use assms(2) in simp)
qed

context honest_device
begin

lemma device_steps_keep: "engine_steps (device_io dv io) (me, s) (me', s') \<Longrightarrow> part_ok me me' None"
  using world.engine_steps_keep by fastforce

end

text \<open>
  C21. The refused removals agree with the degradation. In every state that the operations of a new
  engine reach on a device, in any order and whatever else changes the world between them, the
  snapshot lists refused removals exactly when it reports a blocked mass deletion, and the
  count it reports is their number.
\<close>

theorem refused_set_matches:
  assumes "\<And>ctx. honest_scanner (dv_scanner dv ctx)"
    and "engine_steps (device_io dv io) (ManifestEngine_new store ctx, s) (me, s')"
  shows "refusal_matches (es_degradation (engine_snapshot me)) (es_refused_removals (engine_snapshot me))"
proof -
  have "refusal_ok (ManifestEngine_new store ctx)" by (simp add: refusal_ok_def ManifestEngine_new_def)
  then have "refusal_ok me"
    using honest_device.device_steps_keep[OF honest_device.intro[OF assms(1)] assms(2)] by (simp add: part_ok_def)
  then show ?thesis by (simp add: refusal_ok_def engine_snapshot_def)
qed

text \<open>
  C9. The freshness ratchet never moves back. Whatever a device does, from start to recovery, pulls
  and pushes, failed ones included: the frontier of its store stays consistent, the highest
  verified version does not fall, and at the same version it names the same manifest.
\<close>

theorem ratchet_never_regresses:
  assumes "\<And>ctx. honest_scanner (dv_scanner dv ctx)" and "engine_steps (device_io dv io) (me, s) (me', s')"
    and "frontier_ok (st_state (me_store me))"
  shows "frontier_ok (st_state (me_store me')) \<and> ratchet_le (st_state (me_store me)) (st_state (me_store me'))"
  using honest_device.device_steps_keep[OF honest_device.intro[OF assms(1)] assms(2)] assms(3)
  by (simp add: part_ok_def keeps_frontier_def)

text \<open>
  C20. A confirmation is spent once. With the refused removals in agreement with the degradation,
  confirming a blocked batch authorizes exactly the refused removals, as many as it reports; a
  second confirmation authorizes nothing; and the next due cycle, on whatever world and however
  it ends, leaves no authorization.
\<close>

theorem confirmation_is_one_shot:
  assumes "refusal_matches (me_degradation me) (me_refused_removals me)"
    and "confirm_mass_deletion now me = (Authorized n entries, me1)"
  shows "me_confirmed_removals me1 = Some (me_refused_removals me) \<and> n = card (me_refused_removals me)
    \<and> confirm_mass_deletion later me1 = (NotBlocked, me1)
    \<and> (now \<le> io_now io s \<longrightarrow> run_due_work io me1 s = (r, me2, s') \<longrightarrow> me_confirmed_removals me2 = None)"
proof -
  from assms(2) have blocked: "me_degradation me = MassDeletionBlocked n entries"
    and me1: "me1 = bump_revision_if_changed (preempt_backoff ((set_degradation Nominal
        (me\<lparr>me_confirmed_removals := Some (me_refused_removals me)\<rparr>))\<lparr>me_debounce_deadline := Some now\<rparr>))"
    by (auto simp: confirm_mass_deletion_def Let_def split: Degradation.splits)
  have "me_confirmed_removals me2 = None" if due: "now \<le> io_now io s" and run: "run_due_work io me1 s = (r, me2, s')"
  proof -
    have "\<exists>due. next_due me1 = Some due \<and> due \<le> now"
      by (auto simp: me1 next_due_def preempt_backoff_def List.map_filter_simps split: option.split)
    then have "due_now io me1 s" using due by auto
    from run_due_work_confirmation[OF run this] show ?thesis .
  qed
  moreover have "confirm_mass_deletion later me1 = (NotBlocked, me1)"
    by (simp add: confirm_mass_deletion_def me1 preempt_backoff_def)
  ultimately show ?thesis using assms(1) blocked by (simp add: me1 preempt_backoff_def)
qed

end
