(* ===== verification/Engine_Schedule.thy ===== *)
theory Engine_Schedule
  imports Engine_Guarantees
begin

text \<open>What a cycle publishes and when the next one is due.\<close>

section \<open>Dirty paths\<close>

fun settles_path :: "PushOutcome \<Rightarrow> WorkspacePath \<Rightarrow> bool" where
  "settles_path (Push_Advanced _ _ skipped) path \<longleftrightarrow> path \<notin> skipped"
| "settles_path (Push_NoChange skipped) path \<longleftrightarrow> path \<notin> skipped"
| "settles_path (Push_RefLost _) path \<longleftrightarrow> False"

lemma do_pull_dirty: "do_pull io observation me s = (r, me', s') \<Longrightarrow> me_dirty me \<subseteq> me_dirty me'"
  by (erule do_pull_cases) (use absorb_pull_dirty in force)+

lemma publish_attempts_dirty:
  assumes "publish_attempts n io observation pulled deletions me s = (r, me', s')" and "path \<in> me_dirty me" and "path \<notin> me_dirty me'"
  shows "\<exists>s batch me0 store outcome s' store'. batch = publish_batch io s me0 \<and> path \<in> batch \<and> settles_path outcome path
    \<and> io_push io (me_ctx me0) batch deletions (watcher_evidence observation) s store = (Inr outcome, s', store')"
  using assms
proof (induction n arbitrary: pulled me s)
  case (Suc n)
  from Suc.prems(1) show ?case
  proof (cases rule: publish_attempts_cases)
    case (settled attempts outcome store skipped me1)
    have "me_dirty me1 = me_dirty me" "me_published_batch me1 = publish_batch io s me" using settled(4) by auto
    then have "path \<in> publish_batch io s me" "path \<notin> skipped" using Suc.prems(2,3) settled(6) by auto
    moreover from this have "settles_path outcome path" using settled(4) by auto
    ultimately show ?thesis using settled(3) by blast
  next
    case (again attempts pushed s1 store me1 r2 me2 s2)
    have "me_dirty me1 = me_dirty me" using again(4) by auto
    then have "path \<in> me_dirty me2" using do_pull_dirty[OF again(5)] Suc.prems(2) by auto
    moreover have "n = attempts" using again(1) by simp
    ultimately show ?thesis using again(6) Suc.IH[of True me2 s2] Suc.prems(3) by auto
  qed (use Suc.prems in auto)
qed simp

lemma observe_workspace_dirty: "observe_workspace io me s = (r, me', s') \<Longrightarrow> me_dirty me \<subseteq> me_dirty me'"
proof -
  have scan: "me_dirty me \<subseteq> me_dirty me'" if "full_scan io me s = (r, me', s')" for me s r me' s'
    using that by (auto simp: full_scan_def split: sum.splits prod.splits)
  have sub: "me_dirty me \<subseteq> me_dirty me'" if "scan_dirty_subtrees io me s = (r, me', s')" for me s r me' s'
    using that by (auto simp: scan_dirty_subtrees_def Let_def split: sum.splits prod.splits)
  show "observe_workspace io me s = (r, me', s') \<Longrightarrow> me_dirty me \<subseteq> me_dirty me'"
    by (auto simp: observe_workspace_def split: if_splits sum.splits prod.splits dest!: scan sub)
qed

lemma receive_dirty: "receive io observation me s = (r, me', s') \<Longrightarrow> me_dirty me \<subseteq> me_dirty me'"
  by (auto simp: receive_def split: if_splits prod.splits sum.splits dest!: do_pull_dirty)

lemma guard_root_dirty: "guard_root io me s = (r, me', s') \<Longrightarrow> me_dirty me' = me_dirty me"
  by (auto simp: guard_root_def root_returned_def split: RootState.splits sum.splits prod.splits if_splits Degradation.splits)

text \<open>
  C8. No dirty path is lost. A path that was dirty before a cycle and is not dirty after it, however
  the cycle ended, was in the batch of a push of that cycle that advanced the ref or found no
  change, under the cycle's authorization, and that push did not skip it.
\<close>

theorem dirty_path_is_not_lost:
  assumes "run_cycle io me s = (r, me', s')" and "path \<in> me_dirty me" and "path \<notin> me_dirty me'"
  shows "\<exists>me0 s0 observation store outcome s1 store1. path \<in> publish_batch io s0 me0 \<and> settles_path outcome path
    \<and> io_push io (me_ctx me0) (publish_batch io s0 me0) (fst (spend_confirmation me)) (watcher_evidence observation) s0 store
        = (Inr outcome, s1, store1)"
  using assms(1)
proof (cases rule: run_cycle_cases)
  case (publish me1 s1 observation me2 s2 pulled me3 s3 me4)
  have "path \<in> me_dirty me3"
    using guard_root_dirty[OF publish(1)] observe_workspace_dirty[OF publish(2)] receive_dirty[OF publish(3)] assms(2) by auto
  moreover have "path \<notin> me_dirty me4" using publish(5) assms(3) by (auto split: if_splits)
  ultimately show ?thesis using publish_attempts_dirty[OF publish(4)[unfolded publish_dirty_def]] by blast
next
  case (root e)
  then show ?thesis using guard_root_dirty[OF root(1)] assms by auto
next
  case (walk e me1 s1)
  then show ?thesis using guard_root_dirty[OF walk(1)] observe_workspace_dirty[OF walk(2)] assms by auto
next
  case (receive e me1 s1 observation me2 s2)
  then show ?thesis
    using guard_root_dirty[OF receive(1)] observe_workspace_dirty[OF receive(2)] receive_dirty[OF receive(3)] assms by auto
qed

section \<open>Batches\<close>

lemma ordered_dirty_set: "finite (me_dirty me) \<Longrightarrow> snd ` set (ordered_dirty me) = me_dirty me"
  by (simp add: ordered_dirty_def image_image)

lemma card_of_taken: "card (snd ` set (take n xs)) \<le> n"
  by (metis card_image_le card_length finite_set le_trans length_take list.set_map min.cobounded2)

lemma bounded_batch_size: "card (bounded_batch xs) \<le> PUBLISH_BATCH_MAX"
proof -
  have "card (bounded_batch xs) \<le> card (snd ` set (take 32 xs)) + card (snd ` set (take 32 (rev xs)))"
    using card_Un_le[of "snd ` set (take 32 xs)"] by (simp add: bounded_batch_def PUBLISH_BATCH_MAX_def)
  also have "\<dots> \<le> 32 + 32" by (rule add_mono) (rule card_of_taken)+
  finally show ?thesis by (simp add: PUBLISH_BATCH_MAX_def)
qed

lemma bounded_batch_ends: "xs \<noteq> [] \<Longrightarrow> snd (hd xs) \<in> bounded_batch xs \<and> snd (last xs) \<in> bounded_batch xs"
proof -
  assume ne: "xs \<noteq> []"
  have "hd xs \<in> set (take 32 xs)" using ne by (cases xs) simp_all
  moreover have "last xs \<in> set (take 32 (rev xs))" using ne by (cases xs rule: rev_cases) simp_all
  ultimately show ?thesis by (auto simp: bounded_batch_def PUBLISH_BATCH_MAX_def)
qed

lemma bounded_batch_subset: "bounded_batch xs \<subseteq> snd ` set xs"
  by (auto simp: bounded_batch_def Let_def dest!: in_set_takeD)



section \<open>Deadlines\<close>

lemma next_due_le:
  "me_debounce_deadline me = Some t \<or> me_max_latency_deadline me = Some t \<or> me_backoff_deadline me = Some t
     \<or> me_audit_deadline me = Some t \<or> me_stall_deadline me = Some t \<Longrightarrow> \<exists>due. next_due me = Some due \<and> due \<le> t"
proof -
  have fold: "fold min dues due \<le> t" if "t \<in> set (due # dues)" for dues and due t :: nat
    using Min_le[OF _ that] by (simp only: Min.set_eq_fold finite_set simp_thms)
  let ?dues = "List.map_filter id [me_debounce_deadline me, me_max_latency_deadline me, me_backoff_deadline me,
      me_audit_deadline me, me_stall_deadline me]"
  assume "me_debounce_deadline me = Some t \<or> me_max_latency_deadline me = Some t \<or> me_backoff_deadline me = Some t
     \<or> me_audit_deadline me = Some t \<or> me_stall_deadline me = Some t"
  then have "t \<in> set ?dues" by (force simp: List.map_filter_def)
  then show ?thesis unfolding next_due_def by (cases ?dues) (use fold in auto)
qed

lemma on_event_latency: "me_max_latency_deadline me = Some t \<Longrightarrow> me_max_latency_deadline (on_event nfc event now me) = Some t"
proof -
  assume t: "me_max_latency_deadline me = Some t"
  have "me_max_latency_deadline (snd (coalesce_ref_hint observed me)) = Some t" for observed
    using t by (auto simp: coalesce_ref_hint_def Let_def split: option.split)
  then show ?thesis
    using t
    by (cases event) (auto simp: on_event_def fold_event_def Let_def arm_debounce_def preempt_backoff_def demand_pull_def
        drop_ref_hint_def ref_wakeup_deadline_def confirm_mass_deletion_def
        split: prod.splits bool.splits option.splits Degradation.splits; metis snd_conv)+
qed

definition on_events :: "(string \<Rightarrow> string) \<Rightarrow> (EngineEvent \<times> u64) list \<Rightarrow> ManifestEngine \<Rightarrow> ManifestEngine" where
  "on_events nfc events me = fold (\<lambda>(event, now). on_event nfc event now) events me"

lemma on_events_latency: "me_max_latency_deadline me = Some t \<Longrightarrow> me_max_latency_deadline (on_events nfc events me) = Some t"
  unfolding on_events_def by (induction events arbitrary: me) (auto simp: on_event_latency)

text \<open>
  C22. A burst of edits cannot starve the push. However many events follow the first edit of a burst,
  of whatever kind and at whatever times, a cycle is due at most two seconds after that edit.
\<close>

theorem burst_publishes_in_time:
  assumes "me_max_latency_deadline me = None" and "edit = Event_Paths paths \<or> edit = Event_RecursivePaths paths"
  shows "\<exists>due. next_due (on_events nfc later (on_event nfc edit now me)) = Some due \<and> due \<le> now + 2000"
proof -
  have "me_max_latency_deadline (on_event nfc edit now me) = Some (now + 2000)"
    using assms by (auto simp: on_event_def fold_event_def arm_debounce_def preempt_backoff_def MAX_LATENCY_MS_def)
  from on_events_latency[OF this] show ?thesis by (intro next_due_le) blast
qed

text \<open>
  The timers are bounded. A retry waits at least three quarters of its exponential step and at
  most the step, which never exceeds five seconds, and a periodic audit is armed between thirty
  and sixty minutes ahead, for every device name and every round.
\<close>

theorem timers_are_bounded:
  "3 * min (250 * 2 ^ min attempt 8) 5000 \<le> 4 * backoff_delay device attempt
   \<and> backoff_delay device attempt \<le> min (250 * 2 ^ min attempt 8) 5000
   \<and> (\<exists>due. me_audit_deadline (arm_audit now me) = Some due \<and> now + 1800000 \<le> due \<and> due \<le> now + 3600000)"
proof -
  have cap: "min (min (250 * 2 ^ min attempt 8) u64_MAX) 5000 = min (250 * 2 ^ min attempt 8) (5000 :: nat)"
    by (simp add: u64_MAX_def min.assoc)
  define base :: nat where "base = min (250 * 2 ^ min attempt 8) 5000"
  have "250 \<le> base" by (simp add: base_def)
  moreover have "backoff_delay device attempt = base - base div 4 + jitter_seed attempt device mod (base div 4 + 1)"
    using \<open>250 \<le> base\<close> unfolding backoff_delay_def BACKOFF_BASE_MS_def BACKOFF_CAP_MS_def Let_def cap base_def[symmetric] by simp
  moreover have "jitter_seed attempt device mod (base div 4 + 1) \<le> base div 4"
    using mod_less_divisor[of "base div 4 + 1" "jitter_seed attempt device"] by linarith
  moreover have "\<exists>due. me_audit_deadline (arm_audit now me) = Some due \<and> now + 1800000 \<le> due \<and> due \<le> now + 3600000"
    using mod_less_divisor[of 1800001 "jitter_seed ((me_audit_round me + 1) mod (u32_MAX + 1)) (ec_device_id (me_ctx me))"]
    by (simp add: arm_audit_def AUDIT_INTERVAL_MIN_MS_def AUDIT_INTERVAL_MAX_MS_def Let_def)
  ultimately show ?thesis unfolding base_def[symmetric] by (intro conjI) linarith+
qed

text \<open>
  C40. A retry that stalls is due again at once. Only a success and an event clear the backoff
  deadline, so a retry that ends in a stall (an unavailable root, an integrity fault, a refused
  mass deletion) leaves the elapsed deadline behind and the next cycle is due with no delay.
\<close>

theorem stalled_retry_is_due_at_once:
  assumes "run_due_work io me s = (Inr (), me', s')" and "me_backoff_deadline me = Some due" and "due \<le> io_now io s"
    and "me_phase me' = Phase_Stalled"
  shows "next_timeout (io_now io s) me' = Some 0"
proof -
  have due: "case next_due me of Some due \<Rightarrow> due \<le> io_now io s | None \<Rightarrow> False"
    using next_due_le[of me due] assms(2,3) by auto
  from assms(1) have "me_backoff_deadline me' = Some due"
  proof (cases rule: run_due_work_cases)
    case (succeeded me1)
    then have "me_phase me' \<noteq> Phase_Stalled"
      by (simp add: complete_barriers_fields refresh_and_bump_fields cycle_succeeded_def Let_def)
    with assms(4) show ?thesis by simp
  next
    case (failed error me1 me2)
    then have "me_phase me2 = Phase_Stalled" using assms(4) by (simp add: complete_barriers_fields refresh_and_bump_fields)
    then have "me_backoff_deadline me2 = me_backoff_deadline me1"
      using failed(3) by (cases error) (auto simp: absorb_cycle_error_def enter_backoff_eq block_mass_deletion_eq)
    then show ?thesis using run_due_cycle_frame(5)[OF failed(2)] assms(2) failed(4)
      by (simp add: complete_barriers_def refresh_and_bump_def Let_def)
  qed (use due in simp)
  then show ?thesis using next_due_le[of me' due] assms(3) by (auto simp: next_timeout_def)
qed

end
