(* ===== verification/Engine_Examples.thy ===== *)
theory Engine_Examples
  imports Engine_Schedule Push_Examples
begin

text \<open>
  A device on which the driver can be run. Its state is the time in milliseconds; nothing on its
  disk changes. The hosted ref is the applied one until 10, cannot be read until 30, and has moved
  on after that.
\<close>

definition calm_disk :: "nat disk" where
  "calm_disk = \<lparr>
     d_world = shaky_world, d_locks = (\<lambda>_. \<lparr>single_file_lock_present = (\<lambda>_. False), refs_lock_present = (\<lambda>_. False)\<rparr>),
     d_stage = (\<lambda>_ s. (Inr None, s)),
     d_install = (\<lambda>_ _ _ _ s. (Inl (Pull_Internal ''install''), s)),
     d_reinstall = (\<lambda>_ _ s. (Inl (Pull_Internal ''reinstall''), s)),
     d_aside = (\<lambda>_ _ _ s. (Inr AsideRefused, s)), d_aside_present = (\<lambda>_ _ _. Inr False),
     d_delete = (\<lambda>_ s. (Inr Deleted, s)), d_parent_blocked = (\<lambda>_ _. False), d_set_mode = (\<lambda>_ _ s. (Inr (), s)),
     d_prefetch = (\<lambda>_ _. Inr ()), d_transition_lock = (\<lambda>_. Inr ()), d_prove = (\<lambda>_ rows. rows),
     d_temp_exists = (\<lambda>_ _. False), d_quarantine_exists = (\<lambda>_ _. False), d_quarantine_name = id,
     d_release = (\<lambda>_ s. s), d_sweep = (\<lambda>_ s. (Inr (), s)),
     d_encode_preimage = (\<lambda>_. []), d_decode_preimage = (\<lambda>_. None), d_encode_target = (\<lambda>_. []), d_decode_target = (\<lambda>_. None)\<rparr>"

definition demo_head :: RefObservation where
  "demo_head = \<lparr>ref_version = 4, ref_manifest_key = ''m''\<rparr>"

definition calm_device :: "(TreeNode, TreeNode, nat) device" where
  "calm_device = \<lparr>
     dv_scanner = (\<lambda>_. shaky_scanner), dv_disk = (\<lambda>_. calm_disk),
     dv_remote = (\<lambda>_. \<lparr>pr_io = plain_io, pr_blake3 = id, pr_crypto = plain_crypto, pr_put = (\<lambda>_. plain_put), pr_settled = Inr (),
       pr_cas = (\<lambda>_ _. Inl ''offline''), pr_read_ref = Inl ''offline''\<rparr>),
     dv_pull = \<lparr>pe_io = plain_io, pe_crypto = plain_crypto, pe_blake3 = id, pe_fold = id, pe_project_view = False,
       pe_debug_assertions = False, pe_objects = (\<lambda>_. no_objects),
       pe_read_ref = (\<lambda>now. if now < 10 then Inr (Some demo_head) else if now < 30 then Inl ''offline''
         else Inr (Some \<lparr>ref_version = 5, ref_manifest_key = ''n''\<rparr>))\<rparr>,
     dv_objects = (\<lambda>_. no_objects), dv_store_objects = (\<lambda>_ s. s)\<rparr>"

definition calm_io :: "(nat, unit) engine_io" where
  "calm_io = device_io calm_device \<lparr>io_now = id, io_nfc = id, io_failure_class = (\<lambda>_. Transport_Retryable),
     io_verify_root = (\<lambda>_. Root_Ready), io_adopt_root = (\<lambda>s. (Inr (), s)), io_probe = (\<lambda>s. (Inr (EXACT, NANOSECOND), s)),
     io_policy = (\<lambda>_ _. Inr ()), io_walk = (\<lambda>_ _ _ s. (Inr \<lparr>sw_dirty = {}, sw_unsyncable = []\<rparr>, s)), io_gone = (\<lambda>_ _. False),
     io_push = (\<lambda>_ _ _ _ s store. (Inr (Push_NoChange {}), s, store)),
     io_pull = (\<lambda>_ _ s store. (Inr PullOutcome_default, s, store)), io_recover = (\<lambda>_ s store. (Inr (), s, store))\<rparr>"

lemma honest_shaky: "honest_scanner shaky_scanner"
  by (auto simp: honest_scanner_def shaky_scanner_def shaky_world_def refuses_def)

interpretation calm: honest_device calm_device io for io
  by unfold_locales (simp add: calm_device_def honest_shaky)

lemma calm_io_simps [simp]:
  "io_now calm_io = id" "io_nfc calm_io = id" "io_failure_class calm_io = (\<lambda>_. Transport_Retryable)"
  "io_verify_root calm_io s = Root_Ready" "io_policy calm_io roots s = Inr ()"
  "io_walk calm_io roots policy rows s = (Inr \<lparr>sw_dirty = {}, sw_unsyncable = []\<rparr>, s)"
  by (simp_all add: calm_io_def) (simp_all add: device_io_def)

lemma demo_store_simps [simp]:
  "st_state demo_store = \<lparr>applied_manifest_key = Some ''m'', last_ref_version = Some 4, materialization_revision = 0,
     highest_verified_ref_version = Some 4, highest_verified_manifest_key = Some ''m''\<rparr>"
  "st_intents demo_store = []" "st_unsyncable demo_store = []"
  by (simp_all add: demo_store_def EngineState_default_def)

lemma calm_pull_now:
  "now < 10 \<Longrightarrow> io_pull calm_io ctx (ChangedAndWalked paths) now demo_store =
     (Inr (PullOutcome_default\<lparr>po_observed_ref := Head demo_head, po_applied_manifest_key := Some ''m'', po_ref_version := Some 4,
        po_already_current := True\<rparr>), now, demo_store)"
  by (simp add: calm_io_def calm_device_def pull_def recover_intents_def pending_intents_def calm_disk_def pull_observed_def
      enforce_freshness_def engine_state_def applied_ref_def demo_head_def)

lemma calm_pull_offline:
  "10 \<le> now \<Longrightarrow> now < 30 \<Longrightarrow> io_pull calm_io ctx scope now demo_store = (Inl (Pull_Transport ''offline''), now, demo_store)"
  by (simp add: calm_io_def calm_device_def pull_def recover_intents_def pending_intents_def calm_disk_def)

definition demo_ctx :: EngineContext where
  "demo_ctx = \<lparr>ec_process_identity = \<lparr>pi_boot_id = ''boot'', pi_session_id = ''session'', pi_started_at = ''t''\<rparr>,
     ec_workspace_identity = ''ws'', ec_device_id = ''d'', ec_names = EXACT, ec_timestamps = NANOSECOND\<rparr>"

text \<open>The engine after its start: idle at the applied head.\<close>

definition idle_engine :: ManifestEngine where
  "idle_engine = (ManifestEngine_new demo_store demo_ctx)\<lparr>me_startup_reconcile := False, me_phase := Phase_Idle,
     me_head_ref := Some demo_head, me_applied_ref := Head demo_head\<rparr>"

definition barrier_engine :: "u64 \<Rightarrow> ManifestEngine" where
  "barrier_engine now = on_event id (Event_ConvergenceBarrier 7 3) now idle_engine"

text \<open>A cycle of this device that walks, pulls and finds nothing.\<close>

lemma absorb_nothing [simp]: "absorb_dirty nfc {} me = me"
  by (simp add: absorb_dirty_def canonical_paths_def)

lemma calm_walk: "me_store me = demo_store \<Longrightarrow> record_walk_unsyncable \<lparr>sw_dirty = {}, sw_unsyncable = []\<rparr> scope me = me"
proof -
  have "demo_store\<lparr>st_unsyncable := []\<rparr> = demo_store" by (simp add: demo_store_def)
  then show "me_store me = demo_store \<Longrightarrow> ?thesis"
    by (simp add: record_walk_unsyncable_def record_unsyncable_def Let_def)
qed

lemma calm_scan: "me_store me = demo_store \<Longrightarrow> full_scan calm_io me s = (Inr (), me, s)"
  by (simp add: full_scan_def calm_walk)

lemma calm_cycle:
  assumes "me_store me = demo_store" and "me_dirty me = {}" and "me_scan_required me" and "\<not> me_authoritative_scan_active me"
    and "me_pull_needed me" and "\<not> me_startup_reconcile me" and "\<nexists>fault. me_degradation me = Degraded_RootUnavailable fault" and "now < 10"
  shows "run_cycle calm_io me now = (Inr (), me\<lparr>me_confirmed_removals := None, me_scan_required := False, me_dirty_subtrees := {},
      me_pull_needed := False, me_pending_ref_hint := None, me_force_ref_read := False, me_startup_reconcile := False,
      me_startup_pending := {}, me_head_ref := Some demo_head, me_applied_ref := Head demo_head\<rparr>, now)"
proof -
  let ?me = "me\<lparr>me_confirmed_removals := None\<rparr>"
  have guard: "guard_root calm_io ?me now = (Inr (), ?me, now)"
    using assms(7) by (auto simp: guard_root_def root_returned_def split: Degradation.split)
  have observe: "observe_workspace calm_io ?me now = (Inr FreshlyWalked, ?me\<lparr>me_scan_required := False, me_dirty_subtrees := {}\<rparr>, now)"
    using assms(1,3,4) by (simp add: observe_workspace_def calm_scan)
  have "me_dirty me = me_dirty (me\<lparr>me_dirty := {}\<rparr>)" using assms(2) by simp
  then show ?thesis
    using assms calm_pull_now[OF assms(8)] guard observe
    by (simp add: run_cycle_def spend_confirmation_def receive_def do_pull_def pull_scope_def Let_def publish_dirty_def
        MAX_PUSH_ATTEMPTS_def numeral_2_eq_2 reschedule_dirty_def absorb_pull_def PullOutcome_default_def pulled_applied_ref_def demo_head_def)
qed


lemmas engine_eval = on_event_def fold_event_def idle_engine_def ManifestEngine_new_def bump_revision_if_changed_def
  drop_ref_hint_def demand_pull_def set_degradation_eq preempt_backoff_def next_due_def consume_deadlines_def Let_def

lemma barrier_engine_facts:
  "me_store (barrier_engine now) = demo_store" "me_dirty (barrier_engine now) = {}" "me_scan_required (barrier_engine now)"
  "\<not> me_authoritative_scan_active (barrier_engine now)" "me_pull_needed (barrier_engine now)"
  "me_pending_barriers (barrier_engine now) = [(7, 3)]" "me_completed_barriers (barrier_engine now) = []"
  "next_due (barrier_engine now) = Some now" "me_audit_deadline (barrier_engine now) = None"
  "\<not> me_startup_reconcile (barrier_engine now)" "me_degradation (barrier_engine now) = FullScanRequired Scan_ConvergenceBarrier"
  "me_ctx (barrier_engine now) = demo_ctx"
  by (simp_all add: barrier_engine_def engine_eval)

definition demo_receipt :: EngineConvergenceReceipt where
  "demo_receipt = \<lparr>cr_process_identity = ec_process_identity demo_ctx, cr_workspace_identity = ''ws'', cr_endpoint_generation = 3,
     cr_barrier_id = 7, cr_engine_revision = 2, cr_observed_ref = Head demo_head, cr_applied_ref = Head demo_head,
     cr_materialization_revision = 0\<rparr>"

lemma barrier_run:
  assumes "now < 10"
  shows "\<exists>me'. run_due_work calm_io (barrier_engine now) now = (Inr (), me', now) \<and> me_completed_barriers me' = [(7, demo_receipt)]"
proof -
  define me0 where "me0 = begun now (barrier_engine now)"
  have cycle: "run_cycle calm_io me0 now = (Inr (), me0\<lparr>me_confirmed_removals := None, me_scan_required := False, me_dirty_subtrees := {},
      me_pull_needed := False, me_pending_ref_hint := None, me_force_ref_read := False, me_startup_reconcile := False,
      me_startup_pending := {}, me_head_ref := Some demo_head, me_applied_ref := Head demo_head\<rparr>, now)"
    by (rule calm_cycle) (simp_all add: me0_def begun_def consume_deadlines_def barrier_engine_facts assms)
  show ?thesis
    using cycle
    by (simp add: run_due_work_def barrier_engine_facts begun_def[symmetric] me0_def[symmetric])
      (simp add: me0_def begun_def complete_barriers_def barrier_engine_def engine_eval refresh_and_bump_def refresh_durable_state_def
        cycle_succeeded_def degradation_is_transient_def idle_def engine_state_def applied_ref_def is_exactly_converged_def
        is_work_drained_def exact_observed_ref_def EngineRef_from_observation_def engine_snapshot_def state_sig_def
        pending_intents_def convergence_receipt_def demo_receipt_def demo_ctx_def demo_head_def)
qed


section \<open>Witnesses\<close>



theorem ratchet_never_regresses_witness:
  "\<exists>me'. engine_steps calm_io (barrier_engine 3, 3) (me', 3) \<and> me_completed_barriers me' \<noteq> []
     \<and> ratchet_le (st_state demo_store) (st_state (me_store me'))"
proof -
  obtain me' where run: "run_due_work calm_io (barrier_engine 3) 3 = (Inr (), me', 3)" "me_completed_barriers me' = [(7, demo_receipt)]"
    using barrier_run[of 3] by auto
  have steps: "engine_steps calm_io (barrier_engine 3, 3) (me', 3)"
    by (rule steps_step[OF steps_refl step_due[OF run(1)]])
  have "honest_scanner (dv_scanner calm_device ctx)" for ctx by (simp add: calm_device_def honest_shaky)
  from ratchet_never_regresses[OF this steps[unfolded calm_io_def]] show ?thesis
    using steps run(2) demo_store_ok(3) by (auto simp: barrier_engine_facts)
qed


theorem refused_set_matches_witness:
  "\<exists>me'. engine_steps calm_io (ManifestEngine_new demo_store demo_ctx, 3) (me', 3) \<and> es_revision (engine_snapshot me') = 1
     \<and> refusal_matches (es_degradation (engine_snapshot me')) (es_refused_removals (engine_snapshot me'))"
proof -
  let ?me = "on_event (io_nfc calm_io) (Event_FullScanRequired WatcherOverflow) (io_now calm_io 3) (ManifestEngine_new demo_store demo_ctx)"
  have steps: "engine_steps calm_io (ManifestEngine_new demo_store demo_ctx, 3) (?me, 3)"
    by (rule steps_step[OF steps_refl step_event])
  have "honest_scanner (dv_scanner calm_device ctx)" for ctx by (simp add: calm_device_def honest_shaky)
  from refused_set_matches[OF this steps[unfolded calm_io_def]] have
    "refusal_matches (es_degradation (engine_snapshot ?me)) (es_refused_removals (engine_snapshot ?me))" by (simp add: calm_io_def)
  moreover have "es_revision (engine_snapshot ?me) = 1" by (simp add: engine_eval engine_snapshot_def)
  ultimately show ?thesis using steps by blast
qed

section \<open>A pull that fails\<close>

lemma pull_offline_cycle:
  assumes "me_store me = demo_store" and "me_scan_required me" and "\<not> me_authoritative_scan_active me"
    and "me_pull_needed me" and "\<nexists>fault. me_degradation me = Degraded_RootUnavailable fault" and "10 \<le> now" and "now < 30"
  shows "run_cycle calm_io me now = (Inl Cycle_Transport, me\<lparr>me_confirmed_removals := None, me_scan_required := False, me_dirty_subtrees := {},
      me_pull_needed := False, me_pending_ref_hint := None, me_force_ref_read := True\<rparr>, now)"
proof -
  let ?me = "me\<lparr>me_confirmed_removals := None\<rparr>"
  have guard: "guard_root calm_io ?me now = (Inr (), ?me, now)"
    using assms(5) by (auto simp: guard_root_def root_returned_def split: Degradation.split)
  have observe: "observe_workspace calm_io ?me now = (Inr FreshlyWalked, ?me\<lparr>me_scan_required := False, me_dirty_subtrees := {}\<rparr>, now)"
    using assms(1-3) by (simp add: observe_workspace_def calm_scan)
  have "demo_store = me_store me" using assms(1) by simp
  then show ?thesis
    using assms(1,4) calm_pull_offline[OF assms(6,7)] guard observe
    by (simp add: run_cycle_def spend_confirmation_def receive_def do_pull_def Let_def pull_cycle_error_def transport_cycle_error_def)
qed

lemma quiet_cycle:
  assumes "me_dirty me = {}" and "me_dirty_subtrees me = {}" and "\<not> me_scan_required me" and "\<not> me_pull_needed me"
    and "\<nexists>fault. me_degradation me = Degraded_RootUnavailable fault"
  shows "run_cycle calm_io me now = (Inr (), me\<lparr>me_confirmed_removals := None\<rparr>, now)"
proof -
  have "guard_root calm_io (me\<lparr>me_confirmed_removals := None\<rparr>) now = (Inr (), me\<lparr>me_confirmed_removals := None\<rparr>, now)"
    using assms(5) by (auto simp: guard_root_def root_returned_def split: Degradation.split)
  then show ?thesis
    using assms by (simp add: run_cycle_def spend_confirmation_def observe_workspace_def receive_def publish_dirty_def
        MAX_PUSH_ATTEMPTS_def numeral_2_eq_2 reschedule_dirty_def)
qed


definition offline_engine :: ManifestEngine where
  "offline_engine = fst (snd (run_due_work calm_io (barrier_engine 12) 12))"

lemma offline_run: "run_due_work calm_io (barrier_engine 12) 12 = (Inr (), offline_engine, 12)"
  and offline_facts: "me_dirty offline_engine = {}" "me_dirty_subtrees offline_engine = {}" "\<not> me_scan_required offline_engine"
    "\<not> me_pull_needed offline_engine" "me_degradation offline_engine = OfflineRetrying 1" "me_phase offline_engine = Phase_BackingOff"
    "next_due offline_engine = Some (12 + backoff_delay ''d'' 1)" "me_audit_deadline offline_engine = None"
    "me_pending_barriers offline_engine = [(7, 3)]" "me_completed_barriers offline_engine = []" "me_store offline_engine = demo_store"
    "me_head_ref offline_engine = Some demo_head" "me_ctx offline_engine = demo_ctx" "\<not> me_unattributed_pull_pending offline_engine"
    "me_refused_removals offline_engine = {}"
proof -
  define me0 where "me0 = begun 12 (barrier_engine 12)"
  have cycle: "run_cycle calm_io me0 12 = (Inl Cycle_Transport, me0\<lparr>me_confirmed_removals := None, me_scan_required := False,
      me_dirty_subtrees := {}, me_pull_needed := False, me_pending_ref_hint := None, me_force_ref_read := True\<rparr>, 12)"
    by (rule pull_offline_cycle) (simp_all add: me0_def begun_def consume_deadlines_def barrier_engine_facts)
  have run: "\<exists>me'. run_due_work calm_io (barrier_engine 12) 12 = (Inr (), me', 12) \<and> me_dirty me' = {} \<and> me_dirty_subtrees me' = {}
     \<and> \<not> me_scan_required me' \<and> \<not> me_pull_needed me' \<and> me_degradation me' = OfflineRetrying 1 \<and> me_phase me' = Phase_BackingOff
     \<and> next_due me' = Some (12 + backoff_delay ''d'' 1) \<and> me_audit_deadline me' = None \<and> me_pending_barriers me' = [(7, 3)]
     \<and> me_completed_barriers me' = [] \<and> me_store me' = demo_store \<and> me_head_ref me' = Some demo_head \<and> me_ctx me' = demo_ctx
     \<and> \<not> me_unattributed_pull_pending me' \<and> me_refused_removals me' = {}"
    using cycle
    by (simp add: run_due_work_def barrier_engine_facts begun_def[symmetric] me0_def[symmetric] absorb_cycle_error_def)
      (simp add: me0_def begun_def complete_barriers_def barrier_engine_def engine_eval refresh_and_bump_def refresh_durable_state_def
        enter_backoff_def engine_state_def applied_ref_def is_exactly_converged_def u32_MAX_def List.map_filter_simps
        is_work_drained_def engine_snapshot_def state_sig_def pending_intents_def demo_ctx_def demo_head_def)
  then show "run_due_work calm_io (barrier_engine 12) 12 = (Inr (), offline_engine, 12)" by (auto simp: offline_engine_def)
  with run show "me_dirty offline_engine = {}" "me_dirty_subtrees offline_engine = {}" "\<not> me_scan_required offline_engine"
    "\<not> me_pull_needed offline_engine" "me_degradation offline_engine = OfflineRetrying 1" "me_phase offline_engine = Phase_BackingOff"
    "next_due offline_engine = Some (12 + backoff_delay ''d'' 1)" "me_audit_deadline offline_engine = None"
    "me_pending_barriers offline_engine = [(7, 3)]" "me_completed_barriers offline_engine = []" "me_store offline_engine = demo_store"
    "me_head_ref offline_engine = Some demo_head" "me_ctx offline_engine = demo_ctx" "\<not> me_unattributed_pull_pending offline_engine"
    "me_refused_removals offline_engine = {}"
    by auto
qed



section \<open>More witnesses\<close>

definition refused_engine :: ManifestEngine where
  "refused_engine = idle_engine\<lparr>me_degradation := MassDeletionBlocked 2 9, me_refused_removals := {''a'', ''b''}\<rparr>"

theorem confirmation_is_one_shot_witness:
  "\<exists>me1 r me2 s'. confirm_mass_deletion 5 refused_engine = (Authorized 2 9, me1)
     \<and> me_confirmed_removals me1 = Some {''a'', ''b''} \<and> confirm_mass_deletion 6 me1 = (NotBlocked, me1)
     \<and> run_due_work calm_io me1 7 = (r, me2, s') \<and> me_confirmed_removals me2 = None"
proof -
  have ok: "refusal_matches (me_degradation refused_engine) (me_refused_removals refused_engine)" by (simp add: refused_engine_def)
  obtain me1 where confirm: "confirm_mass_deletion 5 refused_engine = (Authorized 2 9, me1)"
    by (simp add: confirm_mass_deletion_def refused_engine_def Let_def)
  obtain r me2 s' where run: "run_due_work calm_io me1 7 = (r, me2, s')" by (metis prod_cases3)
  have "me_refused_removals refused_engine = {''a'', ''b''}" by (simp add: refused_engine_def)
  then show ?thesis
    using confirmation_is_one_shot[OF ok confirm, of 6 calm_io 7 r me2 s'] confirm run by auto
qed

definition settled_io :: "(nat, unit) engine_io" where
  "settled_io = calm_io\<lparr>io_push := (\<lambda>_ _ _ _ s store. (Inr (Push_NoChange {''b''}), s, store))\<rparr>"

theorem dirty_path_is_not_lost_witness:
  "\<exists>me0 s0 observation store outcome s1 store1. ''a'' \<in> publish_batch settled_io s0 me0 \<and> settles_path outcome ''a''
    \<and> io_push settled_io (me_ctx me0) (publish_batch settled_io s0 me0) Deletion_Enforce (watcher_evidence observation) s0 store
        = (Inr outcome, s1, store1)"
proof -
  let ?me = "idle_engine\<lparr>me_dirty := {''a'', ''b''}\<rparr>"
  have guard: "io_verify_root settled_io s = Root_Ready" for s by (simp add: settled_io_def calm_io_def device_io_def)
  have "\<exists>me'. run_cycle settled_io ?me 3 = (Inr (), me', 3) \<and> me_dirty me' = {''b''}"
    by (simp add: run_cycle_def spend_confirmation_def idle_engine_def ManifestEngine_new_def guard_root_def guard root_returned_def
        observe_workspace_def receive_def publish_dirty_def MAX_PUSH_ATTEMPTS_def numeral_2_eq_2 publish_batch_def PUBLISH_BATCH_MAX_def
        settled_io_def retain_skipped_def reschedule_dirty_def Let_def)
  then obtain me' where run: "run_cycle settled_io ?me 3 = (Inr (), me', 3)" "me_dirty me' = {''b''}" by blast
  from dirty_path_is_not_lost[OF run(1), of "''a''"] run(2) show ?thesis
    by (simp add: spend_confirmation_def idle_engine_def ManifestEngine_new_def)
qed

definition many_paths :: "WorkspacePath set" where
  "many_paths = (\<lambda>n. replicate n CHR ''a'') ` {1..100}"


theorem burst_publishes_in_time_witness:
  "\<exists>due. next_due (on_events id [(Event_Paths {''b''}, 1200), (Event_RefChanged, 1300), (Event_Paths {''c''}, 2300)]
      (on_event id (Event_Paths {''a''}) 1000 idle_engine)) = Some due \<and> due \<le> 3000"
  using burst_publishes_in_time[of idle_engine "Event_Paths {''a''}" "{''a''}" id
      "[(Event_Paths {''b''}, 1200), (Event_RefChanged, 1300), (Event_Paths {''c''}, 2300)]" 1000]
  by (simp add: idle_engine_def ManifestEngine_new_def)

definition rootless_io :: "(nat, unit) engine_io" where
  "rootless_io = calm_io\<lparr>io_verify_root := (\<lambda>_. Root_Faulted Root_Missing)\<rparr>"

theorem stalled_retry_is_due_at_once_witness:
  "\<exists>me'. run_due_work rootless_io (idle_engine\<lparr>me_backoff_deadline := Some 5\<rparr>) 9 = (Inr (), me', 9)
     \<and> me_stall_deadline me' = Some 30009 \<and> next_timeout 9 me' = Some 0"
proof -
  let ?me = "idle_engine\<lparr>me_backoff_deadline := Some 5\<rparr>"
  have "\<exists>me'. run_due_work rootless_io ?me 9 = (Inr (), me', 9) \<and> me_stall_deadline me' = Some 30009 \<and> me_phase me' = Phase_Stalled"
    by (simp add: run_due_work_def idle_engine_def ManifestEngine_new_def next_due_def List.map_filter_simps rootless_io_def
        consume_deadlines_def run_cycle_def spend_confirmation_def guard_root_def absorb_cycle_error_def STALL_REPROBE_MS_def
        complete_barriers_fields refresh_and_bump_fields Let_def)
      (simp add: complete_barriers_def refresh_and_bump_def set_degradation_eq Let_def)
  then obtain me' where run: "run_due_work rootless_io ?me 9 = (Inr (), me', 9)" "me_stall_deadline me' = Some 30009" "me_phase me' = Phase_Stalled"
    by blast
  have now: "io_now rootless_io = id" by (simp add: rootless_io_def)
  from stalled_retry_is_due_at_once[OF run(1), of 5] run now show ?thesis by auto
qed

end
