(* ===== verification/Diff_Readings.thy ===== *)
theory Diff_Readings
  imports Tree_Diff Relative_Manifests
begin

text \<open>
  What a node key stands for to a reader that opens nodes within its limits: the relation
  \<open>denotes\<close>, from a key to the manifest below it. A key denotes one manifest at most, and a whole
  fetch returns the manifest that its root denotes.
\<close>

section \<open>Opening a node\<close>

definition opens :: "('b, 's) diff_env \<Rightarrow> ManifestKey \<Rightarrow> TreeNode \<Rightarrow> bool" where
  "opens env key node \<longleftrightarrow>
     (\<exists>sealed plaintext key_epoch. dn_objects env key = Inr sealed \<and> physical_manifest_key (dn_io env) sealed = key
        \<and> open_tree_node (dn_io env) (dn_crypto env) sealed (dn_limits env) = Inr (plaintext, key_epoch)
        \<and> TreeNode_decode (from_bytes (dn_io env)) plaintext key_epoch (dn_limits env) = Inr node)"

definition payload_at :: "TreeNode \<Rightarrow> string \<Rightarrow> TreeEntryPayload option" where
  "payload_at node = map_of (map (\<lambda>entry. (te_name entry, te_payload entry)) (tn_entries node))"

lemma opens_unique: "opens env key node \<Longrightarrow> opens env key node' \<Longrightarrow> node = node'"
  by (auto simp: opens_def)

lemma opens_names:
  assumes "opens env key node"
  shows "distinct (map te_name (tn_entries node))" and "entry \<in> set (tn_entries node) \<Longrightarrow> path_component (te_name entry)"
proof -
  from assms obtain plaintext key_epoch where
    "TreeNode_decode (from_bytes (dn_io env)) plaintext key_epoch (dn_limits env) = Inr node"
    by (auto simp: opens_def)
  then have "sorted_wrt (<) (map te_name (tn_entries node))"
    and "list_all (\<lambda>e. valid_name (dn_limits env) (te_name e) \<and> valid_target (dn_limits env) (te_payload e)) (tn_entries node)"
    by (auto simp: decode_iff)
  then show "distinct (map te_name (tn_entries node))" and "entry \<in> set (tn_entries node) \<Longrightarrow> path_component (te_name entry)"
    by (auto simp: strict_sorted_iff list_all_iff valid_name_def path_component_def)
qed

lemma payload_at_iff:
  assumes "opens env key node"
  shows "payload_at node n = Some payload \<longleftrightarrow> (\<exists>entry \<in> set (tn_entries node). te_name entry = n \<and> te_payload entry = payload)"
  using opens_names(1)[OF assms] unfolding payload_at_def
  by (subst map_of_eq_Some_iff) (auto simp: comp_def)

lemma payload_at_None: "payload_at node n = None \<longleftrightarrow> n \<notin> te_name ` set (tn_entries node)"
  by (force simp: payload_at_def map_of_eq_None_iff)

lemma find_payload:
  "payload_at node n = map_option te_payload (List.find (\<lambda>entry. te_name entry = n) (tn_entries node))"
proof -
  have "map_of (map (\<lambda>entry. (te_name entry, te_payload entry)) es) n = map_option te_payload (List.find (\<lambda>entry. te_name entry = n) es)" for es
    by (induction es) auto
  then show ?thesis by (simp add: payload_at_def)
qed

section \<open>What a key denotes\<close>

definition visible_at :: "TreeNode \<Rightarrow> string \<Rightarrow> ManifestEntry option" where
  "visible_at node n = Option.bind (payload_at node n) visible_entry"

definition child_key :: "TreeNode \<Rightarrow> string \<Rightarrow> ManifestKey option" where
  "child_key node n = Option.bind (payload_at node n) payload_child"

inductive denotes :: "('b, 's) diff_env \<Rightarrow> ManifestKey \<Rightarrow> flat \<Rightarrow> bool" for env where
  denotes_node: "opens env key node \<Longrightarrow> f [] = None \<Longrightarrow> (\<And>n. f [n] = visible_at node n) \<Longrightarrow>
    (\<And>n. child_key node n = None \<Longrightarrow> sub f n = Map.empty) \<Longrightarrow>
    (\<And>n child. child_key node n = Some child \<Longrightarrow> denotes env child (sub f n)) \<Longrightarrow> denotes env key f"

inductive_cases denotesE: "denotes env key f"

lemma flat_branch: "f [n] = None \<Longrightarrow> sub f n = Map.empty \<Longrightarrow> f (n # q) = None"
  by (cases "q = []") (simp_all add: sub_eq_empty)

lemma flat_ext:
  assumes "f [] = g []" and "\<And>n. f [n] = g [n]" and "\<And>n. sub f n = sub g n"
  shows "f = g"
proof
  fix p show "f p = g p"
  proof (cases p)
    case (Cons n q)
    show ?thesis
    proof (cases "q = []")
      case False
      with Cons fun_cong[OF assms(3)[of n], of q] show ?thesis by (simp add: sub_def)
    qed (use Cons assms(2) in simp)
  qed (simp add: assms(1))
qed

lemma denotes_unique: "denotes env key f \<Longrightarrow> denotes env key g \<Longrightarrow> f = g"
proof (induction arbitrary: g rule: denotes.induct)
  case (denotes_node key node f)
  from denotes_node.prems obtain node' where g: "opens env key node'" "g [] = None" "\<And>n. g [n] = visible_at node' n"
    "\<And>n. child_key node' n = None \<Longrightarrow> sub g n = Map.empty" "\<And>n child. child_key node' n = Some child \<Longrightarrow> denotes env child (sub g n)"
    by (rule denotesE) blast
  have same: "node' = node" by (rule opens_unique[OF g(1) denotes_node(1)])
  show ?case
  proof (rule flat_ext)
    fix n show "sub f n = sub g n"
      by (cases "child_key node n") (use denotes_node g same in \<open>auto simp: denotes_node.IH\<close>)
  qed (simp_all add: denotes_node(2,3) g(2,3) same)
qed

lemma denotes_valid: "denotes env key f \<Longrightarrow> f p \<noteq> None \<Longrightarrow> valid_path p \<and> p \<noteq> []"
proof (induction arbitrary: p rule: denotes.induct)
  case (denotes_node key node f)
  then obtain n q where p: "p = n # q" by (cases p) auto
  have "payload_at node n \<noteq> None"
  proof
    assume none: "payload_at node n = None"
    then have "f [n] = None" "sub f n = Map.empty" using denotes_node(3,4) by (auto simp: visible_at_def child_key_def)
    then have "f p = None" unfolding p by (rule flat_branch)
    with denotes_node.prems show False by simp
  qed
  then have "path_component n" using opens_names(2)[OF denotes_node(1)] payload_at_None[of node n] by auto
  moreover have "valid_path q"
  proof (cases "q = []")
    case False
    with denotes_node.prems p have some: "sub f n q \<noteq> None" by (simp add: sub_def)
    with denotes_node(4) obtain child where "child_key node n = Some child" by (cases "child_key node n") auto
    with denotes_node.IH some show ?thesis by blast
  qed simp
  ultimately show ?case by (simp add: p)
qed

section \<open>Paths of a manifest\<close>

text \<open>The entry that a manifest has at a path, and the paths below a directory.\<close>

definition read_at :: "flat \<Rightarrow> WorkspacePath \<Rightarrow> ManifestEntry option" where
  "read_at f path = f (split_on slash path)"

definition under_dir :: "string list \<Rightarrow> string list set \<Rightarrow> WorkspacePath set" where
  "under_dir cs ps = (\<lambda>p. join_path (cs @ p)) ` ps"

definition differing :: "flat \<Rightarrow> flat \<Rightarrow> string list set" where
  "differing f g = {p. f p \<noteq> g p}"

definition branch :: "string \<Rightarrow> string list set \<Rightarrow> string list set" where
  "branch n ps = {p \<in> ps. p \<noteq> [] \<and> hd p = n}"

lemma under_simps [simp]: "under_dir cs {} = {}" "under_dir cs (A \<union> B) = under_dir cs A \<union> under_dir cs B" "under_dir cs (\<Union>x\<in>S. D x) = (\<Union>x\<in>S. under_dir cs (D x))"
  by (auto simp: under_dir_def)

lemma under_branch:
  "under_dir cs (branch n (differing f g)) = (if f [n] = g [n] then {} else {join_path (cs @ [n])}) \<union> under_dir (cs @ [n]) (differing (sub f n) (sub g n))"
proof -
  have "branch n (differing f g) = (if f [n] = g [n] then {} else {[n]}) \<union> (Cons n) ` differing (sub f n) (sub g n)"
  proof -
    have "p \<in> branch n (differing f g) \<longleftrightarrow> p \<in> (if f [n] = g [n] then {} else {[n]}) \<union> (Cons n) ` differing (sub f n) (sub g n)" for p
      by (cases p; cases "tl p = []") (auto simp: branch_def differing_def sub_def)
    then show ?thesis by blast
  qed
  then show ?thesis by (auto simp: under_dir_def)
qed

lemma differing_branches:
  assumes "f [] = g []" and "\<And>n. n \<notin> S \<Longrightarrow> f [n] = g [n] \<and> sub f n = sub g n"
  shows "under_dir cs (differing f g) = (\<Union>n\<in>S. under_dir cs (branch n (differing f g)))"
proof -
  have "differing f g \<subseteq> (\<Union>n\<in>S. branch n (differing f g))"
  proof
    fix p assume p: "p \<in> differing f g"
    with assms(1) obtain n q where nq: "p = n # q" by (cases p) (auto simp: differing_def)
    have "n \<in> S"
    proof (rule ccontr)
      assume "n \<notin> S"
      with assms(2) have same: "f [n] = g [n]" "sub f n = sub g n" by auto
      then have "f p = g p" unfolding nq by (cases "q = []") (auto simp: sub_def dest: fun_cong[of _ _ q])
      with p show False by (simp add: differing_def)
    qed
    with p nq show "p \<in> (\<Union>n\<in>S. branch n (differing f g))" by (auto simp: branch_def)
  qed
  then have "differing f g = (\<Union>n\<in>S. branch n (differing f g))" by (auto simp: branch_def)
  then show ?thesis using under_simps(3) by metis
qed

lemma branch_empty:
  assumes "f [n] = None" and "sub f n = Map.empty"
  shows "branch n (differing f Map.empty) = {}"
  using flat_branch[OF assms] by (auto simp: branch_def differing_def neq_Nil_conv)

lemma sub_empty [simp]: "sub Map.empty n = Map.empty"
  by (simp add: sub_eq_empty)

lemma delta_same [simp]: "differing f f = {}"
  by (simp add: differing_def)

lemma read_at_join: "valid_path cs \<Longrightarrow> cs \<noteq> [] \<Longrightarrow> read_at f (join_path cs) = f cs"
  using split_join valid_no_slash by (simp add: read_at_def)

lemma under_root:
  assumes "\<And>p. f p \<noteq> None \<Longrightarrow> valid_path p \<and> p \<noteq> []" and "\<And>p. g p \<noteq> None \<Longrightarrow> valid_path p \<and> p \<noteq> []"
  shows "under_dir [] (differing f g) = {path. read_at f path \<noteq> read_at g path}"
proof (intro set_eqI iffI)
  fix path assume "path \<in> under_dir [] (differing f g)"
  then obtain p where p: "path = join_path p" "f p \<noteq> g p" by (auto simp: under_dir_def differing_def)
  with assms[of p] have "valid_path p" "p \<noteq> []" by force+
  with p show "path \<in> {path. read_at f path \<noteq> read_at g path}" by (simp add: read_at_join)
next
  fix path assume "path \<in> {path. read_at f path \<noteq> read_at g path}"
  then have "split_on slash path \<in> differing f g" by (simp add: read_at_def differing_def)
  then have "join_path (split_on slash path) \<in> under_dir [] (differing f g)" by (force simp: under_dir_def)
  then show "path \<in> under_dir [] (differing f g)" by (simp add: join_split)
qed

end
