(* ===== verification/Diff_Exactness.thy ===== *)
theory Diff_Exactness
  imports Diff_Readings
begin

text \<open>
  The comparison of two trees is exact: it collects the paths at which the two manifests differ,
  and the new entries at these paths. The state of the comparison moves by a set of touched paths
  and a set of paths whose new entries are taken, and moves compose.
\<close>

section \<open>Moves of the state\<close>

definition differ_ok :: "('b, 's) diff_env \<Rightarrow> flat \<Rightarrow> TreeDiffer \<Rightarrow> bool" where
  "differ_ok env new d \<longleftrightarrow> bt_ok (df_entries d) \<and> bt_ok (df_opened d) \<and> bt_ok (df_collision_entries d) \<and> bt_ok (df_folded d)
     \<and> (\<forall>key opened. map_of (df_opened d) key = Some opened \<longrightarrow> opens env key (on_node opened))
     \<and> map_of (df_collision_entries d) \<subseteq>\<^sub>m read_at new
     \<and> (\<forall>folded paths path. map_of (df_folded d) folded = Some paths \<longrightarrow> path \<in> set paths \<longrightarrow>
          dn_fold env path = folded \<and> map_of (df_collision_entries d) path = read_at new path)"

definition moves :: "('b, 's) diff_env \<Rightarrow> flat \<Rightarrow> WorkspacePath set \<Rightarrow> WorkspacePath set \<Rightarrow> TreeDiffer \<Rightarrow> TreeDiffer \<Rightarrow> bool" where
  "moves env new touched taken d d' \<longleftrightarrow> differ_ok env new d' \<and> df_touched d' = df_touched d \<union> touched
     \<and> map_of (df_entries d') = map_of (df_entries d) ++ (read_at new |` taken)"

lemma moves_ok: "moves env new T A d d' \<Longrightarrow> differ_ok env new d'"
  by (simp add: moves_def)

lemma moves_refl: "differ_ok env new d \<Longrightarrow> moves env new {} {} d d"
  by (simp add: moves_def)

lemma moves_trans:
  assumes "moves env new T A d d1" and "moves env new T' A' d1 d2"
  shows "moves env new (T \<union> T') (A \<union> A') d d2"
proof -
  have "read_at new |` A ++ read_at new |` A' = read_at new |` (A \<union> A')"
    by (auto simp: map_add_def restrict_map_def fun_eq_iff split: option.splits)
  with assms show ?thesis by (auto simp: moves_def map_add_assoc[symmetric] simp flip: map_add_assoc)
qed

lemma moves_cong:
  assumes "moves env new T A d d'" and "T = T'" and "\<And>path. read_at new path \<noteq> None \<Longrightarrow> path \<in> A \<longleftrightarrow> path \<in> A'"
  shows "moves env new T' A' d d'"
proof -
  have "read_at new |` A = read_at new |` A'"
  proof
    fix path show "(read_at new |` A) path = (read_at new |` A') path"
      using assms(3)[of path] by (cases "read_at new path") (simp_all add: restrict_map_def)
  qed
  with assms(1,2) show ?thesis by (simp add: moves_def)
qed

lemma moves_frame:
  assumes "differ_ok env new d" and "df_entries d' = df_entries d" "df_touched d' = df_touched d" "df_folded d' = df_folded d"
    "df_collision_entries d' = df_collision_entries d" "df_opened d' = df_opened d"
  shows "moves env new {} {} d d'"
  using assms by (simp add: moves_def differ_ok_def)

lemma moves_touch: "differ_ok env new d \<Longrightarrow> moves env new {path} {} d (touch path d)"
  by (simp add: moves_def differ_ok_def touch_def)

lemma moves_take:
  assumes "differ_ok env new d" and "read_at new path = Some entry"
  shows "moves env new {} {path} d (d\<lparr>df_entries := bt_insert path entry (df_entries d)\<rparr>)"
  using assms
  by (auto simp: moves_def differ_ok_def bt_insert_ok map_of_bt_insert restrict_map_def map_add_def fun_eq_iff)

lemma moves_emit:
  assumes "diff_emit env path entry d = Inr d'" and "differ_ok env new d" and "read_at new path = Some entry"
  shows "moves env new {path} {path} d d'"
proof -
  have "d' = (touch path d)\<lparr>df_entries := bt_insert path entry (df_entries (touch path d))\<rparr>"
    using assms(1) by (auto simp: diff_emit_def touch_def split: sum.splits)
  then show ?thesis
    using moves_trans[OF moves_touch[OF assms(2), of path] moves_take[OF moves_ok[OF moves_touch[OF assms(2)]] assms(3)]] by simp
qed

section \<open>Opening and counting\<close>

lemma charge_differ_fields:
  assumes "charge_differ env side bytes d = Inr d'"
  shows "df_entries d' = df_entries d" "df_touched d' = df_touched d" "df_folded d' = df_folded d"
    "df_collision_entries d' = df_collision_entries d" "df_opened d' = df_opened d"
  using assms by (auto simp: charge_differ_def map_sum_Inr)

lemma diff_open_node_moves:
  assumes "diff_open_node env key side charge_cached d = Inr (node, d')" and ok: "differ_ok env new d"
  shows "opens env key node \<and> moves env new {} {} d d'"
proof (cases "map_of (df_opened d) key")
  case (Some opened)
  then have "opens env key (on_node opened)" using ok by (simp add: differ_ok_def)
  moreover have "moves env new {} {} d d1" if "charge_differ env side bytes d = Inr d1" for bytes d1
    using moves_frame[OF ok charge_differ_fields[OF that]] .
  ultimately show ?thesis
    using assms(1) Some moves_refl[OF ok] by (auto simp: diff_open_node_def map_sum_Inr split: if_splits)
next
  case None
  from assms(1) None obtain sealed plaintext key_epoch d1 where
    o: "dn_objects env key = Inr sealed" "physical_manifest_key (dn_io env) sealed = key"
      "open_tree_node (dn_io env) (dn_crypto env) sealed (dn_limits env) = Inr (plaintext, key_epoch)"
      "TreeNode_decode (from_bytes (dn_io env)) plaintext key_epoch (dn_limits env) = Inr node"
    and d1: "charge_differ env side (plaintext_len (dn_io env) plaintext) d = Inr d1"
    and d': "d' = d1\<lparr>df_opened := bt_insert key \<lparr>on_node = node, on_decoded_bytes = plaintext_len (dn_io env) plaintext\<rparr> (df_opened d1)\<rparr>"
    by (auto simp: diff_open_node_def Let_def split: sum.splits if_splits prod.splits)
  have "opens env key node" using o by (auto simp: opens_def)
  moreover from this have "differ_ok env new d'"
    using ok charge_differ_fields[OF d1] by (auto simp: d' differ_ok_def bt_insert_ok map_of_bt_insert)
  ultimately show ?thesis using charge_differ_fields[OF d1] by (simp add: d' moves_def)
qed

lemma count_node_moves: "count_node env node adding d = Inr d' \<Longrightarrow> differ_ok env new d \<Longrightarrow> moves env new {} {} d d'"
  by (rule moves_frame) (auto simp: count_node_def map_sum_Inr Let_def split: if_splits)

lemma note_collision_moves:
  assumes ok: "differ_ok env new d" and visible: "read_at new path = visible_entry payload"
  shows "moves env new {} {} d (note_collision env path payload d)"
proof -
  let ?d = "note_collision env path payload d"
  have folded: "df_folded ?d = push_folded (dn_fold env path) path (df_folded d)"
    "df_entries ?d = df_entries d" "df_touched ?d = df_touched d" "df_opened ?d = df_opened d"
    by (auto simp: note_collision_def Let_def split: option.split)
  have coll: "bt_ok (df_collision_entries ?d)" "map_of (df_collision_entries ?d) = (map_of (df_collision_entries d))(path := read_at new path)"
    using ok visible
    by (auto simp: note_collision_def differ_ok_def map_le_def dom_def fun_eq_iff map_of_bt_insert bt_insert_ok Let_def split: option.splits)
  have sub: "map_of (df_collision_entries d) \<subseteq>\<^sub>m read_at new" using ok by (simp add: differ_ok_def)
  have "map_of (df_collision_entries ?d) \<subseteq>\<^sub>m read_at new" using sub unfolding coll by (auto simp: map_le_def)
  moreover have "map_of (df_folded ?d) = (map_of (df_folded d))(dn_fold env path \<mapsto>
      (case map_of (df_folded d) (dn_fold env path) of None \<Rightarrow> [] | Some paths \<Rightarrow> paths) @ [path])" "bt_ok (df_folded ?d)"
    using ok by (auto simp: folded push_folded_def differ_ok_def map_of_bt_insert bt_insert_ok)
  ultimately have "differ_ok env new ?d"
    using ok folded coll unfolding differ_ok_def by (auto split: if_splits option.splits)
  then show ?thesis by (simp add: moves_def folded)
qed

lemma record_collisions_moves:
  assumes "record_collisions env dir entries d = Inr d'" and "differ_ok env new d"
    and "\<And>entry. entry \<in> set entries \<Longrightarrow> read_at new (dir_child dir (te_name entry)) = visible_entry (te_payload entry)"
  shows "moves env new {} {} d d'"
  using assms
proof (induction env dir entries d rule: record_collisions.induct)
  case (2 env dir entry entries d)
  let ?d = "note_collision env (dir_child dir (te_name entry)) (te_payload entry) d"
  have first: "moves env new {} {} d ?d" using 2(3,4) by (intro note_collision_moves) auto
  have "record_collisions env dir entries ?d = Inr d'" "validate (dn_limits env) (dir_child dir (te_name entry)) = Inr ()"
    using 2(2) by (auto simp: Let_def split: sum.splits)
  then have "moves env new {} {} ?d d'" using 2(1)[OF refl _ _ moves_ok[OF first]] 2(4) by auto
  with first show ?case using moves_trans by fastforce
qed (simp add: moves_refl)

section \<open>One side\<close>

text \<open>What an entry of an opened node contributes to a manifest \<open>f\<close> that the node's key denotes.\<close>

definition entry_reads :: "('b, 's) diff_env \<Rightarrow> flat \<Rightarrow> string \<Rightarrow> TreeEntryPayload \<Rightarrow> bool" where
  "entry_reads env f n payload \<longleftrightarrow> path_component n \<and> f [n] = visible_entry payload
     \<and> (case payload_child payload of None \<Rightarrow> sub f n = Map.empty | Some child \<Rightarrow> denotes env child (sub f n))"

lemma denotes_entries:
  assumes "denotes env key f" and "opens env key node"
  shows "f [] = None" and "payload_at node n = Some payload \<Longrightarrow> entry_reads env f n payload"
    and "payload_at node n = None \<Longrightarrow> f [n] = None \<and> sub f n = Map.empty"
proof -
  from assms(1) obtain node' where f: "opens env key node'" "f [] = None" "\<And>n. f [n] = visible_at node' n"
    "\<And>n. child_key node' n = None \<Longrightarrow> sub f n = Map.empty" "\<And>n child. child_key node' n = Some child \<Longrightarrow> denotes env child (sub f n)"
    by (rule denotesE) blast
  have "node' = node" by (rule opens_unique[OF f(1) assms(2)])
  note f = f[unfolded this visible_at_def child_key_def]
  show "f [] = None" by (rule f(2))
  show "entry_reads env f n payload" if at: "payload_at node n = Some payload"
    using f(3)[of n] f(4)[of n] f(5)[of n] at opens_names(2)[OF assms(2)]
    by (auto simp: entry_reads_def payload_at_iff[OF assms(2)] split: option.split)
  show "f [n] = None \<and> sub f n = Map.empty" if "payload_at node n = None"
    using f(3)[of n] f(4)[of n] that by simp
qed

lemma read_at_name:
  assumes "relative new cs = f" and "valid_path cs" and "path_component n"
  shows "read_at new (join_path (cs @ [n])) = f [n]"
  using assms by (auto simp: read_at_join relative_def)

definition only_if :: "bool \<Rightarrow> 'a set \<Rightarrow> 'a set" where
  "only_if b A = (if b then A else {})"

lemma only_if_simps [simp]: "only_if b {} = {}" "only_if b (A \<union> B) = only_if b A \<union> only_if b B" "only_if True A = A" "only_if False A = {}"
  by (auto simp: only_if_def)

abbreviation whole :: "flat \<Rightarrow> string list set" where
  "whole f \<equiv> differing f Map.empty"

lemma enumerate_entry_moves:
  assumes run: "enumerate_entry env down adding (join_path (cs @ [n])) payload d = Inr d'" and ok: "differ_ok env new d"
    and reads: "entry_reads env f n payload"
    and down: "\<And>child d d'. payload_child payload = Some child \<Longrightarrow> down (join_path (cs @ [n])) child d = Inr d' \<Longrightarrow> differ_ok env new d \<Longrightarrow>
      moves env new (under_dir (cs @ [n]) (whole (sub f n))) (only_if adding (under_dir (cs @ [n]) (whole (sub f n)))) d d'"
    and adding: "adding \<Longrightarrow> read_at new (join_path (cs @ [n])) = f [n]"
  shows "moves env new (under_dir cs (branch n (whole f))) (only_if adding (under_dir cs (branch n (whole f)))) d d'"
proof -
  let ?T = "if f [n] = None then {} else {join_path (cs @ [n])}"
  obtain d1 where d1: "(case visible_entry payload of None \<Rightarrow> Inr d
      | Some visible \<Rightarrow> if adding then diff_emit env (join_path (cs @ [n])) visible d else Inr (touch (join_path (cs @ [n])) d)) = Inr d1"
    and rest: "(case payload_child payload of None \<Rightarrow> Inr d1 | Some node \<Rightarrow> down (join_path (cs @ [n])) node d1) = Inr d'"
    using run by (auto simp: enumerate_entry_def split: sum.splits)
  have first: "moves env new ?T (only_if adding ?T) d d1"
    using d1 ok reads adding moves_refl[OF ok] moves_touch[OF ok] moves_emit[OF _ ok]
    by (auto simp: entry_reads_def split: option.splits if_splits)
  have "moves env new (under_dir (cs @ [n]) (whole (sub f n))) (only_if adding (under_dir (cs @ [n]) (whole (sub f n)))) d1 d'"
    using rest reads down[OF _ _ moves_ok[OF first]] moves_refl[OF moves_ok[OF first]]
    by (auto simp: entry_reads_def split: option.splits)
  from moves_trans[OF first this] show ?thesis by (simp add: under_branch)
qed

lemma enumerate_entries_moves:
  assumes "enumerate_entries env down adding (join_path cs) entries d = Inr d'" and "differ_ok env new d" and cs: "valid_path cs"
    and reads: "\<And>entry. entry \<in> set entries \<Longrightarrow> entry_reads env f (te_name entry) (te_payload entry)"
    and down: "\<And>n child d d'. path_component n \<Longrightarrow> denotes env child (sub f n) \<Longrightarrow> down (join_path (cs @ [n])) child d = Inr d' \<Longrightarrow>
      differ_ok env new d \<Longrightarrow>
      moves env new (under_dir (cs @ [n]) (whole (sub f n))) (only_if adding (under_dir (cs @ [n]) (whole (sub f n)))) d d'"
    and adding: "\<And>n. adding \<Longrightarrow> path_component n \<Longrightarrow> read_at new (join_path (cs @ [n])) = f [n]"
  shows "moves env new (\<Union>n \<in> te_name ` set entries. under_dir cs (branch n (whole f)))
    (only_if adding (\<Union>n \<in> te_name ` set entries. under_dir cs (branch n (whole f)))) d d'"
  using assms(1,2) reads
proof (induction entries arbitrary: d)
  case (Cons entry entries)
  let ?n = "te_name entry"
  obtain d1 where d1: "enumerate_entry env down adding (join_path (cs @ [?n])) (te_payload entry) d = Inr d1"
    and rest: "enumerate_entries env down adding (join_path cs) entries d1 = Inr d'"
    using Cons.prems(1) by (auto simp: dir_child_join[OF cs] split: sum.splits)
  have er: "entry_reads env f ?n (te_payload entry)" using Cons.prems(3) by simp
  have first: "moves env new (under_dir cs (branch ?n (whole f))) (only_if adding (under_dir cs (branch ?n (whole f)))) d d1"
    using er by (intro enumerate_entry_moves[OF d1 Cons.prems(2) er] down adding) (auto simp: entry_reads_def)
  from moves_trans[OF first Cons.IH[OF rest moves_ok[OF first]]] Cons.prems(3) show ?case by simp
qed (simp add: moves_refl)

lemma enumerate_tree_moves:
  assumes "enumerate_tree env adding levels (join_path cs) key d = Inr d'" and "denotes env key f" and "differ_ok env new d"
    and "valid_path cs" and "adding \<Longrightarrow> relative new cs = f"
  shows "moves env new (under_dir cs (whole f)) (only_if adding (under_dir cs (whole f))) d d'"
  using assms
proof (induction levels arbitrary: cs key f d d')
  case (Suc levels)
  let ?side = "if adding then Side_New else Side_Old"
  obtain node d1 d2 d3 where d1: "diff_open_node env key ?side True d = Inr (node, d1)" and d2: "count_node env node adding d1 = Inr d2"
    and d3: "(if adding then record_collisions env (join_path cs) (tn_entries node) d2 else Inr d2) = Inr d3"
    and rest: "enumerate_entries env (enumerate_tree env adding levels) adding (join_path cs) (tn_entries node) d3 = Inr d'"
    using Suc.prems(1) by (auto split: sum.splits)
  from diff_open_node_moves[OF d1 Suc.prems(3)] have opened: "opens env key node" and m1: "moves env new {} {} d d1" by auto
  note reads = denotes_entries[OF Suc.prems(2) opened]
  have at: "entry_reads env f (te_name entry) (te_payload entry)" if "entry \<in> set (tn_entries node)" for entry
    using reads(2) that payload_at_iff[OF opened] by blast
  have m2: "moves env new {} {} d1 d2" by (rule count_node_moves[OF d2 moves_ok[OF m1]])
  have look: "read_at new (join_path (cs @ [n])) = f [n]" if "adding" "path_component n" for n
    using read_at_name[OF Suc.prems(5)[OF that(1)] Suc.prems(4) that(2)] .
  have m3: "moves env new {} {} d2 d3"
  proof (cases adding)
    case True
    with d3 have "record_collisions env (join_path cs) (tn_entries node) d2 = Inr d3" by simp
    from record_collisions_moves[OF this moves_ok[OF m2]] show ?thesis
      using look[OF True] at by (auto simp: dir_child_join[OF Suc.prems(4)] entry_reads_def)
  qed (use d3 moves_refl[OF moves_ok[OF m2]] in simp)
  have m4: "moves env new (\<Union>n \<in> te_name ` set (tn_entries node). under_dir cs (branch n (whole f)))
      (only_if adding (\<Union>n \<in> te_name ` set (tn_entries node). under_dir cs (branch n (whole f)))) d3 d'"
  proof (rule enumerate_entries_moves[OF rest moves_ok[OF m3] Suc.prems(4) at])
    fix n child d d' assume n: "path_component n" "denotes env child (sub f n)"
      "enumerate_tree env adding levels (join_path (cs @ [n])) child d = Inr d'" "differ_ok env new d"
    show "moves env new (under_dir (cs @ [n]) (whole (sub f n))) (only_if adding (under_dir (cs @ [n]) (whole (sub f n)))) d d'"
      by (rule Suc.IH[OF n(3,2,4)]) (use Suc.prems(4,5) n(1) in \<open>auto simp: sub_relative\<close>)
  qed (use look in auto)
  have cover: "under_dir cs (whole f) = (\<Union>n \<in> te_name ` set (tn_entries node). under_dir cs (branch n (whole f)))"
    by (rule differing_branches) (use reads(1,3) payload_at_None[of node] in auto)
  from moves_trans[OF m1 moves_trans[OF m2 moves_trans[OF m3 m4]]] show ?case unfolding cover by simp
qed simp

section \<open>Both sides\<close>

text \<open>The paths at which two manifests differ below one name, all taken from the new one.\<close>

abbreviation diff_moves :: "('b, 's) diff_env \<Rightarrow> flat \<Rightarrow> string list \<Rightarrow> string list set \<Rightarrow> TreeDiffer \<Rightarrow> TreeDiffer \<Rightarrow> bool" where
  "diff_moves env new cs ps d d' \<equiv> moves env new (under_dir cs ps) (under_dir cs ps) d d'"

definition proper_flat :: "flat \<Rightarrow> bool" where
  "proper_flat f \<longleftrightarrow> (\<forall>p. f p \<noteq> None \<longrightarrow> valid_path p \<and> p \<noteq> [])"

lemma denotes_proper: "denotes env key f \<Longrightarrow> proper_flat f"
  unfolding proper_flat_def using denotes_valid by blast

lemma read_at_below:
  assumes "relative new cs = g" and "valid_path cs" and "valid_path p" and "p \<noteq> []"
  shows "read_at new (join_path (cs @ p)) = g p"
  using assms by (auto simp: read_at_join relative_def)

lemma branch_replaced:
  assumes "f [n] \<noteq> g [n]" and "sub f n = Map.empty \<or> sub g n = Map.empty"
  shows "branch n (differing f g) = branch n (whole f) \<union> branch n (whole g)"
proof -
  have same: "f p = g p \<longleftrightarrow> f p = None \<and> g p = None" if "p \<noteq> []" "hd p = n" for p
  proof -
    from that obtain q where p: "p = n # q" by (cases p) auto
    show ?thesis
    proof (cases "q = []")
      case False
      with assms(2) have "f p = None \<or> g p = None" by (auto simp: p sub_eq_empty)
      then show ?thesis by auto
    qed (use p assms(1) in auto)
  qed
  have "p \<in> branch n (differing f g) \<longleftrightarrow> p \<in> branch n (whole f) \<union> branch n (whole g)" for p
  proof (cases "p \<noteq> [] \<and> hd p = n")
    case True
    with same[of p] show ?thesis by (simp add: branch_def differing_def)
  qed (auto simp: branch_def)
  then show ?thesis by blast
qed

lemma replaced_moves:
  assumes new: "relative new cs = g" and cs: "valid_path cs" and proper: "proper_flat f" "proper_flat g"
    and both: "branch n (differing f g) = branch n (whole f) \<union> branch n (whole g)"
    and removed: "moves env new (under_dir cs (branch n (whole f))) {} d d1" and added: "diff_moves env new cs (branch n (whole g)) d1 d2"
  shows "diff_moves env new cs (branch n (differing f g)) d d2"
proof (rule moves_cong[OF moves_trans[OF removed added]])
  have split: "under_dir cs (branch n (differing f g)) = under_dir cs (branch n (whole f)) \<union> under_dir cs (branch n (whole g))"
    unfolding both by simp
  then show "under_dir cs (branch n (whole f)) \<union> under_dir cs (branch n (whole g)) = under_dir cs (branch n (differing f g))" by simp
  fix path assume some: "read_at new path \<noteq> None"
  have "path \<in> under_dir cs (branch n (whole g))" if "path \<in> under_dir cs (branch n (whole f))"
  proof -
    from that obtain p where p: "path = join_path (cs @ p)" "f p \<noteq> None" "p \<noteq> []" "hd p = n"
      by (auto simp: under_dir_def branch_def differing_def)
    with proper(1) have "valid_path p" by (simp add: proper_flat_def)
    from read_at_below[OF new cs this p(3)] some p show ?thesis by (auto simp: under_dir_def branch_def differing_def)
  qed
  then show "path \<in> {} \<union> under_dir cs (branch n (whole g)) \<longleftrightarrow> path \<in> under_dir cs (branch n (differing f g))"
    unfolding split by blast
qed

text \<open>The premises that the comparison of one name shares.\<close>

definition compares :: "('b, 's) diff_env \<Rightarrow> flat \<Rightarrow> string list \<Rightarrow> flat \<Rightarrow> flat \<Rightarrow> bool" where
  "compares env new cs f g \<longleftrightarrow> relative new cs = g \<and> valid_path cs \<and> proper_flat f \<and> proper_flat g"

lemma child_moves:
  assumes "enumerate_entry env (enumerate_tree env adding levels) adding (join_path (cs @ [n])) payload d = Inr d'"
    and "differ_ok env new d" and reads: "entry_reads env f n payload" and "valid_path cs" and new: "adding \<Longrightarrow> relative new cs = f"
  shows "moves env new (under_dir cs (branch n (whole f))) (only_if adding (under_dir cs (branch n (whole f)))) d d'"
proof (rule enumerate_entry_moves[OF assms(1-3)])
  show "read_at new (join_path (cs @ [n])) = f [n]" if adding
    using read_at_name[OF new[OF that] assms(4)] reads by (simp add: entry_reads_def)
  fix child d d' assume child: "payload_child payload = Some child"
    "enumerate_tree env adding levels (join_path (cs @ [n])) child d = Inr d'" "differ_ok env new d"
  from reads child(1) have "denotes env child (sub f n)" "valid_path (cs @ [n])" using assms(4) by (auto simp: entry_reads_def)
  then show "moves env new (under_dir (cs @ [n]) (whole (sub f n))) (only_if adding (under_dir (cs @ [n]) (whole (sub f n)))) d d'"
    by (rule enumerate_tree_moves[OF child(2) _ child(3)]) (simp flip: new add: sub_relative)
qed

lemma compare_dirs_moves:
  assumes first: "(if f [n] = g [n] then d1 = d else moves env new {join_path (cs @ [n])} {join_path (cs @ [n])} d d1)" and ok: "differ_ok env new d"
    and rest: "differ_ok env new d1 \<Longrightarrow> diff_moves env new (cs @ [n]) (differing (sub f n) (sub g n)) d1 d'"
  shows "diff_moves env new cs (branch n (differing f g)) d d'"
proof (cases "f [n] = g [n]")
  case True
  with first ok rest show ?thesis by (simp add: under_branch)
next
  case False
  with first have "moves env new {join_path (cs @ [n])} {join_path (cs @ [n])} d d1" by simp
  from moves_trans[OF this rest[OF moves_ok[OF this]]] False show ?thesis by (simp add: under_branch)
qed


definition down_ok :: "('b, 's) diff_env \<Rightarrow> flat \<Rightarrow> (DirPath \<Rightarrow> ManifestKey \<Rightarrow> ManifestKey \<Rightarrow> TreeDiffer \<Rightarrow> TreeError + TreeDiffer) \<Rightarrow> bool" where
  "down_ok env new down \<longleftrightarrow> (\<forall>cs old_key new_key f g d d'. down (join_path cs) old_key new_key d = Inr d' \<longrightarrow> denotes env old_key f \<longrightarrow>
     denotes env new_key g \<longrightarrow> differ_ok env new d \<longrightarrow> valid_path cs \<longrightarrow> relative new cs = g \<longrightarrow>
     diff_moves env new cs (differing f g) d d')"

lemma compare_entry_moves:
  assumes run: "compare_entry env levels down (join_path (cs @ [n])) before after d = Inr d'" and ok: "differ_ok env new d"
    and cmp: "compares env new cs f g" and reads: "entry_reads env f n before" "entry_reads env g n after"
    and ne: "before \<noteq> after" and down: "down_ok env new down"
  shows "diff_moves env new cs (branch n (differing f g)) d d'"
proof -
  let ?path = "join_path (cs @ [n])"
  have here: "relative new cs = g" "valid_path cs" "proper_flat f" "proper_flat g" using cmp by (auto simp: compares_def)
  have n: "path_component n" using reads by (simp add: entry_reads_def)
  have at: "read_at new ?path = g [n]" by (rule read_at_name[OF here(1,2) n])
  have below: "diff_moves env new (cs @ [n]) (differing (sub f n) (sub g n)) d1 d'"
    if "down ?path before_child after_child d1 = Inr d'" "payload_child before = Some before_child" "payload_child after = Some after_child"
      "differ_ok env new d1" for d1 before_child after_child
    using down that reads here n unfolding down_ok_def by (auto simp: entry_reads_def sub_relative)
  show ?thesis
  proof (cases "payload_child before = None \<or> payload_child after = None")
    case True
    with run obtain d1 where d1: "enumerate_entry env (enumerate_tree env False levels) False ?path before d = Inr d1"
      and d2: "enumerate_entry env (enumerate_tree env True levels) True ?path after d1 = Inr d'"
      by (cases before; cases after) (auto simp: compare_entry_def split: sum.splits)
    have differ: "f [n] \<noteq> g [n]" using True ne reads by (cases before; cases after) (auto simp: entry_reads_def)
    have empty: "sub f n = Map.empty \<or> sub g n = Map.empty" using True reads by (auto simp: entry_reads_def)
    have m1: "moves env new (under_dir cs (branch n (whole f))) {} d d1" using child_moves[OF d1 ok reads(1) here(2)] by simp
    have m2: "diff_moves env new cs (branch n (whole g)) d1 d'" using child_moves[OF d2 moves_ok[OF m1] reads(2) here(2)] here(1) by simp
    show ?thesis by (rule replaced_moves[OF here branch_replaced[OF differ empty] m1 m2])
  next
    case False
    then obtain before_child after_child where children: "payload_child before = Some before_child" "payload_child after = Some after_child"
      by auto
    obtain d1 where d1: "if f [n] = g [n] then d1 = d else moves env new {?path} {?path} d d1" and rest: "down ?path before_child after_child d1 = Inr d'"
    proof (cases "f [n] = g [n]")
      case True
      with run children reads have "down ?path before_child after_child d = Inr d'"
        by (cases before; cases after) (auto simp: compare_entry_def entry_reads_def)
      with that[of d] True show ?thesis by simp
    next
      case False
      show ?thesis
      proof (cases "g [n]")
        case None
        with False run children reads have "down ?path before_child after_child (touch ?path d) = Inr d'"
          by (cases before; cases after) (auto simp: compare_entry_def entry_reads_def)
        moreover have "moves env new {?path} {?path} d (touch ?path d)"
          by (rule moves_cong[OF moves_touch[OF ok]]) (use None at in auto)
        ultimately show ?thesis using that[of "touch ?path d"] False by simp
      next
        case (Some entry)
        with False run children reads obtain d1 where "diff_emit env ?path entry d = Inr d1" "down ?path before_child after_child d1 = Inr d'"
          by (cases before; cases after) (auto simp: compare_entry_def entry_reads_def split: sum.splits if_splits)
        with that[of d1] False moves_emit[OF _ ok] Some at show ?thesis by simp
      qed
    qed
    show ?thesis by (rule compare_dirs_moves[OF d1 ok below[OF rest children]])
  qed
qed

lemma compare_name_moves:
  assumes run: "compare_name env levels down (join_path (cs @ [n])) before after d = Inr d'" and ok: "differ_ok env new d"
    and cmp: "compares env new cs f g" and down: "down_ok env new down"
    and before: "case before of None \<Rightarrow> f [n] = None \<and> sub f n = Map.empty | Some payload \<Rightarrow> entry_reads env f n payload"
    and after: "case after of None \<Rightarrow> g [n] = None \<and> sub g n = Map.empty | Some payload \<Rightarrow> entry_reads env g n payload"
  shows "diff_moves env new cs (branch n (differing f g)) d d'"
proof -
  have here: "relative new cs = g" "valid_path cs" "proper_flat f" "proper_flat g" using cmp by (auto simp: compares_def)
  have same: "branch n (differing f g) = branch n (whole h)" if "f [n] = None \<and> sub f n = Map.empty \<and> h = g \<or> g [n] = None \<and> sub g n = Map.empty \<and> h = f" for h
  proof -
    have "f (n # q) = g (n # q) \<longleftrightarrow> h (n # q) = None" for q
      using that by (cases "q = []") (auto simp: sub_eq_empty)
    then have "p \<in> branch n (differing f g) \<longleftrightarrow> p \<in> branch n (whole h)" for p
      by (cases p) (auto simp: branch_def differing_def)
    then show ?thesis by blast
  qed
  show ?thesis
  proof (cases before)
    case None
    show ?thesis
    proof (cases after)
      case (Some payload)
      with run None have "enumerate_entry env (enumerate_tree env True levels) True (join_path (cs @ [n])) payload d = Inr d'"
        by (simp add: compare_name_def)
      from child_moves[OF this ok _ here(2)] Some after here(1) before None show ?thesis by (simp add: same[of g])
    qed (use None run moves_refl[OF ok] before after in \<open>simp add: compare_name_def under_branch\<close>)
  next
    case (Some payload)
    show ?thesis
    proof (cases after)
      case None
      with run Some have "enumerate_entry env (enumerate_tree env False levels) False (join_path (cs @ [n])) payload d = Inr d'"
        by (simp add: compare_name_def)
      from child_moves[OF this ok _ here(2)] Some before have m: "moves env new (under_dir cs (branch n (whole f))) {} d d'" by simp
      have "branch n (whole g) = {}" using None after branch_empty[of g n] by simp
      with None after same[of f] show ?thesis
        by (intro replaced_moves[OF here _ m]) (auto intro: moves_refl[OF moves_ok[OF m]])
    next
      case (Some payload')
      note after_some = Some
      show ?thesis
      proof (cases "payload = payload'")
        case True
        with before after \<open>before = Some payload\<close> Some have "f [n] = g [n]" "sub f n = sub g n"
          by (auto simp: entry_reads_def dest: denotes_unique split: option.splits)
        with run True \<open>before = Some payload\<close> Some moves_refl[OF ok] show ?thesis by (simp add: compare_name_def under_branch)
      next
        case False
        with run \<open>before = Some payload\<close> Some before after show ?thesis
          by (intro compare_entry_moves[OF _ ok cmp _ _ False down]) (auto simp: compare_name_def)
      qed
    qed
  qed
qed

lemma compare_names_moves:
  assumes "compare_names env levels down (join_path cs) old after ns d = Inr d'" and "differ_ok env new d"
    and cmp: "compares env new cs f g" and down: "down_ok env new down"
    and before: "\<And>n. case map_of old n of None \<Rightarrow> f [n] = None \<and> sub f n = Map.empty | Some payload \<Rightarrow> entry_reads env f n payload"
    and after: "\<And>n. case map_of after n of None \<Rightarrow> g [n] = None \<and> sub g n = Map.empty | Some payload \<Rightarrow> entry_reads env g n payload"
  shows "moves env new (\<Union>n \<in> set ns. under_dir cs (branch n (differing f g))) (\<Union>n \<in> set ns. under_dir cs (branch n (differing f g))) d d'"
  using assms(1,2)
proof (induction ns arbitrary: d)
  case (Cons n ns)
  have cs: "valid_path cs" using cmp by (simp add: compares_def)
  obtain d1 where d1: "compare_name env levels down (join_path (cs @ [n])) (map_of old n) (map_of after n) d = Inr d1"
    and rest: "compare_names env levels down (join_path cs) old after ns d1 = Inr d'"
    using Cons.prems(1) by (auto simp: dir_child_join[OF cs] split: sum.splits)
  have first: "diff_moves env new cs (branch n (differing f g)) d d1"
    by (rule compare_name_moves[OF d1 Cons.prems(2) cmp down before after])
  from moves_trans[OF first Cons.IH[OF rest moves_ok[OF first]]] show ?case by simp
qed (simp add: moves_refl)

lemma entries_by_name_at:
  assumes "opens env key node"
  shows "map_of (entries_by_name node) = payload_at node"
proof -
  have "distinct (map fst (map (\<lambda>entry. (te_name entry, te_payload entry)) (tn_entries node)))"
    using opens_names(1)[OF assms] by (simp add: comp_def)
  then show ?thesis by (simp add: entries_by_name_def map_of_bt_collect map_of_rev_distinct payload_at_def)
qed

lemma all_names_set: "set (all_names old new) = dom (map_of old) \<union> dom (map_of new)"
proof -
  have "fst ` set (bt_collect kvs) = fst ` set kvs" for kvs :: "(string \<times> unit) list"
    using dom_map_of_conv_image_fst[of "bt_collect kvs"] dom_map_of_conv_image_fst[of "rev kvs"] by (simp add: map_of_bt_collect)
  then show ?thesis by (simp add: all_names_def dom_map_of_conv_image_fst image_Un image_image case_prod_beta)
qed

lemma compare_tree_moves:
  assumes "compare_tree env levels (join_path cs) old_key new_key d = Inr d'" and "denotes env old_key f" and "denotes env new_key g"
    and "differ_ok env new d" and "valid_path cs" and "relative new cs = g"
  shows "diff_moves env new cs (differing f g) d d'"
  using assms
proof (induction levels arbitrary: cs old_key new_key f g d d')
  case 0
  then have "f = g" using denotes_unique by (auto split: if_splits)
  with 0 show ?case by (auto simp: moves_refl split: if_splits)
next
  case (Suc levels)
  show ?case
  proof (cases "old_key = new_key")
    case True
    with Suc.prems(2,3) have "f = g" using denotes_unique by auto
    with Suc.prems(1,4) True show ?thesis by (simp add: moves_refl)
  next
    case False
    with Suc.prems(1) obtain old_node new_node d1 d2 d3 d4 d5 where
      d1: "diff_open_node env old_key Side_Old True d = Inr (old_node, d1)" and d2: "count_node env old_node False d1 = Inr d2"
      and d3: "diff_open_node env new_key Side_New True d2 = Inr (new_node, d3)" and d4: "count_node env new_node True d3 = Inr d4"
      and d5: "record_collisions env (join_path cs) (map (\<lambda>(name, payload). \<lparr>te_name = name, te_payload = payload\<rparr>) (entries_by_name new_node)) d4 = Inr d5"
      and rest: "compare_names env levels (compare_tree env levels) (join_path cs) (entries_by_name old_node) (entries_by_name new_node)
        (all_names (entries_by_name old_node) (entries_by_name new_node)) d5 = Inr d'"
      by (auto simp: Let_def split: sum.splits)
    from diff_open_node_moves[OF d1 Suc.prems(4)] have o1: "opens env old_key old_node" and m1: "moves env new {} {} d d1" by auto
    have m2: "moves env new {} {} d1 d2" by (rule count_node_moves[OF d2 moves_ok[OF m1]])
    from diff_open_node_moves[OF d3 moves_ok[OF m2]] have o2: "opens env new_key new_node" and m3: "moves env new {} {} d2 d3" by auto
    have m4: "moves env new {} {} d3 d4" by (rule count_node_moves[OF d4 moves_ok[OF m3]])
    note old = denotes_entries[OF Suc.prems(2) o1] and after = denotes_entries[OF Suc.prems(3) o2]
    have m5: "moves env new {} {} d4 d5"
    proof (rule record_collisions_moves[OF d5 moves_ok[OF m4]])
      fix entry assume "entry \<in> set (map (\<lambda>(name, payload). \<lparr>te_name = name, te_payload = payload\<rparr>) (entries_by_name new_node))"
      then have "payload_at new_node (te_name entry) = Some (te_payload entry)"
        by (auto simp: entries_by_name_at[OF o2, symmetric] bt_set_iff[OF bt_collect_ok] entries_by_name_def)
      from after(2)[OF this] show "read_at new (dir_child (join_path cs) (te_name entry)) = visible_entry (te_payload entry)"
        using read_at_name[OF Suc.prems(6,5)] by (simp add: dir_child_join[OF Suc.prems(5)] entry_reads_def)
    qed
    have "compares env new cs f g"
      using Suc.prems denotes_proper by (auto simp: compares_def)
    moreover have "down_ok env new (compare_tree env levels)" unfolding down_ok_def using Suc.IH by blast
    ultimately have m6: "moves env new (\<Union>n \<in> dom (payload_at old_node) \<union> dom (payload_at new_node). under_dir cs (branch n (differing f g)))
        (\<Union>n \<in> dom (payload_at old_node) \<union> dom (payload_at new_node). under_dir cs (branch n (differing f g))) d5 d'"
      using compare_names_moves[OF rest moves_ok[OF m5]] old(2,3) after(2,3)
      by (simp add: all_names_set entries_by_name_at[OF o1] entries_by_name_at[OF o2] split: option.split)
    have cover: "under_dir cs (differing f g) = (\<Union>n \<in> dom (payload_at old_node) \<union> dom (payload_at new_node). under_dir cs (branch n (differing f g)))"
      by (rule differing_branches) (use old(1,3) after(1,3) in \<open>auto simp: domIff\<close>)
    from moves_trans[OF m1 moves_trans[OF m2 moves_trans[OF m3 moves_trans[OF m4 moves_trans[OF m5 m6]]]]]
    show ?thesis unfolding cover by simp
  qed
qed

section \<open>Dirty paths and collisions\<close>

lemma resolve_moves:
  assumes "resolve env path components key d = Inr d'" and "denotes env key g" and "differ_ok env new d"
    and "components \<noteq> []" and "g components = read_at new path"
  shows "moves env new {} {path} d d'"
  using assms
proof (induction env path components key d arbitrary: g rule: resolve.induct)
  case (2 env path component components key d)
  then obtain node d1 where d1: "diff_open_node env key Side_New False d = Inr (node, d1)"
    by (auto split: sum.splits)
  from diff_open_node_moves[OF d1 2(4)] have opened: "opens env key node" and m1: "moves env new {} {} d d1" by auto
  note at = denotes_entries(2,3)[OF 2(3) opened, of component]
  have unread: "moves env new {} {path} d d1" if "read_at new path = None"
    by (rule moves_cong[OF m1]) (use that in auto)
  show ?case
  proof (cases "List.find (\<lambda>entry. te_name entry = component) (tn_entries node)")
    case None
    then have "payload_at node component = None" by (simp add: find_payload)
    from at(2)[OF this] have "g (component # components) = None" by (cases "components = []") (simp_all add: sub_eq_empty)
    with 2(2,6) d1 None unread show ?thesis by simp
  next
    case (Some entry)
    then have "payload_at node component = Some (te_payload entry)" by (simp add: find_payload)
    note reads = at(1)[OF this]
    show ?thesis
    proof (cases "components = []")
      case True
      with reads 2(6) have "read_at new path = visible_entry (te_payload entry)" by (simp add: entry_reads_def)
      with 2(2) d1 Some True unread moves_trans[OF m1 moves_take[OF moves_ok[OF m1]]] show ?thesis
        by (auto split: option.splits)
    next
      case False
      then have g: "g (component # components) = sub g component components" by (simp add: sub_def)
      show ?thesis
      proof (cases "payload_child (te_payload entry)")
        case None
        with reads 2(2,6) d1 Some False g unread show ?thesis by (simp add: entry_reads_def)
      next
        case (Some child)
        note child = Some
        with reads have "denotes env child (sub g component)" by (simp add: entry_reads_def)
        moreover have "resolve env path components child d1 = Inr d'"
          using 2(2) d1 \<open>List.find _ _ = Some entry\<close> False child by simp
        ultimately have "moves env new {} {path} d1 d'"
          using 2(1)[OF d1 refl \<open>List.find _ _ = Some entry\<close> False child] moves_ok[OF m1] False 2(6) g by simp
        from moves_trans[OF m1 this] show ?thesis by simp
      qed
    qed
  qed
qed simp

lemma resolve_dirty_moves:
  assumes "resolve_dirty env root paths d = Inr d'" and "denotes env root new" and "differ_ok env new d"
  shows "moves env new (set paths) (set paths) d d'"
  using assms
proof (induction paths arbitrary: d)
  case (Cons path paths)
  then obtain d1 where d1: "resolve env path (split_on slash path) root d = Inr d1" and rest: "resolve_dirty env root paths (touch path d1) = Inr d'"
    by (auto split: sum.splits)
  have m1: "moves env new {} {path} d d1"
    by (rule resolve_moves[OF d1 Cons.prems(2,3)]) (simp_all add: read_at_def)
  have m2: "moves env new {path} {} d1 (touch path d1)" by (rule moves_touch[OF moves_ok[OF m1]])
  from moves_trans[OF m1 moves_trans[OF m2 Cons.IH[OF rest Cons.prems(2) moves_ok[OF m2]]]] show ?case by simp
qed (simp add: moves_refl)

lemma add_collided_fields: "df_collision_entries (add_collided path d) = df_collision_entries d"
  by (simp add: add_collided_def touch_def Let_def split: option.split)

lemma add_collided_moves:
  assumes "differ_ok env new d" and "\<And>path. path \<in> set paths \<Longrightarrow> map_of (df_collision_entries d) path = read_at new path"
  shows "moves env new (set paths) (set paths) d (fold add_collided paths d)"
  using assms
proof (induction paths arbitrary: d)
  case (Cons path paths)
  have here: "map_of (df_collision_entries d) path = read_at new path" using Cons.prems(2) by simp
  have m1: "moves env new {path} {} d (touch path d)" by (rule moves_touch[OF Cons.prems(1)])
  have m2: "moves env new {path} {path} d (add_collided path d)"
  proof (cases "read_at new path")
    case None
    with here have "add_collided path d = touch path d" by (simp add: add_collided_def touch_def)
    with m1 None show ?thesis by (metis moves_cong empty_iff singletonD)
  next
    case (Some entry)
    with here have "add_collided path d = (touch path d)\<lparr>df_entries := bt_insert path entry (df_entries (touch path d))\<rparr>"
      by (simp add: add_collided_def touch_def)
    with moves_trans[OF m1 moves_take[OF moves_ok[OF m1] Some]] show ?thesis by simp
  qed
  have "moves env new (set paths) (set paths) (add_collided path d) (fold add_collided paths (add_collided path d))"
    by (rule Cons.IH[OF moves_ok[OF m2]]) (use Cons.prems(2) in \<open>simp add: add_collided_fields\<close>)
  from moves_trans[OF m2 this] show ?case by simp
qed (simp add: moves_refl)

lemma distinct_sorted_dedup: "sorted xs \<Longrightarrow> distinct (remdups_adj xs)" for xs :: "'a :: linorder list"
  by (induction xs rule: remdups_adj.induct) (auto simp: order.antisym)

lemma diff_collisions_paths:
  assumes ok: "differ_ok env new d" and c: "c \<in> set (diff_collisions (df_folded d))"
  shows "path \<in> set (pc_paths c) \<Longrightarrow> dn_fold env path = pc_folded c \<and> map_of (df_collision_entries d) path = read_at new path"
    and "distinct (pc_paths c) \<and> 1 < length (pc_paths c)"
proof -
  from c obtain paths where p: "(pc_folded c, paths) \<in> set (df_folded d)" "pc_paths c = remdups_adj (sort paths)" "1 < length (pc_paths c)"
    by (auto simp: diff_collisions_def)
  have "map_of (df_folded d) (pc_folded c) = Some paths"
    using p(1) ok bt_set_iff[of "df_folded d"] by (simp add: differ_ok_def)
  with ok p(2) show "path \<in> set (pc_paths c) \<Longrightarrow> dn_fold env path = pc_folded c \<and> map_of (df_collision_entries d) path = read_at new path"
    by (simp add: differ_ok_def)
  show "distinct (pc_paths c) \<and> 1 < length (pc_paths c)" using p(2,3) by (simp add: distinct_sorted_dedup)
qed

lemma new_differ_ok: "differ_ok env new new_differ"
  by (simp add: differ_ok_def new_differ_def)

definition collided :: "PathCollision list \<Rightarrow> WorkspacePath set" where
  "collided clashes = (\<Union>c \<in> set clashes. set (pc_paths c))"

lemma diff_tree_exact:
  assumes run: "diff_tree env old_root new_root dirty_paths = Inr delta" and "finite dirty_paths"
    and old: "denotes env old_root old" and new: "denotes env new_root new"
  shows "td_touched delta = {path. read_at old path \<noteq> read_at new path} \<union> dirty_paths \<union> collided (td_collisions delta)"
    and "map_of (td_entries delta) = read_at new |` td_touched delta" and "bt_ok (td_entries delta)"
    and "c \<in> set (td_collisions delta) \<Longrightarrow> distinct (pc_paths c) \<and> 1 < length (pc_paths c) \<and> (\<forall>path \<in> set (pc_paths c). dn_fold env path = pc_folded c)"
proof -
  obtain d1 d2 where d1: "compare_tree env (Suc (max_depth (dn_limits env))) (join_path []) old_root new_root new_differ = Inr d1"
    and d2: "resolve_dirty env new_root (sorted_list_of_set dirty_paths) d1 = Inr d2"
    and delta: "td_collisions delta = diff_collisions (df_folded d2)"
      "td_entries delta = df_entries (fold add_collided (concat (map pc_paths (diff_collisions (df_folded d2)))) d2)"
      "td_touched delta = df_touched (fold add_collided (concat (map pc_paths (diff_collisions (df_folded d2)))) d2)"
    using run by (auto simp: diff_tree_def dir_root_def Let_def simp del: compare_tree.simps split: sum.splits)
  let ?ps = "concat (map pc_paths (diff_collisions (df_folded d2)))"
  have rel: "relative new [] = new" using denotes_valid[OF new, of "[]"] by (intro relative_Nil) blast
  have m1: "diff_moves env new [] (differing old new) new_differ d1"
    by (rule compare_tree_moves[OF d1 old new new_differ_ok _ rel]) simp
  have m2: "moves env new dirty_paths dirty_paths d1 d2"
    using resolve_dirty_moves[OF d2 new moves_ok[OF m1]] assms(2) by simp
  have m3: "moves env new (set ?ps) (set ?ps) d2 (fold add_collided ?ps d2)"
    by (rule add_collided_moves[OF moves_ok[OF m2]]) (use diff_collisions_paths(1)[OF moves_ok[OF m2]] in auto)
  have root: "under_dir [] (differing old new) = {path. read_at old path \<noteq> read_at new path}"
    using denotes_valid[OF old] denotes_valid[OF new] by (intro under_root) auto
  have ps: "set ?ps = collided (td_collisions delta)" by (simp add: delta(1) collided_def)
  from moves_trans[OF m1 moves_trans[OF m2 m3]]
  have all: "moves env new ({path. read_at old path \<noteq> read_at new path} \<union> (dirty_paths \<union> collided (td_collisions delta)))
      ({path. read_at old path \<noteq> read_at new path} \<union> (dirty_paths \<union> collided (td_collisions delta))) new_differ (fold add_collided ?ps d2)"
    by (simp only: root ps)
  then show touched: "td_touched delta = {path. read_at old path \<noteq> read_at new path} \<union> dirty_paths \<union> collided (td_collisions delta)"
    by (simp add: moves_def new_differ_def delta(3) Un_assoc)
  show "map_of (td_entries delta) = read_at new |` td_touched delta" and "bt_ok (td_entries delta)"
    using all unfolding touched by (simp_all add: moves_def new_differ_def delta(2) differ_ok_def Un_assoc)
  show "c \<in> set (td_collisions delta) \<Longrightarrow> distinct (pc_paths c) \<and> 1 < length (pc_paths c) \<and> (\<forall>path \<in> set (pc_paths c). dn_fold env path = pc_folded c)"
    using diff_collisions_paths[OF moves_ok[OF m2]] unfolding delta(1) by blast
qed

end
