(* ===== verification/Diff_Fetch.thy ===== *)
theory Diff_Fetch
  imports Diff_Exactness
begin

text \<open>
  A whole fetch returns the manifest that its root denotes, so that the comparison of two trees
  is the difference of the two fetches.
\<close>

section \<open>A whole walk\<close>

definition whole_walk :: "('b, 's) diff_env \<Rightarrow> ('b, 's) walk_env" where
  "whole_walk env = \<lparr>we_io = dn_io env, we_crypto = dn_crypto env, we_objects = dn_objects env, we_limits = dn_limits env,
     we_fold = dn_fold env, we_prune = None\<rparr>"

text \<open>A manifest placed below a directory.\<close>

definition embedded :: "string list \<Rightarrow> flat \<Rightarrow> flat" where
  "embedded cs f q = (if prefix cs q then f (drop (length cs) q) else None)"

definition single :: "string list \<Rightarrow> ManifestEntry option \<Rightarrow> flat" where
  "single cs v q = (if q = cs then v else None)"

text \<open>The part of a manifest below one name, and the two put together.\<close>

definition node_flat :: "string \<Rightarrow> ManifestEntry option \<Rightarrow> flat \<Rightarrow> flat" where
  "node_flat n v f p = (case p of [] \<Rightarrow> None | m # q \<Rightarrow> if m \<noteq> n then None else if q = [] then v else f q)"

lemma node_flat_simps [simp]:
  "node_flat n v f [] = None" "node_flat n v f [m] = (if m = n then v else None)"
  "f [] = None \<Longrightarrow> sub (node_flat n v f) n = f" "m \<noteq> n \<Longrightarrow> sub (node_flat n v f) m = Map.empty"
  by (auto simp: node_flat_def sub_def fun_eq_iff)

lemma read_at_add: "read_at (f ++ g) = read_at f ++ read_at g"
  by (rule ext) (simp add: read_at_def map_add_def split: option.split)

lemma embedded_node: "f [] = None \<Longrightarrow> embedded cs (node_flat n v f) = single (cs @ [n]) v ++ embedded (cs @ [n]) f"
proof
  fix q assume root: "f [] = None"
  show "embedded cs (node_flat n v f) q = (single (cs @ [n]) v ++ embedded (cs @ [n]) f) q"
  proof (cases "prefix cs q")
    case True
    then obtain p where q: "q = cs @ p" by (auto simp: prefix_def)
    show ?thesis
    proof (cases p)
      case (Cons m r)
      then show ?thesis using root by (cases "r = []") (auto simp: q embedded_def single_def node_flat_def map_add_def split: option.splits)
    qed (auto simp: q embedded_def single_def node_flat_def map_add_def)
  next
    case False
    then show ?thesis by (auto simp: embedded_def single_def map_add_def dest: append_prefixD)
  qed
qed

lemma read_at_single: "valid_path cs \<Longrightarrow> cs \<noteq> [] \<Longrightarrow> read_at (single cs v) = (\<lambda>path. if path = join_path cs then v else None)"
  using split_join[of cs] valid_no_slash[of cs] join_split by (auto simp: read_at_def single_def fun_eq_iff)

lemma embedded_add: "embedded cs (f ++ g) = embedded cs f ++ embedded cs g"
  by (rule ext) (simp add: embedded_def map_add_def split: option.split)

lemma embedded_empty [simp]: "embedded cs Map.empty = Map.empty"
  by (simp add: embedded_def fun_eq_iff)

lemma read_at_empty [simp]: "read_at Map.empty = Map.empty"
  by (simp add: read_at_def fun_eq_iff)

lemma entry_reads_cong: "f [n] = g [n] \<Longrightarrow> sub f n = sub g n \<Longrightarrow> entry_reads env f n payload = entry_reads env g n payload"
  by (simp only: entry_reads_def)

section \<open>What a walk adds\<close>

definition walk_adds :: "flat \<Rightarrow> walk \<Rightarrow> walk \<Rightarrow> bool" where
  "walk_adds f w w' \<longleftrightarrow> bt_ok (wk_entries w') \<and> map_of (wk_entries w') = map_of (wk_entries w) ++ read_at f"

lemma walk_adds_trans: "walk_adds f w w1 \<Longrightarrow> walk_adds g w1 w2 \<Longrightarrow> walk_adds (f ++ g) w w2"
  by (simp add: walk_adds_def read_at_add)

lemma walk_adds_none: "bt_ok (wk_entries w) \<Longrightarrow> wk_entries w' = wk_entries w \<Longrightarrow> walk_adds Map.empty w w'"
  by (simp add: walk_adds_def)

lemma emit_path_adds:
  assumes "emit_path env (join_path cs) entry w = Inr w'" and "bt_ok (wk_entries w)" and "valid_path cs" and "cs \<noteq> []"
  shows "walk_adds (single cs (Some entry)) w w'"
proof -
  have "wk_entries w' = bt_insert (join_path cs) entry (wk_entries w)"
    using assms(1) by (auto simp: emit_path_def split: sum.splits option.splits)
  then show ?thesis using assms(2-4)
    by (auto simp: walk_adds_def bt_insert_ok map_of_bt_insert read_at_single fun_eq_iff map_add_def)
qed

lemma open_node_opens:
  assumes "open_node (whole_walk env) key w = Inr (node, w')"
  shows "opens env key node \<and> wk_entries w' = wk_entries w"
  using assms by (auto simp: open_node_def opens_def whole_walk_def map_sum_Inr Let_def split: sum.splits if_splits prod.splits)

lemma count_record_entries: "count_record limits w = Inr w' \<Longrightarrow> wk_entries w' = wk_entries w"
  by (auto simp: count_record_def Let_def split: if_splits)

lemma walk_payload_adds:
  assumes run: "walk_payload env down (join_path (cs @ [n])) payload w = Inr w'" and ok: "bt_ok (wk_entries w)"
    and cs: "valid_path (cs @ [n])"
    and down: "\<And>child w w'. down (join_path (cs @ [n])) child w = Inr w' \<Longrightarrow> bt_ok (wk_entries w) \<Longrightarrow>
      \<exists>f. denotes denv child f \<and> walk_adds (embedded (cs @ [n]) f) w w'"
  shows "\<exists>f. f [] = None \<and> (\<forall>m. m \<noteq> n \<longrightarrow> f [m] = None \<and> sub f m = Map.empty) \<and> entry_reads denv f n payload \<and> walk_adds (embedded cs f) w w'"
proof -
  obtain w1 where w1: "walk_adds (single (cs @ [n]) (visible_entry payload)) w w1"
    and rest: "(case payload_child payload of None \<Rightarrow> Inr w1 | Some child \<Rightarrow> down (join_path (cs @ [n])) child w1) = Inr w'"
  proof (cases payload)
    case (Tree_Subtree child)
    with that[of w] run ok cs show ?thesis
      by (auto simp: walk_payload_def walk_adds_def read_at_single split: sum.splits)
  qed (use that run cs emit_path_adds[OF _ ok cs] in \<open>force simp: walk_payload_def split: sum.splits\<close>)+
  have ok1: "bt_ok (wk_entries w1)" using w1 by (simp add: walk_adds_def)
  obtain f where f: "f [] = None" "walk_adds (embedded (cs @ [n]) f) w1 w'"
    "case payload_child payload of None \<Rightarrow> f = Map.empty | Some child \<Rightarrow> denotes denv child f"
  proof (cases "payload_child payload")
    case None
    with that[of Map.empty] rest ok1 show ?thesis by (simp add: walk_adds_def)
  next
    case (Some child)
    with rest down[OF _ ok1] obtain f where "denotes denv child f" "walk_adds (embedded (cs @ [n]) f) w1 w'" by auto
    with that[of f] Some denotes_valid[of denv child f "[]"] show ?thesis by auto
  qed
  have "walk_adds (embedded cs (node_flat n (visible_entry payload) f)) w w'"
    using walk_adds_trans[OF w1 f(2)] by (simp add: embedded_node[where f = f, OF f(1)])
  moreover have "entry_reads denv (node_flat n (visible_entry payload) f) n payload"
    using f cs by (auto simp: entry_reads_def split: option.splits)
  ultimately show ?thesis using f(1) by (intro exI[of _ "node_flat n (visible_entry payload) f"]) simp
qed

lemma walk_entries_adds:
  assumes "walk_entries env down (join_path cs) entries w = Inr w'" and "bt_ok (wk_entries w)" and cs: "valid_path cs"
    and "distinct (map te_name entries)" and "\<And>entry. entry \<in> set entries \<Longrightarrow> path_component (te_name entry)"
    and down: "\<And>n child w w'. path_component n \<Longrightarrow> down (join_path (cs @ [n])) child w = Inr w' \<Longrightarrow> bt_ok (wk_entries w) \<Longrightarrow>
      \<exists>f. denotes denv child f \<and> walk_adds (embedded (cs @ [n]) f) w w'"
  shows "\<exists>f. f [] = None \<and> (\<forall>m. m \<notin> te_name ` set entries \<longrightarrow> f [m] = None \<and> sub f m = Map.empty)
    \<and> (\<forall>entry \<in> set entries. entry_reads denv f (te_name entry) (te_payload entry)) \<and> walk_adds (embedded cs f) w w'"
  using assms(1,2,4,5)
proof (induction entries arbitrary: w)
  case Nil
  then show ?case by (intro exI[of _ Map.empty]) (simp add: walk_adds_none)
next
  case (Cons entry entries)
  let ?n = "te_name entry"
  obtain w1 w2 where w1: "count_record (we_limits env) w = Inr w1"
    and w2: "walk_payload env down (join_path (cs @ [?n])) (te_payload entry) w1 = Inr w2"
    and rest: "walk_entries env down (join_path cs) entries w2 = Inr w'"
    using Cons.prems(1) by (auto simp: dir_child_join[OF cs] Let_def split: sum.splits)
  have n: "path_component ?n" and fresh: "?n \<notin> te_name ` set entries" using Cons.prems(3,4) by auto
  have keep: "wk_entries w1 = wk_entries w" by (rule count_record_entries[OF w1])
  from walk_payload_adds[OF w2, of denv] down[OF n] keep Cons.prems(2) cs n obtain f where
    f: "f [] = None" "\<And>m. m \<noteq> ?n \<Longrightarrow> f [m] = None \<and> sub f m = Map.empty" "entry_reads denv f ?n (te_payload entry)" "walk_adds (embedded cs f) w1 w2"
    by auto
  from Cons.IH[OF rest] f(4) Cons.prems(3,4) obtain g where
    g: "g [] = None" "\<And>m. m \<notin> te_name ` set entries \<Longrightarrow> g [m] = None \<and> sub g m = Map.empty"
      "\<And>entry. entry \<in> set entries \<Longrightarrow> entry_reads denv g (te_name entry) (te_payload entry)" "walk_adds (embedded cs g) w2 w'"
    by (auto simp: walk_adds_def)
  have "f (m # q) = None" if "m \<noteq> ?n" for m q using f(2)[OF that] by (auto intro: flat_branch)
  moreover have "g (m # q) = None" if "m \<notin> te_name ` set entries" for m q using g(2)[OF that] by (auto intro: flat_branch)
  ultimately have "(f ++ g) (m # q) = (if m = ?n then f (m # q) else g (m # q))" for m q
    using fresh by (auto simp: map_add_def split: option.split)
  then have at: "(f ++ g) [m] = (if m = ?n then f [m] else g [m])" "sub (f ++ g) m = (if m = ?n then sub f m else sub g m)" for m
    by (auto simp: sub_def fun_eq_iff)
  have "walk_adds (embedded cs (f ++ g)) w w'"
    using walk_adds_trans[OF f(4) g(4)] keep by (simp add: embedded_add walk_adds_def)
  moreover have "(f ++ g) [] = None" using f(1) g(1) by (simp add: map_add_def)
  moreover have "entry_reads denv (f ++ g) (te_name e) (te_payload e)" if "e \<in> set (entry # entries)" for e
  proof (cases "te_name e = ?n")
    case True
    with that fresh have "e = entry" by (metis image_eqI set_ConsD)
    with f(3) show ?thesis using entry_reads_cong[of "f ++ g" ?n f denv] at[of ?n] by simp
  next
    case False
    with that g(3)[of e] show ?thesis using entry_reads_cong[of "f ++ g" "te_name e" g denv] at[of "te_name e"] by auto
  qed
  moreover have "(f ++ g) [m] = None \<and> sub (f ++ g) m = Map.empty" if "m \<notin> te_name ` set (entry # entries)" for m
    using that at[of m] g(2)[of m] by auto
  ultimately show ?case by (intro exI[of _ "f ++ g"]) blast
qed

lemma descend_adds:
  assumes "descend (whole_walk env) levels (join_path cs) key w = Inr w'" and "bt_ok (wk_entries w)" and "valid_path cs"
  shows "\<exists>f. denotes env key f \<and> walk_adds (embedded cs f) w w'"
  using assms
proof (induction levels arbitrary: cs key w w')
  case (Suc levels)
  let ?w = "w\<lparr>wk_node_keys := bt_insert (join_path cs) key (wk_node_keys w)\<rparr>"
  obtain node w1 where w1: "open_node (whole_walk env) key ?w = Inr (node, w1)"
    and rest: "walk_entries (whole_walk env) (descend (whole_walk env) levels) (join_path cs) (tn_entries node) w1 = Inr w'"
    using Suc.prems(1) by (auto simp: prune_subtree_def whole_walk_def Let_def split: sum.splits)
  from open_node_opens[OF w1] have opened: "opens env key node" and keep: "wk_entries w1 = wk_entries w" by auto
  note names = opens_names[OF opened]
  have "\<exists>f. f [] = None \<and> (\<forall>m. m \<notin> te_name ` set (tn_entries node) \<longrightarrow> f [m] = None \<and> sub f m = Map.empty)
    \<and> (\<forall>entry \<in> set (tn_entries node). entry_reads env f (te_name entry) (te_payload entry)) \<and> walk_adds (embedded cs f) w1 w'"
    using Suc.IH Suc.prems keep names by (intro walk_entries_adds[OF rest]) auto
  then obtain f where f: "f [] = None" "\<And>m. payload_at node m = None \<Longrightarrow> f [m] = None \<and> sub f m = Map.empty"
    "\<And>m payload. payload_at node m = Some payload \<Longrightarrow> entry_reads env f m payload" "walk_adds (embedded cs f) w1 w'"
    by (auto simp: payload_at_None payload_at_iff[OF opened])
  have "denotes env key f"
  proof (rule denotes_node[where f = f, OF opened f(1)])
    fix n
    show "f [n] = visible_at node n" using f(2)[of n] f(3)[of n] by (cases "payload_at node n") (auto simp: visible_at_def entry_reads_def)
    show "sub f n = Map.empty" if "child_key node n = None"
      using that f(2)[of n] f(3)[of n] by (cases "payload_at node n") (auto simp: child_key_def entry_reads_def)
    show "denotes env child (sub f n)" if "child_key node n = Some child" for child
      using that f(3)[of n] by (cases "payload_at node n") (auto simp: child_key_def entry_reads_def)
  qed
  with f(4) keep show ?case by (auto simp: walk_adds_def)
qed simp

lemma fetch_denotes:
  assumes "fetch_tree (whole_walk env) root = Inr fetched"
  shows "\<exists>f. denotes env root f \<and> read_at f = map_of (mf_entries (ft_manifest fetched)) \<and> bt_ok (mf_entries (ft_manifest fetched))"
proof -
  from assms obtain w where w: "descend (whole_walk env) (Suc (max_depth (dn_limits env))) (join_path []) root new_walk = Inr w"
    and fetched: "mf_entries (ft_manifest fetched) = wk_entries w"
    by (auto simp: fetch_tree_def map_sum_Inr dir_root_def whole_walk_def simp del: descend.simps)
  from descend_adds[OF w] obtain f where "denotes env root f" "walk_adds (embedded [] f) new_walk w"
    by (auto simp: new_walk_def)
  moreover have "embedded [] f = f" by (simp add: embedded_def fun_eq_iff)
  ultimately show ?thesis using fetched by (auto simp: walk_adds_def new_walk_def)
qed

end
