(* ===== verification/Diff_Guarantees.thy ===== *)
theory Diff_Guarantees
  imports Diff_Fetch Pull_Head Merge_Guarantees Push_Properties
begin

text \<open>
  What the comparison of trees means for a pull: the delta of two heads is the difference of the
  two fetched manifests, and a merge decided from the delta is the merge decided from the whole
  manifest, up to the collisions that are reported.
\<close>

section \<open>The delta is the difference of two fetches\<close>

text \<open>
  C12. The comparison of two published trees is exact. Against whole fetches of the two roots: the
  touched paths are the paths at which the two manifests differ, the dirty paths and the paths
  of reported collisions; the entries are those of the new manifest at the touched paths, and
  no other; and every reported collision has two or more distinct paths of one folded name.
\<close>

theorem diff_is_difference_of_fetches:
  assumes "diff_tree env old_root new_root dirty_paths = Inr delta" and "finite dirty_paths"
    and "fetch_tree (whole_walk env) old_root = Inr old" and "fetch_tree (whole_walk env) new_root = Inr new"
  shows "td_touched delta = {path. map_of (mf_entries (ft_manifest old)) path \<noteq> map_of (mf_entries (ft_manifest new)) path}
      \<union> dirty_paths \<union> collided (td_collisions delta)
    \<and> map_of (td_entries delta) = map_of (mf_entries (ft_manifest new)) |` td_touched delta
    \<and> (\<forall>c \<in> set (td_collisions delta). distinct (pc_paths c) \<and> 1 < length (pc_paths c) \<and> (\<forall>path \<in> set (pc_paths c). dn_fold env path = pc_folded c))"
proof -
  obtain f g where "denotes env old_root f" "read_at f = map_of (mf_entries (ft_manifest old))"
    "denotes env new_root g" "read_at g = map_of (mf_entries (ft_manifest new))"
    using fetch_denotes[OF assms(3)] fetch_denotes[OF assms(4)] by blast
  with diff_tree_exact[OF assms(1,2)] show ?thesis by metis
qed

section \<open>Deciding from the delta\<close>

lemma merge_paths_sorted: "sorted (merge_paths ancestor remote)"
  unfolding merge_paths_def by (rule strict_sorted_imp_sorted) (use bt_collect_ok in \<open>simp add: bt_ok_def\<close>)

lemma merge_paths_filter:
  assumes "map_of ancestor' = map_of ancestor |` S" and "map_of remote' = map_of remote |` S"
  shows "merge_paths ancestor' remote' = filter (\<lambda>path. path \<in> S) (merge_paths ancestor remote)"
proof (rule sorted_distinct_set_unique)
  show "set (merge_paths ancestor' remote') = set (filter (\<lambda>path. path \<in> S) (merge_paths ancestor remote))"
    by (auto simp: merge_paths_keys(2) assms)
qed (simp_all add: merge_paths_sorted merge_paths_keys(1) sorted_wrt_filter)

lemma classify_paths_filter:
  assumes "\<And>path. path \<in> set paths \<Longrightarrow> path \<in> S \<Longrightarrow> map_of ancestor' path = map_of ancestor path \<and> map_of remote' path = map_of remote path"
    and "\<And>path. path \<in> set paths \<Longrightarrow> path \<notin> S \<Longrightarrow> \<not> observes scope path (remote_delta (map_of remote path) (map_of ancestor path))"
  shows "map_sum id fst (classify_paths w ancestor' remote' clashing scope (filter (\<lambda>path. path \<in> S) paths) plan excluded')
    = map_sum id fst (classify_paths w ancestor remote clashing scope paths plan excluded)"
  using assms
proof (induction paths arbitrary: plan excluded excluded')
  case (Cons path paths)
  have IH: "map_sum id fst (classify_paths w ancestor' remote' clashing scope (filter (\<lambda>path. path \<in> S) paths) plan excluded')
      = map_sum id fst (classify_paths w ancestor remote clashing scope paths plan excluded)" for plan excluded excluded'
    by (rule Cons.IH) (use Cons.prems in auto)
  show ?case
  proof (cases "path \<in> S")
    case True
    with Cons.prems(1)[of path] have "map_of ancestor' path = map_of ancestor path" "map_of remote' path = map_of remote path" by auto
    then have "classify_observed w ancestor' remote' clashing scope path plan = classify_observed w ancestor remote clashing scope path plan"
      "observes scope path (remote_delta (map_of remote' path) (map_of ancestor' path))
        = observes scope path (remote_delta (map_of remote path) (map_of ancestor path))"
      by (simp_all only: classify_observed_def)
    with True show ?thesis by (simp add: id_def IH[unfolded id_def] split: sum.split)
  next
    case False
    with Cons.prems(2)[of path] show ?thesis by (simp add: id_def IH[unfolded id_def])
  qed
qed simp

text \<open>The rows of the store describe a manifest: the same paths, and no difference that a merge sees.\<close>

definition rows_describe :: "ancestor_rows \<Rightarrow> (WorkspacePath, ManifestEntry) btree_map \<Rightarrow> bool" where
  "rows_describe rows entries \<longleftrightarrow> (\<forall>path. case map_of rows path of
       None \<Rightarrow> map_of entries path = None
     | Some r \<Rightarrow> remote_delta (map_of entries path) (Some r) = Remote_Unchanged)"

definition narrowed_scope :: "bool \<Rightarrow> WorkspacePath set \<Rightarrow> PullScope \<Rightarrow> bool" where
  "narrowed_scope debug dirty_paths scope \<longleftrightarrow> scope = ChangedAndDirty dirty_paths \<or> scope = ChangedAndWalked dirty_paths \<and> \<not> debug"

lemma narrowed_scopeD:
  assumes "narrowed_scope debug dirty_paths scope"
  shows "scope_dirty_paths scope = Some dirty_paths" and "prove_narrowing debug w ancestor scope excluded = Inr ()"
    and "observes scope path remote \<longleftrightarrow> remote \<noteq> Remote_Unchanged \<or> path \<in> dirty_paths"
  using assms by (auto simp: narrowed_scope_def prove_narrowing_def)

lemma classify_narrowed:
  assumes "narrowed_scope debug dirty_paths scope"
  shows "classify debug w ancestor remote clashes scope =
    map_sum id fst (classify_paths w ancestor remote (collision_set clashes) scope (merge_paths ancestor remote) MergePlan_default [])"
  by (simp add: classify_def narrowed_scopeD(2)[OF assms] split: sum.split prod.split)

lemma classify_restricted:
  assumes scope: "narrowed_scope debug dirty_paths scope" and dirty: "dirty_paths \<subseteq> S"
    and rows: "rows_describe ancestor old" and same: "\<And>path. path \<notin> S \<Longrightarrow> map_of old path = map_of remote path"
    and ancestor': "map_of ancestor' = map_of ancestor |` S" and remote': "map_of remote' = map_of remote |` S"
  shows "classify debug w ancestor' remote' clashes scope = classify debug w ancestor remote clashes scope"
  unfolding classify_narrowed[OF scope] merge_paths_filter[OF ancestor' remote']
proof (rule classify_paths_filter)
  fix path assume path: "path \<in> set (merge_paths ancestor remote)"
  show "path \<in> S \<Longrightarrow> map_of ancestor' path = map_of ancestor path \<and> map_of remote' path = map_of remote path"
    by (simp add: ancestor' remote')
  assume out: "path \<notin> S"
  from rows have row: "case map_of ancestor path of None \<Rightarrow> map_of old path = None
      | Some r \<Rightarrow> remote_delta (map_of old path) (Some r) = Remote_Unchanged" by (simp add: rows_describe_def)
  have "remote_delta (map_of remote path) (map_of ancestor path) = Remote_Unchanged"
  proof (cases "map_of ancestor path")
    case None
    with row path same[OF out] show ?thesis by (simp add: merge_paths_keys(2) domIff)
  qed (use row same[OF out] in simp)
  with out dirty show "\<not> observes scope path (remote_delta (map_of remote path) (map_of ancestor path))"
    by (auto simp: narrowed_scopeD(3)[OF scope])
qed

definition head_diff_env :: "('b, 'o, 's) pull_env \<Rightarrow> 'o objects \<Rightarrow> ('b, 'o) diff_env" where
  "head_diff_env env objs = \<lparr>dn_io = pe_io env, dn_crypto = pe_crypto env, dn_objects = objs, dn_limits = head_limits env, dn_fold = pe_fold env\<rparr>"

text \<open>
  C11. The incremental merge is the whole merge. When the rows of the store describe the applied
  manifest, deciding a new head from the comparison of the two trees and the rows at the touched
  paths gives the same plan, or the same error, as deciding it from all rows and the whole
  fetched manifest with the same collisions.
\<close>

theorem incremental_decision_is_whole_decision:
  assumes "engine_state store = Inr state" and "applied_manifest_key state = Some applied_key"
    and "narrowed_scope (pe_debug_assertions env) dirty_paths scope" and "finite dirty_paths"
    and "fetch_tree (whole_walk (head_diff_env env objs)) applied_key = Inr old"
    and "fetch_tree (whole_walk (head_diff_env env objs)) (ref_manifest_key head) = Inr new"
    and "rows_describe (all_files store) (mf_entries (ft_manifest old))"
    and "diff_tree (head_diff_env env objs) applied_key (ref_manifest_key head) dirty_paths = Inr delta"
  shows "decide_head env objs scope w head store = map_sum id (\<lambda>plan. (plan, store))
    (classify (pe_debug_assertions env) w (all_files store) (mf_entries (ft_manifest new)) (td_collisions delta) scope)"
proof -
  obtain f g where fetched: "denotes (head_diff_env env objs) applied_key f" "read_at f = map_of (mf_entries (ft_manifest old))"
    "denotes (head_diff_env env objs) (ref_manifest_key head) g" "read_at g = map_of (mf_entries (ft_manifest new))"
    using fetch_denotes[OF assms(5)] fetch_denotes[OF assms(6)] by blast
  note exact = diff_tree_exact(1,2)[OF assms(8,4) fetched(1,3), unfolded fetched(2,4)]
  let ?S = "td_touched delta \<union> dirty_paths \<union> \<Union> (set ` pc_paths ` set (td_collisions delta))"
  have S: "?S = td_touched delta" using exact(1) by (auto simp: collided_def)
  have rows: "map_of (files_at_paths ?S store) = map_of (all_files store) |` ?S"
    by (auto simp: files_at_paths_def all_files_def map_of_filter_fst restrict_map_def fun_eq_iff)
  have "classify (pe_debug_assertions env) w (files_at_paths ?S store) (td_entries delta) (td_collisions delta) scope
      = classify (pe_debug_assertions env) w (all_files store) (mf_entries (ft_manifest new)) (td_collisions delta) scope"
    by (rule classify_restricted[OF assms(3) _ assms(7) _ rows]) (use exact S in auto)
  then show ?thesis
    using assms(1,2,8) narrowed_scopeD(1)[OF assms(3)] by (simp add: decide_head_def head_diff_env_def Let_def)
qed

end
