(* ===== verification/Diff_Examples.thy ===== *)
theory Diff_Examples
  imports Diff_Guarantees
begin

text \<open>
  Two heads of a workspace on a volume that does not tell case apart: the old one has a directory
  \<open>A\<close> with a file \<open>x\<close>, the new one has a directory \<open>a\<close> with the same content beside it. The heads
  are a witness of the properties of the comparison, and show a collision that it misses.
\<close>

section \<open>Two heads\<close>

definition case_nodes :: "(string \<times> TreeEntry list) list" where
  "case_nodes = [
     (''o'', [\<lparr>te_name = ''A'', te_payload = Tree_Directory 7 ''m_u''\<rparr>]),
     (''n'', [\<lparr>te_name = ''A'', te_payload = Tree_Directory 7 ''m_u''\<rparr>, \<lparr>te_name = ''a'', te_payload = Tree_Directory 7 ''m_u''\<rparr>]),
     (''u'', [\<lparr>te_name = ''x'', te_payload = Tree_File 0 6 ''k'' ''k'' 2\<rparr>])]"

definition case_io :: "(string, string) tree_io" where
  "case_io = \<lparr>to_allocvec = (\<lambda>_. None),
     from_bytes = (\<lambda>p. map_option (\<lambda>es. \<lparr>tn_format_version = TREE_FORMAT_VERSION, tn_key_epoch = 2, tn_entries = es\<rparr>) (map_of case_nodes p)),
     plaintext_len = (\<lambda>_. 1), seal = (\<lambda>_ p. Inr p), open_bounded = (\<lambda>_ p _. Inr p), sealed_len = (\<lambda>_. 1), digest = id,
     node_content_id = (\<lambda>_. ''c'')\<rparr>"

definition case_objects :: "string objects" where
  "case_objects key = Inr (drop 2 key)"

definition lower_a :: "string \<Rightarrow> string" where
  "lower_a = map (\<lambda>c. if c = CHR ''A'' then CHR ''a'' else c)"

definition case_pull :: "(string, string, unit) pull_env" where
  "case_pull = \<lparr>pe_io = case_io, pe_crypto = \<lparr>write_epoch = 2, key_epochs = [2]\<rparr>, pe_blake3 = id, pe_fold = lower_a,
     pe_project_view = False, pe_debug_assertions = False, pe_objects = (\<lambda>_. case_objects), pe_read_ref = (\<lambda>_. Inr None)\<rparr>"

abbreviation case_env :: "(string, string) diff_env" where
  "case_env \<equiv> head_diff_env case_pull case_objects"

definition x_file :: ManifestEntry where
  "x_file = File 0 6 ''k'' ''k'' 2"

definition old_entries :: "(WorkspacePath, ManifestEntry) btree_map" where
  "old_entries = [(''A'', Directory 7), (''A/x'', x_file)]"

definition new_entries :: "(WorkspacePath, ManifestEntry) btree_map" where
  "new_entries = [(''A'', Directory 7), (''A/x'', x_file), (''a'', Directory 7), (''a/x'', x_file)]"

lemma case_valid: "path \<in> {''A'', ''A/x'', ''a'', ''a/x''} \<Longrightarrow> validate DecodeLimits_default path = Inr ()"
proof -
  assume "path \<in> {''A'', ''A/x'', ''a'', ''a/x''}"
  then have "publishable_workspace_path path (max_path_len DecodeLimits_default) (allow_workspace_state_paths DecodeLimits_default) = Inr ()"
    by (auto simp: publishable_iff MAX_WORKSPACE_PATH_DEPTH_def MAX_WORKSPACE_PATH_LEN_def DecodeLimits_default_def is_private_workspace_state_path_def
      is_recovery_temp_component_def is_recovery_quarantine_component_def is_recovery_nonce_component_def strip_prefix_def)
  then show ?thesis by (simp add: validate_def validate_manifest_path_def)
qed

lemma case_paths [simp]:
  "validate DecodeLimits_default ''A'' = Inr ()" "validate DecodeLimits_default ''A/x'' = Inr ()"
  "validate DecodeLimits_default ''a'' = Inr ()" "validate DecodeLimits_default ''a/x'' = Inr ()"
  by (rule case_valid; simp)+

lemma case_env_simps [simp]:
  "dn_limits case_env = DecodeLimits_default" "dn_fold case_env = lower_a" "dn_objects case_env key = Inr (drop 2 key)"
  "physical_manifest_key (dn_io case_env) p = ''m_'' @ p" "plaintext_len (dn_io case_env) p = 1"
  "open_tree_node (dn_io case_env) (dn_crypto case_env) p DecodeLimits_default = Inr (p, 2)"
  by (simp_all add: head_diff_env_def case_pull_def case_io_def case_objects_def head_limits_def physical_manifest_key_def open_tree_node_def
      DecodeLimits_default_def)

definition case_node :: "TreeEntry list \<Rightarrow> TreeNode" where
  "case_node es = \<lparr>tn_format_version = TREE_FORMAT_VERSION, tn_key_epoch = 2, tn_entries = es\<rparr>"

lemma case_decodes:
  assumes "map_of case_nodes p = Some es"
  shows "TreeNode_decode (from_bytes (dn_io case_env)) p 2 DecodeLimits_default = Inr (case_node es)"
proof -
  have "sorted_wrt (<) (map te_name es)" "length es \<le> 2"
    "list_all (\<lambda>e. valid_name DecodeLimits_default (te_name e) \<and> valid_target DecodeLimits_default (te_payload e)) es"
    using assms by (auto simp: case_nodes_def valid_name_def valid_target_def DecodeLimits_default_def MAX_NAME_LEN_def split: if_splits)
  with assms show ?thesis
    by (simp add: decode_iff head_diff_env_def case_pull_def case_io_def case_node_def DecodeLimits_default_def)
qed

lemma case_decoded [simp]:
  "TreeNode_decode (from_bytes (dn_io case_env)) ''o'' 2 DecodeLimits_default = Inr (case_node [\<lparr>te_name = ''A'', te_payload = Tree_Directory 7 ''m_u''\<rparr>])"
  "TreeNode_decode (from_bytes (dn_io case_env)) ''n'' 2 DecodeLimits_default =
     Inr (case_node [\<lparr>te_name = ''A'', te_payload = Tree_Directory 7 ''m_u''\<rparr>, \<lparr>te_name = ''a'', te_payload = Tree_Directory 7 ''m_u''\<rparr>])"
  "TreeNode_decode (from_bytes (dn_io case_env)) ''u'' 2 DecodeLimits_default = Inr (case_node [\<lparr>te_name = ''x'', te_payload = Tree_File 0 6 ''k'' ''k'' 2\<rparr>])"
  by (rule case_decodes; simp add: case_nodes_def)+

lemma case_levels: "max_depth DecodeLimits_default = Suc (Suc (MAX_WORKSPACE_PATH_DEPTH - 2))"
  by (simp add: DecodeLimits_default_def MAX_WORKSPACE_PATH_DEPTH_def)

lemma case_limits:
  "max_records DecodeLimits_default = 2000000" "max_aggregate_declared_bytes DecodeLimits_default = 8796093022208"
  "max_aggregate_decoded_bytes DecodeLimits_default = 2147483648"
  by (simp_all add: DecodeLimits_default_def)

lemma whole_walk_simps [simp]:
  "we_limits (whole_walk env) = dn_limits env" "we_fold (whole_walk env) = dn_fold env" "we_objects (whole_walk env) = dn_objects env"
  "we_io (whole_walk env) = dn_io env" "we_crypto (whole_walk env) = dn_crypto env" "we_prune (whole_walk env) = None"
  by (simp_all add: whole_walk_def)

lemmas case_eval = case_levels case_limits dir_root_def dir_child_def case_node_def saturating_add_u64_def checked_add_u64_def filter_option_def
  u64_MAX_def Let_def lower_a_def push_folded_def
lemmas fetch_eval = fetch_tree_def new_walk_def prune_subtree_def open_node_def count_record_def walk_payload_def emit_path_def collisions_def
lemmas diff_eval = diff_tree_def new_differ_def diff_open_node_def charge_differ_def charge_def count_node_def entries_by_name_def all_names_def
  bt_collect_def compare_name_def compare_entry_def enumerate_entry_def diff_emit_def touch_def note_collision_def diff_collisions_def add_collided_def

lemma fetch_old: "\<exists>old. fetch_tree (whole_walk case_env) ''m_o'' = Inr old \<and> mf_entries (ft_manifest old) = old_entries"
  by (simp add: fetch_eval case_eval old_entries_def x_file_def)

lemma fetch_new: "\<exists>new. fetch_tree (whole_walk case_env) ''m_n'' = Inr new \<and> mf_entries (ft_manifest new) = new_entries
    \<and> ft_collisions new = [\<lparr>pc_folded = ''a'', pc_paths = [''A'', ''a'']\<rparr>, \<lparr>pc_folded = ''a/x'', pc_paths = [''A/x'', ''a/x'']\<rparr>]"
  by (simp add: fetch_eval case_eval new_entries_def x_file_def)

lemma diff_case: "diff_tree case_env ''m_o'' ''m_n'' {} = Inr \<lparr>td_entries = [(''A'', Directory 7), (''a'', Directory 7), (''a/x'', x_file)],
    td_touched = {''A'', ''a'', ''a/x''}, td_collisions = [\<lparr>pc_folded = ''a'', pc_paths = [''A'', ''a'']\<rparr>]\<rparr>"
  by (simp add: diff_eval case_eval x_file_def; blast)

section \<open>A device that has the old head\<close>

definition case_dir :: Observed where
  "case_dir = \<lparr>ob_kind = Kind_Directory, ob_size = 0, ob_mode = 7, ob_symlink_target = None, ob_fingerprint = demo_stat\<rparr>"

text \<open>Both spellings reach the same objects.\<close>

definition case_world :: world where
  "case_world = (disk_world 6 (map_of [(''A/x'', ''k''), (''a/x'', ''k'')]))\<lparr>
     w_observe := (\<lambda>path. if path = ''A'' \<or> path = ''a'' then Observe_Present case_dir
       else if path = ''A/x'' \<or> path = ''a/x'' then Observe_Present (demo_file 6) else Observe_Absent)\<rparr>"

definition case_rows :: ancestor_rows where
  "case_rows = [(''A'', record_for_entry 0 (Directory 7) demo_stat), (''A/x'', record_for_entry 0 x_file demo_stat)]"

definition case_store :: manifest_store where
  "case_store = \<lparr>st_files = case_rows, st_state = EngineState_default\<lparr>applied_manifest_key := Some ''m_o'',
     last_ref_version := Some 4, highest_verified_ref_version := Some 4, highest_verified_manifest_key := Some ''m_o''\<rparr>,
     st_intents = [], st_pending_push = {}, st_unsyncable = [], st_blobs = [], st_tree_nodes = [], st_node_epochs = []\<rparr>"

definition case_head :: RefObservation where
  "case_head = \<lparr>ref_version = 5, ref_manifest_key = ''m_n''\<rparr>"

lemma case_store_state: "engine_state case_store = Inr (st_state case_store)" "applied_manifest_key (st_state case_store) = Some ''m_o''"
  by (simp_all add: case_store_def engine_state_def applied_ref_def)

lemma case_rows_describe: "rows_describe (all_files case_store) old_entries"
  by (auto simp: rows_describe_def all_files_def case_store_def case_rows_def old_entries_def x_file_def record_for_entry_def remote_delta_def
      entry_matches_record_def)

fun is_conflict_aside :: "FsOpKind \<Rightarrow> bool" where
  "is_conflict_aside (Op_ConflictAside _) = True"
| "is_conflict_aside _ = False"

fun adopts :: "WorkspacePath \<Rightarrow> PullError + MergePlan \<Rightarrow> bool" where
  "adopts path (Inr plan) \<longleftrightarrow> map_of (ancestor_upserts plan) path \<noteq> None \<and> path \<notin> op_path ` set (fs_ops plan)"
| "adopts path (Inl _) = False"

fun puts_aside :: "WorkspacePath \<Rightarrow> PullError + MergePlan \<Rightarrow> bool" where
  "puts_aside path (Inr plan) \<longleftrightarrow> map_of (ancestor_upserts plan) path = None
     \<and> list_ex (\<lambda>op. op_path op = path \<and> is_conflict_aside (op_kind op)) (fs_ops plan)"
| "puts_aside path (Inl _) = False"

section \<open>Properties\<close>

theorem diff_is_difference_of_fetches_witness:
  "\<exists>old new delta. fetch_tree (whole_walk case_env) ''m_o'' = Inr old \<and> fetch_tree (whole_walk case_env) ''m_n'' = Inr new
     \<and> diff_tree case_env ''m_o'' ''m_n'' {} = Inr delta \<and> td_collisions delta \<noteq> []
     \<and> map_of (td_entries delta) = map_of (mf_entries (ft_manifest new)) |` td_touched delta"
  using fetch_old fetch_new diff_case diff_is_difference_of_fetches[OF diff_case] by auto

theorem incremental_decision_is_whole_decision_witness:
  "\<exists>plan. decide_head case_pull case_objects (ChangedAndDirty {}) case_world case_head case_store = Inr (plan, case_store)
     \<and> classify False case_world (all_files case_store) new_entries [\<lparr>pc_folded = ''a'', pc_paths = [''A'', ''a'']\<rparr>] (ChangedAndDirty {}) = Inr plan"
proof -
  obtain old where old: "fetch_tree (whole_walk case_env) ''m_o'' = Inr old" "mf_entries (ft_manifest old) = old_entries" using fetch_old by blast
  obtain new where new: "fetch_tree (whole_walk case_env) (ref_manifest_key case_head) = Inr new" "mf_entries (ft_manifest new) = new_entries"
    using fetch_new by (auto simp: case_head_def)
  have scope: "narrowed_scope (pe_debug_assertions case_pull) {} (ChangedAndDirty {})" by (simp add: narrowed_scope_def)
  have rows: "rows_describe (all_files case_store) (mf_entries (ft_manifest old))" unfolding old(2) by (rule case_rows_describe)
  have diff: "diff_tree case_env ''m_o'' (ref_manifest_key case_head) {} = Inr \<lparr>td_entries = [(''A'', Directory 7), (''a'', Directory 7), (''a/x'', x_file)],
    td_touched = {''A'', ''a'', ''a/x''}, td_collisions = [\<lparr>pc_folded = ''a'', pc_paths = [''A'', ''a'']\<rparr>]\<rparr>"
    using diff_case by (simp add: case_head_def)
  have "adopts ''a/x'' (classify False case_world (all_files case_store) new_entries [\<lparr>pc_folded = ''a'', pc_paths = [''A'', ''a'']\<rparr>] (ChangedAndDirty {}))"
    by code_simp
  then obtain plan where "classify False case_world (all_files case_store) new_entries [\<lparr>pc_folded = ''a'', pc_paths = [''A'', ''a'']\<rparr>] (ChangedAndDirty {}) = Inr plan"
    by (cases "classify False case_world (all_files case_store) new_entries [\<lparr>pc_folded = ''a'', pc_paths = [''A'', ''a'']\<rparr>] (ChangedAndDirty {})") auto
  moreover have "pe_debug_assertions case_pull = False" by (simp add: case_pull_def)
  ultimately show ?thesis
    using incremental_decision_is_whole_decision[OF case_store_state scope finite.emptyI old(1) new(1) rows diff, where w = case_world] new(2) by simp
qed

text \<open>
  C24. The comparison misses a collision that a whole fetch reports. On a volume that folds case, a
  new directory \<open>a\<close> beside an unchanged directory \<open>A\<close> collides with it, and \<open>a/x\<close> with \<open>A/x\<close>. The
  unchanged directory is not opened, so only the directories are reported: the whole decision
  puts \<open>a/x\<close> aside, the incremental one adopts the object of \<open>A/x\<close> as the content of \<open>a/x\<close>.
\<close>

theorem diff_misses_collision:
  "\<exists>new plan. fetch_tree (whole_walk case_env) (ref_manifest_key case_head) = Inr new
     \<and> puts_aside ''a/x'' (classify False case_world (all_files case_store) (mf_entries (ft_manifest new)) (ft_collisions new) (ChangedAndDirty {}))
     \<and> decide_head case_pull case_objects (ChangedAndDirty {}) case_world case_head case_store = Inr (plan, case_store)
     \<and> adopts ''a/x'' (Inr plan)"
proof -
  obtain new where new: "fetch_tree (whole_walk case_env) ''m_n'' = Inr new" "mf_entries (ft_manifest new) = new_entries"
    "ft_collisions new = [\<lparr>pc_folded = ''a'', pc_paths = [''A'', ''a'']\<rparr>, \<lparr>pc_folded = ''a/x'', pc_paths = [''A/x'', ''a/x'']\<rparr>]"
    using fetch_new by blast
  have aside: "puts_aside ''a/x'' (classify False case_world (all_files case_store) new_entries
      [\<lparr>pc_folded = ''a'', pc_paths = [''A'', ''a'']\<rparr>, \<lparr>pc_folded = ''a/x'', pc_paths = [''A/x'', ''a/x'']\<rparr>] (ChangedAndDirty {}))"
    by code_simp
  let ?delta = "classify False case_world (files_at_paths {''A'', ''a'', ''a/x''} case_store)
      [(''A'', Directory 7), (''a'', Directory 7), (''a/x'', x_file)] [\<lparr>pc_folded = ''a'', pc_paths = [''A'', ''a'']\<rparr>] (ChangedAndDirty {})"
  have adopt: "adopts ''a/x'' ?delta" by code_simp
  have "decide_head case_pull case_objects (ChangedAndDirty {}) case_world case_head case_store = map_sum id (\<lambda>plan. (plan, case_store)) ?delta"
    using diff_case case_store_state
    by (simp add: decide_head_def head_diff_env_def case_head_def case_pull_def insert_commute Let_def)
  with adopt aside new show ?thesis by (cases ?delta) (auto simp: case_head_def)
qed

end
