(* ===== verification/Spec2Isabelle.thy ===== *)
theory Spec2Isabelle
  imports Recovery_Worker Publish_Cost Patch_Refinement Recovery_Guarantees Push_Examples Engine_Examples Diff_Examples
begin

text \<open>
  A verification development of bowline, a daemon that keeps a developer's workspace
  synchronized between machines through an end-to-end encrypted object store. It covers five
  parts of the Rust sources: how the daemon recovers from gaps in file-system watching,
  how the content of a workspace is represented, published and fetched as a tree of sealed
  directory nodes, how a pull merges a fetched manifest with the disk without losing what
  either side wrote, how a push turns what changed on the disk into the next manifest, and
  how the driver schedules scans, pulls and pushes.

  \<^bold>\<open>Watcher recovery\<close> (\<^verbatim>\<open>src/crates/bowline-daemon/src/watcher_recovery\<close>). The watcher may
  lose events; a loss opens an incident, and only an authoritative scan that started after
  the last loss may close it. The parts and their theories:

  \<^item> \<open>Recovery_Types\<close> (\<^verbatim>\<open>types.rs\<close>, \<^verbatim>\<open>protocol.rs\<close>, \<^verbatim>\<open>types/*.rs\<close>, the evidence types of
    \<^verbatim>\<open>watcher_coverage/mod.rs\<close>): identifiers, watermarks and counters with their limits,
    failure codes, coverage boundaries, close offers and receipts, the backoff policy.
  \<^item> \<open>Recovery_Reducer\<close> (\<^verbatim>\<open>reducer.rs\<close>, \<^verbatim>\<open>reducer/*.rs\<close>): \<open>RecoveryStateMachine\<close> as a record,
    one function per method, from the state to a result and the state it leaves, on the
    error paths too. \<open>Recovery_Invariants\<close>, \<open>Recovery_Closure\<close>, \<open>Recovery_Identifiers\<close> and
    \<open>Recovery_Properties\<close> hold the step relation over all methods, the invariant by rule
    induction, and the properties of every run: no close without a new scan, exact closing,
    fencing of old tokens, progress, bounds of all counters and identifiers.
  \<^item> \<open>Recovery_Snapshot\<close> (\<^verbatim>\<open>snapshot.rs\<close>, \<^verbatim>\<open>reducer/projection.rs\<close>): the document projected
    from the machine.
  \<^item> \<open>Recovery_Coordinator\<close> (\<^verbatim>\<open>coordinator.rs\<close>): the mutex-protected machine with its revision
    signal, wake targets and subscriptions. \<open>Recovery_System\<close> interleaves the calls of
    several threads, split where the code releases its lock; \<open>Recovery_System_Properties\<close>
    shows that no wakeup is lost, that subscriptions are exclusive and snapshots current.
  \<^item> \<open>Recovery_Worker\<close> (\<^verbatim>\<open>runtime.rs\<close>): one recovery pass. The answers of its dependencies
    and the calls that other threads make at its yield points are arguments.

  \<^bold>\<open>Manifests\<close> (\<^verbatim>\<open>src/crates/bowline-local/src/sync/manifest_engine\<close>). A manifest maps
  workspace paths to entries; published, it is a Merkle tree with one node per directory.

  \<^item> \<open>Workspace_Paths\<close> (\<^verbatim>\<open>workspace_graph.rs\<close>, \<^verbatim>\<open>policy/state_paths.rs\<close>, \<^verbatim>\<open>manifest.rs\<close>):
    normalization and the predicate for publishable paths, each shown equal to its
    specification.
  \<^item> \<open>Ordered_Maps\<close>: Rust's \<open>BTreeMap\<close> as a sorted association list, with its laws as a
    locale that the list operations interpret.
  \<^item> \<open>Manifest_Types\<close> (\<^verbatim>\<open>manifest.rs\<close>, \<^verbatim>\<open>manifest/tree.rs\<close>): entries, limits, errors, nodes and
    the decoder's checks, with exactly what they accept.
  \<^item> \<open>Directory_Tree\<close>, \<open>Directory_Decomposition\<close>, \<open>Subtree_Hashes\<close>
    (\<^verbatim>\<open>manifest/directory_tree.rs\<close>): the decomposition of a manifest into directories, exact
    for every manifest, and the subtree hashes, which are computed in one pass and are equal
    only for equal subtrees.
  \<^item> \<open>Tree_Transport\<close> (\<^verbatim>\<open>tree_transport.rs\<close>, \<^verbatim>\<open>publish.rs\<close>, \<^verbatim>\<open>fetch.rs\<close>): publishing with the node
    ledger, and fetching with pruning. \<open>Tree_Storage\<close> relates the object store to the
    directories it holds and has the ledger's interface as a locale, interpreted by both
    ledgers of the code; \<open>Tree_Bounds\<close> shows that no answer of the store takes a fetch past
    the limits; \<open>Tree_Fetching\<close> that a stored tree is walked exactly; \<open>Tree_Round_Trip\<close> puts
    publishing and fetching together; \<open>Publish_Cost\<close> counts the uploads.
  \<^item> \<open>Tree_Patch\<close> (\<^verbatim>\<open>patch.rs\<close>): the copy-on-write patch that a push applies to a published
    tree. \<open>Relative_Manifests\<close> describes a directory by the manifest of what lies below it,
    \<open>Patch_Edits\<close> relates an editable node to such a manifest, \<open>Patch_Applies\<close> shows that one
    change to a node is one change to its manifest, \<open>Patch_Seals\<close> that sealing stores what
    was edited, and \<open>Patch_Refinement\<close> that a patch refines the update of the manifest.

  \<^bold>\<open>Pulling\<close> (\<^verbatim>\<open>pull_apply.rs\<close>, \<^verbatim>\<open>pull_apply/*.rs\<close>, \<^verbatim>\<open>store.rs\<close>). A pull compares, path by path,
  the ancestor (the rows this device last agreed on), the remote manifest and the disk, plans
  operations, and applies them one by one behind an intent journal.

  \<^item> \<open>Symlink_Containment\<close> (\<^verbatim>\<open>workspace_graph.rs\<close>, \<^verbatim>\<open>fs_guard.rs\<close>): the two gates for symbolic
    links, against a model of how the kernel follows links: what the gates keep inside the
    workspace, and the cancelling targets for which they do not.
  \<^item> \<open>Git_Paths\<close> (\<^verbatim>\<open>git_paths.rs\<close>, \<^verbatim>\<open>pull_apply/git_contract.rs\<close>): the classes of paths inside a Git
    repository, and the cache of lock probes with how old its answers may be.
  \<^item> \<open>Engine_Types\<close>, \<open>Merge_Deltas\<close>, \<open>Merge_Matrix\<close> (\<^verbatim>\<open>entry_record.rs\<close>, \<^verbatim>\<open>unsyncable.rs\<close>,
    \<^verbatim>\<open>delta.rs\<close>, \<open>classify\<close> and \<open>classify_one\<close> of \<^verbatim>\<open>pull_apply.rs\<close>): rows, observations, what each
    side did to a path, and the merge matrix. \<open>Merge_Properties\<close> and \<open>Merge_Guarantees\<close> show
    that a plan displaces only content held elsewhere, forgets no change of either side, and
    is the same plan when only changed and dirty paths are looked at.
  \<^item> \<open>Engine_Store\<close> (\<^verbatim>\<open>store.rs\<close>, \<^verbatim>\<open>store/*.rs\<close>): the tables and transactions, with the invariant of
    the applied head and the freshness ratchet.
  \<^item> \<open>Pull_Apply\<close> (\<^verbatim>\<open>apply.rs\<close>, \<^verbatim>\<open>applied_outcome.rs\<close>, \<^verbatim>\<open>prefetch.rs\<close>, \<^verbatim>\<open>intents.rs\<close>): one operation with
    its second look at the preimage, windows, order, deferral, and the outcome transaction.
    \<open>Apply_Properties\<close>, \<open>Apply_Outcome\<close> and \<open>Apply_Guarantees\<close> show that a racing write survives,
    that what is displaced is held, that the order is right, that a deferred path keeps its
    base and that the outcome is one durable step.
  \<^item> \<open>Pull_Recovery\<close> (second half of \<^verbatim>\<open>apply.rs\<close>): classification and replay of open intents after
    a crash; \<open>Recovery_Guarantees\<close> shows that a modified target is left alone and that every
    intent is retired or the failure is one the driver retries.

  \<^bold>\<open>Pushing\<close> (\<^verbatim>\<open>push.rs\<close>, \<^verbatim>\<open>push/candidate.rs\<close>, \<^verbatim>\<open>endpoint.rs\<close>). A push looks at the dirty paths,
  uploads what is new, patches the published tree and swaps the workspace ref.

  \<^item> \<open>Stat_Trust\<close> (\<^verbatim>\<open>endpoint.rs\<close>): when a stat alone settles that a file is unchanged, with the
    proof that it then has the bytes its row was proved with; spellings of names.
  \<^item> \<open>Push_Candidate\<close> (\<^verbatim>\<open>candidate.rs\<close>, the uploads of \<^verbatim>\<open>push.rs\<close>): the scan of the dirty paths, two
    looks at each, and the deletion guard. Between any two looks other programs may change the
    disk.
  \<^item> \<open>Push_Cycle\<close> (\<^verbatim>\<open>push.rs\<close>): publishing the delta or the whole manifest, the compare-and-swap
    and its commit. \<open>Push_Properties\<close>, \<open>Push_Guarantees\<close> and \<open>Push_Examples\<close> show that what is
    there is not published as deleted, that the published delta is the update of the manifest,
    that the ancestor moves only with the ref, and what a failed second read does.

  \<^bold>\<open>Comparing heads\<close> (\<^verbatim>\<open>tree_transport/diff.rs\<close>, \<^verbatim>\<open>pull_apply.rs\<close>). A pull that has applied a head
  before fetches only what differs from it.

  \<^item> \<open>Tree_Diff\<close> (\<^verbatim>\<open>diff.rs\<close>): the comparison of two trees, with its cache of opened nodes and its
    budgets. \<open>Diff_Readings\<close> says what a key denotes to a reader, \<open>Diff_Exactness\<close> that the
    comparison moves its state by exactly the paths that differ, \<open>Diff_Fetch\<close> that a whole fetch
    returns what its root denotes.
  \<^item> \<open>Pull_Head\<close> (\<^verbatim>\<open>pull_apply.rs\<close>): one pull, from recovery over the freshness check and the
    decision to the application. \<open>Diff_Guarantees\<close> shows that the comparison is the difference of
    two whole fetches and that the incremental decision is the whole one; \<open>Diff_Examples\<close> shows
    a collision that the comparison misses.

  \<^bold>\<open>Driving\<close> (\<^verbatim>\<open>mod.rs\<close>, \<^verbatim>\<open>state.rs\<close>, \<^verbatim>\<open>events.rs\<close>, \<^verbatim>\<open>dirty_set.rs\<close>, \<^verbatim>\<open>scan_cycle.rs\<close>, \<^verbatim>\<open>ref_observation.rs\<close>,
  \<^verbatim>\<open>publish_cycle.rs\<close>, \<^verbatim>\<open>cycle_outcome.rs\<close>). The engine folds events into a schedule and runs cycles
  of scan, pull and push when a deadline has passed.

  \<^item> \<open>Engine_Driver\<close>: \<open>ManifestEngine\<close> as a record, events, timers, degradation and the errors of a
    cycle. \<open>Engine_Cycle\<close>: scanning, pulling, publishing in batches, one cycle, due work,
    authoritative walks, barriers and startup. What a cycle does to the disk and the services is a
    parameter, \<open>engine_io\<close>; \<open>Engine_Device\<close> puts the modelled push, pull and recovery there.
  \<^item> \<open>Engine_Frames\<close> and \<open>Engine_Steps\<close>: what each part leaves alone, the step relation over the
    operations of an engine, and the interface \<open>engine_world\<close> of a world that keeps the frontier
    and refuses honestly, which every device with an honest scanner gives.
  \<^item> \<open>Engine_Guarantees\<close>, \<open>Engine_Schedule\<close>, \<open>Engine_Examples\<close>: receipts are exact, no dirty path is
    lost, the freshness ratchet never falls, confirmations are spent once, removals are not
    split over batches, a burst is published in time; and two ways in which a failed cycle is
    scheduled wrongly.

  \<^bold>\<open>Conventions.\<close> A Rust \<open>u64\<close> or \<open>u32\<close> is a natural number, with its checked or saturating
  arithmetic and its bound written out; a \<open>str\<close> is the list of its bytes; a \<open>Result\<close> is a sum
  with the error on the left; a \<open>BTreeMap\<close> is a sorted association list. A recursion that the
  code bounds by a depth guard is a primitive recursion on the levels left: \<open>publish_dir\<close> and
  \<open>descend\<close> start with one level more than the guard's limit, and no level left is the guard's
  error, so nothing is cut off that the code would do. The loops of path normalization
  terminate because every turn shortens the path.

  \<^bold>\<open>Parameters.\<close> The postcard codec, the envelope (compression and encryption), BLAKE3, the
  object store, the rows of the SQLite store, clocks and the native watcher are arguments of the
  definitions. What is assumed of them is named: \<open>codec_laws\<close>, \<open>put_laws\<close>, \<open>io_total\<close>, and
  injectivity of the digest on the byte strings that are actually hashed. A pull looks at the
  disk through \<open>world\<close> and changes it through the primitives of \<open>disk\<close>, functions on a state that
  other programs may change too; what is assumed of them is named where it is used:
  \<open>aside_replaces_nothing\<close> (an aside takes a free name), \<open>stamps_only\<close> (proving rows keeps their
  paths). A push looks at the disk and uploads through \<open>scanner\<close> and talks to the services through
  \<open>push_remote\<close>; \<open>stays\<close> names what other programs leave alone during a scan, and
  \<open>ctime_dates_writes\<close> that a write moves the change time. \<open>rows_complete\<close> says that ancestor rows of files carry their content identity. The
  witnesses instantiate them.

  \<^bold>\<open>Not modelled.\<close> Of the manifest engine: the stat walk, the root sentinel and the probes of the
  volume, which are parameters of the driver, the file-system primitives of \<^verbatim>\<open>materialize.rs\<close> and
  \<^verbatim>\<open>fs_guard\<close>, which are system calls and parameters of the pull, the failures of SQLite itself, and
  work views; counters for observability are left out of the modelled functions. The loop that
  receives events is the step relation of \<open>Engine_Steps\<close>, which allows every order of events,
  due work and changes of the world. Of the daemon: the socket server, the scheduler, the native
  watcher adapters and the status projection. The command line, the terminal interface, the
  hosted client and the services are presentation and transport.
\<close>

end
